(* ===== verification/Mms_Prelude.thy ===== *)
theory Mms_Prelude
  imports Main "HOL-Library.Word"
begin

text \<open>
  Shared vocabulary of the development: machine types, the outcome of a C computation, C strings and
  the few operations of the base library (libc and GLib strings and containers) that the sources
  under \<^verbatim>\<open>mms-lib\<close> use everywhere.

  \<^item> A C string is a \<^typ>\<open>string\<close> without its terminating NUL; \<^verbatim>\<open>NULL\<close> is \<open>None\<close>.
    \<open>peek\<close> reads \<^verbatim>\<open>*ptr\<close>, with NUL at the end.
  \<^item> \<^verbatim>\<open>GString\<close> is a \<^typ>\<open>string\<close>, \<^verbatim>\<open>GPtrArray\<close>, \<^verbatim>\<open>GSList\<close> and a NULL-terminated
    \<^verbatim>\<open>char**\<close> are lists.
  \<^item> \<open>Undef\<close> is the outcome of an access that C leaves undefined (a NULL dereference, a store past
    the end of a buffer, a read past the end of a PDU); a computation that returns is \<open>Ret\<close>.
\<close>

unbundle bit_operations_syntax

section \<open>Machine types and bytes\<close>

type_synonym byte = "8 word"
type_synonym u32 = "32 word"
type_synonym u64 = "64 word"

text \<open>The octets of a C string, without the NUL, and back.\<close>

definition bytes_of :: "string \<Rightarrow> byte list" where
  "bytes_of s = map of_char s"

definition string_of :: "byte list \<Rightarrow> string" where
  "string_of bs = map (\<lambda>b. char_of (unat b)) bs"

text \<open>\<^verbatim>\<open>strcpy\<close> stores the octets and the NUL.\<close>

definition strz :: "string \<Rightarrow> byte list" where
  "strz s = bytes_of s @ [0]"

text \<open>\<^verbatim>\<open>s[0] & 0x80\<close>, with \<^verbatim>\<open>s[0]\<close> the NUL for the empty string.\<close>

definition high_first :: "string \<Rightarrow> bool" where
  "high_first s = (case s of [] \<Rightarrow> False | c # _ \<Rightarrow> (of_char c :: nat) \<ge> 128)"

lemma length_bytes_of [simp]: "length (bytes_of s) = length s"
  by (simp add: bytes_of_def)

lemma length_strz [simp]: "length (strz s) = Suc (length s)"
  by (simp add: strz_def)

lemma bytes_of_Nil [simp]: "bytes_of [] = []"
  by (simp add: bytes_of_def)

lemma bytes_of_append [simp]: "bytes_of (s @ t) = bytes_of s @ bytes_of t"
  by (simp add: bytes_of_def)

lemma unat_of_char_byte [simp]: "unat (of_char c :: byte) = of_char c"
proof -
  have "unat (word_of_nat (of_char c) :: byte) = of_char c"
    by (simp only: unat_of_nat) simp
  then show ?thesis by (simp add: of_nat_of_char)
qed

lemma ucast_byte_u32 [simp]: "ucast (ucast b :: u32) = (b :: byte)"
  by transfer simp

lemma string_of_bytes_of [simp]: "string_of (bytes_of s) = s"
  by (simp add: string_of_def bytes_of_def comp_def)

section \<open>Outcomes\<close>

datatype 'a outcome = Undef | Ret 'a

fun bind_outcome :: "'a outcome \<Rightarrow> ('a \<Rightarrow> 'b outcome) \<Rightarrow> 'b outcome" where
  "bind_outcome Undef f = Undef"
| "bind_outcome (Ret x) f = f x"

lemma bind_outcome_eq_Ret [simp]:
  "bind_outcome m f = Ret y \<longleftrightarrow> (\<exists>x. m = Ret x \<and> f x = Ret y)"
  by (cases m) auto

lemma bind_outcome_defined:
  "m \<noteq> Undef \<Longrightarrow> (\<And>x. m = Ret x \<Longrightarrow> f x \<noteq> Undef) \<Longrightarrow> bind_outcome m f \<noteq> Undef"
  by (cases m) auto

section \<open>C strings\<close>

definition NUL :: char where "NUL = CHR 0x00"

fun peek :: "string \<Rightarrow> char" where
  "peek [] = NUL"
| "peek (c # _) = c"

definition cstring :: "string \<Rightarrow> bool" where
  "cstring s \<longleftrightarrow> NUL \<notin> set s"

lemma cstring_Nil [simp]: "cstring []"
  by (simp add: cstring_def)

lemma cstring_Cons [simp]: "cstring (c # s) \<longleftrightarrow> c \<noteq> NUL \<and> cstring s"
  by (auto simp: cstring_def)

lemma cstring_append [simp]: "cstring (s @ t) \<longleftrightarrow> cstring s \<and> cstring t"
  by (auto simp: cstring_def)

text \<open>A non-NULL, non-empty string: \<^verbatim>\<open>s && s[0]\<close>.\<close>

definition nonempty :: "string option \<Rightarrow> bool" where
  "nonempty s = (case s of None \<Rightarrow> False | Some t \<Rightarrow> t \<noteq> [])"

text \<open>\<^verbatim>\<open>g_ascii_tolower\<close> and \<^verbatim>\<open>g_ascii_strcasecmp(a, b) == 0\<close>.\<close>

definition ascii_tolower :: "char \<Rightarrow> char" where
  "ascii_tolower c = (let n = of_char c :: nat in if 65 \<le> n \<and> n \<le> 90 then char_of (n + 32) else c)"

definition ascii_caseeq :: "string \<Rightarrow> string \<Rightarrow> bool" where
  "ascii_caseeq a b = (map ascii_tolower a = map ascii_tolower b)"

lemma ascii_caseeq_refl [simp]: "ascii_caseeq a a"
  by (simp add: ascii_caseeq_def)

text \<open>\<^verbatim>\<open>g_ascii_isspace\<close>: SP, HT, LF, VT, FF, CR.\<close>

definition ascii_isspace :: "char \<Rightarrow> bool" where
  "ascii_isspace c = (let n = of_char c :: nat in n = 32 \<or> (9 \<le> n \<and> n \<le> 13))"

definition ascii_isdigit :: "char \<Rightarrow> bool" where
  "ascii_isdigit c = (let n = of_char c :: nat in 48 \<le> n \<and> n \<le> 57)"

text \<open>\<^verbatim>\<open>g_str_has_prefix(s, p)\<close>.\<close>

definition has_prefix :: "string \<Rightarrow> string \<Rightarrow> bool" where
  "has_prefix s p = (take (length p) s = p)"

text \<open>\<^verbatim>\<open>g_strsplit(s, d, 0)\<close> for a one-character delimiter: an empty string has no parts, any other
  string has one part more than it has delimiters.\<close>

fun split_at_char :: "char \<Rightarrow> string \<Rightarrow> string list" where
  "split_at_char d [] = [[]]"
| "split_at_char d (c # s) =
     (if c = d then [] # split_at_char d s
      else case split_at_char d s of [] \<Rightarrow> [[c]] | p # ps \<Rightarrow> (c # p) # ps)"

definition g_strsplit :: "string \<Rightarrow> char \<Rightarrow> string list" where
  "g_strsplit s d = (if s = [] then [] else split_at_char d s)"

text \<open>\<^verbatim>\<open>g_strjoinv(sep, parts)\<close>.\<close>

fun join_with :: "string \<Rightarrow> string list \<Rightarrow> string" where
  "join_with sep [] = []"
| "join_with sep [p] = p"
| "join_with sep (p # ps) = p @ sep @ join_with sep ps"

lemma split_at_char_not_Nil [simp]: "split_at_char d s \<noteq> []"
  by (induction s) (auto split: list.splits)

lemma join_with_Cons: "ps \<noteq> [] \<Longrightarrow> join_with sep (p # ps) = p @ sep @ join_with sep ps"
  by (cases ps) auto

lemma join_split_at_char: "join_with [d] (split_at_char d s) = s"
proof (induction s)
  case (Cons c s)
  show ?case
  proof (cases "c = d")
    case True
    then show ?thesis using Cons by (simp add: join_with_Cons)
  next
    case False
    obtain p ps where sp: "split_at_char d s = p # ps"
      by (cases "split_at_char d s") auto
    then have "join_with [d] ((c # p) # ps) = c # join_with [d] (p # ps)"
      by (cases ps) auto
    then show ?thesis using Cons False sp by simp
  qed
qed simp

lemma split_at_char_no_delim: "p \<in> set (split_at_char d s) \<Longrightarrow> d \<notin> set p"
  by (induction s arbitrary: p) (auto split: list.splits if_splits)

lemma split_at_char_single: "d \<notin> set s \<Longrightarrow> split_at_char d s = [s]"
  by (induction s) auto

lemma split_at_char_append:
  "d \<notin> set p \<Longrightarrow> split_at_char d (p @ d # s) = p # split_at_char d s"
  by (induction p) auto

lemma split_at_char_join:
  "ps \<noteq> [] \<Longrightarrow> (\<forall>p\<in>set ps. d \<notin> set p) \<Longrightarrow> split_at_char d (join_with [d] ps) = ps"
proof (induction ps)
  case (Cons p ps)
  then show ?case
    by (cases "ps = []") (simp_all add: split_at_char_single join_with_Cons split_at_char_append)
qed simp

section \<open>Lists\<close>

lemma takeWhile_append_dropWhile_all:
  "(\<forall>x\<in>set xs. P x) \<Longrightarrow> (ys = [] \<or> \<not> P (hd ys)) \<Longrightarrow>
     takeWhile P (xs @ ys) = xs \<and> dropWhile P (xs @ ys) = ys"
  by (induction xs) (cases ys; auto)+

text \<open>The store \<^verbatim>\<open>memcpy(buf + off, bs, n)\<close> on an array.\<close>

definition overwrite :: "'a list \<Rightarrow> nat \<Rightarrow> 'a list \<Rightarrow> 'a list" where
  "overwrite buf off bs = take off buf @ bs @ drop (off + length bs) buf"

lemma length_overwrite [simp]:
  "off + length bs \<le> length buf \<Longrightarrow> length (overwrite buf off bs) = length buf"
  by (simp add: overwrite_def)

lemma take_overwrite:
  "off + length bs \<le> length buf \<Longrightarrow> take (off + length bs) (overwrite buf off bs) = take off buf @ bs"
  by (simp add: overwrite_def)

lemma take_overwrite_same:
  "n \<le> off \<Longrightarrow> off \<le> length buf \<Longrightarrow> take n (overwrite buf off bs) = take n buf"
  by (simp add: overwrite_def min_absorb1)

end
