(* ===== verification/Task_Core.thy ===== *)
theory Task_Core
  imports Mms_Prelude
begin

text \<open>
  The abstract base class of all tasks, \<^verbatim>\<open>mms-lib/src/mms_task.c\<close> and \<^verbatim>\<open>mms_task.h\<close>.

  \<^item> \<open>mms_task\<close> is \<^verbatim>\<open>struct mms_task\<close> with its private part. A subclass is an extension of the record,
    as it is a longer struct in C. \<open>t_retry_secs\<close> is \<^verbatim>\<open>task_config(task)->retry_secs\<close>. A GLib timeout
    source is its being armed (\<open>t_wakeup_id\<close>) and the time it fires at.
  \<^item> \<open>t_calls\<close> is what the task has told the objects it points to (delegate, message handler,
    transfer list), oldest first. It is the only way in which a task acts on the rest of the program.
  \<^item> \<open>mms_task_class\<close> is the table of virtual functions. A definition that makes a virtual call takes
    the table or the function as an argument. \<open>now\<close> is the value of \<^verbatim>\<open>time(NULL)\<close> while a callback runs.
  \<^item> The locale \<open>mms_task_contract\<close> states what the code of \<^verbatim>\<open>mms_task.c\<close> asserts of a subclass before
    and after each virtual call.
\<close>

section \<open>States and priorities\<close>

datatype mms_task_state =
    MMS_TASK_STATE_READY
  | MMS_TASK_STATE_NEED_CONNECTION
  | MMS_TASK_STATE_NEED_USER_CONNECTION
  | MMS_TASK_STATE_TRANSMITTING
  | MMS_TASK_STATE_WORKING
  | MMS_TASK_STATE_PENDING
  | MMS_TASK_STATE_SLEEP
  | MMS_TASK_STATE_DONE

datatype mms_task_priority = MMS_TASK_PRIORITY_NORMAL | MMS_TASK_PRIORITY_POST_PROCESS

fun priority_value :: "mms_task_priority \<Rightarrow> int" where
  "priority_value MMS_TASK_PRIORITY_NORMAL = 0"
| "priority_value MMS_TASK_PRIORITY_POST_PROCESS = 1"

text \<open>The numbers of the enumeration, and the table \<^verbatim>\<open>mms_task_names\<close> it indexes.\<close>

fun task_state_value :: "mms_task_state \<Rightarrow> nat" where
  "task_state_value MMS_TASK_STATE_READY = 0"
| "task_state_value MMS_TASK_STATE_NEED_CONNECTION = 1"
| "task_state_value MMS_TASK_STATE_NEED_USER_CONNECTION = 2"
| "task_state_value MMS_TASK_STATE_TRANSMITTING = 3"
| "task_state_value MMS_TASK_STATE_WORKING = 4"
| "task_state_value MMS_TASK_STATE_PENDING = 5"
| "task_state_value MMS_TASK_STATE_SLEEP = 6"
| "task_state_value MMS_TASK_STATE_DONE = 7"

definition mms_task_names :: "string list" where
  "mms_task_names = [''READY'', ''NEED_CONNECTION'', ''NEED_USER_CONNECTION'', ''TRANSMITTING'',
     ''WORKING'', ''PENDING'', ''SLEEP'', ''DONE'']"

definition mms_task_state_name :: "mms_task_state \<Rightarrow> string" where
  "mms_task_state_name st = mms_task_names ! task_state_value st"

text \<open>The states are ordered as their numbers are.\<close>

instantiation mms_task_state :: linorder
begin

definition less_eq_mms_task_state :: "mms_task_state \<Rightarrow> mms_task_state \<Rightarrow> bool" where
  "less_eq_mms_task_state a b \<longleftrightarrow> task_state_value a \<le> task_state_value b"

definition less_mms_task_state :: "mms_task_state \<Rightarrow> mms_task_state \<Rightarrow> bool" where
  "less_mms_task_state a b \<longleftrightarrow> task_state_value a < task_state_value b"

instance
proof
  fix x y :: mms_task_state
  assume "x \<le> y" "y \<le> x"
  then show "x = y"
    by (cases x; cases y) (simp_all add: less_eq_mms_task_state_def)
qed (auto simp: less_eq_mms_task_state_def less_mms_task_state_def)

end

section \<open>What a task tells its observers\<close>

text \<open>Enumerations of \<^verbatim>\<open>mms_handler.h\<close>.\<close>

datatype mms_receive_state =
    MMS_RECEIVE_STATE_RECEIVING | MMS_RECEIVE_STATE_DEFERRED | MMS_RECEIVE_STATE_NOSPACE
  | MMS_RECEIVE_STATE_DECODING | MMS_RECEIVE_STATE_DOWNLOAD_ERROR | MMS_RECEIVE_STATE_DECODING_ERROR

datatype mms_send_state =
    MMS_SEND_STATE_ENCODING | MMS_SEND_STATE_TOO_BIG | MMS_SEND_STATE_SENDING
  | MMS_SEND_STATE_DEFERRED | MMS_SEND_STATE_NO_SPACE | MMS_SEND_STATE_SEND_ERROR
  | MMS_SEND_STATE_REFUSED

datatype mms_delivery_status =
    MMS_DELIVERY_STATUS_UNKNOWN | MMS_DELIVERY_STATUS_EXPIRED | MMS_DELIVERY_STATUS_RETRIEVED
  | MMS_DELIVERY_STATUS_REJECTED | MMS_DELIVERY_STATUS_DEFERRED | MMS_DELIVERY_STATUS_UNRECOGNISED
  | MMS_DELIVERY_STATUS_FORWARDED | MMS_DELIVERY_STATUS_UNREACHABLE

datatype mms_read_status =
    MMS_READ_STATUS_INVALID | MMS_READ_STATUS_READ | MMS_READ_STATUS_DELETED

datatype mms_read_report_status =
    MMS_READ_REPORT_STATUS_OK | MMS_READ_REPORT_STATUS_IO_ERROR
  | MMS_READ_REPORT_STATUS_PERMANENT_ERROR

text \<open>Calls of the delegate (the first two), of the transfer list (message id and transfer type) and of
  the message handler. \<open>'q\<close> stands for a queued task.\<close>

datatype 'q task_call =
    Task_Queued 'q
  | Task_State_Changed mms_task_state
  | Transfer_Started "string option" string
  | Transfer_Finished "string option" string
  | Transfer_Send_Progress "string option" string u32 u32
  | Transfer_Receive_Progress "string option" string u32 u32
  | Message_Receive_State_Changed "string option" mms_receive_state
  | Message_Send_State_Changed "string option" mms_send_state "string option"
  | Message_Sent "string option" string
  | Read_Report_Send_Status "string option" mms_read_report_status
  | Delivery_Report "string option" "string option" "string option" mms_delivery_status
  | Read_Report "string option" "string option" "string option" mms_read_status
  | Message_Notify "string option" "string option" "string option" int "string option"
  | Message_Notify_Cancel
  | Message_Received "string option"
  | Message_Received_Cancel

section \<open>The task object\<close>

definition MMS_TASK_FLAG_CANCELLED :: u32 where "MMS_TASK_FLAG_CANCELLED = 0x01"

record 'q mms_task =
  t_priority :: mms_task_priority
  t_order :: int
  t_name :: "string option"
  t_id :: "string option"
  t_imsi :: "string option"
  t_delegate :: bool
  t_state :: mms_task_state
  t_deadline :: int
  t_flags :: u32
  t_retry_secs :: u32
  t_wakeup_id :: bool
  t_wakeup_time :: int
  t_calls :: "'q task_call list"

definition tell :: "'q task_call \<Rightarrow> ('q, 'a) mms_task_scheme \<Rightarrow> ('q, 'a) mms_task_scheme" where
  "tell c t = t\<lparr>t_calls := t_calls t @ [c]\<rparr>"

definition cancelled :: "('q, 'a) mms_task_scheme \<Rightarrow> bool" where
  "cancelled t \<longleftrightarrow> t_flags t AND MMS_TASK_FLAG_CANCELLED \<noteq> 0"

section \<open>Waking up and changing the state\<close>

text \<open>\<^verbatim>\<open>max_secs\<close> is an \<^verbatim>\<open>unsigned int\<close>: the difference of the two times is cut to 32 bits.\<close>

definition mms_task_schedule_wakeup ::
    "int \<Rightarrow> u32 \<Rightarrow> ('q, 'a) mms_task_scheme \<Rightarrow> bool \<times> ('q, 'a) mms_task_scheme" where
  "mms_task_schedule_wakeup now secs t =
     (let secs = (if secs = 0 then t_retry_secs t else secs);
          t = (if t_wakeup_id t then t\<lparr>t_wakeup_id := False\<rparr> else t);
          t = (if now < t_deadline t
               then let max_secs = word_of_int (t_deadline t - now) :: u32;
                        secs = (if secs > max_secs then max_secs else secs)
                    in t\<lparr>t_wakeup_time := now + uint secs, t_wakeup_id := True\<rparr>
               else t)
      in (t_wakeup_id t, t))"

text \<open>The store to \<^verbatim>\<open>task->state\<close> and the call of the delegate that follows it.\<close>

definition store_state :: "mms_task_state \<Rightarrow> ('q, 'a) mms_task_scheme \<Rightarrow> ('q, 'a) mms_task_scheme" where
  "store_state st t =
     (if t_state t \<noteq> st
      then let t = t\<lparr>t_state := st\<rparr> in if t_delegate t then tell (Task_State_Changed st) t else t
      else t)"

text \<open>The first argument is the virtual \<^verbatim>\<open>fn_cancel\<close> of the task.\<close>

definition mms_task_set_state ::
    "(('q, 'a) mms_task_scheme \<Rightarrow> ('q, 'a) mms_task_scheme) \<Rightarrow> int \<Rightarrow> mms_task_state
       \<Rightarrow> ('q, 'a) mms_task_scheme \<Rightarrow> ('q, 'a) mms_task_scheme" where
  "mms_task_set_state fn_cancel now st t =
     (if t_state t \<noteq> st
      then (if st = MMS_TASK_STATE_SLEEP \<and> \<not> t_wakeup_id t
            then (case mms_task_schedule_wakeup now (t_retry_secs t) t of
                (True, t) \<Rightarrow> store_state st t
              | (False, t) \<Rightarrow> store_state MMS_TASK_STATE_DONE (fn_cancel t))
            else store_state st t)
      else t)"

text \<open>The default \<^verbatim>\<open>fn_cancel\<close>. Going to \<^verbatim>\<open>DONE\<close> makes no virtual call, so the \<^verbatim>\<open>fn_cancel\<close> given to
  \<open>mms_task_set_state\<close> here does not matter.\<close>

definition mms_task_cancel_cb :: "int \<Rightarrow> ('q, 'a) mms_task_scheme \<Rightarrow> ('q, 'a) mms_task_scheme" where
  "mms_task_cancel_cb now t =
     (let t = (if t_wakeup_id t then t\<lparr>t_wakeup_id := False\<rparr> else t);
          t = t\<lparr>t_flags := t_flags t OR MMS_TASK_FLAG_CANCELLED\<rparr>
      in mms_task_set_state (\<lambda>t. t) now MMS_TASK_STATE_DONE t)"

definition mms_task_wakeup_callback ::
    "(('q, 'a) mms_task_scheme \<Rightarrow> ('q, 'a) mms_task_scheme) \<Rightarrow> int
       \<Rightarrow> ('q, 'a) mms_task_scheme \<Rightarrow> ('q, 'a) mms_task_scheme" where
  "mms_task_wakeup_callback fn_cancel now t =
     mms_task_set_state fn_cancel now MMS_TASK_STATE_READY (t\<lparr>t_wakeup_id := False\<rparr>)"

definition mms_task_sleep ::
    "(('q, 'a) mms_task_scheme \<Rightarrow> ('q, 'a) mms_task_scheme) \<Rightarrow> int \<Rightarrow> u32
       \<Rightarrow> ('q, 'a) mms_task_scheme \<Rightarrow> bool \<times> ('q, 'a) mms_task_scheme" where
  "mms_task_sleep fn_cancel now secs t =
     (case mms_task_schedule_wakeup now secs t of
        (ok, t) \<Rightarrow> (ok, mms_task_set_state fn_cancel now
                         (if ok then MMS_TASK_STATE_SLEEP else MMS_TASK_STATE_DONE) t))"

definition mms_task_retry ::
    "(('q, 'a) mms_task_scheme \<Rightarrow> ('q, 'a) mms_task_scheme) \<Rightarrow> int
       \<Rightarrow> ('q, 'a) mms_task_scheme \<Rightarrow> bool \<times> ('q, 'a) mms_task_scheme" where
  "mms_task_retry fn_cancel now t = mms_task_sleep fn_cancel now 0 t"

section \<open>Virtual calls\<close>

text \<open>\<^verbatim>\<open>MMSTaskClass\<close>: the functions take the time, \<open>'c\<close> is the connection.\<close>

record ('c, 't) mms_task_class =
  max_lifetime :: int
  fn_run :: "int \<Rightarrow> 't \<Rightarrow> 't"
  fn_transmit :: "int \<Rightarrow> 'c \<Rightarrow> 't \<Rightarrow> 't"
  fn_network_unavailable :: "int \<Rightarrow> bool \<Rightarrow> 't \<Rightarrow> 't"
  fn_cancel :: "int \<Rightarrow> 't \<Rightarrow> 't"

definition mms_task_run ::
    "('c, ('q, 'a) mms_task_scheme) mms_task_class \<Rightarrow> int \<Rightarrow> ('q, 'a) mms_task_scheme
       \<Rightarrow> ('q, 'a) mms_task_scheme" where
  "mms_task_run klass now t = fn_run klass now t"

definition mms_task_transmit ::
    "('c, ('q, 'a) mms_task_scheme) mms_task_class \<Rightarrow> int \<Rightarrow> 'c \<Rightarrow> ('q, 'a) mms_task_scheme
       \<Rightarrow> ('q, 'a) mms_task_scheme" where
  "mms_task_transmit klass now conn t = fn_transmit klass now conn t"

definition mms_task_network_unavailable ::
    "('c, ('q, 'a) mms_task_scheme) mms_task_class \<Rightarrow> int \<Rightarrow> bool \<Rightarrow> ('q, 'a) mms_task_scheme
       \<Rightarrow> ('q, 'a) mms_task_scheme" where
  "mms_task_network_unavailable klass now can_retry t =
     (if t_state t \<noteq> MMS_TASK_STATE_DONE then fn_network_unavailable klass now can_retry t else t)"

definition mms_task_cancel ::
    "('c, ('q, 'a) mms_task_scheme) mms_task_class \<Rightarrow> int \<Rightarrow> ('q, 'a) mms_task_scheme
       \<Rightarrow> ('q, 'a) mms_task_scheme" where
  "mms_task_cancel klass now t = fn_cancel klass now t"

section \<open>Creation, identity and the order of creation\<close>

text \<open>The two static counters of \<^verbatim>\<open>mms_task.c\<close>, of type \<^verbatim>\<open>int\<close>. They are reset whenever no task is left, and do not
  overflow before \<^verbatim>\<open>INT_MAX\<close> tasks have been created without that; the model does not go that far.\<close>

record task_counters =
  mms_task_order :: int
  mms_task_count :: int

definition mms_task_init :: "task_counters \<Rightarrow> int \<times> task_counters" where
  "mms_task_init cs =
     (mms_task_order cs,
      cs\<lparr>mms_task_count := mms_task_count cs + 1, mms_task_order := mms_task_order cs + 1\<rparr>)"

definition mms_task_finalize :: "task_counters \<Rightarrow> task_counters" where
  "mms_task_finalize cs =
     (let cs = cs\<lparr>mms_task_count := mms_task_count cs - 1\<rparr>
      in if mms_task_count cs = 0 then cs\<lparr>mms_task_order := 0\<rparr> else cs)"

definition MMS_TASK_DEFAULT_LIFETIME :: int where "MMS_TASK_DEFAULT_LIFETIME = 600"

text \<open>\<^verbatim>\<open>printf("%s[%.08s]", name, id)\<close> prints at most eight characters of the id.\<close>

definition mms_task_alloc ::
    "int \<Rightarrow> u32 \<Rightarrow> int \<Rightarrow> string option \<Rightarrow> string option \<Rightarrow> string option \<Rightarrow> task_counters
       \<Rightarrow> 'q mms_task \<times> task_counters" where
  "mms_task_alloc lifetime retry_secs now nm ident imsi cs =
     (case mms_task_init cs of
        (order, cs) \<Rightarrow>
          (\<lparr>t_priority = MMS_TASK_PRIORITY_NORMAL, t_order = order,
            t_name = (case nm of None \<Rightarrow> None
                      | Some n \<Rightarrow> Some (case ident of None \<Rightarrow> n | Some i \<Rightarrow> n @ ''['' @ take 8 i @ '']'')),
            t_id = ident, t_imsi = imsi, t_delegate = False, t_state = MMS_TASK_STATE_READY,
            t_deadline = now + (if lifetime = 0 then MMS_TASK_DEFAULT_LIFETIME else lifetime),
            t_flags = 0, t_retry_secs = retry_secs, t_wakeup_id = False, t_wakeup_time = 0,
            t_calls = []\<rparr>, cs))"

text \<open>\<^verbatim>\<open>mms_task_queue_and_unref\<close>: \<open>None\<close> is a task that could not be created. The delegate given is the
  one of the task that queues.\<close>

definition mms_task_queue_and_unref ::
    "'q option \<Rightarrow> ('q, 'a) mms_task_scheme \<Rightarrow> bool \<times> ('q, 'a) mms_task_scheme" where
  "mms_task_queue_and_unref new t =
     (case new of
        None \<Rightarrow> (False, t)
      | Some q \<Rightarrow> if t_delegate t then (True, tell (Task_Queued q) t) else (False, t))"

definition mms_task_match_id :: "('q, 'a) mms_task_scheme option \<Rightarrow> string option \<Rightarrow> bool" where
  "mms_task_match_id task ident =
     (case task of
        None \<Rightarrow> False
      | Some t \<Rightarrow>
          if \<not> nonempty ident then True
          else if \<not> nonempty (t_id t) then False
          else the (t_id t) = the ident)"

text \<open>The file system: \<open>mkdir\<close> tells if the directory exists afterwards, \<open>mkdtemp\<close> is the path made from
  a template. \<^verbatim>\<open>g_build_filename\<close> (which skips an empty element) and \<^verbatim>\<open>g_path_get_basename\<close> on paths without a
  trailing slash.\<close>

definition MMS_MESSAGE_DIR :: string where "MMS_MESSAGE_DIR = ''msg''"

definition build_filename :: "string \<Rightarrow> string \<Rightarrow> string" where
  "build_filename dir f = (if f = [] then dir else dir @ ''/'' @ f)"

definition basename :: "string \<Rightarrow> string" where
  "basename path = rev (takeWhile (\<lambda>c. c \<noteq> CHR ''/'') (rev path))"

definition mms_task_make_id ::
    "string \<Rightarrow> (string \<Rightarrow> bool) \<Rightarrow> (string \<Rightarrow> string option) \<Rightarrow> ('q, 'a) mms_task_scheme
       \<Rightarrow> ('q, 'a) mms_task_scheme" where
  "mms_task_make_id root_dir mkdir mkdtemp t =
     (if \<not> nonempty (t_id t)
      then let msgdir = build_filename root_dir MMS_MESSAGE_DIR in
        if mkdir msgdir
        then (case mkdtemp (build_filename msgdir ''XXXXXX'') of
                None \<Rightarrow> t
              | Some taskdir \<Rightarrow> t\<lparr>t_id := Some (basename taskdir)\<rparr>)
        else t
      else t)"

section \<open>What an operation may change\<close>

text \<open>The fields that say which task it is and where it belongs are never changed by its operations.\<close>

definition same_task :: "('q, 'a) mms_task_scheme \<Rightarrow> ('q, 'a) mms_task_scheme \<Rightarrow> bool" where
  "same_task t t' \<longleftrightarrow> t_priority t' = t_priority t \<and> t_order t' = t_order t \<and> t_name t' = t_name t
     \<and> t_imsi t' = t_imsi t \<and> t_delegate t' = t_delegate t \<and> t_retry_secs t' = t_retry_secs t"

text \<open>The timer runs exactly while the task sleeps.\<close>

definition timer_ok :: "('q, 'a) mms_task_scheme \<Rightarrow> bool" where
  "timer_ok t \<longleftrightarrow> (t_wakeup_id t \<longleftrightarrow> t_state t = MMS_TASK_STATE_SLEEP)"

text \<open>A sleeping task wakes up no later than at its deadline.\<close>

definition wakes_in_time :: "('q, 'a) mms_task_scheme \<Rightarrow> bool" where
  "wakes_in_time t \<longleftrightarrow> (t_wakeup_id t \<longrightarrow> t_wakeup_time t \<le> t_deadline t)"

text \<open>What has been told grows at its end, and the last state told is the state of the task.\<close>

definition told_since :: "('q, 'a) mms_task_scheme \<Rightarrow> ('q, 'a) mms_task_scheme \<Rightarrow> 'q task_call list" where
  "told_since t t' = drop (length (t_calls t)) (t_calls t')"

definition extends :: "('q, 'a) mms_task_scheme \<Rightarrow> ('q, 'a) mms_task_scheme \<Rightarrow> bool" where
  "extends t t' \<longleftrightarrow> (\<exists>cs. t_calls t' = t_calls t @ cs)"

fun states_told :: "'q task_call list \<Rightarrow> mms_task_state list" where
  "states_told [] = []"
| "states_told (Task_State_Changed st # cs) = st # states_told cs"
| "states_told (_ # cs) = states_told cs"

fun tasks_queued :: "'q task_call list \<Rightarrow> 'q list" where
  "tasks_queued [] = []"
| "tasks_queued (Task_Queued q # cs) = q # tasks_queued cs"
| "tasks_queued (_ # cs) = tasks_queued cs"

section \<open>Lemmas\<close>

lemmas task_op_defs =
  mms_task_run_def mms_task_transmit_def mms_task_network_unavailable_def mms_task_cancel_def

lemma tell_fields [simp]:
  "t_priority (tell c t) = t_priority t" "t_order (tell c t) = t_order t"
  "t_name (tell c t) = t_name t" "t_id (tell c t) = t_id t" "t_imsi (tell c t) = t_imsi t"
  "t_delegate (tell c t) = t_delegate t" "t_state (tell c t) = t_state t"
  "t_deadline (tell c t) = t_deadline t" "t_flags (tell c t) = t_flags t"
  "t_retry_secs (tell c t) = t_retry_secs t" "t_wakeup_id (tell c t) = t_wakeup_id t"
  "t_wakeup_time (tell c t) = t_wakeup_time t" "t_calls (tell c t) = t_calls t @ [c]"
  by (simp_all add: tell_def)

lemma store_state_fields [simp]:
  "t_priority (store_state st t) = t_priority t" "t_order (store_state st t) = t_order t"
  "t_name (store_state st t) = t_name t" "t_id (store_state st t) = t_id t"
  "t_imsi (store_state st t) = t_imsi t" "t_delegate (store_state st t) = t_delegate t"
  "t_state (store_state st t) = st" "t_deadline (store_state st t) = t_deadline t"
  "t_flags (store_state st t) = t_flags t" "t_retry_secs (store_state st t) = t_retry_secs t"
  "t_wakeup_id (store_state st t) = t_wakeup_id t"
  "t_wakeup_time (store_state st t) = t_wakeup_time t"
  by (simp_all add: store_state_def Let_def)

lemma store_state_calls:
  "t_calls (store_state st t) =
     t_calls t @ (if t_state t \<noteq> st \<and> t_delegate t then [Task_State_Changed st] else [])"
  by (simp add: store_state_def Let_def)

lemma store_state_same [simp]: "t_state t = st \<Longrightarrow> store_state st t = t"
  by (simp add: store_state_def)

lemma set_state_awake:
  "st \<noteq> MMS_TASK_STATE_SLEEP \<Longrightarrow> mms_task_set_state c now st t = store_state st t"
  by (simp add: mms_task_set_state_def)

lemma set_state_armed: "t_wakeup_id t \<Longrightarrow> mms_task_set_state c now st t = store_state st t"
  by (simp add: mms_task_set_state_def)

lemmas set_state_done = set_state_awake [of MMS_TASK_STATE_DONE, simplified]

lemma schedule_wakeup_iff:
  "fst (mms_task_schedule_wakeup now secs t) \<longleftrightarrow> now < t_deadline t"
  by (simp add: mms_task_schedule_wakeup_def Let_def)

lemma schedule_wakeup_fields [simp]:
  "t_priority (snd (mms_task_schedule_wakeup now secs t)) = t_priority t"
  "t_order (snd (mms_task_schedule_wakeup now secs t)) = t_order t"
  "t_name (snd (mms_task_schedule_wakeup now secs t)) = t_name t"
  "t_id (snd (mms_task_schedule_wakeup now secs t)) = t_id t"
  "t_imsi (snd (mms_task_schedule_wakeup now secs t)) = t_imsi t"
  "t_delegate (snd (mms_task_schedule_wakeup now secs t)) = t_delegate t"
  "t_state (snd (mms_task_schedule_wakeup now secs t)) = t_state t"
  "t_deadline (snd (mms_task_schedule_wakeup now secs t)) = t_deadline t"
  "t_flags (snd (mms_task_schedule_wakeup now secs t)) = t_flags t"
  "t_retry_secs (snd (mms_task_schedule_wakeup now secs t)) = t_retry_secs t"
  "t_calls (snd (mms_task_schedule_wakeup now secs t)) = t_calls t"
  "t_wakeup_id (snd (mms_task_schedule_wakeup now secs t)) \<longleftrightarrow> now < t_deadline t"
  by (simp_all add: mms_task_schedule_wakeup_def Let_def)

lemma uint_word_of_int_le: "0 \<le> (i :: int) \<Longrightarrow> uint (word_of_int i :: 'a::len word) \<le> i"
  by (simp add: uint_word_of_int zmod_le_nonneg_dividend)

lemma schedule_wakeup_time:
  fixes t :: "('q, 'a) mms_task_scheme"
  assumes "now < t_deadline t"
  shows "now \<le> t_wakeup_time (snd (mms_task_schedule_wakeup now secs t))"
    and "t_wakeup_time (snd (mms_task_schedule_wakeup now secs t)) \<le> t_deadline t"
    and "t_wakeup_time (snd (mms_task_schedule_wakeup now secs t))
           \<le> now + uint (if secs = 0 then t_retry_secs t else secs)"
proof -
  define secs' where "secs' = (if secs = 0 then t_retry_secs t else secs)"
  define m :: u32 where "m = word_of_int (t_deadline t - now)"
  have time: "t_wakeup_time (snd (mms_task_schedule_wakeup now secs t)) =
      now + uint (if secs' > m then m else secs')"
    using assms by (simp add: mms_task_schedule_wakeup_def Let_def secs'_def m_def)
  have "uint m \<le> t_deadline t - now"
    using assms unfolding m_def by (intro uint_word_of_int_le) simp
  moreover have "uint (if secs' > m then m else secs') \<le> uint m"
    by (auto simp: word_less_def word_le_def)
  moreover have "uint (if secs' > m then m else secs') \<le> uint secs'"
    by (auto simp: word_less_def)
  moreover have "0 \<le> uint (if secs' > m then m else secs')"
    by simp
  ultimately show "now \<le> t_wakeup_time (snd (mms_task_schedule_wakeup now secs t))"
    and "t_wakeup_time (snd (mms_task_schedule_wakeup now secs t)) \<le> t_deadline t"
    and "t_wakeup_time (snd (mms_task_schedule_wakeup now secs t))
           \<le> now + uint (if secs = 0 then t_retry_secs t else secs)"
    unfolding time secs'_def [symmetric] by linarith+
qed

text \<open>Sleeping, without the pairs.\<close>

lemma sleep_eq:
  "mms_task_sleep c now secs t =
     (now < t_deadline t,
      store_state (if now < t_deadline t then MMS_TASK_STATE_SLEEP else MMS_TASK_STATE_DONE)
        (snd (mms_task_schedule_wakeup now secs t)))"
proof (cases "mms_task_schedule_wakeup now secs t")
  case (Pair ok u)
  then have "ok \<longleftrightarrow> now < t_deadline t" and "t_wakeup_id u \<longleftrightarrow> now < t_deadline t"
    using schedule_wakeup_iff [of now secs t] schedule_wakeup_fields(12) [of now secs t] by simp_all
  then show ?thesis
    by (simp add: mms_task_sleep_def Pair set_state_armed set_state_awake)
qed

lemma set_state_sleep_eq:
  "mms_task_set_state c now MMS_TASK_STATE_SLEEP t =
     (if t_state t = MMS_TASK_STATE_SLEEP then t
      else if t_wakeup_id t then store_state MMS_TASK_STATE_SLEEP t
      else if now < t_deadline t
      then store_state MMS_TASK_STATE_SLEEP (snd (mms_task_schedule_wakeup now (t_retry_secs t) t))
      else store_state MMS_TASK_STATE_DONE (c (snd (mms_task_schedule_wakeup now (t_retry_secs t) t))))"
  using schedule_wakeup_iff [of now "t_retry_secs t" t]
  by (auto simp: mms_task_set_state_def split: prod.splits)

lemma schedule_wakeup_late:
  "\<not> t_wakeup_id t \<Longrightarrow> \<not> now < t_deadline t \<Longrightarrow> snd (mms_task_schedule_wakeup now secs t) = t"
  by (simp add: mms_task_schedule_wakeup_def Let_def)

lemma cancel_cb_eq:
  "mms_task_cancel_cb now t =
     store_state MMS_TASK_STATE_DONE
       (t\<lparr>t_wakeup_id := False, t_flags := t_flags t OR MMS_TASK_FLAG_CANCELLED\<rparr>)"
proof -
  have "(if t_wakeup_id t then t\<lparr>t_wakeup_id := False\<rparr> else t) = t\<lparr>t_wakeup_id := False\<rparr>"
    by (cases t) simp
  then show ?thesis
    by (simp only: mms_task_cancel_cb_def Let_def set_state_done) simp
qed

lemma cancelled_or [simp]:
  "t_flags t = f OR MMS_TASK_FLAG_CANCELLED \<Longrightarrow> cancelled t"
proof -
  have "(f OR 1) AND 1 \<noteq> (0 :: u32)"
  proof
    assume "(f OR 1) AND 1 = (0 :: u32)"
    then have "bit ((f OR 1) AND 1) 0 = bit (0 :: u32) 0" by simp
    then show False by (simp add: bit_simps)
  qed
  then show "t_flags t = f OR MMS_TASK_FLAG_CANCELLED \<Longrightarrow> cancelled t"
    by (simp add: cancelled_def MMS_TASK_FLAG_CANCELLED_def)
qed

lemma cancel_cb_fields [simp]:
  "t_priority (mms_task_cancel_cb now t) = t_priority t"
  "t_order (mms_task_cancel_cb now t) = t_order t"
  "t_name (mms_task_cancel_cb now t) = t_name t" "t_id (mms_task_cancel_cb now t) = t_id t"
  "t_imsi (mms_task_cancel_cb now t) = t_imsi t"
  "t_delegate (mms_task_cancel_cb now t) = t_delegate t"
  "t_state (mms_task_cancel_cb now t) = MMS_TASK_STATE_DONE"
  "t_deadline (mms_task_cancel_cb now t) = t_deadline t"
  "t_retry_secs (mms_task_cancel_cb now t) = t_retry_secs t"
  "\<not> t_wakeup_id (mms_task_cancel_cb now t)" "cancelled (mms_task_cancel_cb now t)"
  by (simp_all add: cancel_cb_eq)

lemma cancel_cb_calls:
  "t_calls (mms_task_cancel_cb now t) =
     t_calls t @ (if t_state t \<noteq> MMS_TASK_STATE_DONE \<and> t_delegate t
                  then [Task_State_Changed MMS_TASK_STATE_DONE] else [])"
  by (simp add: cancel_cb_eq store_state_calls)

lemma states_told_append [simp]: "states_told (a @ b) = states_told a @ states_told b"
  by (induction a rule: states_told.induct) auto

lemma tasks_queued_append [simp]: "tasks_queued (a @ b) = tasks_queued a @ tasks_queued b"
  by (induction a rule: tasks_queued.induct) auto

lemma same_task_refl [simp]: "same_task t t"
  by (simp add: same_task_def)

lemma same_task_trans: "same_task t u \<Longrightarrow> same_task u v \<Longrightarrow> same_task t v"
  by (simp add: same_task_def)

lemma extends_refl [simp, intro]: "extends t t"
  by (simp add: extends_def)

lemma extends_trans: "extends t u \<Longrightarrow> extends u v \<Longrightarrow> extends t v"
  by (auto simp: extends_def)

lemma same_task_ops [simp]:
  "same_task u (store_state st t) \<longleftrightarrow> same_task u t"
  "same_task u (tell c t) \<longleftrightarrow> same_task u t"
  "same_task u (snd (mms_task_schedule_wakeup now secs t)) \<longleftrightarrow> same_task u t"
  "same_task u (mms_task_cancel_cb now t) \<longleftrightarrow> same_task u t"
  by (simp_all add: same_task_def)

lemma extends_schedule [simp]:
  "extends u (snd (mms_task_schedule_wakeup now secs t)) \<longleftrightarrow> extends u t"
  by (simp add: extends_def)

lemmas extends_scheduleI [intro] = extends_schedule [THEN iffD2]

lemma extends_ops [intro]:
  "extends u t \<Longrightarrow> extends u (store_state st t)"
  "extends u t \<Longrightarrow> extends u (tell c t)"
  "extends u t \<Longrightarrow> extends u (mms_task_cancel_cb now t)"
  by (auto simp: extends_def store_state_calls cancel_cb_calls)

lemma told_since_append: "t_calls u = t_calls t @ cs \<Longrightarrow> told_since t u = cs"
  by (simp add: told_since_def)

section \<open>The contract of a task class\<close>

definition needs_connection :: "('q, 'a) mms_task_scheme \<Rightarrow> bool" where
  "needs_connection t \<longleftrightarrow> t_state t = MMS_TASK_STATE_NEED_CONNECTION
     \<or> t_state t = MMS_TASK_STATE_NEED_USER_CONNECTION"

text \<open>What every operation of a task keeps: its invariant, its identity and what it has told before.\<close>

definition kept ::
    "(('q, 'a) mms_task_scheme \<Rightarrow> bool) \<Rightarrow> ('q, 'a) mms_task_scheme \<Rightarrow> ('q, 'a) mms_task_scheme \<Rightarrow> bool" where
  "kept good t t' \<longleftrightarrow> good t' \<and> same_task t t' \<and> extends t t'"

lemma keptI: "good t' \<Longrightarrow> same_task t t' \<Longrightarrow> extends t t' \<Longrightarrow> kept good t t'"
  by (simp add: kept_def)

lemma kept_refl: "good t \<Longrightarrow> kept good t t"
  by (simp add: kept_def)

lemma kept_trans: "kept good t u \<Longrightarrow> kept good u v \<Longrightarrow> kept good t v"
  unfolding kept_def by (blast intro: same_task_trans extends_trans)

text \<open>The calls that the dispatcher and the main loop make, with the states in which they make them.\<close>

inductive task_step ::
    "('c, ('q, 'a) mms_task_scheme) mms_task_class \<Rightarrow> ('c \<Rightarrow> bool)
       \<Rightarrow> ('q, 'a) mms_task_scheme \<Rightarrow> ('q, 'a) mms_task_scheme \<Rightarrow> bool"
  for klass conn_open where
  Run: "t_state t = MMS_TASK_STATE_READY \<Longrightarrow> task_step klass conn_open t (mms_task_run klass now t)"
| Transmit: "needs_connection t \<Longrightarrow> conn_open c
    \<Longrightarrow> task_step klass conn_open t (mms_task_transmit klass now c t)"
| Unavailable: "needs_connection t \<or> t_state t = MMS_TASK_STATE_TRANSMITTING
      \<or> t_state t = MMS_TASK_STATE_DONE
    \<Longrightarrow> task_step klass conn_open t (mms_task_network_unavailable klass now can_retry t)"
| Cancel: "task_step klass conn_open t (mms_task_cancel klass now t)"
| Wakeup: "t_wakeup_id t
    \<Longrightarrow> task_step klass conn_open t (mms_task_wakeup_callback (fn_cancel klass now) now t)"

inductive_cases task_stepE: "task_step klass conn_open t t'"

locale mms_task_contract =
  fixes klass :: "('c, ('q, 'a) mms_task_scheme) mms_task_class"
    and good :: "('q, 'a) mms_task_scheme \<Rightarrow> bool"
    and conn_open :: "'c \<Rightarrow> bool"
  assumes inv_timer: "good t \<Longrightarrow> timer_ok t"
    and run_law: "good t \<Longrightarrow> t_state t = MMS_TASK_STATE_READY
      \<Longrightarrow> kept good t (fn_run klass now t) \<and> t_state (fn_run klass now t) \<noteq> MMS_TASK_STATE_READY"
    and transmit_law: "good t \<Longrightarrow> needs_connection t \<Longrightarrow> conn_open c
      \<Longrightarrow> kept good t (fn_transmit klass now c t) \<and> \<not> needs_connection (fn_transmit klass now c t)
          \<and> t_state (fn_transmit klass now c t) \<noteq> MMS_TASK_STATE_READY"
    and unavailable_law:
      "good t \<Longrightarrow> needs_connection t \<or> t_state t = MMS_TASK_STATE_TRANSMITTING
      \<Longrightarrow> kept good t (fn_network_unavailable klass now can_retry t)
          \<and> (t_state (fn_network_unavailable klass now can_retry t) = MMS_TASK_STATE_SLEEP
             \<or> t_state (fn_network_unavailable klass now can_retry t) = MMS_TASK_STATE_DONE)"
    and cancel_law: "good t
      \<Longrightarrow> kept good t (fn_cancel klass now t) \<and> t_state (fn_cancel klass now t) = MMS_TASK_STATE_DONE
          \<and> cancelled (fn_cancel klass now t)"
    and wakeup_law: "good t \<Longrightarrow> t_wakeup_id t
      \<Longrightarrow> kept good t (mms_task_wakeup_callback (fn_cancel klass now) now t)"
begin

text \<open>The assertions of \<^verbatim>\<open>mms_task_run\<close>, \<^verbatim>\<open>mms_task_transmit\<close> and
  \<^verbatim>\<open>mms_task_network_unavailable\<close>.\<close>

lemma run_leaves_ready:
  "good t \<Longrightarrow> t_state t = MMS_TASK_STATE_READY \<Longrightarrow> t_state (mms_task_run klass now t) \<noteq> MMS_TASK_STATE_READY"
  using run_law by (simp add: mms_task_run_def)

lemma transmit_uses_connection:
  "good t \<Longrightarrow> needs_connection t \<Longrightarrow> conn_open c \<Longrightarrow> \<not> needs_connection (mms_task_transmit klass now c t)"
  using transmit_law by (simp add: mms_task_transmit_def)

lemma unavailable_stops:
  "good t \<Longrightarrow> needs_connection t \<or> t_state t = MMS_TASK_STATE_TRANSMITTING \<or> t_state t = MMS_TASK_STATE_DONE
   \<Longrightarrow> t_state (mms_task_network_unavailable klass now r t) \<in> {MMS_TASK_STATE_SLEEP, MMS_TASK_STATE_DONE}"
  using unavailable_law [of t now r] by (auto simp: mms_task_network_unavailable_def)

lemma step_kept: "task_step klass conn_open t t' \<Longrightarrow> good t \<Longrightarrow> kept good t t'"
  by (erule task_stepE)
     (auto simp: task_op_defs run_law transmit_law unavailable_law cancel_law wakeup_law kept_refl)

lemma steps_kept: "(task_step klass conn_open)\<^sup>*\<^sup>* t t' \<Longrightarrow> good t \<Longrightarrow> kept good t t'"
proof (induction rule: rtranclp_induct)
  case (step u v)
  then have "kept good t u" by simp
  moreover from this have "kept good u v"
    using step.hyps(2) step_kept by (simp add: kept_def [of good t])
  ultimately show ?case by (rule kept_trans)
qed (rule kept_refl)

lemma steps_timer: "(task_step klass conn_open)\<^sup>*\<^sup>* t t' \<Longrightarrow> good t \<Longrightarrow> timer_ok t'"
  using steps_kept inv_timer by (auto simp: kept_def)

lemma step_from_done:
  "task_step klass conn_open t t' \<Longrightarrow> good t \<Longrightarrow> t_state t = MMS_TASK_STATE_DONE \<Longrightarrow> t_state t' = MMS_TASK_STATE_DONE"
  by (erule task_stepE)
     (use inv_timer [of t] cancel_law [of t] in
       \<open>auto simp: task_op_defs needs_connection_def timer_ok_def\<close>)

lemma steps_from_done:
  "(task_step klass conn_open)\<^sup>*\<^sup>* t t' \<Longrightarrow> good t \<Longrightarrow> t_state t = MMS_TASK_STATE_DONE \<Longrightarrow> t_state t' = MMS_TASK_STATE_DONE"
proof (induction rule: rtranclp_induct)
  case (step u v)
  then have "good u"
    using steps_kept by (auto simp: kept_def)
  then show ?case
    using step step_from_done by blast
qed simp

end

section \<open>Properties\<close>

text \<open>C9. A task that goes to sleep does so exactly when its deadline has not come. Then its timer is
  armed, it wakes up no later than at the deadline and no later than it was asked to (\<^verbatim>\<open>retry_secs\<close> if
  asked for zero seconds). Otherwise it is done and no timer is left.\<close>

theorem sleep_bounded:
  assumes "mms_task_sleep c now secs t = (ok, t')"
  shows "(ok \<longleftrightarrow> now < t_deadline t)
    \<and> t_state t' = (if now < t_deadline t then MMS_TASK_STATE_SLEEP else MMS_TASK_STATE_DONE)
    \<and> (t_wakeup_id t' \<longleftrightarrow> now < t_deadline t)
    \<and> (now < t_deadline t \<longrightarrow>
         now \<le> t_wakeup_time t' \<and> t_wakeup_time t' \<le> t_deadline t
         \<and> t_wakeup_time t' \<le> now + uint (if secs = 0 then t_retry_secs t else secs))"
proof -
  have "ok \<longleftrightarrow> now < t_deadline t" and t': "t' = store_state
      (if now < t_deadline t then MMS_TASK_STATE_SLEEP else MMS_TASK_STATE_DONE)
      (snd (mms_task_schedule_wakeup now secs t))"
    using assms [symmetric] by (auto simp only: sleep_eq prod.inject)
  then show ?thesis
    using schedule_wakeup_time [of now t secs] by simp
qed

definition sample_task :: "nat mms_task" where
  "sample_task = fst (mms_task_alloc 0 15 1000 (Some ''Retrieve'') (Some ''12'') (Some ''244'')
     \<lparr>mms_task_order = 4, mms_task_count = 2\<rparr>)"

lemma sample_task_fields [simp]:
  "t_deadline sample_task = 1600" "t_retry_secs sample_task = 15" "t_delegate sample_task = False"
  "t_state sample_task = MMS_TASK_STATE_READY" "t_wakeup_id sample_task = False"
  "t_order sample_task = 4" "t_calls sample_task = []" "t_imsi sample_task = Some ''244''"
  "t_id sample_task = Some ''12''" "t_flags sample_task = 0"
  "t_priority sample_task = MMS_TASK_PRIORITY_NORMAL"
  by (simp_all add: sample_task_def mms_task_alloc_def mms_task_init_def MMS_TASK_DEFAULT_LIFETIME_def)

theorem sleep_bounded_witness:
  "t_wakeup_id (snd (mms_task_sleep (\<lambda>t. t) 1590 0 sample_task))
   \<and> t_wakeup_time (snd (mms_task_sleep (\<lambda>t. t) 1590 0 sample_task)) \<le> 1600"
  using sleep_bounded [of "\<lambda>t. t" 1590 0 sample_task, OF prod.collapse [symmetric]] by simp

text \<open>Cancelling a task of the base class works in every state: the task is done, marked as
  cancelled, its timer is gone, the delegate is told once, and not at all when the task was done before.\<close>

theorem cancel_from_any_state:
  "t_state (mms_task_cancel_cb now t) = MMS_TASK_STATE_DONE
   \<and> cancelled (mms_task_cancel_cb now t) \<and> \<not> t_wakeup_id (mms_task_cancel_cb now t)
   \<and> same_task t (mms_task_cancel_cb now t)
   \<and> states_told (told_since t (mms_task_cancel_cb now t)) =
       (if t_delegate t \<and> t_state t \<noteq> MMS_TASK_STATE_DONE then [MMS_TASK_STATE_DONE] else [])"
  by (simp add: same_task_def told_since_def cancel_cb_calls)

text \<open>The live tasks by their order numbers, newest first, as tasks are created and finalized.\<close>

inductive tasks_alive :: "task_counters \<Rightarrow> int list \<Rightarrow> bool" where
  Start: "tasks_alive \<lparr>mms_task_order = 0, mms_task_count = 0\<rparr> []"
| Create: "tasks_alive cs live \<Longrightarrow> mms_task_init cs = (n, cs') \<Longrightarrow> tasks_alive cs' (n # live)"
| Finalize: "tasks_alive cs live \<Longrightarrow> n \<in> set live \<Longrightarrow> tasks_alive (mms_task_finalize cs) (remove1 n live)"

lemma sorted_wrt_remove1: "sorted_wrt P xs \<Longrightarrow> sorted_wrt P (remove1 x xs)"
proof (induction xs)
  case (Cons y xs)
  have "set (remove1 x xs) \<subseteq> set xs" by (rule set_remove1_subset)
  then show ?case using Cons by auto
qed simp

text \<open>The order numbers of the tasks that exist are pairwise different and follow the time of their
  creation, although the counter starts again from zero whenever no task is left.\<close>

theorem orders_follow_creation:
  assumes "tasks_alive cs live"
  shows "sorted_wrt (>) live \<and> (\<forall>n\<in>set live. 0 \<le> n \<and> n < mms_task_order cs)
    \<and> mms_task_count cs = int (length live) \<and> 0 \<le> mms_task_order cs"
  using assms
proof induction
  case (Finalize cs live n)
  have "length (remove1 n live) = length live - 1" and "live \<noteq> []"
    using Finalize.hyps(2) by (auto simp: length_remove1)
  then have len: "int (length (remove1 n live)) = mms_task_count cs - 1"
    using Finalize.IH by (cases live) auto
  then have "mms_task_count cs - 1 = 0 \<longleftrightarrow> remove1 n live = []"
    by auto
  then show ?case
    using Finalize.IH len
    by (auto simp: mms_task_finalize_def Let_def sorted_wrt_remove1 dest: notin_set_remove1)
qed (auto simp: mms_task_init_def)

lemma nothing_alive:
  assumes "tasks_alive cs []"
  shows "cs = \<lparr>mms_task_order = 0, mms_task_count = 0\<rparr>"
  using assms
proof (cases rule: tasks_alive.cases)
  case (Finalize cs0 live n)
  then show ?thesis
    using orders_follow_creation [OF assms] by (cases cs) (auto simp: mms_task_finalize_def Let_def split: if_splits)
qed simp_all

theorem orders_follow_creation_witness:
  "sorted_wrt (>) [1, 0 :: int] \<and> \<not> sorted_wrt (>) [0, 0 :: int]"
proof -
  have "tasks_alive \<lparr>mms_task_order = 2, mms_task_count = 2\<rparr> [1, 0]"
    using Create [OF Create [OF Start]] by (simp add: mms_task_init_def)
  from orders_follow_creation [OF this] show ?thesis by simp
qed

end
