(* ===== verification/Connection.thy ===== *)
theory Connection
  imports Mms_Prelude
begin

text \<open>
  Network connections as the library sees them: \<^verbatim>\<open>mms-lib/include/mms_connection.h\<close>,
  \<^verbatim>\<open>mms-lib/src/mms_connection.c\<close> and \<^verbatim>\<open>mms_lib_types.h\<close>. The object itself is made by one of the
  connection managers; \<open>connection_step\<close> are the changes of state that the header allows it.
\<close>

datatype mms_connection_type = MMS_CONNECTION_TYPE_AUTO | MMS_CONNECTION_TYPE_USER

datatype mms_connection_state =
    MMS_CONNECTION_STATE_INVALID
  | MMS_CONNECTION_STATE_OPENING
  | MMS_CONNECTION_STATE_FAILED
  | MMS_CONNECTION_STATE_OPEN
  | MMS_CONNECTION_STATE_CLOSED

record mms_connection =
  c_imsi :: string
  c_mmsc :: "string option"
  c_mmsproxy :: "string option"
  c_netif :: "string option"
  c_type :: mms_connection_type
  c_state :: mms_connection_state

definition mms_connection_state :: "mms_connection option \<Rightarrow> mms_connection_state" where
  "mms_connection_state conn =
     (case conn of None \<Rightarrow> MMS_CONNECTION_STATE_INVALID | Some c \<Rightarrow> c_state c)"

definition mms_connection_state_name :: "mms_connection option \<Rightarrow> string" where
  "mms_connection_state_name conn =
     (case mms_connection_state conn of
        MMS_CONNECTION_STATE_INVALID \<Rightarrow> ''????''
      | MMS_CONNECTION_STATE_OPENING \<Rightarrow> ''OPENING''
      | MMS_CONNECTION_STATE_FAILED \<Rightarrow> ''FAILED''
      | MMS_CONNECTION_STATE_OPEN \<Rightarrow> ''OPEN''
      | MMS_CONNECTION_STATE_CLOSED \<Rightarrow> ''CLOSED'')"

definition mms_connection_is_open :: "mms_connection option \<Rightarrow> bool" where
  "mms_connection_is_open conn \<longleftrightarrow> mms_connection_state conn = MMS_CONNECTION_STATE_OPEN"

definition mms_connection_is_active :: "mms_connection option \<Rightarrow> bool" where
  "mms_connection_is_active conn \<longleftrightarrow>
     (case conn of None \<Rightarrow> False
      | Some c \<Rightarrow> c_state c = MMS_CONNECTION_STATE_OPEN \<or> c_state c = MMS_CONNECTION_STATE_OPENING)"

inductive connection_step :: "mms_connection_state \<Rightarrow> mms_connection_state \<Rightarrow> bool" where
  Fails: "connection_step MMS_CONNECTION_STATE_OPENING MMS_CONNECTION_STATE_FAILED"
| Opens: "connection_step MMS_CONNECTION_STATE_OPENING MMS_CONNECTION_STATE_OPEN"
| Closes: "connection_step MMS_CONNECTION_STATE_OPEN MMS_CONNECTION_STATE_CLOSED"

lemma is_open_Some [simp]:
  "mms_connection_is_open (Some c) \<longleftrightarrow> c_state c = MMS_CONNECTION_STATE_OPEN"
  by (simp add: mms_connection_is_open_def mms_connection_state_def)

lemma is_open_None [simp]: "\<not> mms_connection_is_open None"
  by (simp add: mms_connection_is_open_def mms_connection_state_def)

lemma is_active_None [simp]: "\<not> mms_connection_is_active None"
  by (simp add: mms_connection_is_active_def)

lemma is_active_Some [simp]:
  "mms_connection_is_active (Some c) \<longleftrightarrow>
     c_state c = MMS_CONNECTION_STATE_OPEN \<or> c_state c = MMS_CONNECTION_STATE_OPENING"
  by (simp add: mms_connection_is_active_def)

lemma open_is_active: "mms_connection_is_open c \<Longrightarrow> mms_connection_is_active c"
  by (cases c) auto

end
