(* ===== verification/Dispatcher.thy ===== *)
theory Dispatcher
  imports Task_Core Connection "HOL-Library.Multiset"
begin

text \<open>
  The dispatcher: \<^verbatim>\<open>mms-lib/src/mms_dispatcher.c\<close>.

  \<^item> \<open>mms_dispatcher\<close> is \<^verbatim>\<open>struct mms_dispatcher\<close>: the queue is a list, a GLib source or signal handler is
    whether it exists, and \<open>d_handler_busy\<close> and \<open>d_connman_busy\<close> are the counters of the two objects it
    asks whether they are busy. \<open>d_calls\<close> is what it has told others and what became of its tasks.
  \<^item> \<open>dispatcher_env\<close> are the objects it works with: the class of its tasks (virtual calls), the way a queued
    request becomes a task object, whether a task is referred to by somebody else when the dispatcher drops its
    own reference (\<open>e_held\<close>), the connection manager, and \<^verbatim>\<open>g_queue_sort\<close>. The documentation of
    the latter is \<open>queue_sort_ok\<close>. A request to close a connection takes effect later, when the
    connection signals its change of state.
  \<^item> What a task tells its delegate while it runs is handled by \<open>mms_dispatcher_listen\<close> right after it has
    run: the two delegate functions only append to the queue and schedule a run.
\<close>

section \<open>State\<close>

datatype dispatcher_call =
    Dispatcher_Done                      \<comment> \<open>the delegate's \<^verbatim>\<open>fn_done\<close>\<close>
  | Connection_Opened string mms_connection_type
  | Connection_Close_Requested string
  | Task_Created int                     \<comment> \<open>a task enters the queue for the first time\<close>
  | Task_Released int mms_task_state     \<comment> \<open>a task leaves the dispatcher\<close>
  | Task_Transmitted "string option" mms_connection  \<comment> \<open>\<^verbatim>\<open>mms_task_transmit\<close>, with the SIM of the task\<close>

record ('q, 'a) mms_dispatcher =
  d_tasks :: "('q, 'a) mms_task_scheme list"
  d_active_task :: "('q, 'a) mms_task_scheme option"
  d_connection :: "mms_connection option"
  d_next_run_id :: bool
  d_network_idle_id :: bool
  d_connection_changed_id :: bool
  d_started :: bool
  d_delegate :: bool
  d_handler_busy :: int
  d_connman_busy :: int
  d_counters :: task_counters
  d_held :: "int list"                 \<comment> \<open>the tasks that exist and that the dispatcher has not or no more\<close>
  d_calls :: "dispatcher_call list"

record ('q, 'a) dispatcher_env =
  e_class :: "(mms_connection, ('q, 'a) mms_task_scheme) mms_task_class"
  e_new :: "int \<Rightarrow> 'q \<Rightarrow> task_counters \<Rightarrow> ('q, 'a) mms_task_scheme \<times> task_counters"
  e_open_connection :: "string option \<Rightarrow> mms_connection_type \<Rightarrow> mms_connection option"
  e_held :: "('q, 'a) mms_task_scheme \<Rightarrow> bool"
  e_sort :: "(('q, 'a) mms_task_scheme \<Rightarrow> ('q, 'a) mms_task_scheme \<Rightarrow> int)
    \<Rightarrow> ('q, 'a) mms_task_scheme list \<Rightarrow> ('q, 'a) mms_task_scheme list"

definition total_order_on :: "('t \<Rightarrow> 't \<Rightarrow> int) \<Rightarrow> 't set \<Rightarrow> bool" where
  "total_order_on cmp S \<longleftrightarrow>
     (\<forall>x\<in>S. \<forall>y\<in>S. cmp x y \<le> 0 \<or> cmp y x \<le> 0)
     \<and> (\<forall>x\<in>S. \<forall>y\<in>S. \<forall>z\<in>S. cmp x y \<le> 0 \<longrightarrow> cmp y z \<le> 0 \<longrightarrow> cmp x z \<le> 0)"

text \<open>Sorting permutes the queue, and sorts it when the comparison is an order at all.\<close>

definition queue_sort_ok :: "(('t \<Rightarrow> 't \<Rightarrow> int) \<Rightarrow> 't list \<Rightarrow> 't list) \<Rightarrow> bool" where
  "queue_sort_ok srt \<longleftrightarrow>
     (\<forall>cmp xs. mset (srt cmp xs) = mset xs)
     \<and> (\<forall>cmp xs. total_order_on cmp (set xs) \<longrightarrow> sorted_wrt (\<lambda>x y. cmp x y \<le> 0) (srt cmp xs))"

definition d_tell :: "dispatcher_call \<Rightarrow> ('q, 'a) mms_dispatcher \<Rightarrow> ('q, 'a) mms_dispatcher" where
  "d_tell c d = d\<lparr>d_calls := d_calls d @ [c]\<rparr>"

section \<open>Being active, and the end of activity\<close>

definition mms_dispatcher_is_active :: "('q, 'a) mms_dispatcher \<Rightarrow> bool" where
  "mms_dispatcher_is_active d \<longleftrightarrow>
     mms_connection_is_active (d_connection d) \<or> 0 < d_handler_busy d \<or> 0 < d_connman_busy d
     \<or> d_active_task d \<noteq> None \<or> d_tasks d \<noteq> []"

definition mms_dispatcher_check_if_done :: "('q, 'a) mms_dispatcher \<Rightarrow> ('q, 'a) mms_dispatcher" where
  "mms_dispatcher_check_if_done d =
     (if \<not> mms_dispatcher_is_active d
      then let d = (if d_next_run_id d then d\<lparr>d_next_run_id := False\<rparr> else d) in
        if d_delegate d \<and> d_started d then d_tell Dispatcher_Done (d\<lparr>d_started := False\<rparr>) else d
      else d)"

section \<open>The connection and its idle timer\<close>

definition mms_dispatcher_drop_connection :: "('q, 'a) mms_dispatcher \<Rightarrow> ('q, 'a) mms_dispatcher" where
  "mms_dispatcher_drop_connection d =
     (if d_connection d \<noteq> None
      then let d = d\<lparr>d_connection_changed_id := False, d_connection := None\<rparr> in
        if d_network_idle_id d then d\<lparr>d_network_idle_id := False\<rparr> else d
      else d)"

definition mms_dispatcher_close_connection :: "('q, 'a) mms_dispatcher \<Rightarrow> ('q, 'a) mms_dispatcher" where
  "mms_dispatcher_close_connection d =
     (case d_connection d of
        None \<Rightarrow> d
      | Some c \<Rightarrow>
          let d = d_tell (Connection_Close_Requested (c_imsi c)) d;
              d = (if \<not> mms_connection_is_active (d_connection d)
                   then mms_dispatcher_drop_connection d else d)
          in mms_dispatcher_check_if_done d)"

definition mms_dispatcher_network_idle_run :: "('q, 'a) mms_dispatcher \<Rightarrow> ('q, 'a) mms_dispatcher" where
  "mms_dispatcher_network_idle_run d = mms_dispatcher_close_connection (d\<lparr>d_network_idle_id := False\<rparr>)"

definition mms_dispatcher_network_idle_check :: "('q, 'a) mms_dispatcher \<Rightarrow> ('q, 'a) mms_dispatcher" where
  "mms_dispatcher_network_idle_check d =
     (if d_connection d \<noteq> None \<and> \<not> d_network_idle_id d then d\<lparr>d_network_idle_id := True\<rparr> else d)"

definition mms_dispatcher_network_idle_cancel :: "('q, 'a) mms_dispatcher \<Rightarrow> ('q, 'a) mms_dispatcher" where
  "mms_dispatcher_network_idle_cancel d =
     (if d_network_idle_id d then d\<lparr>d_network_idle_id := False\<rparr> else d)"

definition mms_dispatcher_next_run_schedule :: "('q, 'a) mms_dispatcher \<Rightarrow> ('q, 'a) mms_dispatcher" where
  "mms_dispatcher_next_run_schedule d = d\<lparr>d_next_run_id := True\<rparr>"

section \<open>Queueing, and listening to the tasks\<close>

definition mms_dispatcher_queue_task ::
    "('q, 'a) mms_task_scheme \<Rightarrow> ('q, 'a) mms_dispatcher \<Rightarrow> ('q, 'a) mms_dispatcher" where
  "mms_dispatcher_queue_task t d =
     d_tell (Task_Created (t_order t)) (d\<lparr>d_tasks := d_tasks d @ [t\<lparr>t_delegate := True\<rparr>]\<rparr>)"

definition mms_dispatcher_queue_and_unref_task ::
    "('q, 'a) mms_task_scheme option \<Rightarrow> ('q, 'a) mms_dispatcher \<Rightarrow> bool \<times> ('q, 'a) mms_dispatcher" where
  "mms_dispatcher_queue_and_unref_task task d =
     (case task of
        None \<Rightarrow> (False, d)
      | Some t \<Rightarrow> (True, mms_dispatcher_queue_task t d))"

text \<open>A task queued by another task: the object is created when the request is handled.\<close>

definition queue_request ::
    "('q, 'a) dispatcher_env \<Rightarrow> int \<Rightarrow> 'q \<Rightarrow> ('q, 'a) mms_dispatcher \<Rightarrow> ('q, 'a) mms_dispatcher" where
  "queue_request e now q d =
     (case e_new e now q (d_counters d) of
        (t, cs) \<Rightarrow> mms_dispatcher_queue_task t (d\<lparr>d_counters := cs\<rparr>))"

definition mms_dispatcher_delegate_task_queue ::
    "('q, 'a) dispatcher_env \<Rightarrow> int \<Rightarrow> 'q \<Rightarrow> ('q, 'a) mms_dispatcher \<Rightarrow> ('q, 'a) mms_dispatcher" where
  "mms_dispatcher_delegate_task_queue e now q d =
     (let d = queue_request e now q d in
        if d_active_task d = None then mms_dispatcher_next_run_schedule d else d)"

definition mms_dispatcher_delegate_task_state_changed ::
    "('q, 'a) mms_dispatcher \<Rightarrow> ('q, 'a) mms_dispatcher" where
  "mms_dispatcher_delegate_task_state_changed d =
     (if d_active_task d = None then mms_dispatcher_next_run_schedule d else d)"

fun mms_dispatcher_listen ::
    "('q, 'a) dispatcher_env \<Rightarrow> int \<Rightarrow> 'q task_call list \<Rightarrow> ('q, 'a) mms_dispatcher \<Rightarrow> ('q, 'a) mms_dispatcher" where
  "mms_dispatcher_listen e now [] d = d"
| "mms_dispatcher_listen e now (Task_Queued q # cs) d =
     mms_dispatcher_listen e now cs (mms_dispatcher_delegate_task_queue e now q d)"
| "mms_dispatcher_listen e now (Task_State_Changed st # cs) d =
     mms_dispatcher_listen e now cs (mms_dispatcher_delegate_task_state_changed d)"
| "mms_dispatcher_listen e now (_ # cs) d = mms_dispatcher_listen e now cs d"

section \<open>The order of the queue\<close>

definition is_runnable :: "('q, 'a) mms_task_scheme \<Rightarrow> bool" where
  "is_runnable t \<longleftrightarrow> t_state t = MMS_TASK_STATE_READY \<or> t_state t = MMS_TASK_STATE_DONE"

definition wants_this_connection :: "mms_connection option \<Rightarrow> ('q, 'a) mms_task_scheme \<Rightarrow> bool" where
  "wants_this_connection conn t \<longleftrightarrow>
     needs_connection t \<and> (case conn of None \<Rightarrow> False | Some c \<Rightarrow> t_imsi t = Some (c_imsi c))"

text \<open>The successive returns of \<^verbatim>\<open>mms_dispatcher_sort_cb\<close>; for one and the same task every comparison
  falls through to the difference of the orders, which is zero.\<close>

definition mms_dispatcher_sort_cb ::
    "mms_connection option \<Rightarrow> ('q, 'a) mms_task_scheme \<Rightarrow> ('q, 'a) mms_task_scheme \<Rightarrow> int" where
  "mms_dispatcher_sort_cb conn task1 task2 =
     (let connection_is_open = mms_connection_is_open conn;
          differ = (t_state task1 \<noteq> t_state task2)
      in
        if differ \<and> connection_is_open \<and> t_state task1 = MMS_TASK_STATE_TRANSMITTING then - 1
        else if differ \<and> connection_is_open \<and> t_state task2 = MMS_TASK_STATE_TRANSMITTING then 1
        else if t_priority task1 \<noteq> t_priority task2
        then priority_value (t_priority task2) - priority_value (t_priority task1)
        else if differ \<and> connection_is_open
             \<and> wants_this_connection conn task1 \<noteq> wants_this_connection conn task2
        then (if wants_this_connection conn task1 then - 1 else 1)
        else if differ \<and> is_runnable task1 \<noteq> is_runnable task2
        then (if is_runnable task1 then - 1 else 1)
        else if differ \<and> needs_connection task1 \<noteq> needs_connection task2
        then (if needs_connection task1 then - 1 else 1)
        else t_order task1 - t_order task2)"

section \<open>Picking and running tasks\<close>

definition update_head ::
    "('q, 'a) mms_task_scheme \<Rightarrow> ('q, 'a) mms_dispatcher \<Rightarrow> ('q, 'a) mms_dispatcher" where
  "update_head t d = d\<lparr>d_tasks := t # tl (d_tasks d)\<rparr>"

definition mms_dispatcher_request_connection ::
    "('q, 'a) dispatcher_env \<Rightarrow> ('q, 'a) mms_task_scheme \<Rightarrow> ('q, 'a) mms_dispatcher \<Rightarrow> ('q, 'a) mms_dispatcher" where
  "mms_dispatcher_request_connection e t d =
     (let ct = (if t_state t = MMS_TASK_STATE_NEED_USER_CONNECTION
                then MMS_CONNECTION_TYPE_USER else MMS_CONNECTION_TYPE_AUTO)
      in case e_open_connection e (t_imsi t) ct of
           None \<Rightarrow> d
         | Some c \<Rightarrow> d_tell (Connection_Opened (c_imsi c) ct)
                       (d\<lparr>d_connection := Some c, d_connection_changed_id := True\<rparr>))"

definition mms_dispatcher_pick_next_task ::
    "('q, 'a) dispatcher_env \<Rightarrow> int \<Rightarrow> ('q, 'a) mms_dispatcher
       \<Rightarrow> ('q, 'a) mms_task_scheme option \<times> ('q, 'a) mms_dispatcher" where
  "mms_dispatcher_pick_next_task e now d =
     (let d = d\<lparr>d_tasks := e_sort e (mms_dispatcher_sort_cb (d_connection d)) (d_tasks d)\<rparr> in
      case d_tasks d of
        [] \<Rightarrow> (None, d)
      | t # rest \<Rightarrow>
          if is_runnable t then (Some t, d\<lparr>d_tasks := rest\<rparr>)
          else if needs_connection t
          then let d = (case d_connection d of
                          None \<Rightarrow> d
                        | Some c \<Rightarrow> if t_imsi t \<noteq> Some (c_imsi c)
                                     then mms_dispatcher_close_connection d else d);
                   d = (if d_connection d = None then mms_dispatcher_request_connection e t d else d)
               in (case d_connection d of
                     Some c \<Rightarrow>
                       if t_imsi t = Some (c_imsi c) \<and> mms_connection_is_open (Some c)
                       then (Some t, d\<lparr>d_tasks := rest\<rparr>) else (None, d)
                   | None \<Rightarrow>
                       let t' = mms_task_network_unavailable (e_class e) now False t
                       in (None, mms_dispatcher_listen e now (told_since t t') (update_head t' d)))
          else (None, d))"

text \<open>The dispatcher drops its reference to a task. If it was the last one, \<^verbatim>\<open>mms_task_finalize\<close> runs; else the
  task, by its order, is among the tasks still referred to, and stays counted.\<close>

definition release_task ::
    "('q, 'a) dispatcher_env \<Rightarrow> ('q, 'a) mms_task_scheme \<Rightarrow> ('q, 'a) mms_dispatcher \<Rightarrow> ('q, 'a) mms_dispatcher" where
  "release_task e t d =
     d_tell (Task_Released (t_order t) (t_state t))
       (if e_held e t then d\<lparr>d_held := t_order t # d_held d\<rparr>
        else d\<lparr>d_counters := mms_task_finalize (d_counters d)\<rparr>)"

text \<open>The last reference to such a task goes away.\<close>

definition unref_held :: "int \<Rightarrow> task_counters \<Rightarrow> ('q, 'a) mms_dispatcher \<Rightarrow> ('q, 'a) mms_dispatcher" where
  "unref_held n cs d = d\<lparr>d_held := remove1 n (d_held d), d_counters := mms_task_finalize cs\<rparr>"

text \<open>The body of the dispatch loop for the task that was picked.\<close>

definition mms_dispatcher_run_task ::
    "('q, 'a) dispatcher_env \<Rightarrow> int \<Rightarrow> ('q, 'a) mms_task_scheme \<Rightarrow> ('q, 'a) mms_dispatcher \<Rightarrow> ('q, 'a) mms_dispatcher" where
  "mms_dispatcher_run_task e now task d =
     (let d = d\<lparr>d_active_task := Some task\<rparr>;
          (task', d) =
            (if t_state task = MMS_TASK_STATE_READY then (mms_task_run (e_class e) now task, d)
             else if needs_connection task
             then (case d_connection d of
                     None \<Rightarrow> (task, d)
                   | Some c \<Rightarrow> (mms_task_transmit (e_class e) now c task,
                                 d_tell (Task_Transmitted (t_imsi task) c) d))
             else (task, d));
          d = mms_dispatcher_listen e now (told_since task task') d;
          d = (if t_state task' = MMS_TASK_STATE_DONE
               then release_task e task' d
               else d\<lparr>d_tasks := d_tasks d @ [task']\<rparr>)
      in d\<lparr>d_active_task := None\<rparr>)"

partial_function (option) mms_dispatcher_loop ::
    "('q, 'a) dispatcher_env \<Rightarrow> int \<Rightarrow> ('q, 'a) mms_dispatcher \<Rightarrow> ('q, 'a) mms_dispatcher option" where
  "mms_dispatcher_loop e now d =
     (case mms_dispatcher_pick_next_task e now d of
        (None, d) \<Rightarrow> Some d
      | (Some t, d) \<Rightarrow> mms_dispatcher_loop e now (mms_dispatcher_run_task e now t d))"

declare mms_dispatcher_loop.simps [code]

definition uses_connection :: "('q, 'a) mms_task_scheme \<Rightarrow> bool" where
  "uses_connection t \<longleftrightarrow> needs_connection t \<or> t_state t = MMS_TASK_STATE_TRANSMITTING"

definition mms_dispatcher_run ::
    "('q, 'a) dispatcher_env \<Rightarrow> int \<Rightarrow> ('q, 'a) mms_dispatcher \<Rightarrow> ('q, 'a) mms_dispatcher option" where
  "mms_dispatcher_run e now d =
     (case mms_dispatcher_loop e now d of
        None \<Rightarrow> None
      | Some d \<Rightarrow>
          let d = (if d_connection d \<noteq> None
                   then if list_ex uses_connection (d_tasks d)
                     then mms_dispatcher_network_idle_cancel d
                     else mms_dispatcher_network_idle_check d
                   else d)
          in Some (mms_dispatcher_check_if_done d))"

section \<open>Callbacks and operations\<close>

definition mms_dispatcher_next_run ::
    "('q, 'a) dispatcher_env \<Rightarrow> int \<Rightarrow> ('q, 'a) mms_dispatcher \<Rightarrow> ('q, 'a) mms_dispatcher option" where
  "mms_dispatcher_next_run e now d =
     (let d = d\<lparr>d_next_run_id := False\<rparr> in
        if d_active_task d = None then mms_dispatcher_run e now d else Some d)"

text \<open>A virtual call on every task of the queue that satisfies a condition.\<close>

definition each_task ::
    "('q, 'a) dispatcher_env \<Rightarrow> int \<Rightarrow> (('q, 'a) mms_task_scheme \<Rightarrow> bool)
       \<Rightarrow> (('q, 'a) mms_task_scheme \<Rightarrow> ('q, 'a) mms_task_scheme)
       \<Rightarrow> ('q, 'a) mms_dispatcher \<Rightarrow> ('q, 'a) mms_dispatcher" where
  "each_task e now P f d =
     (let g = (\<lambda>t. if P t then f t else t)
      in mms_dispatcher_listen e now (concat (map (\<lambda>t. told_since t (g t)) (d_tasks d)))
           (d\<lparr>d_tasks := map g (d_tasks d)\<rparr>))"

text \<open>The connection \<open>c\<close> of the dispatcher has changed its state.\<close>

definition mms_dispatcher_connection_state_changed ::
    "('q, 'a) dispatcher_env \<Rightarrow> int \<Rightarrow> mms_connection \<Rightarrow> ('q, 'a) mms_dispatcher \<Rightarrow> ('q, 'a) mms_dispatcher" where
  "mms_dispatcher_connection_state_changed e now c d =
     (let d = d\<lparr>d_connection := Some c\<rparr>;
          d = (if c_state c = MMS_CONNECTION_STATE_FAILED \<or> c_state c = MMS_CONNECTION_STATE_CLOSED
               then let d = mms_dispatcher_close_connection d;
                        d = each_task e now (\<lambda>t. uses_connection t \<and> t_imsi t = Some (c_imsi c))
                              (mms_task_network_unavailable (e_class e) now True) d
                    in mms_dispatcher_check_if_done (mms_dispatcher_drop_connection d)
               else d)
      in if d_active_task d = None then mms_dispatcher_next_run_schedule d else d)"

text \<open>\<open>root_dir_ok\<close>: the root directory exists or could be created.\<close>

definition mms_dispatcher_start :: "bool \<Rightarrow> ('q, 'a) mms_dispatcher \<Rightarrow> bool \<times> ('q, 'a) mms_dispatcher" where
  "mms_dispatcher_start root_dir_ok d =
     (if root_dir_ok \<and> d_tasks d \<noteq> []
      then (True, mms_dispatcher_next_run_schedule (d\<lparr>d_started := True\<rparr>)) else (False, d))"

definition mms_dispatcher_cancel ::
    "('q, 'a) dispatcher_env \<Rightarrow> int \<Rightarrow> string option \<Rightarrow> ('q, 'a) mms_dispatcher \<Rightarrow> ('q, 'a) mms_dispatcher" where
  "mms_dispatcher_cancel e now ident d =
     (let d = each_task e now (\<lambda>t. mms_task_match_id (Some t) ident) (mms_task_cancel (e_class e) now) d;
          d = (case d_active_task d of
                 None \<Rightarrow> d
               | Some t \<Rightarrow>
                   if mms_task_match_id (Some t) ident
                   then let t' = mms_task_cancel (e_class e) now t
                        in mms_dispatcher_listen e now (told_since t t') (d\<lparr>d_active_task := Some t'\<rparr>)
                   else d)
      in if ident = None \<and> d_connection d \<noteq> None then mms_dispatcher_close_connection d else d)"

definition mms_dispatcher_handler_done :: "('q, 'a) mms_dispatcher \<Rightarrow> ('q, 'a) mms_dispatcher" where
  "mms_dispatcher_handler_done d = mms_dispatcher_next_run_schedule d"

definition mms_dispatcher_connman_done :: "('q, 'a) mms_dispatcher \<Rightarrow> ('q, 'a) mms_dispatcher" where
  "mms_dispatcher_connman_done d = mms_dispatcher_check_if_done d"

definition mms_dispatcher_new :: "bool \<Rightarrow> ('q, 'a) mms_dispatcher" where
  "mms_dispatcher_new delegate =
     \<lparr>d_tasks = [], d_active_task = None, d_connection = None, d_next_run_id = False,
      d_network_idle_id = False, d_connection_changed_id = False, d_started = False,
      d_delegate = delegate, d_handler_busy = 0, d_connman_busy = 0,
      d_counters = \<lparr>mms_task_order = 0, mms_task_count = 0\<rparr>, d_held = [], d_calls = []\<rparr>"

definition mms_dispatcher_set_delegate :: "bool \<Rightarrow> ('q, 'a) mms_dispatcher \<Rightarrow> ('q, 'a) mms_dispatcher" where
  "mms_dispatcher_set_delegate delegate d = d\<lparr>d_delegate := delegate\<rparr>"

definition mms_dispatcher_is_started :: "('q, 'a) mms_dispatcher \<Rightarrow> bool" where
  "mms_dispatcher_is_started d \<longleftrightarrow> d_started d"

text \<open>Releasing one task when the dispatcher goes away, and \<^verbatim>\<open>mms_dispatcher_finalize\<close>.\<close>

definition drop_task ::
    "('q, 'a) dispatcher_env \<Rightarrow> int \<Rightarrow> ('q, 'a) mms_task_scheme \<Rightarrow> ('q, 'a) mms_dispatcher \<Rightarrow> ('q, 'a) mms_dispatcher" where
  "drop_task e now t d =
     (let t = mms_task_cancel (e_class e) now (t\<lparr>t_delegate := False\<rparr>)
      in release_task e t d)"

definition mms_dispatcher_finalize ::
    "('q, 'a) dispatcher_env \<Rightarrow> int \<Rightarrow> ('q, 'a) mms_dispatcher \<Rightarrow> ('q, 'a) mms_dispatcher" where
  "mms_dispatcher_finalize e now d =
     (let d = mms_dispatcher_drop_connection d
      in fold (drop_task e now) (d_tasks d) (d\<lparr>d_tasks := []\<rparr>))"

section \<open>Steps of the dispatcher\<close>

text \<open>A callback of one of the queued tasks: \<open>own\<close> relates the task before and after it.\<close>

definition task_event ::
    "('q, 'a) dispatcher_env \<Rightarrow> int \<Rightarrow> nat \<Rightarrow> ('q, 'a) mms_task_scheme \<Rightarrow> ('q, 'a) mms_dispatcher \<Rightarrow> ('q, 'a) mms_dispatcher" where
  "task_event e now i t' d =
     mms_dispatcher_listen e now (told_since (d_tasks d ! i) t') (d\<lparr>d_tasks := (d_tasks d)[i := t']\<rparr>)"

text \<open>Everything that the main loop and the users of the dispatcher do with it, one callback or call at a
  time. \<open>new\<close> relates the counters before and after an attempt of the user to create a task and the task, if
  there is one. The handler and the connection manager signal when they are no longer busy. What still refers
  to a released task (the job of a message that is being encoded, \<^verbatim>\<open>mms_encode_job_done\<close>) ends some time: the task
  has no delegate any more, so that a task which it creates then to send the message is freed at once. The task
  that \<^verbatim>\<open>mms_task_decode_new\<close> creates for a file which it then fails to map is not freed at all.\<close>

inductive dispatcher_step ::
    "('q, 'a) dispatcher_env \<Rightarrow> (('q, 'a) mms_task_scheme \<Rightarrow> ('q, 'a) mms_task_scheme \<Rightarrow> bool)
       \<Rightarrow> (task_counters \<Rightarrow> ('q, 'a) mms_task_scheme option \<Rightarrow> task_counters \<Rightarrow> bool)
       \<Rightarrow> ('q, 'a) mms_dispatcher \<Rightarrow> ('q, 'a) mms_dispatcher \<Rightarrow> bool"
  for e own new where
  Next_Run: "d_next_run_id d \<Longrightarrow> mms_dispatcher_next_run e now d = Some d' \<Longrightarrow> dispatcher_step e own new d d'"
| Idle_Timeout: "d_network_idle_id d \<Longrightarrow> dispatcher_step e own new d (mms_dispatcher_network_idle_run d)"
| Connection: "d_connection d = Some c0 \<Longrightarrow> c_imsi c = c_imsi c0 \<Longrightarrow> connection_step (c_state c0) (c_state c)
    \<Longrightarrow> dispatcher_step e own new d (mms_dispatcher_connection_state_changed e now c d)"
| Task_Callback: "i < length (d_tasks d) \<Longrightarrow> own (d_tasks d ! i) t'
    \<Longrightarrow> dispatcher_step e own new d (task_event e now i t' d)"
| Queue: "new (d_counters d) task cs
    \<Longrightarrow> dispatcher_step e own new d (snd (mms_dispatcher_queue_and_unref_task task (d\<lparr>d_counters := cs\<rparr>)))"
| Start: "dispatcher_step e own new d (snd (mms_dispatcher_start ok d))"
| Cancel: "dispatcher_step e own new d (mms_dispatcher_cancel e now ident d)"
| Handler_Busy: "0 < n \<Longrightarrow> dispatcher_step e own new d (d\<lparr>d_handler_busy := n\<rparr>)"
| Handler_Done: "dispatcher_step e own new d (mms_dispatcher_handler_done (d\<lparr>d_handler_busy := 0\<rparr>))"
| Connman_Busy: "0 < n \<Longrightarrow> dispatcher_step e own new d (d\<lparr>d_connman_busy := n\<rparr>)"
| Connman_Done: "dispatcher_step e own new d (mms_dispatcher_connman_done (d\<lparr>d_connman_busy := 0\<rparr>))"
| Held_Unref: "n \<in> set (d_held d) \<Longrightarrow> cs = d_counters d \<or> cs = mms_task_finalize (snd (mms_task_init (d_counters d)))
    \<Longrightarrow> dispatcher_step e own new d (unref_held n cs d)"
| Leaked: "mms_task_init (d_counters d) = (n, cs)
    \<Longrightarrow> dispatcher_step e own new d (d\<lparr>d_counters := cs, d_held := n # d_held d\<rparr>)"

inductive_cases dispatcher_stepE: "dispatcher_step e own new d d'"

section \<open>Lemmas: the fields an operation leaves alone\<close>

lemma d_tell_fields [simp]:
  "d_tasks (d_tell c d) = d_tasks d" "d_active_task (d_tell c d) = d_active_task d"
  "d_connection (d_tell c d) = d_connection d" "d_next_run_id (d_tell c d) = d_next_run_id d"
  "d_network_idle_id (d_tell c d) = d_network_idle_id d"
  "d_connection_changed_id (d_tell c d) = d_connection_changed_id d"
  "d_started (d_tell c d) = d_started d" "d_delegate (d_tell c d) = d_delegate d"
  "d_handler_busy (d_tell c d) = d_handler_busy d" "d_connman_busy (d_tell c d) = d_connman_busy d"
  "d_counters (d_tell c d) = d_counters d" "d_held (d_tell c d) = d_held d" "d_calls (d_tell c d) = d_calls d @ [c]"
  by (simp_all add: d_tell_def)

lemma is_active_tell [simp]: "mms_dispatcher_is_active (d_tell c d) = mms_dispatcher_is_active d"
  by (simp add: mms_dispatcher_is_active_def)

lemma check_if_done_fields [simp]:
  "d_tasks (mms_dispatcher_check_if_done d) = d_tasks d"
  "d_active_task (mms_dispatcher_check_if_done d) = d_active_task d"
  "d_connection (mms_dispatcher_check_if_done d) = d_connection d"
  "d_network_idle_id (mms_dispatcher_check_if_done d) = d_network_idle_id d"
  "d_connection_changed_id (mms_dispatcher_check_if_done d) = d_connection_changed_id d"
  "d_delegate (mms_dispatcher_check_if_done d) = d_delegate d"
  "d_handler_busy (mms_dispatcher_check_if_done d) = d_handler_busy d"
  "d_connman_busy (mms_dispatcher_check_if_done d) = d_connman_busy d"
  "d_counters (mms_dispatcher_check_if_done d) = d_counters d"
  "d_held (mms_dispatcher_check_if_done d) = d_held d"
  by (simp_all add: mms_dispatcher_check_if_done_def Let_def)

lemma check_if_done_active [simp]:
  "mms_dispatcher_is_active (mms_dispatcher_check_if_done d) = mms_dispatcher_is_active d"
  by (simp add: mms_dispatcher_is_active_def)

lemma check_if_done_noop: "mms_dispatcher_is_active d \<Longrightarrow> mms_dispatcher_check_if_done d = d"
  by (simp add: mms_dispatcher_check_if_done_def)

lemma check_if_done_started:
  "d_started (mms_dispatcher_check_if_done d) \<longleftrightarrow>
     d_started d \<and> (mms_dispatcher_is_active d \<or> \<not> d_delegate d)"
  by (auto simp: mms_dispatcher_check_if_done_def Let_def)

lemma check_if_done_run:
  "d_next_run_id (mms_dispatcher_check_if_done d) \<longleftrightarrow> d_next_run_id d \<and> mms_dispatcher_is_active d"
  by (simp add: mms_dispatcher_check_if_done_def Let_def)

lemma check_if_done_calls:
  "d_calls (mms_dispatcher_check_if_done d) =
     d_calls d @ (if \<not> mms_dispatcher_is_active d \<and> d_delegate d \<and> d_started d then [Dispatcher_Done] else [])"
  by (simp add: mms_dispatcher_check_if_done_def Let_def)

lemma drop_connection_fields [simp]:
  "d_tasks (mms_dispatcher_drop_connection d) = d_tasks d"
  "d_active_task (mms_dispatcher_drop_connection d) = d_active_task d"
  "d_connection (mms_dispatcher_drop_connection d) = None"
  "d_next_run_id (mms_dispatcher_drop_connection d) = d_next_run_id d"
  "d_started (mms_dispatcher_drop_connection d) = d_started d"
  "d_delegate (mms_dispatcher_drop_connection d) = d_delegate d"
  "d_handler_busy (mms_dispatcher_drop_connection d) = d_handler_busy d"
  "d_connman_busy (mms_dispatcher_drop_connection d) = d_connman_busy d"
  "d_counters (mms_dispatcher_drop_connection d) = d_counters d"
  "d_held (mms_dispatcher_drop_connection d) = d_held d"
  "d_calls (mms_dispatcher_drop_connection d) = d_calls d"
  by (simp_all add: mms_dispatcher_drop_connection_def Let_def)

lemma close_connection_fields [simp]:
  "d_tasks (mms_dispatcher_close_connection d) = d_tasks d"
  "d_active_task (mms_dispatcher_close_connection d) = d_active_task d"
  "d_delegate (mms_dispatcher_close_connection d) = d_delegate d"
  "d_handler_busy (mms_dispatcher_close_connection d) = d_handler_busy d"
  "d_connman_busy (mms_dispatcher_close_connection d) = d_connman_busy d"
  "d_counters (mms_dispatcher_close_connection d) = d_counters d"
  "d_held (mms_dispatcher_close_connection d) = d_held d"
  "d_connection (mms_dispatcher_close_connection d) =
     (if mms_connection_is_active (d_connection d) then d_connection d else None)"
  by (simp_all add: mms_dispatcher_close_connection_def Let_def split: option.split)


lemma close_connection_eq:
  "mms_dispatcher_close_connection d =
     (case d_connection d of
        None \<Rightarrow> d
      | Some c \<Rightarrow> mms_dispatcher_check_if_done
          (if mms_connection_is_active (Some c) then d_tell (Connection_Close_Requested (c_imsi c)) d
           else mms_dispatcher_drop_connection (d_tell (Connection_Close_Requested (c_imsi c)) d)))"
  by (simp add: mms_dispatcher_close_connection_def Let_def split: option.split)

lemma queue_task_fields [simp]:
  "d_active_task (queue_request e now q d) = d_active_task d"
  "d_connection (queue_request e now q d) = d_connection d"
  "d_next_run_id (queue_request e now q d) = d_next_run_id d"
  "d_network_idle_id (queue_request e now q d) = d_network_idle_id d"
  "d_connection_changed_id (queue_request e now q d) = d_connection_changed_id d"
  "d_started (queue_request e now q d) = d_started d"
  "d_delegate (queue_request e now q d) = d_delegate d"
  "d_handler_busy (queue_request e now q d) = d_handler_busy d"
  "d_connman_busy (queue_request e now q d) = d_connman_busy d"
  "d_held (queue_request e now q d) = d_held d"
  by (simp_all add: queue_request_def mms_dispatcher_queue_task_def split: prod.split)

lemma next_run_schedule_fields [simp]:
  "d_tasks (mms_dispatcher_next_run_schedule d) = d_tasks d"
  "d_active_task (mms_dispatcher_next_run_schedule d) = d_active_task d"
  "d_connection (mms_dispatcher_next_run_schedule d) = d_connection d"
  "d_next_run_id (mms_dispatcher_next_run_schedule d)"
  "d_network_idle_id (mms_dispatcher_next_run_schedule d) = d_network_idle_id d"
  "d_connection_changed_id (mms_dispatcher_next_run_schedule d) = d_connection_changed_id d"
  "d_started (mms_dispatcher_next_run_schedule d) = d_started d"
  "d_delegate (mms_dispatcher_next_run_schedule d) = d_delegate d"
  "d_handler_busy (mms_dispatcher_next_run_schedule d) = d_handler_busy d"
  "d_connman_busy (mms_dispatcher_next_run_schedule d) = d_connman_busy d"
  "d_counters (mms_dispatcher_next_run_schedule d) = d_counters d"
  "d_held (mms_dispatcher_next_run_schedule d) = d_held d"
  "d_calls (mms_dispatcher_next_run_schedule d) = d_calls d"
  by (simp_all add: mms_dispatcher_next_run_schedule_def)

lemma release_fields [simp]:
  "d_tasks (release_task e t d) = d_tasks d" "d_active_task (release_task e t d) = d_active_task d"
  "d_connection (release_task e t d) = d_connection d" "d_next_run_id (release_task e t d) = d_next_run_id d"
  "d_network_idle_id (release_task e t d) = d_network_idle_id d"
  "d_connection_changed_id (release_task e t d) = d_connection_changed_id d"
  "d_started (release_task e t d) = d_started d" "d_delegate (release_task e t d) = d_delegate d"
  "d_handler_busy (release_task e t d) = d_handler_busy d" "d_connman_busy (release_task e t d) = d_connman_busy d"
  "d_calls (release_task e t d) = d_calls d @ [Task_Released (t_order t) (t_state t)]"
  by (simp_all add: release_task_def)

lemma unref_fields [simp]:
  "d_tasks (unref_held n cs d) = d_tasks d" "d_active_task (unref_held n cs d) = d_active_task d"
  "d_connection (unref_held n cs d) = d_connection d" "d_next_run_id (unref_held n cs d) = d_next_run_id d"
  "d_network_idle_id (unref_held n cs d) = d_network_idle_id d"
  "d_connection_changed_id (unref_held n cs d) = d_connection_changed_id d"
  "d_started (unref_held n cs d) = d_started d" "d_delegate (unref_held n cs d) = d_delegate d"
  "d_handler_busy (unref_held n cs d) = d_handler_busy d" "d_connman_busy (unref_held n cs d) = d_connman_busy d"
  "d_calls (unref_held n cs d) = d_calls d"
  by (simp_all add: unref_held_def)

text \<open>The two delegate functions and what they leave alone, in the terms of one case distinction.\<close>

lemma delegate_task_queue_cases:
  "mms_dispatcher_delegate_task_queue e now q d = queue_request e now q d
   \<or> mms_dispatcher_delegate_task_queue e now q d
       = mms_dispatcher_next_run_schedule (queue_request e now q d)"
  by (simp add: mms_dispatcher_delegate_task_queue_def Let_def)

lemma delegate_state_changed_cases:
  "mms_dispatcher_delegate_task_state_changed d = d
   \<or> mms_dispatcher_delegate_task_state_changed d = mms_dispatcher_next_run_schedule d"
  by (simp add: mms_dispatcher_delegate_task_state_changed_def)

lemma delegate_fields [simp]:
  "d_active_task (mms_dispatcher_delegate_task_queue e now q d) = d_active_task d"
  "d_connection (mms_dispatcher_delegate_task_queue e now q d) = d_connection d"
  "d_network_idle_id (mms_dispatcher_delegate_task_queue e now q d) = d_network_idle_id d"
  "d_connection_changed_id (mms_dispatcher_delegate_task_queue e now q d) = d_connection_changed_id d"
  "d_started (mms_dispatcher_delegate_task_queue e now q d) = d_started d"
  "d_delegate (mms_dispatcher_delegate_task_queue e now q d) = d_delegate d"
  "d_handler_busy (mms_dispatcher_delegate_task_queue e now q d) = d_handler_busy d"
  "d_connman_busy (mms_dispatcher_delegate_task_queue e now q d) = d_connman_busy d"
  "d_next_run_id (mms_dispatcher_delegate_task_queue e now q d) \<longleftrightarrow> d_active_task d = None \<or> d_next_run_id d"
  "d_active_task (mms_dispatcher_delegate_task_state_changed d) = d_active_task d"
  "d_tasks (mms_dispatcher_delegate_task_state_changed d) = d_tasks d"
  "d_connection (mms_dispatcher_delegate_task_state_changed d) = d_connection d"
  "d_network_idle_id (mms_dispatcher_delegate_task_state_changed d) = d_network_idle_id d"
  "d_connection_changed_id (mms_dispatcher_delegate_task_state_changed d) = d_connection_changed_id d"
  "d_started (mms_dispatcher_delegate_task_state_changed d) = d_started d"
  "d_delegate (mms_dispatcher_delegate_task_state_changed d) = d_delegate d"
  "d_handler_busy (mms_dispatcher_delegate_task_state_changed d) = d_handler_busy d"
  "d_connman_busy (mms_dispatcher_delegate_task_state_changed d) = d_connman_busy d"
  "d_counters (mms_dispatcher_delegate_task_state_changed d) = d_counters d"
  "d_held (mms_dispatcher_delegate_task_queue e now q d) = d_held d"
  "d_held (mms_dispatcher_delegate_task_state_changed d) = d_held d"
  "d_calls (mms_dispatcher_delegate_task_state_changed d) = d_calls d"
  "d_next_run_id (mms_dispatcher_delegate_task_state_changed d) \<longleftrightarrow> d_active_task d = None \<or> d_next_run_id d"
  by (auto simp: mms_dispatcher_delegate_task_queue_def
      mms_dispatcher_delegate_task_state_changed_def Let_def)

lemma listen_fields [simp]:
  "d_active_task (mms_dispatcher_listen e now cs d) = d_active_task d"
  "d_connection (mms_dispatcher_listen e now cs d) = d_connection d"
  "d_network_idle_id (mms_dispatcher_listen e now cs d) = d_network_idle_id d"
  "d_connection_changed_id (mms_dispatcher_listen e now cs d) = d_connection_changed_id d"
  "d_started (mms_dispatcher_listen e now cs d) = d_started d"
  "d_delegate (mms_dispatcher_listen e now cs d) = d_delegate d"
  "d_handler_busy (mms_dispatcher_listen e now cs d) = d_handler_busy d"
  "d_connman_busy (mms_dispatcher_listen e now cs d) = d_connman_busy d"
  "d_held (mms_dispatcher_listen e now cs d) = d_held d"
  by (induction e now cs d rule: mms_dispatcher_listen.induct) simp_all

text \<open>A notification from a task schedules a run, unless a task is being run.\<close>

lemma listen_next_run:
  "d_next_run_id (mms_dispatcher_listen e now cs d) \<longleftrightarrow>
     d_next_run_id d \<or> (d_active_task d = None \<and> (states_told cs \<noteq> [] \<or> tasks_queued cs \<noteq> []))"
  by (induction e now cs d rule: mms_dispatcher_listen.induct) auto

lemma listen_queues_nothing:
  "tasks_queued cs = [] \<Longrightarrow> d_tasks (mms_dispatcher_listen e now cs d) = d_tasks d
     \<and> d_counters (mms_dispatcher_listen e now cs d) = d_counters d
     \<and> d_calls (mms_dispatcher_listen e now cs d) = d_calls d"
  by (induction e now cs d rule: mms_dispatcher_listen.induct) simp_all

lemma listen_grows: "\<exists>new. d_tasks (mms_dispatcher_listen e now cs d) = d_tasks d @ new"
proof (induction e now cs d rule: mms_dispatcher_listen.induct)
  case (2 e now q cs d)
  then show ?case
    by (auto simp: mms_dispatcher_delegate_task_queue_def queue_request_def mms_dispatcher_queue_task_def Let_def
        split: prod.splits)
qed simp_all

text \<open>Induction over what the tasks tell: a property of the dispatcher survives it when it survives the
  queueing of a task and the scheduling of a run.\<close>

lemma listen_induct [case_names start queue schedule]:
  assumes "P d"
    and "\<And>q d. P d \<Longrightarrow> P (queue_request e now q d)"
    and "\<And>d. P d \<Longrightarrow> P (mms_dispatcher_next_run_schedule d)"
  shows "P (mms_dispatcher_listen e now cs d)"
  using assms(1)
proof (induction cs arbitrary: d)
  case (Cons c cs)
  then show ?case
    using assms(2,3)
    by (cases c) (simp_all add: mms_dispatcher_delegate_task_queue_def
        mms_dispatcher_delegate_task_state_changed_def Let_def)
qed simp

end
