(* ===== verification/Dispatcher_Queue.thy ===== *)
theory Dispatcher_Queue
  imports Dispatcher
begin

text \<open>
  The task queue of the dispatcher (\<^verbatim>\<open>mms_dispatcher_sort_cb\<close>,
  \<^verbatim>\<open>mms_dispatcher_pick_next_task\<close>, \<^verbatim>\<open>mms_dispatcher_run\<close>): in which order the tasks are
  taken, what is left when a run has come to its end, and the conditions under which a task is given the
  connection.

  \<open>queue_key\<close> is the reference definition of the order: by priority, then tasks that can run, then
  tasks that want a connection, then all others, and the oldest first in each class. It is the order of
  \<^verbatim>\<open>mms_dispatcher_sort_cb\<close> as long as no connection is open. With an open connection the callback is
  not an order at all.
\<close>

section \<open>The order without an open connection\<close>

definition queue_rank :: "('q, 'a) mms_task_scheme \<Rightarrow> int" where
  "queue_rank t = (if is_runnable t then 0 else if needs_connection t then 1 else 2)"

definition key_le :: "int \<times> int \<times> int \<Rightarrow> int \<times> int \<times> int \<Rightarrow> bool" where
  "key_le a b \<longleftrightarrow> (case (a, b) of ((p, r, n), (p', r', n')) \<Rightarrow>
     p < p' \<or> (p = p' \<and> (r < r' \<or> (r = r' \<and> n \<le> n'))))"

definition queue_key :: "('q, 'a) mms_task_scheme \<Rightarrow> int \<times> int \<times> int" where
  "queue_key t = (- priority_value (t_priority t), queue_rank t, t_order t)"

lemma priority_value_eq [simp]: "priority_value p = priority_value p' \<longleftrightarrow> p = p'"
  by (cases p; cases p') simp_all

lemma needs_not_runnable: "needs_connection t \<Longrightarrow> \<not> is_runnable t"
  by (auto simp: needs_connection_def is_runnable_def)

lemma same_state_rank: "t_state t = t_state u \<Longrightarrow> queue_rank t = queue_rank u"
  by (simp add: queue_rank_def is_runnable_def needs_connection_def)

lemma sort_cb_not_open:
  assumes "\<not> mms_connection_is_open conn"
  shows "mms_dispatcher_sort_cb conn t u =
    (if t_priority t \<noteq> t_priority u then priority_value (t_priority u) - priority_value (t_priority t)
     else if queue_rank t < queue_rank u then - 1
     else if queue_rank u < queue_rank t then 1
     else t_order t - t_order u)"
  using assms same_state_rank [of t u]
  by (auto simp: mms_dispatcher_sort_cb_def Let_def queue_rank_def needs_not_runnable)

lemma sort_cb_key:
  "\<not> mms_connection_is_open conn
   \<Longrightarrow> mms_dispatcher_sort_cb conn t u \<le> 0 \<longleftrightarrow> key_le (queue_key t) (queue_key u)"
  by (cases "t_priority t"; cases "t_priority u")
     (auto simp: sort_cb_not_open key_le_def queue_key_def)

lemma key_le_total: "key_le a b \<or> key_le b a"
  by (auto simp: key_le_def split: prod.splits)

lemma key_le_trans: "key_le a b \<Longrightarrow> key_le b c \<Longrightarrow> key_le a c"
  by (auto simp: key_le_def split: prod.splits)

lemma sort_cb_total_order:
  "\<not> mms_connection_is_open conn \<Longrightarrow> total_order_on (mms_dispatcher_sort_cb conn) S"
  unfolding total_order_on_def sort_cb_key using key_le_total key_le_trans by blast

lemma sorted_queue:
  assumes "queue_sort_ok srt" and "\<not> mms_connection_is_open conn"
  shows "sorted_wrt (\<lambda>t u. key_le (queue_key t) (queue_key u)) (srt (mms_dispatcher_sort_cb conn) ts)"
proof -
  have "sorted_wrt (\<lambda>t u. mms_dispatcher_sort_cb conn t u \<le> 0) (srt (mms_dispatcher_sort_cb conn) ts)"
    using assms(1) sort_cb_total_order [OF assms(2)] unfolding queue_sort_ok_def by blast
  then show ?thesis
    by (simp only: sort_cb_key [OF assms(2)])
qed

lemma sort_mset: "queue_sort_ok srt \<Longrightarrow> mset (srt cmp ts) = mset ts"
  by (simp add: queue_sort_ok_def)

lemma sort_set: "queue_sort_ok srt \<Longrightarrow> set (srt cmp ts) = set ts"
  using sort_mset mset_eq_setD by blast

text \<open>A sort that satisfies the documentation, for the examples: insertion before the first element that
  comes later.\<close>

fun insert_task :: "('t \<Rightarrow> 't \<Rightarrow> int) \<Rightarrow> 't \<Rightarrow> 't list \<Rightarrow> 't list" where
  "insert_task cmp t [] = [t]"
| "insert_task cmp t (u # us) = (if cmp t u \<le> 0 then t # u # us else u # insert_task cmp t us)"

fun sort_tasks :: "('t \<Rightarrow> 't \<Rightarrow> int) \<Rightarrow> 't list \<Rightarrow> 't list" where
  "sort_tasks cmp [] = []"
| "sort_tasks cmp (t # ts) = insert_task cmp t (sort_tasks cmp ts)"

lemma mset_insert_task [simp]: "mset (insert_task cmp t us) = add_mset t (mset us)"
  by (induction us) auto

lemma set_insert_task [simp]: "set (insert_task cmp t us) = insert t (set us)"
  by (induction us) auto

lemma mset_sort_tasks [simp]: "mset (sort_tasks cmp ts) = mset ts"
  by (induction ts) auto

lemma set_sort_tasks [simp]: "set (sort_tasks cmp ts) = set ts"
  by (induction ts) auto

lemma total_order_subset: "total_order_on cmp S \<Longrightarrow> T \<subseteq> S \<Longrightarrow> total_order_on cmp T"
  unfolding total_order_on_def by blast

lemma sorted_insert_task:
  "total_order_on cmp (insert t (set us)) \<Longrightarrow> sorted_wrt (\<lambda>x y. cmp x y \<le> 0) us
   \<Longrightarrow> sorted_wrt (\<lambda>x y. cmp x y \<le> 0) (insert_task cmp t us)"
proof (induction us)
  case (Cons u us)
  have order: "cmp x y \<le> 0 \<or> cmp y x \<le> 0" "cmp x y \<le> 0 \<Longrightarrow> cmp y z \<le> 0 \<Longrightarrow> cmp x z \<le> 0"
    if "x \<in> insert t (set (u # us))" "y \<in> insert t (set (u # us))" "z \<in> insert t (set (u # us))" for x y z
    using Cons.prems(1) that unfolding total_order_on_def by blast+
  have IH: "sorted_wrt (\<lambda>x y. cmp x y \<le> 0) (insert_task cmp t us)"
    using Cons.IH Cons.prems total_order_subset [OF Cons.prems(1), of "insert t (set us)"] by auto
  show ?case
  proof (cases "cmp t u \<le> 0")
    case True
    then have "\<forall>x\<in>set us. cmp t x \<le> 0"
      using Cons.prems(2) order(2) [of t u] by auto
    then show ?thesis using True Cons.prems(2) by simp
  next
    case False
    then have "cmp u t \<le> 0" using order(1) [of t u t] by simp
    then show ?thesis using False IH Cons.prems(2) by simp
  qed
qed simp

lemma sorted_sort_tasks:
  "total_order_on cmp (set xs) \<Longrightarrow> sorted_wrt (\<lambda>x y. cmp x y \<le> 0) (sort_tasks cmp xs)"
proof (induction xs)
  case (Cons x xs)
  have "total_order_on cmp (set xs)"
    by (rule total_order_subset [OF Cons.prems]) auto
  then show ?case
    using Cons sorted_insert_task [of cmp x "sort_tasks cmp xs"] by simp
qed simp

lemma sort_tasks_ok: "queue_sort_ok sort_tasks"
  by (simp add: queue_sort_ok_def sorted_sort_tasks)

section \<open>Picking a task\<close>

lemma request_connection_fields [simp]:
  "d_tasks (mms_dispatcher_request_connection e t d) = d_tasks d"
  "d_active_task (mms_dispatcher_request_connection e t d) = d_active_task d"
  "d_next_run_id (mms_dispatcher_request_connection e t d) = d_next_run_id d"
  "d_network_idle_id (mms_dispatcher_request_connection e t d) = d_network_idle_id d"
  "d_started (mms_dispatcher_request_connection e t d) = d_started d"
  "d_delegate (mms_dispatcher_request_connection e t d) = d_delegate d"
  "d_handler_busy (mms_dispatcher_request_connection e t d) = d_handler_busy d"
  "d_connman_busy (mms_dispatcher_request_connection e t d) = d_connman_busy d"
  "d_counters (mms_dispatcher_request_connection e t d) = d_counters d"
  "d_held (mms_dispatcher_request_connection e t d) = d_held d"
  by (simp_all add: mms_dispatcher_request_connection_def Let_def split: option.split)

text \<open>The part of picking that deals with the connection, and the queue it works on.\<close>

definition sorted_tasks :: "('q, 'a) dispatcher_env \<Rightarrow> ('q, 'a) mms_dispatcher \<Rightarrow> ('q, 'a) mms_task_scheme list" where
  "sorted_tasks e d = e_sort e (mms_dispatcher_sort_cb (d_connection d)) (d_tasks d)"

definition right_connection ::
    "('q, 'a) dispatcher_env \<Rightarrow> ('q, 'a) mms_task_scheme \<Rightarrow> ('q, 'a) mms_dispatcher \<Rightarrow> ('q, 'a) mms_dispatcher" where
  "right_connection e t d =
     (let d = (case d_connection d of
                 None \<Rightarrow> d
               | Some c \<Rightarrow> if t_imsi t \<noteq> Some (c_imsi c) then mms_dispatcher_close_connection d else d)
      in if d_connection d = None then mms_dispatcher_request_connection e t d else d)"

definition has_connection :: "('q, 'a) mms_task_scheme \<Rightarrow> ('q, 'a) mms_dispatcher \<Rightarrow> bool" where
  "has_connection t d \<longleftrightarrow>
     (\<exists>c. d_connection d = Some c \<and> t_imsi t = Some (c_imsi c) \<and> c_state c = MMS_CONNECTION_STATE_OPEN)"

lemma pick_eq:
  "mms_dispatcher_pick_next_task e now d =
     (case sorted_tasks e d of
        [] \<Rightarrow> (None, d\<lparr>d_tasks := []\<rparr>)
      | t # rest \<Rightarrow>
          if is_runnable t then (Some t, d\<lparr>d_tasks := rest\<rparr>)
          else if needs_connection t
          then let d' = right_connection e t (d\<lparr>d_tasks := t # rest\<rparr>) in
            if has_connection t d' then (Some t, d'\<lparr>d_tasks := rest\<rparr>)
            else if d_connection d' \<noteq> None then (None, d')
            else let t' = mms_task_network_unavailable (e_class e) now False t
                 in (None, mms_dispatcher_listen e now (told_since t t') (update_head t' d'))
          else (None, d\<lparr>d_tasks := t # rest\<rparr>))"
proof -
  have "mms_dispatcher_pick_next_task e now d =
     (case sorted_tasks e d of
        [] \<Rightarrow> (None, d\<lparr>d_tasks := []\<rparr>)
      | t # rest \<Rightarrow>
          if is_runnable t then (Some t, d\<lparr>d_tasks := rest\<rparr>)
          else if needs_connection t
          then let d' = right_connection e t (d\<lparr>d_tasks := t # rest\<rparr>) in
            (case d_connection d' of
               Some c \<Rightarrow> if t_imsi t = Some (c_imsi c) \<and> mms_connection_is_open (Some c)
                 then (Some t, d'\<lparr>d_tasks := rest\<rparr>) else (None, d')
             | None \<Rightarrow> let t' = mms_task_network_unavailable (e_class e) now False t
                 in (None, mms_dispatcher_listen e now (told_since t t') (update_head t' d')))
          else (None, d\<lparr>d_tasks := t # rest\<rparr>))"
  proof (cases "e_sort e (mms_dispatcher_sort_cb (d_connection d)) (d_tasks d)")
    case Nil
    show ?thesis
      unfolding mms_dispatcher_pick_next_task_def sorted_tasks_def Let_def Nil by simp
  next
    case (Cons t rest)
    show ?thesis
      unfolding mms_dispatcher_pick_next_task_def sorted_tasks_def right_connection_def Let_def Cons
      by simp
  qed
  then show ?thesis
    by (auto simp: has_connection_def Let_def split: list.split option.split)
qed

lemma right_connection_fields [simp]:
  "d_tasks (right_connection e t d) = d_tasks d"
  "d_active_task (right_connection e t d) = d_active_task d"
  "d_delegate (right_connection e t d) = d_delegate d"
  "d_handler_busy (right_connection e t d) = d_handler_busy d"
  "d_connman_busy (right_connection e t d) = d_connman_busy d"
  "d_counters (right_connection e t d) = d_counters d"
  "d_held (right_connection e t d) = d_held d"
  by (simp_all add: right_connection_def Let_def split: option.split)

text \<open>The four ways in which picking ends.\<close>

lemma pick_cases [consumes 1, case_names empty waits runs transmits needs unavailable]:
  assumes "mms_dispatcher_pick_next_task e now d = (r, d')"
  obtains
    "r = None" "sorted_tasks e d = []" "d' = d\<lparr>d_tasks := []\<rparr>"
  | t rest where "r = None" "sorted_tasks e d = t # rest" "\<not> is_runnable t" "\<not> needs_connection t"
      "d' = d\<lparr>d_tasks := t # rest\<rparr>"
  | t rest where "r = Some t" "sorted_tasks e d = t # rest" "is_runnable t" "d' = d\<lparr>d_tasks := rest\<rparr>"
  | t rest dc where "r = Some t" "sorted_tasks e d = t # rest" "needs_connection t"
      "dc = right_connection e t (d\<lparr>d_tasks := t # rest\<rparr>)" "has_connection t dc"
      "d' = dc\<lparr>d_tasks := rest\<rparr>"
  | t rest where "r = None" "sorted_tasks e d = t # rest" "needs_connection t"
      "d' = right_connection e t (d\<lparr>d_tasks := t # rest\<rparr>)" "\<not> has_connection t d'" "d_connection d' \<noteq> None"
  | t rest dc t' where "r = None" "sorted_tasks e d = t # rest" "needs_connection t"
      "dc = right_connection e t (d\<lparr>d_tasks := t # rest\<rparr>)" "d_connection dc = None"
      "t' = mms_task_network_unavailable (e_class e) now False t"
      "d' = mms_dispatcher_listen e now (told_since t t') (update_head t' dc)"
  using assms unfolding pick_eq
  by (cases "sorted_tasks e d") (simp_all add: Let_def split: if_splits, blast+)

lemma pick_some:
  assumes "mms_dispatcher_pick_next_task e now d = (Some t, d')"
  shows "is_runnable t \<or> (needs_connection t \<and> has_connection t d')"
  using assms by (cases rule: pick_cases) (auto simp: has_connection_def)

lemma sorted_tasks_mset: "queue_sort_ok (e_sort e) \<Longrightarrow> mset (sorted_tasks e d) = mset (d_tasks d)"
  by (simp add: sorted_tasks_def sort_mset)

lemma sorted_tasks_set: "queue_sort_ok (e_sort e) \<Longrightarrow> set (sorted_tasks e d) = set (d_tasks d)"
  by (simp add: sorted_tasks_def sort_set)

lemma pick_takes:
  assumes "mms_dispatcher_pick_next_task e now d = (Some t, d')" and "queue_sort_ok (e_sort e)"
  shows "mset (d_tasks d) = add_mset t (mset (d_tasks d'))"
  using assms(1)
  by (cases rule: pick_cases) (simp_all add: sorted_tasks_mset [OF assms(2), symmetric])

section \<open>The loop\<close>

lemmas loop_induct = mms_dispatcher_loop.raw_induct [rotated, consumes 1, case_names step]

text \<open>What is true of the dispatcher whenever a task is picked is true when the loop ends, up to the
  last, unsuccessful pick.\<close>

lemma loop_invariant [consumes 2, case_names again ends]:
  assumes "mms_dispatcher_loop e now d = Some d'" and "P d"
    and "\<And>d t dp. P d \<Longrightarrow> mms_dispatcher_pick_next_task e now d = (Some t, dp)
           \<Longrightarrow> P (mms_dispatcher_run_task e now t dp)"
    and "\<And>d dp. P d \<Longrightarrow> mms_dispatcher_pick_next_task e now d = (None, dp) \<Longrightarrow> Q dp"
  shows "Q d'"
  using assms
proof (induction rule: loop_induct)
  case (step loop e now d r)
  obtain t dp where pick: "mms_dispatcher_pick_next_task e now d = (t, dp)" by fastforce
  show ?case
  proof (cases t)
    case None
    then show ?thesis using step(2) step(5) [OF step(3)] pick by simp
  next
    case (Some t)
    then show ?thesis
      using step(1) [OF _ step(4) [OF step(3)] step(4,5)] step(2) pick by simp
  qed
qed

section \<open>Properties\<close>

text \<open>C11. While no connection is open, \<^verbatim>\<open>mms_dispatcher_sort_cb\<close> is the lexicographic order of
  (priority, runnable or wanting a connection or neither, order of creation), so that the sort puts a
  smallest task first.\<close>

theorem queue_order:
  assumes "\<not> mms_connection_is_open conn"
  shows "(mms_dispatcher_sort_cb conn t u \<le> 0 \<longleftrightarrow> key_le (queue_key t) (queue_key u))
    \<and> (queue_sort_ok srt \<and> srt (mms_dispatcher_sort_cb conn) ts = h # rest
        \<longrightarrow> (\<forall>t\<in>set ts. key_le (queue_key h) (queue_key t)))"
proof -
  have "key_le (queue_key h) (queue_key t)"
    if ok: "queue_sort_ok srt" and srt: "srt (mms_dispatcher_sort_cb conn) ts = h # rest" and "t \<in> set ts" for t
  proof -
    have "t \<in> set (h # rest)"
      using sort_set [OF ok, of "mms_dispatcher_sort_cb conn" ts] srt that(3) by simp
    moreover have "\<forall>t\<in>set rest. key_le (queue_key h) (queue_key t)"
      using sorted_queue [OF ok assms, of ts] srt by simp
    ultimately show ?thesis
      using key_le_total [of "queue_key h" "queue_key h"] by auto
  qed
  then show ?thesis by (simp add: sort_cb_key [OF assms])
qed

definition sample_queue :: "nat mms_task list" where
  "sample_queue =
     [sample_task\<lparr>t_state := MMS_TASK_STATE_PENDING, t_order := 1\<rparr>,
      sample_task\<lparr>t_state := MMS_TASK_STATE_NEED_CONNECTION, t_order := 2\<rparr>,
      sample_task\<lparr>t_order := 3\<rparr>, sample_task\<lparr>t_state := MMS_TASK_STATE_DONE, t_order := 0\<rparr>]"

lemmas sort_sample_simps = sample_queue_def sort_cb_not_open queue_rank_def is_runnable_def needs_connection_def

lemma sample_queue_sorted:
  "map t_order (sort_tasks (mms_dispatcher_sort_cb None) sample_queue) = [0, 3, 2, 1]"
  by (simp add: sort_sample_simps)

theorem queue_order_witness:
  "key_le (0, 0, 0) (queue_key (sample_queue ! 0)) \<and> key_le (0, 0, 0) (queue_key (sample_queue ! 2))"
proof -
  have srt: "sort_tasks (mms_dispatcher_sort_cb None) sample_queue =
      sample_queue ! 3 # tl (sort_tasks (mms_dispatcher_sort_cb None) sample_queue)"
    by (simp add: sort_sample_simps)
  have "queue_key (sample_queue ! 3) = (0, 0, 0)"
    by (simp add: sort_sample_simps queue_key_def)
  moreover have "\<forall>t\<in>set sample_queue. key_le (queue_key (sample_queue ! 3)) (queue_key t)"
    by (rule queue_order [THEN conjunct2, THEN mp, OF _ conjI [OF sort_tasks_ok srt]]) simp
  moreover have "sample_queue ! 0 \<in> set sample_queue" "sample_queue ! 2 \<in> set sample_queue"
    by (simp_all add: sample_queue_def)
  ultimately show ?thesis by simp
qed

text \<open>With an open connection the callback is not an order: there are three tasks of equal priority of
  which each comes strictly before the next, in a cycle. What the sort does to such a queue is not
  determined by its documentation.\<close>

theorem no_order_with_open_connection:
  "\<exists>c (t :: nat mms_task) u v. mms_connection_is_open (Some c)
     \<and> mms_dispatcher_sort_cb (Some c) t u < 0
     \<and> mms_dispatcher_sort_cb (Some c) u v < 0
     \<and> mms_dispatcher_sort_cb (Some c) v t < 0"
proof (intro exI conjI)
  let ?c = "\<lparr>c_imsi = ''244'', c_mmsc = None, c_mmsproxy = None, c_netif = None,
      c_type = MMS_CONNECTION_TYPE_AUTO, c_state = MMS_CONNECTION_STATE_OPEN\<rparr>"
  let ?t = "sample_task\<lparr>t_state := MMS_TASK_STATE_NEED_CONNECTION, t_imsi := Some ''310'', t_order := 1\<rparr>"
  let ?u = "sample_task\<lparr>t_state := MMS_TASK_STATE_NEED_CONNECTION, t_order := 2\<rparr>"
  let ?v = "sample_task\<lparr>t_state := MMS_TASK_STATE_NEED_USER_CONNECTION, t_order := 3\<rparr>"
  show "mms_connection_is_open (Some ?c)" by simp
  show "mms_dispatcher_sort_cb (Some ?c) ?t ?u < 0" "mms_dispatcher_sort_cb (Some ?c) ?u ?v < 0"
    "mms_dispatcher_sort_cb (Some ?c) ?v ?t < 0"
    by (simp_all add: mms_dispatcher_sort_cb_def Let_def wants_this_connection_def needs_connection_def
        is_runnable_def)
qed

text \<open>While no connection is open, a task of the higher priority that waits for something blocks the
  dispatcher: as long as no other task of that priority can run or wants a connection, a run does nothing
  at all, although tasks of normal priority may be ready.\<close>

theorem waiting_task_blocks:
  assumes sort: "queue_sort_ok (e_sort e)" and closed: "\<not> mms_connection_is_open (d_connection d)"
    and h: "h \<in> set (d_tasks d)" "t_priority h = MMS_TASK_PRIORITY_POST_PROCESS"
    and waits: "\<forall>t\<in>set (d_tasks d). t_priority t = MMS_TASK_PRIORITY_POST_PROCESS
      \<longrightarrow> \<not> is_runnable t \<and> \<not> needs_connection t"
  shows "\<exists>ts. mset ts = mset (d_tasks d) \<and> mms_dispatcher_loop e now d = Some (d\<lparr>d_tasks := ts\<rparr>)"
proof -
  obtain t rest where sorted: "sorted_tasks e d = t # rest"
    using h(1) sorted_tasks_set [OF sort, of d] by (cases "sorted_tasks e d") auto
  have "h \<in> set (t # rest)"
    using h(1) sorted_tasks_set [OF sort, of d] sorted by simp
  moreover have "\<forall>u\<in>set rest. key_le (queue_key t) (queue_key u)"
    using sorted_queue [OF sort closed, of "d_tasks d"] sorted by (simp add: sorted_tasks_def)
  ultimately have "t = h \<or> key_le (queue_key t) (queue_key h)" by auto
  then have "t_priority t = MMS_TASK_PRIORITY_POST_PROCESS"
    using h(2) by (cases "t_priority t") (auto simp: key_le_def queue_key_def)
  moreover have "t \<in> set (d_tasks d)"
    using sorted_tasks_set [OF sort, of d] sorted by auto
  ultimately have "\<not> is_runnable t" "\<not> needs_connection t"
    using waits by auto
  then have "mms_dispatcher_loop e now d = Some (d\<lparr>d_tasks := t # rest\<rparr>)"
    by (subst mms_dispatcher_loop.simps) (simp add: pick_eq sorted)
  moreover have "mset (t # rest) = mset (d_tasks d)"
    using sorted_tasks_mset [OF sort, of d] sorted by simp
  ultimately show ?thesis by blast
qed

definition sample_dispatcher :: "(nat, unit) mms_dispatcher" where
  "sample_dispatcher = (mms_dispatcher_new True)\<lparr>d_tasks :=
     [sample_task, sample_task\<lparr>t_priority := MMS_TASK_PRIORITY_POST_PROCESS, t_order := 5,
                               t_state := MMS_TASK_STATE_PENDING\<rparr>]\<rparr>"

definition sample_dispatcher_env :: "(nat, unit) dispatcher_env" where
  "sample_dispatcher_env =
     \<lparr>e_class = \<lparr>max_lifetime = 0, fn_run = (\<lambda>now. store_state MMS_TASK_STATE_DONE),
        fn_transmit = (\<lambda>now c. store_state MMS_TASK_STATE_DONE),
        fn_network_unavailable = (\<lambda>now r. store_state MMS_TASK_STATE_DONE),
        fn_cancel = mms_task_cancel_cb\<rparr>,
      e_new = (\<lambda>now q. mms_task_alloc 0 15 now None None None),
      e_open_connection = (\<lambda>imsi ct. None), e_held = (\<lambda>t. False), e_sort = sort_tasks\<rparr>"

theorem waiting_task_blocks_witness:
  "t_state (d_tasks sample_dispatcher ! 0) = MMS_TASK_STATE_READY
   \<and> (\<exists>ts. mset ts = mset (d_tasks sample_dispatcher)
        \<and> mms_dispatcher_loop sample_dispatcher_env 1000 sample_dispatcher
            = Some (sample_dispatcher\<lparr>d_tasks := ts\<rparr>))"
proof (rule conjI)
  show "\<exists>ts. mset ts = mset (d_tasks sample_dispatcher)
        \<and> mms_dispatcher_loop sample_dispatcher_env 1000 sample_dispatcher
            = Some (sample_dispatcher\<lparr>d_tasks := ts\<rparr>)"
    by (rule waiting_task_blocks [where h = "d_tasks sample_dispatcher ! 1"])
       (simp_all add: sample_dispatcher_env_def sort_tasks_ok sample_dispatcher_def
          mms_dispatcher_new_def is_runnable_def needs_connection_def)
qed (simp add: sample_dispatcher_def)

end
