(* ===== verification/Dispatcher_Steps.thy ===== *)
theory Dispatcher_Steps
  imports Dispatcher_Queue
begin

text \<open>
  What holds of the dispatcher after any sequence of callbacks and calls (\<open>dispatcher_step\<close>).

  The first two sections need nothing of the tasks: the wiring of the connection, the idle timer, and
  when the end of activity is told. The locale \<open>dispatcher_contract\<close> adds to the contract of the task
  class what the dispatcher relies on: that new tasks are numbered by the counters, that cancelling or
  losing the network queues nothing, and that a task refused the network says so.
\<close>

section \<open>Wiring\<close>

definition sent_ok :: "('q, 'a) mms_dispatcher \<Rightarrow> bool" where
  "sent_ok d \<longleftrightarrow> (\<forall>i c. Task_Transmitted i c \<in> set (d_calls d)
     \<longrightarrow> i = Some (c_imsi c) \<and> c_state c = MMS_CONNECTION_STATE_OPEN)"

definition wired :: "('q, 'a) mms_dispatcher \<Rightarrow> bool" where
  "wired d \<longleftrightarrow> (d_connection_changed_id d \<longleftrightarrow> d_connection d \<noteq> None)
     \<and> (d_network_idle_id d \<longrightarrow> d_connection d \<noteq> None) \<and> sent_ok d"

text \<open>A dispatcher that has been started and has nothing left to do is going to notice it.\<close>

definition will_be_done :: "('q, 'a) mms_dispatcher \<Rightarrow> bool" where
  "will_be_done d \<longleftrightarrow>
     (d_delegate d \<and> d_started d \<longrightarrow> mms_dispatcher_is_active d \<or> d_next_run_id d)"

lemma sent_ok_simps [simp]:
  "sent_ok (mms_dispatcher_check_if_done d) = sent_ok d"
  "sent_ok (mms_dispatcher_drop_connection d) = sent_ok d"
  "sent_ok (d_tell (Connection_Close_Requested i) d) = sent_ok d"
  "sent_ok (d_tell (Connection_Opened i ct) d) = sent_ok d"
  "sent_ok (d_tell (Task_Created n) d) = sent_ok d"
  "sent_ok (d_tell (Task_Released n st) d) = sent_ok d"
  "sent_ok (d_tell (Task_Transmitted (Some (c_imsi c)) c) d)
     \<longleftrightarrow> c_state c = MMS_CONNECTION_STATE_OPEN \<and> sent_ok d"
  "sent_ok (mms_dispatcher_next_run_schedule d) = sent_ok d"
  "sent_ok (release_task e t d) = sent_ok d" "sent_ok (unref_held n cs d) = sent_ok d"
  by (auto simp: sent_ok_def check_if_done_calls)

lemma wired_simps [simp]:
  "wired (mms_dispatcher_check_if_done d) = wired d"
  "wired (d_tell (Connection_Close_Requested i) d) = wired d"
  "wired (d_tell (Task_Created n) d) = wired d"
  "wired (d_tell (Task_Released n st) d) = wired d"
  "wired (d_tell (Task_Transmitted (Some (c_imsi c)) c) d)
     \<longleftrightarrow> c_state c = MMS_CONNECTION_STATE_OPEN \<and> wired d"
  "wired (mms_dispatcher_next_run_schedule d) = wired d"
  "wired (release_task e t d) = wired d" "wired (unref_held n cs d) = wired d"
  by (auto simp: wired_def)

lemma wired_updates [simp]:
  "wired (d\<lparr>d_tasks := ts\<rparr>) = wired d" "wired (d\<lparr>d_active_task := a\<rparr>) = wired d"
  "wired (d\<lparr>d_counters := cs\<rparr>) = wired d" "wired (d\<lparr>d_next_run_id := r\<rparr>) = wired d"
  "wired (d\<lparr>d_started := s\<rparr>) = wired d" "wired (d\<lparr>d_handler_busy := n\<rparr>) = wired d"
  "wired (d\<lparr>d_connman_busy := n\<rparr>) = wired d" "wired (d\<lparr>d_counters := cs, d_held := h\<rparr>) = wired d"
  by (simp_all add: wired_def sent_ok_def)

lemma wired_no_timer: "wired d \<Longrightarrow> wired (d\<lparr>d_network_idle_id := False\<rparr>)"
  by (simp add: wired_def sent_ok_def)

lemma wired_drop: "wired d \<Longrightarrow> wired (mms_dispatcher_drop_connection d)"
  by (auto simp: wired_def sent_ok_def mms_dispatcher_drop_connection_def Let_def)

lemma wired_close: "wired d \<Longrightarrow> wired (mms_dispatcher_close_connection d)"
  by (auto simp: close_connection_eq wired_drop split: option.split)

lemma wired_queue_request: "wired d \<Longrightarrow> wired (queue_request e now q d)"
  by (simp add: queue_request_def mms_dispatcher_queue_task_def split: prod.split)

lemma wired_listen: "wired d \<Longrightarrow> wired (mms_dispatcher_listen e now cs d)"
  by (rule listen_induct [of wired]) (simp_all add: wired_queue_request)

lemma wired_request: "wired d \<Longrightarrow> wired (mms_dispatcher_request_connection e t d)"
  by (auto simp: mms_dispatcher_request_connection_def Let_def wired_def sent_ok_def split: option.split)

lemma wired_right_connection: "wired d \<Longrightarrow> wired (right_connection e t d)"
  by (auto simp: right_connection_def Let_def wired_close wired_request split: option.split)

lemma wired_pick:
  "mms_dispatcher_pick_next_task e now d = (r, d') \<Longrightarrow> wired d \<Longrightarrow> wired d'"
  by (cases rule: pick_cases, assumption)
     (auto simp: wired_right_connection update_head_def intro!: wired_listen)

lemma wired_run_task:
  assumes "wired d" and "is_runnable t \<or> (needs_connection t \<and> has_connection t d)"
  shows "wired (mms_dispatcher_run_task e now t d)"
  using assms needs_not_runnable [of t]
  by (auto simp: mms_dispatcher_run_task_def Let_def has_connection_def is_runnable_def
      needs_connection_def intro!: wired_listen split: option.splits)

lemma idle_wired [simp]:
  "wired d \<Longrightarrow> wired (mms_dispatcher_network_idle_check d)"
  "wired d \<Longrightarrow> wired (mms_dispatcher_network_idle_cancel d)"
  by (auto simp: mms_dispatcher_network_idle_check_def mms_dispatcher_network_idle_cancel_def
      wired_def sent_ok_def)

lemma wired_loop: "mms_dispatcher_loop e now d = Some d' \<Longrightarrow> wired d \<Longrightarrow> wired d'"
  by (rule loop_invariant [where P = wired and Q = wired])
     (auto intro: wired_run_task wired_pick dest: pick_some)

lemma run_task_inactive [simp]: "d_active_task (mms_dispatcher_run_task e now t d) = None"
  by (simp add: mms_dispatcher_run_task_def Let_def split: prod.split)

lemma pick_keeps_active:
  "mms_dispatcher_pick_next_task e now d = (r, d') \<Longrightarrow> d_active_task d' = d_active_task d"
  by (cases rule: pick_cases, assumption) (simp_all add: update_head_def)

lemma loop_inactive:
  "mms_dispatcher_loop e now d = Some d' \<Longrightarrow> d_active_task d = None \<Longrightarrow> d_active_task d' = None"
  by (rule loop_invariant [where P = "\<lambda>d. d_active_task d = None" and Q = "\<lambda>d. d_active_task d = None"])
     (auto dest: pick_keeps_active)


section \<open>Every step keeps the wiring and the end of activity\<close>

lemma run_result:
  assumes "mms_dispatcher_run e now d = Some d'"
  obtains dl where "mms_dispatcher_loop e now d = Some dl"
    "d' = mms_dispatcher_check_if_done
       (if d_connection dl = None then dl
        else if list_ex uses_connection (d_tasks dl) then mms_dispatcher_network_idle_cancel dl
        else mms_dispatcher_network_idle_check dl)"
  using assms by (auto simp: mms_dispatcher_run_def Let_def split: option.splits if_splits)

lemma wired_run: "mms_dispatcher_run e now d = Some d' \<Longrightarrow> wired d \<Longrightarrow> wired d'"
  by (erule run_result) (auto dest: wired_loop)

lemma idle_active [simp]:
  "d_active_task (mms_dispatcher_network_idle_check d) = d_active_task d"
  "d_active_task (mms_dispatcher_network_idle_cancel d) = d_active_task d"
  "d_tasks (mms_dispatcher_network_idle_check d) = d_tasks d"
  "d_tasks (mms_dispatcher_network_idle_cancel d) = d_tasks d"
  "d_connection (mms_dispatcher_network_idle_check d) = d_connection d"
  "d_connection (mms_dispatcher_network_idle_cancel d) = d_connection d"
  "d_counters (mms_dispatcher_network_idle_check d) = d_counters d"
  "d_counters (mms_dispatcher_network_idle_cancel d) = d_counters d"
  "d_held (mms_dispatcher_network_idle_check d) = d_held d"
  "d_held (mms_dispatcher_network_idle_cancel d) = d_held d"
  "d_calls (mms_dispatcher_network_idle_check d) = d_calls d"
  "d_calls (mms_dispatcher_network_idle_cancel d) = d_calls d"
  "d_next_run_id (mms_dispatcher_network_idle_check d) = d_next_run_id d"
  "d_next_run_id (mms_dispatcher_network_idle_cancel d) = d_next_run_id d"
  by (simp_all add: mms_dispatcher_network_idle_check_def mms_dispatcher_network_idle_cancel_def)

lemma run_inactive:
  "mms_dispatcher_run e now d = Some d' \<Longrightarrow> d_active_task d = None \<Longrightarrow> d_active_task d' = None"
  by (erule run_result) (auto dest: loop_inactive)

lemma will_be_done_check [simp]: "will_be_done (mms_dispatcher_check_if_done d)"
  by (auto simp: will_be_done_def check_if_done_started)

lemma run_will_be_done: "mms_dispatcher_run e now d = Some d' \<Longrightarrow> will_be_done d'"
  by (erule run_result) simp

lemma will_be_done_no_timer [simp]: "will_be_done (d\<lparr>d_network_idle_id := False\<rparr>) = will_be_done d"
  by (simp add: will_be_done_def mms_dispatcher_is_active_def)

lemma will_be_done_close: "will_be_done d \<Longrightarrow> will_be_done (mms_dispatcher_close_connection d)"
  by (auto simp: close_connection_eq split: option.split)

lemma each_task_fields [simp]:
  "d_active_task (each_task e now P f d) = d_active_task d"
  "d_connection (each_task e now P f d) = d_connection d"
  "d_network_idle_id (each_task e now P f d) = d_network_idle_id d"
  "d_connection_changed_id (each_task e now P f d) = d_connection_changed_id d"
  "d_started (each_task e now P f d) = d_started d"
  "d_delegate (each_task e now P f d) = d_delegate d"
  "d_handler_busy (each_task e now P f d) = d_handler_busy d"
  "d_connman_busy (each_task e now P f d) = d_connman_busy d"
  by (simp_all add: each_task_def Let_def)

lemma each_task_tasks:
  "\<exists>new. d_tasks (each_task e now P f d) = map (\<lambda>t. if P t then f t else t) (d_tasks d) @ new"
  using listen_grows [of e now _ "d\<lparr>d_tasks := map (\<lambda>t. if P t then f t else t) (d_tasks d)\<rparr>"]
  by (simp add: each_task_def Let_def)

lemma each_task_nonempty: "d_tasks d \<noteq> [] \<Longrightarrow> d_tasks (each_task e now P f d) \<noteq> []"
  using each_task_tasks [of e now P f d] by auto

lemma each_task_empty [simp]: "d_tasks d = [] \<Longrightarrow> each_task e now P f d = d"
  by (simp add: each_task_def Let_def)

lemma each_task_wired: "wired d \<Longrightarrow> wired (each_task e now P f d)"
  by (simp add: each_task_def Let_def wired_listen)

lemma active_with_tasks: "d_tasks d \<noteq> [] \<Longrightarrow> mms_dispatcher_is_active d"
  by (simp add: mms_dispatcher_is_active_def)

lemma each_task_will_be_done: "will_be_done d \<Longrightarrow> will_be_done (each_task e now P f d)"
  by (cases "d_tasks d = []")
     (simp_all add: will_be_done_def active_with_tasks each_task_nonempty)

text \<open>The last part of \<open>mms_dispatcher_cancel\<close> for a task that is being run does not apply between
  callbacks.\<close>

lemma cancel_inactive:
  "d_active_task d = None \<Longrightarrow> mms_dispatcher_cancel e now ident d =
     (let d = each_task e now (\<lambda>t. mms_task_match_id (Some t) ident) (mms_task_cancel (e_class e) now) d
      in if ident = None \<and> d_connection d \<noteq> None then mms_dispatcher_close_connection d else d)"
  by (simp add: mms_dispatcher_cancel_def Let_def)

lemma state_changed_eq:
  "d_active_task d = None \<Longrightarrow> mms_dispatcher_connection_state_changed e now c d =
     mms_dispatcher_next_run_schedule
       (if c_state c = MMS_CONNECTION_STATE_FAILED \<or> c_state c = MMS_CONNECTION_STATE_CLOSED
        then mms_dispatcher_check_if_done (mms_dispatcher_drop_connection
          (each_task e now (\<lambda>t. uses_connection t \<and> t_imsi t = Some (c_imsi c))
             (mms_task_network_unavailable (e_class e) now True)
             (mms_dispatcher_close_connection (d\<lparr>d_connection := Some c\<rparr>))))
        else d\<lparr>d_connection := Some c\<rparr>)"
  by (simp add: mms_dispatcher_connection_state_changed_def Let_def)

definition settled_between :: "('q, 'a) mms_dispatcher \<Rightarrow> bool" where
  "settled_between d \<longleftrightarrow> wired d \<and> d_active_task d = None \<and> will_be_done d"

lemma settled_inactive: "settled_between d \<Longrightarrow> d_active_task d = None"
  by (simp add: settled_between_def)

lemma new_settled: "settled_between (mms_dispatcher_new delegate)"
  by (simp add: settled_between_def mms_dispatcher_new_def wired_def sent_ok_def will_be_done_def)

lemma step_settled:
  assumes "dispatcher_step e own new d d'" and "settled_between d"
  shows "settled_between d'"
  using assms(1)
proof (cases rule: dispatcher_step.cases)
  case (Next_Run now)
  then show ?thesis
    using assms(2) unfolding settled_between_def mms_dispatcher_next_run_def
    by (auto intro: run_inactive run_will_be_done wired_run)
next
  case Idle_Timeout
  then show ?thesis
    using assms(2) by (auto simp: settled_between_def mms_dispatcher_network_idle_run_def
        intro!: wired_close wired_no_timer will_be_done_close)
next
  case (Connection c0 c now)
  have "wired (d\<lparr>d_connection := Some c\<rparr>)"
    using assms(2) Connection(2) by (auto simp: settled_between_def wired_def sent_ok_def)
  then show ?thesis
    using assms(2) Connection
    by (auto simp: settled_between_def state_changed_eq will_be_done_def
        intro!: wired_drop each_task_wired wired_close)
next
  case (Task_Callback i t' now)
  obtain new where "d_tasks d' = (d_tasks d)[i := t'] @ new"
    using listen_grows [of e now "told_since (d_tasks d ! i) t'" "d\<lparr>d_tasks := (d_tasks d)[i := t']\<rparr>"]
      Task_Callback(1) by (auto simp: task_event_def)
  then have "mms_dispatcher_is_active d'"
    using Task_Callback(2) by (auto intro!: active_with_tasks)
  then show ?thesis
    using assms(2) Task_Callback
    by (simp add: settled_between_def task_event_def wired_listen will_be_done_def)
next
  case (Queue task cs)
  then show ?thesis
    using assms(2) by (auto simp: mms_dispatcher_is_active_def settled_between_def mms_dispatcher_queue_and_unref_task_def
        will_be_done_def queue_request_def mms_dispatcher_queue_task_def active_with_tasks
        split: option.splits prod.splits)
next
  case (Start ok)
  then show ?thesis
    using assms(2) by (auto simp: settled_between_def mms_dispatcher_start_def will_be_done_def)
next
  case (Cancel now ident)
  then show ?thesis
    using assms(2) by (auto simp: settled_between_def cancel_inactive Let_def
        intro!: wired_close each_task_wired will_be_done_close each_task_will_be_done)
qed (use assms(2) in \<open>auto simp: settled_between_def will_be_done_def mms_dispatcher_is_active_def
      mms_dispatcher_handler_done_def mms_dispatcher_connman_done_def check_if_done_started\<close>)

lemma steps_settled:
  "(dispatcher_step e own new)\<^sup>*\<^sup>* (mms_dispatcher_new delegate) d \<Longrightarrow> settled_between d"
  by (induction rule: rtranclp_induct) (auto intro: new_settled step_settled)


section \<open>The accounts of the tasks\<close>

fun orders_created :: "dispatcher_call list \<Rightarrow> int list" where
  "orders_created [] = []"
| "orders_created (Task_Created n # cs) = n # orders_created cs"
| "orders_created (_ # cs) = orders_created cs"

fun orders_released :: "dispatcher_call list \<Rightarrow> (int \<times> mms_task_state) list" where
  "orders_released [] = []"
| "orders_released (Task_Released n st # cs) = (n, st) # orders_released cs"
| "orders_released (_ # cs) = orders_released cs"

lemma orders_created_append [simp]: "orders_created (a @ b) = orders_created a @ orders_created b"
  by (induction a rule: orders_created.induct) auto

lemma orders_released_append [simp]: "orders_released (a @ b) = orders_released a @ orders_released b"
  by (induction a rule: orders_released.induct) auto

definition orders_alive :: "task_counters \<Rightarrow> int multiset \<Rightarrow> bool" where
  "orders_alive cs M \<longleftrightarrow> (\<exists>live. tasks_alive cs live \<and> mset live = M)"

lemma orders_alive_create:
  "orders_alive cs M \<Longrightarrow> mms_task_init cs = (n, cs') \<Longrightarrow> orders_alive cs' (add_mset n M)"
  unfolding orders_alive_def by (metis Create mset.simps(2))

lemma orders_alive_finalize:
  assumes "orders_alive cs (add_mset n M)"
  shows "orders_alive (mms_task_finalize cs) M"
proof -
  obtain live where "tasks_alive cs live" and live: "mset live = add_mset n M"
    using assms by (auto simp: orders_alive_def)
  moreover have "n \<in> set live"
    using live by (metis set_mset_mset union_single_eq_member)
  ultimately have "tasks_alive (mms_task_finalize cs) (remove1 n live)"
    by (simp add: Finalize)
  then show ?thesis
    using live by (auto simp: orders_alive_def)
qed

text \<open>The tasks of the queue and \<open>ts\<close> are the tasks created less the tasks released, each of these was
  done, and the counters count and number those and the ones that exist without being in the queue.\<close>

definition accounted :: "('q, 'a) mms_task_scheme multiset \<Rightarrow> ('q, 'a) mms_dispatcher \<Rightarrow> bool" where
  "accounted ts d \<longleftrightarrow>
     orders_alive (d_counters d) (image_mset t_order (ts + mset (d_tasks d)) + mset (d_held d))
     \<and> mset (orders_created (d_calls d)) =
         image_mset t_order (ts + mset (d_tasks d)) + mset (map fst (orders_released (d_calls d)))
     \<and> (\<forall>r\<in>set (orders_released (d_calls d)). snd r = MMS_TASK_STATE_DONE)"

definition all_good ::
    "(('q, 'a) mms_task_scheme \<Rightarrow> bool) \<Rightarrow> ('q, 'a) mms_task_scheme multiset \<Rightarrow> ('q, 'a) mms_dispatcher \<Rightarrow> bool" where
  "all_good good ts d \<longleftrightarrow> (\<forall>t\<in>#ts + mset (d_tasks d). good t \<and> t_delegate t) \<and> accounted ts d"

lemma accounted_same:
  "d_tasks d' = d_tasks d \<Longrightarrow> d_counters d' = d_counters d \<Longrightarrow> d_held d' = d_held d
   \<Longrightarrow> orders_created (d_calls d') = orders_created (d_calls d)
   \<Longrightarrow> orders_released (d_calls d') = orders_released (d_calls d)
   \<Longrightarrow> all_good good ts d' = all_good good ts d"
  by (simp add: all_good_def accounted_def)

lemma all_good_simps [simp]:
  "all_good good ts (mms_dispatcher_check_if_done d) = all_good good ts d"
  "all_good good ts (mms_dispatcher_drop_connection d) = all_good good ts d"
  "all_good good ts (d_tell (Connection_Close_Requested i) d) = all_good good ts d"
  "all_good good ts (d_tell (Connection_Opened i ct) d) = all_good good ts d"
  "all_good good ts (d_tell (Task_Transmitted j c) d) = all_good good ts d"
  "all_good good ts (mms_dispatcher_next_run_schedule d) = all_good good ts d"
  "all_good good ts (d\<lparr>d_active_task := a\<rparr>) = all_good good ts d"
  "all_good good ts (d\<lparr>d_next_run_id := r\<rparr>) = all_good good ts d"
  "all_good good ts (d\<lparr>d_connection := co\<rparr>) = all_good good ts d"
  "all_good good ts (d\<lparr>d_connection := co, d_connection_changed_id := b\<rparr>) = all_good good ts d"
  "all_good good ts (d\<lparr>d_network_idle_id := r\<rparr>) = all_good good ts d"
  "all_good good ts (d\<lparr>d_started := r\<rparr>) = all_good good ts d"
  "all_good good ts (d\<lparr>d_handler_busy := n\<rparr>) = all_good good ts d"
  "all_good good ts (d\<lparr>d_connman_busy := n\<rparr>) = all_good good ts d"
  "all_good good ts (mms_dispatcher_network_idle_check d) = all_good good ts d"
  "all_good good ts (mms_dispatcher_network_idle_cancel d) = all_good good ts d"
  by (rule accounted_same; simp add: check_if_done_calls)+

lemma all_good_close [simp]:
  "all_good good ts (mms_dispatcher_close_connection d) = all_good good ts d"
  by (simp add: close_connection_eq split: option.split)

lemma all_good_request [simp]:
  "all_good good ts (mms_dispatcher_request_connection e t d) = all_good good ts d"
  by (simp add: mms_dispatcher_request_connection_def Let_def split: option.split)

lemma all_good_right_connection [simp]:
  "all_good good ts (right_connection e t d) = all_good good ts d"
  by (simp add: right_connection_def Let_def split: option.split)

text \<open>Moving tasks between the queue and the hand, and replacing one by its later self.\<close>

lemma all_good_take:
  "ts' + mset (d_tasks d') = ts + mset (d_tasks d) \<Longrightarrow> d_counters d' = d_counters d \<Longrightarrow> d_held d' = d_held d
   \<Longrightarrow> d_calls d' = d_calls d \<Longrightarrow> all_good good ts d \<Longrightarrow> all_good good ts' d'"
  by (simp add: all_good_def accounted_def)

lemma all_good_take_head:
  "all_good good ts d \<Longrightarrow> d_tasks d = t # rest \<Longrightarrow> all_good good (add_mset t ts) (d\<lparr>d_tasks := rest\<rparr>)"
  by (erule all_good_take [rotated 4]) simp_all

lemma all_good_put:
  "all_good good (add_mset t ts) d \<Longrightarrow> d_tasks d' = d_tasks d @ [t] \<or> d_tasks d' = t # d_tasks d
   \<Longrightarrow> d_counters d' = d_counters d \<Longrightarrow> d_held d' = d_held d \<Longrightarrow> d_calls d' = d_calls d
   \<Longrightarrow> all_good good ts d'"
  by (erule all_good_take [rotated 4]) auto

lemma all_good_replace:
  "all_good good (add_mset t ts) d \<Longrightarrow> kept good t t' \<Longrightarrow> all_good good (add_mset t' ts) d"
  by (auto simp: all_good_def accounted_def kept_def same_task_def)

lemma all_good_release:
  assumes "all_good good (add_mset t ts) d" and "t_order t' = t_order t" and "t_state t' = MMS_TASK_STATE_DONE"
  shows "all_good good ts (release_task e t' d)"
  using assms by (auto simp: all_good_def accounted_def release_task_def orders_alive_finalize)

lemma all_good_unref:
  assumes "all_good good ts d" and "n \<in> set (d_held d)"
    and cs: "\<And>M. orders_alive (d_counters d) M \<Longrightarrow> orders_alive cs M"
  shows "all_good good ts (unref_held n cs d)"
proof -
  have held: "mset (d_held d) = add_mset n (mset (remove1 n (d_held d)))"
    using assms(2) by simp
  have "orders_alive cs (add_mset n (image_mset t_order (ts + mset (d_tasks d)) + mset (remove1 n (d_held d))))"
    using assms(1) unfolding all_good_def accounted_def held by (intro cs) simp
  then have "orders_alive (mms_task_finalize cs)
      (image_mset t_order (ts + mset (d_tasks d)) + mset (remove1 n (d_held d)))"
    by (rule orders_alive_finalize)
  then show ?thesis
    using assms(1) by (simp add: all_good_def accounted_def unref_held_def)
qed

lemma all_good_known: "all_good good (add_mset t ts) d \<Longrightarrow> good t \<and> t_delegate t"
  by (simp add: all_good_def)

text \<open>Running a task that was picked: it runs, transmits over the connection or is already done.\<close>

lemma run_task_cases:
  assumes can: "is_runnable t \<or> (needs_connection t \<and> has_connection t d)"
  obtains t' d1 where
    "mms_dispatcher_run_task e now t d =
      (let dl = mms_dispatcher_listen e now (told_since t t') d1 in
       (if t_state t' = MMS_TASK_STATE_DONE
       then release_task e t' dl
       else dl\<lparr>d_tasks := d_tasks dl @ [t']\<rparr>)\<lparr>d_active_task := None\<rparr>)"
    and "d_tasks d1 = d_tasks d" and "\<And>good ts. all_good good ts d1 = all_good good ts d"
    and "(t_state t = MMS_TASK_STATE_READY \<and> t' = mms_task_run (e_class e) now t)
      \<or> (\<exists>c. needs_connection t \<and> c_state c = MMS_CONNECTION_STATE_OPEN \<and> t' = mms_task_transmit (e_class e) now c t)
      \<or> (t_state t = MMS_TASK_STATE_DONE \<and> t' = t)"
proof -
  let ?d = "d\<lparr>d_active_task := Some t\<rparr>"
  define ran where "ran = (if t_state t = MMS_TASK_STATE_READY then (mms_task_run (e_class e) now t, ?d)
    else if needs_connection t
    then (case d_connection ?d of None \<Rightarrow> (t, ?d)
          | Some c \<Rightarrow> (mms_task_transmit (e_class e) now c t, d_tell (Task_Transmitted (t_imsi t) c) ?d))
    else (t, ?d))"
  obtain t' d1 where ran_eq: "ran = (t', d1)" by fastforce
  show thesis
  proof (rule that [of t' d1])
    show "mms_dispatcher_run_task e now t d =
      (let dl = mms_dispatcher_listen e now (told_since t t') d1 in
       (if t_state t' = MMS_TASK_STATE_DONE
       then release_task e t' dl
       else dl\<lparr>d_tasks := d_tasks dl @ [t']\<rparr>)\<lparr>d_active_task := None\<rparr>)"
      using ran_eq unfolding mms_dispatcher_run_task_def ran_def Let_def by simp
  qed (use can ran_eq needs_not_runnable [of t] in \<open>auto simp: ran_def has_connection_def
      is_runnable_def needs_connection_def split: if_splits option.splits\<close>)
qed

section \<open>The contract of the dispatcher\<close>

text \<open>What is left of the queue when no connection is open.\<close>

definition drained :: "('q, 'a) mms_dispatcher \<Rightarrow> bool" where
  "drained d \<longleftrightarrow> d_next_run_id d \<or> mms_connection_is_open (d_connection d)
     \<or> (\<forall>t\<in>set (d_tasks d). is_runnable t \<longrightarrow>
          (\<exists>h\<in>set (d_tasks d). \<not> is_runnable h \<and> priority_value (t_priority t) < priority_value (t_priority h)))"

locale dispatcher_contract =
  mms_task_contract "e_class e" good "\<lambda>c. c_state c = MMS_CONNECTION_STATE_OPEN"
  for e :: "('q, 'a) dispatcher_env" and good +
  fixes own :: "('q, 'a) mms_task_scheme \<Rightarrow> ('q, 'a) mms_task_scheme \<Rightarrow> bool"
    and new :: "task_counters \<Rightarrow> ('q, 'a) mms_task_scheme option \<Rightarrow> task_counters \<Rightarrow> bool"
  assumes sort_law: "queue_sort_ok (e_sort e)"
    and new_law: "e_new e now q cs = (t, cs')
      \<Longrightarrow> good (t\<lparr>t_delegate := True\<rparr>) \<and> mms_task_init cs = (t_order t, cs')"
    and user_law: "new cs (Some t) cs' \<Longrightarrow> good (t\<lparr>t_delegate := True\<rparr>) \<and> mms_task_init cs = (t_order t, cs')"
    and no_task_law: "new cs None cs' \<Longrightarrow> cs' = cs \<or> cs' = mms_task_finalize (snd (mms_task_init cs))"
    and own_law: "good t \<Longrightarrow> own t t' \<Longrightarrow> kept good t t'"
    and cancel_quiet: "good t \<Longrightarrow> tasks_queued (told_since t (fn_cancel (e_class e) now t)) = []"
    and unavailable_quiet: "good t \<Longrightarrow> needs_connection t \<or> t_state t = MMS_TASK_STATE_TRANSMITTING
      \<Longrightarrow> tasks_queued (told_since t (fn_network_unavailable (e_class e) now r t)) = []
          \<and> (t_delegate t \<longrightarrow> states_told (told_since t (fn_network_unavailable (e_class e) now r t)) \<noteq> [])"
begin

lemma good_queue_request: "all_good good ts d \<Longrightarrow> all_good good ts (queue_request e now q d)"
  using new_law [of now q "d_counters d"] orders_alive_create
  by (auto simp: all_good_def accounted_def queue_request_def mms_dispatcher_queue_task_def split: prod.split)

lemma good_user_task:
  assumes "new (d_counters d) task cs" and "all_good good ts d"
  shows "all_good good ts (snd (mms_dispatcher_queue_and_unref_task task (d\<lparr>d_counters := cs\<rparr>)))"
proof (cases task)
  case None
  have "orders_alive cs M" if "orders_alive (d_counters d) M" for M
    using no_task_law [of "d_counters d" cs] assms(1) that None
    by (auto intro: orders_alive_finalize orders_alive_create [OF _ surjective_pairing])
  then show ?thesis
    using assms(2) None by (simp add: mms_dispatcher_queue_and_unref_task_def all_good_def accounted_def)
next
  case (Some t)
  then show ?thesis
    using user_law [of "d_counters d" t cs] orders_alive_create assms
    by (auto simp: all_good_def accounted_def mms_dispatcher_queue_and_unref_task_def mms_dispatcher_queue_task_def)
qed

lemma good_listen: "all_good good ts d \<Longrightarrow> all_good good ts (mms_dispatcher_listen e now cs d)"
  by (rule listen_induct [where P = "all_good good ts"]) (simp_all add: good_queue_request)

lemma unavailable_kept:
  "good t \<Longrightarrow> needs_connection t \<or> t_state t = MMS_TASK_STATE_TRANSMITTING
   \<Longrightarrow> kept good t (mms_task_network_unavailable (e_class e) now r t)"
  using unavailable_law [of t now r] kept_refl [of good t] by (simp add: mms_task_network_unavailable_def)

lemma good_pick:
  assumes "mms_dispatcher_pick_next_task e now d = (r, d')" and "all_good good {#} d"
  shows "all_good good (case r of None \<Rightarrow> {#} | Some t \<Rightarrow> {#t#}) d'"
proof -
  have sorted: "all_good good {#} (d\<lparr>d_tasks := sorted_tasks e d\<rparr>)"
    using assms(2) sorted_tasks_mset [OF sort_law, of d] by (auto elim!: all_good_take [rotated 4])
  from assms(1) show ?thesis
  proof (cases rule: pick_cases)
    case (unavailable t rest dc t')
    have dc: "all_good good {#t#} (dc\<lparr>d_tasks := rest\<rparr>)"
      using sorted unavailable(2,4) by (auto intro!: all_good_take_head)
    then have "all_good good {#t'#} (dc\<lparr>d_tasks := rest\<rparr>)"
      using all_good_known [OF dc] unavailable(3,6) by (auto intro: all_good_replace unavailable_kept)
    then have "all_good good {#} (update_head t' dc)"
      using unavailable(4) by (auto simp: update_head_def elim!: all_good_put)
    then show ?thesis using unavailable(1,7) by (simp add: good_listen)
  next
    case (runs t rest)
    then show ?thesis using all_good_take_head [OF sorted] by simp
  qed (use sorted in \<open>auto intro!: all_good_take_head\<close>)
qed

lemma good_run_task:
  assumes "all_good good {#t#} d" and "is_runnable t \<or> (needs_connection t \<and> has_connection t d)"
  shows "all_good good {#} (mms_dispatcher_run_task e now t d)"
proof (rule run_task_cases [OF assms(2), of e now])
  fix t' d1
  let ?dl = "mms_dispatcher_listen e now (told_since t t') d1"
  assume run: "mms_dispatcher_run_task e now t d =
      (let dl = ?dl in
       (if t_state t' = MMS_TASK_STATE_DONE
       then release_task e t' dl
       else dl\<lparr>d_tasks := d_tasks dl @ [t']\<rparr>)\<lparr>d_active_task := None\<rparr>)"
    and "d_tasks d1 = d_tasks d" and d1: "\<And>g ts. all_good g ts d1 = all_good g ts d"
    and t': "(t_state t = MMS_TASK_STATE_READY \<and> t' = mms_task_run (e_class e) now t)
      \<or> (\<exists>c. needs_connection t \<and> c_state c = MMS_CONNECTION_STATE_OPEN \<and> t' = mms_task_transmit (e_class e) now c t)
      \<or> (t_state t = MMS_TASK_STATE_DONE \<and> t' = t)"
  have "good t" using all_good_known [OF assms(1)] by simp
  then have "kept good t t'"
    using t' run_law transmit_law by (auto simp: task_op_defs kept_refl)
  then have "all_good good {#t'#} ?dl"
    using assms(1) d1 by (auto intro: good_listen all_good_replace)
  then show ?thesis
    using all_good_release [of good t' "{#}" ?dl t' e] unfolding run Let_def by (auto intro: all_good_put)
qed

lemma good_loop:
  "mms_dispatcher_loop e now d = Some d' \<Longrightarrow> all_good good {#} d \<Longrightarrow> all_good good {#} d'"
  by (rule loop_invariant [where P = "all_good good {#}" and Q = "all_good good {#}"])
     (auto dest: good_pick pick_some intro!: good_run_task)

lemma good_run: "mms_dispatcher_run e now d = Some d' \<Longrightarrow> all_good good {#} d \<Longrightarrow> all_good good {#} d'"
  by (erule run_result) (auto dest: good_loop)

lemma all_good_map:
  assumes "all_good good {#} d" and "\<And>t. t \<in> set (d_tasks d) \<Longrightarrow> kept good t (g t)"
  shows "all_good good {#} (d\<lparr>d_tasks := map g (d_tasks d)\<rparr>)"
proof -
  have "map t_order (map g (d_tasks d)) = map t_order (d_tasks d)"
    using assms(2) by (auto simp: kept_def same_task_def)
  then have "image_mset t_order (mset (map g (d_tasks d))) = image_mset t_order (mset (d_tasks d))"
    by (metis mset_map)
  then show ?thesis
    using assms by (auto simp: all_good_def accounted_def kept_def same_task_def)
qed

lemma good_each_task:
  assumes "all_good good {#} d" and "\<And>t. good t \<Longrightarrow> P t \<Longrightarrow> kept good t (f t)"
  shows "all_good good {#} (each_task e now P f d)"
proof -
  have "all_good good {#} (d\<lparr>d_tasks := map (\<lambda>t. if P t then f t else t) (d_tasks d)\<rparr>)"
    using assms by (intro all_good_map) (auto simp: all_good_def kept_refl)
  then show ?thesis
    by (simp add: each_task_def Let_def good_listen)
qed

lemma good_update:
  assumes "all_good good {#} d" and "i < length (d_tasks d)" and "kept good (d_tasks d ! i) t'"
  shows "all_good good {#} (d\<lparr>d_tasks := (d_tasks d)[i := t']\<rparr>)"
proof -
  have split: "mset (d_tasks d) = add_mset (d_tasks d ! i) (mset (take i (d_tasks d) @ drop (Suc i) (d_tasks d)))"
    using assms(2) by (metis id_take_nth_drop mset.simps(2) mset_append union_mset_add_mset_right)
  let ?d = "d\<lparr>d_tasks := take i (d_tasks d) @ drop (Suc i) (d_tasks d)\<rparr>"
  have "all_good good {#d_tasks d ! i#} ?d"
    using assms(1) by (rule all_good_take [rotated 4]) (simp_all add: split)
  then have "all_good good {#t'#} ?d"
    using assms(3) by (rule all_good_replace)
  then show ?thesis
    by (rule all_good_take [rotated 4]) (use assms(2) in \<open>simp_all add: upd_conv_take_nth_drop\<close>)
qed

lemma step_good:
  assumes "dispatcher_step e own new d d'" and "d_active_task d = None" and "all_good good {#} d"
  shows "all_good good {#} d'"
  using assms(1)
proof (cases rule: dispatcher_step.cases)
  case (Next_Run now)
  then show ?thesis
    using assms by (auto simp: mms_dispatcher_next_run_def intro: good_run)
next
  case (Connection c0 c now)
  then show ?thesis
    using assms by (auto simp: state_changed_eq uses_connection_def
        intro!: good_each_task intro: unavailable_kept)
next
  case (Task_Callback i t' now)
  have good: "good (d_tasks d ! i)"
    using assms(3) Task_Callback(2) by (simp add: all_good_def)
  have "all_good good {#} (d\<lparr>d_tasks := (d_tasks d)[i := t']\<rparr>)"
    using assms(3) Task_Callback(2) own_law [OF good Task_Callback(3)] by (rule good_update)
  then show ?thesis
    using Task_Callback(1) by (simp add: task_event_def good_listen)
next
  case (Queue task cs)
  then show ?thesis
    using good_user_task assms(3) by simp
next
  case (Held_Unref n cs)
  have "orders_alive cs M" if "orders_alive (d_counters d) M" for M
    using that Held_Unref(3)
    by (auto intro: orders_alive_finalize orders_alive_create [OF _ surjective_pairing])
  then show ?thesis
    using all_good_unref [OF assms(3) Held_Unref(2)] Held_Unref(1) by simp
next
  case (Leaked n cs)
  have "orders_alive cs (add_mset n (image_mset t_order (mset (d_tasks d)) + mset (d_held d)))"
    using assms(3) Leaked(2) by (intro orders_alive_create) (simp_all add: all_good_def accounted_def)
  then show ?thesis
    using assms(3) Leaked(1) by (simp add: all_good_def accounted_def)
next
  case (Cancel now ident)
  then show ?thesis
    using assms cancel_law by (auto simp: cancel_inactive Let_def mms_task_cancel_def intro!: good_each_task)
qed (use assms in \<open>auto simp: mms_dispatcher_network_idle_run_def
      mms_dispatcher_start_def mms_dispatcher_handler_done_def mms_dispatcher_connman_done_def\<close>)

lemma good_drop_tasks:
  assumes "all_good good (mset ts) d" and "\<And>t. good t \<Longrightarrow> good (t\<lparr>t_delegate := False\<rparr>)"
  shows "all_good good {#} (fold (drop_task e now) ts d) \<and> d_tasks (fold (drop_task e now) ts d) = d_tasks d
    \<and> d_connection (fold (drop_task e now) ts d) = d_connection d"
  using assms(1)
proof (induction ts arbitrary: d)
  case (Cons t ts)
  have t: "good (t\<lparr>t_delegate := False\<rparr>)"
    using Cons.prems assms(2) by (simp add: all_good_def)
  let ?t = "mms_task_cancel (e_class e) now (t\<lparr>t_delegate := False\<rparr>)"
  have t': "t_order ?t = t_order t" "t_state ?t = MMS_TASK_STATE_DONE"
    using cancel_law [OF t, of now] by (simp_all add: mms_task_cancel_def kept_def same_task_def)
  have "all_good good (mset ts) (drop_task e now t d)"
    unfolding drop_task_def Let_def by (rule all_good_release [OF _ t']) (use Cons.prems in simp)
  then show ?case
    using Cons.IH [of "drop_task e now t d"] by (simp add: drop_task_def)
qed simp

lemma good_finalize:
  assumes "all_good good {#} d" and "\<And>t. good t \<Longrightarrow> good (t\<lparr>t_delegate := False\<rparr>)"
  shows "all_good good {#} (mms_dispatcher_finalize e now d)"
    and "d_tasks (mms_dispatcher_finalize e now d) = []" "d_connection (mms_dispatcher_finalize e now d) = None"
proof -
  have "all_good good (mset (d_tasks d)) ((mms_dispatcher_drop_connection d)\<lparr>d_tasks := []\<rparr>)"
    by (rule all_good_take [of _ _ "{#}" "mms_dispatcher_drop_connection d"]) (simp_all add: assms(1))
  from good_drop_tasks [OF this assms(2), of now]
  show "all_good good {#} (mms_dispatcher_finalize e now d)"
    and "d_tasks (mms_dispatcher_finalize e now d) = []" "d_connection (mms_dispatcher_finalize e now d) = None"
    by (simp_all add: mms_dispatcher_finalize_def)
qed

lemma new_good: "all_good good {#} (mms_dispatcher_new delegate)"
  by (auto simp: all_good_def accounted_def mms_dispatcher_new_def orders_alive_def intro: exI [of _ "[]"] tasks_alive.Start)

lemma steps_good:
  "(dispatcher_step e own new)\<^sup>*\<^sup>* (mms_dispatcher_new delegate) d
   \<Longrightarrow> all_good good {#} d \<and> settled_between d"
  by (induction rule: rtranclp_induct)
     (auto intro: new_good new_settled step_settled step_good dest: settled_inactive)

text \<open>A virtual call on the tasks of the queue that queues nothing.\<close>

lemma each_task_quiet:
  assumes "\<And>t. t \<in> set (d_tasks d) \<Longrightarrow> P t \<Longrightarrow> tasks_queued (told_since t (f t)) = []"
  shows "d_tasks (each_task e now P f d) = map (\<lambda>t. if P t then f t else t) (d_tasks d)"
proof -
  have "tasks_queued (concat (map (\<lambda>t. told_since t (if P t then f t else t)) ts)) = []"
    if "set ts \<subseteq> set (d_tasks d)" for ts
    using that assms by (induction ts) (auto simp: told_since_def)
  from this [OF subset_refl] show ?thesis
    by (simp add: each_task_def Let_def listen_queues_nothing)
qed

lemma cancel_exactly:
  assumes "all_good good {#} d" and "d_active_task d = None"
    and "d' = mms_dispatcher_cancel e now ident d"
  shows "d_tasks d' =
      map (\<lambda>t. if mms_task_match_id (Some t) ident then mms_task_cancel (e_class e) now t else t) (d_tasks d)"
    and "\<forall>t\<in>set (d_tasks d). t_state (mms_task_cancel (e_class e) now t) = MMS_TASK_STATE_DONE
      \<and> cancelled (mms_task_cancel (e_class e) now t)"
proof -
  have good: "good t" if "t \<in> set (d_tasks d)" for t
    using that assms(1) by (simp add: all_good_def)
  then show "\<forall>t\<in>set (d_tasks d). t_state (mms_task_cancel (e_class e) now t) = MMS_TASK_STATE_DONE
      \<and> cancelled (mms_task_cancel (e_class e) now t)"
    using cancel_law by (simp add: mms_task_cancel_def)
  show "d_tasks d' = map (\<lambda>t. if mms_task_match_id (Some t) ident
      then mms_task_cancel (e_class e) now t else t) (d_tasks d)"
    using assms(2,3) cancel_quiet good
    by (simp add: cancel_inactive Let_def each_task_quiet mms_task_cancel_def)
qed

lemma connection_lost:
  assumes "all_good good {#} d" and "settled_between d" and "d_connection d \<noteq> None"
    and "c_state c = MMS_CONNECTION_STATE_FAILED \<or> c_state c = MMS_CONNECTION_STATE_CLOSED"
    and "d' = mms_dispatcher_connection_state_changed e now c d"
  shows "d_connection d' = None" and "\<not> d_network_idle_id d'" and "d_next_run_id d'"
    and "d_tasks d' = map (\<lambda>t. if uses_connection t \<and> t_imsi t = Some (c_imsi c)
                           then mms_task_network_unavailable (e_class e) now True t else t) (d_tasks d)"
    and "\<forall>t\<in>set (d_tasks d'). uses_connection t \<longrightarrow> t_imsi t \<noteq> Some (c_imsi c)"
proof -
  let ?lost = "\<lambda>t. uses_connection t \<and> t_imsi t = Some (c_imsi c)"
  let ?f = "mms_task_network_unavailable (e_class e) now True"
  have good: "good t" if "t \<in> set (d_tasks d)" for t
    using that assms(1) by (simp add: all_good_def)
  have state: "t_state (?f t) = MMS_TASK_STATE_SLEEP \<or> t_state (?f t) = MMS_TASK_STATE_DONE"
    if "t \<in> set (d_tasks d)" "?lost t" for t
    using that unavailable_stops [of t now True] good by (auto simp: uses_connection_def)
  have d': "d' = mms_dispatcher_next_run_schedule (mms_dispatcher_check_if_done
      (mms_dispatcher_drop_connection (each_task e now ?lost ?f
         (mms_dispatcher_close_connection (d\<lparr>d_connection := Some c\<rparr>)))))"
    using assms(2,4,5) by (simp add: settled_between_def state_changed_eq)
  show tasks: "d_tasks d' = map (\<lambda>t. if ?lost t then ?f t else t) (d_tasks d)"
    unfolding d'
    by (simp, subst each_task_quiet)
       (use unavailable_quiet good in
         \<open>auto simp: mms_task_network_unavailable_def uses_connection_def told_since_def\<close>)
  have "wired (d\<lparr>d_connection := Some c\<rparr>)"
    using assms(2,3) by (auto simp: settled_between_def wired_def sent_ok_def)
  then have "wired d'"
    unfolding d' by (simp add: wired_drop each_task_wired wired_close)
  moreover show "d_connection d' = None" and "d_next_run_id d'"
    unfolding d' by simp_all
  ultimately show "\<not> d_network_idle_id d'"
    unfolding wired_def by blast
  have "\<not> uses_connection (?f t)" if "t \<in> set (d_tasks d)" "?lost t" for t
    using state [OF that] by (auto simp: uses_connection_def needs_connection_def)
  then show "\<forall>t\<in>set (d_tasks d'). uses_connection t \<longrightarrow> t_imsi t \<noteq> Some (c_imsi c)"
    unfolding tasks by auto
qed

lemma right_connection_open:
  "mms_connection_is_open (d_connection d) \<Longrightarrow> d_connection (right_connection e t d) = d_connection d"
  by (auto simp: right_connection_def Let_def open_is_active split: option.split)

lemma head_first:
  assumes "sorted_tasks e d = h # rest" and "\<not> mms_connection_is_open (d_connection d)"
    and "\<not> is_runnable h" and "t \<in> set rest" and "is_runnable t"
  shows "priority_value (t_priority t) < priority_value (t_priority h)"
proof -
  have "key_le (queue_key h) (queue_key t)"
    using sorted_queue [OF sort_law assms(2), of "d_tasks d"] assms(1,4) by (simp add: sorted_tasks_def)
  then show ?thesis
    using assms(3,5) by (auto simp: key_le_def queue_key_def queue_rank_def split: if_splits)
qed

lemma pick_drained:
  assumes "mms_dispatcher_pick_next_task e now d = (None, d')" and "all_good good {#} d" and "d_active_task d = None"
  shows "drained d'"
  using assms(1)
proof (cases rule: pick_cases)
  case (waits t rest)
  then show ?thesis
    using head_first [OF waits(2)] by (auto simp: drained_def)
next
  case (needs t rest)
  have "\<not> mms_connection_is_open (d_connection d)" if "\<not> mms_connection_is_open (d_connection d')"
    using that right_connection_open [of "d\<lparr>d_tasks := t # rest\<rparr>" t] needs(4) by auto
  then show ?thesis
    using head_first [OF needs(2)] needs(4) needs_not_runnable [OF needs(3)] by (auto simp: drained_def)
next
  case (unavailable t rest dc t')
  have "t \<in> set (d_tasks d)"
    using unavailable(2) sorted_tasks_set [OF sort_law, of d] by auto
  then have "good t" "t_delegate t"
    using assms(2) by (auto simp: all_good_def)
  then have "states_told (told_since t t') \<noteq> []"
    using unavailable(3,6) unavailable_quiet [of t now False]
    by (auto simp: mms_task_network_unavailable_def needs_connection_def)
  then have "d_next_run_id d'"
    using unavailable(4,7) assms(3) by (simp add: listen_next_run update_head_def)
  then show ?thesis by (simp add: drained_def)
qed (simp_all add: drained_def)

lemma run_drained:
  assumes "mms_dispatcher_run e now d = Some d'" and "all_good good {#} d" and "d_active_task d = None"
  shows "drained d'"
  using assms(1)
proof (rule run_result)
  fix dl
  assume loop: "mms_dispatcher_loop e now d = Some dl"
    and d': "d' = mms_dispatcher_check_if_done
       (if d_connection dl = None then dl
        else if list_ex uses_connection (d_tasks dl) then mms_dispatcher_network_idle_cancel dl
        else mms_dispatcher_network_idle_check dl)"
  have "drained dl"
    using loop
  proof (rule loop_invariant [where P = "\<lambda>d. all_good good {#} d \<and> d_active_task d = None" and Q = drained])
    show "all_good good {#} d \<and> d_active_task d = None"
      using assms(2,3) by simp
  qed (auto dest: good_pick pick_some pick_keeps_active intro!: good_run_task pick_drained)
  then show "drained d'"
    unfolding d' drained_def
    by (cases "d_tasks dl") (auto simp: check_if_done_noop [OF active_with_tasks])
qed

end

section \<open>Termination of a run\<close>

text \<open>A task may be run and may transmit, and each time it may queue further tasks. If a weight can be
  given to the tasks that every such step makes smaller, a run of the dispatcher comes to an end.\<close>

locale dispatcher_weights = dispatcher_contract e good own new
  for e :: "('q, 'a) dispatcher_env" and good and own and new +
  fixes weight :: "('q, 'a) mms_task_scheme \<Rightarrow> nat" and new_weight :: "'q \<Rightarrow> nat"
  assumes done_weight: "t_state t = MMS_TASK_STATE_DONE \<Longrightarrow> 0 < weight t"
    and run_weight: "good t \<Longrightarrow> t_state t = MMS_TASK_STATE_READY \<Longrightarrow>
      weight (fn_run (e_class e) now t)
        + sum_list (map new_weight (tasks_queued (told_since t (fn_run (e_class e) now t)))) < weight t"
    and transmit_weight: "good t \<Longrightarrow> needs_connection t \<Longrightarrow> c_state c = MMS_CONNECTION_STATE_OPEN \<Longrightarrow>
      weight (fn_transmit (e_class e) now c t)
        + sum_list (map new_weight (tasks_queued (told_since t (fn_transmit (e_class e) now c t)))) < weight t"
    and new_task_weight: "e_new e now q cs = (t, cs') \<Longrightarrow> weight (t\<lparr>t_delegate := True\<rparr>) \<le> new_weight q"
begin

definition total_weight :: "('q, 'a) mms_dispatcher \<Rightarrow> nat" where
  "total_weight d = sum_list (map weight (d_tasks d))"

lemma total_weight_listen:
  "total_weight (mms_dispatcher_listen e now cs d)
     \<le> total_weight d + sum_list (map new_weight (tasks_queued cs))"
proof (induction cs arbitrary: d)
  case (Cons c cs)
  show ?case
  proof (cases c)
    case (Task_Queued q)
    have "total_weight (mms_dispatcher_delegate_task_queue e now q d) \<le> total_weight d + new_weight q"
      using new_task_weight [of now q "d_counters d"]
      by (auto simp: mms_dispatcher_delegate_task_queue_def queue_request_def mms_dispatcher_queue_task_def Let_def
          total_weight_def split: prod.split)
    then show ?thesis
      using Cons [of "mms_dispatcher_delegate_task_queue e now q d"] Task_Queued by simp
  qed (use Cons [of "mms_dispatcher_delegate_task_state_changed d"] Cons [of d] in
      \<open>simp_all add: total_weight_def\<close>)
qed simp

lemma pick_weight:
  assumes "mms_dispatcher_pick_next_task e now d = (Some t, dp)"
  shows "total_weight d = weight t + total_weight dp"
proof -
  have "mset (map weight (d_tasks d)) = mset (map weight (t # d_tasks dp))"
    using pick_takes [OF assms sort_law] by simp
  then show ?thesis
    unfolding total_weight_def by (metis list.simps(9) sum_list.Cons sum_mset_sum_list)
qed

lemma run_task_weight:
  assumes "good t" and "is_runnable t \<or> (needs_connection t \<and> has_connection t d)"
  shows "total_weight (mms_dispatcher_run_task e now t d) < weight t + total_weight d"
proof (rule run_task_cases [OF assms(2), of e now])
  fix t' d1
  let ?dl = "mms_dispatcher_listen e now (told_since t t') d1"
  assume run: "mms_dispatcher_run_task e now t d =
      (let dl = ?dl in
       (if t_state t' = MMS_TASK_STATE_DONE
       then release_task e t' dl
       else dl\<lparr>d_tasks := d_tasks dl @ [t']\<rparr>)\<lparr>d_active_task := None\<rparr>)"
    and d1: "d_tasks d1 = d_tasks d" and "\<And>g ts. all_good g ts d1 = all_good g ts d"
    and t': "(t_state t = MMS_TASK_STATE_READY \<and> t' = mms_task_run (e_class e) now t)
      \<or> (\<exists>c. needs_connection t \<and> c_state c = MMS_CONNECTION_STATE_OPEN \<and> t' = mms_task_transmit (e_class e) now c t)
      \<or> (t_state t = MMS_TASK_STATE_DONE \<and> t' = t)"
  have listen: "total_weight ?dl \<le> total_weight d + sum_list (map new_weight (tasks_queued (told_since t t')))"
    using total_weight_listen [of now "told_since t t'" d1] d1 by (simp add: total_weight_def)
  consider "t_state t = MMS_TASK_STATE_DONE" "t' = t"
    | "weight t' + sum_list (map new_weight (tasks_queued (told_since t t'))) < weight t"
    using t' run_weight transmit_weight assms(1) by (auto simp: task_op_defs)
  then show ?thesis
    using listen done_weight [of t] unfolding run Let_def by cases (auto simp: total_weight_def told_since_def)
qed

lemma loop_total:
  "all_good good {#} d \<Longrightarrow> \<exists>d'. mms_dispatcher_loop e now d = Some d'"
proof (induction "total_weight d" arbitrary: d rule: less_induct)
  case less
  obtain r dp where pick: "mms_dispatcher_pick_next_task e now d = (r, dp)" by fastforce
  show ?case
  proof (cases r)
    case None
    then show ?thesis using pick by (subst mms_dispatcher_loop.simps) simp
  next
    case (Some t)
    have good: "all_good good {#t#} dp"
      using good_pick [OF pick less.prems] Some by simp
    have can: "is_runnable t \<or> (needs_connection t \<and> has_connection t dp)"
      using pick_some pick Some by blast
    have "total_weight (mms_dispatcher_run_task e now t dp) < total_weight d"
      using run_task_weight [OF _ can] all_good_known [OF good] pick_weight pick Some by simp
    then obtain d' where "mms_dispatcher_loop e now (mms_dispatcher_run_task e now t dp) = Some d'"
      using less.hyps good_run_task [OF good can] by blast
    then show ?thesis using pick Some by (subst mms_dispatcher_loop.simps) simp
  qed
qed

lemma run_total: "all_good good {#} d \<Longrightarrow> \<exists>d'. mms_dispatcher_run e now d = Some d'"
  using loop_total [of d now] by (auto simp: mms_dispatcher_run_def Let_def)

end

end
