(* ===== verification/Task_Http.thy ===== *)
theory Task_Http
  imports Task_Core Connection
begin

text \<open>
  Tasks that talk to the MMSC over HTTP: \<^verbatim>\<open>mms-lib/src/mms_task_http.c\<close>.

  \<^item> \<open>mms_task_http\<close> extends the task with the private state of \<^verbatim>\<open>struct mms_task_http_priv\<close>, and
    \<open>mms_http_transfer\<close> is the context of one transfer. An open file to send is what is left to read
    of it; what has been written to the open response file is \<open>h_received\<close>.
  \<^item> libsoup and the file system are not part of the sources: \<open>http_env\<close> holds the functions the code
    calls, on an abstract type of URIs. \<open>soup_laws\<close> states what their documentation says of the status codes.
    A session object is identified by its number, and \<open>h_sessions\<close> counts those created.
  \<^item> \<open>mms_http_class\<close> are the virtual functions of \<^verbatim>\<open>MMSTaskHttpClass\<close>. The locale \<open>http_subclass\<close> says
    that they only report to the message handler or queue a task; in it every HTTP task is shown to
    satisfy the contract of the base class.
\<close>

section \<open>State\<close>

datatype mms_http_state = MMS_HTTP_READY | MMS_HTTP_ACTIVE | MMS_HTTP_PAUSED | MMS_HTTP_DONE

record 'u mms_http_transfer =
  tx_connection :: mms_connection
  tx_session :: nat
  tx_proxy :: "'u option"
  tx_user_agent :: "string option"
  tx_post :: bool
  tx_uri :: 'u
  tx_headers :: "(string \<times> string) list"
  tx_content :: "(string \<times> u32) option"
  tx_receive_fd :: bool
  tx_send_fd :: "byte list option"
  tx_request_body :: "byte list"
  tx_complete :: bool
  tx_bytes_sent :: u32
  tx_bytes_received :: u32
  tx_bytes_to_send :: u32
  tx_bytes_to_receive :: u32

record ('q, 'u) mms_task_http = "'q mms_task" +
  h_tx :: "'u mms_http_transfer option"
  h_uri :: "string option"
  h_send_path :: "string option"
  h_receive_path :: "string option"
  h_receive_file :: "string option"
  h_transfer_type :: string
  h_transaction_state :: mms_http_state
  h_connection_type :: mms_connection_type
  h_received :: "byte list"
  h_sessions :: nat

record 't mms_http_class =
  hc_started :: "('t \<Rightarrow> 't) option"
  hc_paused :: "('t \<Rightarrow> 't) option"
  hc_done :: "(string option \<Rightarrow> nat \<Rightarrow> 't \<Rightarrow> 't) option"

record 'u http_env =
  soup_uri_new :: "string \<Rightarrow> 'u option"
  soup_uri_host :: "'u \<Rightarrow> string"
  soup_uri_set_host :: "'u \<Rightarrow> string \<Rightarrow> 'u"
  status_is_informational :: "nat \<Rightarrow> bool"
  status_is_successful :: "nat \<Rightarrow> bool"
  status_is_transport_error :: "nat \<Rightarrow> bool"
  status_cancelled :: nat
  status_io_error :: nat
  env_open_read :: "string \<Rightarrow> byte list option"
  env_mkdir :: "string \<Rightarrow> bool"
  env_open_create :: "string \<Rightarrow> bool"
  env_root_dir :: string
  env_user_agent :: "string option"
  env_uaprof :: "string option"

definition soup_laws :: "'u http_env \<Rightarrow> bool" where
  "soup_laws env \<longleftrightarrow> status_is_transport_error env (status_cancelled env)
     \<and> status_is_transport_error env (status_io_error env)
     \<and> (\<forall>s. status_is_transport_error env s \<longrightarrow>
          \<not> status_is_successful env s \<and> \<not> status_is_informational env s)"

section \<open>Session and transfer\<close>

definition mms_http_uri_parse :: "'u http_env \<Rightarrow> string option \<Rightarrow> 'u option" where
  "mms_http_uri_parse env raw_uri =
     (case raw_uri of
        None \<Rightarrow> None
      | Some uri \<Rightarrow> soup_uri_new env (if has_prefix uri ''http://'' then uri else ''http://'' @ uri))"

text \<open>\<^verbatim>\<open>while (part[0] == '0' && isdigit(part[1])) memmove(part, part+1, strlen(part))\<close>.\<close>

fun strip_zeros :: "string \<Rightarrow> string" where
  "strip_zeros (a # b # s) =
     (if a = CHR ''0'' \<and> ascii_isdigit b then strip_zeros (b # s) else a # b # s)"
| "strip_zeros s = s"

text \<open>\<^verbatim>\<open>strstr(host, ".0")\<close>.\<close>

fun has_dot_zero :: "string \<Rightarrow> bool" where
  "has_dot_zero (a # b # s) \<longleftrightarrow> (a = CHR ''.'' \<and> b = CHR ''0'') \<or> has_dot_zero (b # s)"
| "has_dot_zero _ \<longleftrightarrow> False"

text \<open>The correction of the host of the proxy.\<close>

definition proxy_host :: "string \<Rightarrow> string" where
  "proxy_host host = join_with ''.'' (map strip_zeros (g_strsplit host CHR ''.''))"

definition mms_http_create_session ::
    "'u http_env \<Rightarrow> mms_connection \<Rightarrow> 'u option \<times> string option" where
  "mms_http_create_session env conn =
     (let proxy =
        (if nonempty (c_mmsproxy conn)
         then (case mms_http_uri_parse env (c_mmsproxy conn) of
                 None \<Rightarrow> None
               | Some proxy_uri \<Rightarrow>
                   let host = soup_uri_host env proxy_uri in
                   Some (if (peek host = CHR ''0'' \<or> has_dot_zero host)
                            \<and> length (g_strsplit host CHR ''.'') = 4
                         then soup_uri_set_host env proxy_uri (proxy_host host) else proxy_uri))
         else None)
      in (proxy, env_user_agent env))"

definition mms_http_transfer_new ::
    "'u http_env \<Rightarrow> nat \<Rightarrow> mms_connection \<Rightarrow> bool \<Rightarrow> string option \<Rightarrow> bool \<Rightarrow> byte list option
       \<Rightarrow> 'u mms_http_transfer option" where
  "mms_http_transfer_new env session conn post uri receive_fd send_fd =
     (case mms_http_uri_parse env uri of
        None \<Rightarrow> None
      | Some u \<Rightarrow>
          (case mms_http_create_session env conn of
             (proxy, agent) \<Rightarrow>
               Some \<lparr>tx_connection = conn, tx_session = session, tx_proxy = proxy,
                 tx_user_agent = agent, tx_post = post, tx_uri = u,
                 tx_headers = (''Connection'', ''close'')
                   # (if nonempty (env_uaprof env) then [(''x-wap-profile'', the (env_uaprof env))] else []),
                 tx_content = None, tx_receive_fd = receive_fd, tx_send_fd = send_fd,
                 tx_request_body = [], tx_complete = False, tx_bytes_sent = 0, tx_bytes_received = 0,
                 tx_bytes_to_send = 0, tx_bytes_to_receive = 0\<rparr>))"

text \<open>\<^verbatim>\<open>mms_create_file\<close> of \<^verbatim>\<open>mms_file_util.c\<close>: the path of the new file, or \<open>None\<close> for \<^verbatim>\<open>-1\<close>, when the
  \<^verbatim>\<open>path\<close> argument is not written.\<close>

definition mms_create_file :: "(string \<Rightarrow> bool) \<Rightarrow> (string \<Rightarrow> bool) \<Rightarrow> string \<Rightarrow> string \<Rightarrow> string option" where
  "mms_create_file mkdir open_create dir f =
     (if mkdir dir
      then let fname = build_filename dir f in if open_create fname then Some fname else None
      else None)"

text \<open>\<^verbatim>\<open>mms_message_dir\<close> and \<^verbatim>\<open>mms_task_dir\<close>; a NULL id ends the argument list early.\<close>

definition mms_message_dir :: "string \<Rightarrow> string option \<Rightarrow> string" where
  "mms_message_dir root_dir ident =
     (let dir = build_filename root_dir MMS_MESSAGE_DIR in
        case ident of None \<Rightarrow> dir | Some i \<Rightarrow> build_filename dir i)"

section \<open>Transaction state\<close>

definition mms_task_http_send_progress ::
    "('q, 'u, 'a) mms_task_http_scheme \<Rightarrow> ('q, 'u, 'a) mms_task_http_scheme" where
  "mms_task_http_send_progress t =
     (case h_tx t of
        None \<Rightarrow> t
      | Some tx \<Rightarrow> tell (Transfer_Send_Progress (t_id t) (h_transfer_type t)
                       (tx_bytes_sent tx) (tx_bytes_to_send tx)) t)"

definition mms_task_http_receive_progress ::
    "('q, 'u, 'a) mms_task_http_scheme \<Rightarrow> ('q, 'u, 'a) mms_task_http_scheme" where
  "mms_task_http_receive_progress t =
     (case h_tx t of
        None \<Rightarrow> t
      | Some tx \<Rightarrow> tell (Transfer_Receive_Progress (t_id t) (h_transfer_type t)
                       (tx_bytes_received tx) (tx_bytes_to_receive tx)) t)"

definition apply_opt :: "('t \<Rightarrow> 't) option \<Rightarrow> 't \<Rightarrow> 't" where
  "apply_opt f t = (case f of None \<Rightarrow> t | Some g \<Rightarrow> g t)"

text \<open>The part of \<^verbatim>\<open>mms_task_http_set_state\<close> that tells the transfer list.\<close>

definition notify_transfer ::
    "mms_http_state \<Rightarrow> ('q, 'u, 'a) mms_task_http_scheme \<Rightarrow> ('q, 'u, 'a) mms_task_http_scheme" where
  "notify_transfer new_state t =
     (let is_active = (new_state = MMS_HTTP_ACTIVE) in
        if is_active \<noteq> (h_transaction_state t = MMS_HTTP_ACTIVE)
        then if is_active
          then mms_task_http_send_progress (tell (Transfer_Started (t_id t) (h_transfer_type t)) t)
          else tell (Transfer_Finished (t_id t) (h_transfer_type t)) t
        else t)"

definition mms_task_http_set_state ::
    "('q, 'u, 'a) mms_task_http_scheme mms_http_class \<Rightarrow> mms_http_state \<Rightarrow> nat
       \<Rightarrow> ('q, 'u, 'a) mms_task_http_scheme \<Rightarrow> ('q, 'u, 'a) mms_task_http_scheme" where
  "mms_task_http_set_state K new_state ss t =
     (if h_transaction_state t \<noteq> new_state \<and> h_transaction_state t \<noteq> MMS_HTTP_DONE
      then let t = notify_transfer new_state t;
               t = t\<lparr>h_transaction_state := new_state\<rparr> in
        (case new_state of
           MMS_HTTP_ACTIVE \<Rightarrow> apply_opt (hc_started K) t
         | MMS_HTTP_PAUSED \<Rightarrow> apply_opt (hc_paused K) t
         | MMS_HTTP_DONE \<Rightarrow>
             (case hc_done K of None \<Rightarrow> t | Some f \<Rightarrow> f (h_receive_path t) ss t)
         | MMS_HTTP_READY \<Rightarrow> t)
      else t)"

definition mms_task_http_finish_transfer ::
    "('q, 'u, 'a) mms_task_http_scheme \<Rightarrow> ('q, 'u, 'a) mms_task_http_scheme" where
  "mms_task_http_finish_transfer t = (if h_tx t \<noteq> None then t\<lparr>h_tx := None\<rparr> else t)"

definition mms_task_http_cancel ::
    "('q, 'u, 'a) mms_task_http_scheme mms_http_class \<Rightarrow> 'u http_env \<Rightarrow> int
       \<Rightarrow> ('q, 'u, 'a) mms_task_http_scheme \<Rightarrow> ('q, 'u, 'a) mms_task_http_scheme" where
  "mms_task_http_cancel K env now t =
     mms_task_cancel_cb now
       (mms_task_http_set_state K MMS_HTTP_DONE (status_cancelled env) (mms_task_http_finish_transfer t))"

section \<open>Callbacks of libsoup\<close>

text \<open>The message of session \<open>session\<close> is finished with the status \<open>status\<close>.\<close>

definition mms_task_http_finished ::
    "('q, 'u, 'a) mms_task_http_scheme mms_http_class \<Rightarrow> 'u http_env \<Rightarrow> int \<Rightarrow> nat \<Rightarrow> nat
       \<Rightarrow> ('q, 'u, 'a) mms_task_http_scheme \<Rightarrow> ('q, 'u, 'a) mms_task_http_scheme" where
  "mms_task_http_finished K env now session status t =
     (case h_tx t of
        None \<Rightarrow> t
      | Some tx \<Rightarrow>
          if tx_session tx = session
          then let cancel = mms_task_http_cancel K env now in
            if status_is_successful env status
            then mms_task_http_set_state K MMS_HTTP_DONE status
                   (mms_task_set_state cancel now MMS_TASK_STATE_DONE t)
            else if status_is_transport_error env status
            then (case mms_task_retry cancel now t of
                    (True, t) \<Rightarrow> mms_task_http_set_state K MMS_HTTP_PAUSED status t
                  | (False, t) \<Rightarrow> mms_task_http_set_state K MMS_HTTP_DONE (status_cancelled env) t)
            else mms_task_http_set_state K MMS_HTTP_DONE status
                   (mms_task_set_state cancel now MMS_TASK_STATE_DONE t)
          else t)"

definition MMS_HTTP_MAX_CHUNK :: nat where "MMS_HTTP_MAX_CHUNK = 4046"

text \<open>\<^verbatim>\<open>read\<close> of a regular file delivers what is left, up to the size asked for; \<open>io_error\<close> is a failing
  \<^verbatim>\<open>read\<close>.\<close>

definition mms_task_http_write_next_chunk ::
    "bool \<Rightarrow> ('q, 'u, 'a) mms_task_http_scheme \<Rightarrow> ('q, 'u, 'a) mms_task_http_scheme" where
  "mms_task_http_write_next_chunk io_error t =
     (case h_tx t of
        None \<Rightarrow> t
      | Some tx \<Rightarrow>
          let rest = (case tx_send_fd tx of None \<Rightarrow> [] | Some d \<Rightarrow> d);
              chunk = (if io_error then [] else take MMS_HTTP_MAX_CHUNK rest)
          in if chunk \<noteq> []
             then mms_task_http_send_progress
               (t\<lparr>h_tx := Some (tx\<lparr>tx_bytes_sent := tx_bytes_sent tx + of_nat (length chunk),
                    tx_request_body := tx_request_body tx @ chunk,
                    tx_send_fd := Some (drop MMS_HTTP_MAX_CHUNK rest)\<rparr>)\<rparr>)
             else t\<lparr>h_tx := Some (tx\<lparr>tx_complete := True\<rparr>)\<rparr>)"

definition mms_task_http_got_headers ::
    "u32 \<Rightarrow> ('q, 'u, 'a) mms_task_http_scheme \<Rightarrow> ('q, 'u, 'a) mms_task_http_scheme" where
  "mms_task_http_got_headers content_length t =
     (case h_tx t of
        None \<Rightarrow> t
      | Some tx \<Rightarrow> mms_task_http_receive_progress
                      (t\<lparr>h_tx := Some (tx\<lparr>tx_bytes_to_receive := content_length\<rparr>)\<rparr>))"

text \<open>\<open>written\<close> tells how many octets \<^verbatim>\<open>write\<close> stored, \<open>None\<close> is a failure.\<close>

definition mms_task_http_got_chunk ::
    "('q, 'u, 'a) mms_task_http_scheme mms_http_class \<Rightarrow> 'u http_env \<Rightarrow> int \<Rightarrow> byte list \<Rightarrow> nat option
       \<Rightarrow> ('q, 'u, 'a) mms_task_http_scheme \<Rightarrow> ('q, 'u, 'a) mms_task_http_scheme" where
  "mms_task_http_got_chunk K env now buf written t =
     (case h_tx t of
        None \<Rightarrow> t
      | Some tx \<Rightarrow>
          let t = t\<lparr>h_tx := Some (tx\<lparr>tx_bytes_received := tx_bytes_received tx + of_nat (length buf)\<rparr>),
                    h_received := h_received t @ take (case written of None \<Rightarrow> 0 | Some n \<Rightarrow> n) buf\<rparr>
          in if written = Some (length buf) then mms_task_http_receive_progress t
             else mms_task_set_state (mms_task_http_cancel K env now) now MMS_TASK_STATE_SLEEP
                    (mms_task_http_set_state K MMS_HTTP_PAUSED 0 (mms_task_http_finish_transfer t)))"

section \<open>Starting a transfer\<close>

definition MMS_CONTENT_TYPE :: string where
  "MMS_CONTENT_TYPE = ''application/vnd.wap.mms-message''"

text \<open>The files: the data to send if it could be opened, whether there is a response file, and the task
  with the path of that file.\<close>

definition open_files ::
    "'u http_env \<Rightarrow> ('q, 'u, 'a) mms_task_http_scheme
       \<Rightarrow> byte list option \<times> bool \<times> ('q, 'u, 'a) mms_task_http_scheme" where
  "open_files env t =
     (let send_fd = (case h_send_path t of None \<Rightarrow> None | Some p \<Rightarrow> env_open_read env p) in
        case h_receive_file t of
          None \<Rightarrow> (send_fd, False, t)
        | Some f \<Rightarrow>
            let path = mms_create_file (env_mkdir env) (env_open_create env)
                         (mms_message_dir (env_root_dir env) (t_id t)) f
            in (send_fd, path \<noteq> None, t\<lparr>h_receive_path := path, h_received := []\<rparr>))"

definition mms_task_http_start ::
    "('q, 'u, 'a) mms_task_http_scheme mms_http_class \<Rightarrow> 'u http_env \<Rightarrow> mms_connection
       \<Rightarrow> ('q, 'u, 'a) mms_task_http_scheme \<Rightarrow> bool \<times> ('q, 'u, 'a) mms_task_http_scheme" where
  "mms_task_http_start K env conn t =
     (case open_files env (mms_task_http_finish_transfer t) of
        (send_fd, receive_fd, t) \<Rightarrow>
          if (h_send_path t = None \<or> send_fd \<noteq> None) \<and> (h_receive_path t = None \<or> receive_fd)
             \<and> (send_fd \<noteq> None \<or> receive_fd)
          then let bytes_to_send = (case send_fd of None \<Rightarrow> 0 | Some d \<Rightarrow> of_nat (length d));
                   uri = (case h_uri t of None \<Rightarrow> c_mmsc conn | Some u \<Rightarrow> Some u) in
            (case mms_http_transfer_new env (h_sessions t) conn (h_send_path t \<noteq> None) uri receive_fd send_fd of
               None \<Rightarrow> (False, t)
             | Some tx \<Rightarrow>
                 let tx = (if h_send_path t \<noteq> None
                           then tx\<lparr>tx_bytes_to_send := bytes_to_send,
                                   tx_content := Some (MMS_CONTENT_TYPE, bytes_to_send)\<rparr>
                           else tx);
                     t = t\<lparr>h_tx := Some tx, h_sessions := h_sessions t + 1\<rparr>
                 in (True, mms_task_http_set_state K MMS_HTTP_ACTIVE 0 t))
          else (False, t))"

section \<open>The virtual functions of the base class\<close>

definition mms_task_http_transmit ::
    "('q, 'u, 'a) mms_task_http_scheme mms_http_class \<Rightarrow> 'u http_env \<Rightarrow> int \<Rightarrow> mms_connection
       \<Rightarrow> ('q, 'u, 'a) mms_task_http_scheme \<Rightarrow> ('q, 'u, 'a) mms_task_http_scheme" where
  "mms_task_http_transmit K env now conn t =
     (if t_state t \<noteq> MMS_TASK_STATE_TRANSMITTING
      then (case mms_task_http_start K env conn t of
              (True, t) \<Rightarrow> mms_task_set_state (mms_task_http_cancel K env now) now
                             MMS_TASK_STATE_TRANSMITTING t
            | (False, t) \<Rightarrow> mms_task_set_state (mms_task_http_cancel K env now) now MMS_TASK_STATE_DONE
                 (case hc_done K of None \<Rightarrow> t | Some f \<Rightarrow> f None (status_io_error env) t))
      else t)"

definition mms_task_http_run ::
    "('q, 'u, 'a) mms_task_http_scheme mms_http_class \<Rightarrow> 'u http_env \<Rightarrow> int
       \<Rightarrow> ('q, 'u, 'a) mms_task_http_scheme \<Rightarrow> ('q, 'u, 'a) mms_task_http_scheme" where
  "mms_task_http_run K env now t =
     mms_task_set_state (mms_task_http_cancel K env now) now
       (if h_connection_type t = MMS_CONNECTION_TYPE_USER
        then MMS_TASK_STATE_NEED_USER_CONNECTION else MMS_TASK_STATE_NEED_CONNECTION) t"

definition mms_task_http_network_unavailable ::
    "('q, 'u, 'a) mms_task_http_scheme mms_http_class \<Rightarrow> 'u http_env \<Rightarrow> int \<Rightarrow> bool
       \<Rightarrow> ('q, 'u, 'a) mms_task_http_scheme \<Rightarrow> ('q, 'u, 'a) mms_task_http_scheme" where
  "mms_task_http_network_unavailable K env now can_retry t =
     (if can_retry
      then mms_task_set_state (mms_task_http_cancel K env now) now MMS_TASK_STATE_SLEEP
             (mms_task_http_finish_transfer t)
      else mms_task_http_cancel K env now t)"

definition mms_task_http_class ::
    "('q, 'u, 'a) mms_task_http_scheme mms_http_class \<Rightarrow> 'u http_env
       \<Rightarrow> (mms_connection, ('q, 'u, 'a) mms_task_http_scheme) mms_task_class" where
  "mms_task_http_class K env =
     \<lparr>max_lifetime = 0, fn_run = mms_task_http_run K env, fn_transmit = mms_task_http_transmit K env,
      fn_network_unavailable = mms_task_http_network_unavailable K env,
      fn_cancel = mms_task_http_cancel K env\<rparr>"

text \<open>\<^verbatim>\<open>mms_task_http_alloc\<close>: the private part that is added to a new task; the name of the task is also the
  type of the transfer.\<close>

definition mms_task_http_alloc ::
    "u32 \<Rightarrow> string \<Rightarrow> int \<Rightarrow> string \<Rightarrow> string option \<Rightarrow> string option \<Rightarrow> string option \<Rightarrow> string option
       \<Rightarrow> string option \<Rightarrow> mms_connection_type \<Rightarrow> task_counters
       \<Rightarrow> ('q, 'u) mms_task_http \<times> task_counters" where
  "mms_task_http_alloc retry_secs root_dir now nm ident imsi uri receive_file send_file ct cs =
     (case mms_task_alloc 0 retry_secs now (Some nm) ident imsi cs of
        (t, cs) \<Rightarrow>
          (mms_task.extend t
             \<lparr>h_tx = None, h_uri = uri,
              h_send_path = map_option (build_filename (mms_message_dir root_dir ident)) send_file,
              h_receive_path = None, h_receive_file = receive_file, h_transfer_type = nm,
              h_transaction_state = MMS_HTTP_READY, h_connection_type = ct, h_received = [],
              h_sessions = 0\<rparr>, cs))"

section \<open>Invariant\<close>

text \<open>What the transfer list hears of one task: the transfer starts and finishes in turn, and progress is
  reported only in between. The result tells whether a transfer is open, \<open>None\<close> is a violation.\<close>

fun transfers_told :: "bool \<Rightarrow> 'q task_call list \<Rightarrow> bool option" where
  "transfers_told b [] = Some b"
| "transfers_told b (Transfer_Started _ _ # cs) = (if b then None else transfers_told True cs)"
| "transfers_told b (Transfer_Finished _ _ # cs) = (if b then transfers_told False cs else None)"
| "transfers_told b (Transfer_Send_Progress _ _ _ _ # cs) = (if b then transfers_told b cs else None)"
| "transfers_told b (Transfer_Receive_Progress _ _ _ _ # cs) = (if b then transfers_told b cs else None)"
| "transfers_told b (_ # cs) = transfers_told b cs"

lemma transfers_told_append:
  "transfers_told b (xs @ ys) = Option.bind (transfers_told b xs) (\<lambda>b. transfers_told b ys)"
  by (induction b xs rule: transfers_told.induct) auto

text \<open>Calls of the message handler, and the queueing of a task.\<close>

fun handler_call :: "'q task_call \<Rightarrow> bool" where
  "handler_call (Task_State_Changed _) = False"
| "handler_call (Transfer_Started _ _) = False"
| "handler_call (Transfer_Finished _ _) = False"
| "handler_call (Transfer_Send_Progress _ _ _ _) = False"
| "handler_call (Transfer_Receive_Progress _ _ _ _) = False"
| "handler_call _ = True"

lemma transfers_told_handler: "list_all handler_call cs \<Longrightarrow> transfers_told b cs = Some b"
  by (induction b cs rule: transfers_told.induct) auto

definition reports :: "(('q, 'a) mms_task_scheme \<Rightarrow> ('q, 'a) mms_task_scheme) \<Rightarrow> bool" where
  "reports f \<longleftrightarrow> (\<forall>t. \<exists>cs. f t = t\<lparr>t_calls := t_calls t @ cs\<rparr> \<and> list_all handler_call cs)"

definition told_ok :: "('q, 'u, 'a) mms_task_http_scheme \<Rightarrow> bool" where
  "told_ok t \<longleftrightarrow> transfers_told False (t_calls t) = Some (h_transaction_state t = MMS_HTTP_ACTIVE)"

definition http_ok :: "('q, 'u, 'a) mms_task_http_scheme \<Rightarrow> bool" where
  "http_ok t \<longleftrightarrow> timer_ok t \<and> told_ok t
     \<and> (t_state t = MMS_TASK_STATE_TRANSMITTING
          \<longrightarrow> h_tx t \<noteq> None \<and> h_transaction_state t = MMS_HTTP_ACTIVE)
     \<and> (h_transaction_state t = MMS_HTTP_DONE \<longrightarrow> t_state t = MMS_TASK_STATE_DONE)"

text \<open>What libsoup may call and when: the completion of the message that is in flight, or of an older
  one; the other signals only for the message in flight, according to the files of the task.\<close>

inductive http_event ::
    "('q, 'u, 'a) mms_task_http_scheme mms_http_class \<Rightarrow> 'u http_env
       \<Rightarrow> ('q, 'u, 'a) mms_task_http_scheme \<Rightarrow> ('q, 'u, 'a) mms_task_http_scheme \<Rightarrow> bool"
  for K env where
  Task: "task_step (mms_task_http_class K env) (\<lambda>c. c_state c = MMS_CONNECTION_STATE_OPEN) t t'
    \<Longrightarrow> http_event K env t t'"
| Finished: "(\<And>tx. h_tx t = Some tx \<Longrightarrow> tx_session tx = session \<Longrightarrow> t_state t = MMS_TASK_STATE_TRANSMITTING)
    \<Longrightarrow> http_event K env t (mms_task_http_finished K env now session status t)"
| Write_Chunk: "t_state t = MMS_TASK_STATE_TRANSMITTING \<Longrightarrow> h_send_path t \<noteq> None
    \<Longrightarrow> http_event K env t (mms_task_http_write_next_chunk err t)"
| Got_Headers: "t_state t = MMS_TASK_STATE_TRANSMITTING \<Longrightarrow> h_receive_path t \<noteq> None
    \<Longrightarrow> http_event K env t (mms_task_http_got_headers n t)"
| Got_Chunk: "t_state t = MMS_TASK_STATE_TRANSMITTING \<Longrightarrow> h_receive_path t \<noteq> None
    \<Longrightarrow> http_event K env t (mms_task_http_got_chunk K env now buf written t)"

inductive_cases http_eventE: "http_event K env t t'"

section \<open>Lemmas on the operations\<close>

lemma tell_http [simp]:
  "h_tx (tell c t) = h_tx t" "h_uri (tell c t) = h_uri t" "h_send_path (tell c t) = h_send_path t"
  "h_receive_path (tell c t) = h_receive_path t" "h_receive_file (tell c t) = h_receive_file t"
  "h_transfer_type (tell c t) = h_transfer_type t"
  "h_transaction_state (tell c t) = h_transaction_state t"
  "h_connection_type (tell c t) = h_connection_type t" "h_received (tell c t) = h_received t"
  "h_sessions (tell c t) = h_sessions t"
  by (simp_all add: tell_def)

lemma store_state_http [simp]:
  "h_tx (store_state st t) = h_tx t" "h_uri (store_state st t) = h_uri t"
  "h_send_path (store_state st t) = h_send_path t"
  "h_receive_path (store_state st t) = h_receive_path t"
  "h_receive_file (store_state st t) = h_receive_file t"
  "h_transfer_type (store_state st t) = h_transfer_type t"
  "h_transaction_state (store_state st t) = h_transaction_state t"
  "h_connection_type (store_state st t) = h_connection_type t"
  "h_received (store_state st t) = h_received t" "h_sessions (store_state st t) = h_sessions t"
  by (simp_all add: store_state_def Let_def)

lemma schedule_wakeup_http [simp]:
  "h_tx (snd (mms_task_schedule_wakeup now secs t)) = h_tx t"
  "h_receive_path (snd (mms_task_schedule_wakeup now secs t)) = h_receive_path t"
  "h_transaction_state (snd (mms_task_schedule_wakeup now secs t)) = h_transaction_state t"
  by (simp_all add: mms_task_schedule_wakeup_def Let_def)

lemma cancel_cb_http [simp]:
  "h_tx (mms_task_cancel_cb now t) = h_tx t"
  "h_receive_path (mms_task_cancel_cb now t) = h_receive_path t"
  "h_transaction_state (mms_task_cancel_cb now t) = h_transaction_state t"
  by (simp_all add: cancel_cb_eq)

lemma finish_transfer_fields [simp]:
  "h_tx (mms_task_http_finish_transfer t) = None"
  "h_transaction_state (mms_task_http_finish_transfer t) = h_transaction_state t"
  "t_calls (mms_task_http_finish_transfer t) = t_calls t"
  "t_state (mms_task_http_finish_transfer t) = t_state t"
  "t_wakeup_id (mms_task_http_finish_transfer t) = t_wakeup_id t"
  "t_id (mms_task_http_finish_transfer t) = t_id t"
  "t_delegate (mms_task_http_finish_transfer t) = t_delegate t"
  "t_priority (mms_task_http_finish_transfer t) = t_priority t"
  "t_order (mms_task_http_finish_transfer t) = t_order t"
  "t_name (mms_task_http_finish_transfer t) = t_name t"
  "t_imsi (mms_task_http_finish_transfer t) = t_imsi t"
  "t_retry_secs (mms_task_http_finish_transfer t) = t_retry_secs t"
  "t_deadline (mms_task_http_finish_transfer t) = t_deadline t"
  "h_receive_path (mms_task_http_finish_transfer t) = h_receive_path t"
  "same_task u (mms_task_http_finish_transfer t) \<longleftrightarrow> same_task u t"
  by (simp_all add: mms_task_http_finish_transfer_def same_task_def)

text \<open>\<open>quiet\<close> calls concern neither the state of the task nor that of its transfer.\<close>

lemma transfers_told_state_changed [simp]:
  "transfers_told b (cs @ (if P then [Task_State_Changed st] else [])) = transfers_told b cs"
  by (cases "transfers_told b cs") (simp_all add: transfers_told_append)

lemma states_told_handler: "list_all handler_call cs \<Longrightarrow> states_told cs = []"
  by (induction cs rule: states_told.induct) auto

lemma notify_transfer_tells:
  obtains cs where "notify_transfer st t = t\<lparr>t_calls := t_calls t @ cs\<rparr>"
    and "transfers_told (h_transaction_state t = MMS_HTTP_ACTIVE) cs = Some (st = MMS_HTTP_ACTIVE)"
    and "states_told cs = []"
proof -
  define cs where "cs = (if (st = MMS_HTTP_ACTIVE) \<noteq> (h_transaction_state t = MMS_HTTP_ACTIVE)
    then if st = MMS_HTTP_ACTIVE
      then Transfer_Started (t_id t) (h_transfer_type t) #
        (case h_tx t of None \<Rightarrow> [] | Some tx \<Rightarrow> [Transfer_Send_Progress (t_id t) (h_transfer_type t)
                       (tx_bytes_sent tx) (tx_bytes_to_send tx)])
      else [Transfer_Finished (t_id t) (h_transfer_type t)] else [] :: 'a task_call list)"
  show thesis
    by (rule that [of cs])
       (auto simp: cs_def notify_transfer_def mms_task_http_send_progress_def tell_def
          split: option.splits)
qed

lemma told_ok_ops [simp]:
  "told_ok (store_state st t) \<longleftrightarrow> told_ok t"
  "told_ok (mms_task_http_finish_transfer t) \<longleftrightarrow> told_ok t"
  "told_ok (snd (mms_task_schedule_wakeup now secs t)) \<longleftrightarrow> told_ok t"
  "told_ok (mms_task_cancel_cb now t) \<longleftrightarrow> told_ok t"
  by (simp_all add: told_ok_def store_state_calls cancel_cb_calls)

lemma extends_finish [intro]: "extends u t \<Longrightarrow> extends u (mms_task_http_finish_transfer t)"
  by (simp add: extends_def)

lemma apply_opt_tells:
  assumes "\<And>f. F = Some f \<Longrightarrow> reports f"
  shows "\<exists>cs. apply_opt F t = t\<lparr>t_calls := t_calls t @ cs\<rparr> \<and> list_all handler_call cs"
proof (cases F)
  case None
  then have "apply_opt F t = t\<lparr>t_calls := t_calls t @ []\<rparr>"
    by (simp add: apply_opt_def)
  then show ?thesis by (intro exI [of _ "[]"]) simp
next
  case (Some f)
  then show ?thesis using assms by (simp add: apply_opt_def reports_def)
qed

lemma progress_state:
  "t_state (mms_task_http_send_progress t) = t_state t"
  "t_state (mms_task_http_receive_progress t) = t_state t"
  by (simp_all add: mms_task_http_send_progress_def mms_task_http_receive_progress_def split: option.split)

locale http_subclass =
  fixes K :: "('q, 'u, 'a) mms_task_http_scheme mms_http_class" and env :: "'u http_env"
  assumes started_reports: "hc_started K = Some f \<Longrightarrow> reports f"
    and paused_reports: "hc_paused K = Some f \<Longrightarrow> reports f"
    and done_reports: "hc_done K = Some g \<Longrightarrow> reports (g path ss)"
begin

lemma callbacks_tell:
  obtains cs where
    "(case st of MMS_HTTP_ACTIVE \<Rightarrow> apply_opt (hc_started K) t
       | MMS_HTTP_PAUSED \<Rightarrow> apply_opt (hc_paused K) t
       | MMS_HTTP_DONE \<Rightarrow> (case hc_done K of None \<Rightarrow> t | Some f \<Rightarrow> f path ss t)
       | MMS_HTTP_READY \<Rightarrow> t) = t\<lparr>t_calls := t_calls t @ cs\<rparr>"
    and "list_all handler_call cs"
proof (cases st)
  case MMS_HTTP_READY
  then show thesis using that [of "[]"] by simp
next
  case MMS_HTTP_ACTIVE
  then show thesis
    using that apply_opt_tells [where F = "hc_started K" and t = t, OF started_reports] by auto
next
  case MMS_HTTP_PAUSED
  then show thesis
    using that apply_opt_tells [where F = "hc_paused K" and t = t, OF paused_reports] by auto
next
  case MMS_HTTP_DONE
  define F where "F = map_option (\<lambda>f. f path ss) (hc_done K)"
  have "reports g" if "F = Some g" for g
    using that done_reports by (auto simp: F_def)
  from apply_opt_tells [where F = F and t = t, OF this]
  have "\<exists>cs. apply_opt F t = t\<lparr>t_calls := t_calls t @ cs\<rparr> \<and> list_all handler_call cs" .
  moreover have "apply_opt F t = (case hc_done K of None \<Rightarrow> t | Some f \<Rightarrow> f path ss t)"
    by (simp add: apply_opt_def F_def split: option.splits)
  ultimately show thesis
    using that MMS_HTTP_DONE by auto
qed

text \<open>Everything \<^verbatim>\<open>mms_task_http_set_state\<close> does.\<close>

lemma http_set_state:
  obtains cs where
    "mms_task_http_set_state K st ss t =
       t\<lparr>t_calls := t_calls t @ cs,
         h_transaction_state := (if h_transaction_state t = MMS_HTTP_DONE then MMS_HTTP_DONE else st)\<rparr>"
    and "transfers_told (h_transaction_state t = MMS_HTTP_ACTIVE) cs =
       Some ((if h_transaction_state t = MMS_HTTP_DONE then MMS_HTTP_DONE else st) = MMS_HTTP_ACTIVE)"
    and "states_told cs = []"
proof (cases "h_transaction_state t \<noteq> st \<and> h_transaction_state t \<noteq> MMS_HTTP_DONE")
  case True
  obtain cs where cs: "notify_transfer st t = t\<lparr>t_calls := t_calls t @ cs\<rparr>"
      "transfers_told (h_transaction_state t = MMS_HTTP_ACTIVE) cs = Some (st = MMS_HTTP_ACTIVE)"
      "states_told cs = []"
    by (rule notify_transfer_tells)
  define u where "u = t\<lparr>t_calls := t_calls t @ cs, h_transaction_state := st\<rparr>"
  obtain ds where ds: "(case st of MMS_HTTP_ACTIVE \<Rightarrow> apply_opt (hc_started K) u
       | MMS_HTTP_PAUSED \<Rightarrow> apply_opt (hc_paused K) u
       | MMS_HTTP_DONE \<Rightarrow> (case hc_done K of None \<Rightarrow> u | Some f \<Rightarrow> f (h_receive_path u) ss u)
       | MMS_HTTP_READY \<Rightarrow> u) = u\<lparr>t_calls := t_calls u @ ds\<rparr>" "list_all handler_call ds"
    by (rule callbacks_tell)
  have "mms_task_http_set_state K st ss t = u\<lparr>t_calls := t_calls u @ ds\<rparr>"
    unfolding ds(1) [symmetric]
    unfolding mms_task_http_set_state_def Let_def cs(1) u_def using True by simp
  then show thesis
    using that [of "cs @ ds"] True cs ds
    by (simp add: u_def transfers_told_append transfers_told_handler states_told_handler)
next
  case False
  have "t = t\<lparr>t_calls := t_calls t @ [],
      h_transaction_state := (if h_transaction_state t = MMS_HTTP_DONE then MMS_HTTP_DONE else st)\<rparr>"
    using False by (cases t) auto
  then show thesis
    using that [of "[]"] False by (auto simp: mms_task_http_set_state_def)
qed

lemma http_set_state_fields:
  "h_tx (mms_task_http_set_state K st ss t) = h_tx t"
  "h_receive_path (mms_task_http_set_state K st ss t) = h_receive_path t"
  "h_transaction_state (mms_task_http_set_state K st ss t) =
     (if h_transaction_state t = MMS_HTTP_DONE then MMS_HTTP_DONE else st)"
  "t_state (mms_task_http_set_state K st ss t) = t_state t"
  "t_wakeup_id (mms_task_http_set_state K st ss t) = t_wakeup_id t"
  "t_delegate (mms_task_http_set_state K st ss t) = t_delegate t"
  "t_deadline (mms_task_http_set_state K st ss t) = t_deadline t"
  "t_id (mms_task_http_set_state K st ss t) = t_id t"
  "same_task u (mms_task_http_set_state K st ss t) \<longleftrightarrow> same_task u t"
  by (rule http_set_state [of st ss t]; simp add: same_task_def)+

lemma http_set_state_told: "told_ok t \<Longrightarrow> told_ok (mms_task_http_set_state K st ss t)"
  by (rule http_set_state [of st ss t]) (simp add: told_ok_def transfers_told_append)

lemma http_set_state_extends [intro]:
  "extends u t \<Longrightarrow> extends u (mms_task_http_set_state K st ss t)"
  by (rule http_set_state [of st ss t]) (auto simp: extends_def)

lemmas http_set_state_simps = http_set_state_fields http_set_state_told

lemma http_cancel_ok:
  assumes "told_ok t"
  shows "http_ok (mms_task_http_cancel K env now t)"
    and "t_state (mms_task_http_cancel K env now t) = MMS_TASK_STATE_DONE"
    and "cancelled (mms_task_http_cancel K env now t)"
    and "same_task u (mms_task_http_cancel K env now t) \<longleftrightarrow> same_task u t"
    and "extends u t \<Longrightarrow> extends u (mms_task_http_cancel K env now t)"
    and "h_transaction_state (mms_task_http_cancel K env now t) = MMS_HTTP_DONE"
  using assms
  by (auto simp: mms_task_http_cancel_def http_ok_def timer_ok_def http_set_state_simps)

lemma http_sleep_ok:
  assumes "t' = mms_task_set_state (mms_task_http_cancel K env now) now MMS_TASK_STATE_SLEEP t"
    and "told_ok t" "\<not> t_wakeup_id t" "t_state t \<noteq> MMS_TASK_STATE_SLEEP"
    and "h_transaction_state t \<noteq> MMS_HTTP_DONE"
  shows "http_ok t'" and "t_state t' = (if now < t_deadline t then MMS_TASK_STATE_SLEEP else MMS_TASK_STATE_DONE)"
    and "same_task u t' \<longleftrightarrow> same_task u t" and "extends u t \<Longrightarrow> extends u t'"
  using assms(2-5) http_cancel_ok [where t = "snd (mms_task_schedule_wakeup now (t_retry_secs t) t)" and now = now]
  unfolding assms(1) set_state_sleep_eq
  by (auto simp: http_ok_def timer_ok_def)

lemma http_start_ok:
  assumes "mms_task_http_start K env conn t = (ok, t')" and "told_ok t"
    and "h_transaction_state t \<noteq> MMS_HTTP_DONE"
  shows "told_ok t'" "extends t t'" "same_task t t'" "t_state t' = t_state t"
    and "t_wakeup_id t' = t_wakeup_id t" "h_transaction_state t' \<noteq> MMS_HTTP_DONE"
    and "ok \<Longrightarrow> h_tx t' \<noteq> None \<and> h_transaction_state t' = MMS_HTTP_ACTIVE"
proof -
  obtain send_fd receive_fd u where files:
      "open_files env (mms_task_http_finish_transfer t) = (send_fd, receive_fd, u)"
    by (cases "open_files env (mms_task_http_finish_transfer t)") auto
  define v where "v = mms_task_http_finish_transfer t"
  have u: "told_ok u" "t_calls u = t_calls t" "same_task t u" "t_state u = t_state t"
      "t_wakeup_id u = t_wakeup_id t" "h_transaction_state u = h_transaction_state t"
  proof -
    have "u = v \<or> (\<exists>p. u = v\<lparr>h_receive_path := p, h_received := []\<rparr>)"
      using files unfolding v_def [symmetric]
      by (auto simp: open_files_def Let_def split: option.splits)
    then show "told_ok u" "t_calls u = t_calls t" "same_task t u" "t_state u = t_state t"
        "t_wakeup_id u = t_wakeup_id t" "h_transaction_state u = h_transaction_state t"
      using assms(2) by (auto simp: v_def told_ok_def same_task_def)
  qed
  have cases: "(\<not> ok \<and> t' = u) \<or> (\<exists>tx n. ok \<and> t' = mms_task_http_set_state K MMS_HTTP_ACTIVE 0
      (u\<lparr>h_tx := Some tx, h_sessions := n\<rparr>))"
    using assms(1) unfolding mms_task_http_start_def files
    by (auto simp: Let_def split: if_splits option.splits)
  have "told_ok t' \<and> extends t t' \<and> same_task t t' \<and> t_state t' = t_state t
      \<and> t_wakeup_id t' = t_wakeup_id t \<and> h_transaction_state t' \<noteq> MMS_HTTP_DONE
      \<and> (ok \<longrightarrow> h_tx t' \<noteq> None \<and> h_transaction_state t' = MMS_HTTP_ACTIVE)"
    using cases
  proof (elim disjE exE conjE)
    fix tx n
    define w where "w = u\<lparr>h_tx := Some tx, h_sessions := n\<rparr>"
    have w: "told_ok w" "extends t w" "same_task t w" "t_state w = t_state t"
        "t_wakeup_id w = t_wakeup_id t" "h_tx w = Some tx" "h_transaction_state w \<noteq> MMS_HTTP_DONE"
      using u assms(3) by (simp_all add: w_def told_ok_def extends_def same_task_def)
    assume "t' = mms_task_http_set_state K MMS_HTTP_ACTIVE 0 (u\<lparr>h_tx := Some tx, h_sessions := n\<rparr>)"
    then have "t' = mms_task_http_set_state K MMS_HTTP_ACTIVE 0 w"
      by (simp only: w_def)
    then show ?thesis
      using w by (simp add: http_set_state_simps http_set_state_extends)
  next
    assume "\<not> ok" "t' = u"
    then show ?thesis
      using u assms(3) by (simp add: extends_def)
  qed
  then show "told_ok t'" "extends t t'" "same_task t t'" "t_state t' = t_state t"
    and "t_wakeup_id t' = t_wakeup_id t" "h_transaction_state t' \<noteq> MMS_HTTP_DONE"
    and "ok \<Longrightarrow> h_tx t' \<noteq> None \<and> h_transaction_state t' = MMS_HTTP_ACTIVE"
    by blast+
qed

lemma http_transmit_ok:
  fixes now :: int and conn :: mms_connection
  assumes "http_ok t" and "needs_connection t"
  defines "t' \<equiv> mms_task_http_transmit K env now conn t"
  shows "kept http_ok t t'" and "t_state t' = MMS_TASK_STATE_TRANSMITTING \<or> t_state t' = MMS_TASK_STATE_DONE"
proof -
  obtain ok u where start: "mms_task_http_start K env conn t = (ok, u)"
    by (cases "mms_task_http_start K env conn t") auto
  have t: "told_ok t" "h_transaction_state t \<noteq> MMS_HTTP_DONE" "\<not> t_wakeup_id t"
      "t_state t \<noteq> MMS_TASK_STATE_TRANSMITTING"
    using assms(1,2) by (auto simp: http_ok_def timer_ok_def needs_connection_def)
  note u = http_start_ok [OF start t(1,2)]
  have "kept http_ok t t' \<and> (t_state t' = MMS_TASK_STATE_TRANSMITTING \<or> t_state t' = MMS_TASK_STATE_DONE)"
  proof (cases ok)
    case True
    then have "t' = store_state MMS_TASK_STATE_TRANSMITTING u"
      using t(4) start by (simp add: t'_def mms_task_http_transmit_def set_state_awake)
    then show ?thesis
      using u u(7) [OF True] t(3) by (auto simp: kept_def http_ok_def timer_ok_def)
  next
    case False
    define F where "F = map_option (\<lambda>f. f None (status_io_error env)) (hc_done K)"
    have "reports g" if "F = Some g" for g
      using that done_reports by (auto simp: F_def)
    from apply_opt_tells [where F = F and t = u, OF this] obtain cs
      where cs: "apply_opt F u = u\<lparr>t_calls := t_calls u @ cs\<rparr>" "list_all handler_call cs"
      by auto
    have "t' = store_state MMS_TASK_STATE_DONE (apply_opt F u)"
      using False t(4) start
      by (simp add: t'_def mms_task_http_transmit_def set_state_awake apply_opt_def F_def split: option.splits)
    then have t': "t' = store_state MMS_TASK_STATE_DONE (u\<lparr>t_calls := t_calls u @ cs\<rparr>)"
      by (simp only: cs(1))
    have "told_ok (u\<lparr>t_calls := t_calls u @ cs\<rparr>)"
      using u(1) cs(2) by (simp add: told_ok_def transfers_told_append transfers_told_handler)
    moreover have "extends t (u\<lparr>t_calls := t_calls u @ cs\<rparr>)"
      using u(2) by (auto simp: extends_def)
    ultimately show ?thesis
      using u(3-6) t(3)
      by (auto simp: t' kept_def http_ok_def timer_ok_def same_task_def)
  qed
  then show "kept http_ok t t'" and "t_state t' = MMS_TASK_STATE_TRANSMITTING \<or> t_state t' = MMS_TASK_STATE_DONE"
    by simp_all
qed

lemma http_run_ok:
  assumes "http_ok t" and "t_state t = MMS_TASK_STATE_READY"
  shows "kept http_ok t (mms_task_http_run K env now t)" and "needs_connection (mms_task_http_run K env now t)"
  using assms
  by (auto simp: mms_task_http_run_def set_state_awake kept_def http_ok_def timer_ok_def needs_connection_def)

lemma http_cancel_kept: "http_ok t \<Longrightarrow> kept http_ok t (mms_task_http_cancel K env now t)"
  by (rule keptI) (auto simp: http_ok_def [of t] http_cancel_ok)

lemma http_unavailable_ok:
  fixes now :: int and can_retry :: bool
  assumes "http_ok t" and "needs_connection t \<or> t_state t = MMS_TASK_STATE_TRANSMITTING"
  defines "t' \<equiv> mms_task_http_network_unavailable K env now can_retry t"
  shows "kept http_ok t t'" and "t_state t' = MMS_TASK_STATE_SLEEP \<or> t_state t' = MMS_TASK_STATE_DONE"
proof -
  have "kept http_ok t t' \<and> (t_state t' = MMS_TASK_STATE_SLEEP \<or> t_state t' = MMS_TASK_STATE_DONE)"
  proof (cases can_retry)
    case True
    have t: "told_ok (mms_task_http_finish_transfer t)" "\<not> t_wakeup_id (mms_task_http_finish_transfer t)"
        "t_state (mms_task_http_finish_transfer t) \<noteq> MMS_TASK_STATE_SLEEP"
        "h_transaction_state (mms_task_http_finish_transfer t) \<noteq> MMS_HTTP_DONE"
      using assms(1,2) by (auto simp: http_ok_def timer_ok_def needs_connection_def)
    have "t' = mms_task_set_state (mms_task_http_cancel K env now) now MMS_TASK_STATE_SLEEP
        (mms_task_http_finish_transfer t)"
      using True by (simp add: t'_def mms_task_http_network_unavailable_def)
    note u = http_sleep_ok [OF this t]
    then show ?thesis
      by (auto simp: kept_def extends_finish)
  next
    case False
    then show ?thesis
      using assms(1) http_cancel_kept [of t] http_cancel_ok(2) [of t]
      by (simp add: t'_def mms_task_http_network_unavailable_def http_ok_def)
  qed
  then show "kept http_ok t t'" and "t_state t' = MMS_TASK_STATE_SLEEP \<or> t_state t' = MMS_TASK_STATE_DONE"
    by simp_all
qed

end

text \<open>Every HTTP task satisfies the contract of a task class.\<close>

sublocale http_subclass \<subseteq>
  task: mms_task_contract "mms_task_http_class K env" http_ok "\<lambda>c. c_state c = MMS_CONNECTION_STATE_OPEN"
proof unfold_locales
  fix t :: "('q, 'u, 'a) mms_task_http_scheme" and now :: int
  assume "http_ok t"
  then show "timer_ok t"
    by (simp add: http_ok_def)
  show "kept http_ok t (fn_cancel (mms_task_http_class K env) now t)
      \<and> t_state (fn_cancel (mms_task_http_class K env) now t) = MMS_TASK_STATE_DONE
      \<and> cancelled (fn_cancel (mms_task_http_class K env) now t)"
    using \<open>http_ok t\<close> http_cancel_kept [of t] http_cancel_ok(2,3) [of t]
    by (simp add: mms_task_http_class_def http_ok_def)
  assume "t_wakeup_id t"
  then show "kept http_ok t (mms_task_wakeup_callback (fn_cancel (mms_task_http_class K env) now) now t)"
    using \<open>http_ok t\<close>
    by (auto simp: mms_task_wakeup_callback_def set_state_awake kept_def http_ok_def timer_ok_def
        same_task_def extends_def store_state_calls told_ok_def)
next
  fix t :: "('q, 'u, 'a) mms_task_http_scheme" and now :: int and c and can_retry
  assume t: "http_ok t"
  show "t_state t = MMS_TASK_STATE_READY \<Longrightarrow> kept http_ok t (fn_run (mms_task_http_class K env) now t)
      \<and> t_state (fn_run (mms_task_http_class K env) now t) \<noteq> MMS_TASK_STATE_READY"
    using http_run_ok [OF t, of now] by (auto simp: mms_task_http_class_def needs_connection_def)
  show "needs_connection t \<Longrightarrow> kept http_ok t (fn_transmit (mms_task_http_class K env) now c t)
      \<and> \<not> needs_connection (fn_transmit (mms_task_http_class K env) now c t)
      \<and> t_state (fn_transmit (mms_task_http_class K env) now c t) \<noteq> MMS_TASK_STATE_READY"
    using http_transmit_ok [OF t, of now c] by (auto simp: mms_task_http_class_def needs_connection_def)
  show "needs_connection t \<or> t_state t = MMS_TASK_STATE_TRANSMITTING
      \<Longrightarrow> kept http_ok t (fn_network_unavailable (mms_task_http_class K env) now can_retry t)
          \<and> (t_state (fn_network_unavailable (mms_task_http_class K env) now can_retry t) = MMS_TASK_STATE_SLEEP
             \<or> t_state (fn_network_unavailable (mms_task_http_class K env) now can_retry t) = MMS_TASK_STATE_DONE)"
    using http_unavailable_ok [OF t, of now can_retry] by (auto simp: mms_task_http_class_def)
qed

section \<open>Everything that can happen to an HTTP task\<close>

context http_subclass
begin

lemma http_finished_ok:
  fixes now :: int and session status :: nat
  assumes "http_ok t"
    and "\<And>tx. h_tx t = Some tx \<Longrightarrow> tx_session tx = session \<Longrightarrow> t_state t = MMS_TASK_STATE_TRANSMITTING"
  shows "kept http_ok t (mms_task_http_finished K env now session status t)"
proof (cases "\<exists>tx. h_tx t = Some tx \<and> tx_session tx = session")
  case False
  then show ?thesis
    using assms(1) by (auto simp: mms_task_http_finished_def kept_refl split: option.splits)
next
  case True
  then obtain tx where tx: "h_tx t = Some tx" "tx_session tx = session" by blast
  have t: "told_ok t" "t_state t = MMS_TASK_STATE_TRANSMITTING" "\<not> t_wakeup_id t"
      "h_transaction_state t = MMS_HTTP_ACTIVE"
    using assms(1) assms(2) [OF tx] by (simp_all add: http_ok_def timer_ok_def)
  show ?thesis
  proof (cases "status_is_successful env status \<or> \<not> status_is_transport_error env status")
    case True
    then have "mms_task_http_finished K env now session status t =
        mms_task_http_set_state K MMS_HTTP_DONE status (store_state MMS_TASK_STATE_DONE t)"
      by (auto simp: mms_task_http_finished_def tx set_state_awake Let_def)
    then show ?thesis
      using t by (auto simp: kept_def http_ok_def timer_ok_def http_set_state_simps)
  next
    case False
    then have "mms_task_http_finished K env now session status t =
        (if now < t_deadline t
         then mms_task_http_set_state K MMS_HTTP_PAUSED status
           (store_state MMS_TASK_STATE_SLEEP (snd (mms_task_schedule_wakeup now 0 t)))
         else mms_task_http_set_state K MMS_HTTP_DONE (status_cancelled env)
           (store_state MMS_TASK_STATE_DONE (snd (mms_task_schedule_wakeup now 0 t))))"
      by (simp add: mms_task_http_finished_def tx mms_task_retry_def sleep_eq Let_def)
    then show ?thesis
      using t by (auto simp: kept_def http_ok_def timer_ok_def http_set_state_simps)
  qed
qed

lemma http_tx_ok:
  assumes "http_ok t" and "t_state t = MMS_TASK_STATE_TRANSMITTING"
  shows "kept http_ok t (t\<lparr>h_tx := Some tx\<rparr>)"
    and "kept http_ok t (mms_task_http_send_progress (t\<lparr>h_tx := Some tx\<rparr>))"
    and "kept http_ok t (mms_task_http_receive_progress (t\<lparr>h_tx := Some tx\<rparr>))"
  using assms
  by (auto simp: kept_def mms_task_http_send_progress_def mms_task_http_receive_progress_def
      http_ok_def told_ok_def timer_ok_def transfers_told_append same_task_def extends_def)

lemma http_progress_ok:
  assumes "http_ok t" and "t_state t = MMS_TASK_STATE_TRANSMITTING"
  shows "kept http_ok t (mms_task_http_write_next_chunk err t)"
    and "kept http_ok t (mms_task_http_got_headers n t)"
  unfolding mms_task_http_write_next_chunk_def mms_task_http_got_headers_def Let_def
  using http_tx_ok [OF assms] kept_refl [of http_ok t] assms(1) by (simp_all split: option.split)

lemma http_got_chunk_ok:
  fixes now :: int
  assumes "http_ok t" and "t_state t = MMS_TASK_STATE_TRANSMITTING"
  shows "kept http_ok t (mms_task_http_got_chunk K env now buf written t)"
proof -
  obtain tx where tx: "h_tx t = Some tx"
    using assms by (auto simp: http_ok_def)
  define u where "u = t\<lparr>h_tx := Some (tx\<lparr>tx_bytes_received := tx_bytes_received tx + of_nat (length buf)\<rparr>),
                    h_received := h_received t @ take (case written of None \<Rightarrow> 0 | Some n \<Rightarrow> n) buf\<rparr>"
  have t: "told_ok t" "\<not> t_wakeup_id t" "h_transaction_state t = MMS_HTTP_ACTIVE"
    using assms by (simp_all add: http_ok_def timer_ok_def)
  then have u: "told_ok u" "extends t u" "same_task t u" "\<not> t_wakeup_id u"
      "t_state u = MMS_TASK_STATE_TRANSMITTING" "h_transaction_state u = MMS_HTTP_ACTIVE"
      "h_tx u \<noteq> None"
    using assms(2) by (auto simp: u_def told_ok_def extends_def same_task_def)
  show ?thesis
  proof (cases "written = Some (length buf)")
    case True
    then have "mms_task_http_got_chunk K env now buf written t = mms_task_http_receive_progress u"
      by (simp add: mms_task_http_got_chunk_def tx u_def)
    then show ?thesis
      using u by (auto simp: kept_def http_ok_def timer_ok_def mms_task_http_receive_progress_def
          told_ok_def transfers_told_append split: option.splits)
  next
    case False
    define v where "v = mms_task_http_set_state K MMS_HTTP_PAUSED 0 (mms_task_http_finish_transfer u)"
    have v: "told_ok v" "\<not> t_wakeup_id v" "t_state v \<noteq> MMS_TASK_STATE_SLEEP"
        "h_transaction_state v \<noteq> MMS_HTTP_DONE"
      using u by (simp_all add: v_def http_set_state_simps)
    have "mms_task_http_got_chunk K env now buf written t =
        mms_task_set_state (mms_task_http_cancel K env now) now MMS_TASK_STATE_SLEEP v"
      using False by (simp add: mms_task_http_got_chunk_def tx u_def v_def)
    note w = http_sleep_ok [OF this v]
    have "extends t v" "same_task t v"
      using u by (auto simp: v_def http_set_state_simps)
    then show ?thesis
      using w by (simp add: kept_def)
  qed
qed

lemma http_event_kept: "http_event K env t t' \<Longrightarrow> http_ok t \<Longrightarrow> kept http_ok t t'"
  by (erule http_eventE)
     (use task.step_kept http_finished_ok http_progress_ok http_got_chunk_ok in blast)+

lemma http_events_kept: "(http_event K env)\<^sup>*\<^sup>* t t' \<Longrightarrow> http_ok t \<Longrightarrow> kept http_ok t t'"
proof (induction rule: rtranclp_induct)
  case (step u v)
  then have "kept http_ok t u" by simp
  moreover from this have "kept http_ok u v"
    using step.hyps(2) http_event_kept by (simp add: kept_def [of http_ok t])
  ultimately show ?case by (rule kept_trans)
qed (rule kept_refl)

end

section \<open>The outcome is reported once\<close>

definition outcomes :: "('q task_call \<Rightarrow> bool) \<Rightarrow> ('q, 'a) mms_task_scheme \<Rightarrow> nat" where
  "outcomes P t = length (filter P (t_calls t))"

lemma outcomes_update [simp]:
  "outcomes P (t\<lparr>h_transaction_state := st\<rparr>) = outcomes P t"
  "outcomes P (t\<lparr>h_tx := tx\<rparr>) = outcomes P t"
  "outcomes P (t\<lparr>h_received := r\<rparr>) = outcomes P t"
  "outcomes P (t\<lparr>h_receive_path := p\<rparr>) = outcomes P t"
  "outcomes P (t\<lparr>h_sessions := n\<rparr>) = outcomes P t"
  "outcomes P (t\<lparr>t_wakeup_id := w\<rparr>) = outcomes P t"
  by (simp_all add: outcomes_def)

text \<open>A task whose transfer could not even be started is done while its transaction is not; the
  dispatcher drops such a task at once.\<close>

definition settled :: "('q, 'u, 'a) mms_task_http_scheme \<Rightarrow> bool" where
  "settled t \<longleftrightarrow> (t_state t = MMS_TASK_STATE_DONE \<longrightarrow> h_transaction_state t = MMS_HTTP_DONE)"

definition http_life ::
    "('q, 'u, 'a) mms_task_http_scheme mms_http_class \<Rightarrow> 'u http_env
       \<Rightarrow> ('q, 'u, 'a) mms_task_http_scheme \<Rightarrow> ('q, 'u, 'a) mms_task_http_scheme \<Rightarrow> bool" where
  "http_life K env t t' \<longleftrightarrow> settled t \<and> http_event K env t t'"

locale http_reporter = http_subclass +
  fixes outcome :: "'a task_call \<Rightarrow> bool"
  assumes outcome_handler: "outcome c \<Longrightarrow> handler_call c"
    and started_quiet: "hc_started K = Some f \<Longrightarrow> outcomes outcome (f t) = outcomes outcome t"
    and paused_quiet: "hc_paused K = Some f \<Longrightarrow> outcomes outcome (f t) = outcomes outcome t"
    and done_given: "hc_done K \<noteq> None"
    and done_once: "hc_done K = Some g \<Longrightarrow> outcomes outcome (g path ss t) = Suc (outcomes outcome t)"
begin

lemma outcome_not [simp]:
  "\<not> outcome (Task_State_Changed st)" "\<not> outcome (Transfer_Started i ty)"
  "\<not> outcome (Transfer_Finished i ty)" "\<not> outcome (Transfer_Send_Progress i ty a b)"
  "\<not> outcome (Transfer_Receive_Progress i ty a b)"
  using outcome_handler by force+

lemma outcomes_ops [simp]:
  "outcomes outcome (store_state st t) = outcomes outcome t"
  "outcomes outcome (snd (mms_task_schedule_wakeup now secs t)) = outcomes outcome t"
  "outcomes outcome (mms_task_cancel_cb now t) = outcomes outcome t"
  "outcomes outcome (mms_task_http_finish_transfer t') = outcomes outcome t'"
  "outcomes outcome (mms_task_http_send_progress t') = outcomes outcome t'"
  "outcomes outcome (mms_task_http_receive_progress t') = outcomes outcome t'"
  "outcomes outcome (notify_transfer s t') = outcomes outcome t'"
  by (simp_all add: outcomes_def store_state_calls cancel_cb_calls mms_task_http_send_progress_def
      mms_task_http_receive_progress_def notify_transfer_def Let_def split: option.split)

lemma outcomes_http_set_state [simp]:
  "outcomes outcome (mms_task_http_set_state K st ss t) = outcomes outcome t +
     (if h_transaction_state t \<noteq> MMS_HTTP_DONE \<and> st = MMS_HTTP_DONE then 1 else 0)"
  using done_given
  by (cases st) (auto simp: mms_task_http_set_state_def Let_def apply_opt_def started_quiet
      paused_quiet done_once split: option.split)

lemma outcomes_cancel [simp]:
  "outcomes outcome (mms_task_http_cancel K env now t) = outcomes outcome t +
     (if h_transaction_state t = MMS_HTTP_DONE then 0 else 1)"
  by (simp add: mms_task_http_cancel_def)

lemma outcomes_sleep [simp]:
  "\<not> t_wakeup_id t \<Longrightarrow> t_state t \<noteq> MMS_TASK_STATE_SLEEP \<Longrightarrow> h_transaction_state t \<noteq> MMS_HTTP_DONE \<Longrightarrow>
   outcomes outcome (mms_task_set_state (mms_task_http_cancel K env now) now MMS_TASK_STATE_SLEEP t) =
     outcomes outcome t + (if now < t_deadline t then 0 else 1)"
  by (simp add: set_state_sleep_eq)

text \<open>The number of outcomes that have been reported fits the state.\<close>

abbreviation reported :: "('a, 'b, 'c) mms_task_http_scheme \<Rightarrow> bool" where
  "reported t \<equiv> outcomes outcome t = (if t_state t = MMS_TASK_STATE_DONE then 1 else 0)"

lemma reported_finished:
  fixes now :: int and session status :: nat
  assumes "http_ok t" "reported t"
    and "\<And>tx. h_tx t = Some tx \<Longrightarrow> tx_session tx = session \<Longrightarrow> t_state t = MMS_TASK_STATE_TRANSMITTING"
  shows "reported (mms_task_http_finished K env now session status t)"
proof (cases "\<exists>tx. h_tx t = Some tx \<and> tx_session tx = session")
  case False
  then show ?thesis
    using assms(2) by (auto simp: mms_task_http_finished_def split: option.splits)
next
  case True
  then obtain tx where tx: "h_tx t = Some tx" "tx_session tx = session" by blast
  then have "t_state t = MMS_TASK_STATE_TRANSMITTING" "h_transaction_state t = MMS_HTTP_ACTIVE"
    using assms(1,3) by (auto simp: http_ok_def)
  then show ?thesis
    using assms(2)
    by (simp add: mms_task_http_finished_def tx Let_def set_state_awake mms_task_retry_def sleep_eq
        http_set_state_fields)
qed

lemma reported_transmit:
  assumes "http_ok t" "reported t" "needs_connection t"
  shows "reported (mms_task_http_transmit K env now conn t)"
proof -
  obtain ok u where start: "mms_task_http_start K env conn t = (ok, u)"
    by (cases "mms_task_http_start K env conn t") auto
  have t: "h_transaction_state t \<noteq> MMS_HTTP_DONE" "t_state t \<noteq> MMS_TASK_STATE_TRANSMITTING"
      "outcomes outcome t = 0"
    using assms by (auto simp: http_ok_def needs_connection_def)
  have "outcomes outcome u = 0"
    using start t(3) unfolding mms_task_http_start_def open_files_def
    by (auto simp: Let_def split: option.splits prod.splits if_splits)
  then show ?thesis
    using t(2) start done_given
    by (cases ok) (auto simp: mms_task_http_transmit_def set_state_awake done_once)
qed

lemma reported_chunk:
  fixes now :: int
  assumes "http_ok t" "reported t" "t_state t = MMS_TASK_STATE_TRANSMITTING"
  shows "reported (mms_task_http_got_chunk K env now buf written t)"
    and "reported (mms_task_http_write_next_chunk err t)"
    and "reported (mms_task_http_got_headers n t)"
proof -
  show "reported (mms_task_http_write_next_chunk err t)" and "reported (mms_task_http_got_headers n t)"
    using assms http_progress_ok [OF assms(1,3)]
    by (auto simp: mms_task_http_write_next_chunk_def mms_task_http_got_headers_def Let_def
        mms_task_http_send_progress_def mms_task_http_receive_progress_def outcomes_def
        split: option.split)
  obtain tx where tx: "h_tx t = Some tx"
    using assms by (auto simp: http_ok_def)
  define u where "u = t\<lparr>h_tx := Some (tx\<lparr>tx_bytes_received := tx_bytes_received tx + of_nat (length buf)\<rparr>),
                    h_received := h_received t @ take (case written of None \<Rightarrow> 0 | Some n \<Rightarrow> n) buf\<rparr>"
  have u: "\<not> t_wakeup_id u" "h_transaction_state u = MMS_HTTP_ACTIVE" "outcomes outcome u = 0"
      "t_state u = MMS_TASK_STATE_TRANSMITTING"
    using assms by (simp_all add: u_def http_ok_def timer_ok_def)
  have "mms_task_http_got_chunk K env now buf written t =
      (if written = Some (length buf) then mms_task_http_receive_progress u
       else mms_task_set_state (mms_task_http_cancel K env now) now MMS_TASK_STATE_SLEEP
              (mms_task_http_set_state K MMS_HTTP_PAUSED 0 (mms_task_http_finish_transfer u)))"
    by (simp add: mms_task_http_got_chunk_def tx Let_def u_def)
  then show "reported (mms_task_http_got_chunk K env now buf written t)"
    using u by (simp add: http_set_state_fields set_state_sleep_eq progress_state)
qed

lemma reported_cancel:
  assumes "http_ok t" "settled t" "reported t"
  shows "reported (mms_task_http_cancel K env now t)"
proof -
  have "t_state (mms_task_http_cancel K env now t) = MMS_TASK_STATE_DONE"
    using assms(1) http_cancel_ok(2) unfolding http_ok_def by blast
  moreover have "h_transaction_state t = MMS_HTTP_DONE \<longleftrightarrow> t_state t = MMS_TASK_STATE_DONE"
    using assms(1,2) unfolding http_ok_def settled_def by blast
  ultimately show ?thesis
    using assms(3) by simp
qed

lemma reported_event:
  assumes "http_life K env t t'" "http_ok t" "reported t"
  shows "reported t'"
proof -
  have "http_event K env t t'" and settled: "settled t"
    using assms(1) by (simp_all add: http_life_def)
  from this(1) show ?thesis
  proof (rule http_eventE)
    assume "task_step (mms_task_http_class K env) (\<lambda>c. c_state c = MMS_CONNECTION_STATE_OPEN) t t'"
    then show ?thesis
    proof (rule task_stepE)
      fix now
      assume "t' = mms_task_run (mms_task_http_class K env) now t" "t_state t = MMS_TASK_STATE_READY"
      then show ?thesis
        using assms(3)
        by (auto simp: mms_task_run_def mms_task_http_class_def mms_task_http_run_def set_state_awake)
    next
      fix c now
      assume "t' = mms_task_transmit (mms_task_http_class K env) now c t" "needs_connection t"
      then show ?thesis
        using reported_transmit [OF assms(2,3)] by (simp add: mms_task_transmit_def mms_task_http_class_def)
    next
      fix now can_retry
      assume t': "t' = mms_task_network_unavailable (mms_task_http_class K env) now can_retry t"
        and "needs_connection t \<or> t_state t = MMS_TASK_STATE_TRANSMITTING \<or> t_state t = MMS_TASK_STATE_DONE"
      show ?thesis
      proof (cases "can_retry \<and> t_state t \<noteq> MMS_TASK_STATE_DONE")
        case True
        then have "\<not> t_wakeup_id t" "t_state t \<noteq> MMS_TASK_STATE_SLEEP" "h_transaction_state t \<noteq> MMS_HTTP_DONE"
          using assms(2) \<open>needs_connection t \<or> _\<close> by (auto simp: http_ok_def timer_ok_def needs_connection_def)
        then show ?thesis
          using True assms(3)
          by (simp add: t' mms_task_network_unavailable_def mms_task_http_class_def set_state_sleep_eq
              mms_task_http_network_unavailable_def)
      next
        case False
        then show ?thesis
          using reported_cancel [OF assms(2) settled assms(3), of now] assms(3)
          by (cases "t_state t = MMS_TASK_STATE_DONE")
             (simp_all add: t' mms_task_network_unavailable_def mms_task_http_class_def
                mms_task_http_network_unavailable_def del: outcomes_cancel)
      qed
    next
      fix now
      assume "t' = mms_task_cancel (mms_task_http_class K env) now t"
      then show ?thesis
        using reported_cancel [OF assms(2) settled assms(3)]
        by (simp add: mms_task_cancel_def mms_task_http_class_def)
    next
      fix now
      assume "t' = mms_task_wakeup_callback (fn_cancel (mms_task_http_class K env) now) now t" "t_wakeup_id t"
      then show ?thesis
        using assms(2,3) by (simp add: mms_task_wakeup_callback_def set_state_awake http_ok_def timer_ok_def)
    qed
  next
    fix session now status
    assume "t' = mms_task_http_finished K env now session status t"
      and "\<And>tx. h_tx t = Some tx \<Longrightarrow> tx_session tx = session \<Longrightarrow> t_state t = MMS_TASK_STATE_TRANSMITTING"
    then show ?thesis
      using reported_finished [OF assms(2,3)] by simp
  qed (use reported_chunk [OF assms(2,3)] in simp_all)
qed

lemma reported_life:
  assumes "(http_life K env)\<^sup>*\<^sup>* t t'" "http_ok t" "reported t"
  shows "http_ok t' \<and> reported t'"
  using assms
proof (induction rule: rtranclp_induct)
  case (step u v)
  then show ?case
    using reported_event http_event_kept by (auto simp: http_life_def kept_def)
qed simp

end

section \<open>Properties\<close>

text \<open>The number a string of digits denotes, and its usual notation.\<close>

definition decimal :: "string \<Rightarrow> nat" where
  "decimal s = foldl (\<lambda>n c. 10 * n + (of_char c - 48)) 0 s"

definition canonical :: "string \<Rightarrow> bool" where
  "canonical s \<longleftrightarrow> s \<noteq> [] \<and> list_all ascii_isdigit s \<and> (peek s = CHR ''0'' \<longrightarrow> s = ''0'')"

lemma strip_zeros_decimal:
  "s \<noteq> [] \<Longrightarrow> list_all ascii_isdigit s \<Longrightarrow> decimal (strip_zeros s) = decimal s \<and> canonical (strip_zeros s)"
  by (induction s rule: strip_zeros.induct) (auto simp: decimal_def canonical_def)

lemma digit_not_dot: "list_all ascii_isdigit s \<Longrightarrow> CHR ''.'' \<notin> set s"
  by (induction s) (auto simp: ascii_isdigit_def)

text \<open>Correcting the host of the proxy keeps the number that every part of the address is meant to
  be, read as a decimal number, and leaves no part with a leading zero.\<close>

theorem proxy_host_decimal:
  assumes "list_all (\<lambda>p. p \<noteq> [] \<and> list_all ascii_isdigit p) (g_strsplit host CHR ''.'')"
  shows "list_all2 (\<lambda>p q. decimal q = decimal p \<and> canonical q)
           (g_strsplit host CHR ''.'') (g_strsplit (proxy_host host) CHR ''.'')"
proof -
  define ps where "ps = g_strsplit host CHR ''.''"
  have strip: "\<forall>p\<in>set ps. decimal (strip_zeros p) = decimal p \<and> canonical (strip_zeros p)"
    using assms strip_zeros_decimal by (fastforce simp: ps_def list_all_iff)
  have "g_strsplit (proxy_host host) CHR ''.'' = map strip_zeros ps"
  proof (cases "ps = []")
    case True
    then show ?thesis by (simp add: proxy_host_def ps_def g_strsplit_def)
  next
    case False
    have "\<forall>q\<in>set (map strip_zeros ps). CHR ''.'' \<notin> set q"
      using strip digit_not_dot by (auto simp: canonical_def)
    then have "split_at_char CHR ''.'' (proxy_host host) = map strip_zeros ps"
      unfolding proxy_host_def ps_def [symmetric] using False by (intro split_at_char_join) auto
    moreover have "proxy_host host \<noteq> []"
    proof
      assume "proxy_host host = []"
      then have "map strip_zeros ps = [[]]"
        using calculation by simp
      then show False
        using strip by (auto simp: canonical_def)
    qed
    ultimately show ?thesis by (simp add: g_strsplit_def)
  qed
  then show ?thesis
    using strip by (simp add: ps_def list_all2_map2 list_all2_same)
qed

theorem proxy_host_decimal_witness:
  "list_all2 (\<lambda>p q. decimal q = decimal p \<and> canonical q)
     [''192'', ''168'', ''094'', ''023''] [''192'', ''168'', ''94'', ''23'']"
  using proxy_host_decimal [of "''192.168.094.023''"]
  by (simp add: g_strsplit_def proxy_host_def ascii_isdigit_def)

text \<open>C10. The request body that is handed to libsoup is the file: after \<open>n\<close> requests for data it is the
  first \<open>n\<close> chunks of at most 4046 octets, the number of octets sent is counted exactly (modulo the
  width of \<^verbatim>\<open>guint\<close>), and the body is declared complete by the first request that finds nothing left.\<close>

theorem body_is_the_file:
  assumes "h_tx t = Some tx" "tx_send_fd tx = Some d" "tx_request_body tx = []"
    and "tx_bytes_sent tx = 0" "\<not> tx_complete tx"
  shows "\<exists>tx'. h_tx ((mms_task_http_write_next_chunk False ^^ n) t) = Some tx'
    \<and> tx_request_body tx' = take (n * MMS_HTTP_MAX_CHUNK) d
    \<and> tx_bytes_sent tx' = of_nat (length (tx_request_body tx'))
    \<and> (tx_complete tx' \<longleftrightarrow> 0 < n \<and> length d \<le> (n - 1) * MMS_HTTP_MAX_CHUNK)"
proof -
  have "\<exists>tx'. h_tx ((mms_task_http_write_next_chunk False ^^ n) t) = Some tx'
    \<and> tx_request_body tx' = take (n * MMS_HTTP_MAX_CHUNK) d
    \<and> tx_send_fd tx' = Some (drop (n * MMS_HTTP_MAX_CHUNK) d)
    \<and> tx_bytes_sent tx' = of_nat (length (tx_request_body tx'))
    \<and> (tx_complete tx' \<longleftrightarrow> 0 < n \<and> length d \<le> (n - 1) * MMS_HTTP_MAX_CHUNK)"
  proof (induction n)
    case 0
    then show ?case using assms by simp
  next
    case (Suc n)
    define u where "u = (mms_task_http_write_next_chunk False ^^ n) t"
    obtain tx' where IH: "h_tx u = Some tx'" "tx_request_body tx' = take (n * MMS_HTTP_MAX_CHUNK) d"
        "tx_send_fd tx' = Some (drop (n * MMS_HTTP_MAX_CHUNK) d)"
        "tx_bytes_sent tx' = of_nat (length (tx_request_body tx'))"
        "tx_complete tx' \<longleftrightarrow> 0 < n \<and> length d \<le> (n - 1) * MMS_HTTP_MAX_CHUNK"
      using Suc.IH unfolding u_def by blast
    have step: "(mms_task_http_write_next_chunk False ^^ Suc n) t = mms_task_http_write_next_chunk False u"
      by (simp add: u_def)
    have chunks: "take (n * MMS_HTTP_MAX_CHUNK + MMS_HTTP_MAX_CHUNK) d =
        take (n * MMS_HTTP_MAX_CHUNK) d @ take MMS_HTTP_MAX_CHUNK (drop (n * MMS_HTTP_MAX_CHUNK) d)"
      by (rule take_add)
    show ?case
    proof (cases "length d \<le> n * MMS_HTTP_MAX_CHUNK")
      case True
      then show ?thesis
        using IH unfolding step by (simp add: mms_task_http_write_next_chunk_def)
    next
      case False
      moreover have "\<not> tx_complete tx'"
        using False IH(5) by (cases n) auto
      moreover have "0 < MMS_HTTP_MAX_CHUNK"
        by (simp add: MMS_HTTP_MAX_CHUNK_def)
      ultimately show ?thesis
        using IH unfolding step
        by (simp add: mms_task_http_write_next_chunk_def mms_task_http_send_progress_def chunks
            add.commute [of MMS_HTTP_MAX_CHUNK])
    qed
  qed
  then show ?thesis by blast
qed

definition sample_env :: "string http_env" where
  "sample_env = \<lparr>soup_uri_new = Some, soup_uri_host = (\<lambda>u. u), soup_uri_set_host = (\<lambda>u h. h),
     status_is_informational = (\<lambda>s. 100 \<le> s \<and> s < 200),
     status_is_successful = (\<lambda>s. 200 \<le> s \<and> s < 300),
     status_is_transport_error = (\<lambda>s. 1 \<le> s \<and> s < 100),
     status_cancelled = 1, status_io_error = 7,
     env_open_read = (\<lambda>_. Some [0x8C, 0x80]), env_mkdir = (\<lambda>_. True), env_open_create = (\<lambda>_. False),
     env_root_dir = ''/mms'', env_user_agent = None, env_uaprof = None\<rparr>"

lemma sample_soup_laws: "soup_laws sample_env"
  by (auto simp: soup_laws_def sample_env_def)

definition sample_connection :: mms_connection where
  "sample_connection = \<lparr>c_imsi = ''244'', c_mmsc = Some ''http://mmsc/'', c_mmsproxy = None, c_netif = None,
     c_type = MMS_CONNECTION_TYPE_AUTO, c_state = MMS_CONNECTION_STATE_OPEN\<rparr>"

definition plain_class :: "('q, 'u, 'a) mms_task_http_scheme mms_http_class" where
  "plain_class = \<lparr>hc_started = None, hc_paused = None, hc_done = None\<rparr>"

interpretation plain: http_subclass plain_class env for env
  by unfold_locales (simp_all add: plain_class_def)

definition sample_sender :: "(nat, string) mms_task_http" where
  "sample_sender = fst (mms_task_http_alloc 15 ''/mms'' 1000 ''Send'' (Some ''12'') (Some ''244'') None
     (Some ''m-send.conf'') (Some ''m-send.req'') MMS_CONNECTION_TYPE_AUTO
     \<lparr>mms_task_order = 0, mms_task_count = 0\<rparr>)"

theorem body_is_the_file_witness:
  "\<exists>tx. h_tx ((mms_task_http_write_next_chunk False ^^ 2)
       (snd (mms_task_http_start plain_class sample_env sample_connection sample_sender))) = Some tx
     \<and> tx_request_body tx = [0x8C, 0x80] \<and> tx_bytes_sent tx = 2 \<and> tx_complete tx"
proof -
  obtain tx where "h_tx (snd (mms_task_http_start plain_class sample_env sample_connection sample_sender)) = Some tx"
    "tx_send_fd tx = Some [0x8C, 0x80]" "tx_request_body tx = []" "tx_bytes_sent tx = 0" "\<not> tx_complete tx"
    by (simp add: mms_task_http_start_def open_files_def sample_sender_def mms_task_http_alloc_def
        mms_task_alloc_def mms_task_init_def mms_task.defs sample_env_def sample_connection_def
        mms_task_http_finish_transfer_def mms_create_file_def mms_http_transfer_new_def
        mms_http_uri_parse_def mms_http_create_session_def nonempty_def Let_def plain_class_def
        mms_task_http_set_state_def notify_transfer_def apply_opt_def mms_task_http_send_progress_def)
  from body_is_the_file [OF this, of 2] show ?thesis
    by (auto simp: MMS_HTTP_MAX_CHUNK_def)
qed

text \<open>When the file for the response cannot be created, a task that sends starts its transfer
  nevertheless: it has no path for the response, so what the MMSC answers is never stored.\<close>

theorem sends_without_response_file:
  assumes "h_send_path t = Some p" "env_open_read env p = Some d"
    and "h_receive_file t = Some f"
    and "mms_create_file (env_mkdir env) (env_open_create env) (mms_message_dir (env_root_dir env) (t_id t)) f = None"
    and "mms_http_uri_parse env (case h_uri t of None \<Rightarrow> c_mmsc conn | Some u \<Rightarrow> Some u) = Some u"
  shows "fst (mms_task_http_start plain_class env conn t)
    \<and> h_receive_path (snd (mms_task_http_start plain_class env conn t)) = None"
proof -
  have "open_files env (mms_task_http_finish_transfer t) =
      (Some d, False, (mms_task_http_finish_transfer t)\<lparr>h_receive_path := None, h_received := []\<rparr>)"
    using assms(1-4) by (simp add: open_files_def mms_task_http_finish_transfer_def)
  then show ?thesis
    using assms(1,5)
    by (auto simp: mms_task_http_start_def mms_task_http_finish_transfer_def mms_http_transfer_new_def Let_def
        plain.http_set_state_fields split: option.split prod.split)
qed

theorem sends_without_response_file_witness:
  "fst (mms_task_http_start plain_class sample_env sample_connection sample_sender)"
  using sends_without_response_file [of sample_sender "''/mms/msg/12/m-send.req''" sample_env
      "[0x8C, 0x80]" "''m-send.conf''" sample_connection "''http://mmsc/''"]
  by (simp add: sample_sender_def mms_task_http_alloc_def mms_task_alloc_def mms_task_init_def
      mms_task.defs sample_env_def sample_connection_def mms_create_file_def mms_message_dir_def
      build_filename_def MMS_MESSAGE_DIR_def mms_http_uri_parse_def has_prefix_def)

end
