(* ===== verification/Pdu.thy ===== *)
theory Pdu
  imports Mms_Prelude
begin

text \<open>
  The data model of \<^verbatim>\<open>mms-lib/src/mms_codec.h\<close>: the wire enumerations, and the decoded PDU
  \<^verbatim>\<open>struct mms_message\<close>.

  An enumeration is a datatype with its wire octets (\<open>..._code\<close>) and the partial inverse (\<open>..._of\<close>) that a
  \<^verbatim>\<open>switch\<close> over an octet makes. Where the code stores an octet it has not checked, the field is the octet.
  \<^verbatim>\<open>time_t\<close> and \<^verbatim>\<open>unsigned long\<close> have 64 bits, \<^verbatim>\<open>unsigned int\<close> has 32. The members of the union are
  separate fields, all zero where the PDU is of another type.
\<close>

section \<open>Wire enumerations\<close>

datatype mms_message_type =
    MMS_MESSAGE_TYPE_SEND_REQ
  | MMS_MESSAGE_TYPE_SEND_CONF
  | MMS_MESSAGE_TYPE_NOTIFICATION_IND
  | MMS_MESSAGE_TYPE_NOTIFYRESP_IND
  | MMS_MESSAGE_TYPE_RETRIEVE_CONF
  | MMS_MESSAGE_TYPE_ACKNOWLEDGE_IND
  | MMS_MESSAGE_TYPE_DELIVERY_IND
  | MMS_MESSAGE_TYPE_READ_REC_IND
  | MMS_MESSAGE_TYPE_READ_ORIG_IND

fun message_type_code :: "mms_message_type \<Rightarrow> byte" where
  "message_type_code MMS_MESSAGE_TYPE_SEND_REQ = 128"
| "message_type_code MMS_MESSAGE_TYPE_SEND_CONF = 129"
| "message_type_code MMS_MESSAGE_TYPE_NOTIFICATION_IND = 130"
| "message_type_code MMS_MESSAGE_TYPE_NOTIFYRESP_IND = 131"
| "message_type_code MMS_MESSAGE_TYPE_RETRIEVE_CONF = 132"
| "message_type_code MMS_MESSAGE_TYPE_ACKNOWLEDGE_IND = 133"
| "message_type_code MMS_MESSAGE_TYPE_DELIVERY_IND = 134"
| "message_type_code MMS_MESSAGE_TYPE_READ_REC_IND = 135"
| "message_type_code MMS_MESSAGE_TYPE_READ_ORIG_IND = 136"

definition all_message_type :: "mms_message_type list" where
  "all_message_type = [MMS_MESSAGE_TYPE_SEND_REQ,
     MMS_MESSAGE_TYPE_SEND_CONF,
     MMS_MESSAGE_TYPE_NOTIFICATION_IND,
     MMS_MESSAGE_TYPE_NOTIFYRESP_IND,
     MMS_MESSAGE_TYPE_RETRIEVE_CONF,
     MMS_MESSAGE_TYPE_ACKNOWLEDGE_IND,
     MMS_MESSAGE_TYPE_DELIVERY_IND,
     MMS_MESSAGE_TYPE_READ_REC_IND,
     MMS_MESSAGE_TYPE_READ_ORIG_IND]"

definition message_type_of :: "byte \<Rightarrow> mms_message_type option" where
  "message_type_of b = find (\<lambda>s. message_type_code s = b) all_message_type"

lemma message_type_of_code [simp]: "message_type_of (message_type_code s) = Some s"
  by (cases s) (simp_all add: message_type_of_def all_message_type_def)

lemma message_type_of_Some: "message_type_of b = Some s \<Longrightarrow> b = message_type_code s"
  by (auto simp: message_type_of_def find_Some_iff)

datatype mms_message_rsp_status =
    MMS_MESSAGE_RSP_STATUS_OK
  | MMS_MESSAGE_RSP_STATUS_ERR_UNSPECIFIED
  | MMS_MESSAGE_RSP_STATUS_ERR_SERVICE_DENIED
  | MMS_MESSAGE_RSP_STATUS_ERR_MESSAGE_FORMAT_CORRUPT
  | MMS_MESSAGE_RSP_STATUS_ERR_SENDING_ADDRESS_UNRESOLVED
  | MMS_MESSAGE_RSP_STATUS_ERR_MESSAGE_NOT_FOUND
  | MMS_MESSAGE_RSP_STATUS_ERR_NETWORK_PROBLEM
  | MMS_MESSAGE_RSP_STATUS_ERR_CONTENT_NOT_ACCEPTED
  | MMS_MESSAGE_RSP_STATUS_ERR_UNSUPPORTED_MESSAGE
  | MMS_MESSAGE_RSP_STATUS_ERR_TRANS_FAILURE
  | MMS_MESSAGE_RSP_STATUS_ERR_TRANS_SENDING_ADDRESS_UNRESOLVED
  | MMS_MESSAGE_RSP_STATUS_ERR_TRANS_MESSAGE_NOT_FOUND
  | MMS_MESSAGE_RSP_STATUS_ERR_TRANS_NETWORK_PROBLEM
  | MMS_MESSAGE_RSP_STATUS_ERR_TRANS_PARTIAL_SUCCESS
  | MMS_MESSAGE_RSP_STATUS_ERR_PERM_FAILURE
  | MMS_MESSAGE_RSP_STATUS_ERR_PERM_SERVICE_DENIED
  | MMS_MESSAGE_RSP_STATUS_ERR_PERM_MESSAGE_FORMAT_CORRUPT
  | MMS_MESSAGE_RSP_STATUS_ERR_PERM_SENDING_ADDRESS_UNRESOLVED
  | MMS_MESSAGE_RSP_STATUS_ERR_PERM_MESSAGE_NOT_FOUND
  | MMS_MESSAGE_RSP_STATUS_ERR_PERM_CONTENT_NOT_ACCEPTED
  | MMS_MESSAGE_RSP_STATUS_ERR_PERM_REPLY_CHARGING_LIMIT_NOT_MET
  | MMS_MESSAGE_RSP_STATUS_ERR_PERM_REPLY_CHARGING_REQ_NOT_ACCEPT
  | MMS_MESSAGE_RSP_STATUS_ERR_PERM_REPLY_CHARGING_FORWARD_DENIED
  | MMS_MESSAGE_RSP_STATUS_ERR_PERM_REPLY_CHARGING_NOT_SUPPORTED
  | MMS_MESSAGE_RSP_STATUS_ERR_PERM_ADDRESS_HIDING_NOT_SUPPORTED
  | MMS_MESSAGE_RSP_STATUS_ERR_PERM_LACK_OF_PREPAID

fun rsp_status_code :: "mms_message_rsp_status \<Rightarrow> byte" where
  "rsp_status_code MMS_MESSAGE_RSP_STATUS_OK = 128"
| "rsp_status_code MMS_MESSAGE_RSP_STATUS_ERR_UNSPECIFIED = 129"
| "rsp_status_code MMS_MESSAGE_RSP_STATUS_ERR_SERVICE_DENIED = 130"
| "rsp_status_code MMS_MESSAGE_RSP_STATUS_ERR_MESSAGE_FORMAT_CORRUPT = 131"
| "rsp_status_code MMS_MESSAGE_RSP_STATUS_ERR_SENDING_ADDRESS_UNRESOLVED = 132"
| "rsp_status_code MMS_MESSAGE_RSP_STATUS_ERR_MESSAGE_NOT_FOUND = 133"
| "rsp_status_code MMS_MESSAGE_RSP_STATUS_ERR_NETWORK_PROBLEM = 134"
| "rsp_status_code MMS_MESSAGE_RSP_STATUS_ERR_CONTENT_NOT_ACCEPTED = 135"
| "rsp_status_code MMS_MESSAGE_RSP_STATUS_ERR_UNSUPPORTED_MESSAGE = 136"
| "rsp_status_code MMS_MESSAGE_RSP_STATUS_ERR_TRANS_FAILURE = 192"
| "rsp_status_code MMS_MESSAGE_RSP_STATUS_ERR_TRANS_SENDING_ADDRESS_UNRESOLVED = 193"
| "rsp_status_code MMS_MESSAGE_RSP_STATUS_ERR_TRANS_MESSAGE_NOT_FOUND = 194"
| "rsp_status_code MMS_MESSAGE_RSP_STATUS_ERR_TRANS_NETWORK_PROBLEM = 195"
| "rsp_status_code MMS_MESSAGE_RSP_STATUS_ERR_TRANS_PARTIAL_SUCCESS = 196"
| "rsp_status_code MMS_MESSAGE_RSP_STATUS_ERR_PERM_FAILURE = 224"
| "rsp_status_code MMS_MESSAGE_RSP_STATUS_ERR_PERM_SERVICE_DENIED = 225"
| "rsp_status_code MMS_MESSAGE_RSP_STATUS_ERR_PERM_MESSAGE_FORMAT_CORRUPT = 226"
| "rsp_status_code MMS_MESSAGE_RSP_STATUS_ERR_PERM_SENDING_ADDRESS_UNRESOLVED = 227"
| "rsp_status_code MMS_MESSAGE_RSP_STATUS_ERR_PERM_MESSAGE_NOT_FOUND = 228"
| "rsp_status_code MMS_MESSAGE_RSP_STATUS_ERR_PERM_CONTENT_NOT_ACCEPTED = 229"
| "rsp_status_code MMS_MESSAGE_RSP_STATUS_ERR_PERM_REPLY_CHARGING_LIMIT_NOT_MET = 230"
| "rsp_status_code MMS_MESSAGE_RSP_STATUS_ERR_PERM_REPLY_CHARGING_REQ_NOT_ACCEPT = 231"
| "rsp_status_code MMS_MESSAGE_RSP_STATUS_ERR_PERM_REPLY_CHARGING_FORWARD_DENIED = 232"
| "rsp_status_code MMS_MESSAGE_RSP_STATUS_ERR_PERM_REPLY_CHARGING_NOT_SUPPORTED = 233"
| "rsp_status_code MMS_MESSAGE_RSP_STATUS_ERR_PERM_ADDRESS_HIDING_NOT_SUPPORTED = 234"
| "rsp_status_code MMS_MESSAGE_RSP_STATUS_ERR_PERM_LACK_OF_PREPAID = 235"

definition all_rsp_status :: "mms_message_rsp_status list" where
  "all_rsp_status = [MMS_MESSAGE_RSP_STATUS_OK,
     MMS_MESSAGE_RSP_STATUS_ERR_UNSPECIFIED,
     MMS_MESSAGE_RSP_STATUS_ERR_SERVICE_DENIED,
     MMS_MESSAGE_RSP_STATUS_ERR_MESSAGE_FORMAT_CORRUPT,
     MMS_MESSAGE_RSP_STATUS_ERR_SENDING_ADDRESS_UNRESOLVED,
     MMS_MESSAGE_RSP_STATUS_ERR_MESSAGE_NOT_FOUND,
     MMS_MESSAGE_RSP_STATUS_ERR_NETWORK_PROBLEM,
     MMS_MESSAGE_RSP_STATUS_ERR_CONTENT_NOT_ACCEPTED,
     MMS_MESSAGE_RSP_STATUS_ERR_UNSUPPORTED_MESSAGE,
     MMS_MESSAGE_RSP_STATUS_ERR_TRANS_FAILURE,
     MMS_MESSAGE_RSP_STATUS_ERR_TRANS_SENDING_ADDRESS_UNRESOLVED,
     MMS_MESSAGE_RSP_STATUS_ERR_TRANS_MESSAGE_NOT_FOUND,
     MMS_MESSAGE_RSP_STATUS_ERR_TRANS_NETWORK_PROBLEM,
     MMS_MESSAGE_RSP_STATUS_ERR_TRANS_PARTIAL_SUCCESS,
     MMS_MESSAGE_RSP_STATUS_ERR_PERM_FAILURE,
     MMS_MESSAGE_RSP_STATUS_ERR_PERM_SERVICE_DENIED,
     MMS_MESSAGE_RSP_STATUS_ERR_PERM_MESSAGE_FORMAT_CORRUPT,
     MMS_MESSAGE_RSP_STATUS_ERR_PERM_SENDING_ADDRESS_UNRESOLVED,
     MMS_MESSAGE_RSP_STATUS_ERR_PERM_MESSAGE_NOT_FOUND,
     MMS_MESSAGE_RSP_STATUS_ERR_PERM_CONTENT_NOT_ACCEPTED,
     MMS_MESSAGE_RSP_STATUS_ERR_PERM_REPLY_CHARGING_LIMIT_NOT_MET,
     MMS_MESSAGE_RSP_STATUS_ERR_PERM_REPLY_CHARGING_REQ_NOT_ACCEPT,
     MMS_MESSAGE_RSP_STATUS_ERR_PERM_REPLY_CHARGING_FORWARD_DENIED,
     MMS_MESSAGE_RSP_STATUS_ERR_PERM_REPLY_CHARGING_NOT_SUPPORTED,
     MMS_MESSAGE_RSP_STATUS_ERR_PERM_ADDRESS_HIDING_NOT_SUPPORTED,
     MMS_MESSAGE_RSP_STATUS_ERR_PERM_LACK_OF_PREPAID]"

definition rsp_status_of :: "byte \<Rightarrow> mms_message_rsp_status option" where
  "rsp_status_of b = find (\<lambda>s. rsp_status_code s = b) all_rsp_status"

lemma rsp_status_of_code [simp]: "rsp_status_of (rsp_status_code s) = Some s"
  by (cases s) (simp_all add: rsp_status_of_def all_rsp_status_def)

lemma rsp_status_of_Some: "rsp_status_of b = Some s \<Longrightarrow> b = rsp_status_code s"
  by (auto simp: rsp_status_of_def find_Some_iff)

datatype mms_message_notify_status =
    MMS_MESSAGE_NOTIFY_STATUS_RETRIEVED
  | MMS_MESSAGE_NOTIFY_STATUS_REJECTED
  | MMS_MESSAGE_NOTIFY_STATUS_DEFERRED
  | MMS_MESSAGE_NOTIFY_STATUS_UNRECOGNISED

fun notify_status_code :: "mms_message_notify_status \<Rightarrow> byte" where
  "notify_status_code MMS_MESSAGE_NOTIFY_STATUS_RETRIEVED = 129"
| "notify_status_code MMS_MESSAGE_NOTIFY_STATUS_REJECTED = 130"
| "notify_status_code MMS_MESSAGE_NOTIFY_STATUS_DEFERRED = 131"
| "notify_status_code MMS_MESSAGE_NOTIFY_STATUS_UNRECOGNISED = 132"

definition all_notify_status :: "mms_message_notify_status list" where
  "all_notify_status = [MMS_MESSAGE_NOTIFY_STATUS_RETRIEVED,
     MMS_MESSAGE_NOTIFY_STATUS_REJECTED,
     MMS_MESSAGE_NOTIFY_STATUS_DEFERRED,
     MMS_MESSAGE_NOTIFY_STATUS_UNRECOGNISED]"

definition notify_status_of :: "byte \<Rightarrow> mms_message_notify_status option" where
  "notify_status_of b = find (\<lambda>s. notify_status_code s = b) all_notify_status"

lemma notify_status_of_code [simp]: "notify_status_of (notify_status_code s) = Some s"
  by (cases s) (simp_all add: notify_status_of_def all_notify_status_def)

lemma notify_status_of_Some: "notify_status_of b = Some s \<Longrightarrow> b = notify_status_code s"
  by (auto simp: notify_status_of_def find_Some_iff)

datatype mms_message_delivery_status =
    MMS_MESSAGE_DELIVERY_STATUS_EXPIRED
  | MMS_MESSAGE_DELIVERY_STATUS_RETRIEVED
  | MMS_MESSAGE_DELIVERY_STATUS_REJECTED
  | MMS_MESSAGE_DELIVERY_STATUS_DEFERRED
  | MMS_MESSAGE_DELIVERY_STATUS_UNRECOGNISED
  | MMS_MESSAGE_DELIVERY_STATUS_INDETERMINATE
  | MMS_MESSAGE_DELIVERY_STATUS_FORWARDED
  | MMS_MESSAGE_DELIVERY_STATUS_UNREACHABLE

fun delivery_status_code :: "mms_message_delivery_status \<Rightarrow> byte" where
  "delivery_status_code MMS_MESSAGE_DELIVERY_STATUS_EXPIRED = 128"
| "delivery_status_code MMS_MESSAGE_DELIVERY_STATUS_RETRIEVED = 129"
| "delivery_status_code MMS_MESSAGE_DELIVERY_STATUS_REJECTED = 130"
| "delivery_status_code MMS_MESSAGE_DELIVERY_STATUS_DEFERRED = 131"
| "delivery_status_code MMS_MESSAGE_DELIVERY_STATUS_UNRECOGNISED = 132"
| "delivery_status_code MMS_MESSAGE_DELIVERY_STATUS_INDETERMINATE = 133"
| "delivery_status_code MMS_MESSAGE_DELIVERY_STATUS_FORWARDED = 134"
| "delivery_status_code MMS_MESSAGE_DELIVERY_STATUS_UNREACHABLE = 135"

definition all_delivery_status :: "mms_message_delivery_status list" where
  "all_delivery_status = [MMS_MESSAGE_DELIVERY_STATUS_EXPIRED,
     MMS_MESSAGE_DELIVERY_STATUS_RETRIEVED,
     MMS_MESSAGE_DELIVERY_STATUS_REJECTED,
     MMS_MESSAGE_DELIVERY_STATUS_DEFERRED,
     MMS_MESSAGE_DELIVERY_STATUS_UNRECOGNISED,
     MMS_MESSAGE_DELIVERY_STATUS_INDETERMINATE,
     MMS_MESSAGE_DELIVERY_STATUS_FORWARDED,
     MMS_MESSAGE_DELIVERY_STATUS_UNREACHABLE]"

definition delivery_status_of :: "byte \<Rightarrow> mms_message_delivery_status option" where
  "delivery_status_of b = find (\<lambda>s. delivery_status_code s = b) all_delivery_status"

lemma delivery_status_of_code [simp]: "delivery_status_of (delivery_status_code s) = Some s"
  by (cases s) (simp_all add: delivery_status_of_def all_delivery_status_def)

lemma delivery_status_of_Some: "delivery_status_of b = Some s \<Longrightarrow> b = delivery_status_code s"
  by (auto simp: delivery_status_of_def find_Some_iff)

datatype mms_message_retrieve_status =
    MMS_MESSAGE_RETRIEVE_STATUS_OK
  | MMS_MESSAGE_RETRIEVE_STATUS_ERR_TRANS_FAILURE
  | MMS_MESSAGE_RETRIEVE_STATUS_ERR_TRANS_MESSAGE_NOT_FOUND
  | MMS_MESSAGE_RETRIEVE_STATUS_ERR_TRANS_NETWORK_PROBLEM
  | MMS_MESSAGE_RETRIEVE_STATUS_ERR_PERM_FAILURE
  | MMS_MESSAGE_RETRIEVE_STATUS_ERR_PERM_SERVICE_DENIED
  | MMS_MESSAGE_RETRIEVE_STATUS_ERR_PERM_MESSAGE_NOT_FOUND
  | MMS_MESSAGE_RETRIEVE_STATUS_ERR_PERM_CONTENT_UNSUPPORTED

fun retrieve_status_code :: "mms_message_retrieve_status \<Rightarrow> byte" where
  "retrieve_status_code MMS_MESSAGE_RETRIEVE_STATUS_OK = 128"
| "retrieve_status_code MMS_MESSAGE_RETRIEVE_STATUS_ERR_TRANS_FAILURE = 192"
| "retrieve_status_code MMS_MESSAGE_RETRIEVE_STATUS_ERR_TRANS_MESSAGE_NOT_FOUND = 193"
| "retrieve_status_code MMS_MESSAGE_RETRIEVE_STATUS_ERR_TRANS_NETWORK_PROBLEM = 194"
| "retrieve_status_code MMS_MESSAGE_RETRIEVE_STATUS_ERR_PERM_FAILURE = 224"
| "retrieve_status_code MMS_MESSAGE_RETRIEVE_STATUS_ERR_PERM_SERVICE_DENIED = 225"
| "retrieve_status_code MMS_MESSAGE_RETRIEVE_STATUS_ERR_PERM_MESSAGE_NOT_FOUND = 226"
| "retrieve_status_code MMS_MESSAGE_RETRIEVE_STATUS_ERR_PERM_CONTENT_UNSUPPORTED = 227"

definition all_retrieve_status :: "mms_message_retrieve_status list" where
  "all_retrieve_status = [MMS_MESSAGE_RETRIEVE_STATUS_OK,
     MMS_MESSAGE_RETRIEVE_STATUS_ERR_TRANS_FAILURE,
     MMS_MESSAGE_RETRIEVE_STATUS_ERR_TRANS_MESSAGE_NOT_FOUND,
     MMS_MESSAGE_RETRIEVE_STATUS_ERR_TRANS_NETWORK_PROBLEM,
     MMS_MESSAGE_RETRIEVE_STATUS_ERR_PERM_FAILURE,
     MMS_MESSAGE_RETRIEVE_STATUS_ERR_PERM_SERVICE_DENIED,
     MMS_MESSAGE_RETRIEVE_STATUS_ERR_PERM_MESSAGE_NOT_FOUND,
     MMS_MESSAGE_RETRIEVE_STATUS_ERR_PERM_CONTENT_UNSUPPORTED]"

definition retrieve_status_of :: "byte \<Rightarrow> mms_message_retrieve_status option" where
  "retrieve_status_of b = find (\<lambda>s. retrieve_status_code s = b) all_retrieve_status"

lemma retrieve_status_of_code [simp]: "retrieve_status_of (retrieve_status_code s) = Some s"
  by (cases s) (simp_all add: retrieve_status_of_def all_retrieve_status_def)

lemma retrieve_status_of_Some: "retrieve_status_of b = Some s \<Longrightarrow> b = retrieve_status_code s"
  by (auto simp: retrieve_status_of_def find_Some_iff)

datatype mms_message_read_status =
    MMS_MESSAGE_READ_STATUS_READ
  | MMS_MESSAGE_READ_STATUS_DELETED

fun read_status_code :: "mms_message_read_status \<Rightarrow> byte" where
  "read_status_code MMS_MESSAGE_READ_STATUS_READ = 128"
| "read_status_code MMS_MESSAGE_READ_STATUS_DELETED = 129"

definition all_read_status :: "mms_message_read_status list" where
  "all_read_status = [MMS_MESSAGE_READ_STATUS_READ,
     MMS_MESSAGE_READ_STATUS_DELETED]"

definition read_status_of :: "byte \<Rightarrow> mms_message_read_status option" where
  "read_status_of b = find (\<lambda>s. read_status_code s = b) all_read_status"

lemma read_status_of_code [simp]: "read_status_of (read_status_code s) = Some s"
  by (cases s) (simp_all add: read_status_of_def all_read_status_def)

lemma read_status_of_Some: "read_status_of b = Some s \<Longrightarrow> b = read_status_code s"
  by (auto simp: read_status_of_def find_Some_iff)

datatype mms_message_sender_visibility =
    MMS_MESSAGE_SENDER_VISIBILITY_HIDE
  | MMS_MESSAGE_SENDER_VISIBILITY_SHOW

fun sender_visibility_code :: "mms_message_sender_visibility \<Rightarrow> byte" where
  "sender_visibility_code MMS_MESSAGE_SENDER_VISIBILITY_HIDE = 128"
| "sender_visibility_code MMS_MESSAGE_SENDER_VISIBILITY_SHOW = 129"

definition all_sender_visibility :: "mms_message_sender_visibility list" where
  "all_sender_visibility = [MMS_MESSAGE_SENDER_VISIBILITY_HIDE,
     MMS_MESSAGE_SENDER_VISIBILITY_SHOW]"

definition sender_visibility_of :: "byte \<Rightarrow> mms_message_sender_visibility option" where
  "sender_visibility_of b = find (\<lambda>s. sender_visibility_code s = b) all_sender_visibility"

lemma sender_visibility_of_code [simp]: "sender_visibility_of (sender_visibility_code s) = Some s"
  by (cases s) (simp_all add: sender_visibility_of_def all_sender_visibility_def)

lemma sender_visibility_of_Some: "sender_visibility_of b = Some s \<Longrightarrow> b = sender_visibility_code s"
  by (auto simp: sender_visibility_of_def find_Some_iff)

datatype mms_message_priority =
    MMS_MESSAGE_PRIORITY_LOW
  | MMS_MESSAGE_PRIORITY_NORMAL
  | MMS_MESSAGE_PRIORITY_HIGH

fun priority_code :: "mms_message_priority \<Rightarrow> byte" where
  "priority_code MMS_MESSAGE_PRIORITY_LOW = 128"
| "priority_code MMS_MESSAGE_PRIORITY_NORMAL = 129"
| "priority_code MMS_MESSAGE_PRIORITY_HIGH = 130"

definition all_priority :: "mms_message_priority list" where
  "all_priority = [MMS_MESSAGE_PRIORITY_LOW,
     MMS_MESSAGE_PRIORITY_NORMAL,
     MMS_MESSAGE_PRIORITY_HIGH]"

definition priority_of :: "byte \<Rightarrow> mms_message_priority option" where
  "priority_of b = find (\<lambda>s. priority_code s = b) all_priority"

lemma priority_of_code [simp]: "priority_of (priority_code s) = Some s"
  by (cases s) (simp_all add: priority_of_def all_priority_def)

lemma priority_of_Some: "priority_of b = Some s \<Longrightarrow> b = priority_code s"
  by (auto simp: priority_of_def find_Some_iff)

datatype mms_message_version =
    MMS_MESSAGE_VERSION_1_0
  | MMS_MESSAGE_VERSION_1_1
  | MMS_MESSAGE_VERSION_1_2
  | MMS_MESSAGE_VERSION_1_3

fun version_code :: "mms_message_version \<Rightarrow> byte" where
  "version_code MMS_MESSAGE_VERSION_1_0 = 144"
| "version_code MMS_MESSAGE_VERSION_1_1 = 145"
| "version_code MMS_MESSAGE_VERSION_1_2 = 146"
| "version_code MMS_MESSAGE_VERSION_1_3 = 147"

definition all_version :: "mms_message_version list" where
  "all_version = [MMS_MESSAGE_VERSION_1_0,
     MMS_MESSAGE_VERSION_1_1,
     MMS_MESSAGE_VERSION_1_2,
     MMS_MESSAGE_VERSION_1_3]"

definition version_of :: "byte \<Rightarrow> mms_message_version option" where
  "version_of b = find (\<lambda>s. version_code s = b) all_version"

lemma version_of_code [simp]: "version_of (version_code s) = Some s"
  by (cases s) (simp_all add: version_of_def all_version_def)

lemma version_of_Some: "version_of b = Some s \<Longrightarrow> b = version_code s"
  by (auto simp: version_of_def find_Some_iff)

definition MMS_MESSAGE_CLASS_PERSONAL :: string where "MMS_MESSAGE_CLASS_PERSONAL = ''Personal''"
definition MMS_MESSAGE_CLASS_ADVERTISEMENT :: string where "MMS_MESSAGE_CLASS_ADVERTISEMENT = ''Advertisement''"
definition MMS_MESSAGE_CLASS_INFORMATIONAL :: string where "MMS_MESSAGE_CLASS_INFORMATIONAL = ''Informational''"
definition MMS_MESSAGE_CLASS_AUTO :: string where "MMS_MESSAGE_CLASS_AUTO = ''Auto''"

section \<open>The decoded PDU\<close>

record mms_notification_ind =
  ni_from :: "string option"
  ni_subject :: "string option"
  ni_cls :: "string option"
  ni_size :: u32
  ni_expiry :: u64
  ni_location :: "string option"

record mms_retrieve_conf =
  rc_from :: "string option"
  rc_to :: "string option"
  rc_cc :: "string option"
  rc_subject :: "string option"
  rc_cls :: "string option"
  rc_priority :: byte
  rc_msgid :: "string option"
  rc_date :: u64
  rc_rr :: bool
  rc_retrieve_status :: byte

record mms_send_req =
  sr_to :: "string option"
  sr_cc :: "string option"
  sr_bcc :: "string option"
  sr_subject :: "string option"
  sr_date :: u64
  sr_content_type :: "string option"
  sr_dr :: bool
  sr_rr :: bool

record mms_send_conf =
  sc_rsp_status :: byte
  sc_rsp_text :: "string option"
  sc_msgid :: "string option"

record mms_notification_resp_ind =
  nri_notify_status :: byte

record mms_acknowledge_ind =
  ai_report :: bool

record mms_delivery_ind =
  di_dr_status :: byte
  di_msgid :: "string option"
  di_to :: "string option"
  di_date :: u64

record mms_read_ind =
  ri_rr_status :: byte
  ri_msgid :: "string option"
  ri_to :: "string option"
  ri_from :: "string option"
  ri_date :: u64

text \<open>\<open>at_data\<close> is what the pointer \<^verbatim>\<open>data\<close> gives access to; it is empty (NULL) in a decoded PDU.\<close>

record mms_attachment =
  at_data :: "byte list"
  at_offset :: nat
  at_length :: nat
  at_content_type :: "string option"
  at_content_id :: "string option"
  at_content_location :: "string option"
  at_transfer_encoding :: "string option"

record mms_message =
  m_type :: byte
  m_transaction_id :: "string option"
  m_version :: byte
  m_attachments :: "mms_attachment list"
  m_ni :: mms_notification_ind
  m_rc :: mms_retrieve_conf
  m_sr :: mms_send_req
  m_sc :: mms_send_conf
  m_nri :: mms_notification_resp_ind
  m_di :: mms_delivery_ind
  m_ri :: mms_read_ind
  m_ai :: mms_acknowledge_ind

text \<open>\<^verbatim>\<open>memset(out, 0, sizeof(*out))\<close>, also \<^verbatim>\<open>g_new0(MMSPdu, 1)\<close>.\<close>

definition zero_message :: mms_message where
  "zero_message = \<lparr>m_type = 0, m_transaction_id = None, m_version = 0, m_attachments = [],
     m_ni = \<lparr>ni_from = None, ni_subject = None, ni_cls = None, ni_size = 0, ni_expiry = 0,
       ni_location = None\<rparr>,
     m_rc = \<lparr>rc_from = None, rc_to = None, rc_cc = None, rc_subject = None, rc_cls = None,
       rc_priority = 0, rc_msgid = None, rc_date = 0, rc_rr = False, rc_retrieve_status = 0\<rparr>,
     m_sr = \<lparr>sr_to = None, sr_cc = None, sr_bcc = None, sr_subject = None, sr_date = 0,
       sr_content_type = None, sr_dr = False, sr_rr = False\<rparr>,
     m_sc = \<lparr>sc_rsp_status = 0, sc_rsp_text = None, sc_msgid = None\<rparr>,
     m_nri = \<lparr>nri_notify_status = 0\<rparr>,
     m_di = \<lparr>di_dr_status = 0, di_msgid = None, di_to = None, di_date = 0\<rparr>,
     m_ri = \<lparr>ri_rr_status = 0, ri_msgid = None, ri_to = None, ri_from = None, ri_date = 0\<rparr>,
     m_ai = \<lparr>ai_report = False\<rparr>\<rparr>"

definition zero_attachment :: mms_attachment where
  "zero_attachment = \<lparr>at_data = [], at_offset = 0, at_length = 0, at_content_type = None,
     at_content_id = None, at_content_location = None, at_transfer_encoding = None\<rparr>"

section \<open>Headers\<close>

datatype mms_header =
    MMS_HEADER_BCC
  | MMS_HEADER_CC
  | MMS_HEADER_CONTENT_LOCATION
  | MMS_HEADER_CONTENT_TYPE
  | MMS_HEADER_DATE
  | MMS_HEADER_DELIVERY_REPORT
  | MMS_HEADER_DELIVERY_TIME
  | MMS_HEADER_EXPIRY
  | MMS_HEADER_FROM
  | MMS_HEADER_MESSAGE_CLASS
  | MMS_HEADER_MESSAGE_ID
  | MMS_HEADER_MESSAGE_TYPE
  | MMS_HEADER_MMS_VERSION
  | MMS_HEADER_MESSAGE_SIZE
  | MMS_HEADER_PRIORITY
  | MMS_HEADER_READ_REPORT
  | MMS_HEADER_REPORT_ALLOWED
  | MMS_HEADER_RESPONSE_STATUS
  | MMS_HEADER_RESPONSE_TEXT
  | MMS_HEADER_SENDER_VISIBILITY
  | MMS_HEADER_STATUS
  | MMS_HEADER_SUBJECT
  | MMS_HEADER_TO
  | MMS_HEADER_TRANSACTION_ID
  | MMS_HEADER_RETRIEVE_STATUS
  | MMS_HEADER_RETRIEVE_TEXT
  | MMS_HEADER_READ_STATUS

fun header_code :: "mms_header \<Rightarrow> nat" where
  "header_code MMS_HEADER_BCC = 1"
| "header_code MMS_HEADER_CC = 2"
| "header_code MMS_HEADER_CONTENT_LOCATION = 3"
| "header_code MMS_HEADER_CONTENT_TYPE = 4"
| "header_code MMS_HEADER_DATE = 5"
| "header_code MMS_HEADER_DELIVERY_REPORT = 6"
| "header_code MMS_HEADER_DELIVERY_TIME = 7"
| "header_code MMS_HEADER_EXPIRY = 8"
| "header_code MMS_HEADER_FROM = 9"
| "header_code MMS_HEADER_MESSAGE_CLASS = 10"
| "header_code MMS_HEADER_MESSAGE_ID = 11"
| "header_code MMS_HEADER_MESSAGE_TYPE = 12"
| "header_code MMS_HEADER_MMS_VERSION = 13"
| "header_code MMS_HEADER_MESSAGE_SIZE = 14"
| "header_code MMS_HEADER_PRIORITY = 15"
| "header_code MMS_HEADER_READ_REPORT = 16"
| "header_code MMS_HEADER_REPORT_ALLOWED = 17"
| "header_code MMS_HEADER_RESPONSE_STATUS = 18"
| "header_code MMS_HEADER_RESPONSE_TEXT = 19"
| "header_code MMS_HEADER_SENDER_VISIBILITY = 20"
| "header_code MMS_HEADER_STATUS = 21"
| "header_code MMS_HEADER_SUBJECT = 22"
| "header_code MMS_HEADER_TO = 23"
| "header_code MMS_HEADER_TRANSACTION_ID = 24"
| "header_code MMS_HEADER_RETRIEVE_STATUS = 25"
| "header_code MMS_HEADER_RETRIEVE_TEXT = 26"
| "header_code MMS_HEADER_READ_STATUS = 27"

definition all_headers :: "mms_header list" where
  "all_headers = [MMS_HEADER_BCC,
     MMS_HEADER_CC,
     MMS_HEADER_CONTENT_LOCATION,
     MMS_HEADER_CONTENT_TYPE,
     MMS_HEADER_DATE,
     MMS_HEADER_DELIVERY_REPORT,
     MMS_HEADER_DELIVERY_TIME,
     MMS_HEADER_EXPIRY,
     MMS_HEADER_FROM,
     MMS_HEADER_MESSAGE_CLASS,
     MMS_HEADER_MESSAGE_ID,
     MMS_HEADER_MESSAGE_TYPE,
     MMS_HEADER_MMS_VERSION,
     MMS_HEADER_MESSAGE_SIZE,
     MMS_HEADER_PRIORITY,
     MMS_HEADER_READ_REPORT,
     MMS_HEADER_REPORT_ALLOWED,
     MMS_HEADER_RESPONSE_STATUS,
     MMS_HEADER_RESPONSE_TEXT,
     MMS_HEADER_SENDER_VISIBILITY,
     MMS_HEADER_STATUS,
     MMS_HEADER_SUBJECT,
     MMS_HEADER_TO,
     MMS_HEADER_TRANSACTION_ID,
     MMS_HEADER_RETRIEVE_STATUS,
     MMS_HEADER_RETRIEVE_TEXT,
     MMS_HEADER_READ_STATUS]"

definition header_of :: "nat \<Rightarrow> mms_header option" where
  "header_of n = find (\<lambda>h. header_code h = n) all_headers"

lemma header_of_code [simp]: "header_of (header_code h) = Some h"
  by (cases h) (simp_all add: header_of_def all_headers_def)

lemma header_of_Some: "header_of n = Some h \<Longrightarrow> n = header_code h"
  by (auto simp: header_of_def find_Some_iff)

lemma header_code_inj: "header_code a = header_code b \<Longrightarrow> a = b"
  by (metis header_of_code option.inject)

text \<open>\<^verbatim>\<open>enum mms_part_header\<close> and \<^verbatim>\<open>enum mms_message_value_bool\<close>.\<close>

definition MMS_PART_HEADER_CONTENT_LOCATION :: byte where "MMS_PART_HEADER_CONTENT_LOCATION = 0x0e"
definition MMS_PART_HEADER_CONTENT_DISPOSITION :: byte where "MMS_PART_HEADER_CONTENT_DISPOSITION = 0x2e"
definition MMS_PART_HEADER_CONTENT_ID :: byte where "MMS_PART_HEADER_CONTENT_ID = 0x40"

definition MMS_MESSAGE_VALUE_BOOL_YES :: byte where "MMS_MESSAGE_VALUE_BOOL_YES = 128"
definition MMS_MESSAGE_VALUE_BOOL_NO :: byte where "MMS_MESSAGE_VALUE_BOOL_NO = 129"

end
