(* ===== verification/File_Buffer.thy ===== *)
theory File_Buffer
  imports Mms_Prelude
begin

text \<open>
  The output buffer of the PDU encoder, \<^verbatim>\<open>struct file_buffer\<close> and the \<^verbatim>\<open>fb_*\<close> routines of
  \<^verbatim>\<open>mms-lib/src/mms_codec.c\<close>.

  A routine of the encoder is a function from the buffer to an outcome: the buffer afterwards and its
  result, where \<open>None\<close> is the early \<^verbatim>\<open>return FALSE\<close> (or \<^verbatim>\<open>return NULL\<close>) of the code and \<open>Some\<close> anything else;
  \<open>fb_bind\<close> is the sequence \<^verbatim>\<open>x = f(); if (!x) return FALSE;\<close>. A pointer into \<^verbatim>\<open>fb->buf\<close> is an offset;
  a store through it that leaves the array is \<open>Undef\<close>.

  The descriptor is an \<open>ofile\<close>: the octets written so far, and the results the next calls of \<^verbatim>\<open>write\<close> give
  (an error, interrupted or not, or a count, possibly short); when the list is used up every write
  succeeds in full. Octet counts are natural numbers: the strings and parts of one PDU are assumed to stay
  below the 4 GiB where \<^verbatim>\<open>unsigned int\<close> would wrap.

  The section on contracts says what it means that a routine encodes given octets: it never leaves the
  array, and if it succeeds, the file followed by the pending part of the buffer has grown by exactly these
  octets.
\<close>

section \<open>The file\<close>

datatype write_result =
    W_Error bool  \<comment> \<open>-1; \<open>True\<close> when \<^verbatim>\<open>errno\<close> is \<^verbatim>\<open>EINTR\<close>\<close>
  | W_Count nat

record ofile =
  f_data :: "byte list"
  f_results :: "write_result list"

fun os_write :: "ofile \<Rightarrow> byte list \<Rightarrow> nat option \<times> ofile" where
  "os_write f bs =
     (case f_results f of
        [] \<Rightarrow> (Some (length bs), f\<lparr>f_data := f_data f @ bs\<rparr>)
      | W_Error intr # rs \<Rightarrow> (None, f\<lparr>f_results := rs\<rparr>)
      | W_Count n # rs \<Rightarrow>
          (Some (min n (length bs)),
           f\<lparr>f_data := f_data f @ take n bs, f_results := rs\<rparr>))"

text \<open>\<^verbatim>\<open>TEMP_FAILURE_RETRY(write(...))\<close>: again while interrupted.\<close>

fun drop_interrupts :: "write_result list \<Rightarrow> write_result list" where
  "drop_interrupts (W_Error True # rs) = drop_interrupts rs"
| "drop_interrupts rs = rs"

definition os_write_tfr :: "ofile \<Rightarrow> byte list \<Rightarrow> nat option \<times> ofile" where
  "os_write_tfr f bs = os_write (f\<lparr>f_results := drop_interrupts (f_results f)\<rparr>) bs"

section \<open>The buffer\<close>

definition FB_SIZE :: nat where "FB_SIZE = 256"
definition MAX_ENC_VALUE_BYTES :: nat where "MAX_ENC_VALUE_BYTES = 6"
definition QUOTE :: byte where "QUOTE = 127"

record file_buffer =
  fb_buf :: "byte list"
  fb_size :: nat
  fb_fsize :: nat
  fb_fd :: ofile

type_synonym 'a fbm = "file_buffer \<Rightarrow> ('a option \<times> file_buffer) outcome"

definition fb_return :: "'a \<Rightarrow> 'a fbm" where
  "fb_return x fb = Ret (Some x, fb)"

definition fb_fail :: "'a fbm" where
  "fb_fail fb = Ret (None, fb)"

definition fb_bind :: "'a fbm \<Rightarrow> ('a \<Rightarrow> 'b fbm) \<Rightarrow> 'b fbm" where
  "fb_bind m f fb =
     (case m fb of
        Undef \<Rightarrow> Undef
      | Ret (None, fb') \<Rightarrow> Ret (None, fb')
      | Ret (Some x, fb') \<Rightarrow> f x fb')"

text \<open>\<^verbatim>\<open>memcpy(fb->buf + p, bs, ...)\<close>.\<close>

definition fb_store :: "nat \<Rightarrow> byte list \<Rightarrow> unit fbm" where
  "fb_store p bs fb =
     (if p + length bs \<le> length (fb_buf fb)
      then Ret (Some (), fb\<lparr>fb_buf := overwrite (fb_buf fb) p bs\<rparr>) else Undef)"

text \<open>The array is not initialised: \<open>junk\<close> is what it happens to hold.\<close>

definition fb_init :: "byte list \<Rightarrow> ofile \<Rightarrow> file_buffer" where
  "fb_init junk fd = \<lparr>fb_buf = junk, fb_size = 0, fb_fsize = 0, fb_fd = fd\<rparr>"

definition fb_flush :: "unit fbm" where
  "fb_flush fb =
     (if fb_size fb = 0 then Ret (Some (), fb)
      else case os_write (fb_fd fb) (take (fb_size fb) (fb_buf fb)) of
        (None, fd) \<Rightarrow> Ret (None, fb\<lparr>fb_fd := fd\<rparr>)
      | (Some len, fd) \<Rightarrow>
          if len \<noteq> fb_size fb then Ret (None, fb\<lparr>fb_fd := fd\<rparr>)
          else Ret (Some (), fb\<lparr>fb_fsize := fb_fsize fb + len, fb_size := 0, fb_fd := fd\<rparr>))"

definition fb_get_file_size :: "file_buffer \<Rightarrow> nat" where
  "fb_get_file_size fb = fb_fsize fb + fb_size fb"

definition fb_request :: "nat \<Rightarrow> nat fbm" where
  "fb_request count fb =
     (if fb_size fb + count < FB_SIZE
      then Ret (Some (fb_size fb), fb\<lparr>fb_size := fb_size fb + count\<rparr>)
      else fb_bind fb_flush (\<lambda>_ fb'.
        if count > FB_SIZE then Ret (None, fb')
        else Ret (Some 0, fb'\<lparr>fb_size := count\<rparr>)) fb)"

definition fb_request_field :: "byte \<Rightarrow> nat \<Rightarrow> nat fbm" where
  "fb_request_field token len =
     fb_bind (fb_request (len + 1)) (\<lambda>ptr.
     fb_bind (fb_store ptr [token OR 0x80]) (\<lambda>_.
     fb_return (ptr + 1)))"

definition fb_copy :: "byte list \<Rightarrow> unit fbm" where
  "fb_copy buf =
     fb_bind fb_flush (\<lambda>_ fb.
       case os_write_tfr (fb_fd fb) buf of
         (None, fd) \<Rightarrow> Ret (None, fb\<lparr>fb_fd := fd\<rparr>)
       | (Some written, fd) \<Rightarrow>
           if written \<noteq> length buf then Ret (None, fb\<lparr>fb_fd := fd\<rparr>)
           else Ret (Some (), fb\<lparr>fb_fsize := fb_fsize fb + written, fb_fd := fd\<rparr>))"

text \<open>The common body of \<^verbatim>\<open>fb_put_value_length\<close> and \<^verbatim>\<open>fb_put_uintvar\<close>: \<open>enc val room\<close> is the library's encoder,
  the octets it stores when they fit \<open>room\<close>.\<close>

definition fb_put :: "(nat \<Rightarrow> nat \<Rightarrow> byte list option) \<Rightarrow> nat \<Rightarrow> unit fbm" where
  "fb_put enc val =
     fb_bind (\<lambda>fb. if fb_size fb + MAX_ENC_VALUE_BYTES > FB_SIZE then fb_flush fb else Ret (Some (), fb))
       (\<lambda>_ fb. case enc val (FB_SIZE - fb_size fb) of
          None \<Rightarrow> Ret (None, fb)
        | Some bs \<Rightarrow>
            fb_bind (fb_store (fb_size fb) bs)
              (\<lambda>_ fb'. Ret (Some (), fb'\<lparr>fb_size := fb_size fb' + length bs\<rparr>)) fb)"

section \<open>Contracts\<close>

definition fb_ok :: "file_buffer \<Rightarrow> bool" where
  "fb_ok fb \<longleftrightarrow> length (fb_buf fb) = FB_SIZE \<and> fb_size fb \<le> FB_SIZE"

text \<open>What has been produced so far: the file, then the pending octets of the buffer.\<close>

definition fb_stream :: "file_buffer \<Rightarrow> byte list" where
  "fb_stream fb = f_data (fb_fd fb) @ take (fb_size fb) (fb_buf fb)"

definition no_failures :: "file_buffer \<Rightarrow> bool" where
  "no_failures fb \<longleftrightarrow> f_results (fb_fd fb) = []"

definition grown :: "file_buffer \<Rightarrow> byte list \<Rightarrow> file_buffer \<Rightarrow> bool" where
  "grown fb bs fb' \<longleftrightarrow> fb_stream fb' = fb_stream fb @ bs
     \<and> fb_get_file_size fb' = fb_get_file_size fb + length bs"

definition safe_step :: "'a fbm \<Rightarrow> bool" where
  "safe_step m \<longleftrightarrow> (\<forall>fb. fb_ok fb \<longrightarrow> (\<exists>r fb'. m fb = Ret (r, fb') \<and> fb_ok fb'
     \<and> (no_failures fb \<longrightarrow> no_failures fb')))"

definition encodes :: "unit fbm \<Rightarrow> byte list \<Rightarrow> bool" where
  "encodes m bs \<longleftrightarrow> safe_step m \<and>
     (\<forall>fb fb'. fb_ok fb \<longrightarrow> m fb = Ret (Some (), fb') \<longrightarrow> grown fb bs fb')"

definition never_fails :: "'a fbm \<Rightarrow> bool" where
  "never_fails m \<longleftrightarrow> (\<forall>fb. fb_ok fb \<longrightarrow> no_failures fb \<longrightarrow> (\<exists>x fb'. m fb = Ret (Some x, fb')))"

lemma grown_refl [simp]: "grown fb [] fb"
  by (simp add: grown_def)

lemma grown_trans: "grown fb a fb1 \<Longrightarrow> grown fb1 b fb2 \<Longrightarrow> grown fb (a @ b) fb2"
  by (simp add: grown_def)

lemma fb_bind_Ret:
  "fb_bind m f fb = Ret (Some y, fb2) \<longleftrightarrow>
     (\<exists>x fb1. m fb = Ret (Some x, fb1) \<and> f x fb1 = Ret (Some y, fb2))"
  by (auto simp: fb_bind_def split: outcome.splits option.splits prod.splits)

lemma fb_bind_assoc: "fb_bind (fb_bind m f) g = fb_bind m (\<lambda>x. fb_bind (f x) g)"
  by (rule ext) (auto simp: fb_bind_def split: outcome.splits option.splits prod.splits)

lemma fb_bind_return [simp]: "fb_bind (fb_return x) f = f x"
  by (rule ext) (simp add: fb_bind_def fb_return_def)

lemma fb_bind_fail [simp]: "fb_bind fb_fail f = fb_fail"
  by (rule ext) (simp add: fb_bind_def fb_fail_def)

lemma safe_bind:
  assumes "safe_step m" and "\<And>x. safe_step (f x)"
  shows "safe_step (fb_bind m f)"
  unfolding safe_step_def
proof (intro allI impI)
  fix fb assume ok: "fb_ok fb"
  with assms(1) obtain r fb1 where m: "m fb = Ret (r, fb1)" "fb_ok fb1"
    "no_failures fb \<longrightarrow> no_failures fb1"
    unfolding safe_step_def by blast
  show "\<exists>r fb'. fb_bind m f fb = Ret (r, fb') \<and> fb_ok fb' \<and> (no_failures fb \<longrightarrow> no_failures fb')"
  proof (cases r)
    case None
    with m show ?thesis by (simp add: fb_bind_def)
  next
    case (Some x)
    from assms(2) [of x] m(2) obtain r' fb2 where "f x fb1 = Ret (r', fb2)" "fb_ok fb2"
      "no_failures fb1 \<longrightarrow> no_failures fb2" unfolding safe_step_def by blast
    with m Some show ?thesis by (simp add: fb_bind_def)
  qed
qed

lemma safe_return [simp]: "safe_step (fb_return x)" and safe_fail [simp]: "safe_step fb_fail"
  by (simp_all add: safe_step_def fb_return_def fb_fail_def)

lemma encodes_return [simp]: "encodes (fb_return ()) []"
  by (auto simp: encodes_def) (simp add: fb_return_def)

lemma encodes_fail [simp]: "encodes fb_fail bs"
  by (auto simp: encodes_def) (simp add: fb_fail_def)

lemma encodes_seq:
  assumes "encodes m a" and "encodes n b"
  shows "encodes (fb_bind m (\<lambda>_. n)) (a @ b)"
proof -
  have "safe_step (fb_bind m (\<lambda>_. n))"
    using assms by (intro safe_bind) (auto simp: encodes_def)
  moreover have "grown fb (a @ b) fb2"
    if ok: "fb_ok fb" and run: "fb_bind m (\<lambda>_. n) fb = Ret (Some (), fb2)" for fb fb2
  proof -
    from run obtain fb1 where 1: "m fb = Ret (Some (), fb1)" and 2: "n fb1 = Ret (Some (), fb2)"
      by (auto simp: fb_bind_Ret)
    have "fb_ok fb1" using assms(1) ok 1 by (auto simp: encodes_def safe_step_def)
    with assms ok 1 2 show ?thesis by (meson encodes_def grown_trans)
  qed
  ultimately show ?thesis by (auto simp: encodes_def)
qed

lemma never_fails_bind:
  assumes "never_fails m" and "safe_step m" and "\<And>x. never_fails (f x)"
  shows "never_fails (fb_bind m f)"
  unfolding never_fails_def
proof (intro allI impI)
  fix fb assume fb: "fb_ok fb" "no_failures fb"
  with assms(1) obtain x fb1 where m: "m fb = Ret (Some x, fb1)" unfolding never_fails_def by blast
  with assms(2) fb have "fb_ok fb1" "no_failures fb1" by (auto simp: safe_step_def)
  with assms(3) [of x] m show "\<exists>x fb'. fb_bind m f fb = Ret (Some x, fb')"
    by (auto simp: fb_bind_def never_fails_def)
qed

section \<open>The routines meet their contracts\<close>

lemma safe_store: "p + length bs \<le> FB_SIZE \<Longrightarrow> safe_step (fb_store p bs)"
  by (auto simp: safe_step_def fb_store_def fb_ok_def no_failures_def)

lemma fb_store_append:
  "fb_bind (fb_store p a) (\<lambda>_. fb_store (p + length a) b) = fb_store p (a @ b)"
  by (rule ext) (auto simp: fb_bind_def fb_store_def overwrite_def ac_simps)

text \<open>A second store that covers the end of the first.\<close>

lemma fb_store_overlap:
  assumes "k \<le> length a" and "length a \<le> k + length b"
  shows "fb_bind (fb_store p a) (\<lambda>_. fb_store (p + k) b) = fb_store p (take k a @ b)"
proof (rule ext)
  fix fb
  have "overwrite (overwrite buf p a) (p + k) b = overwrite buf p (take k a @ b)"
    if "p + length a \<le> length buf" for buf :: "byte list"
    using that assms by (simp add: overwrite_def min_absorb1 min_absorb2 ac_simps)
  then show "fb_bind (fb_store p a) (\<lambda>_. fb_store (p + k) b) fb = fb_store p (take k a @ b) fb"
    using assms by (auto simp: fb_bind_def fb_store_def)
qed

lemma os_write_cases:
  obtains fd where "os_write f bs = (None, fd)" "f_results f \<noteq> []"
  | n fd where "os_write f bs = (Some n, fd)" "n \<le> length bs"
      "f_data fd = f_data f @ take n bs" "f_results f = [] \<longrightarrow> n = length bs \<and> f_results fd = []"
proof (cases "f_results f")
  case Nil
  then show ?thesis using that(2) [of "length bs" "f\<lparr>f_data := f_data f @ bs\<rparr>"] by simp
next
  case (Cons r rs)
  show ?thesis
  proof (cases r)
    case (W_Error i)
    then show ?thesis using Cons that(1) by simp
  next
    case (W_Count n)
    have "take (min n (length bs)) bs = take n bs" by (simp add: min_def)
    then show ?thesis
      using Cons W_Count that(2) [of "min n (length bs)" "f\<lparr>f_data := f_data f @ take n bs, f_results := rs\<rparr>"]
      by simp
  qed
qed

lemma fb_flush_cases:
  assumes "fb_ok fb"
  obtains fb' where "fb_flush fb = Ret (None, fb')" "fb_ok fb'" "\<not> no_failures fb"
  | fb' where "fb_flush fb = Ret (Some (), fb')" "fb_ok fb'" "grown fb [] fb'" "fb_size fb' = 0"
      "no_failures fb \<longrightarrow> no_failures fb'"
proof (cases "fb_size fb = 0")
  case True
  then show ?thesis using that(2) [of fb] assms by (simp add: fb_flush_def)
next
  case False
  let ?bs = "take (fb_size fb) (fb_buf fb)"
  have len: "length ?bs = fb_size fb" using assms by (simp add: fb_ok_def)
  show ?thesis
  proof (rule os_write_cases [of "fb_fd fb" ?bs])
    fix fd assume "os_write (fb_fd fb) ?bs = (None, fd)" "f_results (fb_fd fb) \<noteq> []"
    then show ?thesis using False assms that(1) [of "fb\<lparr>fb_fd := fd\<rparr>"]
      by (simp add: fb_flush_def fb_ok_def no_failures_def)
  next
    fix n fd assume w: "os_write (fb_fd fb) ?bs = (Some n, fd)" "n \<le> length ?bs"
      "f_data fd = f_data (fb_fd fb) @ take n ?bs"
      "f_results (fb_fd fb) = [] \<longrightarrow> n = length ?bs \<and> f_results fd = []"
    show ?thesis
    proof (cases "n = fb_size fb")
      case True
      then show ?thesis using False assms w
          that(2) [of "fb\<lparr>fb_fsize := fb_fsize fb + n, fb_size := 0, fb_fd := fd\<rparr>"]
        by (simp add: fb_flush_def fb_ok_def no_failures_def grown_def fb_stream_def fb_get_file_size_def)
    next
      case n: False
      then show ?thesis using False assms w len that(1) [of "fb\<lparr>fb_fd := fd\<rparr>"]
        by (auto simp: fb_flush_def fb_ok_def no_failures_def)
    qed
  qed
qed

lemma encodes_flush [simp]: "encodes fb_flush []"
  unfolding encodes_def safe_step_def
  by (intro conjI allI impI; erule fb_flush_cases; auto)

lemma never_fails_flush [simp]: "never_fails fb_flush"
  unfolding never_fails_def by (intro allI impI; erule fb_flush_cases; auto)

text \<open>A granted request: the pointer, and the buffer up to it, is the old stream.\<close>

lemma fb_request_Some:
  assumes "fb_ok fb" and "fb_request n fb = Ret (Some p, fb')"
  shows "fb_ok fb' \<and> fb_size fb' = p + n \<and> f_data (fb_fd fb') @ take p (fb_buf fb') = fb_stream fb
    \<and> fb_get_file_size fb' = fb_get_file_size fb + n \<and> n \<le> FB_SIZE"
proof (cases "fb_size fb + n < FB_SIZE")
  case True
  with assms show ?thesis
    by (auto simp: fb_request_def fb_ok_def fb_stream_def fb_get_file_size_def)
next
  case False
  with assms(2) obtain fb1 where f: "fb_flush fb = Ret (Some (), fb1)" and n: "n \<le> FB_SIZE"
    and r: "p = 0" "fb' = fb1\<lparr>fb_size := n\<rparr>"
    by (auto simp: fb_request_def fb_bind_Ret split: if_splits)
  from fb_flush_cases [OF assms(1)] f have "fb_ok fb1" "grown fb [] fb1" "fb_size fb1 = 0"
    by (metis Pair_inject option.distinct(1) outcome.inject)+
  with r n show ?thesis
    by (simp add: fb_ok_def grown_def fb_stream_def fb_get_file_size_def)
qed

lemma safe_request [simp]: "safe_step (fb_request n)"
  unfolding safe_step_def
proof (intro allI impI)
  fix fb assume ok: "fb_ok fb"
  show "\<exists>r fb'. fb_request n fb = Ret (r, fb') \<and> fb_ok fb' \<and> (no_failures fb \<longrightarrow> no_failures fb')"
  proof (cases "fb_size fb + n < FB_SIZE")
    case True
    with ok show ?thesis by (auto simp: fb_request_def fb_ok_def no_failures_def)
  next
    case False
    show ?thesis
      by (rule fb_flush_cases [OF ok])
        (use False in \<open>auto simp: fb_request_def fb_bind_def fb_ok_def no_failures_def\<close>)
  qed
qed

lemma never_fails_request: "n \<le> FB_SIZE \<Longrightarrow> never_fails (fb_request n)"
  unfolding never_fails_def
proof (intro allI impI)
  fix fb assume n: "n \<le> FB_SIZE" and ok: "fb_ok fb" and nf: "no_failures fb"
  show "\<exists>x fb'. fb_request n fb = Ret (Some x, fb')"
    by (rule fb_flush_cases [OF ok]) (use n nf in \<open>auto simp: fb_request_def fb_bind_def\<close>)
qed

lemma fb_request_too_big: "n > FB_SIZE \<Longrightarrow> fb_request n fb \<noteq> Ret (Some p, fb')"
  by (auto simp: fb_request_def fb_bind_Ret)

text \<open>Requesting room and filling it appends the octets.\<close>

lemma encodes_fill:
  assumes "length bs = n"
  shows "encodes (fb_bind (fb_request n) (\<lambda>p. fb_store p bs)) bs"
proof -
  have run: "\<exists>r fb2. fb_bind (fb_request n) (\<lambda>p. fb_store p bs) fb = Ret (r, fb2) \<and> fb_ok fb2
      \<and> (no_failures fb \<longrightarrow> no_failures fb2) \<and> (r \<noteq> None \<longrightarrow> grown fb bs fb2)"
    if ok: "fb_ok fb" for fb
  proof -
    obtain r fb1 where rq: "fb_request n fb = Ret (r, fb1)" "fb_ok fb1"
      "no_failures fb \<longrightarrow> no_failures fb1"
      using safe_request [of n] ok by (auto simp: safe_step_def)
    show ?thesis
    proof (cases r)
      case None
      with rq show ?thesis by (simp add: fb_bind_def)
    next
      case (Some p)
      with fb_request_Some [OF ok] rq(1)
      have p: "fb_size fb1 = p + n" "f_data (fb_fd fb1) @ take p (fb_buf fb1) = fb_stream fb"
        "fb_get_file_size fb1 = fb_get_file_size fb + n" by auto
      from rq(2) p(1) assms have room: "p + length bs \<le> length (fb_buf fb1)" by (simp add: fb_ok_def)
      let ?fb2 = "fb1\<lparr>fb_buf := overwrite (fb_buf fb1) p bs\<rparr>"
      from room p assms have "fb_stream ?fb2 = fb_stream fb @ bs"
        using take_overwrite [OF room] by (simp add: fb_stream_def flip: append_assoc)
      with Some rq p assms room show ?thesis
        by (simp add: fb_bind_def fb_store_def fb_ok_def no_failures_def grown_def fb_get_file_size_def)
    qed
  qed
  then show ?thesis by (force simp: encodes_def safe_step_def)
qed

lemma never_fails_fill:
  "length bs = n \<Longrightarrow> n \<le> FB_SIZE \<Longrightarrow> never_fails (fb_bind (fb_request n) (\<lambda>p. fb_store p bs))"
  unfolding never_fails_def
proof (intro allI impI)
  fix fb assume n: "length bs = n" "n \<le> FB_SIZE" and ok: "fb_ok fb" and nf: "no_failures fb"
  from never_fails_request [OF n(2)] ok nf obtain p fb1 where rq: "fb_request n fb = Ret (Some p, fb1)"
    by (auto simp: never_fails_def)
  with fb_request_Some [OF ok rq] n show "\<exists>x fb'. fb_bind (fb_request n) (\<lambda>p. fb_store p bs) fb = Ret (Some x, fb')"
    by (simp add: fb_bind_def fb_store_def fb_ok_def)
qed

lemma request_field_store:
  "fb_bind (fb_request_field t n) (\<lambda>p. fb_store p bs)
     = fb_bind (fb_request (n + 1)) (\<lambda>p. fb_store p ((t OR 0x80) # bs))"
  using fb_store_append [of _ "[t OR 0x80]" bs]
  by (simp add: fb_request_field_def fb_bind_assoc)

lemma encodes_field:
  "length bs = n \<Longrightarrow> encodes (fb_bind (fb_request_field t n) (\<lambda>p. fb_store p bs)) ((t OR 0x80) # bs)"
  unfolding request_field_store by (rule encodes_fill) simp

lemma never_fails_field:
  "length bs = n \<Longrightarrow> n < FB_SIZE \<Longrightarrow>
     never_fails (fb_bind (fb_request_field t n) (\<lambda>p. fb_store p bs))"
  unfolding request_field_store by (rule never_fails_fill) auto

lemma request_field_too_big:
  "n \<ge> FB_SIZE \<Longrightarrow> fb_bind (fb_request_field t n) f fb \<noteq> Ret (Some x, fb')"
  by (auto simp: fb_request_field_def fb_bind_Ret dest: fb_request_too_big [THEN notE, rotated])

text \<open>A field of the token alone, as \<^verbatim>\<open>fb_request_field(fb, header, 0)\<close> leaves it.\<close>

lemma encodes_token: "encodes (fb_bind (fb_request_field t 0) (\<lambda>_. fb_return ())) [t OR 0x80]"
proof -
  have "fb_bind (fb_request_field t 0) (\<lambda>_. fb_return ())
      = fb_bind (fb_request 1) (\<lambda>p. fb_store p [t OR 0x80])"
    by (rule ext) (auto simp: fb_request_field_def fb_bind_def fb_store_def fb_return_def
        split: outcome.splits option.splits prod.splits)
  then show ?thesis using encodes_fill [of "[t OR 0x80]" 1] by simp
qed

lemma safe_request_field: "safe_step (fb_request_field t n)"
  unfolding safe_step_def
proof (intro allI impI)
  fix fb assume ok: "fb_ok fb"
  obtain r fb1 where rq: "fb_request (n + 1) fb = Ret (r, fb1)" "fb_ok fb1"
      "no_failures fb \<longrightarrow> no_failures fb1"
    using safe_request [of "n + 1"] ok by (auto simp: safe_step_def)
  show "\<exists>r fb'. fb_request_field t n fb = Ret (r, fb') \<and> fb_ok fb' \<and> (no_failures fb \<longrightarrow> no_failures fb')"
  proof (cases r)
    case None
    with rq show ?thesis by (simp add: fb_request_field_def fb_bind_def)
  next
    case (Some p)
    from fb_request_Some [OF ok rq(1) [unfolded Some]] have "p + 1 \<le> FB_SIZE"
      by (auto simp: fb_ok_def)
    with Some rq show ?thesis
      by (auto simp: fb_request_field_def fb_bind_def fb_store_def fb_return_def fb_ok_def no_failures_def)
  qed
qed

lemma never_fails_request_field:
  assumes "n < FB_SIZE"
  shows "never_fails (fb_request_field t n)"
  unfolding never_fails_def
proof (intro allI impI)
  fix fb assume ok: "fb_ok fb" and nf: "no_failures fb"
  obtain p fb1 where rq: "fb_request (n + 1) fb = Ret (Some p, fb1)"
    using never_fails_request [of "n + 1"] assms ok nf by (auto simp: never_fails_def)
  with fb_request_Some [OF ok rq] show "\<exists>x fb'. fb_request_field t n fb = Ret (Some x, fb')"
    by (simp add: fb_request_field_def fb_bind_def fb_store_def fb_return_def fb_ok_def)
qed

lemma os_write_tfr_cases:
  obtains fd where "os_write_tfr f bs = (None, fd)" "f_results f \<noteq> []"
  | n fd where "os_write_tfr f bs = (Some n, fd)" "n \<le> length bs"
      "f_data fd = f_data f @ take n bs" "f_results f = [] \<longrightarrow> n = length bs \<and> f_results fd = []"
  unfolding os_write_tfr_def
  by (rule os_write_cases [of "f\<lparr>f_results := drop_interrupts (f_results f)\<rparr>" bs]) force+

lemma fb_copy_run:
  assumes "fb_ok fb"
  shows "\<exists>r fb'. fb_copy bs fb = Ret (r, fb') \<and> fb_ok fb' \<and> (no_failures fb \<longrightarrow> no_failures fb' \<and> r = Some ())
    \<and> (r = Some () \<longrightarrow> grown fb bs fb')"
proof (rule fb_flush_cases [OF assms])
  fix fb1 assume "fb_flush fb = Ret (None, fb1)" "fb_ok fb1" "\<not> no_failures fb"
  then show ?thesis by (simp add: fb_copy_def fb_bind_def)
next
  fix fb1 assume f: "fb_flush fb = Ret (Some (), fb1)" "fb_ok fb1" "grown fb [] fb1" "fb_size fb1 = 0"
    "no_failures fb \<longrightarrow> no_failures fb1"
  show ?thesis
  proof (rule os_write_tfr_cases [of "fb_fd fb1" bs])
    fix fd assume "os_write_tfr (fb_fd fb1) bs = (None, fd)" "f_results (fb_fd fb1) \<noteq> []"
    with f show ?thesis by (auto simp: fb_copy_def fb_bind_def fb_ok_def no_failures_def)
  next
    fix n fd assume w: "os_write_tfr (fb_fd fb1) bs = (Some n, fd)" "n \<le> length bs"
      "f_data fd = f_data (fb_fd fb1) @ take n bs"
      "f_results (fb_fd fb1) = [] \<longrightarrow> n = length bs \<and> f_results fd = []"
    show ?thesis
    proof (cases "n = length bs")
      case True
      with f w show ?thesis
        by (auto simp: fb_copy_def fb_bind_def fb_ok_def no_failures_def grown_def fb_stream_def
            fb_get_file_size_def)
    next
      case False
      with f w show ?thesis by (auto simp: fb_copy_def fb_bind_def fb_ok_def no_failures_def)
    qed
  qed
qed

lemma encodes_copy: "encodes (fb_copy bs) bs" and never_fails_copy: "never_fails (fb_copy bs)"
  using fb_copy_run [of _ bs]
  by (fastforce simp: encodes_def safe_step_def never_fails_def)+

text \<open>What the encoder relies on of \<^verbatim>\<open>wsp_encode_value_length\<close>, \<^verbatim>\<open>wsp_encode_uintvar\<close> and \<^verbatim>\<open>wsp_encode_integer\<close>: the
  octets are a function of the value and fit the room given.\<close>

definition value_encoder :: "(nat \<Rightarrow> nat \<Rightarrow> byte list option) \<Rightarrow> (nat \<Rightarrow> byte list) \<Rightarrow> bool" where
  "value_encoder enc wire \<longleftrightarrow>
     (\<forall>v room bs. enc v room = Some bs \<longrightarrow> bs = wire v \<and> length bs \<le> room)"

lemma encodes_put:
  assumes "value_encoder enc wire"
  shows "encodes (fb_put enc v) (wire v)"
proof -
  let ?m = "\<lambda>fb. if fb_size fb + MAX_ENC_VALUE_BYTES > FB_SIZE then fb_flush fb else Ret (Some (), fb)"
  let ?n = "\<lambda>fb. case enc v (FB_SIZE - fb_size fb) of None \<Rightarrow> Ret (None, fb)
    | Some bs \<Rightarrow> fb_bind (fb_store (fb_size fb) bs)
        (\<lambda>_ fb'. Ret (Some (), fb'\<lparr>fb_size := fb_size fb' + length bs\<rparr>)) fb"
  have m: "encodes ?m []"
    using encodes_flush by (auto simp: encodes_def safe_step_def split: if_splits)
  have run: "\<exists>r fb'. ?n fb = Ret (r, fb') \<and> fb_ok fb' \<and> (no_failures fb \<longrightarrow> no_failures fb')
      \<and> (r = Some () \<longrightarrow> grown fb (wire v) fb')" if ok: "fb_ok fb" for fb
  proof (cases "enc v (FB_SIZE - fb_size fb)")
    case None
    with ok show ?thesis by simp
  next
    case (Some bs)
    with assms have bs: "bs = wire v" "length bs \<le> FB_SIZE - fb_size fb" by (auto simp: value_encoder_def)
    with ok have fit: "fb_size fb + length bs \<le> FB_SIZE" unfolding fb_ok_def by linarith
    with ok have room: "fb_size fb + length bs \<le> length (fb_buf fb)" by (simp add: fb_ok_def)
    with Some ok bs fit show ?thesis
      using take_overwrite [OF room]
      by (simp add: fb_bind_def fb_store_def fb_ok_def no_failures_def grown_def fb_stream_def
          fb_get_file_size_def)
  qed
  then have n: "encodes ?n (wire v)" by (force simp: encodes_def safe_step_def)
  show ?thesis using encodes_seq [OF m n] by (simp add: fb_put_def)
qed

end
