(* ===== verification/Content_Type.thy ===== *)
theory Content_Type
  imports Mms_Prelude
begin

text \<open>
  The HTTP media type parser and printer of \<^verbatim>\<open>mms-lib/src/mms_codec.c\<close>
  (\<^verbatim>\<open>mms_parse_http_content_type\<close> and \<^verbatim>\<open>mms_unparse_http_content_type\<close>), with the three
  character class tables they read.

  The parser walks a \<^verbatim>\<open>const unsigned char*\<close> over a NUL-terminated string. Here the pointer is the rest
  of the string, \<open>peek\<close> is \<^verbatim>\<open>*ptr\<close>, and a NULL pointer is \<open>None\<close>. The \<^verbatim>\<open>GString\<close> a routine appends to is
  passed in and returned. The result is the NULL-terminated array, as a list: type/subtype first, then
  attribute and value in turn.

  The lemmas show that the tables are the classes of the grammar in the comments, that every parsed
  list is well formed, and for which lists the printer is inverted by the parser.
\<close>

section \<open>Character classes\<close>

definition http_token_tab :: "nat list" where
  "http_token_tab = concat [
    [0,0,0,0,0,0,0,0,0,0,0,0,0,0,0,0],
    [0,0,0,0,0,0,0,0,0,0,0,0,0,0,0,0],
    [0,1,0,1,1,1,1,1,0,0,1,1,0,1,1,0],
    [1,1,1,1,1,1,1,1,1,1,0,0,0,0,0,0],
    [0,1,1,1,1,1,1,1,1,1,1,1,1,1,1,1],
    [1,1,1,1,1,1,1,1,1,1,1,0,0,0,1,1],
    [1,1,1,1,1,1,1,1,1,1,1,1,1,1,1,1],
    [1,1,1,1,1,1,1,1,1,1,1,0,1,0,1,0],
    [0,0,0,0,0,0,0,0,0,0,0,0,0,0,0,0],
    [0,0,0,0,0,0,0,0,0,0,0,0,0,0,0,0],
    [0,0,0,0,0,0,0,0,0,0,0,0,0,0,0,0],
    [0,0,0,0,0,0,0,0,0,0,0,0,0,0,0,0],
    [0,0,0,0,0,0,0,0,0,0,0,0,0,0,0,0],
    [0,0,0,0,0,0,0,0,0,0,0,0,0,0,0,0],
    [0,0,0,0,0,0,0,0,0,0,0,0,0,0,0,0],
    [0,0,0,0,0,0,0,0,0,0,0,0,0,0,0,0]]"

definition http_qdtext_tab :: "nat list" where
  "http_qdtext_tab = concat [
    [0,0,0,0,0,0,0,0,0,0,1,0,0,1,0,0],
    [0,0,0,0,0,0,0,0,0,0,0,0,0,0,0,0],
    [1,1,0,1,1,1,1,1,1,1,1,1,1,1,1,1],
    [1,1,1,1,1,1,1,1,1,1,1,1,1,1,1,1],
    [1,1,1,1,1,1,1,1,1,1,1,1,1,1,1,1],
    [1,1,1,1,1,1,1,1,1,1,1,1,1,1,1,1],
    [1,1,1,1,1,1,1,1,1,1,1,1,1,1,1,1],
    [1,1,1,1,1,1,1,1,1,1,1,1,1,1,1,0],
    [1,1,1,1,1,1,1,1,1,1,1,1,1,1,1,1],
    [1,1,1,1,1,1,1,1,1,1,1,1,1,1,1,1],
    [1,1,1,1,1,1,1,1,1,1,1,1,1,1,1,1],
    [1,1,1,1,1,1,1,1,1,1,1,1,1,1,1,1],
    [1,1,1,1,1,1,1,1,1,1,1,1,1,1,1,1],
    [1,1,1,1,1,1,1,1,1,1,1,1,1,1,1,1],
    [1,1,1,1,1,1,1,1,1,1,1,1,1,1,1,1],
    [1,1,1,1,1,1,1,1,1,1,1,1,1,1,1,1]]"

definition http_space_tab :: "nat list" where
  "http_space_tab = concat [
    [0,0,0,0,0,0,0,0,0,1,1,0,0,1,0,0],
    [0,0,0,0,0,0,0,0,0,0,0,0,0,0,0,0],
    [1,0,0,0,0,0,0,0,0,0,0,0,0,0,0,0],
    [0,0,0,0,0,0,0,0,0,0,0,0,0,0,0,0],
    [0,0,0,0,0,0,0,0,0,0,0,0,0,0,0,0],
    [0,0,0,0,0,0,0,0,0,0,0,0,0,0,0,0],
    [0,0,0,0,0,0,0,0,0,0,0,0,0,0,0,0],
    [0,0,0,0,0,0,0,0,0,0,0,0,0,0,0,0],
    [0,0,0,0,0,0,0,0,0,0,0,0,0,0,0,0],
    [0,0,0,0,0,0,0,0,0,0,0,0,0,0,0,0],
    [0,0,0,0,0,0,0,0,0,0,0,0,0,0,0,0],
    [0,0,0,0,0,0,0,0,0,0,0,0,0,0,0,0],
    [0,0,0,0,0,0,0,0,0,0,0,0,0,0,0,0],
    [0,0,0,0,0,0,0,0,0,0,0,0,0,0,0,0],
    [0,0,0,0,0,0,0,0,0,0,0,0,0,0,0,0],
    [0,0,0,0,0,0,0,0,0,0,0,0,0,0,0,0]]"

definition http_token :: "char \<Rightarrow> bool" where
  "http_token c = (http_token_tab ! of_char c \<noteq> 0)"

definition http_qdtext :: "char \<Rightarrow> bool" where
  "http_qdtext c = (http_qdtext_tab ! of_char c \<noteq> 0)"

definition http_space :: "char \<Rightarrow> bool" where
  "http_space c = (http_space_tab ! of_char c \<noteq> 0)"

text \<open>The grammar of the comments over the tables, on octets.\<close>

definition is_ctl :: "nat \<Rightarrow> bool" where
  "is_ctl n = (n \<le> 31 \<or> n = 127)"

definition separators :: "nat list" where
  \<comment> \<open>parentheses, angle brackets, at, comma, semicolon, colon, backslash, double quote, slash,
     square brackets, question mark, equals, curly brackets, SP, HT\<close>
  "separators = [40, 41, 60, 62, 64, 44, 59, 58, 92, 34, 47, 91, 93, 63, 61, 123, 125, 32, 9]"

definition grammar_token :: "nat \<Rightarrow> bool" where
  "grammar_token n = (n \<le> 127 \<and> \<not> is_ctl n \<and> n \<notin> set separators)"

definition is_lws :: "nat \<Rightarrow> bool" where
  "is_lws n = (n = 32 \<or> n = 9 \<or> n = 10 \<or> n = 13)"

definition grammar_qdtext :: "nat \<Rightarrow> bool" where
  \<comment> \<open>TEXT except the double quote; TEXT is any octet except CTLs, but including LWS\<close>
  "grammar_qdtext n = ((\<not> is_ctl n \<or> is_lws n) \<and> n \<noteq> 34)"

lemma http_token_tab_eq:
  "http_token_tab = map (\<lambda>n. if grammar_token n then 1 else 0) [0..<256]"
  by code_simp

lemma http_qdtext_tab_eq:
  "http_qdtext_tab = map (\<lambda>n. if n \<noteq> 9 \<and> grammar_qdtext n then 1 else 0) [0..<256]"
  by code_simp

lemma http_space_tab_eq:
  "http_space_tab = map (\<lambda>n. if is_lws n then 1 else 0) [0..<256]"
  by code_simp

lemma http_token_iff: "http_token c \<longleftrightarrow> grammar_token (of_char c)"
  by (simp add: http_token_def http_token_tab_eq)

lemma http_qdtext_iff:
  "http_qdtext c \<longleftrightarrow> (of_char c :: nat) \<noteq> 9 \<and> grammar_qdtext (of_char c)"
  by (simp add: http_qdtext_def http_qdtext_tab_eq)

lemma http_space_iff: "http_space c \<longleftrightarrow> is_lws (of_char c)"
  by (simp add: http_space_def http_space_tab_eq)

lemma classes_at_NUL [simp]:
  "\<not> http_token NUL" "\<not> http_qdtext NUL" "\<not> http_space NUL"
  by (simp_all add: http_token_iff http_qdtext_iff http_space_iff grammar_token_def grammar_qdtext_def
      is_lws_def is_ctl_def NUL_def)

lemma NUL_not_special [simp]:
  "NUL \<noteq> CHR '';''" "NUL \<noteq> CHR ''=''" "NUL \<noteq> CHR ''/''" "NUL \<noteq> CHR 0x22" "NUL \<noteq> CHR 0x5C"
  "CHR '';'' \<noteq> NUL" "CHR ''='' \<noteq> NUL" "CHR ''/'' \<noteq> NUL" "CHR 0x22 \<noteq> NUL" "CHR 0x5C \<noteq> NUL"
  by (simp_all add: NUL_def)

lemma qdtext_not_NUL [dest]: "http_qdtext c \<Longrightarrow> c \<noteq> NUL"
  and token_not_NUL [dest]: "http_token c \<Longrightarrow> c \<noteq> NUL"
  by auto

lemma token_not_space: "http_token c \<Longrightarrow> \<not> http_space c"
  by (auto simp: http_token_iff http_space_iff grammar_token_def is_lws_def is_ctl_def separators_def)

lemma token_not_special:
  "\<not> http_token CHR '';''" "\<not> http_token CHR ''=''" "\<not> http_token CHR ''/''" "\<not> http_token CHR 0x22"
  "\<not> http_token CHR '' ''" "\<not> http_token CHR 0x5C"
  by (simp_all add: http_token_iff grammar_token_def separators_def)

lemma not_space_special [simp]:
  "\<not> http_space CHR '';''" "\<not> http_space CHR ''=''" "\<not> http_space CHR ''/''" "\<not> http_space CHR 0x22"
  "http_space CHR '' ''"
  by (simp_all add: http_space_iff is_lws_def)

lemma not_qdtext_quote [simp]: "\<not> http_qdtext CHR 0x22"
  by (simp add: http_qdtext_iff grammar_qdtext_def)

lemma qdtext_backslash [simp]: "http_qdtext CHR 0x5C"
  by (simp add: http_qdtext_iff grammar_qdtext_def is_ctl_def)

section \<open>The parser\<close>

fun mms_parse_skip_spaces :: "string \<Rightarrow> string" where
  "mms_parse_skip_spaces [] = []"
| "mms_parse_skip_spaces (c # s) = (if http_space c then mms_parse_skip_spaces s else c # s)"

definition mms_is_http_token :: "string option \<Rightarrow> bool" where
  "mms_is_http_token ptr = (case ptr of None \<Rightarrow> False | Some s \<Rightarrow>
     peek s \<noteq> NUL \<and> (\<forall>c \<in> set (takeWhile (\<lambda>c. c \<noteq> NUL) s). http_token c))"

definition mms_parse_http_token :: "string \<Rightarrow> string \<Rightarrow> string option \<times> string" where
  "mms_parse_http_token ptr token =
     (let p = mms_parse_skip_spaces ptr;
          t = takeWhile http_token p;
          r = dropWhile http_token p
      in (if length t > 0 then Some (mms_parse_skip_spaces r) else None, token @ t))"

text \<open>The loop of \<^verbatim>\<open>mms_parse_quoted_string\<close>, after the opening quote.\<close>

fun quoted_loop :: "string \<Rightarrow> string \<Rightarrow> string \<times> string" where
  "quoted_loop [] value = ([], value)"
| "quoted_loop (c # s) value =
     (if c = CHR 0x5C then
        (case s of [] \<Rightarrow> ([], value)
         | d # s' \<Rightarrow> if d \<noteq> NUL then quoted_loop s' (value @ [d])
                     else (s, value))  \<comment> \<open>the loop condition fails at NUL\<close>
      else if http_qdtext c then quoted_loop s (value @ [c])
      else (c # s, value))"

definition mms_parse_quoted_string :: "string \<Rightarrow> string \<Rightarrow> string option \<times> string" where
  "mms_parse_quoted_string ptr value =
     (let p = mms_parse_skip_spaces ptr in
      if peek p = CHR 0x22 then
        (let (q, v) = quoted_loop (tl p) value in
         (if peek q = CHR 0x22 then Some (mms_parse_skip_spaces (tl q)) else None, v))
      else (None, value))"

lemma length_skip_spaces: "length (mms_parse_skip_spaces s) \<le> length s"
  by (induction s) auto

lemma length_http_token_less:
  "mms_parse_http_token p t = (Some q, t') \<Longrightarrow> length q < length p"
proof -
  assume "mms_parse_http_token p t = (Some q, t')"
  then have ne: "takeWhile http_token (mms_parse_skip_spaces p) \<noteq> []"
    and q: "q = mms_parse_skip_spaces (dropWhile http_token (mms_parse_skip_spaces p))"
    by (auto simp: mms_parse_http_token_def Let_def split: if_splits)
  let ?p = "mms_parse_skip_spaces p"
  have "length (takeWhile http_token ?p) + length (dropWhile http_token ?p) = length ?p"
    by (metis length_append takeWhile_dropWhile_id)
  with ne have "length (dropWhile http_token ?p) < length ?p"
    by (cases "takeWhile http_token ?p") auto
  with q length_skip_spaces show ?thesis
    by (meson le_less_trans order_less_le_trans)
qed

lemma length_quoted_loop: "quoted_loop s v = (r, w) \<Longrightarrow> length r \<le> length s"
  by (induction s v rule: quoted_loop.induct) (auto split: if_splits list.splits)

lemma length_quoted_string_less:
  "mms_parse_quoted_string p t = (Some q, t') \<Longrightarrow> length q < length p"
proof -
  assume *: "mms_parse_quoted_string p t = (Some q, t')"
  let ?p = "mms_parse_skip_spaces p"
  obtain r w where r: "quoted_loop (tl ?p) t = (r, w)" by force
  from * r have "peek ?p = CHR 0x22" "peek r = CHR 0x22" "q = mms_parse_skip_spaces (tl r)"
    by (auto simp: mms_parse_quoted_string_def Let_def split: if_splits)
  moreover from this have "?p \<noteq> []" "r \<noteq> []" by (auto simp: NUL_def)
  moreover have "length r \<le> length (tl ?p)" using r by (rule length_quoted_loop)
  ultimately show ?thesis
    using length_skip_spaces [of "tl r"] length_skip_spaces [of p]
    by (cases ?p; cases r; simp)
qed

text \<open>One iteration of the loop of \<^verbatim>\<open>mms_parse_parameters\<close>, at a semicolon: the next pointer (NULL is
  \<open>None\<close>), token buffer and output, or \<open>None\<close> for the early \<^verbatim>\<open>return FALSE\<close> on a missing equals sign.\<close>

definition param_step ::
  "string \<Rightarrow> string \<Rightarrow> string list \<Rightarrow> (string option \<times> string \<times> string list) option" where
  "param_step ptr token out =
     (case mms_parse_http_token (tl ptr) token of
        (None, token1) \<Rightarrow> Some (None, token1, out)
      | (Some p1, token1) \<Rightarrow>
          if peek p1 = CHR ''='' then
            (let out1 = out @ [token1];
                 p2 = mms_parse_skip_spaces (tl p1) in
             case (if peek p2 = CHR 0x22 then mms_parse_quoted_string p2 []
                   else mms_parse_http_token p2 []) of
               (None, token2) \<Rightarrow> Some (None, token2, out1)
             | (Some p3, token2) \<Rightarrow> Some (Some p3, [], out1 @ [token2]))
          else None)"

lemma param_step_shorter:
  assumes "param_step ptr token out = Some (Some p, t, out')" and "ptr \<noteq> []"
  shows "length p < length ptr"
proof -
  from assms(1) obtain p1 t1 where p1: "mms_parse_http_token (tl ptr) token = (Some p1, t1)"
    by (auto simp: param_step_def split: prod.splits option.splits)
  let ?p2 = "mms_parse_skip_spaces (tl p1)"
  from assms(1) p1 obtain t2 where
    "(if peek ?p2 = CHR 0x22 then mms_parse_quoted_string ?p2 [] else mms_parse_http_token ?p2 [])
       = (Some p, t2)"
    by (auto simp: param_step_def Let_def split: prod.splits option.splits if_splits)
  then have "length p < length ?p2"
    by (auto split: if_splits dest: length_http_token_less length_quoted_string_less)
  moreover have "length p1 < length (tl ptr)" using p1 by (rule length_http_token_less)
  ultimately show ?thesis using length_skip_spaces [of "tl p1"] by simp
qed

function params_loop :: "string option \<Rightarrow> string \<Rightarrow> string list \<Rightarrow> bool \<times> string list" where
  "params_loop None token out = (False, out)"
| "params_loop (Some ptr) token out =
     (if peek ptr = CHR '';'' then
        (case param_step ptr token out of
           None \<Rightarrow> (False, out)
         | Some (p, t, o') \<Rightarrow> params_loop p t o')
      else (peek ptr = NUL, out))"
  by pat_completeness auto
termination
proof (relation "measure (\<lambda>(p, t, out). case p of None \<Rightarrow> 0 | Some s \<Rightarrow> Suc (length s))", goal_cases)
  case (2 ptr token out r p y t o')
  then have "ptr \<noteq> []" by (auto simp: NUL_def)
  with 2 show ?case by (cases p) (auto dest: param_step_shorter)
qed simp

declare params_loop.simps(2) [simp del]

definition mms_parse_parameters :: "string \<Rightarrow> string list \<Rightarrow> bool \<times> string list" where
  "mms_parse_parameters ptr out = params_loop (Some (mms_parse_skip_spaces ptr)) [] out"

definition mms_parse_type :: "string \<Rightarrow> string \<Rightarrow> string option \<times> string" where
  "mms_parse_type ptr token =
     (case mms_parse_http_token ptr token of
        (None, token1) \<Rightarrow> (None, token1)
      | (Some p, token1) \<Rightarrow>
          if peek p = CHR ''/'' then mms_parse_http_token (tl p) (token1 @ [peek p])
          else (None, token1))"

definition mms_parse_http_content_type :: "string \<Rightarrow> string list option" where
  "mms_parse_http_content_type str =
     (case mms_parse_type str [] of
        (None, tmp) \<Rightarrow> None
      | (Some ptr, tmp) \<Rightarrow>
          (let (ok, out) = mms_parse_parameters ptr [tmp] in if ok then Some out else None))"

section \<open>The printer\<close>

text \<open>The characters of a quoted value; those outside \<^verbatim>\<open>http_qdtext\<close> are preceded by a backslash.\<close>

fun quote_value :: "string \<Rightarrow> string" where
  "quote_value [] = []"
| "quote_value (c # s) = (if http_qdtext c then [c] else [CHR 0x5C, c]) @ quote_value s"

definition unparse_value :: "string \<Rightarrow> string" where
  "unparse_value val =
     (if mms_is_http_token (Some val) then val else [CHR 0x22] @ quote_value val @ [CHR 0x22])"

text \<open>The loop over the attribute and value pairs. An attribute without a value makes the code read
  through the terminating NULL of the array.\<close>

fun unparse_loop :: "string \<Rightarrow> string list \<Rightarrow> string outcome" where
  "unparse_loop str [] = Ret str"
| "unparse_loop str [a] = Undef"
| "unparse_loop str (a # v # ct) =
     unparse_loop (str @ ''; '' @ a @ ''='' @ unparse_value v) ct"

definition mms_unparse_http_content_type :: "string list \<Rightarrow> string option outcome" where
  "mms_unparse_http_content_type ct =
     (case ct of [] \<Rightarrow> Ret None
      | t # ps \<Rightarrow> bind_outcome (unparse_loop t ps) (\<lambda>s. Ret (Some s)))"

section \<open>What the parser returns\<close>

definition token_string :: "string \<Rightarrow> bool" where
  "token_string s \<longleftrightarrow> s \<noteq> [] \<and> (\<forall>c \<in> set s. http_token c)"

definition type_string :: "string \<Rightarrow> bool" where
  "type_string s \<longleftrightarrow> takeWhile http_token s \<noteq> [] \<and>
     (case dropWhile http_token s of [] \<Rightarrow> False | c # b \<Rightarrow> c = CHR ''/'' \<and> token_string b)"

lemma type_string_iff:
  "type_string s \<longleftrightarrow> (\<exists>a b. s = a @ ''/'' @ b \<and> token_string a \<and> token_string b)"
proof
  assume t: "type_string s"
  then obtain b where b: "dropWhile http_token s = CHR ''/'' # b" "token_string b"
    and a: "takeWhile http_token s \<noteq> []"
    by (auto simp: type_string_def split: list.splits)
  from b have "s = takeWhile http_token s @ ''/'' @ b"
    by (metis append_Cons append_Nil takeWhile_dropWhile_id)
  moreover have "token_string (takeWhile http_token s)"
    using a by (auto simp: token_string_def dest: set_takeWhileD)
  ultimately show "\<exists>a b. s = a @ ''/'' @ b \<and> token_string a \<and> token_string b" using b by blast
next
  assume "\<exists>a b. s = a @ ''/'' @ b \<and> token_string a \<and> token_string b"
  then obtain a b where s: "s = a @ ''/'' @ b" "token_string a" "token_string b" by blast
  then have "takeWhile http_token s = a \<and> dropWhile http_token s = ''/'' @ b"
    using takeWhile_append_dropWhile_all [of a http_token "''/'' @ b"] token_not_special(3)
    by (simp add: token_string_def)
  with s show "type_string s" by (simp add: type_string_def token_string_def)
qed

text \<open>Attribute and value pairs, each attribute a token and each value without NUL.\<close>

fun params_ok :: "string list \<Rightarrow> bool" where
  "params_ok [] = True"
| "params_ok [a] = False"
| "params_ok (a # v # ps) = (token_string a \<and> cstring v \<and> params_ok ps)"

lemma params_ok_append: "params_ok ps \<Longrightarrow> params_ok (ps @ qs) = params_ok qs"
  by (induction ps rule: params_ok.induct) auto

lemma http_token_result:
  "mms_parse_http_token p t = (Some q, t') \<Longrightarrow> \<exists>u. token_string u \<and> t' = t @ u"
  by (auto simp: mms_parse_http_token_def token_string_def Let_def split: if_splits
      dest: set_takeWhileD)

lemma token_string_cstring: "token_string s \<Longrightarrow> cstring s"
  by (auto simp: token_string_def cstring_def)

lemma quoted_loop_cstring: "quoted_loop s v = (r, w) \<Longrightarrow> cstring v \<Longrightarrow> cstring w"
  by (induction s v rule: quoted_loop.induct) (auto split: if_splits list.splits)

lemma quoted_string_result:
  assumes "mms_parse_quoted_string p [] = (Some q, t')"
  shows "cstring t'"
proof -
  obtain r v where "quoted_loop (tl (mms_parse_skip_spaces p)) [] = (r, v)" by force
  with assms show ?thesis
    using quoted_loop_cstring [of "tl (mms_parse_skip_spaces p)" "[]" r v]
    by (simp add: mms_parse_quoted_string_def Let_def split: if_splits)
qed

lemma param_step_result:
  assumes "param_step ptr token out = Some (Some p, t, out')"
  shows "t = [] \<and> (\<exists>u v. out' = out @ [token @ u, v] \<and> token_string u \<and> cstring v)"
proof -
  from assms obtain p1 t1 where p1: "mms_parse_http_token (tl ptr) token = (Some p1, t1)"
    by (auto simp: param_step_def split: prod.splits option.splits)
  let ?p2 = "mms_parse_skip_spaces (tl p1)"
  from assms p1 obtain t2 where
    p2: "(if peek ?p2 = CHR 0x22 then mms_parse_quoted_string ?p2 [] else mms_parse_http_token ?p2 [])
       = (Some p, t2)" and out': "t = []" "out' = out @ [t1, t2]"
    by (auto simp: param_step_def Let_def split: prod.splits option.splits if_splits)
  have "cstring t2"
    using p2 http_token_result [of ?p2 "[]" p t2]
    by (auto split: if_splits dest: quoted_string_result intro: token_string_cstring)
  with http_token_result [OF p1] out' show ?thesis by auto
qed

lemma params_loop_ok:
  "params_loop p t out = (True, out') \<Longrightarrow> t = [] \<Longrightarrow> params_ok ps \<Longrightarrow> out = ty # ps \<Longrightarrow>
     \<exists>qs. out' = ty # qs \<and> params_ok qs"
proof (induction p t out arbitrary: ps rule: params_loop.induct)
  case (2 ptr token out)
  show ?case
  proof (cases "peek ptr = CHR '';''")
    case False
    with 2 show ?thesis by (auto simp: params_loop.simps(2))
  next
    case True
    obtain q t1 o1 where st: "param_step ptr token out = Some (Some q, t1, o1)"
      and run: "params_loop (Some q) t1 o1 = (True, out')"
    proof (cases "param_step ptr token out")
      case None
      with 2(2) True have False by (simp add: params_loop.simps(2))
      then show ?thesis ..
    next
      case (Some r)
      obtain p t1 o1 where r: "r = (p, t1, o1)" by (cases r)
      with 2(2) True Some have "params_loop p t1 o1 = (True, out')"
        by (simp add: params_loop.simps(2))
      with Some r that show ?thesis by (cases p) auto
    qed
    from param_step_result [OF st] obtain u v where
      "t1 = []" "o1 = ty # (ps @ [u, v])" "token_string u" "cstring v"
      using 2(3,5) by auto
    with 2(1) [OF True st refl refl run, of "ps @ [u, v]"] 2(4) show ?thesis
      by (simp add: params_ok_append)
  qed
qed simp

lemma type_result: "mms_parse_type s [] = (Some q, t) \<Longrightarrow> type_string t"
proof -
  assume *: "mms_parse_type s [] = (Some q, t)"
  then obtain p t1 where p: "mms_parse_http_token s [] = (Some p, t1)"
    and q: "mms_parse_http_token (tl p) (t1 @ [peek p]) = (Some q, t)" and sl: "peek p = CHR ''/''"
    by (auto simp: mms_parse_type_def split: prod.splits option.splits if_splits)
  from http_token_result [OF p] http_token_result [OF q] sl show ?thesis
    by (auto simp: type_string_iff)
qed

definition content_type_ok :: "string list \<Rightarrow> bool" where
  "content_type_ok ct = (case ct of [] \<Rightarrow> False | t # ps \<Rightarrow> type_string t \<and> params_ok ps)"

lemma parse_content_type_ok:
  assumes "mms_parse_http_content_type s = Some ct"
  shows "content_type_ok ct"
proof -
  obtain ptr tmp where ty: "mms_parse_type s [] = (Some ptr, tmp)"
    and run: "params_loop (Some (mms_parse_skip_spaces ptr)) [] [tmp] = (True, ct)"
    using assms
    by (auto simp: mms_parse_http_content_type_def mms_parse_parameters_def Let_def
        split: prod.splits option.splits if_splits)
  from params_loop_ok [OF run refl, of "[]" tmp] type_result [OF ty] show ?thesis
    by (auto simp: content_type_ok_def)
qed

lemma unparse_loop_defined: "params_ok ps \<Longrightarrow> unparse_loop s ps \<noteq> Undef"
  by (induction s ps rule: unparse_loop.induct) auto

section \<open>Parsing what was printed\<close>

lemma skip_spaces_stop: "(s = [] \<or> \<not> http_space (hd s)) \<Longrightarrow> mms_parse_skip_spaces s = s"
  by (cases s) auto

lemma parse_token_string:
  assumes "token_string u" and "r = [] \<or> \<not> http_token (hd r)"
  shows "mms_parse_http_token (u @ r) t = (Some (mms_parse_skip_spaces r), t @ u)"
    and "mms_parse_http_token (CHR '' '' # u @ r) t = (Some (mms_parse_skip_spaces r), t @ u)"
proof -
  obtain c u' where u: "u = c # u'" "http_token c"
    using assms(1) by (cases u) (auto simp: token_string_def)
  have sk: "mms_parse_skip_spaces (u @ r) = u @ r"
    using u token_not_space by (simp add: skip_spaces_stop)
  have "takeWhile http_token (u @ r) = u \<and> dropWhile http_token (u @ r) = r"
    by (rule takeWhile_append_dropWhile_all) (use assms in \<open>auto simp: token_string_def\<close>)
  with sk u(1) show "mms_parse_http_token (u @ r) t = (Some (mms_parse_skip_spaces r), t @ u)"
    by (simp add: mms_parse_http_token_def)
  with sk show "mms_parse_http_token (CHR '' '' # u @ r) t = (Some (mms_parse_skip_spaces r), t @ u)"
    by (simp add: mms_parse_http_token_def)
qed

lemma quoted_loop_quote_value:
  "cstring v \<Longrightarrow> CHR 0x5C \<notin> set v \<Longrightarrow>
     quoted_loop (quote_value v @ CHR 0x22 # r) w = (CHR 0x22 # r, w @ v)"
  by (induction v arbitrary: w) auto

lemma parse_quoted_value:
  assumes "cstring v" and "CHR 0x5C \<notin> set v"
  shows "mms_parse_quoted_string (CHR 0x22 # quote_value v @ CHR 0x22 # r) []
    = (Some (mms_parse_skip_spaces r), v)"
  using quoted_loop_quote_value [OF assms, of r "[]"]
  by (simp add: mms_parse_quoted_string_def NUL_def)

lemma is_http_token_iff:
  assumes "cstring v"
  shows "mms_is_http_token (Some v) = token_string v"
proof -
  have tw: "takeWhile (\<lambda>c. c \<noteq> NUL) v = v"
    using assms by (auto simp: cstring_def takeWhile_eq_all_conv)
  have pk: "peek v \<noteq> NUL \<longleftrightarrow> v \<noteq> []" using assms by (cases v) auto
  show ?thesis
    unfolding mms_is_http_token_def token_string_def option.case tw using pk by simp
qed

text \<open>A parameter whose value has no backslash, as printed, is read back by one iteration.\<close>

lemma param_step_printed:
  assumes "token_string a" and "cstring v" and "CHR 0x5C \<notin> set v"
    and r: "r = [] \<or> hd r = CHR '';''"
  shows "param_step (''; '' @ a @ ''='' @ unparse_value v @ r) [] out = Some (Some r, [], out @ [a, v])"
proof -
  have r': "r = [] \<or> \<not> http_token (hd r)" "mms_parse_skip_spaces r = r"
    using r token_not_special by (auto simp: skip_spaces_stop)
  let ?w = "unparse_value v @ r"
  have a: "mms_parse_http_token (CHR '' '' # a @ ''='' @ ?w) [] = (Some (''='' @ ?w), a)"
    using parse_token_string(2) [OF assms(1), of "''='' @ ?w" "[]"] token_not_special by simp
  show ?thesis
  proof (cases "token_string v")
    case True
    then obtain c v' where v: "v = c # v'" "http_token c" by (cases v) (auto simp: token_string_def)
    then have "c \<noteq> CHR 0x22" using token_not_special by auto
    with True v assms(2) parse_token_string(1) [OF True r'(1), of "[]"] r'(2) a token_not_space
    show ?thesis
      by (simp add: param_step_def unparse_value_def is_http_token_iff skip_spaces_stop)
  next
    case False
    with assms a parse_quoted_value [OF assms(2,3), of r] r'(2) show ?thesis
      by (simp add: param_step_def unparse_value_def is_http_token_iff)
  qed
qed

fun no_backslash :: "string list \<Rightarrow> bool" where
  "no_backslash [] = True"
| "no_backslash [a] = True"
| "no_backslash (a # v # ps) = (CHR 0x5C \<notin> set v \<and> no_backslash ps)"

text \<open>The printed parameters alone.\<close>

fun print_params :: "string list \<Rightarrow> string" where
  "print_params (a # v # ps) = ''; '' @ a @ ''='' @ unparse_value v @ print_params ps"
| "print_params ps = []"

lemma unparse_loop_print: "params_ok ps \<Longrightarrow> unparse_loop s ps = Ret (s @ print_params ps)"
  by (induction ps arbitrary: s rule: params_ok.induct) auto

lemma print_params_start: "print_params ps = [] \<or> hd (print_params ps) = CHR '';''"
  by (cases ps rule: print_params.cases) auto

lemma params_loop_printed:
  "params_ok ps \<Longrightarrow> no_backslash ps \<Longrightarrow>
     params_loop (Some (print_params ps)) [] out = (True, out @ ps)"
proof (induction ps arbitrary: out rule: params_ok.induct)
  case (3 a v ps)
  then show ?case
    using param_step_printed [of a v "print_params ps" out] print_params_start [of ps]
    by (simp add: params_loop.simps(2))
qed (auto simp: params_loop.simps(2) NUL_def)

lemma parse_type_printed:
  assumes "type_string t" and r: "r = [] \<or> hd r = CHR '';''"
  shows "mms_parse_type (t @ r) [] = (Some r, t)"
proof -
  from assms(1) obtain a b where t: "t = a @ ''/'' @ b" "token_string a" "token_string b"
    by (auto simp: type_string_iff)
  have r': "r = [] \<or> \<not> http_token (hd r)" "mms_parse_skip_spaces r = r"
    using r token_not_special by (auto simp: skip_spaces_stop)
  from parse_token_string(1) [OF t(2), of "''/'' @ b @ r" "[]"] token_not_special
  have "mms_parse_http_token (t @ r) [] = (Some (''/'' @ b @ r), a)"
    by (simp add: t)
  with parse_token_string(1) [OF t(3) r'(1), of "a @ ''/''"] r'(2) show ?thesis
    by (simp add: mms_parse_type_def t)
qed

lemma parse_unparse:
  assumes "content_type_ok (t # ps)" and "no_backslash ps"
  shows "\<exists>s. mms_unparse_http_content_type (t # ps) = Ret (Some s)
             \<and> mms_parse_http_content_type s = Some (t # ps)"
proof -
  from assms(1) have t: "type_string t" and ps: "params_ok ps"
    by (auto simp: content_type_ok_def)
  have "mms_parse_type (t @ print_params ps) [] = (Some (print_params ps), t)"
    by (rule parse_type_printed [OF t print_params_start])
  moreover have "mms_parse_skip_spaces (print_params ps) = print_params ps"
    using print_params_start [of ps] by (auto simp: skip_spaces_stop)
  ultimately have "mms_parse_http_content_type (t @ print_params ps) = Some (t # ps)"
    using params_loop_printed [OF ps assms(2), of "[t]"]
    by (simp add: mms_parse_http_content_type_def mms_parse_parameters_def)
  then show ?thesis by (simp add: mms_unparse_http_content_type_def unparse_loop_print [OF ps])
qed

section \<open>Properties\<close>

text \<open>The token, qdtext and space tables are the character classes of the grammar quoted above them,
  with one exception: HT is linear white space and therefore TEXT, but not in the qdtext table.\<close>

theorem tables_match_grammar:
  "http_token c = grammar_token (of_char c)
   \<and> http_space c = is_lws (of_char c)
   \<and> (http_qdtext c = grammar_qdtext (of_char c)) = ((of_char c :: nat) \<noteq> 9)"
  by (cases "(of_char c :: nat) = 9")
    (simp_all add: http_token_iff http_space_iff http_qdtext_iff grammar_qdtext_def is_lws_def)

text \<open>Whatever the parser accepts is a type/subtype followed by complete attribute and value pairs,
  and printing it never reads past the end of the array.\<close>

theorem parsed_content_type_printable:
  assumes "mms_parse_http_content_type s = Some ct"
  shows "content_type_ok ct \<and> (\<exists>t. mms_unparse_http_content_type ct = Ret (Some t))"
proof -
  have ok: "content_type_ok ct" by (rule parse_content_type_ok [OF assms])
  then obtain t ps where "ct = t # ps" "params_ok ps"
    by (auto simp: content_type_ok_def split: list.splits)
  then show ?thesis using ok by (simp add: mms_unparse_http_content_type_def unparse_loop_print)
qed

theorem parsed_content_type_printable_witness:
  "mms_parse_http_content_type ''text/html; charset=ISO-8859-4''
     = Some [''text/html'', ''charset'', ''ISO-8859-4'']
   \<and> content_type_ok [''text/html'', ''charset'', ''ISO-8859-4'']"
proof -
  have p: "mms_parse_http_content_type ''text/html; charset=ISO-8859-4''
     = Some [''text/html'', ''charset'', ''ISO-8859-4'']"
    by code_simp
  show ?thesis using p parsed_content_type_printable [OF p] by simp
qed

text \<open>C1. Printing a well-formed content type whose parameter values contain no backslash and parsing the
  result gives the same list back.\<close>

theorem content_type_roundtrip:
  assumes "content_type_ok (t # ps)" and "no_backslash ps"
  shows "\<exists>s. mms_unparse_http_content_type (t # ps) = Ret (Some s)
             \<and> mms_parse_http_content_type s = Some (t # ps)"
  using assms by (rule parse_unparse)

theorem content_type_roundtrip_witness:
  "content_type_ok [''a/b'', ''name'', ''x y'']
   \<and> (\<exists>s. mms_unparse_http_content_type [''a/b'', ''name'', ''x y''] = Ret (Some s)
         \<and> mms_parse_http_content_type s = Some [''a/b'', ''name'', ''x y''])"
proof -
  have ok: "content_type_ok [''a/b'', ''name'', ''x y'']"
    by code_simp
  show ?thesis using ok content_type_roundtrip [OF ok] by simp
qed

lemma quoted_loop_prefix:
  "cstring v \<Longrightarrow> CHR 0x5C \<notin> set v \<Longrightarrow> quoted_loop (quote_value v @ r) w = quoted_loop r (w @ v)"
  by (induction v arbitrary: w) auto

lemma quote_value_append: "quote_value (u @ v) = quote_value u @ quote_value v"
  by (induction u) auto

lemma parse_printed_quoted:
  assumes "type_string t" and "token_string a" and "\<not> token_string v" and "cstring v"
  shows "\<exists>s. mms_unparse_http_content_type [t, a, v] = Ret (Some s) \<and>
    mms_parse_http_content_type s =
      (case mms_parse_quoted_string (CHR 0x22 # quote_value v @ [CHR 0x22]) [] of
         (None, _) \<Rightarrow> None
       | (Some r, v') \<Rightarrow> (let (ok, out) = params_loop (Some r) [] [t, a, v'] in if ok then Some out else None))"
proof -
  let ?q = "CHR 0x22 # quote_value v @ [CHR 0x22]"
  let ?r = "''; '' @ a @ ''='' @ ?q"
  have a: "mms_parse_http_token (CHR '' '' # a @ ''='' @ ?q) [] = (Some (''='' @ ?q), a)"
    using parse_token_string(2) [OF assms(2), of "''='' @ ?q" "[]"] token_not_special by simp
  have ty: "mms_parse_type (t @ ?r) [] = (Some ?r, t)"
    by (rule parse_type_printed [OF assms(1)]) simp
  have un: "mms_unparse_http_content_type [t, a, v] = Ret (Some (t @ ?r))"
    using assms(3,4) by (simp add: mms_unparse_http_content_type_def unparse_value_def is_http_token_iff)
  show ?thesis
    using un ty a
    by (auto simp: mms_parse_http_content_type_def mms_parse_parameters_def params_loop.simps(2)
        param_step_def split: prod.splits option.splits)
qed

text \<open>A backslash in a parameter value does not survive printing and parsing: \<^verbatim>\<open>http_qdtext\<close> marks it as
  plain text, so the printer does not escape it and the parser takes it for an escape. An inner backslash
  is dropped, and a value that ends in one makes the whole content type unparsable.\<close>

theorem backslash_not_preserved:
  assumes "type_string t" and "token_string a" and "cstring u" and "CHR 0x5C \<notin> set u"
    and "http_qdtext c" and "c \<noteq> CHR 0x5C" and "cstring w" and "CHR 0x5C \<notin> set w"
  shows "(\<exists>s. mms_unparse_http_content_type [t, a, u @ [CHR 0x5C]] = Ret (Some s)
             \<and> mms_parse_http_content_type s = None)
       \<and> (\<exists>s. mms_unparse_http_content_type [t, a, u @ [CHR 0x5C] @ c # w] = Ret (Some s)
             \<and> mms_parse_http_content_type s = Some [t, a, u @ c # w])"
proof
  have bs: "NUL \<noteq> CHR 0x5C" "NUL \<noteq> CHR 0x22" by (simp_all add: NUL_def)
  let ?v = "u @ [CHR 0x5C]"
  have "\<not> token_string ?v" "cstring ?v"
    using assms(3) token_not_special bs by (auto simp: token_string_def)
  from parse_printed_quoted [OF assms(1,2) this]
  show "\<exists>s. mms_unparse_http_content_type [t, a, ?v] = Ret (Some s) \<and> mms_parse_http_content_type s = None"
    using quoted_loop_prefix [OF assms(3,4), of "[CHR 0x5C, CHR 0x22]" "[]"] bs
    by (auto simp: mms_parse_quoted_string_def quote_value_append)
  let ?v = "u @ [CHR 0x5C] @ c # w"
  have "\<not> token_string ?v" "cstring ?v"
    using assms(3,5,7) token_not_special bs by (auto simp: token_string_def)
  from parse_printed_quoted [OF assms(1,2) this]
  show "\<exists>s. mms_unparse_http_content_type [t, a, ?v] = Ret (Some s)
      \<and> mms_parse_http_content_type s = Some [t, a, u @ c # w]"
    using quoted_loop_prefix [OF assms(3,4), of "CHR 0x5C # c # quote_value w @ [CHR 0x22]" "[]"]
      quoted_loop_quote_value [OF assms(7,8), of "[]" "u @ [c]"] bs assms(5) qdtext_not_NUL [OF assms(5)]
    by (auto simp: mms_parse_quoted_string_def quote_value_append params_loop.simps(2))
qed

theorem backslash_not_preserved_witness:
  "(\<exists>s. mms_unparse_http_content_type [''a/b'', ''name'', ''x'' @ [CHR 0x5C]] = Ret (Some s)
       \<and> mms_parse_http_content_type s = None)
   \<and> (\<exists>s. mms_unparse_http_content_type [''a/b'', ''name'', ''x'' @ [CHR 0x5C] @ ''y''] = Ret (Some s)
       \<and> mms_parse_http_content_type s = Some [''a/b'', ''name'', ''xy''])"
proof -
  have h: "type_string ''a/b''" "token_string ''name''" "cstring ''x''" "CHR 0x5C \<notin> set ''x''"
    "http_qdtext CHR ''y''" "CHR ''y'' \<noteq> CHR 0x5C" "cstring []" "CHR 0x5C \<notin> set []"
    by code_simp+
  show ?thesis using backslash_not_preserved [OF h] by simp
qed

end
