(* ===== verification/Pdu_Encoder.thy ===== *)
theory Pdu_Encoder
  imports Pdu File_Buffer Content_Type
begin

text \<open>
  The PDU encoder of \<^verbatim>\<open>mms-lib/src/mms_codec.c\<close>: the field encoders, the headers of one part, the four
  PDUs the engine sends (M-Send.req, M-NotifyResp.ind, M-Acknowledge.ind, M-Read-Rec.ind) and
  \<^verbatim>\<open>mms_message_encode\<close>.

  \<^verbatim>\<open>wsputil\<close> (libwspcodec) is not part of the repository: its value encoders, its tables of well-known content
  types and charsets and its parameter tokens are the fields of the record \<open>wsp_encoders\<close>, an argument of
  every definition that uses them.

  Each field encoder is proved to encode a plain list of octets, its \<open>wire_*\<close> function. The locale
  \<open>header_encoder\<close> is the contract behind the function pointer \<^verbatim>\<open>header_encoder\<close>.
\<close>

section \<open>The WSP library\<close>

record wsp_encoders =
  wsp_encode_value_length :: "nat \<Rightarrow> nat \<Rightarrow> byte list option"  \<comment> \<open>value, room\<close>
  wsp_encode_uintvar :: "nat \<Rightarrow> nat \<Rightarrow> byte list option"
  wsp_encode_integer :: "nat \<Rightarrow> nat \<Rightarrow> byte list option"
  wsp_get_well_known_content_type :: "string \<Rightarrow> u32 option"
  wsp_get_well_known_charset :: "string \<Rightarrow> u32 option"
  WSP_PARAMETER_TYPE_CHARSET :: byte
  WSP_PARAMETER_TYPE_CONTENT_TYPE :: byte
  WSP_PARAMETER_TYPE_NAME_DEFUNCT :: byte
  WSP_PARAMETER_TYPE_FILENAME_DEFUNCT :: byte
  WSP_PARAMETER_TYPE_START_DEFUNCT :: byte

text \<open>What is relied on: the value encoders store a function of the value that fits the room, and a value
  length or an integer has at least one octet.\<close>

record wsp_wire =
  w_value_length :: "nat \<Rightarrow> byte list"
  w_uintvar :: "nat \<Rightarrow> byte list"
  w_integer :: "nat \<Rightarrow> byte list"

definition wsp_encoders_ok :: "wsp_encoders \<Rightarrow> wsp_wire \<Rightarrow> bool" where
  "wsp_encoders_ok w x \<longleftrightarrow> value_encoder (wsp_encode_value_length w) (w_value_length x)
     \<and> value_encoder (wsp_encode_uintvar w) (w_uintvar x)
     \<and> value_encoder (wsp_encode_integer w) (w_integer x)
     \<and> (\<forall>v. w_value_length x v \<noteq> []) \<and> (\<forall>v. w_integer x v \<noteq> [])"

lemma wsp_encode_nonempty:
  "wsp_encoders_ok w x \<Longrightarrow> wsp_encode_integer w n room = Some v \<Longrightarrow> v \<noteq> []"
  "wsp_encoders_ok w x \<Longrightarrow> wsp_encode_value_length w n room = Some v \<Longrightarrow> v \<noteq> []"
  unfolding wsp_encoders_ok_def value_encoder_def by metis+

section \<open>Field encoders\<close>

text \<open>What the \<^verbatim>\<open>void*\<close> points to. \<^verbatim>\<open>encode_short\<close> reads an \<^verbatim>\<open>unsigned int\<close>; the callers pass enumerations and,
  for the version, an octet followed by padding, of which a little-endian machine uses the low octet only.\<close>

datatype hdata =
    H_Text "string option"
  | H_Uint u32
  | H_Bool bool
  | H_Date u64

definition encode_short :: "byte \<Rightarrow> hdata \<Rightarrow> unit fbm" where
  "encode_short header user =
     (case user of H_Uint wk \<Rightarrow>
        fb_bind (fb_request_field header 1) (\<lambda>ptr. fb_store ptr [ucast wk OR 0x80])
      | _ \<Rightarrow> (\<lambda>fb. Undef))"

definition encode_boolean :: "byte \<Rightarrow> hdata \<Rightarrow> unit fbm" where
  "encode_boolean header user =
     (case user of H_Bool value \<Rightarrow>
        fb_bind (fb_request_field header 1) (\<lambda>ptr.
          fb_store ptr [if value then MMS_MESSAGE_VALUE_BOOL_YES else MMS_MESSAGE_VALUE_BOOL_NO])
      | _ \<Rightarrow> (\<lambda>fb. Undef))"

definition encode_from :: "byte \<Rightarrow> hdata \<Rightarrow> unit fbm" where
  "encode_from header user =
     (case user of H_Text (Some text) \<Rightarrow>
        if length text > 0 then fb_fail
        else fb_bind (fb_request_field header 2) (\<lambda>ptr. 
             fb_bind (fb_store ptr [1]) (\<lambda>_. fb_store (ptr + 1) [0x81]))
      | _ \<Rightarrow> (\<lambda>fb. Undef))"

text \<open>The octets of a \<^verbatim>\<open>time_t\<close>, most significant first, and without its leading zeros (one octet stays).\<close>

definition date_octets :: "u64 \<Rightarrow> byte list" where
  "date_octets date = map (\<lambda>i. ucast (drop_bit (8 * (7 - i)) date)) [0..<8]"

fun skip_zero_octets :: "byte list \<Rightarrow> byte list" where
  "skip_zero_octets (x # y # xs) = (if x = 0 then skip_zero_octets (y # xs) else x # y # xs)"
| "skip_zero_octets xs = xs"

definition encode_date :: "byte \<Rightarrow> hdata \<Rightarrow> unit fbm" where
  "encode_date header user =
     (case user of H_Date date \<Rightarrow>
        (let octets = skip_zero_octets (date_octets date); len = length octets in
         fb_bind (fb_request_field header (len + 1)) (\<lambda>ptr.
         fb_bind (fb_store ptr [of_nat len]) (\<lambda>_.
         fb_store (ptr + 1) octets)))
      | _ \<Rightarrow> (\<lambda>fb. Undef))"

definition encode_text :: "byte \<Rightarrow> hdata \<Rightarrow> unit fbm" where
  "encode_text header user =
     (case user of
        H_Text None \<Rightarrow> fb_return ()
      | H_Text (Some text) \<Rightarrow>
          (let len = length text + 1 + (if high_first text then 1 else 0) in
           fb_bind (fb_request_field header len) (\<lambda>ptr.
             if high_first text
             then fb_bind (fb_store ptr [QUOTE]) (\<lambda>_. fb_store (ptr + 1) (strz text))
             else fb_store ptr (strz text)))
      | _ \<Rightarrow> (\<lambda>fb. Undef))"

definition encode_utf8_string :: "wsp_encoders \<Rightarrow> byte \<Rightarrow> hdata \<Rightarrow> unit fbm" where
  "encode_utf8_string w header user =
     (case user of
        H_Text None \<Rightarrow> fb_return ()
      | H_Text (Some text) \<Rightarrow>
          (let len = 1 + length text + 1 + (if high_first text then 1 else 0) in
           fb_bind (fb_request_field header 0) (\<lambda>_.
           fb_bind (fb_put (wsp_encode_value_length w) len) (\<lambda>_.
           fb_bind (fb_request len) (\<lambda>ptr.
           fb_bind (fb_store ptr [106 OR 0x80]) (\<lambda>_.
             if high_first text
             then fb_bind (fb_store (ptr + 1) [QUOTE]) (\<lambda>_. fb_store (ptr + 1 + 1) (strz text))
             else fb_store (ptr + 1) (strz text))))))
      | _ \<Rightarrow> (\<lambda>fb. Undef))"

definition encode_content_id :: "byte \<Rightarrow> hdata \<Rightarrow> unit fbm" where
  "encode_content_id header user =
     (case user of
        H_Text None \<Rightarrow> fb_return ()
      | H_Text (Some text) \<Rightarrow>
          (let len = length text + 1 in
           fb_bind (fb_request_field header (len + 3)) (\<lambda>ptr.
           fb_bind (fb_store ptr [0x22]) (\<lambda>_.
           fb_bind (fb_store (ptr + 1) [0x3C]) (\<lambda>_.
           fb_bind (fb_store (ptr + 2) (strz text)) (\<lambda>_.
           fb_bind (fb_store (ptr + len + 1) [0x3E]) (\<lambda>_.
           fb_store (ptr + len + 2) [0]))))))
      | _ \<Rightarrow> (\<lambda>fb. Undef))"

fun encode_texts :: "byte \<Rightarrow> string list \<Rightarrow> unit fbm" where
  "encode_texts header [] = fb_return ()"
| "encode_texts header (t # ts) =
     fb_bind (encode_text header (H_Text (Some t))) (\<lambda>_. encode_texts header ts)"

definition encode_text_array_element :: "byte \<Rightarrow> hdata \<Rightarrow> unit fbm" where
  "encode_text_array_element header user =
     (case user of
        H_Text None \<Rightarrow> fb_return ()
      | H_Text (Some text) \<Rightarrow> encode_texts header (g_strsplit text CHR '','')
      | _ \<Rightarrow> (\<lambda>fb. Undef))"

text \<open>The parameters of the content type that are sent: the token and the value.\<close>

fun content_type_pars :: "wsp_encoders \<Rightarrow> string list \<Rightarrow> (byte \<times> string) list" where
  "content_type_pars w (attribute # val # ps) =
     (if ascii_caseeq attribute ''type'' then
        (WSP_PARAMETER_TYPE_CONTENT_TYPE w, val) # content_type_pars w ps
      else if ascii_caseeq attribute ''start'' then
        (WSP_PARAMETER_TYPE_START_DEFUNCT w, val) # content_type_pars w ps
      else content_type_pars w ps)"
| "content_type_pars w ps = []"

fun encode_pars :: "(byte \<times> string) list \<Rightarrow> unit fbm" where
  "encode_pars [] = fb_return ()"
| "encode_pars ((token, val) # ps) =
     fb_bind (fb_request_field token (length val + 1)) (\<lambda>ptr.
     fb_bind (fb_store ptr (strz val)) (\<lambda>_. encode_pars ps))"

definition encode_content_type :: "wsp_encoders \<Rightarrow> byte \<Rightarrow> hdata \<Rightarrow> unit fbm" where
  "encode_content_type w header user =
     (case user of H_Text (Some hdr) \<Rightarrow>
        (case mms_parse_http_content_type hdr of
           None \<Rightarrow> fb_fail
         | Some [] \<Rightarrow> (\<lambda>fb. Undef)
         | Some (ct_str # params) \<Rightarrow>
             (let ct = wsp_get_well_known_content_type w ct_str;
                  ct_len = (case ct of Some _ \<Rightarrow> 1 | None \<Rightarrow> length ct_str + 1);
                  par = content_type_pars w params;
                  len = ct_len + sum_list (map (\<lambda>(t, v). 1 + length v + 1) par)
              in
              if len = 1 then encode_short header (H_Uint (the ct))
              else
                fb_bind (fb_request 1) (\<lambda>ptr.
                fb_bind (fb_store ptr [header OR 0x80]) (\<lambda>_.
                fb_bind (fb_put (wsp_encode_value_length w) len) (\<lambda>_.
                fb_bind (fb_request ct_len) (\<lambda>ptr.
                fb_bind (case ct of Some c \<Rightarrow> fb_store ptr [ucast c OR 0x80]
                                  | None \<Rightarrow> fb_store ptr (strz ct_str)) (\<lambda>_.
                encode_pars par))))))) 
      | _ \<Rightarrow> (\<lambda>fb. Undef))"


section \<open>The table of encoders\<close>

type_synonym header_encoder_fn = "byte \<Rightarrow> hdata \<Rightarrow> unit fbm"

fun encoder_for_type :: "wsp_encoders \<Rightarrow> mms_header \<Rightarrow> header_encoder_fn option" where
  "encoder_for_type w MMS_HEADER_BCC = Some encode_text_array_element"
| "encoder_for_type w MMS_HEADER_CC = Some encode_text_array_element"
| "encoder_for_type w MMS_HEADER_CONTENT_LOCATION = None"
| "encoder_for_type w MMS_HEADER_CONTENT_TYPE = Some (encode_content_type w)"
| "encoder_for_type w MMS_HEADER_DATE = Some encode_date"
| "encoder_for_type w MMS_HEADER_DELIVERY_REPORT = Some encode_boolean"
| "encoder_for_type w MMS_HEADER_DELIVERY_TIME = None"
| "encoder_for_type w MMS_HEADER_EXPIRY = None"
| "encoder_for_type w MMS_HEADER_FROM = Some encode_from"
| "encoder_for_type w MMS_HEADER_MESSAGE_CLASS = None"
| "encoder_for_type w MMS_HEADER_MESSAGE_ID = Some encode_text"
| "encoder_for_type w MMS_HEADER_MESSAGE_TYPE = Some encode_short"
| "encoder_for_type w MMS_HEADER_MMS_VERSION = Some encode_short"
| "encoder_for_type w MMS_HEADER_MESSAGE_SIZE = None"
| "encoder_for_type w MMS_HEADER_PRIORITY = None"
| "encoder_for_type w MMS_HEADER_READ_REPORT = Some encode_boolean"
| "encoder_for_type w MMS_HEADER_REPORT_ALLOWED = Some encode_boolean"
| "encoder_for_type w MMS_HEADER_RESPONSE_STATUS = None"
| "encoder_for_type w MMS_HEADER_RESPONSE_TEXT = None"
| "encoder_for_type w MMS_HEADER_SENDER_VISIBILITY = None"
| "encoder_for_type w MMS_HEADER_STATUS = Some encode_short"
| "encoder_for_type w MMS_HEADER_SUBJECT = Some (encode_utf8_string w)"
| "encoder_for_type w MMS_HEADER_TO = Some encode_text_array_element"
| "encoder_for_type w MMS_HEADER_TRANSACTION_ID = Some encode_text"
| "encoder_for_type w MMS_HEADER_RETRIEVE_STATUS = Some encode_short"
| "encoder_for_type w MMS_HEADER_RETRIEVE_TEXT = None"
| "encoder_for_type w MMS_HEADER_READ_STATUS = Some encode_short"

text \<open>The variable arguments up to \<^verbatim>\<open>MMS_HEADER_INVALID\<close> are a list; \<open>None\<close> is a NULL data pointer.\<close>

fun mms_encode_headers ::
  "(mms_header \<Rightarrow> header_encoder_fn option) \<Rightarrow> (mms_header \<times> hdata option) list \<Rightarrow> unit fbm" where
  "mms_encode_headers table [] = fb_return ()"
| "mms_encode_headers table ((header, data) # args) =
     (case table header of
        None \<Rightarrow> fb_fail
      | Some encoder \<Rightarrow>
          fb_bind (case data of None \<Rightarrow> fb_return () | Some d \<Rightarrow> encoder (of_nat (header_code header)) d)
            (\<lambda>_. mms_encode_headers table args))"

section \<open>The headers of one part\<close>

text \<open>The first half of \<^verbatim>\<open>mms_encode_send_req_part_header\<close> computes lengths and the values of fixed size, the second
  half writes. \<open>ps_len\<close> is the length it announces, \<open>ps_cs_val\<close> and \<open>ps_cd_val\<close> are empty when \<^verbatim>\<open>cs_len\<close> and
  \<^verbatim>\<open>cd_len\<close> are zero.\<close>

record part_sizes =
  ps_len :: nat
  ps_ct :: "u32 option"
  ps_ct_str :: string
  ps_ct_len :: nat
  ps_ctp_val :: "byte list"
  ps_cs_val :: "byte list"
  ps_name :: "string option"
  ps_cloc_len :: nat
  ps_cd_val :: "byte list"

fun part_param_loop ::
  "wsp_encoders \<Rightarrow> string list \<Rightarrow> nat \<times> byte list \<times> string option
     \<Rightarrow> (nat \<times> byte list \<times> string option) option" where
  "part_param_loop w (key # val # ps) (len, cs_val, name) =
     (if ascii_caseeq ''charset'' key then
        (case wsp_get_well_known_charset w val of
           None \<Rightarrow> None
         | Some cs \<Rightarrow>
             (case wsp_encode_integer w (unat cs) MAX_ENC_VALUE_BYTES of
                None \<Rightarrow> None
              | Some v \<Rightarrow> part_param_loop w ps (len + 1 + length v, v, name)))
      else if ascii_caseeq ''name'' key then
        part_param_loop w ps
          (len + 2 + length val + (if high_first val then 1 else 0), cs_val, Some val)
      else part_param_loop w ps (len, cs_val, name))"
| "part_param_loop w ps st = Some st"

definition part_cloc_len :: "mms_attachment \<Rightarrow> nat" where
  "part_cloc_len part =
     (case at_content_location part of
        None \<Rightarrow> 0
      | Some loc \<Rightarrow> length loc + (if high_first loc then 1 else 0))"

definition part_header_sizes :: "wsp_encoders \<Rightarrow> mms_attachment \<Rightarrow> part_sizes option outcome" where
  "part_header_sizes w part =
     (case at_content_type part of None \<Rightarrow> Undef | Some content_type \<Rightarrow>
      case mms_parse_http_content_type content_type of
        None \<Rightarrow> Ret None
      | Some [] \<Rightarrow> Undef
      | Some (ct_str # params) \<Rightarrow> Ret
          (let ct = wsp_get_well_known_content_type w ct_str;
               ct_len = (case ct of Some _ \<Rightarrow> 1 | None \<Rightarrow> length ct_str + 1)
           in
           Option.bind (part_param_loop w params (ct_len, [], None)) (\<lambda>(len, cs_val, name).
           Option.bind (wsp_encode_value_length w len MAX_ENC_VALUE_BYTES) (\<lambda>ctp_val.
             let cloc_len = part_cloc_len part;
                 len = len + length ctp_val;
                 len = len + (case at_content_id part of None \<Rightarrow> 0 | Some c \<Rightarrow> 1 + length c + 3 + 1);
                 len = len + (case at_content_location part of None \<Rightarrow> 0 | Some c \<Rightarrow> cloc_len + 2)
             in
             if ct_str \<noteq> ''application/smil'' \<and> at_content_location part \<noteq> None then
               Option.bind (wsp_encode_value_length w (2 + cloc_len + 1) MAX_ENC_VALUE_BYTES) (\<lambda>cd_val.
                 Some \<lparr>ps_len = len + (1 + length cd_val + 2 + cloc_len + 1), ps_ct = ct,
                   ps_ct_str = ct_str, ps_ct_len = ct_len, ps_ctp_val = ctp_val, ps_cs_val = cs_val,
                   ps_name = name, ps_cloc_len = cloc_len, ps_cd_val = cd_val\<rparr>)
             else
               Some \<lparr>ps_len = len, ps_ct = ct, ps_ct_str = ct_str, ps_ct_len = ct_len,
                 ps_ctp_val = ctp_val, ps_cs_val = cs_val, ps_name = name, ps_cloc_len = cloc_len,
                 ps_cd_val = []\<rparr>))))"

definition part_header_write :: "wsp_encoders \<Rightarrow> mms_attachment \<Rightarrow> part_sizes \<Rightarrow> unit fbm" where
  "part_header_write w part s =
     fb_bind (fb_put (wsp_encode_uintvar w) (ps_len s)) (\<lambda>_.
     fb_bind (fb_put (wsp_encode_uintvar w) (at_length part)) (\<lambda>_.
     fb_bind (fb_bind (fb_request (length (ps_ctp_val s))) (\<lambda>ptr. fb_store ptr (ps_ctp_val s))) (\<lambda>_.
     fb_bind (fb_bind (fb_request (ps_ct_len s)) (\<lambda>ptr.
       case ps_ct s of Some c \<Rightarrow> fb_store ptr [ucast c OR 0x80]
                     | None \<Rightarrow> fb_store ptr (strz (ps_ct_str s)))) (\<lambda>_.
     fb_bind (if ps_cs_val s \<noteq> [] then
         fb_bind (fb_request_field (WSP_PARAMETER_TYPE_CHARSET w) (length (ps_cs_val s))) (\<lambda>ptr.
           fb_store ptr (ps_cs_val s))
       else fb_return ()) (\<lambda>_.
     fb_bind (case ps_name s of None \<Rightarrow> fb_return ()
       | Some n \<Rightarrow> encode_text (WSP_PARAMETER_TYPE_NAME_DEFUNCT w) (H_Text (Some n))) (\<lambda>_.
     fb_bind (encode_content_id MMS_PART_HEADER_CONTENT_ID (H_Text (at_content_id part))) (\<lambda>_.
     fb_bind (encode_text MMS_PART_HEADER_CONTENT_LOCATION (H_Text (at_content_location part))) (\<lambda>_.
     if ps_cd_val s \<noteq> [] then
       (case at_content_location part of
          None \<Rightarrow> (\<lambda>fb. Undef)
        | Some loc \<Rightarrow>
            (let cd_len = length (ps_cd_val s) in
             fb_bind (fb_request_field MMS_PART_HEADER_CONTENT_DISPOSITION (cd_len + ps_cloc_len s + 3)) (\<lambda>ptr.
             fb_bind (fb_store ptr (ps_cd_val s)) (\<lambda>_.
             fb_bind (fb_store (ptr + cd_len) [0x81]) (\<lambda>_.
             fb_bind (fb_store (ptr + cd_len + 1) [WSP_PARAMETER_TYPE_FILENAME_DEFUNCT w OR 0x80]) (\<lambda>_.
             fb_bind (fb_store (ptr + cd_len + 2) (strz loc)) (\<lambda>_.
             fb_store (ptr + cd_len + 2 + ps_cloc_len s) [0])))))))
     else fb_return ()))))))))"

definition mms_encode_send_req_part_header :: "wsp_encoders \<Rightarrow> mms_attachment \<Rightarrow> unit fbm" where
  "mms_encode_send_req_part_header w part =
     (case part_header_sizes w part of
        Undef \<Rightarrow> (\<lambda>fb. Undef)
      | Ret None \<Rightarrow> fb_fail
      | Ret (Some s) \<Rightarrow> part_header_write w part s)"


section \<open>PDUs\<close>

text \<open>\<^verbatim>\<open>part->offset\<close> is the size of the file and the buffer before the data; the copy reads \<^verbatim>\<open>part->length\<close> octets
  from \<^verbatim>\<open>part->data\<close>. The updated part is the result (it is not visible when the encoder fails).\<close>

definition mms_encode_send_req_part :: "wsp_encoders \<Rightarrow> mms_attachment \<Rightarrow> mms_attachment fbm" where
  "mms_encode_send_req_part w part =
     fb_bind (mms_encode_send_req_part_header w part) (\<lambda>_ fb.
       (let part' = part\<lparr>at_offset := fb_get_file_size fb\<rparr> in
        if at_length part > length (at_data part) then Undef
        else fb_bind (fb_copy (take (at_length part) (at_data part))) (\<lambda>_. fb_return part') fb))"

fun encode_parts :: "wsp_encoders \<Rightarrow> mms_attachment list \<Rightarrow> mms_attachment list fbm" where
  "encode_parts w [] = fb_return []"
| "encode_parts w (item # items) =
     fb_bind (mms_encode_send_req_part w item) (\<lambda>part.
     fb_bind (encode_parts w items) (\<lambda>parts. fb_return (part # parts)))"

definition notify_resp_args :: "mms_message \<Rightarrow> (mms_header \<times> hdata option) list" where
  "notify_resp_args msg =
     [(MMS_HEADER_MESSAGE_TYPE, Some (H_Uint (ucast (m_type msg)))),
      (MMS_HEADER_TRANSACTION_ID, Some (H_Text (m_transaction_id msg))),
      (MMS_HEADER_MMS_VERSION, Some (H_Uint (ucast (m_version msg)))),
      (MMS_HEADER_STATUS, Some (H_Uint (ucast (nri_notify_status (m_nri msg)))))]"

definition mms_encode_notify_resp_ind :: "wsp_encoders \<Rightarrow> mms_message \<Rightarrow> unit fbm" where
  "mms_encode_notify_resp_ind w msg =
     fb_bind (mms_encode_headers (encoder_for_type w) (notify_resp_args msg)) (\<lambda>_. fb_flush)"

definition acknowledge_args :: "mms_message \<Rightarrow> (mms_header \<times> hdata option) list" where
  "acknowledge_args msg =
     [(MMS_HEADER_MESSAGE_TYPE, Some (H_Uint (ucast (m_type msg)))),
      (MMS_HEADER_TRANSACTION_ID, Some (H_Text (m_transaction_id msg))),
      (MMS_HEADER_MMS_VERSION, Some (H_Uint (ucast (m_version msg)))),
      (MMS_HEADER_REPORT_ALLOWED, Some (H_Bool (ai_report (m_ai msg))))]"

definition mms_encode_acknowledge_ind :: "wsp_encoders \<Rightarrow> mms_message \<Rightarrow> unit fbm" where
  "mms_encode_acknowledge_ind w msg =
     fb_bind (mms_encode_headers (encoder_for_type w) (acknowledge_args msg)) (\<lambda>_. fb_flush)"

definition read_rec_args :: "mms_message \<Rightarrow> (mms_header \<times> hdata option) list" where
  "read_rec_args msg =
     [(MMS_HEADER_MESSAGE_TYPE, Some (H_Uint (ucast (m_type msg)))),
      (MMS_HEADER_MMS_VERSION, Some (H_Uint (ucast (m_version msg)))),
      (MMS_HEADER_MESSAGE_ID, Some (H_Text (ri_msgid (m_ri msg)))),
      (MMS_HEADER_TO, Some (H_Text (ri_to (m_ri msg)))),
      (MMS_HEADER_FROM, Some (H_Text (Some []))),
      (MMS_HEADER_DATE, Some (H_Date (ri_date (m_ri msg)))),
      (MMS_HEADER_READ_STATUS, Some (H_Uint (ucast (ri_rr_status (m_ri msg)))))]"

definition mms_encode_read_rec_ind :: "wsp_encoders \<Rightarrow> mms_message \<Rightarrow> unit fbm" where
  "mms_encode_read_rec_ind w msg =
     fb_bind (mms_encode_headers (encoder_for_type w) (read_rec_args msg)) (\<lambda>_. fb_flush)"

definition send_req_args :: "mms_message \<Rightarrow> (mms_header \<times> hdata option) list" where
  "send_req_args msg =
     [(MMS_HEADER_MESSAGE_TYPE, Some (H_Uint (ucast (m_type msg)))),
      (MMS_HEADER_TRANSACTION_ID, Some (H_Text (m_transaction_id msg))),
      (MMS_HEADER_MMS_VERSION, Some (H_Uint (ucast (m_version msg)))),
      (MMS_HEADER_FROM, Some (H_Text (Some []))),
      (MMS_HEADER_TO, Some (H_Text (sr_to (m_sr msg)))),
      (MMS_HEADER_CC, Some (H_Text (sr_cc (m_sr msg)))),
      (MMS_HEADER_BCC, Some (H_Text (sr_bcc (m_sr msg)))),
      (MMS_HEADER_SUBJECT, Some (H_Text (sr_subject (m_sr msg)))),
      (MMS_HEADER_DELIVERY_REPORT, Some (H_Bool (sr_dr (m_sr msg)))),
      (MMS_HEADER_READ_REPORT, Some (H_Bool (sr_rr (m_sr msg)))),
      (MMS_HEADER_CONTENT_TYPE, Some (H_Text (sr_content_type (m_sr msg))))]"

definition mms_encode_send_req :: "wsp_encoders \<Rightarrow> mms_message \<Rightarrow> mms_message fbm" where
  "mms_encode_send_req w msg =
     fb_bind (mms_encode_headers (encoder_for_type w) (send_req_args msg)) (\<lambda>_.
       if m_attachments msg = [] then fb_bind fb_flush (\<lambda>_. fb_return msg)
       else
         fb_bind (fb_put (wsp_encode_uintvar w) (length (m_attachments msg))) (\<lambda>_.
         fb_bind (encode_parts w (m_attachments msg)) (\<lambda>parts.
         fb_bind fb_flush (\<lambda>_. fb_return (msg\<lparr>m_attachments := parts\<rparr>)))))"

text \<open>The result is the file afterwards and, on success, the message with the offsets of its parts.\<close>

definition mms_message_encode ::
  "wsp_encoders \<Rightarrow> byte list \<Rightarrow> mms_message \<Rightarrow> ofile \<Rightarrow> (mms_message option \<times> ofile) outcome" where
  "mms_message_encode w junk msg fd =
     (let fb = fb_init junk fd;
          unchanged = (\<lambda>m. fb_bind m (\<lambda>_. fb_return msg));
          m = (case message_type_of (m_type msg) of
                 Some MMS_MESSAGE_TYPE_SEND_REQ \<Rightarrow> mms_encode_send_req w msg
               | Some MMS_MESSAGE_TYPE_NOTIFYRESP_IND \<Rightarrow> unchanged (mms_encode_notify_resp_ind w msg)
               | Some MMS_MESSAGE_TYPE_ACKNOWLEDGE_IND \<Rightarrow> unchanged (mms_encode_acknowledge_ind w msg)
               | Some MMS_MESSAGE_TYPE_READ_REC_IND \<Rightarrow> unchanged (mms_encode_read_rec_ind w msg)
               | _ \<Rightarrow> fb_fail)
      in case m fb of Undef \<Rightarrow> Undef | Ret (r, fb') \<Rightarrow> Ret (r, fb_fd fb'))"

section \<open>The octets on the wire\<close>

definition wire_quote :: "string \<Rightarrow> byte list" where
  "wire_quote t = (if high_first t then [QUOTE] else [])"

definition wire_text :: "byte \<Rightarrow> string option \<Rightarrow> byte list" where
  "wire_text header t = (case t of None \<Rightarrow> [] | Some t \<Rightarrow> (header OR 0x80) # wire_quote t @ strz t)"

definition wire_date :: "u64 \<Rightarrow> byte list" where
  "wire_date d = (let octets = skip_zero_octets (date_octets d) in of_nat (length octets) # octets)"

definition wire_utf8 :: "wsp_wire \<Rightarrow> byte \<Rightarrow> string option \<Rightarrow> byte list" where
  "wire_utf8 x header t =
     (case t of None \<Rightarrow> []
      | Some t \<Rightarrow> (let body = (106 OR 0x80) # wire_quote t @ strz t in
          (header OR 0x80) # w_value_length x (length body) @ body))"

definition wire_content_id :: "byte \<Rightarrow> string option \<Rightarrow> byte list" where
  "wire_content_id header t =
     (case t of None \<Rightarrow> [] | Some t \<Rightarrow> (header OR 0x80) # [0x22, 0x3C] @ bytes_of t @ [0x3E, 0])"

definition wire_text_array :: "byte \<Rightarrow> string option \<Rightarrow> byte list" where
  "wire_text_array header t =
     (case t of None \<Rightarrow> []
      | Some t \<Rightarrow> concat (map (\<lambda>e. wire_text header (Some e)) (g_strsplit t CHR '','')))"

definition wire_pars :: "(byte \<times> string) list \<Rightarrow> byte list" where
  "wire_pars par = concat (map (\<lambda>(t, v). (t OR 0x80) # strz v) par)"

definition wire_media :: "wsp_encoders \<Rightarrow> string \<Rightarrow> byte list" where
  "wire_media w ct_str =
     (case wsp_get_well_known_content_type w ct_str of
        Some c \<Rightarrow> [ucast c OR 0x80] | None \<Rightarrow> strz ct_str)"

definition wire_content_type :: "wsp_encoders \<Rightarrow> wsp_wire \<Rightarrow> byte \<Rightarrow> string \<Rightarrow> byte list" where
  "wire_content_type w x header s =
     (case mms_parse_http_content_type s of
        Some (ct_str # params) \<Rightarrow>
          (let body = wire_media w ct_str @ wire_pars (content_type_pars w params) in
           (header OR 0x80) # (if length body = 1 then [] else w_value_length x (length body)) @ body)
      | _ \<Rightarrow> [])"

fun wire_header :: "wsp_encoders \<Rightarrow> wsp_wire \<Rightarrow> mms_header \<Rightarrow> hdata \<Rightarrow> byte list" where
  "wire_header w x h (H_Uint wk) = [of_nat (header_code h) OR 0x80, ucast wk OR 0x80]"
| "wire_header w x h (H_Bool b) = [of_nat (header_code h) OR 0x80, if b then 128 else 129]"
| "wire_header w x h (H_Date d) = (of_nat (header_code h) OR 0x80) # wire_date d"
| "wire_header w x h (H_Text t) =
     (let header = of_nat (header_code h) in
      if h \<in> {MMS_HEADER_TO, MMS_HEADER_CC, MMS_HEADER_BCC} then wire_text_array header t
      else if h = MMS_HEADER_SUBJECT then wire_utf8 x header t
      else if h = MMS_HEADER_FROM then [header OR 0x80, 1, 0x81]
      else if h = MMS_HEADER_CONTENT_TYPE then
        (case t of None \<Rightarrow> [] | Some s \<Rightarrow> wire_content_type w x header s)
      else wire_text header t)"

text \<open>The data each encoder expects behind its \<^verbatim>\<open>void*\<close>.\<close>

fun hdata_for :: "mms_header \<Rightarrow> hdata \<Rightarrow> bool" where
  "hdata_for h (H_Uint wk) = (h \<in> {MMS_HEADER_MESSAGE_TYPE, MMS_HEADER_MMS_VERSION, MMS_HEADER_STATUS,
     MMS_HEADER_RETRIEVE_STATUS, MMS_HEADER_READ_STATUS})"
| "hdata_for h (H_Bool b) = (h \<in> {MMS_HEADER_DELIVERY_REPORT, MMS_HEADER_READ_REPORT,
     MMS_HEADER_REPORT_ALLOWED})"
| "hdata_for h (H_Date d) = (h = MMS_HEADER_DATE)"
| "hdata_for h (H_Text t) = (h \<in> {MMS_HEADER_TO, MMS_HEADER_CC, MMS_HEADER_BCC, MMS_HEADER_SUBJECT,
     MMS_HEADER_MESSAGE_ID, MMS_HEADER_TRANSACTION_ID}
     \<or> h \<in> {MMS_HEADER_FROM, MMS_HEADER_CONTENT_TYPE} \<and> t \<noteq> None)"

definition wire_headers ::
  "wsp_encoders \<Rightarrow> wsp_wire \<Rightarrow> (mms_header \<times> hdata option) list \<Rightarrow> byte list" where
  "wire_headers w x args =
     concat (map (\<lambda>(h, d). case d of None \<Rightarrow> [] | Some d \<Rightarrow> wire_header w x h d) args)"

section \<open>Field encoders encode their octets\<close>

lemma encodes_short: "encodes (encode_short h (H_Uint wk)) [h OR 0x80, ucast wk OR 0x80]"
  unfolding encode_short_def by (simp add: encodes_field)

lemma encodes_boolean: "encodes (encode_boolean h (H_Bool b)) [h OR 0x80, if b then 128 else 129]"
  unfolding encode_boolean_def
  by (simp add: encodes_field MMS_MESSAGE_VALUE_BOOL_YES_def MMS_MESSAGE_VALUE_BOOL_NO_def)

lemma encodes_from: "encodes (encode_from h (H_Text (Some t))) [h OR 0x80, 1, 0x81]"
proof (cases "t = []")
  case True
  have "fb_bind (fb_store p [1]) (\<lambda>_. fb_store (p + 1) [0x81]) = fb_store p [1, 0x81]" for p
    using fb_store_append [of p "[1]" "[0x81]"] by simp
  with True show ?thesis by (simp add: encode_from_def encodes_field)
qed (simp add: encode_from_def)

lemma encodes_date: "encodes (encode_date h (H_Date d)) ((h OR 0x80) # wire_date d)"
proof -
  let ?o = "skip_zero_octets (date_octets d)"
  have "fb_bind (fb_store p [of_nat (length ?o)]) (\<lambda>_. fb_store (p + 1) ?o)
      = fb_store p (of_nat (length ?o) # ?o)" for p
    using fb_store_append [of p "[of_nat (length ?o)]" ?o] by simp
  then show ?thesis by (simp add: encode_date_def wire_date_def Let_def encodes_field)
qed

lemma store_quoted:
  "(if high_first t then fb_bind (fb_store p [QUOTE]) (\<lambda>_. fb_store (p + 1) (strz t))
    else fb_store p (strz t)) = fb_store p (wire_quote t @ strz t)"
  using fb_store_append [of p "[QUOTE]" "strz t"] by (simp add: wire_quote_def)

lemma encodes_text: "encodes (encode_text h (H_Text t)) (wire_text h t)"
proof (cases t)
  case (Some s)
  have "encode_text h (H_Text t) = fb_bind (fb_request_field h (length s + 1 + (if high_first s then 1 else 0)))
      (\<lambda>p. fb_store p (wire_quote s @ strz s))"
    using Some by (simp only: encode_text_def hdata.case option.case Let_def store_quoted)
  then show ?thesis using Some by (simp only:) (simp add: wire_text_def wire_quote_def encodes_field)
qed (simp add: encode_text_def wire_text_def)

lemma encodes_token_then:
  assumes "encodes m bs"
  shows "encodes (fb_bind (fb_request_field h 0) (\<lambda>_. m)) ((h OR 0x80) # bs)"
  using encodes_seq [OF encodes_token assms] by (simp add: fb_bind_assoc)

lemma encodes_utf8:
  assumes "wsp_encoders_ok w x"
  shows "encodes (encode_utf8_string w h (H_Text t)) (wire_utf8 x h t)"
proof (cases t)
  case (Some s)
  let ?body = "(106 OR 0x80) # wire_quote s @ strz s"
  let ?len = "1 + length s + 1 + (if high_first s then 1 else 0)"
  have len: "length ?body = ?len" by (simp add: wire_quote_def)
  have fill: "fb_bind (fb_store p [106 OR 0x80]) (\<lambda>_.
      if high_first s then fb_bind (fb_store (p + 1) [QUOTE]) (\<lambda>_. fb_store (p + 1 + 1) (strz s))
      else fb_store (p + 1) (strz s)) = fb_store p ?body" for p
    using fb_store_append [of p "[106 OR 0x80]" "wire_quote s @ strz s"]
    by (simp only: store_quoted) simp
  have "encodes (fb_bind (fb_request_field h 0) (\<lambda>_. fb_bind (fb_put (wsp_encode_value_length w) ?len)
      (\<lambda>_. fb_bind (fb_request ?len) (\<lambda>p. fb_store p ?body))))
      ((h OR 0x80) # w_value_length x ?len @ ?body)"
    using assms by (intro encodes_token_then encodes_seq encodes_put encodes_fill len)
      (simp add: wsp_encoders_ok_def)
  then show ?thesis
    using Some by (simp only: encode_utf8_string_def hdata.case option.case Let_def fill wire_utf8_def len)
qed (simp add: encode_utf8_string_def wire_utf8_def)

text \<open>\<^verbatim>\<open>strcpy\<close> puts a NUL where the bracket goes.\<close>

lemma encodes_content_id: "encodes (encode_content_id h (H_Text t)) (wire_content_id h t)"
proof (cases t)
  case (Some s)
  let ?len = "length s + 1"
  have fill: "fb_bind (fb_store p [0x22]) (\<lambda>_. fb_bind (fb_store (p + 1) [0x3C]) (\<lambda>_.
      fb_bind (fb_store (p + 2) (strz s)) (\<lambda>_. fb_bind (fb_store (p + ?len + 1) [0x3E]) (\<lambda>_.
      fb_store (p + ?len + 2) [0])))) = fb_store p ([0x22, 0x3C] @ bytes_of s @ [0x3E, 0])" for p
  proof -
    have end1: "fb_bind (fb_store (p + ?len + 1) [0x3E]) (\<lambda>_. fb_store (p + ?len + 2) [0])
        = fb_store (p + ?len + 1) [0x3E, 0]"
      using fb_store_append [of "p + ?len + 1" "[0x3E]" "[0]"] by (simp add: ac_simps)
    have end2: "fb_bind (fb_store (p + 2) (strz s)) (\<lambda>_. fb_store (p + ?len + 1) [0x3E, 0])
        = fb_store (p + 2) (bytes_of s @ [0x3E, 0])"
      using fb_store_overlap [of ?len "strz s" "[0x3E, 0]" "p + 2"]
        fb_store_overlap [of "length s" "strz s" "[0x3E, 0]" "p + 2"]
      by (simp add: strz_def ac_simps)
    show ?thesis
      using fb_store_append [of "p + 1" "[0x3C]" "bytes_of s @ [0x3E, 0]"]
        fb_store_append [of p "[0x22]" "0x3C # bytes_of s @ [0x3E, 0]"]
      by (simp only: end1 end2) (simp add: ac_simps)
  qed
  show ?thesis
    using Some by (simp only: encode_content_id_def hdata.case option.case Let_def fill wire_content_id_def)
      (simp add: encodes_field)
qed (simp add: encode_content_id_def wire_content_id_def)

lemma encodes_texts: "encodes (encode_texts h ts) (concat (map (\<lambda>e. wire_text h (Some e)) ts))"
  by (induction ts) (simp_all add: encodes_seq encodes_text)

lemma encodes_text_array: "encodes (encode_text_array_element h (H_Text t)) (wire_text_array h t)"
  by (cases t) (simp_all add: encode_text_array_element_def wire_text_array_def encodes_texts)

lemma encodes_pars: "encodes (encode_pars par) (wire_pars par)"
proof (induction par rule: encode_pars.induct)
  case (2 t v ps)
  have "encodes (fb_bind (fb_bind (fb_request_field t (length v + 1)) (\<lambda>p. fb_store p (strz v)))
      (\<lambda>_. encode_pars ps)) (((t OR 0x80) # strz v) @ wire_pars ps)"
    by (intro encodes_seq encodes_field 2) simp
  then show ?case by (simp add: fb_bind_assoc wire_pars_def)
qed (simp add: wire_pars_def)

lemma length_wire_pars: "length (wire_pars par) = sum_list (map (\<lambda>(t, v). 1 + length v + 1) par)"
  by (induction par) (auto simp: wire_pars_def)

lemma parsed_type_nonempty: "mms_parse_http_content_type s = Some (t # ps) \<Longrightarrow> t \<noteq> []"
  using parse_content_type_ok [of s "t # ps"] by (auto simp: content_type_ok_def type_string_def)

lemma encodes_media:
  "encodes (fb_bind (fb_request (case wsp_get_well_known_content_type w t of Some _ \<Rightarrow> 1 | None \<Rightarrow> length t + 1))
     (\<lambda>p. case wsp_get_well_known_content_type w t of Some c \<Rightarrow> fb_store p [ucast c OR 0x80]
        | None \<Rightarrow> fb_store p (strz t))) (wire_media w t)"
  by (cases "wsp_get_well_known_content_type w t") (simp_all add: wire_media_def encodes_fill)

lemma length_wire_media:
  "length (wire_media w t)
     = (case wsp_get_well_known_content_type w t of Some _ \<Rightarrow> 1 | None \<Rightarrow> length t + 1)"
  by (simp add: wire_media_def split: option.splits)

lemma encodes_content_type:
  assumes "wsp_encoders_ok w x"
  shows "encodes (encode_content_type w h (H_Text (Some s))) (wire_content_type w x h s)"
proof (cases "mms_parse_http_content_type s")
  case None
  then show ?thesis by (simp add: encode_content_type_def)
next
  case (Some ct)
  obtain t ps where ct: "ct = t # ps"
    using parse_content_type_ok [OF Some] by (cases ct) (auto simp: content_type_ok_def)
  let ?par = "content_type_pars w ps"
  let ?cl = "case wsp_get_well_known_content_type w t of Some _ \<Rightarrow> 1 | None \<Rightarrow> length t + 1"
  let ?len = "?cl + sum_list (map (\<lambda>(t, v). 1 + length v + 1) ?par)"
  let ?st = "\<lambda>p. case wsp_get_well_known_content_type w t of Some c \<Rightarrow> fb_store p [ucast c OR 0x80]
        | None \<Rightarrow> fb_store p (strz t)"
  have len: "length (wire_media w t @ wire_pars ?par) = ?len"
    by (simp add: length_wire_media length_wire_pars)
  show ?thesis
  proof (cases "?len = 1")
    case True
    then obtain c where c: "wsp_get_well_known_content_type w t = Some c" and p: "wire_pars ?par = []"
      using parsed_type_nonempty [OF Some [unfolded ct]] len
      by (auto simp: length_wire_media split: option.splits)
    have "wire_content_type w x h s = [h OR 0x80, ucast c OR 0x80]"
      using Some ct c p by (simp add: wire_content_type_def wire_media_def)
    moreover have "encode_content_type w h (H_Text (Some s)) = encode_short h (H_Uint c)"
      using Some ct c True by (simp add: encode_content_type_def)
    ultimately show ?thesis by (simp add: encodes_short)
  next
    case False
    have "encodes (fb_bind (fb_bind (fb_request 1) (\<lambda>p. fb_store p [h OR 0x80])) (\<lambda>_.
        fb_bind (fb_put (wsp_encode_value_length w) ?len) (\<lambda>_.
        fb_bind (fb_bind (fb_request ?cl) ?st) (\<lambda>_. encode_pars ?par))))
        ([h OR 0x80] @ w_value_length x ?len @ wire_media w t @ wire_pars ?par)"
      using assms
      by (intro encodes_seq encodes_fill encodes_put encodes_media encodes_pars)
        (simp_all add: wsp_encoders_ok_def)
    then show ?thesis using Some ct False len
      by (simp add: encode_content_type_def wire_content_type_def Let_def fb_bind_assoc)
  qed
qed


section \<open>The contract of an encoder table\<close>

locale encoder_table =
  fixes table :: "mms_header \<Rightarrow> header_encoder_fn option"
    and wire :: "mms_header \<Rightarrow> hdata \<Rightarrow> byte list"
    and ok :: "mms_header \<Rightarrow> hdata \<Rightarrow> bool"
    and fits :: "mms_header \<Rightarrow> hdata \<Rightarrow> bool"
  assumes entry: "ok h d \<Longrightarrow> \<exists>e. table h = Some e \<and> encodes (e (of_nat (header_code h)) d) (wire h d)"
    and fits_ok: "fits h d \<Longrightarrow> ok h d"
    and total: "fits h d \<Longrightarrow> table h = Some e \<Longrightarrow> never_fails (e (of_nat (header_code h)) d)"
begin

definition wires :: "(mms_header \<times> hdata option) list \<Rightarrow> byte list" where
  "wires args = concat (map (\<lambda>(h, d). case d of None \<Rightarrow> [] | Some d \<Rightarrow> wire h d) args)"

lemma encodes_headers:
  "(\<forall>(h, d) \<in> set args. \<exists>x. d = Some x \<and> ok h x) \<Longrightarrow> encodes (mms_encode_headers table args) (wires args)"
proof (induction args)
  case (Cons a args)
  obtain h x where a: "a = (h, Some x)" "ok h x" using Cons.prems by (cases a) auto
  from entry [OF a(2)] obtain e where e: "table h = Some e"
    "encodes (e (of_nat (header_code h)) x) (wire h x)" by blast
  have "encodes (mms_encode_headers table args) (wires args)"
    using Cons.prems by (intro Cons.IH) auto
  from encodes_seq [OF e(2) this] a e show ?case by (simp add: wires_def)
qed (simp add: wires_def)

lemma headers_succeed:
  "(\<forall>(h, d) \<in> set args. \<exists>x. d = Some x \<and> fits h x) \<Longrightarrow> never_fails (mms_encode_headers table args)"
proof (induction args)
  case Nil
  show ?case by (simp add: never_fails_def fb_return_def)
next
  case (Cons a args)
  obtain h x where a: "a = (h, Some x)" "fits h x" using Cons.prems by (cases a) auto
  from entry [OF fits_ok [OF a(2)]] obtain e where e: "table h = Some e"
    "encodes (e (of_nat (header_code h)) x) (wire h x)" by blast
  have "never_fails (mms_encode_headers table args)"
    using Cons.prems by (intro Cons.IH) auto
  then have "never_fails (fb_bind (e (of_nat (header_code h)) x) (\<lambda>_. mms_encode_headers table args))"
    using total [OF a(2) e(1)] e(2) by (intro never_fails_bind) (auto simp: encodes_def)
  then show ?case using a e by simp
qed

end

text \<open>A header text that certainly fits the buffer.\<close>

definition short_text :: "string \<Rightarrow> bool" where
  "short_text t \<longleftrightarrow> length t + 2 < FB_SIZE"

definition needs_wsp :: "mms_header \<Rightarrow> bool" where
  "needs_wsp h \<longleftrightarrow> h \<in> {MMS_HEADER_SUBJECT, MMS_HEADER_CONTENT_TYPE}"

definition entry_ok :: "wsp_encoders \<Rightarrow> wsp_wire \<Rightarrow> mms_header \<Rightarrow> hdata \<Rightarrow> bool" where
  "entry_ok w x h d \<longleftrightarrow> hdata_for h d \<and> (needs_wsp h \<longrightarrow> wsp_encoders_ok w x)"

fun entry_fits :: "mms_header \<Rightarrow> hdata \<Rightarrow> bool" where
  "entry_fits h (H_Text None) = (h \<in> {MMS_HEADER_TO, MMS_HEADER_CC, MMS_HEADER_BCC,
     MMS_HEADER_MESSAGE_ID, MMS_HEADER_TRANSACTION_ID})"
| "entry_fits h (H_Text (Some t)) =
     (h \<in> {MMS_HEADER_MESSAGE_ID, MMS_HEADER_TRANSACTION_ID} \<and> short_text t
      \<or> h \<in> {MMS_HEADER_TO, MMS_HEADER_CC, MMS_HEADER_BCC} \<and> (\<forall>e \<in> set (g_strsplit t CHR '',''). short_text e)
      \<or> h = MMS_HEADER_FROM \<and> t = [])"
| "entry_fits h d = hdata_for h d"

lemma never_fails_return [simp]: "never_fails (fb_return x)"
  by (simp add: never_fails_def fb_return_def)

lemma never_fails_short: "never_fails (encode_short h (H_Uint wk))"
  unfolding encode_short_def by (simp add: never_fails_field FB_SIZE_def)

lemma never_fails_boolean: "never_fails (encode_boolean h (H_Bool b))"
  unfolding encode_boolean_def by (simp add: never_fails_field FB_SIZE_def)

lemma never_fails_from: "never_fails (encode_from h (H_Text (Some [])))"
proof -
  have "fb_bind (fb_store p [1]) (\<lambda>_. fb_store (p + 1) [0x81]) = fb_store p [1, 0x81]" for p
    using fb_store_append [of p "[1]" "[0x81]"] by simp
  then show ?thesis by (simp add: encode_from_def never_fails_field FB_SIZE_def)
qed

lemma length_skip_zero: "length (skip_zero_octets xs) \<le> length xs"
  by (induction xs rule: skip_zero_octets.induct) auto

lemma never_fails_date: "never_fails (encode_date h (H_Date d))"
proof -
  let ?o = "skip_zero_octets (date_octets d)"
  have "fb_bind (fb_store p [of_nat (length ?o)]) (\<lambda>_. fb_store (p + 1) ?o)
      = fb_store p (of_nat (length ?o) # ?o)" for p
    using fb_store_append [of p "[of_nat (length ?o)]" ?o] by simp
  moreover have "length ?o \<le> 8" using length_skip_zero [of "date_octets d"] by (simp add: date_octets_def)
  ultimately show ?thesis by (simp add: encode_date_def Let_def never_fails_field FB_SIZE_def)
qed

lemma never_fails_text: "short_text t \<Longrightarrow> never_fails (encode_text h (H_Text (Some t)))"
proof -
  assume "short_text t"
  moreover have "encode_text h (H_Text (Some t)) = fb_bind (fb_request_field h (length t + 1 + (if high_first t then 1 else 0)))
      (\<lambda>p. fb_store p (wire_quote t @ strz t))"
    by (simp only: encode_text_def hdata.case option.case Let_def store_quoted)
  ultimately show ?thesis
    by (simp only: never_fails_field) (simp add: never_fails_field wire_quote_def short_text_def)
qed

lemma encode_text_None: "encode_text h (H_Text None) = fb_return ()"
  by (simp add: encode_text_def)

lemma never_fails_texts: "(\<forall>e \<in> set ts. short_text e) \<Longrightarrow> never_fails (encode_texts h ts)"
proof (induction ts)
  case (Cons t ts)
  then show ?case
    using encodes_text [of h "Some t"] by (simp add: never_fails_bind never_fails_text encodes_def)
qed simp

interpretation codec: encoder_table "encoder_for_type w" "wire_header w x" "entry_ok w x" entry_fits
  for w x
proof
  fix h d
  assume "entry_ok w x h d"
  then show "\<exists>e. encoder_for_type w h = Some e
      \<and> encodes (e (of_nat (header_code h)) d) (wire_header w x h d)"
    by (cases h; cases d)
      (auto simp: entry_ok_def needs_wsp_def Let_def encodes_short encodes_boolean encodes_date
        encodes_text encodes_utf8 encodes_text_array encodes_content_type encodes_from simp del: header_code.simps)
next
  fix h d
  assume "entry_fits h d"
  then show "entry_ok w x h d"
    by (cases "(h, d)" rule: entry_fits.cases) (auto simp: entry_ok_def needs_wsp_def)
next
  fix h d e
  assume "entry_fits h d" and "encoder_for_type w h = Some e"
  then show "never_fails (e (of_nat (header_code h)) d)"
    by (cases "(h, d)" rule: entry_fits.cases; cases h)
      (auto simp: never_fails_short never_fails_boolean never_fails_date never_fails_text
        never_fails_from never_fails_texts encode_text_array_element_def encode_text_None
        simp del: header_code.simps)
qed

lemma codec_wires: "codec.wires w x args = wire_headers w x args"
  by (simp add: codec.wires_def wire_headers_def)


section \<open>The octets of a part\<close>

definition wire_part_fields :: "wsp_encoders \<Rightarrow> mms_attachment \<Rightarrow> part_sizes \<Rightarrow> byte list" where
  "wire_part_fields w part s =
     ps_ctp_val s @ wire_media w (ps_ct_str s)
     @ (if ps_cs_val s \<noteq> [] then (WSP_PARAMETER_TYPE_CHARSET w OR 0x80) # ps_cs_val s else [])
     @ wire_text (WSP_PARAMETER_TYPE_NAME_DEFUNCT w) (ps_name s)
     @ wire_content_id MMS_PART_HEADER_CONTENT_ID (at_content_id part)
     @ wire_text MMS_PART_HEADER_CONTENT_LOCATION (at_content_location part)
     @ (if ps_cd_val s \<noteq> [] then
          (case at_content_location part of None \<Rightarrow> []
           | Some loc \<Rightarrow> (MMS_PART_HEADER_CONTENT_DISPOSITION OR 0x80) # ps_cd_val s
               @ [0x81, WSP_PARAMETER_TYPE_FILENAME_DEFUNCT w OR 0x80] @ strz loc
               @ (if high_first loc then [0] else []))
        else [])"

definition wire_part_header :: "wsp_encoders \<Rightarrow> wsp_wire \<Rightarrow> mms_attachment \<Rightarrow> byte list" where
  "wire_part_header w x part =
     (case part_header_sizes w part of
        Ret (Some s) \<Rightarrow> w_uintvar x (ps_len s) @ w_uintvar x (at_length part) @ wire_part_fields w part s
      | _ \<Rightarrow> [])"

definition wire_part :: "wsp_encoders \<Rightarrow> wsp_wire \<Rightarrow> mms_attachment \<Rightarrow> byte list" where
  "wire_part w x part = wire_part_header w x part @ take (at_length part) (at_data part)"

text \<open>What the caller provides: a content type, and data of the announced length.\<close>

definition part_ok :: "mms_attachment \<Rightarrow> bool" where
  "part_ok part \<longleftrightarrow> at_content_type part \<noteq> None \<and> at_length part \<le> length (at_data part)"

lemma part_header_sizes_cases:
  assumes "at_content_type part \<noteq> None"
  obtains "part_header_sizes w part = Ret None"
  | s where "part_header_sizes w part = Ret (Some s)"
proof (cases "part_header_sizes w part")
  case Undef
  from assms obtain c where c: "at_content_type part = Some c" by blast
  from Undef c obtain "mms_parse_http_content_type c = Some []"
    by (auto simp: part_header_sizes_def Let_def split: option.splits list.splits)
  then show ?thesis using parse_content_type_ok [of c "[]"] by (simp add: content_type_ok_def)
next
  case (Ret r)
  then show ?thesis using that by (cases r) auto
qed

lemma part_header_sizes_Some:
  assumes "part_header_sizes w part = Ret (Some s)"
  obtains c t ps len cs_val name ctp_val where "at_content_type part = Some c"
    "mms_parse_http_content_type c = Some (t # ps)"
    "part_param_loop w ps (ps_ct_len s, [], None) = Some (len, cs_val, name)"
    "wsp_encode_value_length w len MAX_ENC_VALUE_BYTES = Some ctp_val"
    "ps_ct s = wsp_get_well_known_content_type w t" "ps_ct_str s = t"
    "ps_ct_len s = length (wire_media w t)" "ps_ctp_val s = ctp_val" "ps_cs_val s = cs_val"
    "ps_name s = name" "ps_cloc_len s = part_cloc_len part"
    "ps_cd_val s \<noteq> [] \<Longrightarrow> at_content_location part \<noteq> None"
    "ps_len s = len + length ctp_val
       + (case at_content_id part of None \<Rightarrow> 0 | Some c \<Rightarrow> 1 + length c + 3 + 1)
       + (case at_content_location part of None \<Rightarrow> 0 | Some c \<Rightarrow> part_cloc_len part + 2)
       + (if t \<noteq> ''application/smil'' \<and> at_content_location part \<noteq> None
          then 1 + length (ps_cd_val s) + 2 + part_cloc_len part + 1 else 0)"
    "t \<noteq> ''application/smil'' \<and> at_content_location part \<noteq> None \<Longrightarrow>
       wsp_encode_value_length w (2 + part_cloc_len part + 1) MAX_ENC_VALUE_BYTES = Some (ps_cd_val s)"
    "\<not> (t \<noteq> ''application/smil'' \<and> at_content_location part \<noteq> None) \<Longrightarrow> ps_cd_val s = []"
proof -
  from assms obtain c t ps where c: "at_content_type part = Some c"
    "mms_parse_http_content_type c = Some (t # ps)"
    by (auto simp: part_header_sizes_def split: option.splits list.splits)
  note that1 = that
  show thesis
    using assms c
    by (auto simp: part_header_sizes_def Let_def length_wire_media bind_eq_Some_conv
        split: if_splits intro!: that1 [OF c])
qed

lemma encodes_disposition:
  assumes "cl = length loc + (if high_first loc then 1 else 0)" and "length cd = n"
  shows "encodes (fb_bind (fb_request_field h (n + cl + 3)) (\<lambda>ptr.
      fb_bind (fb_store ptr cd) (\<lambda>_. fb_bind (fb_store (ptr + n) [a]) (\<lambda>_.
      fb_bind (fb_store (ptr + n + 1) [b]) (\<lambda>_. fb_bind (fb_store (ptr + n + 2) (strz loc)) (\<lambda>_.
      fb_store (ptr + n + 2 + cl) [0]))))))
    ((h OR 0x80) # cd @ [a, b] @ strz loc @ (if high_first loc then [0] else []))"
proof -
  let ?z = "strz loc @ (if high_first loc then [0] else [])"
  have z: "fb_bind (fb_store p (strz loc)) (\<lambda>_. fb_store (p + cl) [0]) = fb_store p ?z" for p
    using assms(1) fb_store_append [of p "strz loc" "[0]"]
      fb_store_overlap [of "length loc" "strz loc" "[0]" p]
    by (auto simp: strz_def)
  have step: "fb_bind (fb_store q u) (\<lambda>_. fb_store r v) = fb_store q (u @ v)" if "r = q + length u" for q u r v
    using fb_store_append [of q u v] that by simp
  have "fb_bind (fb_store p cd) (\<lambda>_. fb_bind (fb_store (p + n) [a]) (\<lambda>_.
      fb_bind (fb_store (p + n + 1) [b]) (\<lambda>_. fb_bind (fb_store (p + n + 2) (strz loc)) (\<lambda>_.
      fb_store (p + n + 2 + cl) [0])))) = fb_store p (cd @ [a] @ [b] @ ?z)" for p
    by (simp only: z) (subst step, simp, subst step, simp, subst step, simp add: assms, rule refl)
  moreover have "length (cd @ [a] @ [b] @ ?z) = n + cl + 3"
    using assms by simp
  ultimately show ?thesis
    using encodes_field [of "cd @ [a] @ [b] @ ?z" "n + cl + 3" h] by simp
qed

lemma encodes_part_write:
  assumes ok: "wsp_encoders_ok w x" and s: "part_header_sizes w part = Ret (Some s)"
  shows "encodes (part_header_write w part s)
    (w_uintvar x (ps_len s) @ w_uintvar x (at_length part) @ wire_part_fields w part s)"
proof -
  obtain ct: "ps_ct s = wsp_get_well_known_content_type w (ps_ct_str s)"
    and len: "ps_ct_len s = length (wire_media w (ps_ct_str s))"
    and cl: "ps_cloc_len s = part_cloc_len part" and loc: "ps_cd_val s \<noteq> [] \<Longrightarrow> at_content_location part \<noteq> None"
    using part_header_sizes_Some [OF s] by metis
  have media: "encodes (fb_bind (fb_request (ps_ct_len s)) (\<lambda>ptr.
       case ps_ct s of Some c \<Rightarrow> fb_store ptr [ucast c OR 0x80]
                     | None \<Rightarrow> fb_store ptr (strz (ps_ct_str s)))) (wire_media w (ps_ct_str s))"
    using encodes_media [where w = w and t = "ps_ct_str s"] by (simp add: ct len length_wire_media)
  have cs: "encodes (if ps_cs_val s \<noteq> [] then
         fb_bind (fb_request_field (WSP_PARAMETER_TYPE_CHARSET w) (length (ps_cs_val s))) (\<lambda>ptr.
           fb_store ptr (ps_cs_val s)) else fb_return ())
       (if ps_cs_val s \<noteq> [] then (WSP_PARAMETER_TYPE_CHARSET w OR 0x80) # ps_cs_val s else [])"
    by (simp add: encodes_field)
  have nm: "encodes (case ps_name s of None \<Rightarrow> fb_return ()
       | Some n \<Rightarrow> encode_text h (H_Text (Some n))) (wire_text h (ps_name s))" for h
    using encodes_text [of h "ps_name s"] by (cases "ps_name s") (simp_all add: wire_text_def)
  have uv: "encodes (fb_put (wsp_encode_uintvar w) n) (w_uintvar x n)" for n
    using ok by (simp add: wsp_encoders_ok_def encodes_put)
  show ?thesis
    unfolding part_header_write_def wire_part_fields_def
    by (intro encodes_seq uv media cs nm encodes_content_id encodes_text encodes_fill [OF refl])
      (use loc in \<open>auto simp: Let_def cl part_cloc_len_def encodes_disposition [simplified]
        split: option.split\<close>)
qed

lemma encodes_part_header:
  assumes "wsp_encoders_ok w x" and "at_content_type part \<noteq> None"
  shows "encodes (mms_encode_send_req_part_header w part) (wire_part_header w x part)"
  using part_header_sizes_cases [OF assms(2), where w = w]
  by (cases; auto simp: mms_encode_send_req_part_header_def wire_part_header_def
      encodes_part_write [OF assms(1)])


text \<open>A routine with a result: safe, and it appends octets and returns a value that depend on the stream so far.\<close>

definition produces :: "'a fbm \<Rightarrow> byte list \<Rightarrow> (nat \<Rightarrow> 'a) \<Rightarrow> bool" where
  "produces m bs v \<longleftrightarrow> safe_step m \<and>
     (\<forall>fb fb' r. fb_ok fb \<longrightarrow> m fb = Ret (Some r, fb') \<longrightarrow>
        grown fb bs fb' \<and> r = v (fb_get_file_size fb))"

lemma produces_return [simp]: "produces (fb_return r) [] (\<lambda>_. r)"
  by (auto simp: produces_def) (simp_all add: fb_return_def)

lemma produces_runs: "produces m bs v \<Longrightarrow> fb_ok fb \<Longrightarrow> \<exists>r fb'. m fb = Ret (r, fb')"
  by (auto simp: produces_def safe_step_def)

lemma produces_result:
  "produces m bs v \<Longrightarrow> fb_ok fb \<Longrightarrow> m fb = Ret (Some r, fb') \<Longrightarrow>
     grown fb bs fb' \<and> r = v (fb_get_file_size fb)"
  by (auto simp: produces_def)

lemma produces_encodes: "encodes m bs \<longleftrightarrow> produces m bs (\<lambda>_. ())"
  by (auto simp: produces_def encodes_def)

lemma produces_bind:
  assumes m: "produces m a u" and f: "\<And>r. produces (f r) b (v r)"
  shows "produces (fb_bind m f) (a @ b) (\<lambda>n. v (u n) (n + length a))"
proof -
  have "grown fb (a @ b) fb2 \<and> y = v (u (fb_get_file_size fb)) (fb_get_file_size fb + length a)"
    if ok: "fb_ok fb" and run: "fb_bind m f fb = Ret (Some y, fb2)" for fb fb2 y
  proof -
    from run obtain r fb1 where 1: "m fb = Ret (Some r, fb1)" and 2: "f r fb1 = Ret (Some y, fb2)"
      by (auto simp: fb_bind_Ret)
    with m ok have "fb_ok fb1" "grown fb a fb1" "r = u (fb_get_file_size fb)"
      by (fastforce simp: produces_def safe_step_def)+
    with f 2 show ?thesis by (fastforce simp: produces_def grown_def)
  qed
  moreover have "safe_step (fb_bind m f)"
    using m f by (intro safe_bind) (auto simp: produces_def)
  ultimately show ?thesis by (auto simp: produces_def)
qed

lemma produces_then: "encodes m a \<Longrightarrow> produces n b v \<Longrightarrow> produces (fb_bind m (\<lambda>_. n)) (a @ b) (\<lambda>k. v (k + length a))"
  using produces_bind [of m a "\<lambda>_. ()" "\<lambda>_. n" b "\<lambda>_. v"] by (simp add: produces_encodes)

lemma produces_at:
  assumes "\<And>n. produces (m n) bs (v n)"
  shows "produces (\<lambda>fb. m (fb_get_file_size fb) fb) bs (\<lambda>n. v n n)"
  using assms unfolding produces_def safe_step_def by blast

lemma produces_part:
  assumes "wsp_encoders_ok w x" and "part_ok part"
  shows "produces (mms_encode_send_req_part w part) (wire_part w x part)
    (\<lambda>n. part\<lparr>at_offset := n + length (wire_part_header w x part)\<rparr>)"
proof -
  let ?d = "take (at_length part) (at_data part)"
  have "produces (\<lambda>fb. fb_bind (fb_copy ?d) (\<lambda>_. fb_return (part\<lparr>at_offset := fb_get_file_size fb\<rparr>)) fb) ?d
      (\<lambda>n. part\<lparr>at_offset := n\<rparr>)"
    using produces_at [OF produces_then [OF encodes_copy produces_return], of ?d] by simp
  from produces_then [OF encodes_part_header [OF assms(1)] this] assms(2)
  show ?thesis by (simp add: mms_encode_send_req_part_def wire_part_def part_ok_def Let_def not_less [symmetric])
qed

text \<open>The parts with their offsets, when the first one starts at a position.\<close>

fun placed_parts :: "wsp_encoders \<Rightarrow> wsp_wire \<Rightarrow> mms_attachment list \<Rightarrow> nat \<Rightarrow> mms_attachment list" where
  "placed_parts w x [] pos = []"
| "placed_parts w x (p # ps) pos =
     p\<lparr>at_offset := pos + length (wire_part_header w x p)\<rparr>
       # placed_parts w x ps (pos + length (wire_part w x p))"

lemma produces_parts:
  assumes "wsp_encoders_ok w x"
  shows "(\<forall>p \<in> set ps. part_ok p) \<Longrightarrow>
    produces (encode_parts w ps) (concat (map (wire_part w x) ps)) (placed_parts w x ps)"
proof (induction ps)
  case (Cons p ps)
  have r: "produces (fb_bind (encode_parts w ps) (\<lambda>parts. fb_return (r # parts)))
      (concat (map (wire_part w x) ps) @ []) (\<lambda>n. r # placed_parts w x ps n)" for r
    using Cons by (intro produces_bind [where v = "\<lambda>parts _. r # parts"]) auto
  have "produces (mms_encode_send_req_part w p) (wire_part w x p)
      (\<lambda>n. p\<lparr>at_offset := n + length (wire_part_header w x p)\<rparr>)"
    using Cons.prems by (intro produces_part assms) simp
  from produces_bind [OF this, where v = "\<lambda>r n. r # placed_parts w x ps n", OF r] show ?case by simp
qed (simp add: produces_def [abs_def] fb_return_def safe_step_def)

lemma length_placed_parts [simp]: "length (placed_parts w x ps n) = length ps"
  by (induction ps arbitrary: n) auto

text \<open>Each part's data is at its offset.\<close>

lemma placed_parts_data:
  "i < length ps \<Longrightarrow> part_ok (ps ! i) \<Longrightarrow> length pre = n \<Longrightarrow>
     take (at_length (ps ! i)) (drop (at_offset (placed_parts w x ps n ! i))
       (pre @ concat (map (wire_part w x) ps) @ post)) = take (at_length (ps ! i)) (at_data (ps ! i))"
proof (induction ps arbitrary: n i pre)
  case (Cons p ps)
  show ?case
  proof (cases i)
    case 0
    with Cons.prems show ?thesis by (simp add: wire_part_def part_ok_def)
  next
    case (Suc j)
    with Cons.prems Cons.IH [of j "pre @ wire_part w x p" "n + length (wire_part w x p)"]
    show ?thesis by simp
  qed
qed simp

section \<open>The octets of a PDU\<close>

definition wire_send_req_head :: "wsp_encoders \<Rightarrow> wsp_wire \<Rightarrow> mms_message \<Rightarrow> byte list" where
  "wire_send_req_head w x msg = wire_headers w x (send_req_args msg)
     @ (if m_attachments msg = [] then [] else w_uintvar x (length (m_attachments msg)))"

definition wire_send_req :: "wsp_encoders \<Rightarrow> wsp_wire \<Rightarrow> mms_message \<Rightarrow> byte list" where
  "wire_send_req w x msg = wire_send_req_head w x msg @ concat (map (wire_part w x) (m_attachments msg))"

definition send_req_ok :: "mms_message \<Rightarrow> bool" where
  "send_req_ok msg \<longleftrightarrow> sr_content_type (m_sr msg) \<noteq> None \<and> (\<forall>p \<in> set (m_attachments msg). part_ok p)"

lemma encodes_args:
  "(\<forall>(h, d) \<in> set args. \<exists>y. d = Some y \<and> entry_ok w x h y) \<Longrightarrow>
     encodes (mms_encode_headers (encoder_for_type w) args) (wire_headers w x args)"
  using codec.encodes_headers [of args w x] by (simp add: codec_wires)

lemma send_req_args_ok:
  "wsp_encoders_ok w x \<Longrightarrow> sr_content_type (m_sr msg) \<noteq> None \<Longrightarrow>
     \<forall>(h, d) \<in> set (send_req_args msg). \<exists>y. d = Some y \<and> entry_ok w x h y"
  by (simp add: send_req_args_def entry_ok_def)

lemma small_args_ok:
  "\<forall>(h, d) \<in> set (notify_resp_args msg). \<exists>y. d = Some y \<and> entry_ok w x h y"
  "\<forall>(h, d) \<in> set (acknowledge_args msg). \<exists>y. d = Some y \<and> entry_ok w x h y"
  "\<forall>(h, d) \<in> set (read_rec_args msg). \<exists>y. d = Some y \<and> entry_ok w x h y"
  by (simp_all add: notify_resp_args_def acknowledge_args_def read_rec_args_def entry_ok_def needs_wsp_def)

lemma produces_send_req:
  assumes ok: "wsp_encoders_ok w x" and msg: "send_req_ok msg"
  shows "produces (mms_encode_send_req w msg) (wire_send_req w x msg)
    (\<lambda>n. msg\<lparr>m_attachments := placed_parts w x (m_attachments msg) (n + length (wire_send_req_head w x msg))\<rparr>)"
proof -
  have hd: "encodes (mms_encode_headers (encoder_for_type w) (send_req_args msg))
      (wire_headers w x (send_req_args msg))"
    using ok msg by (intro encodes_args send_req_args_ok) (simp_all add: send_req_ok_def)
  show ?thesis
  proof (cases "m_attachments msg = []")
    case True
    have same: "msg\<lparr>m_attachments := []\<rparr> = msg" using True by (cases msg) simp
    show ?thesis
      using produces_then [OF hd produces_then [OF encodes_flush produces_return], of msg]
      by (simp only: mms_encode_send_req_def wire_send_req_def wire_send_req_head_def True same if_True
          list.map concat.simps append_Nil append_Nil2 placed_parts.simps simp_thms)
  next
    case False
    have uv: "encodes (fb_put (wsp_encode_uintvar w) n) (w_uintvar x n)" for n
      using ok by (simp add: wsp_encoders_ok_def encodes_put)
    have fl: "produces (fb_bind fb_flush (\<lambda>_. fb_return (msg\<lparr>m_attachments := parts\<rparr>))) []
        (\<lambda>_. msg\<lparr>m_attachments := parts\<rparr>)" for parts
      using produces_then [OF encodes_flush produces_return] by simp
    have parts: "produces (encode_parts w (m_attachments msg)) (concat (map (wire_part w x) (m_attachments msg)))
        (placed_parts w x (m_attachments msg))"
      using msg by (intro produces_parts ok) (simp add: send_req_ok_def)
    from produces_then [OF hd produces_then [OF uv
        produces_bind [OF parts, where v = "\<lambda>parts _. msg\<lparr>m_attachments := parts\<rparr>", OF fl]],
        of "length (m_attachments msg)"] False
    show ?thesis
      by (simp add: mms_encode_send_req_def wire_send_req_def wire_send_req_head_def send_req_ok_def ac_simps)
  qed
qed


lemma flush_empties: "fb_flush fb = Ret (Some (), fb') \<Longrightarrow> fb_size fb' = 0"
  by (auto simp: fb_flush_def split: if_splits option.splits prod.splits)

lemma ends_with_flush:
  "fb_bind m (\<lambda>_. fb_flush) fb = Ret (Some (), fb') \<Longrightarrow> fb_size fb' = 0"
  by (auto simp: fb_bind_Ret dest: flush_empties)

lemma send_req_flushed: "mms_encode_send_req w msg fb = Ret (Some r, fb') \<Longrightarrow> fb_size fb' = 0"
  by (auto simp: mms_encode_send_req_def fb_bind_Ret fb_return_def dest: flush_empties split: if_splits)

lemma fb_init_ok [simp]: "length junk = FB_SIZE \<Longrightarrow> fb_ok (fb_init junk fd)"
  by (simp add: fb_ok_def fb_init_def)

lemma fb_init_stream [simp]: "fb_stream (fb_init junk fd) = f_data fd"
  by (simp add: fb_stream_def fb_init_def)

lemma fb_init_file_size [simp]: "fb_get_file_size (fb_init junk fd) = 0"
  by (simp add: fb_get_file_size_def fb_init_def)

lemma grown_flushed: "grown fb bs fb' \<Longrightarrow> fb_size fb' = 0 \<Longrightarrow> f_data (fb_fd fb') = fb_stream fb @ bs"
  by (simp add: grown_def fb_stream_def)

text \<open>The PDUs without parts: safe, and exact when all writes succeed and the texts are short.\<close>

lemma small_pdu_safe:
  assumes "\<forall>(h, d) \<in> set args. \<exists>y. d = Some y \<and> entry_ok w x h y" and "fb_ok fb"
  shows "\<exists>r fb'. fb_bind (mms_encode_headers (encoder_for_type w) args) (\<lambda>_. fb_flush) fb = Ret (r, fb')"
  using encodes_seq [OF encodes_args [OF assms(1)] encodes_flush] assms(2)
  by (auto simp: encodes_def safe_step_def)

lemma small_pdu_exact:
  assumes fits: "\<forall>(h, d) \<in> set args. \<exists>y. d = Some y \<and> entry_fits h y"
    and junk: "length junk = FB_SIZE" and fd: "f_results fd = []"
  shows "\<exists>fb'. fb_bind (mms_encode_headers (encoder_for_type w) args) (\<lambda>_. fb_flush) (fb_init junk fd)
      = Ret (Some (), fb') \<and> f_data (fb_fd fb') = f_data fd @ wire_headers w x args"
proof -
  let ?m = "fb_bind (mms_encode_headers (encoder_for_type w) args) (\<lambda>_. fb_flush)"
  have ok: "\<forall>(h, d) \<in> set args. \<exists>y. d = Some y \<and> entry_ok w x h y"
    using fits codec.fits_ok by fast
  from encodes_seq [OF encodes_args [OF ok] encodes_flush]
  have enc: "encodes ?m (wire_headers w x args)" by simp
  have "never_fails ?m"
    using codec.headers_succeed [OF fits, of w] encodes_args [OF ok]
    by (intro never_fails_bind) (auto simp: encodes_def)
  then obtain fb' where run: "?m (fb_init junk fd) = Ret (Some (), fb')"
    using junk fd unfolding never_fails_def
    by (metis (full_types) fb_init_ok no_failures_def fb_init_def file_buffer.select_convs(4) old.unit.exhaust)
  with enc junk have "grown (fb_init junk fd) (wire_headers w x args) fb'" by (auto simp: encodes_def)
  with run show ?thesis using grown_flushed ends_with_flush by fastforce
qed

text \<open>A text that is too long for the buffer.\<close>

definition rejects :: "'a fbm \<Rightarrow> bool" where
  "rejects m \<longleftrightarrow> (\<forall>fb r fb'. m fb \<noteq> Ret (Some r, fb'))"

lemma rejects_bind1: "rejects m \<Longrightarrow> rejects (fb_bind m f)"
  by (auto simp: rejects_def fb_bind_Ret)

lemma rejects_bind2: "(\<And>r. rejects (f r)) \<Longrightarrow> rejects (fb_bind m f)"
  by (auto simp: rejects_def fb_bind_Ret)

lemma rejects_request: "n > FB_SIZE \<Longrightarrow> rejects (fb_request n)"
  by (auto simp: rejects_def dest: fb_request_too_big [THEN notE, rotated])

lemma rejects_text: "length t \<ge> FB_SIZE - 1 \<Longrightarrow> rejects (encode_text h (H_Text (Some t)))"
  unfolding encode_text_def fb_request_field_def
  by (auto intro!: rejects_bind1 rejects_request simp: Let_def FB_SIZE_def)

lemma rejects_utf8: "length t \<ge> FB_SIZE - 1 \<Longrightarrow> rejects (encode_utf8_string w h (H_Text (Some t)))"
  unfolding encode_utf8_string_def
  by (simp only: hdata.case option.case Let_def)
    (intro rejects_bind2 rejects_bind1 [of "fb_request _"] rejects_request, simp add: FB_SIZE_def)

lemma rejects_texts: "t \<in> set ts \<Longrightarrow> length t \<ge> FB_SIZE - 1 \<Longrightarrow> rejects (encode_texts h ts)"
proof (induction ts)
  case (Cons u ts)
  then show ?case
    using rejects_bind1 [OF rejects_text [of t h]] rejects_bind2 [of "\<lambda>_. encode_texts h ts"] by auto
qed simp

lemma rejects_headers:
  "(h, Some d) \<in> set args \<Longrightarrow> table h = Some e \<Longrightarrow> rejects (e (of_nat (header_code h)) d) \<Longrightarrow>
     rejects (mms_encode_headers table args)"
proof (induction args)
  case (Cons a args)
  show ?case
  proof (cases "a = (h, Some d)")
    case True
    with Cons.prems show ?thesis by (simp add: rejects_bind1)
  next
    case False
    with Cons have "rejects (mms_encode_headers table args)" by auto
    then show ?thesis
      by (cases a) (auto intro: rejects_bind2 simp: rejects_def [of fb_fail] fb_fail_def split: option.split)
  qed
qed simp


section \<open>Properties\<close>

text \<open>A library of the kind wsputil is, for concrete instances: lengths and integers of one or two octets.\<close>

definition sample_bytes :: "nat \<Rightarrow> byte list" where
  "sample_bytes v = (if v < 31 then [of_nat v] else [31, of_nat v])"

definition sample_put :: "nat \<Rightarrow> nat \<Rightarrow> byte list option" where
  "sample_put v room =
     (if v < 128 \<and> length (sample_bytes v) \<le> room then Some (sample_bytes v) else None)"

definition sample_wsp :: wsp_encoders where
  "sample_wsp = \<lparr>wsp_encode_value_length = sample_put, wsp_encode_uintvar = sample_put,
     wsp_encode_integer = sample_put,
     wsp_get_well_known_content_type = (\<lambda>s. if s = ''text/plain'' then Some 3 else None),
     wsp_get_well_known_charset = (\<lambda>s. if s = ''utf-8'' then Some 106 else None),
     WSP_PARAMETER_TYPE_CHARSET = 1, WSP_PARAMETER_TYPE_CONTENT_TYPE = 9,
     WSP_PARAMETER_TYPE_NAME_DEFUNCT = 5, WSP_PARAMETER_TYPE_FILENAME_DEFUNCT = 6,
     WSP_PARAMETER_TYPE_START_DEFUNCT = 10\<rparr>"

definition sample_wire :: wsp_wire where
  "sample_wire = \<lparr>w_value_length = sample_bytes, w_uintvar = sample_bytes, w_integer = sample_bytes\<rparr>"

lemma sample_wsp_ok: "wsp_encoders_ok sample_wsp sample_wire"
  by (auto simp: wsp_encoders_ok_def sample_wsp_def sample_wire_def value_encoder_def sample_put_def
      sample_bytes_def split: if_splits)

definition sample_part :: mms_attachment where
  "sample_part = zero_attachment\<lparr>at_data := [72, 105], at_length := 2,
     at_content_type := Some ''text/plain; charset=utf-8'', at_content_id := Some ''a'',
     at_content_location := Some ''a.txt''\<rparr>"

definition sample_send_req :: mms_message where
  "sample_send_req = zero_message\<lparr>m_type := 128, m_version := 145, m_transaction_id := Some ''t1'',
     m_sr := (m_sr zero_message)\<lparr>sr_to := Some ''+1/TYPE=PLMN,b@c'', sr_subject := Some ''s'',
       sr_content_type := Some ''application/vnd.wap.multipart.related''\<rparr>,
     m_attachments := [sample_part]\<rparr>"

text \<open>The lengths of the encoder are of type \<^verbatim>\<open>unsigned int\<close> and those of the model natural numbers, so the model is the
  code as long as no sum of lengths reaches \<^verbatim>\<open>UINT_MAX\<close>. Each length is at most twice the size of the message and a
  few octets for each field. (The strings come in D-Bus messages, which are of at most 128 MiB.)\<close>

definition text_size :: "string option \<Rightarrow> nat" where
  "text_size text = (case text of None \<Rightarrow> 0 | Some s \<Rightarrow> length s)"

definition message_size :: "mms_message \<Rightarrow> nat" where
  "message_size msg =
     sum_list (map text_size [m_transaction_id msg, sr_to (m_sr msg), sr_cc (m_sr msg), sr_bcc (m_sr msg), sr_subject (m_sr msg),
       sr_content_type (m_sr msg), ri_msgid (m_ri msg), ri_to (m_ri msg)])
     + sum_list (map (\<lambda>part. 64 + at_length part + text_size (at_content_type part) + text_size (at_content_id part)
         + text_size (at_content_location part)) (m_attachments msg))"

text \<open>C2. The encoder never leaves its buffer: for every message of less than 1 GiB, whatever the results of \<^verbatim>\<open>write\<close>,
  \<^verbatim>\<open>mms_message_encode\<close> returns. Of the strings of an M-Send.req only the content types, of the message and of each part, must
  be there: they are the only ones that it dereferences without a test.\<close>

theorem encode_never_undefined:
  assumes "wsp_encoders_ok w x" and "length junk = FB_SIZE" and "message_size msg < 2 ^ 30"
    and "m_type msg = message_type_code MMS_MESSAGE_TYPE_SEND_REQ \<Longrightarrow> send_req_ok msg"
  shows "\<exists>r fd'. mms_message_encode w junk msg fd = Ret (r, fd')"
proof -
  let ?fb = "fb_init junk fd"
  have small: "\<exists>r fb'. fb_bind (fb_bind (mms_encode_headers (encoder_for_type w) args) (\<lambda>_. fb_flush))
      (\<lambda>_. fb_return msg) ?fb = Ret (r, fb')"
    if ok: "\<forall>(h, d) \<in> set args. \<exists>y. d = Some y \<and> entry_ok w x h y" for args
    using produces_runs [OF produces_then [OF encodes_seq [OF encodes_args [OF ok] encodes_flush]
        produces_return [of msg]]] assms(2) by simp
  have fail: "\<exists>r fb'. fb_fail ?fb = Ret (r, fb')" by (simp add: fb_fail_def)
  have send: "\<exists>r fb'. mms_encode_send_req w msg ?fb = Ret (r, fb')"
    if "message_type_of (m_type msg) = Some MMS_MESSAGE_TYPE_SEND_REQ"
    using produces_runs [OF produces_send_req [OF assms(1) assms(4)]] that assms(2)
    by (auto dest: message_type_of_Some)
  note sm = small [OF small_args_ok(1) [of msg]] small [OF small_args_ok(2) [of msg]]
    small [OF small_args_ok(3) [of msg]]
  let ?m = "case message_type_of (m_type msg) of
        Some MMS_MESSAGE_TYPE_SEND_REQ \<Rightarrow> mms_encode_send_req w msg
      | Some MMS_MESSAGE_TYPE_NOTIFYRESP_IND \<Rightarrow> fb_bind (mms_encode_notify_resp_ind w msg) (\<lambda>_. fb_return msg)
      | Some MMS_MESSAGE_TYPE_ACKNOWLEDGE_IND \<Rightarrow> fb_bind (mms_encode_acknowledge_ind w msg) (\<lambda>_. fb_return msg)
      | Some MMS_MESSAGE_TYPE_READ_REC_IND \<Rightarrow> fb_bind (mms_encode_read_rec_ind w msg) (\<lambda>_. fb_return msg)
      | _ \<Rightarrow> fb_fail"
  have "\<exists>r fb'. ?m ?fb = Ret (r, fb')"
    using sm fail send
    by (auto simp: mms_encode_notify_resp_ind_def mms_encode_acknowledge_ind_def
        mms_encode_read_rec_ind_def split: option.split mms_message_type.split)
  then show ?thesis by (auto simp: mms_message_encode_def Let_def)
qed

theorem encode_never_undefined_witness:
  "\<exists>r fd'. mms_message_encode sample_wsp (replicate 256 0) sample_send_req
     \<lparr>f_data = [], f_results = [W_Error True, W_Count 3]\<rparr> = Ret (r, fd')"
  by (rule encode_never_undefined [OF sample_wsp_ok])
    (simp_all add: FB_SIZE_def send_req_ok_def sample_send_req_def zero_message_def part_ok_def
      sample_part_def zero_attachment_def message_size_def text_size_def)

text \<open>A content type that is missing is dereferenced, unless an earlier header already made the encoder fail.\<close>

lemma missing_content_type:
  assumes "sr_content_type (m_sr msg) = None" and "m_type msg = message_type_code MMS_MESSAGE_TYPE_SEND_REQ"
  shows "mms_message_encode w junk msg fd \<noteq> Ret (Some msg', fd')"
proof -
  have "mms_encode_headers (encoder_for_type w) (as @ [(MMS_HEADER_CONTENT_TYPE, Some (H_Text None))]) fb \<noteq> Ret (Some (), fb')" for as fb fb'
  proof (induction as arbitrary: fb)
    case (Cons a as)
    then show ?case by (cases a) (auto simp: fb_bind_Ret fb_fail_def split: option.split)
  qed (auto simp: fb_bind_Ret encode_content_type_def)
  from this [of "butlast (send_req_args msg)"]
  have "mms_encode_headers (encoder_for_type w) (send_req_args msg) fb \<noteq> Ret (Some (), fb')" for fb fb'
    using assms(1) by (simp add: send_req_args_def)
  then have "mms_encode_send_req w msg fb \<noteq> Ret (Some m, fb')" for fb fb' m
    by (auto simp: mms_encode_send_req_def fb_bind_Ret)
  then show ?thesis
    using assms(2) by (auto simp: mms_message_encode_def Let_def message_type_of_def all_message_type_def
        split: outcome.splits prod.splits)
qed

text \<open>C3. When the encoding of an M-Send.req succeeds, the file has grown by exactly the octets of the PDU, and the
  offset stored in each part is the place of its data.\<close>

theorem send_req_octets:
  assumes "wsp_encoders_ok w x" and "length junk = FB_SIZE" and "send_req_ok msg"
    and "m_type msg = message_type_code MMS_MESSAGE_TYPE_SEND_REQ"
    and "mms_message_encode w junk msg fd = Ret (Some msg', fd')"
  shows "f_data fd' = f_data fd @ wire_send_req w x msg
    \<and> (\<exists>parts. msg' = msg\<lparr>m_attachments := parts\<rparr> \<and> length parts = length (m_attachments msg)
       \<and> (\<forall>i < length parts. let part = m_attachments msg ! i in
            take (at_length part) (drop (length (f_data fd) + at_offset (parts ! i)) (f_data fd'))
              = take (at_length part) (at_data part)))"
proof -
  from assms(4,5) obtain fb' where run: "mms_encode_send_req w msg (fb_init junk fd) = Ret (Some msg', fb')"
    and fd': "fd' = fb_fd fb'"
    by (auto simp: mms_message_encode_def Let_def simp del: message_type_code.simps
        split: outcome.splits prod.splits)
  let ?n = "length (wire_send_req_head w x msg)"
  let ?parts = "placed_parts w x (m_attachments msg) ?n"
  from produces_result [OF produces_send_req [OF assms(1,3)] _ run] assms(2)
  have g: "grown (fb_init junk fd) (wire_send_req w x msg) fb'" and m: "msg' = msg\<lparr>m_attachments := ?parts\<rparr>"
    by simp_all
  have data: "f_data fd' = f_data fd @ wire_send_req w x msg"
    using grown_flushed [OF g send_req_flushed [OF run]] fd' by simp
  have "take (at_length part) (drop (length (f_data fd) + at_offset (?parts ! i)) (f_data fd'))
      = take (at_length part) (at_data part)"
    if "i < length (m_attachments msg)" and p: "part = m_attachments msg ! i" for i part
    using placed_parts_data [of i "m_attachments msg" "wire_send_req_head w x msg" ?n w x "[]"] that assms(3)
    by (simp add: data wire_send_req_def send_req_ok_def flip: drop_drop)
  with data m show ?thesis by (auto simp: Let_def)
qed

theorem send_req_octets_witness:
  "\<exists>msg' fd'. mms_message_encode sample_wsp (replicate 256 0) sample_send_req \<lparr>f_data = [], f_results = []\<rparr>
       = Ret (Some msg', fd')
     \<and> f_data fd' = wire_send_req sample_wsp sample_wire sample_send_req"
proof -
  have run: "case mms_message_encode sample_wsp (replicate 256 0) sample_send_req
      \<lparr>f_data = [], f_results = []\<rparr> of Ret (Some _, _) \<Rightarrow> True | _ \<Rightarrow> False"
    by code_simp
  have ok: "send_req_ok sample_send_req" "length (replicate 256 (0 :: byte)) = FB_SIZE"
    "m_type sample_send_req = message_type_code MMS_MESSAGE_TYPE_SEND_REQ"
    by (simp_all add: FB_SIZE_def send_req_ok_def sample_send_req_def zero_message_def part_ok_def
      sample_part_def zero_attachment_def)
  from run show ?thesis
    using send_req_octets [OF sample_wsp_ok ok(2) ok(1) ok(3), of "\<lparr>f_data = [], f_results = []\<rparr>"]
    by (fastforce split: outcome.splits option.splits prod.splits)
qed


lemma small_pdu_message:
  assumes "\<forall>(h, d) \<in> set args. \<exists>y. d = Some y \<and> entry_fits h y"
    and "length junk = FB_SIZE" and "f_results fd = []"
  shows "\<exists>fd'. (case fb_bind (fb_bind (mms_encode_headers (encoder_for_type w) args) (\<lambda>_. fb_flush))
       (\<lambda>_. fb_return msg) (fb_init junk fd) of Undef \<Rightarrow> Undef | Ret (r, fb') \<Rightarrow> Ret (r, fb_fd fb'))
      = Ret (Some msg, fd') \<and> f_data fd' = f_data fd @ wire_headers w x args"
  using small_pdu_exact [OF assms, of w x] by (auto simp: fb_bind_def [of "fb_bind _ _"] fb_return_def)

lemma confirmation_exact:
  assumes "length junk = FB_SIZE" and "f_results fd = []"
    and "m_transaction_id msg = Some tid" and "short_text tid"
    and "m_type msg = message_type_code t"
    and "(t = MMS_MESSAGE_TYPE_NOTIFYRESP_IND \<and> trailer = [0x95, nri_notify_status (m_nri msg) OR 0x80])
       \<or> (t = MMS_MESSAGE_TYPE_ACKNOWLEDGE_IND \<and> trailer = [0x91, if ai_report (m_ai msg) then 0x80 else 0x81])"
  shows "\<exists>fd'. mms_message_encode w junk msg fd = Ret (Some msg, fd')
    \<and> f_data fd' = f_data fd @ [0x8C, message_type_code t] @ [0x98] @ wire_quote tid @ strz tid
        @ [0x8D, m_version msg OR 0x80] @ trailer"
proof -
  have fits: "\<forall>(h, d) \<in> set (notify_resp_args msg). \<exists>y. d = Some y \<and> entry_fits h y"
    "\<forall>(h, d) \<in> set (acknowledge_args msg). \<exists>y. d = Some y \<and> entry_fits h y"
    using assms(3,4) by (simp_all add: notify_resp_args_def acknowledge_args_def)
  have wire: "wire_headers w x (notify_resp_args msg) = [0x8C, m_type msg OR 0x80] @ [0x98] @ wire_quote tid
        @ strz tid @ [0x8D, m_version msg OR 0x80] @ [0x95, nri_notify_status (m_nri msg) OR 0x80]"
    "wire_headers w x (acknowledge_args msg) = [0x8C, m_type msg OR 0x80] @ [0x98] @ wire_quote tid
        @ strz tid @ [0x8D, m_version msg OR 0x80] @ [0x91, if ai_report (m_ai msg) then 0x80 else 0x81]" for x
    using assms(3)
    by (simp_all add: notify_resp_args_def acknowledge_args_def wire_headers_def wire_text_def)
  show ?thesis
    using assms(5,6) small_pdu_message [OF fits(1) assms(1,2), where w = w and msg = msg]
      small_pdu_message [OF fits(2) assms(1,2), where w = w and msg = msg]
    unfolding wire
    by (auto simp: mms_message_encode_def Let_def mms_encode_notify_resp_ind_def
        mms_encode_acknowledge_ind_def message_type_of_def all_message_type_def)
qed

text \<open>A confirmation is exactly its four headers, in the order and with the tokens of the specification:
  M-NotifyResp.ind and M-Acknowledge.ind with a transaction id that fits the buffer, when no write fails.\<close>

theorem confirmation_octets:
  assumes "length junk = FB_SIZE" and "f_results fd = []"
    and "m_transaction_id msg = Some tid" and "short_text tid"
    and "m_type msg = message_type_code t"
    and "(t = MMS_MESSAGE_TYPE_NOTIFYRESP_IND \<and> trailer = [0x95, nri_notify_status (m_nri msg) OR 0x80])
       \<or> (t = MMS_MESSAGE_TYPE_ACKNOWLEDGE_IND \<and> trailer = [0x91, if ai_report (m_ai msg) then 0x80 else 0x81])"
  shows "\<exists>fd'. mms_message_encode w junk msg fd = Ret (Some msg, fd')
    \<and> f_data fd' = f_data fd @ [0x8C, message_type_code t] @ [0x98] @ wire_quote tid @ strz tid
        @ [0x8D, m_version msg OR 0x80] @ trailer"
  using assms by (rule confirmation_exact)

theorem confirmation_octets_witness:
  "\<exists>fd'. mms_message_encode sample_wsp (replicate 256 0)
       (zero_message\<lparr>m_type := 131, m_version := 145, m_transaction_id := Some ''t'',
          m_nri := \<lparr>nri_notify_status = 129\<rparr>\<rparr>) \<lparr>f_data = [], f_results = []\<rparr>
     = Ret (Some (zero_message\<lparr>m_type := 131, m_version := 145, m_transaction_id := Some ''t'',
          m_nri := \<lparr>nri_notify_status = 129\<rparr>\<rparr>), fd')
     \<and> f_data fd' = [0x8C, 131, 0x98, 116, 0, 0x8D, 145, 0x95, 129]"
  using confirmation_octets [of "replicate 256 0" "\<lparr>f_data = [], f_results = []\<rparr>"
      "zero_message\<lparr>m_type := 131, m_version := 145, m_transaction_id := Some ''t'',
          m_nri := \<lparr>nri_notify_status = 129\<rparr>\<rparr>" "''t''" MMS_MESSAGE_TYPE_NOTIFYRESP_IND "[0x95, 129]" sample_wsp]
  by (simp add: FB_SIZE_def short_text_def wire_quote_def high_first_def strz_def bytes_of_def zero_message_def)

text \<open>A header text of 255 octets or more makes the encoder fail, whatever the rest of the message: the
  buffer holds one field. This concerns the subject, the transaction id and each recipient.\<close>

theorem long_text_rejected:
  assumes "m_type msg = message_type_code MMS_MESSAGE_TYPE_SEND_REQ" and "255 \<le> length t"
    and "m_transaction_id msg = Some t \<or> sr_subject (m_sr msg) = Some t
       \<or> (\<exists>l \<in> {sr_to (m_sr msg), sr_cc (m_sr msg), sr_bcc (m_sr msg)}.
            \<exists>s. l = Some s \<and> t \<in> set (g_strsplit s CHR '',''))"
  shows "mms_message_encode w junk msg fd \<noteq> Ret (Some msg', fd')"
proof -
  have t: "length t \<ge> FB_SIZE - 1" using assms(2) by (simp add: FB_SIZE_def)
  have one: "rejects (mms_encode_headers (encoder_for_type w) (send_req_args msg))"
    if "(h, Some d) \<in> set (send_req_args msg)" "encoder_for_type w h = Some e"
      "rejects (e (of_nat (header_code h)) d)" for h d e
    using rejects_headers that by blast
  have arr: "rejects (encode_text_array_element h (H_Text (Some s)))"
    if "t \<in> set (g_strsplit s CHR '','')" for s h
    using rejects_texts [OF that t] by (simp add: encode_text_array_element_def)
  have "rejects (mms_encode_headers (encoder_for_type w) (send_req_args msg))"
  proof (cases "m_transaction_id msg = Some t \<or> sr_subject (m_sr msg) = Some t")
    case True
    then show ?thesis
    proof
      assume "m_transaction_id msg = Some t"
      then show ?thesis
        by (intro one [OF _ encoder_for_type.simps(24) rejects_text [OF t]]) (simp add: send_req_args_def)
    next
      assume "sr_subject (m_sr msg) = Some t"
      then show ?thesis
        by (intro one [OF _ encoder_for_type.simps(22) rejects_utf8 [OF t]]) (simp add: send_req_args_def)
    qed
  next
    case False
    with assms(3) obtain s where s: "t \<in> set (g_strsplit s CHR '','')"
      and "sr_to (m_sr msg) = Some s \<or> sr_cc (m_sr msg) = Some s \<or> sr_bcc (m_sr msg) = Some s"
      by auto
    then have "\<exists>h \<in> {MMS_HEADER_TO, MMS_HEADER_CC, MMS_HEADER_BCC}.
        (h, Some (H_Text (Some s))) \<in> set (send_req_args msg)"
      unfolding send_req_args_def by (elim disjE) simp_all
    then obtain h where "h \<in> {MMS_HEADER_TO, MMS_HEADER_CC, MMS_HEADER_BCC}"
      and mem: "(h, Some (H_Text (Some s))) \<in> set (send_req_args msg)" by blast
    then have "encoder_for_type w h = Some encode_text_array_element" by auto
    from one [OF mem this arr [OF s]] show ?thesis .
  qed
  then have "rejects (mms_encode_send_req w msg)"
    unfolding mms_encode_send_req_def by (rule rejects_bind1)
  with assms(1) show ?thesis
    by (auto simp: mms_message_encode_def Let_def rejects_def simp del: message_type_code.simps
        split: outcome.splits prod.splits)
qed

theorem long_text_rejected_witness:
  "mms_message_encode sample_wsp (replicate 256 0)
     (sample_send_req\<lparr>m_transaction_id := Some (replicate 300 CHR ''x'')\<rparr>) \<lparr>f_data = [], f_results = []\<rparr>
     \<noteq> Ret (Some sample_send_req, \<lparr>f_data = [], f_results = []\<rparr>)"
  by (rule long_text_rejected [where t = "replicate 300 CHR ''x''"]) (simp_all add: sample_send_req_def)

section \<open>The announced length of the headers of a part\<close>

fun param_count :: "string \<Rightarrow> string list \<Rightarrow> nat" where
  "param_count k (key # val # ps) = (if ascii_caseeq k key then 1 else 0) + param_count k ps"
| "param_count k ps = 0"

definition name_octets :: "string option \<Rightarrow> nat" where
  "name_octets n = (case n of None \<Rightarrow> 0 | Some t \<Rightarrow> 2 + length t + (if high_first t then 1 else 0))"

definition charset_octets :: "byte list \<Rightarrow> nat" where
  "charset_octets v = (if v = [] then 0 else 1 + length v)"

lemma part_param_length:
  "part_param_loop w ps (l, cv, nm) = Some (len, cs_val, name) \<Longrightarrow> wsp_encoders_ok w x \<Longrightarrow>
     param_count ''charset'' ps + (if cv = [] then 0 else 1) \<le> 1 \<Longrightarrow>
     param_count ''name'' ps + (if nm = None then 0 else 1) \<le> 1 \<Longrightarrow>
     len + charset_octets cv + name_octets nm = l + charset_octets cs_val + name_octets name"
proof (induction w ps "(l, cv, nm)" arbitrary: l cv nm rule: part_param_loop.induct)
  case (1 w key val ps l cv nm)
  have int: "v \<noteq> []" if "wsp_encode_integer w n MAX_ENC_VALUE_BYTES = Some v" for v n
    using wsp_encode_nonempty(1) [OF 1(5) that] .
  consider (cs) "ascii_caseeq ''charset'' key" | (nm) "\<not> ascii_caseeq ''charset'' key" "ascii_caseeq ''name'' key"
    | (other) "\<not> ascii_caseeq ''charset'' key" "\<not> ascii_caseeq ''name'' key" by blast
  then show ?case
  proof cases
    case cs
    then have "\<not> ascii_caseeq ''name'' key" by (auto simp: ascii_caseeq_def ascii_tolower_def)
    with cs 1 int show ?thesis
      by (auto simp: charset_octets_def split: option.splits if_splits)
  next
    case nm
    with 1 show ?thesis by (auto simp: name_octets_def split: option.splits if_splits)
  next
    case other
    with 1 show ?thesis by auto
  qed
qed (auto)


lemma length_wire_part_fields:
  assumes ok: "wsp_encoders_ok w x" and s: "part_header_sizes w part = Ret (Some s)"
    and c0: "at_content_type part = Some c0" "mms_parse_http_content_type c0 = Some (t0 # ps0)"
  obtains len where "part_param_loop w ps0 (ps_ct_len s, [], None) = Some (len, ps_cs_val s, ps_name s)"
    "ps_len s + (ps_ct_len s + charset_octets (ps_cs_val s) + name_octets (ps_name s))
       = length (wire_part_fields w part s) + len"
proof (rule part_header_sizes_Some [OF s])
  fix c t ps len cs_val name ctp_val
  let ?smil = "t \<noteq> ''application/smil'' \<and> at_content_location part \<noteq> None"
  assume a: "at_content_type part = Some c" "mms_parse_http_content_type c = Some (t # ps)"
    "part_param_loop w ps (ps_ct_len s, [], None) = Some (len, cs_val, name)"
    and b: "ps_ct_str s = t" "ps_ct_len s = length (wire_media w t)" "ps_ctp_val s = ctp_val"
      "ps_cs_val s = cs_val" "ps_name s = name"
    and tot: "ps_len s = len + length ctp_val
       + (case at_content_id part of None \<Rightarrow> 0 | Some c \<Rightarrow> 1 + length c + 3 + 1)
       + (case at_content_location part of None \<Rightarrow> 0 | Some c \<Rightarrow> part_cloc_len part + 2)
       + (if ?smil then 1 + length (ps_cd_val s) + 2 + part_cloc_len part + 1 else 0)"
    and cd: "?smil \<Longrightarrow> wsp_encode_value_length w (2 + part_cloc_len part + 1) MAX_ENC_VALUE_BYTES
        = Some (ps_cd_val s)" "\<not> ?smil \<Longrightarrow> ps_cd_val s = []"
  have ne: "?smil \<Longrightarrow> ps_cd_val s \<noteq> []"
    using wsp_encode_nonempty(2) [OF ok cd(1)] .
  have cid: "length (wire_content_id h i) = (case i of None \<Rightarrow> 0 | Some c \<Rightarrow> 1 + length c + 3 + 1)" for h i
    by (simp add: wire_content_id_def split: option.split)
  have tx: "length (wire_text h i) = name_octets i" for h i
    by (simp add: wire_text_def name_octets_def wire_quote_def split: option.split)
  have loc: "name_octets (at_content_location part)
      = (case at_content_location part of None \<Rightarrow> 0 | Some c \<Rightarrow> part_cloc_len part + 2)"
    by (simp add: name_octets_def part_cloc_len_def split: option.split)
  have cdl: "length (if ps_cd_val s \<noteq> [] then
          (case at_content_location part of None \<Rightarrow> []
           | Some loc \<Rightarrow> (MMS_PART_HEADER_CONTENT_DISPOSITION OR 0x80) # ps_cd_val s
               @ [0x81, WSP_PARAMETER_TYPE_FILENAME_DEFUNCT w OR 0x80] @ strz loc
               @ (if high_first loc then [0] else [])) else [])
      = (if ?smil then 1 + length (ps_cd_val s) + 2 + part_cloc_len part + 1 else 0)"
    using ne cd(2) by (auto simp: part_cloc_len_def split: option.splits)
  have cs: "length (if ps_cs_val s \<noteq> [] then (k :: byte) # ps_cs_val s else []) = charset_octets (ps_cs_val s)" for k
    by (simp add: charset_octets_def)
  show thesis
    using that a c0 b tot
    unfolding wire_part_fields_def length_append cid tx loc cdl cs by simp
qed

text \<open>The length announced for the headers of a part is the number of octets that follow it (after the
  length of the data), when its content type names a charset and a name at most once.\<close>

theorem part_header_length_exact:
  assumes "wsp_encoders_ok w x" and "part_header_sizes w part = Ret (Some s)"
    and "at_content_type part = Some c" and "mms_parse_http_content_type c = Some (t # ps)"
    and "param_count ''charset'' ps \<le> 1" and "param_count ''name'' ps \<le> 1"
  shows "ps_len s = length (wire_part_fields w part s)"
proof (rule length_wire_part_fields [OF assms(1-4)])
  fix len
  assume l: "part_param_loop w ps (ps_ct_len s, [], None) = Some (len, ps_cs_val s, ps_name s)"
    and n: "ps_len s + (ps_ct_len s + charset_octets (ps_cs_val s) + name_octets (ps_name s))
       = length (wire_part_fields w part s) + len"
  from part_param_length [OF l assms(1)] assms(5,6)
  have "len = ps_ct_len s + charset_octets (ps_cs_val s) + name_octets (ps_name s)"
    by (simp add: charset_octets_def [of "[]"] name_octets_def [of None])
  with n show ?thesis by simp
qed

theorem part_header_length_exact_witness:
  "\<exists>s. part_header_sizes sample_wsp sample_part = Ret (Some s)
     \<and> ps_len s = length (wire_part_fields sample_wsp sample_part s)"
proof -
  have "case part_header_sizes sample_wsp sample_part of Ret (Some _) \<Rightarrow> True | _ \<Rightarrow> False" by code_simp
  then obtain s where s: "part_header_sizes sample_wsp sample_part = Ret (Some s)"
    by (auto split: outcome.splits option.splits)
  have "mms_parse_http_content_type ''text/plain; charset=utf-8'' = Some [''text/plain'', ''charset'', ''utf-8'']"
    by code_simp
  then show ?thesis
    using part_header_length_exact [OF sample_wsp_ok s, of "''text/plain; charset=utf-8''" "''text/plain''"
        "[''charset'', ''utf-8'']"] s
    by (simp add: sample_part_def zero_attachment_def ascii_caseeq_def ascii_tolower_def)
qed

text \<open>When the charset is given twice, each occurrence is counted and one is written: the announced length
  is too large, and a decoder takes the first octets of the data for headers.\<close>

theorem duplicate_charset_length:
  assumes "wsp_encoders_ok w x" and "part_header_sizes w part = Ret (Some s)"
    and "at_content_type part = Some ''text/plain;charset=utf-8;charset=utf-8''"
  shows "ps_len s = length (wire_part_fields w part s) + 1 + length (ps_cs_val s)"
proof -
  have parse: "mms_parse_http_content_type ''text/plain;charset=utf-8;charset=utf-8''
      = Some [''text/plain'', ''charset'', ''utf-8'', ''charset'', ''utf-8'']"
    by code_simp
  have key: "ascii_caseeq ''charset'' ''charset''" by simp
  obtain len where
    l: "part_param_loop w [''charset'', ''utf-8'', ''charset'', ''utf-8''] (ps_ct_len s, [], None)
        = Some (len, ps_cs_val s, ps_name s)"
    and n: "ps_len s + (ps_ct_len s + charset_octets (ps_cs_val s) + name_octets (ps_name s))
       = length (wire_part_fields w part s) + len"
    by (rule length_wire_part_fields [OF assms(1-3) parse])
  from l have len: "len = ps_ct_len s + 2 * (1 + length (ps_cs_val s))" "ps_name s = None"
    by (auto split: option.splits)
  have "ps_cs_val s \<noteq> []"
    using l wsp_encode_nonempty(1) [OF assms(1)] by (auto split: option.splits)
  with n len show ?thesis by (simp add: charset_octets_def name_octets_def)
qed

theorem duplicate_charset_length_witness:
  "\<exists>s. part_header_sizes sample_wsp (sample_part\<lparr>at_content_type :=
         Some ''text/plain;charset=utf-8;charset=utf-8''\<rparr>) = Ret (Some s)
     \<and> ps_len s = length (wire_part_fields sample_wsp (sample_part\<lparr>at_content_type :=
         Some ''text/plain;charset=utf-8;charset=utf-8''\<rparr>) s) + 1 + length (ps_cs_val s)"
proof -
  let ?p = "sample_part\<lparr>at_content_type := Some ''text/plain;charset=utf-8;charset=utf-8''\<rparr>"
  have "case part_header_sizes sample_wsp ?p of Ret (Some _) \<Rightarrow> True | _ \<Rightarrow> False" by code_simp
  then obtain s where s: "part_header_sizes sample_wsp ?p = Ret (Some s)"
    by (auto split: outcome.splits option.splits)
  with duplicate_charset_length [OF sample_wsp_ok s] show ?thesis by simp
qed

end
