(* ===== verification/Pdu_Decoder.thy ===== *)
theory Pdu_Decoder
  imports Pdu_Encoder
begin

text \<open>
  The PDU decoder of \<^verbatim>\<open>mms-lib/src/mms_codec.c\<close>: the header handlers, the header loop with its checks of
  mandatory headers and of header positions, the multipart attachments and \<^verbatim>\<open>mms_message_decode\<close>.

  \<^verbatim>\<open>wsputil\<close> is a parameter, the record \<open>wsp_decoders\<close>: its iterators are abstract states \<open>'it\<close> (headers) and
  \<open>'mi\<close> (multipart), a pointer with its length is the list of the octets it gives access to. Reading past
  them is \<open>Undef\<close>. \<^verbatim>\<open>g_convert\<close> and \<^verbatim>\<open>time\<close> are fields of the same record.

  A handler does not write through its \<^verbatim>\<open>void*\<close> itself: it returns its result and a \<open>cell_write\<close>, which
  \<open>apply_write\<close> applies to the \<open>slot\<close>, the place in the message that the caller gave. The loops over an
  iterator run for as long as \<^verbatim>\<open>next\<close> says, so they are partial functions: \<open>None\<close> is a loop that does
  not end.
\<close>

section \<open>The WSP library\<close>

datatype wsp_value_type = WSP_VALUE_TYPE_LONG | WSP_VALUE_TYPE_TEXT | WSP_VALUE_TYPE_SHORT

datatype wsp_header_type = WSP_HEADER_TYPE_WELL_KNOWN | WSP_HEADER_TYPE_APPLICATION

record ('it, 'mi) wsp_decoders =
  wsp_header_iter_init :: "byte list \<Rightarrow> bool \<Rightarrow> 'it"  \<comment> \<open>the flag: reject code pages, detect multipart\<close>
  wsp_header_iter_next :: "'it \<Rightarrow> bool \<times> 'it"
  wsp_header_iter_get_hdr_type :: "'it \<Rightarrow> wsp_header_type"
  wsp_header_iter_get_hdr :: "'it \<Rightarrow> byte list"
  wsp_header_iter_get_val_type :: "'it \<Rightarrow> wsp_value_type"
  wsp_header_iter_get_val :: "'it \<Rightarrow> byte list"
  wsp_header_iter_at_end :: "'it \<Rightarrow> bool"
  wsp_header_iter_is_multipart :: "'it \<Rightarrow> bool"
  wsp_header_iter_is_content_type :: "'it \<Rightarrow> bool"
  wsp_decode_text :: "byte list \<Rightarrow> string option"
  wsp_decode_token_text :: "byte list \<Rightarrow> string option"
  wsp_decode_quoted_string :: "byte list \<Rightarrow> string option"
  wsp_decode_integer :: "byte list \<Rightarrow> (u32 \<times> nat) option"  \<comment> \<open>value, octets consumed\<close>
  wsp_decode_field :: "byte list \<Rightarrow> (wsp_value_type \<times> byte list) option"
  wsp_decode_content_type :: "byte list \<Rightarrow> (string \<times> nat) option"  \<comment> \<open>MIME type, octets consumed\<close>
  wsp_parameters :: "byte list \<Rightarrow> (bool \<times> string option) list"
    \<comment> \<open>what \<^verbatim>\<open>wsp_parameter_iter_next\<close> gives: whether the type is CHARSET, and the text\<close>
  wsp_multipart_iter_init :: "'it \<Rightarrow> ('mi \<times> 'it) option"
  wsp_multipart_iter_next :: "'mi \<Rightarrow> bool \<times> 'mi"
  wsp_multipart_iter_get_content_type :: "'mi \<Rightarrow> byte list"
  wsp_multipart_iter_get_hdr :: "'mi \<Rightarrow> byte list"
  wsp_multipart_iter_get_body_len :: "'mi \<Rightarrow> nat"
  wsp_multipart_iter_get_body_offset :: "'mi \<Rightarrow> nat"  \<comment> \<open>from the start of the PDU\<close>
  wsp_multipart_iter_close :: "'mi \<Rightarrow> 'it \<Rightarrow> bool \<times> 'it"
  g_convert :: "string \<Rightarrow> string \<Rightarrow> byte list \<Rightarrow> string option"  \<comment> \<open>to, from, text\<close>
  time_now :: u64

text \<open>\<^verbatim>\<open>p[i]\<close>.\<close>

definition octet_at :: "byte list \<Rightarrow> nat \<Rightarrow> byte outcome" where
  "octet_at p i = (if i < length p then Ret (p ! i) else Undef)"

section \<open>Character sets\<close>

definition charset_assignments :: "(nat \<times> string) list" where
  "charset_assignments =
    [(3, ''US-ASCII''), (4, ''ISO_8859-1''), (5, ''ISO_8859-2''), (6, ''ISO_8859-3''),
     (7, ''ISO_8859-4''), (8, ''ISO_8859-5''), (9, ''ISO_8859-6''), (10, ''ISO_8859-7''),
     (11, ''ISO_8859-8''), (12, ''ISO_8859-9''), (13, ''ISO-8859-10''), (17, ''Shift_JIS''),
     (18, ''EUC-JP''), (36, ''CP949''), (37, ''ISO-2022-KR''), (38, ''EUC-KR''),
     (39, ''ISO-2022-JP''), (40, ''ISO-2022-JP-2''), (81, ''ISO_8859-6-E''), (82, ''ISO_8859-6-I''),
     (84, ''ISO_8859-8-E''), (85, ''ISO_8859-8-I''), (106, ''UTF-8''), (109, ''ISO-8859-13''),
     (110, ''ISO-8859-14''), (111, ''ISO-8859-15''), (112, ''ISO-8859-16''), (113, ''GBK''),
     (114, ''GB18030''), (1000, ''ISO-10646-UCS-2''), (1001, ''ISO-10646-UCS-4''),
     (1004, ''ISO-10646-J-1''), (1012, ''UTF-7''), (1013, ''UTF-16BE''), (1014, ''UTF-16LE''),
     (1015, ''UTF-16''), (1017, ''UTF-32''), (1018, ''UTF-32BE''), (1019, ''UTF-32LE''),
     (2025, ''GB2312''), (2026, ''Big5''), (2027, ''macintosh''), (2084, ''KOI8-R''),
     (2109, ''windows-874''), (2250, ''windows-1250''), (2251, ''windows-1251''),
     (2252, ''windows-1252''), (2253, ''windows-1253''), (2254, ''windows-1254''),
     (2255, ''windows-1255''), (2256, ''windows-1256''), (2257, ''windows-1257''),
     (2258, ''windows-1258'')]"

text \<open>The binary search; \<open>low\<close> and \<open>high\<close> are C \<^verbatim>\<open>int\<close>s.\<close>

function charset_search :: "(nat \<times> string) list \<Rightarrow> nat \<Rightarrow> int \<Rightarrow> int \<Rightarrow> string option" where
  "charset_search tab index low high =
     (if low \<le> high then
        let mid = (low + high) div 2; val = fst (tab ! nat mid) in
        if val < index then charset_search tab index (mid + 1) high
        else if val > index then charset_search tab index low (mid - 1)
        else Some (snd (tab ! nat mid))
      else None)"
  by auto
termination
  by (relation "measure (\<lambda>(tab, index, low, high). nat (high - low + 1))") auto

declare charset_search.simps [simp del]

definition charset_index2string :: "nat \<Rightarrow> string option" where
  "charset_index2string index =
     charset_search charset_assignments index 0 (int (length charset_assignments) - 1)"

section \<open>Header handlers\<close>

datatype cell_write =
    W_None
  | W_Str "string option"
  | W_Append string  \<comment> \<open>to a comma separated list\<close>
  | W_Octet byte
  | W_Time u64
  | W_Size u32
  | W_Bool bool

type_synonym handled = "(bool \<times> cell_write) outcome"

definition failed :: handled where "failed = Ret (False, W_None)"

definition with_short :: "('it, 'mi) wsp_decoders \<Rightarrow> 'it \<Rightarrow> (byte \<Rightarrow> bool \<times> cell_write) \<Rightarrow> handled" where
  "with_short w it f =
     (if wsp_header_iter_get_val_type w it \<noteq> WSP_VALUE_TYPE_SHORT then failed
      else bind_outcome (octet_at (wsp_header_iter_get_val w it) 0) (\<lambda>p. Ret (f p)))"

definition extract_short :: "('it, 'mi) wsp_decoders \<Rightarrow> 'it \<Rightarrow> handled" where
  "extract_short w it = with_short w it (\<lambda>p. (True, W_Octet p))"

text \<open>A LONG value of length zero: the pointer is to the octet 0 of the length, an empty string.\<close>

definition decode_text :: "('it, 'mi) wsp_decoders \<Rightarrow> 'it \<Rightarrow> string option" where
  "decode_text w it =
     (case wsp_header_iter_get_val_type w it of
        WSP_VALUE_TYPE_LONG \<Rightarrow> if wsp_header_iter_get_val w it = [] then Some [] else None
      | WSP_VALUE_TYPE_TEXT \<Rightarrow> wsp_decode_text w (wsp_header_iter_get_val w it)
      | WSP_VALUE_TYPE_SHORT \<Rightarrow> None)"

definition extract_text :: "('it, 'mi) wsp_decoders \<Rightarrow> 'it \<Rightarrow> handled" where
  "extract_text w it =
     (case decode_text w it of None \<Rightarrow> failed | Some t \<Rightarrow> Ret (True, W_Str (Some t)))"

definition decode_encoded_string_with_mib_enum ::
  "('it, 'mi) wsp_decoders \<Rightarrow> byte list \<Rightarrow> string option" where
  "decode_encoded_string_with_mib_enum w p =
     (case wsp_decode_integer w p of
        None \<Rightarrow> None
      | Some (mib_enum, consumed) \<Rightarrow>
          if mib_enum = 106 then wsp_decode_text w (drop consumed p)
          else (case charset_index2string (unat mib_enum) of
                  None \<Rightarrow> None
                | Some from_codeset \<Rightarrow> g_convert w ''UTF-8'' from_codeset (drop consumed p)))"

definition decode_encoded_text ::
  "('it, 'mi) wsp_decoders \<Rightarrow> wsp_value_type \<Rightarrow> byte list \<Rightarrow> string option" where
  "decode_encoded_text w t p =
     (case t of
        WSP_VALUE_TYPE_TEXT \<Rightarrow> wsp_decode_text w p
      | WSP_VALUE_TYPE_LONG \<Rightarrow> decode_encoded_string_with_mib_enum w p
      | WSP_VALUE_TYPE_SHORT \<Rightarrow> None)"

definition extract_encoded_text :: "('it, 'mi) wsp_decoders \<Rightarrow> 'it \<Rightarrow> handled" where
  "extract_encoded_text w it =
     (case decode_encoded_text w (wsp_header_iter_get_val_type w it) (wsp_header_iter_get_val w it) of
        None \<Rightarrow> failed
      | Some t \<Rightarrow> Ret (True, W_Str (Some t)))"

definition extract_encoded_text_element :: "('it, 'mi) wsp_decoders \<Rightarrow> 'it \<Rightarrow> handled" where
  "extract_encoded_text_element w it =
     (case decode_encoded_text w (wsp_header_iter_get_val_type w it) (wsp_header_iter_get_val w it) of
        None \<Rightarrow> failed
      | Some element \<Rightarrow> Ret (True, W_Append element))"

definition extract_subject :: "('it, 'mi) wsp_decoders \<Rightarrow> 'it \<Rightarrow> handled" where
  "extract_subject w it =
     bind_outcome (extract_encoded_text w it) (\<lambda>(_, c). Ret (True, c))"

text \<open>\<^verbatim>\<open>for (i = k, v = 0; i < l; i++) v = v << 8 | p[i];\<close> at the width of \<^verbatim>\<open>v\<close>.\<close>

definition be_value :: "byte list \<Rightarrow> 'a :: len word" where
  "be_value p = foldl (\<lambda>v b. push_bit 8 v OR ucast b) 0 p"

definition extract_date :: "('it, 'mi) wsp_decoders \<Rightarrow> 'it \<Rightarrow> handled" where
  "extract_date w it =
     (if wsp_header_iter_get_val_type w it \<noteq> WSP_VALUE_TYPE_LONG then failed
      else let p = wsp_header_iter_get_val w it in
        if length p > 4 then failed else Ret (True, W_Time (be_value p AND 0x7fffffff)))"

definition extract_absolute_relative_date :: "('it, 'mi) wsp_decoders \<Rightarrow> 'it \<Rightarrow> handled" where
  "extract_absolute_relative_date w it =
     (if wsp_header_iter_get_val_type w it \<noteq> WSP_VALUE_TYPE_LONG then failed
      else let p = wsp_header_iter_get_val w it in
        if length p < 2 \<or> length p > 6 then failed
        else bind_outcome (octet_at p 0) (\<lambda>p0.
          if p0 \<noteq> 128 \<and> p0 \<noteq> 129 then failed
          else let seconds = be_value (drop 2 p) :: u32;
                   out = (if p0 = 129 then time_now w + ucast seconds else ucast seconds) in
            Ret (True, W_Time (out AND 0x7fffffff))))"

definition extract_boolean :: "('it, 'mi) wsp_decoders \<Rightarrow> 'it \<Rightarrow> handled" where
  "extract_boolean w it = with_short w it (\<lambda>p.
     if p = MMS_MESSAGE_VALUE_BOOL_YES then (True, W_Bool True)
     else if p = MMS_MESSAGE_VALUE_BOOL_NO then (True, W_Bool False)
     else (True, W_None))"

text \<open>\<^verbatim>\<open>p[0]\<close> is read without a look at the length.\<close>

definition extract_from :: "('it, 'mi) wsp_decoders \<Rightarrow> 'it \<Rightarrow> handled" where
  "extract_from w it =
     (if wsp_header_iter_get_val_type w it \<noteq> WSP_VALUE_TYPE_LONG then failed
      else let p = wsp_header_iter_get_val w it in
        bind_outcome (octet_at p 0) (\<lambda>p0.
          if p0 \<noteq> 128 \<and> p0 \<noteq> 129 then failed
          else if p0 = 129 then Ret (True, W_Str None)
          else case wsp_decode_field w (drop 1 p) of
            None \<Rightarrow> failed
          | Some (t, q) \<Rightarrow>
              (case decode_encoded_text w t q of None \<Rightarrow> failed
               | Some text \<Rightarrow> Ret (True, W_Str (Some text)))))"

definition extract_message_class :: "('it, 'mi) wsp_decoders \<Rightarrow> 'it \<Rightarrow> handled" where
  "extract_message_class w it =
     (case wsp_header_iter_get_val_type w it of
        WSP_VALUE_TYPE_LONG \<Rightarrow> failed
      | WSP_VALUE_TYPE_SHORT \<Rightarrow> with_short w it (\<lambda>p.
          if p = 128 then (True, W_Str (Some MMS_MESSAGE_CLASS_PERSONAL))
          else if p = 129 then (True, W_Str (Some MMS_MESSAGE_CLASS_ADVERTISEMENT))
          else if p = 130 then (True, W_Str (Some MMS_MESSAGE_CLASS_INFORMATIONAL))
          else if p = 131 then (True, W_Str (Some MMS_MESSAGE_CLASS_AUTO))
          else (False, W_None))
      | WSP_VALUE_TYPE_TEXT \<Rightarrow>
          (case wsp_decode_token_text w (wsp_header_iter_get_val w it) of
             None \<Rightarrow> failed
           | Some text \<Rightarrow> Ret (True, W_Str (Some text))))"

definition extract_sender_visibility :: "('it, 'mi) wsp_decoders \<Rightarrow> 'it \<Rightarrow> handled" where
  "extract_sender_visibility w it = with_short w it (\<lambda>p.
     if p \<noteq> 128 \<and> p \<noteq> 129 then (False, W_None) else (True, W_Octet p))"

definition extract_priority :: "('it, 'mi) wsp_decoders \<Rightarrow> 'it \<Rightarrow> handled" where
  "extract_priority w it = with_short w it (\<lambda>p.
     if priority_of p \<noteq> None then (True, W_Octet p) else (False, W_None))"

definition extract_rsp_status :: "('it, 'mi) wsp_decoders \<Rightarrow> 'it \<Rightarrow> handled" where
  "extract_rsp_status w it = with_short w it (\<lambda>p.
     if rsp_status_of p \<noteq> None then (True, W_Octet p)
     else if p \<ge> rsp_status_code MMS_MESSAGE_RSP_STATUS_ERR_PERM_FAILURE
       then (True, W_Octet (rsp_status_code MMS_MESSAGE_RSP_STATUS_ERR_PERM_FAILURE))
     else if p \<ge> rsp_status_code MMS_MESSAGE_RSP_STATUS_ERR_TRANS_FAILURE
       then (True, W_Octet (rsp_status_code MMS_MESSAGE_RSP_STATUS_ERR_TRANS_FAILURE))
     else (True, W_None))"

definition extract_status :: "('it, 'mi) wsp_decoders \<Rightarrow> 'it \<Rightarrow> handled" where
  "extract_status w it = with_short w it (\<lambda>p.
     if delivery_status_of p \<noteq> None then (True, W_Octet p) else (False, W_None))"

definition extract_retrieve_status :: "('it, 'mi) wsp_decoders \<Rightarrow> 'it \<Rightarrow> handled" where
  "extract_retrieve_status w it = with_short w it (\<lambda>p.
     if retrieve_status_of p \<noteq> None then (True, W_Octet p) else (True, W_None))"

definition extract_read_status :: "('it, 'mi) wsp_decoders \<Rightarrow> 'it \<Rightarrow> handled" where
  "extract_read_status w it = with_short w it (\<lambda>p.
     if read_status_of p \<noteq> None then (True, W_Octet p) else (False, W_None))"

text \<open>The value is an \<^verbatim>\<open>unsigned long\<close>; the only place it is stored to, \<^verbatim>\<open>ni.size\<close>, keeps its low 32 bits
  (the others fall into the padding before \<^verbatim>\<open>ni.expiry\<close>).\<close>

definition extract_unsigned :: "('it, 'mi) wsp_decoders \<Rightarrow> 'it \<Rightarrow> handled" where
  "extract_unsigned w it =
     (if wsp_header_iter_get_val_type w it \<noteq> WSP_VALUE_TYPE_LONG then failed
      else let p = wsp_header_iter_get_val w it in
        if length p > 8 then failed else Ret (True, W_Size (ucast (be_value p :: u64))))"

fun handler_for_type :: "('it, 'mi) wsp_decoders \<Rightarrow> mms_header \<Rightarrow> 'it \<Rightarrow> handled" where
  "handler_for_type w MMS_HEADER_BCC = extract_encoded_text_element w"
| "handler_for_type w MMS_HEADER_CC = extract_encoded_text_element w"
| "handler_for_type w MMS_HEADER_CONTENT_LOCATION = extract_text w"
| "handler_for_type w MMS_HEADER_CONTENT_TYPE = extract_text w"
| "handler_for_type w MMS_HEADER_DATE = extract_date w"
| "handler_for_type w MMS_HEADER_DELIVERY_REPORT = extract_boolean w"
| "handler_for_type w MMS_HEADER_DELIVERY_TIME = extract_absolute_relative_date w"
| "handler_for_type w MMS_HEADER_EXPIRY = extract_absolute_relative_date w"
| "handler_for_type w MMS_HEADER_FROM = extract_from w"
| "handler_for_type w MMS_HEADER_MESSAGE_CLASS = extract_message_class w"
| "handler_for_type w MMS_HEADER_MESSAGE_ID = extract_text w"
| "handler_for_type w MMS_HEADER_MESSAGE_TYPE = extract_short w"
| "handler_for_type w MMS_HEADER_MMS_VERSION = extract_short w"
| "handler_for_type w MMS_HEADER_MESSAGE_SIZE = extract_unsigned w"
| "handler_for_type w MMS_HEADER_PRIORITY = extract_priority w"
| "handler_for_type w MMS_HEADER_READ_REPORT = extract_boolean w"
| "handler_for_type w MMS_HEADER_REPORT_ALLOWED = extract_boolean w"
| "handler_for_type w MMS_HEADER_RESPONSE_STATUS = extract_rsp_status w"
| "handler_for_type w MMS_HEADER_RESPONSE_TEXT = extract_encoded_text w"
| "handler_for_type w MMS_HEADER_SENDER_VISIBILITY = extract_sender_visibility w"
| "handler_for_type w MMS_HEADER_STATUS = extract_status w"
| "handler_for_type w MMS_HEADER_SUBJECT = extract_subject w"
| "handler_for_type w MMS_HEADER_TO = extract_encoded_text_element w"
| "handler_for_type w MMS_HEADER_TRANSACTION_ID = extract_text w"
| "handler_for_type w MMS_HEADER_RETRIEVE_STATUS = extract_retrieve_status w"
| "handler_for_type w MMS_HEADER_RETRIEVE_TEXT = extract_encoded_text w"
| "handler_for_type w MMS_HEADER_READ_STATUS = extract_read_status w"


section \<open>The header loop\<close>

text \<open>A place in the message, given by its update function.\<close>

datatype slot =
    Slot_Str "(string option \<Rightarrow> string option) \<Rightarrow> mms_message \<Rightarrow> mms_message"
  | Slot_Octet "(byte \<Rightarrow> byte) \<Rightarrow> mms_message \<Rightarrow> mms_message"
  | Slot_Time "(u64 \<Rightarrow> u64) \<Rightarrow> mms_message \<Rightarrow> mms_message"
  | Slot_Size "(u32 \<Rightarrow> u32) \<Rightarrow> mms_message \<Rightarrow> mms_message"
  | Slot_Bool "(bool \<Rightarrow> bool) \<Rightarrow> mms_message \<Rightarrow> mms_message"

definition append_element :: "string \<Rightarrow> string option \<Rightarrow> string option" where
  "append_element element old =
     (case old of None \<Rightarrow> Some element | Some s \<Rightarrow> Some (s @ '','' @ element))"

text \<open>A write of a kind the place does not have would be a type confusion.\<close>

fun apply_write :: "slot \<Rightarrow> cell_write \<Rightarrow> mms_message \<Rightarrow> mms_message outcome" where
  "apply_write s W_None m = Ret m"
| "apply_write (Slot_Str u) (W_Str t) m = Ret (u (\<lambda>_. t) m)"
| "apply_write (Slot_Str u) (W_Append t) m = Ret (u (append_element t) m)"
| "apply_write (Slot_Octet u) (W_Octet b) m = Ret (u (\<lambda>_. b) m)"
| "apply_write (Slot_Time u) (W_Time t) m = Ret (u (\<lambda>_. t) m)"
| "apply_write (Slot_Size u) (W_Size n) m = Ret (u (\<lambda>_. n) m)"
| "apply_write (Slot_Bool u) (W_Bool b) m = Ret (u (\<lambda>_. b) m)"
| "apply_write _ _ m = Undef"

datatype header_flag =
    HEADER_FLAG_MANDATORY | HEADER_FLAG_ALLOW_MULTI | HEADER_FLAG_PRESET_POS | HEADER_FLAG_MARKED

record header_handler_entry =
  he_flags :: "header_flag set"
  he_data :: "slot option"
  he_pos :: nat

type_synonym entries = "mms_header \<Rightarrow> header_handler_entry"
type_synonym header_args = "(mms_header \<times> header_flag set \<times> slot option) list"

definition no_entries :: entries where
  "no_entries = (\<lambda>_. \<lparr>he_flags = {}, he_data = None, he_pos = 0\<rparr>)"

fun fill_entries :: "header_args \<Rightarrow> entries \<Rightarrow> entries" where
  "fill_entries [] es = es"
| "fill_entries ((h, flags, data) # args) es =
     fill_entries args (es(h := (es h)\<lparr>he_flags := flags, he_data := data\<rparr>))"

definition mark_entry :: "nat \<Rightarrow> header_handler_entry \<Rightarrow> header_handler_entry" where
  "mark_entry i e = e\<lparr>he_pos := i, he_flags := insert HEADER_FLAG_MARKED (he_flags e)\<rparr>"

text \<open>The body of the loop for the header number \<open>i\<close>; the first result says whether the loop goes on.\<close>

definition header_step ::
  "('it, 'mi) wsp_decoders \<Rightarrow> nat \<Rightarrow> 'it \<Rightarrow> entries \<Rightarrow> mms_message
     \<Rightarrow> (bool \<times> entries \<times> mms_message) outcome" where
  "header_step w i it es m =
     (if wsp_header_iter_get_hdr_type w it \<noteq> WSP_HEADER_TYPE_WELL_KNOWN then Ret (True, es, m)
      else bind_outcome (octet_at (wsp_header_iter_get_hdr w it) 0) (\<lambda>p0.
        case header_of (unat (p0 AND 0x7f)) of
          None \<Rightarrow> Ret (True, es, m)
        | Some h \<Rightarrow>
            (case he_data (es h) of
               None \<Rightarrow> Ret (True, es(h := mark_entry i (es h)), m)
             | Some data \<Rightarrow>
                 if HEADER_FLAG_MARKED \<in> he_flags (es h) \<and> HEADER_FLAG_ALLOW_MULTI \<notin> he_flags (es h)
                 then Ret (True, es, m)
                 else
                   bind_outcome (handler_for_type w h it) (\<lambda>(ok, c).
                   bind_outcome (apply_write data c m) (\<lambda>m'.
                   if ok then Ret (True, es(h := mark_entry i (es h)), m') else Ret (False, es, m'))))))"

partial_function (option) parse_headers_loop ::
  "('it, 'mi) wsp_decoders \<Rightarrow> nat \<Rightarrow> 'it \<Rightarrow> entries \<Rightarrow> mms_message
     \<Rightarrow> ('it \<times> entries \<times> mms_message) outcome option" where
  "parse_headers_loop w i it es m =
     (if \<not> fst (wsp_header_iter_next w it) then Some (Ret (snd (wsp_header_iter_next w it), es, m))
      else case header_step w i (snd (wsp_header_iter_next w it)) es m of
        Undef \<Rightarrow> Some Undef
      | Ret (go, es', m') \<Rightarrow>
          if go then parse_headers_loop w (i + 1) (snd (wsp_header_iter_next w it)) es' m'
          else Some (Ret (snd (wsp_header_iter_next w it), es', m')))"

definition mandatory_ok :: "entries \<Rightarrow> bool" where
  "mandatory_ok es \<longleftrightarrow> list_all (\<lambda>h. HEADER_FLAG_MANDATORY \<in> he_flags (es h)
     \<longrightarrow> HEADER_FLAG_MARKED \<in> he_flags (es h)) all_headers"

fun expected_pos :: "header_args \<Rightarrow> entries \<Rightarrow> mms_header \<Rightarrow> nat \<Rightarrow> nat" where
  "expected_pos [] es i n = n"
| "expected_pos ((h, _, _) # args) es i n =
     (if h = i then n
      else expected_pos args es i (if HEADER_FLAG_MARKED \<in> he_flags (es h) then n + 1 else n))"

definition positions_ok :: "header_args \<Rightarrow> entries \<Rightarrow> bool" where
  "positions_ok args es \<longleftrightarrow> list_all (\<lambda>h.
     HEADER_FLAG_PRESET_POS \<in> he_flags (es h) \<and> HEADER_FLAG_MARKED \<in> he_flags (es h)
       \<longrightarrow> he_pos (es h) = expected_pos args es h 1) all_headers"

text \<open>A call that may not return, may be undefined, and else gives a result.\<close>

type_synonym 'a call = "'a outcome option"

definition call_bind :: "'a call \<Rightarrow> ('a \<Rightarrow> 'b call) \<Rightarrow> 'b call" where
  "call_bind c f = (case c of None \<Rightarrow> None | Some Undef \<Rightarrow> Some Undef | Some (Ret x) \<Rightarrow> f x)"

definition mms_parse_headers ::
  "('it, 'mi) wsp_decoders \<Rightarrow> header_args \<Rightarrow> 'it \<Rightarrow> mms_message \<Rightarrow> (bool \<times> 'it \<times> mms_message) call" where
  "mms_parse_headers w args it m =
     call_bind (parse_headers_loop w 1 it (fill_entries args no_entries) m) (\<lambda>(it', es, m').
       Some (Ret (mandatory_ok es \<and> positions_ok args es, it', m')))"

section \<open>The headers of each PDU\<close>

abbreviation "MAND \<equiv> HEADER_FLAG_MANDATORY"
abbreviation "PRESET \<equiv> HEADER_FLAG_PRESET_POS"

definition transaction_id_slot :: "slot option" where
  "transaction_id_slot = Some (Slot_Str m_transaction_id_update)"

definition version_arg :: "mms_header \<times> header_flag set \<times> slot option" where
  "version_arg = (MMS_HEADER_MMS_VERSION, {MAND, PRESET}, Some (Slot_Octet m_version_update))"

definition notification_ind_args :: header_args where
  "notification_ind_args =
     [(MMS_HEADER_TRANSACTION_ID, {MAND, PRESET}, transaction_id_slot), version_arg,
      (MMS_HEADER_FROM, {}, Some (Slot_Str (m_ni_update \<circ> ni_from_update))),
      (MMS_HEADER_SUBJECT, {}, Some (Slot_Str (m_ni_update \<circ> ni_subject_update))),
      (MMS_HEADER_MESSAGE_CLASS, {MAND}, Some (Slot_Str (m_ni_update \<circ> ni_cls_update))),
      (MMS_HEADER_MESSAGE_SIZE, {MAND}, Some (Slot_Size (m_ni_update \<circ> ni_size_update))),
      (MMS_HEADER_EXPIRY, {MAND}, Some (Slot_Time (m_ni_update \<circ> ni_expiry_update))),
      (MMS_HEADER_CONTENT_LOCATION, {MAND}, Some (Slot_Str (m_ni_update \<circ> ni_location_update)))]"

definition notify_resp_ind_args :: header_args where
  "notify_resp_ind_args =
     [(MMS_HEADER_TRANSACTION_ID, {MAND, PRESET}, transaction_id_slot), version_arg,
      (MMS_HEADER_STATUS, {MAND}, Some (Slot_Octet (m_nri_update \<circ> nri_notify_status_update)))]"

definition acknowledge_ind_args :: header_args where
  "acknowledge_ind_args =
     [(MMS_HEADER_TRANSACTION_ID, {MAND, PRESET}, transaction_id_slot), version_arg,
      (MMS_HEADER_REPORT_ALLOWED, {}, Some (Slot_Bool (m_ai_update \<circ> ai_report_update)))]"

definition delivery_ind_args :: header_args where
  "delivery_ind_args =
     [(MMS_HEADER_TRANSACTION_ID, {PRESET}, None), version_arg,
      (MMS_HEADER_MESSAGE_ID, {MAND}, Some (Slot_Str (m_di_update \<circ> di_msgid_update))),
      (MMS_HEADER_TO, {MAND}, Some (Slot_Str (m_di_update \<circ> di_to_update))),
      (MMS_HEADER_DATE, {MAND}, Some (Slot_Time (m_di_update \<circ> di_date_update))),
      (MMS_HEADER_STATUS, {MAND}, Some (Slot_Octet (m_di_update \<circ> di_dr_status_update)))]"

definition read_ind_args :: header_args where
  "read_ind_args =
     [(MMS_HEADER_TRANSACTION_ID, {PRESET}, None), version_arg,
      (MMS_HEADER_MESSAGE_ID, {MAND}, Some (Slot_Str (m_ri_update \<circ> ri_msgid_update))),
      (MMS_HEADER_TO, {MAND}, Some (Slot_Str (m_ri_update \<circ> ri_to_update))),
      (MMS_HEADER_FROM, {MAND}, Some (Slot_Str (m_ri_update \<circ> ri_from_update))),
      (MMS_HEADER_DATE, {MAND}, Some (Slot_Time (m_ri_update \<circ> ri_date_update))),
      (MMS_HEADER_READ_STATUS, {MAND}, Some (Slot_Octet (m_ri_update \<circ> ri_rr_status_update)))]"

definition retrieve_conf_args :: header_args where
  "retrieve_conf_args =
     [(MMS_HEADER_TRANSACTION_ID, {PRESET}, transaction_id_slot), version_arg,
      (MMS_HEADER_FROM, {}, Some (Slot_Str (m_rc_update \<circ> rc_from_update))),
      (MMS_HEADER_TO, {HEADER_FLAG_ALLOW_MULTI}, Some (Slot_Str (m_rc_update \<circ> rc_to_update))),
      (MMS_HEADER_CC, {HEADER_FLAG_ALLOW_MULTI}, Some (Slot_Str (m_rc_update \<circ> rc_cc_update))),
      (MMS_HEADER_SUBJECT, {}, Some (Slot_Str (m_rc_update \<circ> rc_subject_update))),
      (MMS_HEADER_MESSAGE_CLASS, {}, Some (Slot_Str (m_rc_update \<circ> rc_cls_update))),
      (MMS_HEADER_PRIORITY, {}, Some (Slot_Octet (m_rc_update \<circ> rc_priority_update))),
      (MMS_HEADER_MESSAGE_ID, {}, Some (Slot_Str (m_rc_update \<circ> rc_msgid_update))),
      (MMS_HEADER_DATE, {MAND}, Some (Slot_Time (m_rc_update \<circ> rc_date_update))),
      (MMS_HEADER_READ_REPORT, {}, Some (Slot_Bool (m_rc_update \<circ> rc_rr_update))),
      (MMS_HEADER_RETRIEVE_STATUS, {}, Some (Slot_Octet (m_rc_update \<circ> rc_retrieve_status_update)))]"

definition send_conf_args :: header_args where
  "send_conf_args =
     [(MMS_HEADER_TRANSACTION_ID, {MAND, PRESET}, transaction_id_slot), version_arg,
      (MMS_HEADER_RESPONSE_STATUS, {MAND}, Some (Slot_Octet (m_sc_update \<circ> sc_rsp_status_update))),
      (MMS_HEADER_RESPONSE_TEXT, {}, Some (Slot_Str (m_sc_update \<circ> sc_rsp_text_update))),
      (MMS_HEADER_MESSAGE_ID, {}, Some (Slot_Str (m_sc_update \<circ> sc_msgid_update)))]"

definition decode_send_req_args :: header_args where
  "decode_send_req_args =
     [(MMS_HEADER_TRANSACTION_ID, {MAND, PRESET}, transaction_id_slot), version_arg,
      (MMS_HEADER_TO, {HEADER_FLAG_ALLOW_MULTI}, Some (Slot_Str (m_sr_update \<circ> sr_to_update))),
      (MMS_HEADER_CC, {HEADER_FLAG_ALLOW_MULTI}, Some (Slot_Str (m_sr_update \<circ> sr_cc_update))),
      (MMS_HEADER_BCC, {HEADER_FLAG_ALLOW_MULTI}, Some (Slot_Str (m_sr_update \<circ> sr_bcc_update))),
      (MMS_HEADER_DELIVERY_REPORT, {}, Some (Slot_Bool (m_sr_update \<circ> sr_dr_update))),
      (MMS_HEADER_READ_REPORT, {}, Some (Slot_Bool (m_sr_update \<circ> sr_rr_update)))]"

section \<open>Attachments\<close>

definition decode_attachment_charset :: "('it, 'mi) wsp_decoders \<Rightarrow> byte list \<Rightarrow> string option" where
  "decode_attachment_charset w pdu = Option.bind (find fst (wsp_parameters w pdu)) snd"

definition extract_quoted_string :: "('it, 'mi) wsp_decoders \<Rightarrow> 'it \<Rightarrow> string option" where
  "extract_quoted_string w it =
     (if wsp_header_iter_get_val_type w it \<noteq> WSP_VALUE_TYPE_TEXT then None
      else wsp_decode_quoted_string w (wsp_header_iter_get_val w it))"

definition set_if :: "string option \<Rightarrow> (string \<Rightarrow> mms_attachment) \<Rightarrow> mms_attachment \<Rightarrow> bool \<times> mms_attachment" where
  "set_if t f part = (case t of None \<Rightarrow> (False, part) | Some s \<Rightarrow> (True, f s))"

definition part_header_step ::
  "('it, 'mi) wsp_decoders \<Rightarrow> 'it \<Rightarrow> mms_attachment \<Rightarrow> (bool \<times> mms_attachment) outcome" where
  "part_header_step w it part =
     (let hdr = wsp_header_iter_get_hdr w it in
      if wsp_header_iter_get_hdr_type w it = WSP_HEADER_TYPE_WELL_KNOWN then
        bind_outcome (octet_at hdr 0) (\<lambda>h. Ret (
          if h AND 0x7f = MMS_PART_HEADER_CONTENT_ID then
            set_if (extract_quoted_string w it) (\<lambda>t. part\<lparr>at_content_id := Some t\<rparr>) part
          else if h AND 0x7f = MMS_PART_HEADER_CONTENT_LOCATION then
            set_if (decode_text w it) (\<lambda>t. part\<lparr>at_content_location := Some t\<rparr>) part
          else (True, part)))
      else if ascii_caseeq (string_of (takeWhile (\<lambda>b. b \<noteq> 0) hdr)) ''content-transfer-encoding'' then
        Ret (set_if (decode_text w it) (\<lambda>t. part\<lparr>at_transfer_encoding := Some t\<rparr>) part)
      else Ret (True, part))"

partial_function (option) attachment_parse_headers ::
  "('it, 'mi) wsp_decoders \<Rightarrow> 'it \<Rightarrow> mms_attachment \<Rightarrow> (bool \<times> 'it \<times> mms_attachment) outcome option" where
  "attachment_parse_headers w it part =
     (if \<not> fst (wsp_header_iter_next w it) then Some (Ret (True, snd (wsp_header_iter_next w it), part))
      else case part_header_step w (snd (wsp_header_iter_next w it)) part of
        Undef \<Rightarrow> Some Undef
      | Ret (ok, part') \<Rightarrow>
          if ok then attachment_parse_headers w (snd (wsp_header_iter_next w it)) part'
          else Some (Ret (False, snd (wsp_header_iter_next w it), part')))"

text \<open>One part; \<open>None\<close> inside is the \<^verbatim>\<open>return FALSE\<close>.\<close>

definition parse_part ::
  "('it, 'mi) wsp_decoders \<Rightarrow> 'mi \<Rightarrow> mms_attachment option call" where
  "parse_part w mi =
     (let ct = wsp_multipart_iter_get_content_type w mi in
      case wsp_decode_content_type w ct of
        None \<Rightarrow> Some (Ret None)
      | Some (mimetype, consumed) \<Rightarrow>
          (let charset = decode_attachment_charset w (drop consumed ct);
               hi = wsp_header_iter_init w (wsp_multipart_iter_get_hdr w mi) False in
           call_bind (attachment_parse_headers w hi zero_attachment) (\<lambda>(_, hi', part).
             if \<not> wsp_header_iter_at_end w hi' then Some (Ret None)
             else Some (Ret (Some (part\<lparr>
               at_content_type := Some (case charset of None \<Rightarrow> mimetype
                 | Some cs \<Rightarrow> mimetype @ '';charset='' @ cs),
               at_length := wsp_multipart_iter_get_body_len w mi,
               at_offset := wsp_multipart_iter_get_body_offset w mi\<rparr>))))))"

partial_function (option) parse_parts_loop ::
  "('it, 'mi) wsp_decoders \<Rightarrow> 'mi \<Rightarrow> mms_attachment list \<Rightarrow> (bool \<times> 'mi \<times> mms_attachment list) outcome option" where
  "parse_parts_loop w mi parts =
     (if \<not> fst (wsp_multipart_iter_next w mi)
      then Some (Ret (True, snd (wsp_multipart_iter_next w mi), parts))
      else case parse_part w (snd (wsp_multipart_iter_next w mi)) of
        None \<Rightarrow> None
      | Some Undef \<Rightarrow> Some Undef
      | Some (Ret None) \<Rightarrow> Some (Ret (False, snd (wsp_multipart_iter_next w mi), parts))
      | Some (Ret (Some part)) \<Rightarrow>
          parse_parts_loop w (snd (wsp_multipart_iter_next w mi)) (part # parts))"

definition mms_parse_attachments ::
  "('it, 'mi) wsp_decoders \<Rightarrow> 'it \<Rightarrow> mms_message \<Rightarrow> (bool \<times> 'it \<times> mms_message) call" where
  "mms_parse_attachments w it m =
     (case wsp_multipart_iter_init w it of
        None \<Rightarrow> Some (Ret (False, it, m))
      | Some (mi, it1) \<Rightarrow>
          call_bind (parse_parts_loop w mi (m_attachments m)) (\<lambda>(ok, mi', parts).
            if \<not> ok then Some (Ret (False, it1, m\<lparr>m_attachments := parts\<rparr>))
            else
              (let (closed, it2) = wsp_multipart_iter_close w mi' it1 in
               if \<not> closed then Some (Ret (False, it2, m\<lparr>m_attachments := parts\<rparr>))
               else Some (Ret (True, it2, m\<lparr>m_attachments := rev parts\<rparr>)))))"

section \<open>Decoding a PDU\<close>

definition decode_retrieve_conf ::
  "('it, 'mi) wsp_decoders \<Rightarrow> 'it \<Rightarrow> mms_message \<Rightarrow> (bool \<times> 'it \<times> mms_message) call" where
  "decode_retrieve_conf w it m =
     call_bind (mms_parse_headers w retrieve_conf_args it m) (\<lambda>(ok, it1, m1).
       if \<not> ok then Some (Ret (False, it1, m1))
       else if wsp_header_iter_at_end w it1 then Some (Ret (True, it1, m1))
       else if \<not> wsp_header_iter_is_multipart w it1 then
         Some (Ret (wsp_header_iter_is_content_type w it1, it1, m1))
       else call_bind (mms_parse_attachments w it1 m1) (\<lambda>(ok, it2, m2).
         Some (Ret (ok \<and> wsp_header_iter_at_end w it2, it2, m2))))"

definition decode_send_req ::
  "('it, 'mi) wsp_decoders \<Rightarrow> 'it \<Rightarrow> mms_message \<Rightarrow> (bool \<times> 'it \<times> mms_message) call" where
  "decode_send_req w it m =
     call_bind (mms_parse_headers w decode_send_req_args it m) (\<lambda>(ok, it1, m1).
       if \<not> ok then Some (Ret (False, it1, m1))
       else if wsp_header_iter_at_end w it1 then Some (Ret (True, it1, m1))
       else if \<not> wsp_header_iter_is_multipart w it1 then Some (Ret (False, it1, m1))
       else call_bind (mms_parse_attachments w it1 m1) (\<lambda>(ok, it2, m2).
         Some (Ret (ok \<and> wsp_header_iter_at_end w it2, it2, m2))))"

fun decode_by_type ::
  "('it, 'mi) wsp_decoders \<Rightarrow> mms_message_type \<Rightarrow> 'it \<Rightarrow> mms_message \<Rightarrow> (bool \<times> 'it \<times> mms_message) call" where
  "decode_by_type w MMS_MESSAGE_TYPE_SEND_REQ it m = decode_send_req w it m"
| "decode_by_type w MMS_MESSAGE_TYPE_SEND_CONF it m = mms_parse_headers w send_conf_args it m"
| "decode_by_type w MMS_MESSAGE_TYPE_NOTIFICATION_IND it m = mms_parse_headers w notification_ind_args it m"
| "decode_by_type w MMS_MESSAGE_TYPE_NOTIFYRESP_IND it m = mms_parse_headers w notify_resp_ind_args it m"
| "decode_by_type w MMS_MESSAGE_TYPE_RETRIEVE_CONF it m = decode_retrieve_conf w it m"
| "decode_by_type w MMS_MESSAGE_TYPE_ACKNOWLEDGE_IND it m = mms_parse_headers w acknowledge_ind_args it m"
| "decode_by_type w MMS_MESSAGE_TYPE_DELIVERY_IND it m = mms_parse_headers w delivery_ind_args it m"
| "decode_by_type w MMS_MESSAGE_TYPE_READ_REC_IND it m = mms_parse_headers w read_ind_args it m"
| "decode_by_type w MMS_MESSAGE_TYPE_READ_ORIG_IND it m = mms_parse_headers w read_ind_args it m"

definition mms_message_decode ::
  "('it, 'mi) wsp_decoders \<Rightarrow> byte list \<Rightarrow> (bool \<times> mms_message) call" where
  "mms_message_decode w pdu =
     (let (ok, it) = wsp_header_iter_next w (wsp_header_iter_init w pdu True) in
      if \<not> ok then Some (Ret (False, zero_message))
      else if wsp_header_iter_get_hdr_type w it \<noteq> WSP_HEADER_TYPE_WELL_KNOWN then
        Some (Ret (False, zero_message))
      else call_bind (Some (octet_at (wsp_header_iter_get_hdr w it) 0)) (\<lambda>p0.
        if unat (p0 AND 0x7f) \<noteq> header_code MMS_HEADER_MESSAGE_TYPE then Some (Ret (False, zero_message))
        else if wsp_header_iter_get_val_type w it \<noteq> WSP_VALUE_TYPE_SHORT then
          Some (Ret (False, zero_message))
        else call_bind (Some (octet_at (wsp_header_iter_get_val w it) 0)) (\<lambda>octet.
          (let out = zero_message\<lparr>m_type := octet\<rparr> in
           case message_type_of octet of
             None \<Rightarrow> Some (Ret (False, out))
           | Some t \<Rightarrow> call_bind (decode_by_type w t it out) (\<lambda>(ok, _, m). Some (Ret (ok, m)))))))"


declare parse_headers_loop.simps [code]
declare attachment_parse_headers.simps [code]
declare parse_parts_loop.simps [code]

section \<open>Character sets: the binary search\<close>

lemma map_of_None_if: "(\<And>k v. (k, v) \<in> set xs \<Longrightarrow> k \<noteq> i) \<Longrightarrow> map_of xs i = None"
  by (metis map_of_SomeD not_Some_eq)

lemma charset_search_correct:
  "sorted_wrt (<) (map fst tab) \<Longrightarrow> 0 \<le> low \<Longrightarrow> high < int (length tab) \<Longrightarrow>
    (\<forall>k < length tab. int k < low \<longrightarrow> fst (tab ! k) < i) \<Longrightarrow>
    (\<forall>k < length tab. high < int k \<longrightarrow> i < fst (tab ! k)) \<Longrightarrow>
    charset_search tab i low high = map_of tab i"
proof (induction tab i low high rule: charset_search.induct)
  case (1 tab i low high)
  have mono: "a < b \<Longrightarrow> b < length tab \<Longrightarrow> fst (tab ! a) < fst (tab ! b)" for a b
    using sorted_wrt_nth_less [OF 1(3), of a b] by simp
  show ?case
  proof (cases "low \<le> high")
    case False
    have "k \<noteq> i" if "(k, v) \<in> set tab" for k v
    proof -
      from that obtain n where "n < length tab" "fst (tab ! n) = k" by (metis fst_conv in_set_conv_nth)
      moreover have "int n < low \<or> high < int n" using False by linarith
      ultimately show ?thesis using 1(6,7) by blast
    qed
    with False show ?thesis by (simp add: charset_search.simps [of tab i low high] map_of_None_if)
  next
    case le: True
    define mid where "mid = (low + high) div 2"
    define n where "n = nat mid"
    have mid: "low \<le> mid" "mid \<le> high" "mid = int n" "n < length tab"
      using le 1(4,5) by (auto simp: mid_def n_def)
    have unf: "charset_search tab i low high =
        (if fst (tab ! n) < i then charset_search tab i (mid + 1) high
         else if fst (tab ! n) > i then charset_search tab i low (mid - 1) else Some (snd (tab ! n)))"
      using le by (subst charset_search.simps) (simp only: Let_def mid_def n_def if_True)
    consider "fst (tab ! n) < i" | "fst (tab ! n) > i" | "fst (tab ! n) = i" by linarith
    then show ?thesis
    proof cases
      case 1
      have "\<forall>k < length tab. int k < mid + 1 \<longrightarrow> fst (tab ! k) < i"
      proof (intro allI impI)
        fix k assume k: "k < length tab" "int k < mid + 1"
        then have "k = n \<or> k < n" using mid by linarith
        then show "fst (tab ! k) < i" using 1 mono [of k n] mid by auto
      qed
      from "1.IH"(1) [OF le mid_def refl _ "1.prems"(1) _ "1.prems"(3) this "1.prems"(5)]
      have "charset_search tab i (mid + 1) high = map_of tab i" using 1 mid(1,2) "1.prems"(2) by (simp add: n_def)
      with 1 show ?thesis by (simp only: unf if_True)
    next
      case 2
      have "\<forall>k < length tab. mid - 1 < int k \<longrightarrow> i < fst (tab ! k)"
      proof (intro allI impI)
        fix k assume k: "k < length tab" "mid - 1 < int k"
        then have "k = n \<or> n < k" using mid by linarith
        then show "i < fst (tab ! k)" using 2 mono [of n k] k by auto
      qed
      from "1.IH"(2) [OF le mid_def refl _ _ "1.prems"(1,2) _ "1.prems"(4) this]
      have "charset_search tab i low (mid - 1) = map_of tab i" using 2 mid(1,2) "1.prems"(3) by (simp add: n_def)
      moreover have "\<not> fst (tab ! n) < i" using 2 by simp
      ultimately show ?thesis using 2 by (simp only: unf if_True if_False)
    next
      case 3
      have "distinct (map fst tab)"
        using "1.prems"(1) strict_sorted_iff by blast
      then have "map_of tab i = Some (snd (tab ! n))"
        using 3 mid(4) by (metis map_of_eq_Some_iff nth_mem prod.collapse)
      with 3 show ?thesis by (simp only: unf less_irrefl if_False)
    qed
  qed
qed

section \<open>Octets and values\<close>

lemma be_value_zero: "be_value (0 # p) = be_value p"
  by (simp add: be_value_def)

lemma be_value_skip: "be_value (skip_zero_octets p) = be_value p"
  by (induction p rule: skip_zero_octets.induct) (simp_all add: be_value_zero)

lemma be_value_date_octets: "be_value (date_octets d) = d"
proof -
  have u: "[0..<8] = [0, 1, 2, 3, 4, 5, 6, 7 :: nat]" by (simp add: upt_rec)
  show ?thesis
  proof (rule bit_word_eqI)
    fix n assume "n < LENGTH(64)"
    then have "n < 64" by simp
    then consider "n < 8" | "8 \<le> n" "n < 16" | "16 \<le> n" "n < 24" | "24 \<le> n" "n < 32"
      | "32 \<le> n" "n < 40" | "40 \<le> n" "n < 48" | "48 \<le> n" "n < 56" | "56 \<le> n" "n < 64" by linarith
    then show "bit (be_value (date_octets d) :: u64) n = bit d n"
      by cases (simp_all add: be_value_def date_octets_def u bit_simps less_diff_conv2)
  qed
qed

lemma date_octets_cases:
  obtains a b c e f g h i where "date_octets d = [a, b, c, e, f, g, h, i]"
proof -
  have "length (date_octets d) = 8" by (simp add: date_octets_def)
  then show ?thesis using that by (auto simp: length_Suc_conv numeral_eq_Suc)
qed

lemma date_top_octets: "(\<forall>i < 4. date_octets d ! i = 0) \<longleftrightarrow> drop_bit 32 d = 0"
proof -
  have u: "[0..<8] = [0, 1, 2, 3, 4, 5, 6, 7 :: nat]" by (simp add: upt_rec)
  have nth: "date_octets d ! i = ucast (drop_bit (8 * (7 - i)) d)" if "i < 8" for i
    using that by (simp add: date_octets_def)
  show ?thesis
  proof
    assume z: "\<forall>i < 4. date_octets d ! i = 0"
    show "drop_bit 32 d = 0"
    proof (rule bit_word_eqI)
      fix n assume "n < LENGTH(64)"
      then have n: "n < 64" by simp
      have "\<not> bit d (32 + n)"
      proof (cases "n < 32")
        case True
        define i where "i = 3 - n div 8"
        have q: "n div 8 < 4" using True by (simp add: less_mult_imp_div_less)
        then have "7 - i = 4 + n div 8" by (simp add: i_def)
        then have i: "i < 4" "8 * (7 - i) + n mod 8 = 32 + n" by (simp_all add: i_def)
        from z i(1) have "\<not> bit (date_octets d ! i) (n mod 8)" by simp
        then show ?thesis using nth [of i] i by (simp add: bit_simps)
      next
        case False
        then show ?thesis using bit_imp_le_length [of d "32 + n"] by auto
      qed
      then show "bit (drop_bit 32 d) n = bit 0 n" by (simp add: bit_simps)
    qed
  next
    assume z: "drop_bit 32 d = 0"
    show "\<forall>i < 4. date_octets d ! i = 0"
    proof (intro allI impI)
      fix i :: nat assume i: "i < 4"
      have "drop_bit (8 * (7 - i)) d = drop_bit (8 * (3 - i)) (drop_bit 32 d)"
        using i by (simp add: drop_bit_drop_bit) (rule arg_cong [where f = "\<lambda>k. drop_bit k d"], simp)
      then show "date_octets d ! i = 0" using nth [of i] i z by simp
    qed
  qed
qed

lemma length_skip_date: "length (skip_zero_octets (date_octets d)) \<le> 4 \<longleftrightarrow> drop_bit 32 d = 0"
proof -
  obtain a b c e f g h i where o: "date_octets d = [a, b, c, e, f, g, h, i]"
    by (rule date_octets_cases)
  have "drop_bit 32 d = 0 \<longleftrightarrow> a = 0 \<and> b = 0 \<and> c = 0 \<and> e = 0"
    unfolding date_top_octets [symmetric] o by (auto simp: less_Suc_eq numeral_eq_Suc)
  then show ?thesis unfolding o by auto
qed

lemma drop_bit_32_zero: "drop_bit 32 d = 0 \<longleftrightarrow> (d :: u64) < 2 ^ 32"
proof -
  have "unat (drop_bit 32 d) = unat d div 2 ^ 32" by (simp add: drop_bit_eq_div unat_div)
  moreover have "d < 2 ^ 32 \<longleftrightarrow> unat d < 2 ^ 32" by (simp add: word_less_nat_alt)
  ultimately show ?thesis
    by (metis div_eq_0_iff unat_0 unat_eq_0 zero_neq_numeral power_not_zero)
qed


section \<open>The loops return\<close>

text \<open>What is relied on: an iterator that has delivered an element has fewer left.\<close>

definition wsp_finite :: "('it, 'mi) wsp_decoders \<Rightarrow> ('it \<Rightarrow> nat) \<Rightarrow> ('mi \<Rightarrow> nat) \<Rightarrow> bool" where
  "wsp_finite w left mleft \<longleftrightarrow>
     (\<forall>it. fst (wsp_header_iter_next w it) \<longrightarrow> left (snd (wsp_header_iter_next w it)) < left it)
     \<and> (\<forall>mi. fst (wsp_multipart_iter_next w mi) \<longrightarrow> mleft (snd (wsp_multipart_iter_next w mi)) < mleft mi)"

definition returns :: "'a call \<Rightarrow> bool" where
  "returns c \<longleftrightarrow> c \<noteq> None"

lemma returns_Some [simp]: "returns (Some x)"
  by (simp add: returns_def)

lemma parse_headers_loop_returns:
  assumes "wsp_finite w left mleft"
  shows "returns (parse_headers_loop w i it es m)"
proof (induction "left it" arbitrary: i it es m rule: less_induct)
  case less
  let ?nx = "wsp_header_iter_next w it"
  show ?case
  proof (cases "fst ?nx")
    case True
    with assms have "left (snd ?nx) < left it" by (simp add: wsp_finite_def)
    from less [OF this] True show ?thesis
      by (subst parse_headers_loop.simps) (simp split: outcome.split)
  qed (subst parse_headers_loop.simps, simp)
qed

lemma attachment_parse_headers_returns:
  assumes "wsp_finite w left mleft"
  shows "returns (attachment_parse_headers w it part)"
proof (induction "left it" arbitrary: it part rule: less_induct)
  case less
  let ?nx = "wsp_header_iter_next w it"
  show ?case
  proof (cases "fst ?nx")
    case True
    with assms have "left (snd ?nx) < left it" by (simp add: wsp_finite_def)
    from less [OF this] True show ?thesis
      by (subst attachment_parse_headers.simps) (simp split: outcome.split)
  qed (subst attachment_parse_headers.simps, simp)
qed

lemma call_bind_returns [intro!]: "returns c \<Longrightarrow> (\<And>x. c = Some (Ret x) \<Longrightarrow> returns (f x)) \<Longrightarrow> returns (call_bind c f)"
  by (auto simp: returns_def call_bind_def split: option.split outcome.split)

lemma parse_part_returns: "wsp_finite w left mleft \<Longrightarrow> returns (parse_part w mi)"
  using attachment_parse_headers_returns [of w left mleft]
  by (auto simp: parse_part_def Let_def split: option.split)

lemma parse_parts_loop_returns:
  assumes "wsp_finite w left mleft"
  shows "returns (parse_parts_loop w mi parts)"
proof (induction "mleft mi" arbitrary: mi parts rule: less_induct)
  case less
  let ?nx = "wsp_multipart_iter_next w mi"
  show ?case
  proof (cases "fst ?nx")
    case True
    with assms have "mleft (snd ?nx) < mleft mi" by (simp add: wsp_finite_def)
    from parse_part_returns [OF assms, of "snd ?nx"] obtain r where "parse_part w (snd ?nx) = Some r"
      by (auto simp: returns_def)
    with less [OF \<open>mleft (snd ?nx) < mleft mi\<close>] True show ?thesis
      by (subst parse_parts_loop.simps) (simp split: outcome.split option.split)
  qed (subst parse_parts_loop.simps, simp)
qed

lemma mms_parse_headers_returns: "wsp_finite w left mleft \<Longrightarrow> returns (mms_parse_headers w args it m)"
  unfolding mms_parse_headers_def
  by (rule call_bind_returns) (auto simp: parse_headers_loop_returns)

lemma mms_parse_attachments_returns: "wsp_finite w left mleft \<Longrightarrow> returns (mms_parse_attachments w it m)"
  using parse_parts_loop_returns [of w left mleft]
  by (auto simp: mms_parse_attachments_def Let_def split: option.split prod.split)

lemma decode_by_type_returns:
  assumes "wsp_finite w left mleft"
  shows "returns (decode_by_type w t it m)"
  using mms_parse_headers_returns [OF assms] mms_parse_attachments_returns [OF assms]
  by (cases t) (auto simp: decode_send_req_def decode_retrieve_conf_def)

section \<open>The loops are defined\<close>

text \<open>Which header an iterator stands at.\<close>

definition at_header :: "('it, 'mi) wsp_decoders \<Rightarrow> 'it \<Rightarrow> mms_header \<Rightarrow> bool" where
  "at_header w it h \<longleftrightarrow> wsp_header_iter_get_hdr_type w it = WSP_HEADER_TYPE_WELL_KNOWN
     \<and> wsp_header_iter_get_hdr w it \<noteq> []
     \<and> unat (wsp_header_iter_get_hdr w it ! 0 AND 0x7f) = header_code h"

text \<open>What the library promises of a header it delivers: a well-known header has its octet, a SHORT value too.\<close>

definition wsp_values_ok :: "('it, 'mi) wsp_decoders \<Rightarrow> bool" where
  "wsp_values_ok w \<longleftrightarrow> (\<forall>it.
     (wsp_header_iter_get_hdr_type w it = WSP_HEADER_TYPE_WELL_KNOWN \<longrightarrow> wsp_header_iter_get_hdr w it \<noteq> [])
     \<and> (wsp_header_iter_get_val_type w it = WSP_VALUE_TYPE_SHORT \<longrightarrow> wsp_header_iter_get_val w it \<noteq> []))"

text \<open>An iterator that stands at a From header whose value has no octets, and the iterators that the header loops of a
  PDU reach from another one.\<close>

definition at_empty_from :: "('it, 'mi) wsp_decoders \<Rightarrow> 'it \<Rightarrow> bool" where
  "at_empty_from w it \<longleftrightarrow> at_header w it MMS_HEADER_FROM
     \<and> wsp_header_iter_get_val_type w it = WSP_VALUE_TYPE_LONG \<and> wsp_header_iter_get_val w it = []"

inductive reaches_header :: "('it, 'mi) wsp_decoders \<Rightarrow> 'it \<Rightarrow> 'it \<Rightarrow> bool" for w where
  Here: "reaches_header w it it"
| Further: "wsp_header_iter_next w it = (True, it1) \<Longrightarrow> reaches_header w it1 it2 \<Longrightarrow> reaches_header w it it2"

text \<open>The kind of write of each header's handler, and the places that take it.\<close>

fun slot_fits :: "mms_header \<Rightarrow> slot \<Rightarrow> bool" where
  "slot_fits h (Slot_Str u) = (h \<in> {MMS_HEADER_BCC, MMS_HEADER_CC, MMS_HEADER_CONTENT_LOCATION,
     MMS_HEADER_CONTENT_TYPE, MMS_HEADER_FROM, MMS_HEADER_MESSAGE_CLASS, MMS_HEADER_MESSAGE_ID,
     MMS_HEADER_RESPONSE_TEXT, MMS_HEADER_SUBJECT, MMS_HEADER_TO, MMS_HEADER_TRANSACTION_ID,
     MMS_HEADER_RETRIEVE_TEXT})"
| "slot_fits h (Slot_Octet u) = (h \<in> {MMS_HEADER_MESSAGE_TYPE, MMS_HEADER_MMS_VERSION, MMS_HEADER_PRIORITY,
     MMS_HEADER_RESPONSE_STATUS, MMS_HEADER_SENDER_VISIBILITY, MMS_HEADER_STATUS,
     MMS_HEADER_RETRIEVE_STATUS, MMS_HEADER_READ_STATUS})"
| "slot_fits h (Slot_Time u) = (h \<in> {MMS_HEADER_DATE, MMS_HEADER_DELIVERY_TIME, MMS_HEADER_EXPIRY})"
| "slot_fits h (Slot_Size u) = (h = MMS_HEADER_MESSAGE_SIZE)"
| "slot_fits h (Slot_Bool u) = (h \<in> {MMS_HEADER_DELIVERY_REPORT, MMS_HEADER_READ_REPORT,
     MMS_HEADER_REPORT_ALLOWED})"

lemma with_short_cases:
  assumes "wsp_values_ok w"
  shows "with_short w it f = failed \<or> (\<exists>p. with_short w it f = Ret (f p))"
  using assms by (auto simp: with_short_def octet_at_def wsp_values_ok_def)

lemmas short_handlers = extract_short_def extract_boolean_def extract_sender_visibility_def
  extract_priority_def extract_rsp_status_def extract_status_def extract_retrieve_status_def
  extract_read_status_def

lemmas text_handlers = extract_text_def extract_encoded_text_def extract_encoded_text_element_def
  extract_subject_def extract_message_class_def

lemmas time_handlers = extract_date_def extract_absolute_relative_date_def extract_unsigned_def

text \<open>The writes a handler can make.\<close>

definition writes :: "handled \<Rightarrow> (cell_write \<Rightarrow> bool) \<Rightarrow> bool" where
  "writes r K \<longleftrightarrow> (\<exists>ok c. r = Ret (ok, c) \<and> (c = W_None \<or> K c))"

definition is_str :: "cell_write \<Rightarrow> bool" where
  "is_str c \<longleftrightarrow> (\<exists>t. c = W_Str t) \<or> (\<exists>t. c = W_Append t)"

lemma writes_Ret [simp]: "writes (Ret (ok, c)) K \<longleftrightarrow> c = W_None \<or> K c"
  by (auto simp: writes_def)

lemma writes_failed [simp]: "writes failed K"
  by (simp add: failed_def)

lemma writes_short:
  assumes "wsp_values_ok w" and "\<And>p. snd (f p) = W_None \<or> K (snd (f p))"
  shows "writes (with_short w it f) K"
  using with_short_cases [OF assms(1), of it f]
proof (elim disjE exE)
  fix p assume "with_short w it f = Ret (f p)"
  then show ?thesis using assms(2) [of p] by (cases "f p") simp
qed simp

lemma writes_text:
  assumes "wsp_values_ok w"
  shows "writes (extract_text w it) is_str" "writes (extract_encoded_text w it) is_str"
    "writes (extract_encoded_text_element w it) is_str" "writes (extract_subject w it) is_str"
    "writes (extract_message_class w it) is_str"
  by (auto simp: text_handlers is_str_def failed_def split: option.split
      wsp_value_type.split intro!: writes_short [OF assms])

lemma writes_from:
  assumes "\<not> at_empty_from w it" and "at_header w it MMS_HEADER_FROM"
  shows "writes (extract_from w it) is_str"
  using assms by (auto simp: extract_from_def is_str_def octet_at_def
      at_empty_from_def Let_def split: option.split)

lemma writes_octet:
  assumes "wsp_values_ok w"
  shows "writes (extract_short w it) (\<lambda>c. \<exists>b. c = W_Octet b)"
    "writes (extract_sender_visibility w it) (\<lambda>c. \<exists>b. c = W_Octet b)"
    "writes (extract_priority w it) (\<lambda>c. \<exists>b. c = W_Octet b)"
    "writes (extract_rsp_status w it) (\<lambda>c. \<exists>b. c = W_Octet b)"
    "writes (extract_status w it) (\<lambda>c. \<exists>b. c = W_Octet b)"
    "writes (extract_retrieve_status w it) (\<lambda>c. \<exists>b. c = W_Octet b)"
    "writes (extract_read_status w it) (\<lambda>c. \<exists>b. c = W_Octet b)"
    "writes (extract_boolean w it) (\<lambda>c. \<exists>b. c = W_Bool b)"
  unfolding short_handlers by (rule writes_short [OF assms]; auto)+

lemma writes_time:
  "writes (extract_date w it) (\<lambda>c. \<exists>t. c = W_Time t)"
  "writes (extract_absolute_relative_date w it) (\<lambda>c. \<exists>t. c = W_Time t)"
  "writes (extract_unsigned w it) (\<lambda>c. \<exists>n. c = W_Size n)"
  by (auto simp: time_handlers octet_at_def Let_def)

lemma apply_write_defined:
  "c = W_None \<Longrightarrow> \<exists>m'. apply_write s c m = Ret m'"
  "is_str c \<Longrightarrow> \<exists>m'. apply_write (Slot_Str u1) c m = Ret m'"
  "\<exists>b. c = W_Octet b \<Longrightarrow> \<exists>m'. apply_write (Slot_Octet u2) c m = Ret m'"
  "\<exists>b. c = W_Time b \<Longrightarrow> \<exists>m'. apply_write (Slot_Time u3) c m = Ret m'"
  "\<exists>b. c = W_Size b \<Longrightarrow> \<exists>m'. apply_write (Slot_Size u4) c m = Ret m'"
  "\<exists>b. c = W_Bool b \<Longrightarrow> \<exists>m'. apply_write (Slot_Bool u5) c m = Ret m'"
  by (auto simp: is_str_def)

lemma handler_fits:
  assumes "wsp_values_ok w" and "\<not> at_empty_from w it" and h: "at_header w it h" and s: "slot_fits h s"
  shows "\<exists>ok c m'. handler_for_type w h it = Ret (ok, c) \<and> apply_write s c m = Ret m'"
proof (cases s)
  case (Slot_Str u)
  with s have "writes (handler_for_type w h it) is_str"
    using writes_text [OF assms(1)] writes_from [OF assms(2)] h by auto
  with Slot_Str show ?thesis unfolding writes_def using apply_write_defined(1,2) by metis
next
  case (Slot_Octet u)
  with s have "writes (handler_for_type w h it) (\<lambda>c. \<exists>b. c = W_Octet b)"
    using writes_octet [OF assms(1)] by auto
  with Slot_Octet show ?thesis unfolding writes_def using apply_write_defined(1,3) by metis
next
  case (Slot_Time u)
  with s have "writes (handler_for_type w h it) (\<lambda>c. \<exists>t. c = W_Time t)"
    using writes_time by auto
  with Slot_Time show ?thesis unfolding writes_def using apply_write_defined(1,4) by metis
next
  case (Slot_Size u)
  with s have "writes (handler_for_type w h it) (\<lambda>c. \<exists>n. c = W_Size n)"
    using writes_time by auto
  with Slot_Size show ?thesis unfolding writes_def using apply_write_defined(1,5) by metis
next
  case (Slot_Bool u)
  with s have "writes (handler_for_type w h it) (\<lambda>c. \<exists>b. c = W_Bool b)"
    using writes_octet(8) [OF assms(1)] by auto
  with Slot_Bool show ?thesis unfolding writes_def using apply_write_defined(1,6) by metis
qed

definition entries_fit :: "entries \<Rightarrow> bool" where
  "entries_fit es \<longleftrightarrow> (\<forall>h s. he_data (es h) = Some s \<longrightarrow> slot_fits h s)"

lemma header_step_defined:
  assumes "wsp_values_ok w" and "\<not> at_empty_from w it" and "entries_fit es"
  shows "\<exists>go es' m'. header_step w i it es m = Ret (go, es', m') \<and> entries_fit es'"
proof (cases "wsp_header_iter_get_hdr_type w it = WSP_HEADER_TYPE_WELL_KNOWN")
  case False
  with assms show ?thesis by (auto simp: header_step_def)
next
  case wk: True
  with assms(1) obtain p0 where p0: "octet_at (wsp_header_iter_get_hdr w it) 0 = Ret p0"
    by (auto simp: wsp_values_ok_def octet_at_def)
  show ?thesis
  proof (cases "header_of (unat (p0 AND 0x7f))")
    case None
    with wk p0 assms(3) show ?thesis by (auto simp: header_step_def)
  next
    case (Some h)
    then have at: "at_header w it h"
      using wk p0 by (auto simp: at_header_def octet_at_def dest: header_of_Some split: if_splits)
    have fit: "entries_fit (es(h := mark_entry i (es h)))"
      using assms(3) by (simp add: entries_fit_def mark_entry_def)
    show ?thesis
    proof (cases "he_data (es h)")
      case None
      with wk p0 Some fit show ?thesis by (auto simp: header_step_def)
    next
      case data: (Some s)
      then obtain ok c m' where "handler_for_type w h it = Ret (ok, c)" "apply_write s c m = Ret m'"
        using handler_fits [OF assms(1,2) at, of s m] assms(3) by (auto simp: entries_fit_def)
      with wk p0 Some fit data assms(3) show ?thesis by (auto simp: header_step_def)
    qed
  qed
qed


definition not_undef :: "'a call \<Rightarrow> bool" where
  "not_undef c \<longleftrightarrow> c \<noteq> Some Undef"

lemma not_undef_Ret [simp]: "not_undef (Some (Ret x))" "not_undef None" "\<not> not_undef (Some Undef)"
  by (simp_all add: not_undef_def)

lemma call_bind_not_undef [intro!]:
  "not_undef c \<Longrightarrow> (\<And>x. c = Some (Ret x) \<Longrightarrow> not_undef (f x)) \<Longrightarrow> not_undef (call_bind c f)"
  by (auto simp: not_undef_def call_bind_def split: option.split outcome.split)

lemmas parse_headers_loop_induct = parse_headers_loop.raw_induct [rotated, consumes 1, case_names step]
lemmas attachment_parse_headers_induct =
  attachment_parse_headers.raw_induct [rotated, consumes 1, case_names step]
lemmas parse_parts_loop_induct = parse_parts_loop.raw_induct [rotated, consumes 1, case_names step]

text \<open>The loop over the headers is undefined only if it comes to such a From header.\<close>

definition undef_at_empty_from :: "('it, 'mi) wsp_decoders \<Rightarrow> 'it \<Rightarrow> 'a call \<Rightarrow> bool" where
  "undef_at_empty_from w it c \<longleftrightarrow> not_undef c \<or> (\<exists>it'. reaches_header w it it' \<and> at_empty_from w it')"

lemma undef_at_bind [intro!]:
  "undef_at_empty_from w it c \<Longrightarrow> (\<And>x. c = Some (Ret x) \<Longrightarrow> undef_at_empty_from w it (f x)) \<Longrightarrow>
     undef_at_empty_from w it (call_bind c f)"
  by (auto simp: undef_at_empty_from_def)

lemma undef_at_defined [simp]: "not_undef c \<Longrightarrow> undef_at_empty_from w it c"
  by (simp add: undef_at_empty_from_def)

lemma parse_headers_loop_undef:
  assumes "wsp_values_ok w" and "entries_fit es"
  shows "undef_at_empty_from w it (parse_headers_loop w i it es m)"
proof -
  have "r \<noteq> Undef \<or> (\<exists>it'. reaches_header w it it' \<and> at_empty_from w it')"
    if "parse_headers_loop w i it es m = Some r" for r
    using that assms
  proof (induction rule: parse_headers_loop_induct)
    case (step loop w i it es m r)
    let ?nx = "wsp_header_iter_next w it"
    show ?case
    proof (cases "fst ?nx \<and> at_empty_from w (snd ?nx)")
      case True
      then have "reaches_header w it (snd ?nx)" by (intro Further [OF _ Here]) (simp add: prod_eq_iff)
      with True show ?thesis by blast
    next
      case False
      show ?thesis
      proof (cases "fst ?nx")
        case next_header: True
        with False header_step_defined [OF step(3) _ step(4), of "snd ?nx" i m] obtain go es' m' where
          st: "header_step w i (snd ?nx) es m = Ret (go, es', m')" "entries_fit es'" by blast
        show ?thesis
        proof (cases go)
          case True
          with st next_header step(2) have "loop w (i + 1) (snd ?nx) es' m' = Some r" by simp
          from step(1) [OF this step(3) st(2)] show ?thesis
          proof (elim disjE exE conjE)
            fix it' assume "reaches_header w (snd ?nx) it'" and e: "at_empty_from w it'"
            then have "reaches_header w it it'" by (intro Further [of w it "snd ?nx"]) (simp_all add: prod_eq_iff next_header)
            with e show ?thesis by blast
          qed simp
        qed (use st next_header step(2) in auto)
      qed (use step(2) in auto)
    qed
  qed
  then show ?thesis by (auto simp: undef_at_empty_from_def not_undef_def)
qed

lemma part_header_step_defined: "wsp_values_ok w \<Longrightarrow> part_header_step w it part \<noteq> Undef"
  by (auto simp: part_header_step_def Let_def octet_at_def wsp_values_ok_def)

lemma attachment_parse_headers_not_undef:
  assumes "wsp_values_ok w"
  shows "not_undef (attachment_parse_headers w it part)"
proof -
  have "r \<noteq> Undef" if "attachment_parse_headers w it part = Some r" for r
    using that assms
  proof (induction rule: attachment_parse_headers_induct)
    case (step loop w it part r)
    have IH: "loop w a b \<noteq> Some Undef" for a b
      using step(1) [OF _ step(3)] by blast
    from step(2) IH part_header_step_defined [OF step(3), of "snd (wsp_header_iter_next w it)" part]
    show ?case by (auto split: if_splits outcome.splits)
  qed
  then show ?thesis by (auto simp: not_undef_def)
qed

lemma parse_part_not_undef: "wsp_values_ok w \<Longrightarrow> not_undef (parse_part w mi)"
  using attachment_parse_headers_not_undef [of w]
  by (auto simp: parse_part_def Let_def split: option.split)

lemma parse_parts_loop_not_undef:
  assumes "wsp_values_ok w"
  shows "not_undef (parse_parts_loop w mi parts)"
proof -
  have "r \<noteq> Undef" if "parse_parts_loop w mi parts = Some r" for r
    using that assms
  proof (induction rule: parse_parts_loop_induct)
    case (step loop w mi parts r)
    have IH: "loop w a b \<noteq> Some Undef" for a b
      using step(1) [OF _ step(3)] by blast
    from step(2) IH parse_part_not_undef [OF step(3), of "snd (wsp_multipart_iter_next w mi)"]
    show ?case by (auto split: if_splits outcome.splits option.splits)
  qed
  then show ?thesis by (auto simp: not_undef_def)
qed

lemma mms_parse_attachments_not_undef: "wsp_values_ok w \<Longrightarrow> not_undef (mms_parse_attachments w it m)"
  using parse_parts_loop_not_undef [of w]
  by (auto simp: mms_parse_attachments_def Let_def split: option.split prod.split)

lemma entries_fit_update:
  assumes "entries_fit es" and "\<And>s. he_data e = Some s \<Longrightarrow> slot_fits h s"
  shows "entries_fit (es(h := e))"
  using assms unfolding entries_fit_def by (metis fun_upd_apply)

lemma entries_fit_fill:
  "(\<forall>(h, f, d) \<in> set args. \<forall>s. d = Some s \<longrightarrow> slot_fits h s) \<Longrightarrow> entries_fit es \<Longrightarrow>
     entries_fit (fill_entries args es)"
proof (induction args es rule: fill_entries.induct)
  case (2 h f d args es)
  from 2(2) have all: "\<forall>(h, f, d) \<in> set args. \<forall>s. d = Some s \<longrightarrow> slot_fits h s" by auto
  have "slot_fits h s" if "d = Some s" for s using 2(2) that by auto
  then have "entries_fit (es(h := (es h)\<lparr>he_flags := f, he_data := d\<rparr>))"
    by (intro entries_fit_update 2(3)) simp
  from 2(1) [OF all this] show ?case by (simp only: fill_entries.simps)
qed simp

lemma entries_fit_no_entries [simp]: "entries_fit no_entries"
  by (simp add: entries_fit_def no_entries_def)

lemmas args_defs = notification_ind_args_def notify_resp_ind_args_def acknowledge_ind_args_def
  delivery_ind_args_def read_ind_args_def retrieve_conf_args_def send_conf_args_def decode_send_req_args_def
  version_arg_def transaction_id_slot_def

lemma mms_parse_headers_undef:
  assumes "wsp_values_ok w" and "\<forall>(h, f, d) \<in> set args. \<forall>s. d = Some s \<longrightarrow> slot_fits h s"
  shows "undef_at_empty_from w it (mms_parse_headers w args it m)"
  using parse_headers_loop_undef [OF assms(1) entries_fit_fill [OF assms(2)]]
  unfolding mms_parse_headers_def by auto

lemma decode_by_type_undef:
  assumes "wsp_values_ok w"
  shows "undef_at_empty_from w it (decode_by_type w t it m)"
  using mms_parse_headers_undef [OF assms] mms_parse_attachments_not_undef [OF assms]
  by (cases t) (auto simp: decode_send_req_def decode_retrieve_conf_def args_defs)

section \<open>What a successful decoding guarantees\<close>

lemma parse_headers_loop_invariant:
  assumes "parse_headers_loop w i it es m = Some (Ret (it', es', m'))" and "I i es m"
    and step: "\<And>i it es m go es' m'. I i es m \<Longrightarrow> header_step w i it es m = Ret (go, es', m') \<Longrightarrow>
      I (i + 1) es' m'"
  shows "\<exists>j. I j es' m'"
proof -
  have "\<exists>j. I j es' m'"
    if "parse_headers_loop w i it es m = Some r" "r = Ret (it', es', m')" "I i es m"
      "\<And>i it es m go es' m'. I i es m \<Longrightarrow> header_step w i it es m = Ret (go, es', m') \<Longrightarrow> I (i + 1) es' m'" for r
    using that
  proof (induction rule: parse_headers_loop_induct)
    case (step loop w i it es m r)
    show ?case
    proof (cases "fst (wsp_header_iter_next w it)")
      case False
      with step show ?thesis by auto
    next
      case True
      with step(2,3) obtain go es1 m1 where
        st: "header_step w i (snd (wsp_header_iter_next w it)) es m = Ret (go, es1, m1)"
        by (auto split: outcome.splits)
      from step(5) [OF step(4) st] have I1: "I (i + 1) es1 m1" .
      show ?thesis
      proof (cases go)
        case go: True
        with True st step(2) have "loop w (i + 1) (snd (wsp_header_iter_next w it)) es1 m1 = Some r" by simp
        from step(1) [OF this step(3) I1 step(5)] show ?thesis .
      next
        case False
        with True st step(2,3) I1 show ?thesis by auto
      qed
    qed
  qed
  with assms show ?thesis by blast
qed


lemma header_step_cases:
  assumes "header_step w i it es m = Ret (go, es', m')"
  obtains "es' = es" "m' = m" "go"
  | h where "at_header w it h" "he_data (es h) = None" "es' = es(h := mark_entry i (es h))" "m' = m" "go"
  | h data c where "at_header w it h" "he_data (es h) = Some data" "handler_for_type w h it = Ret (go, c)"
      "apply_write data c m = Ret m'" "es' = (if go then es(h := mark_entry i (es h)) else es)"
      "HEADER_FLAG_MARKED \<in> he_flags (es h) \<Longrightarrow> HEADER_FLAG_ALLOW_MULTI \<in> he_flags (es h)"
proof (cases "wsp_header_iter_get_hdr_type w it = WSP_HEADER_TYPE_WELL_KNOWN")
  case False
  with assms that(1) show ?thesis by (simp add: header_step_def)
next
  case wk: True
  with assms obtain p0 where p0: "octet_at (wsp_header_iter_get_hdr w it) 0 = Ret p0"
    by (auto simp: header_step_def)
  show ?thesis
  proof (cases "header_of (unat (p0 AND 0x7f))")
    case None
    with wk p0 assms that(1) show ?thesis by (auto simp: header_step_def)
  next
    case (Some h)
    then have at: "at_header w it h"
      using wk p0 by (auto simp: at_header_def octet_at_def dest: header_of_Some split: if_splits)
    show ?thesis
    proof (cases "he_data (es h)")
      case None
      with wk p0 Some at assms that(2) [of h] show ?thesis by (auto simp: header_step_def)
    next
      case data: (Some s)
      show ?thesis
      proof (cases "HEADER_FLAG_MARKED \<in> he_flags (es h) \<and> HEADER_FLAG_ALLOW_MULTI \<notin> he_flags (es h)")
        case True
        with wk p0 Some data assms that(1) show ?thesis by (auto simp: header_step_def)
      next
        case False
        with wk p0 Some data assms obtain ok c where c: "handler_for_type w h it = Ret (ok, c)"
          "apply_write s c m = Ret m'" "go = ok" "es' = (if go then es(h := mark_entry i (es h)) else es)"
          by (auto simp: header_step_def split: if_splits)
        with False show ?thesis using that(3) [OF at data] by auto
      qed
    qed
  qed
qed


text \<open>The data pointers and the flags given by the caller stay.\<close>

definition entries_from :: "entries \<Rightarrow> entries \<Rightarrow> bool" where
  "entries_from es0 es \<longleftrightarrow> (\<forall>h. he_data (es h) = he_data (es0 h) \<and> he_flags (es0 h) \<subseteq> he_flags (es h)
     \<and> he_flags (es h) \<subseteq> insert HEADER_FLAG_MARKED (he_flags (es0 h)))"

lemma entries_from_refl [simp]: "entries_from es es"
  by (auto simp: entries_from_def)

lemma entries_from_flags: "entries_from es0 es \<Longrightarrow> he_flags (es0 h) \<subseteq> he_flags (es h)"
  and entries_from_data: "entries_from es0 es \<Longrightarrow> he_data (es h) = he_data (es0 h)"
  by (simp_all add: entries_from_def)

lemma entries_from_mark:
  assumes "entries_from es0 es" and "es' = es \<or> es' = es(h := mark_entry i (es h))"
  shows "entries_from es0 es'"
proof -
  have "he_data (es' k) = he_data (es k) \<and> he_flags (es k) \<subseteq> he_flags (es' k)
      \<and> he_flags (es' k) \<subseteq> insert HEADER_FLAG_MARKED (he_flags (es k))" for k
    using assms(2) by (auto simp: mark_entry_def split: if_splits)
  note each = this
  have "he_data (es' k) = he_data (es0 k) \<and> he_flags (es0 k) \<subseteq> he_flags (es' k)
      \<and> he_flags (es' k) \<subseteq> insert HEADER_FLAG_MARKED (he_flags (es0 k))" for k
  proof -
    have "he_data (es k) = he_data (es0 k) \<and> he_flags (es0 k) \<subseteq> he_flags (es k)
      \<and> he_flags (es k) \<subseteq> insert HEADER_FLAG_MARKED (he_flags (es0 k))"
      using assms(1) by (simp add: entries_from_def)
    with each [of k] show ?thesis by auto
  qed
  then show ?thesis by (simp add: entries_from_def)
qed

lemma header_step_stop: "header_step w i it es m = Ret (False, es', m') \<Longrightarrow> es' = es"
  by (erule header_step_cases) auto

lemma header_step_entries:
  assumes "header_step w i it es m = Ret (go, es', m')"
  shows "es' = es \<or> (\<exists>h. at_header w it h \<and> es' = es(h := mark_entry i (es h)))"
  using assms by (rule header_step_cases) auto

lemma header_step_from:
  "header_step w i it es m = Ret (go, es', m') \<Longrightarrow> entries_from es0 es \<Longrightarrow> entries_from es0 es'"
  using header_step_entries entries_from_mark by metis

lemma fill_entries_notin: "h \<notin> fst ` set args \<Longrightarrow> fill_entries args es h = es h"
  by (induction args es rule: fill_entries.induct) auto

text \<open>A handler that fails writes nothing.\<close>

lemma handler_failure: "handler_for_type w h it = Ret (False, c) \<Longrightarrow> c = W_None"
  by (cases h)
    (auto simp: short_handlers text_handlers time_handlers extract_from_def with_short_def failed_def Let_def
      split: if_splits option.splits wsp_value_type.splits)

lemma handler_text:
  "h \<in> {MMS_HEADER_TRANSACTION_ID, MMS_HEADER_MESSAGE_ID, MMS_HEADER_CONTENT_LOCATION, MMS_HEADER_MESSAGE_CLASS}
     \<Longrightarrow> handler_for_type w h it = Ret (True, c) \<Longrightarrow> \<exists>t. c = W_Str (Some t)"
  by (auto simp: text_handlers with_short_def failed_def split: if_splits option.splits wsp_value_type.splits)

text \<open>The position of a header that is parsed once: the first occurrence after the loop has started.\<close>

definition single :: "entries \<Rightarrow> mms_header \<Rightarrow> bool" where
  "single es h \<longleftrightarrow> he_data (es h) \<noteq> None \<and> HEADER_FLAG_ALLOW_MULTI \<notin> he_flags (es h)"

lemma single_from: "entries_from es0 es \<Longrightarrow> single es0 h \<Longrightarrow> single es h"
  by (auto simp: single_def entries_from_def)

lemma single_step:
  assumes "header_step w i it es m = Ret (go, es', m')" and "single es h"
    and "HEADER_FLAG_MARKED \<in> he_flags (es h)"
  shows "es' h = es h"
  using assms(1) by (rule header_step_cases) (use assms(2,3) in \<open>auto simp: single_def\<close>)

lemma loop_positions:
  assumes run: "parse_headers_loop w i it es m = Some (Ret (it', es', m'))" and h: "single es h"
  shows "entries_from es es'"
    and "HEADER_FLAG_MARKED \<in> he_flags (es h) \<Longrightarrow> he_pos (es' h) = he_pos (es h)"
    and "HEADER_FLAG_MARKED \<notin> he_flags (es h) \<Longrightarrow> HEADER_FLAG_MARKED \<in> he_flags (es' h) \<Longrightarrow> i \<le> he_pos (es' h)"
proof -
  let ?I = "\<lambda>j es1 m1. i \<le> j \<and> entries_from es es1
    \<and> (HEADER_FLAG_MARKED \<in> he_flags (es h) \<longrightarrow> he_pos (es1 h) = he_pos (es h))
    \<and> (HEADER_FLAG_MARKED \<notin> he_flags (es h) \<longrightarrow> HEADER_FLAG_MARKED \<in> he_flags (es1 h) \<longrightarrow> i \<le> he_pos (es1 h))"
  have "\<exists>j. ?I j es' m'"
  proof (rule parse_headers_loop_invariant [OF run, where I = ?I])
    show "?I i es m" by simp
  next
    fix j it1 es1 m1 go es2 m2
    assume I: "?I j es1 m1" and st: "header_step w j it1 es1 m1 = Ret (go, es2, m2)"
    have f: "entries_from es es2" using header_step_from [OF st] I by blast
    have s1: "single es1 h" using I h single_from by blast
    show "?I (j + 1) es2 m2"
    proof (cases "HEADER_FLAG_MARKED \<in> he_flags (es1 h)")
      case True
      with I f single_step [OF st s1] show ?thesis by simp
    next
      case False
      then have um: "HEADER_FLAG_MARKED \<notin> he_flags (es h)" using I by (auto simp: entries_from_def)
      moreover have "i \<le> he_pos (es2 h)" if "HEADER_FLAG_MARKED \<in> he_flags (es2 h)"
        using header_step_entries [OF st] that False I by (auto simp: mark_entry_def split: if_splits)
      ultimately show ?thesis using I f by auto
    qed
  qed
  then show "entries_from es es'"
    and "HEADER_FLAG_MARKED \<in> he_flags (es h) \<Longrightarrow> he_pos (es' h) = he_pos (es h)"
    and "HEADER_FLAG_MARKED \<notin> he_flags (es h) \<Longrightarrow> HEADER_FLAG_MARKED \<in> he_flags (es' h) \<Longrightarrow> i \<le> he_pos (es' h)"
    by auto
qed

lemma loop_first_header:
  assumes run: "parse_headers_loop w i it es m = Some (Ret (it', esf, mf))" and h: "single es h"
    and unm: "HEADER_FLAG_MARKED \<notin> he_flags (es h)" and "HEADER_FLAG_MARKED \<in> he_flags (esf h)"
    and "he_pos (esf h) = i"
  obtains it1 m1 where "wsp_header_iter_next w it = (True, it1)" "at_header w it1 h"
    "parse_headers_loop w (i + 1) it1 (es(h := mark_entry i (es h))) m1 = Some (Ret (it', esf, mf))"
proof -
  let ?nx = "wsp_header_iter_next w it"
  note unf = run [unfolded parse_headers_loop.simps [of w i it es m]]
  have nx: "fst ?nx"
  proof (rule ccontr)
    assume "\<not> fst ?nx"
    with unf have "esf = es" by simp
    with assms(3,4) show False by simp
  qed
  with unf obtain go es1 m1 where st: "header_step w i (snd ?nx) es m = Ret (go, es1, m1)"
    by (auto split: outcome.splits)
  have m1: "HEADER_FLAG_MARKED \<in> he_flags (es1 h)"
  proof (rule ccontr)
    assume um: "HEADER_FLAG_MARKED \<notin> he_flags (es1 h)"
    show False
    proof (cases go)
      case True
      with unf nx st have "parse_headers_loop w (i + 1) (snd ?nx) es1 m1 = Some (Ret (it', esf, mf))" by simp
      from loop_positions(3) [OF this _ um assms(4)] h st have "i + 1 \<le> he_pos (esf h)"
        using header_step_from [OF st entries_from_refl] single_from by blast
      with assms(5) show False by simp
    next
      case False
      with unf nx st um assms(4) show False by simp
    qed
  qed
  with header_step_entries [OF st] unm have es1: "es1 = es(h := mark_entry i (es h))" and at: "at_header w (snd ?nx) h"
    by (auto split: if_splits)
  have "go" using header_step_stop st m1 unm by (metis (full_types))
  with unf nx st es1 at that [of "snd ?nx" m1] show ?thesis by (cases ?nx) auto
qed


section \<open>Properties\<close>

text \<open>A library that delivers given headers: each with its type, its octets, its value type and its value.\<close>

type_synonym sample_header = "wsp_header_type \<times> byte list \<times> wsp_value_type \<times> byte list"

definition sample_decoders :: "sample_header list \<Rightarrow> (sample_header list, unit) wsp_decoders" where
  "sample_decoders hs = \<lparr>wsp_header_iter_init = (\<lambda>pdu f. (WSP_HEADER_TYPE_APPLICATION, [], WSP_VALUE_TYPE_TEXT, []) # hs),
     wsp_header_iter_next = (\<lambda>it. case it of _ # h # hs \<Rightarrow> (True, h # hs) | _ \<Rightarrow> (False, it)),
     wsp_header_iter_get_hdr_type = (\<lambda>it. case it of [] \<Rightarrow> WSP_HEADER_TYPE_APPLICATION | (t, _) # _ \<Rightarrow> t),
     wsp_header_iter_get_hdr = (\<lambda>it. case it of (_, h, _) # _ \<Rightarrow> (case h of [] \<Rightarrow> [0] | _ \<Rightarrow> h) | [] \<Rightarrow> [0]),
     wsp_header_iter_get_val_type = (\<lambda>it. case it of [] \<Rightarrow> WSP_VALUE_TYPE_TEXT | (_, _, t, _) # _ \<Rightarrow> t),
     wsp_header_iter_get_val = (\<lambda>it. case it of (_, _, _, v) # _ \<Rightarrow> (case v of [] \<Rightarrow> [0] | _ \<Rightarrow> v) | [] \<Rightarrow> [0]),
     wsp_header_iter_at_end = (\<lambda>it. length it \<le> 1),
     wsp_header_iter_is_multipart = (\<lambda>it. False), wsp_header_iter_is_content_type = (\<lambda>it. False),
     wsp_decode_text = (\<lambda>p. Some (string_of (takeWhile (\<lambda>b. b \<noteq> 0) p))),
     wsp_decode_token_text = (\<lambda>p. Some (string_of (takeWhile (\<lambda>b. b \<noteq> 0) p))),
     wsp_decode_quoted_string = (\<lambda>p. None),
     wsp_decode_integer = (\<lambda>p. case p of [] \<Rightarrow> None | b # _ \<Rightarrow> Some (ucast (b AND 0x7f), 1)),
     wsp_decode_field = (\<lambda>p. Some (WSP_VALUE_TYPE_TEXT, p)), wsp_decode_content_type = (\<lambda>p. None),
     wsp_parameters = (\<lambda>p. []), wsp_multipart_iter_init = (\<lambda>it. None),
     wsp_multipart_iter_next = (\<lambda>mi. (False, mi)), wsp_multipart_iter_get_content_type = (\<lambda>mi. []),
     wsp_multipart_iter_get_hdr = (\<lambda>mi. []), wsp_multipart_iter_get_body_len = (\<lambda>mi. 0),
     wsp_multipart_iter_get_body_offset = (\<lambda>mi. 0), wsp_multipart_iter_close = (\<lambda>mi it. (True, it)),
     g_convert = (\<lambda>t f p. None), time_now = 0\<rparr>"

abbreviation "WK \<equiv> WSP_HEADER_TYPE_WELL_KNOWN"

definition sample_notification :: "sample_header list" where
  "sample_notification =
     [(WK, [0x8C], WSP_VALUE_TYPE_SHORT, [130]), (WK, [0x98], WSP_VALUE_TYPE_TEXT, [116, 0]),
      (WK, [0x8D], WSP_VALUE_TYPE_SHORT, [145]), (WK, [0x8A], WSP_VALUE_TYPE_SHORT, [128]),
      (WK, [0x8E], WSP_VALUE_TYPE_LONG, [1, 0]), (WK, [0x88], WSP_VALUE_TYPE_LONG, [129, 1, 60]),
      (WK, [0x83], WSP_VALUE_TYPE_TEXT, [104, 0])]"

lemma sample_decoders_ok:
  "wsp_finite (sample_decoders hs) length (\<lambda>_. 0)" "wsp_values_ok (sample_decoders hs)"
  by (auto simp: wsp_finite_def wsp_values_ok_def sample_decoders_def split: list.split)

lemma sample_value [simp]:
  "wsp_header_iter_get_val_type (sample_decoders hs) ((t, h, vt, v) # r) = vt"
  "v \<noteq> [] \<Longrightarrow> wsp_header_iter_get_val (sample_decoders hs) ((t, h, vt, v) # r) = v"
  by (simp_all add: sample_decoders_def split: list.split)

text \<open>C4. Decoding any PDU returns, and it reads no octet outside a header or a value but in one case: when the headers of
  the PDU hold a From whose value is empty, the handler of this header reads the value's first octet all the same. The
  library is relied on for iterators that end, and for an octet in each well-known header and in each SHORT value.\<close>

theorem decode_returns:
  assumes "wsp_finite w left mleft" and "wsp_values_ok w"
  shows "\<exists>r. mms_message_decode w pdu = Some r
    \<and> (r = Undef \<longrightarrow> (\<exists>it. reaches_header w (wsp_header_iter_init w pdu True) it \<and> at_empty_from w it))"
proof -
  let ?nx = "wsp_header_iter_next w (wsp_header_iter_init w pdu True)"
  have sh: "wsp_header_iter_get_val_type w it = WSP_VALUE_TYPE_SHORT \<Longrightarrow>
      \<exists>b. octet_at (wsp_header_iter_get_val w it) 0 = Ret b" for it
    using assms(2) by (auto simp: wsp_values_ok_def octet_at_def)
  have hd: "wsp_header_iter_get_hdr_type w it = WSP_HEADER_TYPE_WELL_KNOWN \<Longrightarrow>
      \<exists>b. octet_at (wsp_header_iter_get_hdr w it) 0 = Ret b" for it
    using assms(2) by (auto simp: wsp_values_ok_def octet_at_def)
  obtain okn it where nx: "?nx = (okn, it)" by (cases ?nx)
  consider "\<not> okn \<or> wsp_header_iter_get_hdr_type w it \<noteq> WSP_HEADER_TYPE_WELL_KNOWN"
    | p0 where "okn" "wsp_header_iter_get_hdr_type w it = WSP_HEADER_TYPE_WELL_KNOWN"
        "octet_at (wsp_header_iter_get_hdr w it) 0 = Ret p0"
    using hd by blast
  then show ?thesis
  proof cases
    case 1
    then show ?thesis by (auto simp: mms_message_decode_def nx)
  next
    case 2
    show ?thesis
    proof (cases "wsp_header_iter_get_val_type w it = WSP_VALUE_TYPE_SHORT")
      case False
      with 2 show ?thesis by (auto simp: mms_message_decode_def nx call_bind_def)
    next
      case True
      with sh obtain b where b: "octet_at (wsp_header_iter_get_val w it) 0 = Ret b" by blast
      show ?thesis
      proof (cases "message_type_of b")
        case None
        with 2 True b show ?thesis by (auto simp: mms_message_decode_def nx call_bind_def Let_def)
      next
        case (Some t)
        obtain r where r: "decode_by_type w t it (zero_message\<lparr>m_type := b\<rparr>) = Some r"
          using decode_by_type_returns [OF assms(1), of t it "zero_message\<lparr>m_type := b\<rparr>"] by (auto simp: returns_def)
        have "\<exists>it'. reaches_header w (wsp_header_iter_init w pdu True) it' \<and> at_empty_from w it'" if "r = Undef"
          using decode_by_type_undef [OF assms(2), of it t "zero_message\<lparr>m_type := b\<rparr>"] that r nx 2(1)
          by (auto simp: undef_at_empty_from_def intro: Further)
        with r 2 True b Some show ?thesis
          by (cases r) (auto simp: mms_message_decode_def nx call_bind_def Let_def)
      qed
    qed
  qed
qed

theorem decode_returns_witness:
  "\<exists>r. mms_message_decode (sample_decoders sample_notification) [1, 2] = Some r
    \<and> (r = Undef \<longrightarrow> (\<exists>it. reaches_header (sample_decoders sample_notification)
         (wsp_header_iter_init (sample_decoders sample_notification) [1, 2] True) it
       \<and> at_empty_from (sample_decoders sample_notification) it))"
  by (rule decode_returns [OF sample_decoders_ok])


text \<open>A From header whose value is empty makes the decoder read an octet that is not there.\<close>

theorem empty_from_undefined:
  assumes "wsp_header_iter_next w it = (True, it1)" and "at_header w it1 MMS_HEADER_FROM"
    and "wsp_header_iter_get_val_type w it1 = WSP_VALUE_TYPE_LONG" and "wsp_header_iter_get_val w it1 = []"
  shows "mms_parse_headers w notification_ind_args it m = Some Undef"
proof -
  have p0: "octet_at (wsp_header_iter_get_hdr w it1) 0 = Ret (wsp_header_iter_get_hdr w it1 ! 0)"
    and hd: "wsp_header_iter_get_hdr_type w it1 = WSP_HEADER_TYPE_WELL_KNOWN"
    and h: "header_of (unat (wsp_header_iter_get_hdr w it1 ! 0 AND 0x7f)) = Some MMS_HEADER_FROM"
    using assms(2) unfolding at_header_def octet_at_def by (simp_all del: header_code.simps)
  have "extract_from w it1 = Undef" using assms(3,4) by (simp add: extract_from_def octet_at_def)
  then have "header_step w 1 it1 (fill_entries notification_ind_args no_entries) m = Undef"
    using p0 hd h by (simp add: header_step_def args_defs no_entries_def)
  with assms(1) show ?thesis
    unfolding mms_parse_headers_def call_bind_def by (subst parse_headers_loop.simps) simp
qed

theorem empty_from_undefined_witness:
  "mms_parse_headers ((sample_decoders [])\<lparr>wsp_header_iter_get_val := \<lambda>it. []\<rparr>) notification_ind_args
     [(WK, [0], WSP_VALUE_TYPE_SHORT, []), (WK, [0x89], WSP_VALUE_TYPE_LONG, [])] zero_message = Some Undef"
  by (rule empty_from_undefined [where ?it1.0 = "[(WK, [0x89], WSP_VALUE_TYPE_LONG, [])]"])
    (simp_all add: sample_decoders_def at_header_def)

lemma entry_of_args:
  "distinct (map fst args) \<Longrightarrow> (h, f, d) \<in> set args \<Longrightarrow>
     he_flags (fill_entries args es h) = f \<and> he_data (fill_entries args es h) = d"
proof (induction args arbitrary: es)
  case (Cons a args)
  obtain h' f' d' where a: "a = (h', f', d')" by (cases a)
  show ?case
  proof (cases "h = h'")
    case True
    then have "h \<notin> fst ` set args" using Cons.prems(1) a by auto
    moreover have "f = f'" "d = d'" using Cons.prems True a by (auto simp: image_iff)
    ultimately show ?thesis using True a by (simp add: fill_entries_notin)
  next
    case False
    then have "(h, f, d) \<in> set args" "distinct (map fst args)" using Cons.prems a by auto
    from Cons.IH [OF this(2,1)] show ?thesis unfolding a by (simp only: fill_entries.simps)
  qed
qed simp

lemma mandatory_marked:
  assumes "mandatory_ok es" and "HEADER_FLAG_MANDATORY \<in> he_flags (es h)"
  shows "HEADER_FLAG_MARKED \<in> he_flags (es h)"
proof -
  have "h \<in> set all_headers" by (cases h) (simp_all add: all_headers_def)
  with assms show ?thesis by (auto simp: mandatory_ok_def list_all_iff)
qed

lemma position_expected:
  assumes "positions_ok args es" and "HEADER_FLAG_PRESET_POS \<in> he_flags (es h)"
    and "HEADER_FLAG_MARKED \<in> he_flags (es h)"
  shows "he_pos (es h) = expected_pos args es h 1"
proof -
  have "h \<in> set all_headers" by (cases h) (simp_all add: all_headers_def)
  with assms show ?thesis by (auto simp: positions_ok_def list_all_iff)
qed

lemma mms_parse_headers_success:
  assumes "mms_parse_headers w args it m = Some (Ret (True, it', m'))"
  obtains es where "parse_headers_loop w 1 it (fill_entries args no_entries) m = Some (Ret (it', es, m'))"
    "mandatory_ok es" "positions_ok args es"
  using assms that by (auto simp: mms_parse_headers_def call_bind_def split: option.splits outcome.splits)

text \<open>The PDUs in which the transaction id and the version are mandatory and have preset positions.\<close>

definition leading_args :: "header_args \<Rightarrow> bool" where
  "leading_args args \<longleftrightarrow> distinct (map fst args) \<and> (\<exists>rest. args =
     (MMS_HEADER_TRANSACTION_ID, {MAND, PRESET}, transaction_id_slot) # version_arg # rest)"

lemma leading_args_ok:
  "leading_args notification_ind_args" "leading_args notify_resp_ind_args"
  "leading_args acknowledge_ind_args" "leading_args send_conf_args" "leading_args decode_send_req_args"
  by (simp_all add: leading_args_def args_defs)

text \<open>When the headers of an M-Notification.ind (and of the other PDUs with both headers mandatory) are
  accepted, the first header after the message type is the transaction id and the second one the version.\<close>

theorem preset_headers_first:
  assumes run: "mms_parse_headers w args it m = Some (Ret (True, it', m'))"
    and args: "args \<in> {notification_ind_args, notify_resp_ind_args, acknowledge_ind_args, send_conf_args,
      decode_send_req_args}"
  shows "\<exists>it1 it2. wsp_header_iter_next w it = (True, it1) \<and> at_header w it1 MMS_HEADER_TRANSACTION_ID
    \<and> wsp_header_iter_next w it1 = (True, it2) \<and> at_header w it2 MMS_HEADER_MMS_VERSION"
proof -
  let ?es0 = "fill_entries args no_entries" let ?T = MMS_HEADER_TRANSACTION_ID let ?V = MMS_HEADER_MMS_VERSION
  have "leading_args args" using args leading_args_ok by auto
  then obtain rest where dist: "distinct (map fst args)"
    and args: "args = (?T, {MAND, PRESET}, transaction_id_slot) # version_arg # rest"
    by (auto simp: leading_args_def)
  have t0: "he_flags (?es0 ?T) = {MAND, PRESET}" "he_data (?es0 ?T) = transaction_id_slot"
    using entry_of_args [OF dist, of ?T "{MAND, PRESET}" transaction_id_slot no_entries] args by simp_all
  have v0: "he_flags (?es0 ?V) = {MAND, PRESET}" "he_data (?es0 ?V) = Some (Slot_Octet m_version_update)"
    using entry_of_args [OF dist, of ?V "{MAND, PRESET}" "Some (Slot_Octet m_version_update)" no_entries] args
    by (simp_all add: version_arg_def)
  from run obtain es where loop: "parse_headers_loop w 1 it ?es0 m = Some (Ret (it', es, m'))"
    and ok: "mandatory_ok es" "positions_ok args es" by (rule mms_parse_headers_success)
  have sT: "single ?es0 ?T" and sV: "single ?es0 ?V"
    using t0 v0 by (simp_all add: single_def transaction_id_slot_def)
  have "entries_from ?es0 es" by (rule loop_positions(1) [OF loop sT])
  then have fl: "{MAND, PRESET} \<subseteq> he_flags (es ?T)" "{MAND, PRESET} \<subseteq> he_flags (es ?V)"
    using t0 v0 entries_from_flags [of ?es0 es] by auto
  then have mk: "HEADER_FLAG_MARKED \<in> he_flags (es ?T)" "HEADER_FLAG_MARKED \<in> he_flags (es ?V)"
    using mandatory_marked [OF ok(1)] by auto
  have pos: "he_pos (es ?T) = 1" "he_pos (es ?V) = 2"
    using position_expected [OF ok(2)] fl mk by (simp_all add: args version_arg_def)
  obtain it1 m1 where 1: "wsp_header_iter_next w it = (True, it1)" "at_header w it1 ?T"
    "parse_headers_loop w (1 + 1) it1 (?es0(?T := mark_entry 1 (?es0 ?T))) m1 = Some (Ret (it', es, m'))"
    using loop_first_header [OF loop sT _ mk(1) pos(1)] t0 by auto
  have "single (?es0(?T := mark_entry 1 (?es0 ?T))) ?V" using sV by (simp add: single_def)
  from loop_first_header [OF 1(3) this _ mk(2)] pos(2) v0 obtain it2 m2 where
    "wsp_header_iter_next w it1 = (True, it2)" "at_header w it2 ?V" by auto
  with 1 show ?thesis by blast
qed


text \<open>The sample is accepted.\<close>

lemma sample_run:
  "case mms_parse_headers (sample_decoders sample_notification) notification_ind_args sample_notification
     zero_message of Some (Ret (ok, it, m')) \<Rightarrow> ok | _ \<Rightarrow> False"
  by code_simp

theorem preset_headers_first_witness:
  "\<exists>it1 it2. wsp_header_iter_next (sample_decoders sample_notification) sample_notification = (True, it1)
    \<and> at_header (sample_decoders sample_notification) it1 MMS_HEADER_TRANSACTION_ID
    \<and> wsp_header_iter_next (sample_decoders sample_notification) it1 = (True, it2)
    \<and> at_header (sample_decoders sample_notification) it2 MMS_HEADER_MMS_VERSION"
proof -
  obtain it m' where "mms_parse_headers (sample_decoders sample_notification) notification_ind_args
      sample_notification zero_message = Some (Ret (True, it, m'))"
    using sample_run by (auto split: option.splits outcome.splits)
  then show ?thesis by (rule preset_headers_first) simp
qed

lemma notification_slots:
  assumes "he_data (fill_entries notification_ind_args no_entries h) = Some data"
  shows "h = MMS_HEADER_TRANSACTION_ID \<and> data = Slot_Str m_transaction_id_update
    \<or> h = MMS_HEADER_MMS_VERSION \<and> data = Slot_Octet m_version_update
    \<or> h = MMS_HEADER_FROM \<and> data = Slot_Str (m_ni_update \<circ> ni_from_update)
    \<or> h = MMS_HEADER_SUBJECT \<and> data = Slot_Str (m_ni_update \<circ> ni_subject_update)
    \<or> h = MMS_HEADER_MESSAGE_CLASS \<and> data = Slot_Str (m_ni_update \<circ> ni_cls_update)
    \<or> h = MMS_HEADER_MESSAGE_SIZE \<and> data = Slot_Size (m_ni_update \<circ> ni_size_update)
    \<or> h = MMS_HEADER_EXPIRY \<and> data = Slot_Time (m_ni_update \<circ> ni_expiry_update)
    \<or> h = MMS_HEADER_CONTENT_LOCATION \<and> data = Slot_Str (m_ni_update \<circ> ni_location_update)"
  using assms by (auto simp: args_defs no_entries_def split: if_splits)

text \<open>C5. A decoded M-Notification.ind has everything the engine relies on: a transaction id, a message class
  and a content location.\<close>

theorem notification_complete:
  assumes run: "mms_parse_headers w notification_ind_args it m = Some (Ret (True, it', m'))"
  shows "m_transaction_id m' \<noteq> None \<and> ni_cls (m_ni m') \<noteq> None \<and> ni_location (m_ni m') \<noteq> None"
proof -
  let ?es0 = "fill_entries notification_ind_args no_entries"
  let ?marked = "\<lambda>es h. HEADER_FLAG_MARKED \<in> he_flags (es h)"
  let ?I = "\<lambda>(j :: nat) es m. entries_from ?es0 es
    \<and> (?marked es MMS_HEADER_TRANSACTION_ID \<longrightarrow> m_transaction_id m \<noteq> None)
    \<and> (?marked es MMS_HEADER_MESSAGE_CLASS \<longrightarrow> ni_cls (m_ni m) \<noteq> None)
    \<and> (?marked es MMS_HEADER_CONTENT_LOCATION \<longrightarrow> ni_location (m_ni m) \<noteq> None)"
  have fl: "MAND \<in> he_flags (?es0 h) \<and> \<not> ?marked ?es0 h"
    if "h \<in> {MMS_HEADER_TRANSACTION_ID, MMS_HEADER_MESSAGE_CLASS, MMS_HEADER_CONTENT_LOCATION}" for h
    using that by (auto simp: args_defs)
  from run obtain es where loop: "parse_headers_loop w 1 it ?es0 m = Some (Ret (it', es, m'))"
    and ok: "mandatory_ok es" by (rule mms_parse_headers_success)
  have "\<exists>j. ?I j es m'"
  proof (rule parse_headers_loop_invariant [OF loop, where I = ?I])
    show "?I 1 ?es0 m" using fl by simp
  next
    fix i it1 es1 m1 go es2 m2
    assume I: "?I i es1 m1" and st: "header_step w i it1 es1 m1 = Ret (go, es2, m2)"
    have fr: "entries_from ?es0 es2" using header_step_from [OF st] I by blast
    show "?I (i + 1) es2 m2"
      using st
    proof (rule header_step_cases)
      fix h assume "he_data (es1 h) = None" "es2 = es1(h := mark_entry i (es1 h))" "m2 = m1"
      moreover from this(1) I have "he_data (?es0 h) = None" using entries_from_data [of ?es0 es1 h] by simp
      ultimately show ?thesis using I fr by (auto simp: args_defs split: if_splits)
    next
      fix h data c assume d: "he_data (es1 h) = Some data" and c: "handler_for_type w h it1 = Ret (go, c)"
        "apply_write data c m1 = Ret m2" and e: "es2 = (if go then es1(h := mark_entry i (es1 h)) else es1)"
      from d I have d0: "he_data (?es0 h) = Some data" using entries_from_data [of ?es0 es1 h] by simp
      show ?thesis
      proof (cases go)
        case False
        with handler_failure c have "m2 = m1" by fastforce
        with e False I show ?thesis by simp
      next
        case True
        have tx: "\<exists>t. c = W_Str (Some t)"
          if "h \<in> {MMS_HEADER_TRANSACTION_ID, MMS_HEADER_CONTENT_LOCATION, MMS_HEADER_MESSAGE_CLASS}"
          using that c(1) True by (intro handler_text [of h]) auto
        have keep: "(h \<noteq> MMS_HEADER_TRANSACTION_ID \<longrightarrow> m_transaction_id m2 = m_transaction_id m1)
            \<and> (h \<noteq> MMS_HEADER_MESSAGE_CLASS \<longrightarrow> ni_cls (m_ni m2) = ni_cls (m_ni m1))
            \<and> (h \<noteq> MMS_HEADER_CONTENT_LOCATION \<longrightarrow> ni_location (m_ni m2) = ni_location (m_ni m1))
            \<and> (h = MMS_HEADER_TRANSACTION_ID \<longrightarrow> m_transaction_id m2 \<noteq> None)
            \<and> (h = MMS_HEADER_MESSAGE_CLASS \<longrightarrow> ni_cls (m_ni m2) \<noteq> None)
            \<and> (h = MMS_HEADER_CONTENT_LOCATION \<longrightarrow> ni_location (m_ni m2) \<noteq> None)"
          using notification_slots [OF d0] c(2) tx by (elim disjE conjE; cases c) auto
        from True e have "?marked es2 k \<longleftrightarrow> k = h \<or> ?marked es1 k" for k by (auto simp: mark_entry_def)
        with keep I fr show ?thesis by auto
      qed
    qed (use I fr in auto)
  qed
  then obtain j where I: "?I j es m'" by blast
  have "?marked es h" if "h \<in> {MMS_HEADER_TRANSACTION_ID, MMS_HEADER_MESSAGE_CLASS, MMS_HEADER_CONTENT_LOCATION}" for h
    using mandatory_marked [OF ok, of h] fl [OF that] entries_from_flags [of ?es0 es h] I by blast
  with I show ?thesis by simp
qed


theorem notification_complete_witness:
  "\<exists>it m'. mms_parse_headers (sample_decoders sample_notification) notification_ind_args sample_notification
      zero_message = Some (Ret (True, it, m'))
    \<and> m_transaction_id m' \<noteq> None \<and> ni_cls (m_ni m') \<noteq> None \<and> ni_location (m_ni m') \<noteq> None"
proof -
  obtain it m' where run: "mms_parse_headers (sample_decoders sample_notification) notification_ind_args
      sample_notification zero_message = Some (Ret (True, it, m'))"
    using sample_run by (auto split: option.splits outcome.splits)
  with notification_complete [OF run] show ?thesis by blast
qed


text \<open>Decoding the octets that \<^verbatim>\<open>encode_date\<close> writes gives the date back up to the year 2038; a later date
  loses its bit 31, and one that needs more than four octets is refused.\<close>

theorem date_roundtrip:
  assumes "wsp_header_iter_get_val_type w it = WSP_VALUE_TYPE_LONG"
    and "wire_date d = of_nat (length (wsp_header_iter_get_val w it)) # wsp_header_iter_get_val w it"
  shows "extract_date w it =
    (if unat d < 2 ^ 31 then Ret (True, W_Time d)
     else if unat d < 2 ^ 32 then Ret (True, W_Time (d AND 0x7fffffff))
     else Ret (False, W_None))"
proof -
  let ?o = "skip_zero_octets (date_octets d)"
  have v: "wsp_header_iter_get_val w it = ?o" using assms(2) by (simp add: wire_date_def Let_def)
  have "d < 2 ^ 32 \<longleftrightarrow> unat d < 2 ^ 32" by (simp add: word_less_nat_alt)
  then have len: "length ?o \<le> 4 \<longleftrightarrow> unat d < 2 ^ 32"
    by (simp only: length_skip_date drop_bit_32_zero)
  have low: "d AND 0x7fffffff = d" if "unat d < 2 ^ 31"
  proof -
    have "d AND 0x7fffffff = take_bit 31 d" by (simp add: take_bit_eq_mask mask_numeral)
    moreover have "unat (take_bit 31 d) = unat d" using that by (simp add: unsigned_take_bit_eq take_bit_nat_eq_self)
    ultimately show ?thesis by (simp add: word_unat_eq_iff)
  qed
  show ?thesis
  proof (cases "unat d < 2 ^ 32")
    case True
    with len v assms(1) have "extract_date w it = Ret (True, W_Time (d AND 0x7fffffff))"
      by (simp add: extract_date_def be_value_skip be_value_date_octets not_less)
    with True low show ?thesis by simp
  next
    case False
    then have "\<not> unat d < 2 ^ 31" by simp
    with False len v assms(1) show ?thesis by (simp add: extract_date_def failed_def)
  qed
qed

theorem date_roundtrip_witness:
  "extract_date (sample_decoders []) [(WK, [0x85], WSP_VALUE_TYPE_LONG, [1, 2, 3])] = Ret (True, W_Time 66051)"
  using date_roundtrip [of "sample_decoders []" "[(WK, [0x85], WSP_VALUE_TYPE_LONG, [1, 2, 3])]" 66051]
  by (simp add: wire_date_def date_octets_def Let_def upt_rec)

lemma charset_search_all:
  "sorted_wrt (<) (map fst tab) \<Longrightarrow> charset_search tab i 0 (int (length tab) - 1) = map_of tab i"
  by (rule charset_search_correct) auto

text \<open>The binary search finds what a linear search through the table of character sets finds.\<close>

theorem charset_lookup:
  "charset_index2string index = map_of charset_assignments index"
proof -
  have "sorted_wrt (<) (map fst charset_assignments)"
    by (simp add: charset_assignments_def sorted_wrt2_simps [of "(<) :: nat \<Rightarrow> _"] del: sorted_wrt.simps(2))
  then show ?thesis
    unfolding charset_index2string_def by (rule charset_search_all)
qed

text \<open>A response status is kept when it is known; a reserved code counts as the permanent failure 224, as
  the transient failure 192, or (below 192) leaves the field 0. The codes 196, 234 and 235 are kept, although
  the specification cited in the code reserves them.\<close>

theorem rsp_status_classes:
  assumes "wsp_header_iter_get_val_type w it = WSP_VALUE_TYPE_SHORT"
    and "wsp_header_iter_get_val w it = [b]"
  shows "extract_rsp_status w it = Ret (True,
    if unat b \<in> {128..136} \<union> {192..196} \<union> {224..235} then W_Octet b
    else if unat b \<ge> 224 then W_Octet 224 else if unat b \<ge> 192 then W_Octet 192 else W_None)"
proof -
  have rng: "n \<in> {128..136} \<union> {192..196} \<union> {224..235} \<longleftrightarrow>
      n = 128 \<or> n = 129 \<or> n = 130 \<or> n = 131 \<or> n = 132 \<or> n = 133 \<or> n = 134 \<or> n = 135 \<or> n = 136
      \<or> n = 192 \<or> n = 193 \<or> n = 194 \<or> n = 195 \<or> n = 196
      \<or> n = 224 \<or> n = 225 \<or> n = 226 \<or> n = 227 \<or> n = 228 \<or> n = 229 \<or> n = 230
      \<or> n = 231 \<or> n = 232 \<or> n = 233 \<or> n = 234 \<or> n = 235" for n :: nat
    unfolding Un_iff atLeastAtMost_iff by presburger
  have "rsp_status_of b \<noteq> None \<longleftrightarrow> b \<in> set (map rsp_status_code all_rsp_status)"
    by (auto simp: rsp_status_of_def find_None_iff)
  then have known: "rsp_status_of b \<noteq> None \<longleftrightarrow> unat b \<in> {128..136} \<union> {192..196} \<union> {224..235}"
    unfolding rng by (simp add: all_rsp_status_def word_unat_eq_iff)
  show ?thesis
    using assms known
    by (simp add: extract_rsp_status_def with_short_def octet_at_def word_le_nat_alt)
qed

theorem rsp_status_classes_witness:
  "extract_rsp_status (sample_decoders []) [(WK, [0x92], WSP_VALUE_TYPE_SHORT, [200])]
     = Ret (True, W_Octet 192)"
  using rsp_status_classes [of "sample_decoders []" "[(WK, [0x92], WSP_VALUE_TYPE_SHORT, [200])]" 200]
  by simp

text \<open>The parts a multipart iterator yields, in order.\<close>

inductive part_sequence :: "('it, 'mi) wsp_decoders \<Rightarrow> 'mi \<Rightarrow> mms_attachment list \<Rightarrow> bool" for w where
  no_more: "\<not> fst (wsp_multipart_iter_next w mi) \<Longrightarrow> part_sequence w mi []"
| one_more: "wsp_multipart_iter_next w mi = (True, mi') \<Longrightarrow> parse_part w mi' = Some (Ret (Some p)) \<Longrightarrow>
    part_sequence w mi' ps \<Longrightarrow> part_sequence w mi (p # ps)"

lemma parse_parts_loop_sequence:
  assumes "parse_parts_loop w mi parts = Some (Ret (True, mi', parts'))"
  shows "\<exists>ps. part_sequence w mi ps \<and> parts' = rev ps @ parts"
proof -
  have "\<exists>ps. part_sequence w mi ps \<and> parts' = rev ps @ parts"
    if "parse_parts_loop w mi parts = Some r" "r = Ret (True, mi', parts')" for r
    using that
  proof (induction rule: parse_parts_loop_induct)
    case (step loop w mi parts r)
    let ?nx = "wsp_multipart_iter_next w mi"
    show ?case
    proof (cases "fst ?nx")
      case False
      with step(2,3) no_more [of w mi] show ?thesis by auto
    next
      case True
      with step(2,3) obtain p where p: "parse_part w (snd ?nx) = Some (Ret (Some p))"
        and run: "loop w (snd ?nx) (p # parts) = Some r"
        by (auto split: option.splits outcome.splits)
      from step(1) [OF run step(3)] obtain ps where "part_sequence w (snd ?nx) ps" "parts' = rev ps @ p # parts"
        by blast
      with one_more [of w mi "snd ?nx" p ps] p True show ?thesis by (cases ?nx) (fastforce intro: exI [of _ "p # ps"])
    qed
  qed
  with assms show ?thesis by blast
qed

text \<open>C6. The attachments of a decoded message are the parts of the multipart body, each parsed, in the order in
  which they appear.\<close>

theorem attachments_in_order:
  assumes "mms_parse_attachments w it m = Some (Ret (True, it', m'))" and "m_attachments m = []"
  shows "\<exists>mi it1. wsp_multipart_iter_init w it = Some (mi, it1) \<and> part_sequence w mi (m_attachments m')"
proof -
  obtain mi it1 where i: "wsp_multipart_iter_init w it = Some (mi, it1)"
    using assms(1) by (auto simp: mms_parse_attachments_def split: option.splits)
  with assms obtain mi' parts where "parse_parts_loop w mi [] = Some (Ret (True, mi', parts))"
    and m': "m_attachments m' = rev parts"
    by (auto simp: mms_parse_attachments_def call_bind_def Let_def
        split: option.splits outcome.splits if_splits prod.splits)
  from parse_parts_loop_sequence [OF this(1)] m' i show ?thesis by auto
qed

definition sample_multipart :: "(sample_header list, nat) wsp_decoders" where
  "sample_multipart = \<lparr>wsp_header_iter_init = (\<lambda>pdu f. []),
     wsp_header_iter_next = (\<lambda>it. (False, it)), wsp_header_iter_get_hdr_type = (\<lambda>it. WSP_HEADER_TYPE_APPLICATION),
     wsp_header_iter_get_hdr = (\<lambda>it. [0]), wsp_header_iter_get_val_type = (\<lambda>it. WSP_VALUE_TYPE_TEXT),
     wsp_header_iter_get_val = (\<lambda>it. [0]), wsp_header_iter_at_end = (\<lambda>it. True),
     wsp_header_iter_is_multipart = (\<lambda>it. True), wsp_header_iter_is_content_type = (\<lambda>it. True),
     wsp_decode_text = (\<lambda>p. None), wsp_decode_token_text = (\<lambda>p. None), wsp_decode_quoted_string = (\<lambda>p. None),
     wsp_decode_integer = (\<lambda>p. None), wsp_decode_field = (\<lambda>p. None),
     wsp_decode_content_type = (\<lambda>p. Some (''text/plain'', 1)),
     wsp_parameters = (\<lambda>p. [(True, Some ''utf-8'')]), wsp_multipart_iter_init = (\<lambda>it. Some (2, it)),
     wsp_multipart_iter_next = (\<lambda>n. (n > 0, n - 1)), wsp_multipart_iter_get_content_type = (\<lambda>n. [131]),
     wsp_multipart_iter_get_hdr = (\<lambda>n. []), wsp_multipart_iter_get_body_len = (\<lambda>n. 10 + n),
     wsp_multipart_iter_get_body_offset = (\<lambda>n. 100 * n), wsp_multipart_iter_close = (\<lambda>n it. (True, it)),
     g_convert = (\<lambda>t f p. None), time_now = 0\<rparr>"

theorem attachments_in_order_witness:
  "\<exists>m'. (\<exists>it'. mms_parse_attachments sample_multipart [] zero_message = Some (Ret (True, it', m')))
     \<and> (\<exists>mi it1. wsp_multipart_iter_init sample_multipart [] = Some (mi, it1)
          \<and> part_sequence sample_multipart mi (m_attachments m'))"
proof -
  have "case mms_parse_attachments sample_multipart [] zero_message of Some (Ret (ok, _, _)) \<Rightarrow> ok | _ \<Rightarrow> False"
    by code_simp
  then obtain it' m' where run: "mms_parse_attachments sample_multipart [] zero_message = Some (Ret (True, it', m'))"
    by (auto split: option.splits outcome.splits)
  have "m_attachments zero_message = []" by (simp add: zero_message_def)
  from attachments_in_order [OF run this] run show ?thesis by blast
qed

end
