(* ===== verification/Mms_Util.thy ===== *)
theory Mms_Util
  imports Pdu_Decoder
begin

text \<open>
  The utilities of \<^verbatim>\<open>mms-lib/src/mms_util.c\<close>: address types and address lists, and the decoding of a
  push message. \<open>strstrip\<close> and \<open>strrstr\<close> are \<^verbatim>\<open>g_strstrip\<close> and \<^verbatim>\<open>g_strrstr\<close> of GLib; the position of a
  match stands for the pointer to it.
\<close>

section \<open>Strings\<close>

definition strip_left :: "string \<Rightarrow> string" where
  "strip_left s = dropWhile ascii_isspace s"

definition strip_right :: "string \<Rightarrow> string" where
  "strip_right s = rev (dropWhile ascii_isspace (rev s))"

definition strstrip :: "string \<Rightarrow> string" where
  "strstrip s = strip_right (strip_left s)"

definition strrstr :: "string \<Rightarrow> string \<Rightarrow> nat option" where
  "strrstr s needle = find (\<lambda>i. has_prefix (drop i s) needle) (rev [0..<Suc (length s)])"

section \<open>Addresses\<close>

definition MMS_ADDRESS_TYPE_SUFFIX :: string where
  "MMS_ADDRESS_TYPE_SUFFIX = ''/TYPE=''"

definition MMS_ADDRESS_TYPE_SUFFIX_PHONE :: string where
  "MMS_ADDRESS_TYPE_SUFFIX_PHONE = MMS_ADDRESS_TYPE_SUFFIX @ ''PLMN''"

definition mms_strip_address_type :: "string option \<Rightarrow> string option" where
  "mms_strip_address_type address =
     (case address of
        None \<Rightarrow> None
      | Some a \<Rightarrow>
          let s = strstrip a in
            Some (case strrstr s MMS_ADDRESS_TYPE_SUFFIX of None \<Rightarrow> s | Some i \<Rightarrow> take i s))"

definition mms_split_address_list :: "string option \<Rightarrow> string list" where
  "mms_split_address_list addresses =
     (if nonempty addresses
      then map (\<lambda>a. the (mms_strip_address_type (Some a))) (g_strsplit (the addresses) CHR '','')
      else [])"

definition mms_address_normalize :: "string option \<Rightarrow> string option" where
  "mms_address_normalize address =
     (case address of
        None \<Rightarrow> None
      | Some a \<Rightarrow>
          let s = strip_right (strip_left a) in
            if s \<noteq> []
            then (if strrstr s MMS_ADDRESS_TYPE_SUFFIX \<noteq> None then Some s
                  else Some (s @ MMS_ADDRESS_TYPE_SUFFIX_PHONE))
            else None)"

section \<open>Push messages\<close>

definition mms_decode_bytes ::
    "('it, 'mi) wsp_decoders \<Rightarrow> byte list option \<Rightarrow> mms_message option call" where
  "mms_decode_bytes w bytes =
     (case bytes of
        None \<Rightarrow> Some (Ret None)
      | Some octets \<Rightarrow>
          call_bind (mms_message_decode w octets)
            (\<lambda>(ok, pdu). Some (Ret (if ok then Some pdu else None))))"

section \<open>Lemmas\<close>

lemma find_last_Some:
  "find P (rev [0..<n]) = Some i \<longleftrightarrow> i < n \<and> P i \<and> (\<forall>j. i < j \<and> j < n \<longrightarrow> \<not> P j)"
proof (induction n)
  case (Suc n)
  then show ?case
    by (auto simp: less_Suc_eq)
qed simp

lemma find_last_None: "find P (rev [0..<n]) = None \<longleftrightarrow> (\<forall>i<n. \<not> P i)"
  by (simp add: find_None_iff)

lemma has_prefix_iff: "has_prefix s p \<longleftrightarrow> (\<exists>t. s = p @ t)"
  by (metis append_take_drop_id append_eq_conv_conj has_prefix_def)

lemma strrstr_bound: "strrstr s p = Some i \<Longrightarrow> i + length p \<le> length s"
  unfolding strrstr_def find_last_Some has_prefix_def
  by (metis append_take_drop_id diff_le_mono2 le_diff_conv2 length_drop length_take min.cobounded1
      min.cobounded2 less_Suc_eq_le add.commute)

lemma set_strip: "set (strip_right s) \<subseteq> set s" "set (strip_left s) \<subseteq> set s"
  by (auto simp: strip_right_def strip_left_def dest: set_dropWhileD)

lemma strip_right_last: "strip_right s \<noteq> [] \<Longrightarrow> \<not> ascii_isspace (last (strip_right s))"
  unfolding strip_right_def by (metis hd_dropWhile last_rev rev_is_Nil_conv)

lemma strip_left_hd: "strip_left s \<noteq> [] \<Longrightarrow> \<not> ascii_isspace (hd (strip_left s))"
  by (simp add: strip_left_def hd_dropWhile)

lemma strip_right_id: "(s = [] \<or> \<not> ascii_isspace (last s)) \<Longrightarrow> strip_right s = s"
  by (cases s rule: rev_cases) (simp_all add: strip_right_def)

lemma strip_left_id: "(s = [] \<or> \<not> ascii_isspace (hd s)) \<Longrightarrow> strip_left s = s"
  by (cases s) (simp_all add: strip_left_def)

lemma strip_right_prefix: "\<exists>t. s = strip_right s @ t"
proof -
  obtain u where "rev s = u @ dropWhile ascii_isspace (rev s)"
    by (metis takeWhile_dropWhile_id)
  then have "s = rev (dropWhile ascii_isspace (rev s)) @ rev u"
    by (metis rev_append rev_rev_ident)
  then show ?thesis by (auto simp: strip_right_def)
qed

lemma strstrip_ends:
  assumes "strstrip s \<noteq> []"
  shows "\<not> ascii_isspace (hd (strstrip s))" and "\<not> ascii_isspace (last (strstrip s))"
proof -
  obtain t where t: "strip_left s = strstrip s @ t"
    using strip_right_prefix [of "strip_left s"] by (auto simp: strstrip_def)
  then have "strip_left s \<noteq> []" using assms by auto
  then show "\<not> ascii_isspace (hd (strstrip s))"
    using strip_left_hd t assms by (metis hd_append2)
  show "\<not> ascii_isspace (last (strstrip s))"
    using assms unfolding strstrip_def by (rule strip_right_last)
qed

lemma strstrip_id: "s = [] \<or> \<not> ascii_isspace (hd s) \<and> \<not> ascii_isspace (last s) \<Longrightarrow> strstrip s = s"
  by (auto simp: strstrip_def strip_left_id strip_right_id)

lemma strstrip_idem [simp]: "strstrip (strstrip s) = strstrip s"
  using strstrip_ends by (intro strstrip_id) auto

lemma strrstr_suffix:
  assumes "CHR ''/'' \<notin> set t" and "has_prefix t p"
  shows "strrstr (s @ CHR ''/'' # t) (CHR ''/'' # p) = Some (length s)"
proof -
  have later: "\<not> has_prefix (drop j (s @ CHR ''/'' # t)) (CHR ''/'' # p)" if j: "length s < j" for j
  proof
    assume "has_prefix (drop j (s @ CHR ''/'' # t)) (CHR ''/'' # p)"
    then obtain u where u: "drop j (s @ CHR ''/'' # t) = CHR ''/'' # u"
      by (auto simp: has_prefix_iff)
    obtain k where "j = length s + Suc k"
      using j less_imp_Suc_add by fastforce
    then have "drop k t = CHR ''/'' # u"
      using u by simp
    then have "CHR ''/'' \<in> set t"
      by (metis in_set_dropD list.set_intros(1))
    then show False using assms(1) by contradiction
  qed
  have "has_prefix (drop (length s) (s @ CHR ''/'' # t)) (CHR ''/'' # p)"
    using assms(2) by (simp add: has_prefix_def)
  then show ?thesis
    unfolding strrstr_def find_last_Some using later by (intro conjI allI impI) auto
qed

text \<open>Normalising and then removing the type is the same as removing the type.\<close>

lemma strip_normalize:
  assumes "mms_address_normalize (Some a) = Some b"
  shows "mms_strip_address_type (Some b) = mms_strip_address_type (Some a)"
proof (cases "strrstr (strstrip a) MMS_ADDRESS_TYPE_SUFFIX")
  case None
  then have s: "strstrip a \<noteq> []" and b: "b = strstrip a @ ''/TYPE=PLMN''"
    using assms by (auto simp: mms_address_normalize_def strstrip_def Let_def
        MMS_ADDRESS_TYPE_SUFFIX_PHONE_def MMS_ADDRESS_TYPE_SUFFIX_def split: if_splits)
  have "strstrip b = b"
    using strstrip_ends(1) [OF s] s by (intro strstrip_id) (simp add: b ascii_isspace_def)
  moreover have "strrstr b MMS_ADDRESS_TYPE_SUFFIX = Some (length (strstrip a))"
    using strrstr_suffix [where t = "''TYPE=PLMN''" and s = "strstrip a" and p = "''TYPE=''"]
    by (simp add: b MMS_ADDRESS_TYPE_SUFFIX_def has_prefix_def)
  ultimately show ?thesis
    using None by (simp add: mms_strip_address_type_def Let_def b)
next
  case (Some i)
  then have "b = strstrip a"
    using assms by (auto simp: mms_address_normalize_def strstrip_def Let_def split: if_splits)
  then show ?thesis
    by (simp add: mms_strip_address_type_def)
qed

lemma normalize_None: "mms_address_normalize (Some a) = None \<longleftrightarrow> strstrip a = []"
  by (simp add: mms_address_normalize_def strstrip_def Let_def)

lemma normalize_no_char:
  "mms_address_normalize (Some a) = Some b \<Longrightarrow> c \<notin> set a \<Longrightarrow> c \<notin> set ''/TYPE=PLMN'' \<Longrightarrow> c \<notin> set b"
  using set_strip(1) [of "strip_left a"] set_strip(2) [of a]
  by (auto simp: mms_address_normalize_def Let_def MMS_ADDRESS_TYPE_SUFFIX_PHONE_def
      MMS_ADDRESS_TYPE_SUFFIX_def split: if_splits)

section \<open>Properties\<close>

text \<open>Normalising an address a second time changes nothing, and an address is lost only when it is
  blank: otherwise it keeps its text and has a type.\<close>

theorem address_normalize_idem:
  "(case mms_address_normalize (Some a) of
      None \<Rightarrow> strstrip a = []
    | Some b \<Rightarrow> mms_address_normalize (Some b) = Some b
        \<and> strrstr b MMS_ADDRESS_TYPE_SUFFIX \<noteq> None \<and> has_prefix b (strstrip a))"
proof (cases "mms_address_normalize (Some a)")
  case None
  then have "strstrip a = []" using normalize_None by blast
  then show ?thesis using None by simp
next
  case (Some b)
  then have s: "strstrip a \<noteq> []"
    using normalize_None [of a] by simp
  have "strrstr b MMS_ADDRESS_TYPE_SUFFIX \<noteq> None \<and> strstrip b = b \<and> b \<noteq> [] \<and> has_prefix b (strstrip a)"
  proof (cases "strrstr (strstrip a) MMS_ADDRESS_TYPE_SUFFIX")
    case None
    then have b: "b = strstrip a @ ''/TYPE=PLMN''"
      using Some by (auto simp: mms_address_normalize_def strstrip_def Let_def
          MMS_ADDRESS_TYPE_SUFFIX_PHONE_def MMS_ADDRESS_TYPE_SUFFIX_def split: if_splits)
    have "strstrip b = b"
      using strstrip_ends(1) [OF s] s by (intro strstrip_id) (simp add: b ascii_isspace_def)
    moreover have "strrstr b MMS_ADDRESS_TYPE_SUFFIX = Some (length (strstrip a))"
      using strrstr_suffix [where t = "''TYPE=PLMN''" and s = "strstrip a" and p = "''TYPE=''"]
      by (simp add: b MMS_ADDRESS_TYPE_SUFFIX_def has_prefix_def)
    ultimately show ?thesis
      by (simp add: b has_prefix_def)
  next
    case (Some i)
    then have "b = strstrip a"
      using \<open>mms_address_normalize (Some a) = Some b\<close>
      by (auto simp: mms_address_normalize_def strstrip_def Let_def split: if_splits)
    then show ?thesis
      using Some s by (simp add: has_prefix_def)
  qed
  then show ?thesis
    using Some by (simp add: mms_address_normalize_def Let_def strstrip_def [symmetric])
qed

end
