(* ===== verification/Task_Transfers.thy ===== *)
theory Task_Transfers
  imports Task_Http Mms_Util
begin

text \<open>
  The five kinds of HTTP task: \<^verbatim>\<open>mms_task_retrieve.c\<close>, \<^verbatim>\<open>mms_task_send.c\<close>, \<^verbatim>\<open>mms_task_read.c\<close>,
  \<^verbatim>\<open>mms_task_ack.c\<close> and \<^verbatim>\<open>mms_task_notifyresp.c\<close> (the last two have no class of their own), with the
  PDUs they write before they start.

  \<^item> A task that is queued is described by a \<open>mms_task_request\<close>: what the \<^verbatim>\<open>mms_task_*_new\<close> function was
    given and put into the new object. \<open>rq_octets\<close> is the content of the file the task sends or decodes.
  \<^item> \<open>transfer_env\<close> adds the codec, the mapping of files and the settings of the SIM to the
    environment of an HTTP task. An undefined read of the decoder counts as a failure to decode.
\<close>

section \<open>Queued tasks\<close>

definition MMS_TRANSFER_TYPE_ACK :: string where "MMS_TRANSFER_TYPE_ACK = ''Ack''"
definition MMS_TRANSFER_TYPE_NOTIFY_RESP :: string where "MMS_TRANSFER_TYPE_NOTIFY_RESP = ''NotifyResp''"
definition MMS_TRANSFER_TYPE_READ_REPORT :: string where "MMS_TRANSFER_TYPE_READ_REPORT = ''ReadReport''"
definition MMS_TRANSFER_TYPE_RETRIEVE :: string where "MMS_TRANSFER_TYPE_RETRIEVE = ''Retrieve''"
definition MMS_TRANSFER_TYPE_SEND :: string where "MMS_TRANSFER_TYPE_SEND = ''Send''"

datatype http_kind = Plain | Retrieve "string option" | Send | Read

datatype 'm task_kind =
    Http_Task http_kind mms_connection_type "string option" "string option" "string option"
      \<comment> \<open>URI, response file, request file\<close>
  | Decode_Task "string option" string  \<comment> \<open>transaction id, file\<close>
  | Publish_Task 'm

record 'm mms_task_request =
  rq_kind :: "'m task_kind"
  rq_priority :: mms_task_priority
  rq_name :: string
  rq_id :: "string option"
  rq_imsi :: "string option"
  rq_deadline :: "int option"
  rq_octets :: "byte list"

record ('it, 'mi) transfer_env =
  te_decoders :: "('it, 'mi) wsp_decoders"
  te_encoders :: wsp_encoders
  te_junk :: "byte list"  \<comment> \<open>the uninitialised buffer of the encoder\<close>
  te_write_results :: "write_result list"
  te_map_file :: "string \<Rightarrow> byte list option"
  te_mkdir :: "string \<Rightarrow> bool"
  te_open_create :: "string \<Rightarrow> bool"
  te_root_dir :: string
  te_allow_dr :: "bool option"  \<comment> \<open>of the SIM settings, if there are any\<close>

section \<open>PDUs written by the tasks\<close>

definition MMS_VERSION :: byte where "MMS_VERSION = version_code MMS_MESSAGE_VERSION_1_1"
definition MMS_SETTINGS_DEFAULT_ALLOW_DR :: bool where "MMS_SETTINGS_DEFAULT_ALLOW_DR = True"

text \<open>Creates the file and encodes the PDU into it; the octets of the file if both succeed.\<close>

definition encode_file ::
    "('it, 'mi) transfer_env \<Rightarrow> string option \<Rightarrow> string \<Rightarrow> mms_message \<Rightarrow> byte list option outcome" where
  "encode_file te ident file_name pdu =
     (case mms_create_file (te_mkdir te) (te_open_create te) (mms_message_dir (te_root_dir te) ident) file_name of
        None \<Rightarrow> Ret None
      | Some path \<Rightarrow>
          bind_outcome (mms_message_encode (te_encoders te) (te_junk te) pdu
                  \<lparr>f_data = [], f_results = te_write_results te\<rparr>)
            (\<lambda>(ok, fd). Ret (case ok of None \<Rightarrow> None | Some _ \<Rightarrow> Some (f_data fd))))"

text \<open>For the tasks that answer or report, whose PDUs have no parts; the encoding of such a PDU is always defined.\<close>

definition write_pdu ::
    "('it, 'mi) transfer_env \<Rightarrow> string option \<Rightarrow> string \<Rightarrow> mms_message \<Rightarrow> byte list option" where
  "write_pdu te ident file_name pdu =
     (case encode_file te ident file_name pdu of Ret octets \<Rightarrow> octets | Undef \<Rightarrow> None)"

definition MMS_ACKNOWLEDGE_IND_FILE :: string where "MMS_ACKNOWLEDGE_IND_FILE = ''m-acknowledge.ind''"
definition MMS_NOTIFYRESP_IND_FILE :: string where "MMS_NOTIFYRESP_IND_FILE = ''m-notifyresp.ind''"
definition MMS_READ_REC_IND_FILE :: string where "MMS_READ_REC_IND_FILE = ''m-read-rec.ind''"
definition MMS_RETRIEVE_CONF_FILE :: string where "MMS_RETRIEVE_CONF_FILE = ''m-retrieve.conf''"
definition MMS_SEND_REQ_FILE :: string where "MMS_SEND_REQ_FILE = ''m-send.req''"
definition MMS_SEND_CONF_FILE :: string where "MMS_SEND_CONF_FILE = ''m-send.conf''"

definition mms_task_ack_encode ::
    "('it, 'mi) transfer_env \<Rightarrow> string option \<Rightarrow> string option \<Rightarrow> byte list option" where
  "mms_task_ack_encode te ident transaction_id =
     write_pdu te ident MMS_ACKNOWLEDGE_IND_FILE
       (zero_message\<lparr>m_type := message_type_code MMS_MESSAGE_TYPE_ACKNOWLEDGE_IND, m_version := MMS_VERSION,
          m_transaction_id := transaction_id,
          m_ai := \<lparr>ai_report = (case te_allow_dr te of Some dr \<Rightarrow> dr | None \<Rightarrow> MMS_SETTINGS_DEFAULT_ALLOW_DR)\<rparr>\<rparr>)"

definition mms_task_notifyresp_encode ::
    "('it, 'mi) transfer_env \<Rightarrow> string option \<Rightarrow> string option \<Rightarrow> mms_message_notify_status \<Rightarrow> byte list option" where
  "mms_task_notifyresp_encode te ident transaction_id status =
     write_pdu te ident MMS_NOTIFYRESP_IND_FILE
       (zero_message\<lparr>m_type := message_type_code MMS_MESSAGE_TYPE_NOTIFYRESP_IND, m_version := MMS_VERSION,
          m_transaction_id := transaction_id, m_nri := \<lparr>nri_notify_status = notify_status_code status\<rparr>\<rparr>)"

definition mms_task_read_encode ::
    "('it, 'mi) transfer_env \<Rightarrow> int \<Rightarrow> string option \<Rightarrow> string option \<Rightarrow> string option \<Rightarrow> mms_read_status
       \<Rightarrow> byte list option" where
  "mms_task_read_encode te now ident message_id to status =
     write_pdu te ident MMS_READ_REC_IND_FILE
       (zero_message\<lparr>m_type := message_type_code MMS_MESSAGE_TYPE_READ_REC_IND, m_version := MMS_VERSION,
          m_ri := (m_ri zero_message)\<lparr>
            ri_rr_status := read_status_code (if status = MMS_READ_STATUS_DELETED
              then MMS_MESSAGE_READ_STATUS_DELETED else MMS_MESSAGE_READ_STATUS_READ),
            ri_msgid := message_id, ri_to := mms_address_normalize to, ri_date := word_of_int now\<rparr>\<rparr>)"

section \<open>New tasks\<close>

definition mms_task_ack_new ::
    "('it, 'mi) transfer_env \<Rightarrow> ('q, 'a) mms_task_scheme \<Rightarrow> string option \<Rightarrow> 'm mms_task_request option" where
  "mms_task_ack_new te parent tx_id =
     (case mms_task_ack_encode te (t_id parent) tx_id of
        None \<Rightarrow> None
      | Some octets \<Rightarrow> Some \<lparr>
          rq_kind = Http_Task Plain MMS_CONNECTION_TYPE_AUTO None None (Some MMS_ACKNOWLEDGE_IND_FILE),
          rq_priority = MMS_TASK_PRIORITY_POST_PROCESS, rq_name = MMS_TRANSFER_TYPE_ACK,
          rq_id = t_id parent, rq_imsi = t_imsi parent, rq_deadline = None, rq_octets = octets\<rparr>)"

definition mms_task_notifyresp_new ::
    "('it, 'mi) transfer_env \<Rightarrow> ('q, 'a) mms_task_scheme \<Rightarrow> string option \<Rightarrow> mms_message_notify_status
       \<Rightarrow> 'm mms_task_request option" where
  "mms_task_notifyresp_new te parent tx_id ns =
     (case mms_task_notifyresp_encode te (t_id parent) tx_id ns of
        None \<Rightarrow> None
      | Some octets \<Rightarrow> Some \<lparr>
          rq_kind = Http_Task Plain MMS_CONNECTION_TYPE_AUTO None None (Some MMS_NOTIFYRESP_IND_FILE),
          rq_priority = MMS_TASK_PRIORITY_NORMAL, rq_name = MMS_TRANSFER_TYPE_NOTIFY_RESP,
          rq_id = t_id parent, rq_imsi = t_imsi parent, rq_deadline = None, rq_octets = octets\<rparr>)"

definition mms_task_read_new ::
    "('it, 'mi) transfer_env \<Rightarrow> int \<Rightarrow> string option \<Rightarrow> string option \<Rightarrow> string option \<Rightarrow> string option
       \<Rightarrow> mms_read_status \<Rightarrow> 'm mms_task_request option" where
  "mms_task_read_new te now ident imsi msg_id to rs =
     (case mms_task_read_encode te now ident msg_id to rs of
        None \<Rightarrow> None
      | Some octets \<Rightarrow> Some \<lparr>
          rq_kind = Http_Task Read MMS_CONNECTION_TYPE_AUTO None None (Some MMS_READ_REC_IND_FILE),
          rq_priority = MMS_TASK_PRIORITY_NORMAL, rq_name = MMS_TRANSFER_TYPE_READ_REPORT,
          rq_id = ident, rq_imsi = imsi, rq_deadline = None, rq_octets = octets\<rparr>)"

text \<open>\<^verbatim>\<open>time_t\<close> is signed; the structure of the PDU holds its 64 bits.\<close>

definition mms_task_retrieve_new ::
    "int \<Rightarrow> string option \<Rightarrow> string option \<Rightarrow> mms_message \<Rightarrow> mms_connection_type \<Rightarrow> 'm mms_task_request option" where
  "mms_task_retrieve_new now ident imsi pdu ct =
     (let expiry = sint (ni_expiry (m_ni pdu)) in
        if expiry > now
        then Some \<lparr>
          rq_kind = Http_Task (Retrieve (m_transaction_id pdu)) ct (ni_location (m_ni pdu))
            (Some MMS_RETRIEVE_CONF_FILE) None,
          rq_priority = MMS_TASK_PRIORITY_NORMAL, rq_name = MMS_TRANSFER_TYPE_RETRIEVE,
          rq_id = ident, rq_imsi = imsi,
          rq_deadline = (if now + MMS_TASK_DEFAULT_LIFETIME > expiry then Some expiry
                         else Some (now + MMS_TASK_DEFAULT_LIFETIME)),
          rq_octets = []\<rparr>
        else None)"

definition mms_task_send_new :: "('q, 'a) mms_task_scheme \<Rightarrow> byte list \<Rightarrow> 'm mms_task_request" where
  "mms_task_send_new parent octets = \<lparr>
     rq_kind = Http_Task Send MMS_CONNECTION_TYPE_AUTO None (Some MMS_SEND_CONF_FILE) (Some MMS_SEND_REQ_FILE),
     rq_priority = MMS_TASK_PRIORITY_NORMAL, rq_name = MMS_TRANSFER_TYPE_SEND,
     rq_id = t_id parent, rq_imsi = t_imsi parent, rq_deadline = None, rq_octets = octets\<rparr>"

text \<open>\<^verbatim>\<open>mms_task_decode_new\<close> of \<^verbatim>\<open>mms_task_decode.c\<close>, which the retrieve task calls.\<close>

definition mms_task_decode_new ::
    "('it, 'mi) transfer_env \<Rightarrow> ('q, 'a) mms_task_scheme \<Rightarrow> string option \<Rightarrow> string option
       \<Rightarrow> 'm mms_task_request option" where
  "mms_task_decode_new te parent transaction_id file_path =
     (case file_path of
        None \<Rightarrow> None
      | Some f \<Rightarrow>
          (case te_map_file te f of
             None \<Rightarrow> None
           | Some octets \<Rightarrow> Some \<lparr>
               rq_kind = Decode_Task transaction_id f, rq_priority = MMS_TASK_PRIORITY_POST_PROCESS,
               rq_name = ''Decode'', rq_id = t_id parent, rq_imsi = t_imsi parent,
               rq_deadline = None, rq_octets = octets\<rparr>))"

section \<open>What the kinds report\<close>

definition mms_task_retrieve_done ::
    "('it, 'mi) transfer_env \<Rightarrow> 'u http_env \<Rightarrow> string option \<Rightarrow> string option \<Rightarrow> nat
       \<Rightarrow> ('m mms_task_request, 'a) mms_task_scheme \<Rightarrow> ('m mms_task_request, 'a) mms_task_scheme" where
  "mms_task_retrieve_done te env transaction_id path status t =
     (let (ok, t) = (if status_is_successful env status
                     then mms_task_queue_and_unref (mms_task_decode_new te t transaction_id path) t
                     else (False, t))
      in tell (Message_Receive_State_Changed (t_id t)
                 (if ok then MMS_RECEIVE_STATE_DECODING else MMS_RECEIVE_STATE_DOWNLOAD_ERROR)) t)"

text \<open>The PDU, when the decoder accepts it. A decoding that reads out of range gives none here; what is proved of
  the tasks that decode says which it is, where it matters (\<open>outcome_of\<close>).\<close>

definition decode_pdu :: "('it, 'mi) wsp_decoders \<Rightarrow> byte list \<Rightarrow> mms_message option" where
  "decode_pdu w octets =
     (case mms_message_decode w octets of
        Some (Ret (ok, pdu)) \<Rightarrow> if ok then Some pdu else None
      | _ \<Rightarrow> None)"

definition refused_status :: "mms_message_rsp_status list" where
  "refused_status = [MMS_MESSAGE_RSP_STATUS_ERR_SERVICE_DENIED,
     MMS_MESSAGE_RSP_STATUS_ERR_CONTENT_NOT_ACCEPTED, MMS_MESSAGE_RSP_STATUS_ERR_UNSUPPORTED_MESSAGE,
     MMS_MESSAGE_RSP_STATUS_ERR_PERM_SERVICE_DENIED, MMS_MESSAGE_RSP_STATUS_ERR_PERM_LACK_OF_PREPAID,
     MMS_MESSAGE_RSP_STATUS_ERR_PERM_CONTENT_NOT_ACCEPTED]"

text \<open>The three local variables \<^verbatim>\<open>msgid\<close>, \<^verbatim>\<open>state\<close> and \<^verbatim>\<open>details\<close> of \<^verbatim>\<open>mms_task_send_done\<close>.\<close>

definition send_result ::
    "mms_message option \<Rightarrow> string option \<times> mms_send_state \<times> string option" where
  "send_result pdu =
     (case pdu of
        None \<Rightarrow> (None, MMS_SEND_STATE_SEND_ERROR, None)
      | Some p \<Rightarrow>
          if m_type p = message_type_code MMS_MESSAGE_TYPE_SEND_CONF
          then if sc_rsp_status (m_sc p) = rsp_status_code MMS_MESSAGE_RSP_STATUS_OK
            then (if nonempty (sc_msgid (m_sc p)) then sc_msgid (m_sc p) else None,
                  MMS_SEND_STATE_SEND_ERROR, None)
            else (None,
                  if sc_rsp_status (m_sc p) \<in> set (map rsp_status_code refused_status)
                  then MMS_SEND_STATE_REFUSED else MMS_SEND_STATE_SEND_ERROR,
                  sc_rsp_text (m_sc p))
          else (None, MMS_SEND_STATE_SEND_ERROR, None))"

definition mms_task_send_done ::
    "('it, 'mi) transfer_env \<Rightarrow> 'u http_env \<Rightarrow> string option \<Rightarrow> nat
       \<Rightarrow> ('q, 'a) mms_task_scheme \<Rightarrow> ('q, 'a) mms_task_scheme" where
  "mms_task_send_done te env path status t =
     (let pdu = (if status_is_successful env status
                 then case path of
                        None \<Rightarrow> None
                      | Some p \<Rightarrow> (case te_map_file te p of
                                     None \<Rightarrow> None
                                   | Some octets \<Rightarrow> decode_pdu (te_decoders te) octets)
                 else None)
      in case send_result pdu of
           (Some msgid, _, _) \<Rightarrow> tell (Message_Sent (t_id t) msgid) t
         | (None, state, details) \<Rightarrow> tell (Message_Send_State_Changed (t_id t) state details) t)"

definition mms_task_read_done ::
    "'u http_env \<Rightarrow> string option \<Rightarrow> nat \<Rightarrow> ('q, 'a) mms_task_scheme \<Rightarrow> ('q, 'a) mms_task_scheme" where
  "mms_task_read_done env path status t =
     tell (Read_Report_Send_Status (t_id t)
       (if status_is_informational env status \<or> status_is_successful env status
        then MMS_READ_REPORT_STATUS_OK
        else if status_is_transport_error env status then MMS_READ_REPORT_STATUS_IO_ERROR
        else MMS_READ_REPORT_STATUS_PERMANENT_ERROR)) t"

section \<open>Classes\<close>

fun class_of ::
    "('it, 'mi) transfer_env \<Rightarrow> 'u http_env \<Rightarrow> http_kind
       \<Rightarrow> ('m mms_task_request, 'u, 'a) mms_task_http_scheme mms_http_class" where
  "class_of te env Plain = plain_class"
| "class_of te env (Retrieve transaction_id) = \<lparr>
     hc_started = Some (\<lambda>t. tell (Message_Receive_State_Changed (t_id t) MMS_RECEIVE_STATE_RECEIVING) t),
     hc_paused = Some (\<lambda>t. tell (Message_Receive_State_Changed (t_id t) MMS_RECEIVE_STATE_DEFERRED) t),
     hc_done = Some (mms_task_retrieve_done te env transaction_id)\<rparr>"
| "class_of te env Send = \<lparr>
     hc_started = Some (\<lambda>t. tell (Message_Send_State_Changed (t_id t) MMS_SEND_STATE_SENDING None) t),
     hc_paused = Some (\<lambda>t. tell (Message_Send_State_Changed (t_id t) MMS_SEND_STATE_DEFERRED None) t),
     hc_done = Some (mms_task_send_done te env)\<rparr>"
| "class_of te env Read = \<lparr>hc_started = None, hc_paused = None, hc_done = Some (mms_task_read_done env)\<rparr>"

text \<open>The new object of an HTTP request.\<close>

definition http_task_of ::
    "u32 \<Rightarrow> string \<Rightarrow> int \<Rightarrow> 'm mms_task_request \<Rightarrow> task_counters
       \<Rightarrow> (('q, 'u) mms_task_http \<times> task_counters) option" where
  "http_task_of retry_secs root_dir now rq cs =
     (case rq_kind rq of
        Http_Task k ct uri receive_file send_file \<Rightarrow>
          (case mms_task_http_alloc retry_secs root_dir now (rq_name rq) (rq_id rq) (rq_imsi rq) uri
                  receive_file send_file ct cs of
             (t, cs) \<Rightarrow> Some (t\<lparr>t_priority := rq_priority rq,
               t_deadline := (case rq_deadline rq of None \<Rightarrow> t_deadline t | Some d \<Rightarrow> d)\<rparr>, cs))
      | _ \<Rightarrow> None)"

section \<open>Every kind is an HTTP task\<close>

lemma reports_tell: "(\<And>t. handler_call (f t)) \<Longrightarrow> reports (\<lambda>t. tell (f t) t)"
  by (auto simp: reports_def tell_def)

lemma reports_retrieve_done: "reports (mms_task_retrieve_done te env transaction_id path status)"
  unfolding reports_def
proof
  fix t :: "('a mms_task_request, 'b) mms_task_scheme"
  show "\<exists>cs. mms_task_retrieve_done te env transaction_id path status t = t\<lparr>t_calls := t_calls t @ cs\<rparr>
      \<and> list_all handler_call cs"
    by (cases "mms_task_decode_new te t transaction_id path :: 'a mms_task_request option";
        cases "status_is_successful env status"; cases "t_delegate t")
       (auto simp: mms_task_retrieve_done_def mms_task_queue_and_unref_def tell_def)
qed

lemma reports_send_done: "reports (mms_task_send_done te env path status)"
  unfolding reports_def mms_task_send_done_def Let_def
  by (auto simp: tell_def split: prod.split option.split)

lemma reports_read_done: "reports (mms_task_read_done env path status)"
  unfolding mms_task_read_done_def by (rule reports_tell) simp

lemma class_of_reports:
  "hc_started (class_of te env k) = Some f \<Longrightarrow> reports f"
  "hc_paused (class_of te env k) = Some f \<Longrightarrow> reports f"
  "hc_done (class_of te env k) = Some g \<Longrightarrow> reports (g path ss)"
  by (cases k; force simp: plain_class_def reports_read_done reports_retrieve_done
      reports_send_done intro: reports_tell)+

interpretation kind: http_subclass "class_of te env k" env for te env k
  by unfold_locales (fact class_of_reports)+

text \<open>The final states that a task reports for its message or read report.\<close>

fun outcome_call :: "'q task_call \<Rightarrow> bool" where
  "outcome_call (Message_Receive_State_Changed _ s) \<longleftrightarrow>
     s = MMS_RECEIVE_STATE_DECODING \<or> s = MMS_RECEIVE_STATE_DOWNLOAD_ERROR"
| "outcome_call (Message_Send_State_Changed _ s _) \<longleftrightarrow>
     s = MMS_SEND_STATE_SEND_ERROR \<or> s = MMS_SEND_STATE_REFUSED"
| "outcome_call (Message_Sent _ _) \<longleftrightarrow> True"
| "outcome_call (Read_Report_Send_Status _ _) \<longleftrightarrow> True"
| "outcome_call _ \<longleftrightarrow> False"

lemma outcome_call_handler: "outcome_call c \<Longrightarrow> handler_call c"
  by (cases c) auto

lemma outcomes_tell [simp]:
  "outcomes P (tell c t) = outcomes P t + (if P c then 1 else 0)"
  by (simp add: outcomes_def)

lemma outcomes_retrieve_done:
  "outcomes outcome_call (mms_task_retrieve_done te env tid path ss t) = Suc (outcomes outcome_call t)"
  by (auto simp: mms_task_retrieve_done_def mms_task_queue_and_unref_def split: option.split prod.split)

lemma send_result_state:
  "send_result pdu = (None, st, details) \<Longrightarrow> st = MMS_SEND_STATE_SEND_ERROR \<or> st = MMS_SEND_STATE_REFUSED"
  by (auto simp: send_result_def split: option.splits if_splits)

lemma outcomes_send_done:
  "outcomes outcome_call (mms_task_send_done te env path ss t) = Suc (outcomes outcome_call t)"
  unfolding mms_task_send_done_def Let_def
  by (auto split: prod.split option.split dest: send_result_state)

interpretation retrieve: http_reporter "class_of te env (Retrieve tid)" env outcome_call for te env tid
  by unfold_locales (auto simp: outcome_call_handler outcomes_retrieve_done)

interpretation send: http_reporter "class_of te env Send" env outcome_call for te env
  by unfold_locales (auto simp: outcome_call_handler outcomes_send_done)

interpretation read: http_reporter "class_of te env Read" env outcome_call for te env
  by unfold_locales (auto simp: outcome_call_handler mms_task_read_done_def)

text \<open>A new task.\<close>

lemma http_task_of_fields:
  assumes "http_task_of retry_secs root_dir now rq cs = Some (t, cs')"
  shows "http_ok (t\<lparr>t_delegate := d\<rparr>)" and "t_state t = MMS_TASK_STATE_READY" and "t_calls t = []"
    and "t_deadline t = (case rq_deadline rq of None \<Rightarrow> now + MMS_TASK_DEFAULT_LIFETIME | Some x \<Rightarrow> x)"
  using assms
  by (auto simp: http_task_of_def mms_task_http_alloc_def mms_task_alloc_def mms_task_init_def
      mms_task.defs http_ok_def timer_ok_def told_ok_def split: task_kind.splits option.splits)

section \<open>Properties\<close>

definition sample_te :: "(sample_header list, unit) transfer_env" where
  "sample_te = \<lparr>te_decoders = sample_decoders [], te_encoders = sample_wsp, te_junk = replicate 256 0,
     te_write_results = [], te_map_file = (\<lambda>_. None), te_mkdir = (\<lambda>_. True),
     te_open_create = (\<lambda>_. True), te_root_dir = ''/mms'', te_allow_dr = None\<rparr>"

definition sample_request :: "unit mms_task_request" where
  "sample_request = mms_task_send_new sample_task [0x8C]"

definition sample_new :: "(unit mms_task_request, string) mms_task_http" where
  "sample_new = fst (the (http_task_of 15 ''/mms'' 1000 sample_request \<lparr>mms_task_order = 0, mms_task_count = 0\<rparr>))"

lemma sample_new:
  "http_task_of 15 ''/mms'' 1000 sample_request \<lparr>mms_task_order = 0, mms_task_count = 0\<rparr>
     = Some (sample_new, \<lparr>mms_task_order = 1, mms_task_count = 1\<rparr>)"
  by (simp add: sample_new_def sample_request_def mms_task_send_new_def http_task_of_def
      mms_task_http_alloc_def mms_task_alloc_def mms_task_init_def)

definition sample_class :: "(mms_connection, (unit mms_task_request, string) mms_task_http) mms_task_class" where
  "sample_class = mms_task_http_class (class_of sample_te sample_env Send) sample_env"

text \<open>A sending task that has been run once and asks for a connection.\<close>

definition sample_ran :: "(unit mms_task_request, string) mms_task_http" where
  "sample_ran = mms_task_run sample_class 1000 (sample_new\<lparr>t_delegate := True\<rparr>)"

lemma sample_new_state:
  "t_state sample_new = MMS_TASK_STATE_READY" "h_transaction_state sample_new = MMS_HTTP_READY"
  "h_connection_type sample_new = MMS_CONNECTION_TYPE_AUTO"
  by (simp_all add: sample_new_def sample_request_def mms_task_send_new_def http_task_of_def
      mms_task_http_alloc_def mms_task_alloc_def mms_task_init_def mms_task.defs)

lemma sample_ran_state:
  "t_state sample_ran = MMS_TASK_STATE_NEED_CONNECTION" "h_transaction_state sample_ran = MMS_HTTP_READY"
  by (simp_all add: sample_ran_def sample_class_def mms_task_run_def mms_task_http_class_def
      mms_task_http_run_def set_state_awake sample_new_state)

lemma sample_ran_step:
  "http_event (class_of sample_te sample_env Send) sample_env (sample_new\<lparr>t_delegate := True\<rparr>) sample_ran"
  unfolding sample_ran_def sample_class_def
  by (intro http_event.Task task_step.Run) (simp add: sample_new_state)

text \<open>C8. Whatever happens to an HTTP task from its creation on (calls of the dispatcher, timers, callbacks
  of libsoup in any order), its timer runs exactly while it sleeps, the transfer list is told of started
  and finished transfers in turn, with a transfer open exactly while the transaction is active, a
  transmitting task has a transfer, and its identity never changes.\<close>

theorem http_task_invariants:
  assumes "http_task_of retry_secs root_dir now rq cs = Some (t0, cs')"
    and "(http_event (class_of te env k) env)\<^sup>*\<^sup>* (t0\<lparr>t_delegate := d\<rparr>) t"
  shows "(t_wakeup_id t \<longleftrightarrow> t_state t = MMS_TASK_STATE_SLEEP)
    \<and> transfers_told False (t_calls t) = Some (h_transaction_state t = MMS_HTTP_ACTIVE)
    \<and> (t_state t = MMS_TASK_STATE_TRANSMITTING \<longrightarrow> h_tx t \<noteq> None \<and> h_transaction_state t = MMS_HTTP_ACTIVE)
    \<and> same_task (t0\<lparr>t_delegate := d\<rparr>) t"
  using kind.http_events_kept [OF assms(2) http_task_of_fields(1) [OF assms(1)]]
  by (simp add: kept_def http_ok_def timer_ok_def told_ok_def)

theorem http_task_invariants_witness:
  "\<not> t_wakeup_id sample_ran \<and> transfers_told False (t_calls sample_ran) = Some False"
  using http_task_invariants [OF sample_new r_into_rtranclp, OF sample_ran_step]
  by (simp add: sample_ran_state)

text \<open>The assertions of \<^verbatim>\<open>mms_task.c\<close> hold for every HTTP task in every state it can get into: running
  leaves READY, transmitting over an open connection leaves the states that ask for a connection, and a
  lost network leaves the task asleep or done.\<close>

theorem http_task_assertions:
  assumes "http_task_of retry_secs root_dir now rq cs = Some (t0, cs')"
    and "(http_event (class_of te env k) env)\<^sup>*\<^sup>* (t0\<lparr>t_delegate := d\<rparr>) t"
  shows "(t_state t = MMS_TASK_STATE_READY
      \<longrightarrow> t_state (mms_task_run (mms_task_http_class (class_of te env k) env) n t) \<noteq> MMS_TASK_STATE_READY)
    \<and> (needs_connection t \<and> c_state c = MMS_CONNECTION_STATE_OPEN
      \<longrightarrow> \<not> needs_connection (mms_task_transmit (mms_task_http_class (class_of te env k) env) n c t))
    \<and> (needs_connection t \<or> t_state t \<in> {MMS_TASK_STATE_TRANSMITTING, MMS_TASK_STATE_DONE}
      \<longrightarrow> t_state (mms_task_network_unavailable (mms_task_http_class (class_of te env k) env) n r t)
            \<in> {MMS_TASK_STATE_SLEEP, MMS_TASK_STATE_DONE})"
proof -
  have "http_ok t"
    using kind.http_events_kept [OF assms(2) http_task_of_fields(1) [OF assms(1)]] by (simp add: kept_def)
  then show ?thesis
    using kind.task.run_leaves_ready [of t te env k n] kind.task.transmit_uses_connection [of t c te env k n]
      kind.task.unavailable_stops [of t te env k n r] by blast
qed

theorem http_task_assertions_witness:
  "\<not> needs_connection (mms_task_transmit sample_class 1001 sample_connection sample_ran)"
  using http_task_assertions [OF sample_new r_into_rtranclp, OF sample_ran_step,
      where c = sample_connection and n = 1001]
  by (simp add: sample_class_def needs_connection_def sample_ran_state sample_connection_def)

text \<open>C7. A task that retrieves or sends a message, or sends a read report, reports the final outcome to
  the message handler exactly once: by the time it is done and not before, however it gets there.\<close>

theorem outcome_reported_once:
  assumes "http_task_of retry_secs root_dir now rq cs = Some (t0, cs')"
    and "(http_life (class_of te env k) env)\<^sup>*\<^sup>* (t0\<lparr>t_delegate := d\<rparr>) t" and "k \<noteq> Plain"
  shows "outcomes outcome_call t = (if t_state t = MMS_TASK_STATE_DONE then 1 else 0)"
proof -
  note t0 = http_task_of_fields [OF assms(1)]
  have init: "outcomes outcome_call (t0\<lparr>t_delegate := d\<rparr>) =
      (if t_state (t0\<lparr>t_delegate := d\<rparr>) = MMS_TASK_STATE_DONE then 1 else 0)"
    using t0(2,3) by (simp add: outcomes_def)
  show ?thesis
  proof (cases k)
    case (Retrieve tid)
    show ?thesis
      by (rule retrieve.reported_life [THEN conjunct2, OF assms(2) [unfolded Retrieve] t0(1) init])
  next
    case Send
    show ?thesis
      by (rule send.reported_life [THEN conjunct2, OF assms(2) [unfolded Send] t0(1) init])
  next
    case Read
    show ?thesis
      by (rule read.reported_life [THEN conjunct2, OF assms(2) [unfolded Read] t0(1) init])
  qed (use assms(3) in simp)
qed

theorem outcome_reported_once_witness:
  "outcomes outcome_call (mms_task_cancel sample_class 1001 sample_ran) = 1"
proof -
  have "http_life (class_of sample_te sample_env Send) sample_env (sample_new\<lparr>t_delegate := True\<rparr>) sample_ran"
    using sample_ran_step by (simp add: http_life_def settled_def sample_new_state)
  moreover have "http_life (class_of sample_te sample_env Send) sample_env sample_ran
      (mms_task_cancel sample_class 1001 sample_ran)"
    unfolding http_life_def sample_class_def
    by (intro conjI http_event.Task task_step.Cancel) (simp add: settled_def sample_ran_state)
  ultimately have "(http_life (class_of sample_te sample_env Send) sample_env)\<^sup>*\<^sup>*
      (sample_new\<lparr>t_delegate := True\<rparr>) (mms_task_cancel sample_class 1001 sample_ran)"
    by (rule converse_rtranclp_into_rtranclp [OF _ r_into_rtranclp])
  from outcome_reported_once [OF sample_new this] show ?thesis
    by (simp add: sample_class_def mms_task_cancel_def mms_task_http_class_def mms_task_http_cancel_def)
qed

text \<open>A message that has expired is not retrieved; otherwise the task for it has a deadline in the
  future, ten minutes away or when the message expires, whichever is first.\<close>

theorem retrieve_before_expiry:
  "(case mms_task_retrieve_new now ident imsi pdu ct of
      None \<Rightarrow> sint (ni_expiry (m_ni pdu)) \<le> now
    | Some rq \<Rightarrow>
        (case http_task_of retry_secs root_dir now rq cs of
           None \<Rightarrow> False
         | Some (t, _) \<Rightarrow> now < t_deadline t
             \<and> t_deadline t = min (sint (ni_expiry (m_ni pdu))) (now + 600)))"
  by (auto simp: mms_task_retrieve_new_def http_task_of_def mms_task_http_alloc_def mms_task_alloc_def
      mms_task_init_def mms_task.defs MMS_TASK_DEFAULT_LIFETIME_def Let_def split: option.split)

text \<open>A message counts as sent exactly when the MMSC has answered the request with a decodable
  M-Send.conf that has the status Ok and a message id.\<close>

theorem message_sent_iff:
  "(\<exists>m. told_since t (mms_task_send_done te env path status t) = [Message_Sent (t_id t) m]) \<longleftrightarrow>
     status_is_successful env status
     \<and> (\<exists>p octets pdu. path = Some p \<and> te_map_file te p = Some octets
          \<and> decode_pdu (te_decoders te) octets = Some pdu
          \<and> m_type pdu = message_type_code MMS_MESSAGE_TYPE_SEND_CONF
          \<and> sc_rsp_status (m_sc pdu) = rsp_status_code MMS_MESSAGE_RSP_STATUS_OK
          \<and> nonempty (sc_msgid (m_sc pdu)))"
  by (auto simp: mms_task_send_done_def Let_def send_result_def told_since_def nonempty_def
      split: option.splits if_splits)

text \<open>The acknowledgement of a retrieved message and the response to a notification carry the
  transaction id they were created with, version 1.1 and, respectively, the delivery report setting of
  the SIM or the notify status; they are created whenever their file can be written.\<close>

theorem confirmation_tasks:
  assumes "te_mkdir te (mms_message_dir (te_root_dir te) (t_id parent))" and "\<forall>f. te_open_create te f"
    and "length (te_junk te) = FB_SIZE" and "te_write_results te = []"
    and "short_text tid"
  shows "map_option rq_octets (mms_task_ack_new te parent (Some tid) :: 'm mms_task_request option) =
        Some ([0x8C, 133, 0x98] @ wire_quote tid @ strz tid
          @ [0x8D, 0x91, 0x91, if (case te_allow_dr te of Some dr \<Rightarrow> dr | None \<Rightarrow> True) then 0x80 else 0x81])
    \<and> map_option rq_octets (mms_task_notifyresp_new te parent (Some tid) ns :: 'm mms_task_request option) =
        Some ([0x8C, 131, 0x98] @ wire_quote tid @ strz tid @ [0x8D, 0x91, 0x95, notify_status_code ns])"
proof -
  have created: "mms_create_file (te_mkdir te) (te_open_create te)
      (mms_message_dir (te_root_dir te) (t_id parent)) f \<noteq> None" for f
    using assms(1,2) by (simp add: mms_create_file_def Let_def)
  have written: "write_pdu te (t_id parent) f msg = Some ([0x8C, message_type_code t] @ [0x98]
      @ wire_quote tid @ strz tid @ [0x8D, m_version msg OR 0x80] @ trailer)"
    if "m_transaction_id msg = Some tid" "m_type msg = message_type_code t"
      "(t = MMS_MESSAGE_TYPE_NOTIFYRESP_IND \<and> trailer = [0x95, nri_notify_status (m_nri msg) OR 0x80])
       \<or> (t = MMS_MESSAGE_TYPE_ACKNOWLEDGE_IND \<and> trailer = [0x91, if ai_report (m_ai msg) then 0x80 else 0x81])"
    for f msg t trailer
    using confirmation_exact [OF assms(3) _ that(1) assms(5) that(2,3),
        where fd = "\<lparr>f_data = [], f_results = []\<rparr>" and w = "te_encoders te"] created [of f]
    by (auto simp: write_pdu_def encode_file_def assms(4))
  have "notify_status_code ns OR 0x80 = notify_status_code ns"
    by (cases ns) simp_all
  then have "mms_task_notifyresp_encode te (t_id parent) (Some tid) ns =
      Some ([0x8C, 131, 0x98] @ wire_quote tid @ strz tid @ [0x8D, 0x91, 0x95, notify_status_code ns])"
    unfolding mms_task_notifyresp_encode_def
    by (subst written [where t = MMS_MESSAGE_TYPE_NOTIFYRESP_IND]) (simp_all add: MMS_VERSION_def)
  moreover have "mms_task_ack_encode te (t_id parent) (Some tid) =
      Some ([0x8C, 133, 0x98] @ wire_quote tid @ strz tid
        @ [0x8D, 0x91, 0x91, if (case te_allow_dr te of Some dr \<Rightarrow> dr | None \<Rightarrow> True) then 0x80 else 0x81])"
    unfolding mms_task_ack_encode_def
    by (subst written [where t = MMS_MESSAGE_TYPE_ACKNOWLEDGE_IND])
       (simp_all add: MMS_VERSION_def MMS_SETTINGS_DEFAULT_ALLOW_DR_def split: option.split)
  ultimately show ?thesis
    by (simp add: mms_task_ack_new_def mms_task_notifyresp_new_def)
qed

theorem confirmation_tasks_witness:
  "map_option rq_octets (mms_task_ack_new sample_te sample_task (Some ''t'') :: unit mms_task_request option)
     = Some [0x8C, 133, 0x98, 116, 0, 0x8D, 0x91, 0x91, 0x80]"
  using confirmation_tasks [where te = sample_te and parent = sample_task and tid = "''t''" and 'm = unit, THEN conjunct1]
  by (simp add: sample_te_def FB_SIZE_def short_text_def wire_quote_def high_first_def strz_def bytes_of_def)

end
