(* ===== verification/Mms_Message.thy ===== *)
theory Mms_Message
  imports Task_Transfers
begin

text \<open>
  The message object that is handed to the message handler, \<^verbatim>\<open>mms-lib/src/mms_message.c\<close> and
  \<^verbatim>\<open>mms_message.h\<close>, and the operations of \<^verbatim>\<open>mms_file_util.c\<close> that write and decode its parts.

  \<^item> \<open>files\<close> is the content of the regular files by path. \<open>file_env\<close> says which operations of the file
    system succeed (\<open>fe_room\<close>: how many octets can be written to a file before an error) and holds the
    content decoder of GMime, a function of its state and a chunk of octets.
  \<^item> An object is a value here: its reference count has no counterpart.
\<close>

section \<open>The message object\<close>

datatype mms_priority = MMS_PRIORITY_LOW | MMS_PRIORITY_NORMAL | MMS_PRIORITY_HIGH

record mms_message_part =
  mp_content_type :: "string option"
  mp_content_id :: "string option"
  mp_file :: string
  mp_orig :: "string option"

record mms_message_object =
  mo_id :: "string option"
  mo_message_id :: "string option"
  mo_from :: "string option"
  mo_to :: "string list"
  mo_cc :: "string list"
  mo_subject :: "string option"
  mo_date :: int
  mo_priority :: mms_priority
  mo_cls :: string
  mo_read_report_req :: bool
  mo_msg_dir :: "string option"
  mo_parts_dir :: "string option"
  mo_parts :: "mms_message_part list"
  mo_flags :: u32

definition MMS_MESSAGE_FLAG_KEEP_FILES :: u32 where "MMS_MESSAGE_FLAG_KEEP_FILES = 0x01"

definition mms_message_new :: mms_message_object where
  "mms_message_new =
     \<lparr>mo_id = None, mo_message_id = None, mo_from = None, mo_to = [], mo_cc = [], mo_subject = None,
      mo_date = 0, mo_priority = MMS_PRIORITY_NORMAL, mo_cls = [], mo_read_report_req = False,
      mo_msg_dir = None, mo_parts_dir = None, mo_parts = [], mo_flags = 0\<rparr>"

datatype file_op =
    Remove_File string
  | Remove_Dir string
  | Rename_File string string
  | Write_File string "byte list"

definition keeps_files :: "mms_message_object \<Rightarrow> bool" where
  "keeps_files msg \<longleftrightarrow> mo_flags msg AND MMS_MESSAGE_FLAG_KEEP_FILES \<noteq> 0"

text \<open>What freeing a part and the message removes.\<close>

definition mms_message_part_free :: "mms_message_object \<Rightarrow> mms_message_part \<Rightarrow> file_op list" where
  "mms_message_part_free msg part =
     (if \<not> keeps_files msg then [Remove_File (mp_file part)] else [])
     @ (case mp_orig part of
          None \<Rightarrow> []
        | Some f \<Rightarrow> if \<not> keeps_files msg then [Remove_File f] else [])"

definition mms_message_finalize :: "mms_message_object \<Rightarrow> file_op list" where
  "mms_message_finalize msg =
     concat (map (mms_message_part_free msg) (mo_parts msg))
     @ (case mo_parts_dir msg of
          None \<Rightarrow> [] | Some dir \<Rightarrow> if \<not> keeps_files msg then [Remove_Dir dir] else [])
     @ (case mo_msg_dir msg of
          None \<Rightarrow> [] | Some dir \<Rightarrow> if \<not> keeps_files msg then [Remove_Dir dir] else [])"

section \<open>Files\<close>

type_synonym files = "string \<Rightarrow> byte list option"

record 's file_env =
  fe_mkdir :: "string \<Rightarrow> bool"
  fe_can_write :: "string \<Rightarrow> bool"
  fe_can_create :: "string \<Rightarrow> bool"
  fe_room :: "string \<Rightarrow> nat option"
  fe_can_rename :: "string \<Rightarrow> string \<Rightarrow> bool"
  fe_encoding_from_string :: "string \<Rightarrow> nat"
  fe_decode_init :: "nat \<Rightarrow> 's"
  fe_decode_step :: "'s \<Rightarrow> byte list \<Rightarrow> byte list \<times> 's"
  fe_decode_flush :: "'s \<Rightarrow> byte list"

definition mms_write_file ::
    "'s file_env \<Rightarrow> string \<Rightarrow> string \<Rightarrow> byte list \<Rightarrow> files \<Rightarrow> string option \<times> files" where
  "mms_write_file fe dir f octets fs =
     (if fe_mkdir fe dir
      then let fname = build_filename dir f; fs = fs(fname := None) in
        if fe_can_write fe fname then (Some fname, fs(fname \<mapsto> octets)) else (None, fs)
      else (None, fs))"

definition rename_file :: "'s file_env \<Rightarrow> string \<Rightarrow> string \<Rightarrow> files \<Rightarrow> bool \<times> files" where
  "rename_file fe src dest fs =
     (case fs src of
        None \<Rightarrow> (False, fs)
      | Some octets \<Rightarrow> if fe_can_rename fe src dest then (True, (fs(src := None))(dest \<mapsto> octets)) else (False, fs))"

text \<open>The loop of \<^verbatim>\<open>mms_file_decode\<close>: the octets it writes while it reads 1024 octets at a time.\<close>

definition DECODE_BUFLEN :: nat where "DECODE_BUFLEN = 1024"

function decode_octets :: "'s file_env \<Rightarrow> 's \<Rightarrow> byte list \<Rightarrow> byte list" where
  "decode_octets fe st inbuf =
     (if inbuf = [] then fe_decode_flush fe st
      else case fe_decode_step fe st (take DECODE_BUFLEN inbuf) of
             (outbuf, st) \<Rightarrow> outbuf @ decode_octets fe st (drop DECODE_BUFLEN inbuf))"
  by pat_completeness auto
termination
  by (relation "measure (\<lambda>(fe, st, inbuf). length inbuf)") (auto simp: DECODE_BUFLEN_def)

declare decode_octets.simps [simp del]

definition mms_file_decode :: "'s file_env \<Rightarrow> string \<Rightarrow> string \<Rightarrow> nat \<Rightarrow> files \<Rightarrow> bool \<times> files" where
  "mms_file_decode fe src dest enc fs =
     (case fs src of
        None \<Rightarrow> (False, fs)
      | Some octets \<Rightarrow>
          if fe_can_create fe dest
          then let out = decode_octets fe (fe_decode_init fe enc) octets in
            (case fe_room fe dest of
               None \<Rightarrow> (True, fs(dest \<mapsto> out))
             | Some room \<Rightarrow> (length out \<le> room, fs(dest \<mapsto> take room out)))
          else (False, fs))"

text \<open>\<^verbatim>\<open>mms_remove_file_and_dir\<close>.\<close>

definition dirname :: "string \<Rightarrow> string" where
  "dirname path = rev (tl (dropWhile (\<lambda>c. c \<noteq> CHR ''/'') (rev path)))"

definition mms_remove_file_and_dir :: "string option \<Rightarrow> file_op list" where
  "mms_remove_file_and_dir f = (case f of None \<Rightarrow> [] | Some f \<Rightarrow> [Remove_File f, Remove_Dir (dirname f)])"

section \<open>Lemmas\<close>

lemma build_filename_inject [simp]: "build_filename d f = build_filename d g \<longleftrightarrow> f = g"
  by (simp add: build_filename_def)

lemma write_file_Some:
  "mms_write_file fe dir f octets fs = (Some p, fs') \<Longrightarrow> p = build_filename dir f \<and> fs' = fs(p \<mapsto> octets)"
  by (auto simp: mms_write_file_def Let_def split: if_splits)

lemma write_file_other:
  "p \<noteq> build_filename dir f \<Longrightarrow> snd (mms_write_file fe dir f octets fs) p = fs p"
  by (auto simp: mms_write_file_def Let_def)

lemma rename_file_other:
  "p \<noteq> src \<Longrightarrow> p \<noteq> dest \<Longrightarrow> snd (rename_file fe src dest fs) p = fs p"
  by (auto simp: rename_file_def split: option.split)

lemma file_decode_other:
  "p \<noteq> dest \<Longrightarrow> snd (mms_file_decode fe src dest enc fs) p = fs p"
  by (auto simp: mms_file_decode_def Let_def split: option.split)

lemma file_decode_ok:
  "mms_file_decode fe src dest enc fs = (True, fs')
   \<Longrightarrow> \<exists>octets. fs src = Some octets \<and> fs' dest = Some (decode_octets fe (fe_decode_init fe enc) octets)"
  by (auto simp: mms_file_decode_def Let_def split: option.splits if_splits)

text \<open>A decoder that does not care how its input is cut gets the whole file.\<close>

lemma decode_octets_chunks:
  fixes fe :: "'s file_env"
  assumes "\<And>st a b. decode st (a @ b) = fst (fe_decode_step fe st a) @ decode (snd (fe_decode_step fe st a)) b"
    and "\<And>st. decode st [] = fe_decode_flush fe st"
  shows "decode_octets fe st octets = decode st octets"
proof (induction octets arbitrary: st rule: length_induct)
  case (1 octets)
  show ?case
  proof (cases "octets = []")
    case False
    let ?a = "take DECODE_BUFLEN octets" and ?b = "drop DECODE_BUFLEN octets"
    have "length ?b < length octets"
      using False by (simp add: DECODE_BUFLEN_def)
    then have "decode_octets fe st octets = fst (fe_decode_step fe st ?a) @ decode (snd (fe_decode_step fe st ?a)) ?b"
      using 1 False by (subst decode_octets.simps) (simp split: prod.split)
    also have "\<dots> = decode st (?a @ ?b)"
      by (rule assms(1) [symmetric])
    finally show ?thesis by simp
  qed (subst decode_octets.simps, simp add: assms(2))
qed

text \<open>The message object frees the files of its parts and its directories unless it is to keep them.\<close>

lemma finalize_removes:
  "Remove_File f \<in> set (mms_message_finalize msg) \<longleftrightarrow>
     \<not> keeps_files msg \<and> (\<exists>p\<in>set (mo_parts msg). f = mp_file p \<or> mp_orig p = Some f)"
  by (auto simp: mms_message_finalize_def mms_message_part_free_def Bex_def
      split: option.splits if_splits)

end
