(* ===== verification/Task_Decode.thy ===== *)
theory Task_Decode
  imports Mms_Message "HOL-Library.Sublist"
begin

text \<open>
  Decoding a retrieved message, \<^verbatim>\<open>mms-lib/src/mms_task_decode.c\<close>: the parts are written to files of their
  own, parts that are transfer encoded are decoded, and the message object is handed on to be published.

  \<^item> \<open>mms_task_decode\<close> extends the task with the content of the mapped file and the transaction id.
  \<^item> The names given to files and content ids so far are lists (\<^verbatim>\<open>GPtrArray\<close>). The files of the parts
    directory are passed from one part to the next.
\<close>

section \<open>State\<close>

record 'q mms_task_decode = "'q mms_task" +
  dc_map :: "byte list"
  dc_transaction_id :: "string option"
  dc_file :: string

section \<open>Names\<close>

text \<open>\<^verbatim>\<open>mms_task_decode_array_contains_string\<close>.\<close>

fun array_contains_string :: "string list \<Rightarrow> string \<Rightarrow> bool" where
  "array_contains_string [] str \<longleftrightarrow> False"
| "array_contains_string (s # array) str \<longleftrightarrow> s = str \<or> array_contains_string array str"

lemma array_contains_string_iff [simp]: "array_contains_string array str \<longleftrightarrow> str \<in> set array"
  by (induction array) auto

fun sanitize_char :: "char \<Rightarrow> string" where
  "sanitize_char c =
     (if c \<in> {CHR ''<'', CHR ''>'', CHR ''['', CHR '']''} then []
      else if c = CHR ''/'' \<or> c = CHR 0x5C then ''_''
      else [c])"

lemma length_le_sum: "s \<in> set array \<Longrightarrow> length s \<le> sum_list (map length array)"
  by (induction array) auto

text \<open>The loop that puts an underscore in front of a name as long as the name is taken.\<close>

function make_unique :: "string list \<Rightarrow> string \<Rightarrow> string" where
  "make_unique array str =
     (if array_contains_string array str then make_unique array (''_'' @ str) else str)"
  by pat_completeness auto

termination
proof (relation "measure (\<lambda>(array, str). Suc (sum_list (map length array)) - length str)")
  fix array :: "string list" and str
  assume "array_contains_string array str"
  then have "length str \<le> sum_list (map length array)"
    by (simp add: length_le_sum)
  then show "((array, ''_'' @ str), (array, str))
      \<in> measure (\<lambda>(array, str). Suc (sum_list (map length array)) - length str)"
    by simp
qed simp

declare make_unique.simps [simp del]

definition mms_task_decode_add_file_name :: "string list \<Rightarrow> string \<Rightarrow> string \<times> string list" where
  "mms_task_decode_add_file_name names proposed =
     (let f = make_unique names (concat (map sanitize_char proposed)) in (f, names @ [f]))"

definition mms_task_decode_make_content_id :: "string list \<Rightarrow> string \<Rightarrow> string \<times> string list" where
  "mms_task_decode_make_content_id ids proposed =
     (let ident = make_unique ids proposed in (ident, ids @ [ident]))"

section \<open>Parts\<close>

definition GMIME_CONTENT_ENCODING_BINARY :: nat where "GMIME_CONTENT_ENCODING_BINARY = 3"

definition mms_task_decode_part ::
    "'s file_env \<Rightarrow> nat \<Rightarrow> string \<Rightarrow> mms_message_part \<Rightarrow> string list \<Rightarrow> files
       \<Rightarrow> mms_message_part \<times> string list \<times> files" where
  "mms_task_decode_part fe enc dir part part_files fs =
     (let part_file = basename (mp_file part);
          (orig_file, part_files) = mms_task_decode_add_file_name part_files (part_file @ ''.orig'');
          orig = build_filename dir orig_file
      in case rename_file fe (mp_file part) orig fs of
           (True, fs) \<Rightarrow>
             (case mms_file_decode fe orig (mp_file part) enc fs of
                (True, fs) \<Rightarrow> (part\<lparr>mp_orig := Some orig\<rparr>, part_files, fs)
              | (False, fs) \<Rightarrow>
                  (part\<lparr>mp_orig := None\<rparr>, part_files,
                   snd (rename_file fe orig (mp_file part) (fs(mp_file part := None)))))
         | (False, fs) \<Rightarrow> (part\<lparr>mp_orig := Some orig\<rparr>, part_files, fs))"

text \<open>\<^verbatim>\<open>printf("%d")\<close> of a number that is not negative.\<close>

fun show_nat :: "nat \<Rightarrow> string" where
  "show_nat n = (if n < 10 then [char_of (48 + n)] else show_nat (n div 10) @ [char_of (48 + n mod 10)])"

declare show_nat.simps [simp del]

definition attachment_octets :: "byte list \<Rightarrow> mms_attachment \<Rightarrow> byte list" where
  "attachment_octets pdu_data a = take (at_length a) (drop (at_offset a) pdu_data)"

text \<open>What is done with one attachment.\<close>

definition decode_attachment ::
    "'s file_env \<Rightarrow> string \<Rightarrow> byte list \<Rightarrow> nat \<Rightarrow> mms_attachment \<Rightarrow> string list \<Rightarrow> string list \<Rightarrow> files
       \<Rightarrow> mms_message_part option \<times> string list \<times> string list \<times> files" where
  "decode_attachment fe parts_dir pdu_data i attach part_files part_ids fs =
     (let name = (case at_content_location attach of Some l \<Rightarrow> Some l | None \<Rightarrow> at_content_id attach);
          (f, part_files) = mms_task_decode_add_file_name part_files
             (if nonempty name then the name else ''part_'' @ show_nat i)
      in case mms_write_file fe parts_dir f (attachment_octets pdu_data attach) fs of
           (None, fs) \<Rightarrow> (None, part_files, part_ids, fs)
         | (Some path, fs) \<Rightarrow>
             let (content_id, part_ids) = mms_task_decode_make_content_id part_ids
                   (case at_content_id attach of Some i \<Rightarrow> i | None \<Rightarrow> ''<'' @ f @ ''>'');
                 part = \<lparr>mp_content_type = at_content_type attach, mp_content_id = Some content_id,
                         mp_file = path, mp_orig = None\<rparr>
             in case at_transfer_encoding attach of
                  None \<Rightarrow> (Some part, part_files, part_ids, fs)
                | Some te \<Rightarrow>
                    let enc = fe_encoding_from_string fe te in
                    if enc > GMIME_CONTENT_ENCODING_BINARY
                    then (case mms_task_decode_part fe enc parts_dir part part_files fs of
                            (part, part_files, fs) \<Rightarrow> (Some part, part_files, part_ids, fs))
                    else (Some part, part_files, part_ids, fs))"

fun decode_attachments ::
    "'s file_env \<Rightarrow> string \<Rightarrow> byte list \<Rightarrow> nat \<Rightarrow> mms_attachment list \<Rightarrow> string list \<Rightarrow> string list \<Rightarrow> files
       \<Rightarrow> mms_message_part list \<times> files" where
  "decode_attachments fe parts_dir pdu_data i [] part_files part_ids fs = ([], fs)"
| "decode_attachments fe parts_dir pdu_data i (a # as) part_files part_ids fs =
     (case decode_attachment fe parts_dir pdu_data i a part_files part_ids fs of
        (part, part_files, part_ids, fs) \<Rightarrow>
          (case decode_attachments fe parts_dir pdu_data (Suc i) as part_files part_ids fs of
             (parts, fs) \<Rightarrow> (case part of None \<Rightarrow> parts | Some p \<Rightarrow> p # parts, fs)))"

section \<open>The message\<close>

definition MMS_PARTS_DIR :: string where "MMS_PARTS_DIR = ''parts''"

definition message_priority :: "byte \<Rightarrow> mms_priority" where
  "message_priority p =
     (if p = priority_code MMS_MESSAGE_PRIORITY_LOW then MMS_PRIORITY_LOW
      else if p = priority_code MMS_MESSAGE_PRIORITY_HIGH then MMS_PRIORITY_HIGH
      else MMS_PRIORITY_NORMAL)"

definition mms_task_decode_retrieve_conf ::
    "'s file_env \<Rightarrow> string \<Rightarrow> bool \<Rightarrow> int \<Rightarrow> ('q, 'a) mms_task_scheme \<Rightarrow> mms_message \<Rightarrow> byte list \<Rightarrow> files
       \<Rightarrow> mms_message_object \<times> files" where
  "mms_task_decode_retrieve_conf fe root_dir keep_temp_files now t pdu pdu_data fs =
     (let dir = mms_message_dir root_dir (t_id t);
          rc = m_rc pdu;
          msg = mms_message_new;
          msg = (if keep_temp_files then msg\<lparr>mo_flags := mo_flags msg OR MMS_MESSAGE_FLAG_KEEP_FILES\<rparr> else msg);
          parts_dir = build_filename dir MMS_PARTS_DIR;
          (parts, fs) = decode_attachments fe parts_dir pdu_data 0 (m_attachments pdu) [] [] fs
      in (msg\<lparr>mo_id := t_id t, mo_msg_dir := Some dir, mo_message_id := rc_msgid rc,
              mo_from := mms_strip_address_type (rc_from rc), mo_to := mms_split_address_list (rc_to rc),
              mo_cc := mms_split_address_list (rc_cc rc), mo_subject := rc_subject rc,
              mo_cls := (case rc_cls rc of Some c \<Rightarrow> c | None \<Rightarrow> MMS_MESSAGE_CLASS_PERSONAL),
              mo_date := (if rc_date rc \<noteq> 0 then sint (rc_date rc) else now),
              mo_read_report_req := rc_rr rc, mo_priority := message_priority (rc_priority rc),
              mo_parts_dir := Some parts_dir, mo_parts := parts\<rparr>, fs))"

section \<open>The task\<close>

text \<open>\<^verbatim>\<open>mms_task_publish_new\<close> of \<^verbatim>\<open>mms_task_publish.c\<close>.\<close>

definition mms_task_publish_new :: "mms_message_object \<Rightarrow> mms_message_object mms_task_request option" where
  "mms_task_publish_new msg =
     (case mo_id msg of
        None \<Rightarrow> None
      | Some i \<Rightarrow> Some \<lparr>rq_kind = Publish_Task msg, rq_priority = MMS_TASK_PRIORITY_POST_PROCESS,
          rq_name = ''Publish'', rq_id = Some i, rq_imsi = None, rq_deadline = None, rq_octets = []\<rparr>)"

definition mms_task_decode_process_pdu ::
    "('it, 'mi) transfer_env \<Rightarrow> 's file_env \<Rightarrow> bool \<Rightarrow> int \<Rightarrow> files
       \<Rightarrow> (mms_message_object mms_task_request, 'a) mms_task_decode_scheme
       \<Rightarrow> (mms_message_object mms_task_request, 'a) mms_task_decode_scheme \<times> files" where
  "mms_task_decode_process_pdu te fe keep_temp_files now fs t =
     (let unrecognised = (\<lambda>t.
            tell (Message_Receive_State_Changed (t_id t) MMS_RECEIVE_STATE_DECODING_ERROR)
              (snd (mms_task_queue_and_unref
                 (mms_task_notifyresp_new te t (dc_transaction_id t) MMS_MESSAGE_NOTIFY_STATUS_UNRECOGNISED) t)))
      in case decode_pdu (te_decoders te) (dc_map t) of
           None \<Rightarrow> (unrecognised t, fs)
         | Some pdu \<Rightarrow>
             if m_type pdu = message_type_code MMS_MESSAGE_TYPE_RETRIEVE_CONF
             then if rc_msgid (m_rc pdu) \<noteq> None
                     \<and> (rc_retrieve_status (m_rc pdu) = 0
                        \<or> rc_retrieve_status (m_rc pdu) = retrieve_status_code MMS_MESSAGE_RETRIEVE_STATUS_OK)
               then (case mms_task_decode_retrieve_conf fe (te_root_dir te) keep_temp_files now t pdu (dc_map t) fs of
                       (msg, fs) \<Rightarrow>
                         let t = snd (mms_task_queue_and_unref (mms_task_ack_new te t (dc_transaction_id t)) t);
                             t = snd (mms_task_queue_and_unref (mms_task_publish_new msg) t)
                         in (t, fs))
               else (tell (Message_Receive_State_Changed (t_id t) MMS_RECEIVE_STATE_DOWNLOAD_ERROR) t, fs)
             else (unrecognised t, fs))"

definition mms_task_decode_run ::
    "('it, 'mi) transfer_env \<Rightarrow> 's file_env \<Rightarrow> bool \<Rightarrow> files \<Rightarrow> int
       \<Rightarrow> (mms_message_object mms_task_request, 'a) mms_task_decode_scheme
       \<Rightarrow> (mms_message_object mms_task_request, 'a) mms_task_decode_scheme" where
  "mms_task_decode_run te fe keep_temp_files fs now t =
     mms_task_set_state (mms_task_cancel_cb now) now MMS_TASK_STATE_DONE
       (fst (mms_task_decode_process_pdu te fe keep_temp_files now fs t))"

definition mms_task_decode_finalize :: "bool \<Rightarrow> ('q, 'a) mms_task_decode_scheme \<Rightarrow> file_op list" where
  "mms_task_decode_finalize keep_temp_files t =
     (if \<not> keep_temp_files then mms_remove_file_and_dir (Some (dc_file t)) else [])"

text \<open>The class. \<^verbatim>\<open>fn_transmit\<close> and \<^verbatim>\<open>fn_network_unavailable\<close> are NULL pointers: a decode task never asks
  for a connection.\<close>

definition mms_task_decode_class ::
    "('it, 'mi) transfer_env \<Rightarrow> 's file_env \<Rightarrow> bool \<Rightarrow> files
       \<Rightarrow> ('c, (mms_message_object mms_task_request, 'a) mms_task_decode_scheme) mms_task_class" where
  "mms_task_decode_class te fe keep_temp_files fs =
     \<lparr>max_lifetime = 0, fn_run = mms_task_decode_run te fe keep_temp_files fs,
      fn_transmit = (\<lambda>now conn t. t), fn_network_unavailable = (\<lambda>now r t. t),
      fn_cancel = mms_task_cancel_cb\<rparr>"

section \<open>Lemmas: names\<close>

lemma make_unique_fresh [simp]: "make_unique array str \<notin> set array"
proof (induction array str rule: make_unique.induct)
  case (1 array str)
  then show ?case by (subst make_unique.simps) simp
qed

lemma make_unique_suffix: "\<exists>n. make_unique array str = replicate n CHR ''_'' @ str"
proof (induction array str rule: make_unique.induct)
  case (1 array str)
  show ?case
  proof (cases "str \<in> set array")
    case True
    then obtain n where "make_unique array (''_'' @ str) = replicate n CHR ''_'' @ ''_'' @ str"
      using 1 by auto
    then have "make_unique array str = replicate (Suc n) CHR ''_'' @ str"
      using True by (subst make_unique.simps) (simp add: replicate_app_Cons_same)
    then show ?thesis by blast
  next
    case False
    then have "make_unique array str = replicate 0 CHR ''_'' @ str"
      by (subst make_unique.simps) simp
    then show ?thesis by blast
  qed
qed

text \<open>What may be in the name of a file.\<close>

definition safe_name :: "string \<Rightarrow> bool" where
  "safe_name f \<longleftrightarrow> set f \<inter> {CHR ''/'', CHR 0x5C, CHR ''<'', CHR ''>'', CHR ''['', CHR '']''} = {}"

text \<open>A safe name may still be one of a directory: the name of a part that is only made of angle brackets becomes empty,
  and dots are kept.\<close>

definition directory_names :: "string set" where
  "directory_names = {[], ''.'', ''..''}"

lemma sanitized_safe: "safe_name (concat (map sanitize_char f))"
  by (induction f) (auto simp: safe_name_def)

lemma make_unique_safe: "safe_name f \<Longrightarrow> safe_name (make_unique array f)"
  using make_unique_suffix [of array f] by (auto simp: safe_name_def)

lemma add_file_name:
  "mms_task_decode_add_file_name names proposed = (f, names')
   \<Longrightarrow> names' = names @ [f] \<and> f \<notin> set names \<and> safe_name f"
  by (auto simp: mms_task_decode_add_file_name_def Let_def make_unique_safe sanitized_safe)

lemma make_content_id:
  "mms_task_decode_make_content_id ids proposed = (i, ids') \<Longrightarrow> ids' = ids @ [i] \<and> i \<notin> set ids"
  by (auto simp: mms_task_decode_make_content_id_def Let_def)

section \<open>Lemmas: one part\<close>

text \<open>The octets that the file of a part is to have.\<close>

definition part_encoding :: "'s file_env \<Rightarrow> mms_attachment \<Rightarrow> nat option" where
  "part_encoding fe a =
     (case at_transfer_encoding a of
        None \<Rightarrow> None
      | Some te \<Rightarrow> if fe_encoding_from_string fe te > GMIME_CONTENT_ENCODING_BINARY
                   then Some (fe_encoding_from_string fe te) else None)"

text \<open>When the part could not be renamed to \<open>mp_orig\<close>, there is no such file. When it could not be decoded and not be
  renamed back, the message names a file that is not there, and the octets are in another file, one of \<open>files\<close>.\<close>

definition part_content_ok ::
    "string set \<Rightarrow> 's file_env \<Rightarrow> byte list \<Rightarrow> files \<Rightarrow> mms_attachment \<Rightarrow> mms_message_part \<Rightarrow> bool" where
  "part_content_ok files fe pdu_data fs a p \<longleftrightarrow>
     mp_content_type p = at_content_type a
     \<and> (case mp_orig p of
          None \<Rightarrow> fs (mp_file p) = Some (attachment_octets pdu_data a)
            \<or> (part_encoding fe a \<noteq> None \<and> fs (mp_file p) = None
               \<and> (\<exists>f\<in>files. \<not> fe_can_rename fe f (mp_file p) \<and> fs f = Some (attachment_octets pdu_data a)))
        | Some f \<Rightarrow> part_encoding fe a \<noteq> None
            \<and> (if fe_can_rename fe (mp_file p) f
               then fs f = Some (attachment_octets pdu_data a)
                 \<and> fs (mp_file p) = Some (decode_octets fe (fe_decode_init fe (the (part_encoding fe a))) (attachment_octets pdu_data a))
               else fs (mp_file p) = Some (attachment_octets pdu_data a)))"

text \<open>A step only touches files whose names it has just taken.\<close>

definition only_new :: "string \<Rightarrow> string list \<Rightarrow> string list \<Rightarrow> files \<Rightarrow> files \<Rightarrow> bool" where
  "only_new dir names names' fs fs' \<longleftrightarrow>
     (\<exists>new. names' = names @ new \<and> (distinct names \<longrightarrow> distinct names') \<and> list_all safe_name new)
     \<and> (\<forall>p. p \<notin> build_filename dir ` (set names' - set names) \<longrightarrow> fs' p = fs p)"

lemma only_new_refl: "only_new dir names names fs fs"
  by (simp add: only_new_def)

lemma only_new_trans:
  assumes "only_new dir a b fs fs'" and "only_new dir b c fs' fs''"
  shows "only_new dir a c fs fs''"
proof -
  obtain x y where "b = a @ x" "c = b @ y" "list_all safe_name x" "list_all safe_name y"
    using assms by (auto simp: only_new_def)
  moreover have "fs'' p = fs p" if "p \<notin> build_filename dir ` (set c - set a)" for p
  proof -
    have "p \<notin> build_filename dir ` (set b - set a)" "p \<notin> build_filename dir ` (set c - set b)"
      using that calculation(1,2) by auto
    then show ?thesis using assms by (simp add: only_new_def)
  qed
  ultimately show ?thesis using assms by (auto simp: only_new_def)
qed

lemma decode_part_step:
  assumes "mms_task_decode_part fe enc dir part names fs = (p, names', fs')"
    and "mp_file part = build_filename dir f" and "f \<in> set names"
  shows "\<exists>g. names' = names @ [g] \<and> g \<notin> set names \<and> safe_name g
    \<and> p = part\<lparr>mp_orig := mp_orig p\<rparr> \<and> (mp_orig p = None \<or> mp_orig p = Some (build_filename dir g))
    \<and> (\<forall>q. q \<noteq> mp_file part \<and> q \<noteq> build_filename dir g \<longrightarrow> fs' q = fs q)
    \<and> (fs (mp_file part) = Some octets \<longrightarrow>
         (case mp_orig p of
            None \<Rightarrow> fs' (mp_file part) = Some octets
              \<or> (fs' (mp_file part) = None
                 \<and> \<not> fe_can_rename fe (build_filename dir g) (mp_file part) \<and> fs' (build_filename dir g) = Some octets)
          | Some o' \<Rightarrow>
              if fe_can_rename fe (mp_file part) o'
              then fs' o' = Some octets \<and> fs' (mp_file part) = Some (decode_octets fe (fe_decode_init fe enc) octets)
              else fs' (mp_file part) = Some octets))"
proof -
  obtain g names2 where add: "mms_task_decode_add_file_name names (basename (mp_file part) @ ''.orig'') = (g, names2)"
    by fastforce
  let ?o = "build_filename dir g"
  have g: "names2 = names @ [g]" "g \<notin> set names" "safe_name g"
    using add_file_name [OF add] by auto
  have neq: "?o \<noteq> mp_file part"
    using g(2) assms(2,3) by auto
  obtain ok1 fs1 where ren: "rename_file fe (mp_file part) ?o fs = (ok1, fs1)" by fastforce
  obtain ok2 fs2 where dec: "mms_file_decode fe ?o (mp_file part) enc fs1 = (ok2, fs2)" by fastforce
  have other1: "fs1 q = fs q" if "q \<noteq> mp_file part" "q \<noteq> ?o" for q
    using rename_file_other [OF that, of fe fs] ren by simp
  have other2: "fs2 q = fs1 q" if "q \<noteq> mp_file part" for q
    using file_decode_other [OF that, of fe ?o enc fs1] dec by simp
  let ?fs3 = "snd (rename_file fe ?o (mp_file part) (fs2(mp_file part := None)))"
  have other3: "?fs3 q = fs2 q" if "q \<noteq> mp_file part" "q \<noteq> ?o" for q
    using that by (simp add: rename_file_other)
  have step: "(p, names', fs') =
      (if ok1 then if ok2 then (part\<lparr>mp_orig := Some ?o\<rparr>, names2, fs2)
                   else (part\<lparr>mp_orig := None\<rparr>, names2, ?fs3)
       else (part\<lparr>mp_orig := Some ?o\<rparr>, names2, fs1))"
    using assms(1) add ren dec by (simp add: mms_task_decode_part_def Let_def split: bool.splits)
  have "case mp_orig p of
            None \<Rightarrow> fs' (mp_file part) = Some octets
              \<or> (fs' (mp_file part) = None \<and> \<not> fe_can_rename fe ?o (mp_file part) \<and> fs' ?o = Some octets)
          | Some o' \<Rightarrow>
              if fe_can_rename fe (mp_file part) o'
              then fs' o' = Some octets \<and> fs' (mp_file part) = Some (decode_octets fe (fe_decode_init fe enc) octets)
              else fs' (mp_file part) = Some octets"
    if fs: "fs (mp_file part) = Some octets"
  proof (cases "fe_can_rename fe (mp_file part) ?o")
    case True
    then have "ok1" "fs1 ?o = Some octets"
      using ren fs by (auto simp: rename_file_def)
    moreover from this have "fs2 ?o = Some octets"
      using other2 neq by simp
    moreover from this have "if fe_can_rename fe ?o (mp_file part) then ?fs3 (mp_file part) = Some octets
        else ?fs3 (mp_file part) = None \<and> ?fs3 ?o = Some octets"
      using neq by (simp add: rename_file_def)
    moreover have "fs2 (mp_file part) = Some (decode_octets fe (fe_decode_init fe enc) octets)" if ok2
      using file_decode_ok [of fe ?o "mp_file part" enc fs1 fs2] dec that calculation(2) by simp
    ultimately show ?thesis using step True by (auto split: if_splits)
  next
    case False
    then have "\<not> ok1" "fs1 = fs" using ren fs by (auto simp: rename_file_def)
    then show ?thesis using step fs False by simp
  qed
  then show ?thesis
    using step g neq other1 other2 other3 by (intro exI [of _ g]) (auto split: if_splits)
qed

text \<open>What is true of a new part: its files are among the names just taken, and so is its content id.\<close>

definition part_written ::
    "'s file_env \<Rightarrow> string \<Rightarrow> byte list \<Rightarrow> string set \<Rightarrow> files \<Rightarrow> mms_attachment \<Rightarrow> mms_message_part \<Rightarrow> bool" where
  "part_written fe dir data new fs a p \<longleftrightarrow>
     (\<exists>f\<in>new. mp_file p = build_filename dir f
        \<and> (\<forall>o'. mp_orig p = Some o' \<longrightarrow> (\<exists>g\<in>new. g \<noteq> f \<and> o' = build_filename dir g)))
     \<and> part_content_ok (build_filename dir ` new) fe data fs a p"

lemma decode_attachment_step:
  assumes "decode_attachment fe dir data i a names ids fs = (r, names', ids', fs')"
  shows "only_new dir names names' fs fs'
    \<and> (case r of
         None \<Rightarrow> ids' = ids \<and> \<not> (fe_mkdir fe dir \<and> (\<forall>f. fe_can_write fe f))
       | Some p \<Rightarrow> part_written fe dir data (set names' - set names) fs' a p
           \<and> (\<exists>c. mp_content_id p = Some c \<and> c \<notin> set ids \<and> ids' = ids @ [c]))"
proof -
  define proposed where "proposed = (let name = (case at_content_location a of Some l \<Rightarrow> Some l | None \<Rightarrow> at_content_id a)
    in if nonempty name then the name else ''part_'' @ show_nat i)"
  obtain f names1 where add: "mms_task_decode_add_file_name names proposed = (f, names1)" by fastforce
  obtain w fs1 where wr: "mms_write_file fe dir f (attachment_octets data a) fs = (w, fs1)" by fastforce
  have f: "names1 = names @ [f]" "f \<notin> set names" "safe_name f"
    using add_file_name [OF add] by auto
  have only1: "only_new dir names names1 fs fs1"
    using f write_file_other [of _ dir f fe "attachment_octets data a" fs] wr by (auto simp: only_new_def)
  obtain c ids1 where cid: "mms_task_decode_make_content_id ids
      (case at_content_id a of Some i \<Rightarrow> i | None \<Rightarrow> ''<'' @ f @ ''>'') = (c, ids1)" by fastforce
  have c: "c \<notin> set ids" "ids1 = ids @ [c]"
    using make_content_id [OF cid] by auto
  let ?part = "\<lparr>mp_content_type = at_content_type a, mp_content_id = Some c,
    mp_file = build_filename dir f, mp_orig = None\<rparr>"
  have result: "decode_attachment fe dir data i a names ids fs =
     (if w = None then (None, names1, ids, fs1)
      else case part_encoding fe a of
             None \<Rightarrow> (Some ?part, names1, ids1, fs1)
           | Some enc \<Rightarrow> (case mms_task_decode_part fe enc dir ?part names1 fs1 of
               (part, part_files, fs) \<Rightarrow> (Some part, part_files, ids1, fs)))"
    using add wr cid write_file_Some [of fe dir f "attachment_octets data a" fs]
    by (auto simp: decode_attachment_def proposed_def part_encoding_def Let_def split: option.split)
  consider "w = None" | "w \<noteq> None" "part_encoding fe a = None" | enc where "w \<noteq> None" "part_encoding fe a = Some enc"
    by blast
  then show ?thesis
  proof cases
    case 1
    then show ?thesis
      using assms result only1 wr by (auto simp: mms_write_file_def Let_def split: if_splits)
  next
    case 2
    then have "fs1 (build_filename dir f) = Some (attachment_octets data a)"
      using wr by (auto dest!: write_file_Some)
    then show ?thesis
      using assms result only1 f c 2 by (auto simp: part_written_def part_content_ok_def)
  next
    case 3
    obtain p names2 fs2 where dec: "mms_task_decode_part fe enc dir ?part names1 fs1 = (p, names2, fs2)"
      using prod_cases3 by blast
    have wrote: "fs1 (mp_file ?part) = Some (attachment_octets data a)"
      using 3(1) wr by (auto dest!: write_file_Some)
    obtain g where g: "names2 = names1 @ [g]" "g \<notin> set names1" "safe_name g"
      "p = ?part\<lparr>mp_orig := mp_orig p\<rparr>" "mp_orig p = None \<or> mp_orig p = Some (build_filename dir g)"
      "\<And>q. q \<noteq> mp_file ?part \<Longrightarrow> q \<noteq> build_filename dir g \<Longrightarrow> fs2 q = fs1 q"
      "case mp_orig p of
         None \<Rightarrow> fs2 (mp_file ?part) = Some (attachment_octets data a)
           \<or> (fs2 (mp_file ?part) = None
              \<and> \<not> fe_can_rename fe (build_filename dir g) (mp_file ?part)
              \<and> fs2 (build_filename dir g) = Some (attachment_octets data a))
       | Some o' \<Rightarrow>
           if fe_can_rename fe (mp_file ?part) o'
           then fs2 o' = Some (attachment_octets data a)
             \<and> fs2 (mp_file ?part) = Some (decode_octets fe (fe_decode_init fe enc) (attachment_octets data a))
           else fs2 (mp_file ?part) = Some (attachment_octets data a)"
      using decode_part_step [OF dec, of f "attachment_octets data a"] f(1) wrote by auto
    have p: "mp_file p = build_filename dir f" "mp_content_type p = at_content_type a" "mp_content_id p = Some c"
      by (subst g(4), simp)+
    have "fs2 q = fs q" if q: "q \<notin> build_filename dir ` (set names2 - set names)" for q
    proof -
      have "q \<noteq> build_filename dir f" "q \<noteq> build_filename dir g"
        "q \<notin> build_filename dir ` (set names1 - set names)"
        using q f(1,2) g(1,2) by auto
      then show ?thesis using g(6) only1 by (simp add: only_new_def)
    qed
    then have "only_new dir names names2 fs fs2"
      using f g(1,2,3) by (auto simp: only_new_def)
    moreover have "part_written fe dir data (set names2 - set names) fs2 a p"
      using f g(1,2,5,7) p 3(2) by (auto simp: part_written_def part_content_ok_def split: option.splits)
    ultimately show ?thesis
      using assms result dec 3 c p by auto
  qed
qed

section \<open>Lemmas: all parts\<close>

lemma part_written_later:
  assumes "part_written fe dir data new fs a p" and "only_new dir names names' fs fs'" and "new \<subseteq> set names"
  shows "part_written fe dir data new fs' a p"
proof -
  have keep: "fs' (build_filename dir f) = fs (build_filename dir f)" if "f \<in> new" for f
  proof -
    have "build_filename dir f \<notin> build_filename dir ` (set names' - set names)"
      using assms(3) that by auto
    then show ?thesis using assms(2) by (simp add: only_new_def)
  qed
  obtain f where f: "f \<in> new" "mp_file p = build_filename dir f"
    "\<And>o'. mp_orig p = Some o' \<Longrightarrow> \<exists>g\<in>new. g \<noteq> f \<and> o' = build_filename dir g"
    using assms(1) by (auto simp: part_written_def)
  have "part_content_ok (build_filename dir ` new) fe data fs' a p \<longleftrightarrow> part_content_ok (build_filename dir ` new) fe data fs a p"
    using keep f by (auto simp: part_content_ok_def split: option.split)
  then show ?thesis using assms(1) by (simp add: part_written_def)
qed

lemma part_written_mono: "part_written fe dir data new fs a p \<Longrightarrow> new \<subseteq> new' \<Longrightarrow> part_written fe dir data new' fs a p"
  unfolding part_written_def by (fastforce simp: part_content_ok_def split: option.splits)

definition parts_written ::
    "'s file_env \<Rightarrow> string \<Rightarrow> byte list \<Rightarrow> string set \<Rightarrow> files \<Rightarrow> mms_attachment list \<Rightarrow> mms_message_part list \<Rightarrow> bool" where
  "parts_written fe dir data new fs atts parts \<longleftrightarrow>
     (\<exists>written. subseq written atts \<and> list_all2 (part_written fe dir data new fs) written parts
        \<and> (fe_mkdir fe dir \<and> (\<forall>f. fe_can_write fe f) \<longrightarrow> written = atts))
     \<and> distinct (map mp_file parts)"

lemma decode_attachments_ok:
  assumes "decode_attachments fe dir data i atts names ids fs = (parts, fs')" and "distinct names" and "distinct ids"
  shows "\<exists>names'. only_new dir names names' fs fs'
    \<and> parts_written fe dir data (set names' - set names) fs' atts parts
    \<and> (\<exists>cids. map mp_content_id parts = map Some cids \<and> distinct cids \<and> set cids \<inter> set ids = {})"
  using assms
proof (induction fe dir data i atts names ids fs arbitrary: parts fs' rule: decode_attachments.induct)
  case (1 fe dir data i names ids fs)
  then show ?case
    using only_new_refl by (auto simp: parts_written_def intro!: exI [of _ names])
next
  case (2 fe dir data i a as names ids fs)
  obtain r names1 ids1 fs1 where a: "decode_attachment fe dir data i a names ids fs = (r, names1, ids1, fs1)"
    using prod_cases4 by blast
  obtain ps where rest: "decode_attachments fe dir data (Suc i) as names1 ids1 fs1 = (ps, fs')"
    and parts: "parts = (case r of None \<Rightarrow> ps | Some p \<Rightarrow> p # ps)"
    using 2(2) a by (auto split: prod.splits)
  note step = decode_attachment_step [OF a]
  have d: "distinct names1" "distinct ids1"
    using step 2(3,4) by (auto simp: only_new_def split: option.splits)
  obtain names' cids where IH: "only_new dir names1 names' fs1 fs'"
      "parts_written fe dir data (set names' - set names1) fs' as ps"
      "map mp_content_id ps = map Some cids" "distinct cids" "set cids \<inter> set ids1 = {}"
    using 2(1) [OF a [symmetric] refl refl rest d] by auto
  have sub: "set names \<subseteq> set names1" "set names1 \<subseteq> set names'"
    using step IH(1) by (auto simp: only_new_def)
  have only: "only_new dir names names' fs fs'"
    using step IH(1) only_new_trans by blast
  let ?new = "set names' - set names"
  obtain w where w: "subseq w as" "list_all2 (part_written fe dir data (set names' - set names1) fs') w ps"
      "fe_mkdir fe dir \<and> (\<forall>f. fe_can_write fe f) \<longrightarrow> w = as" "distinct (map mp_file ps)"
    using IH(2) by (auto simp: parts_written_def)
  have tail: "list_all2 (part_written fe dir data ?new fs') w ps"
    using w(2) by (rule list_all2_mono) (rule part_written_mono, assumption, use sub(1) in blast)
  show ?case
  proof (cases r)
    case None
    then have "parts_written fe dir data ?new fs' (a # as) parts"
      using w tail parts step by (auto simp: parts_written_def)
    then show ?thesis
      using only IH(3-5) None parts step by auto
  next
    case (Some p)
    have head: "part_written fe dir data (set names1 - set names) fs' a p"
      using step Some by (auto intro!: part_written_later [OF _ IH(1)])
    have "mp_file p \<noteq> mp_file q" if q: "q \<in> set ps" for q
    proof -
      obtain b where "part_written fe dir data (set names' - set names1) fs' b q"
        using q w(2) by (auto simp: list_all2_conv_all_nth in_set_conv_nth)
      then show ?thesis using head by (auto simp: part_written_def)
    qed
    moreover have "part_written fe dir data ?new fs' a p"
      using part_written_mono [OF head] sub by blast
    ultimately have "parts_written fe dir data ?new fs' (a # as) parts"
      using w tail parts Some unfolding parts_written_def by (intro conjI exI [of _ "a # w"]) auto
    moreover obtain c where "mp_content_id p = Some c" "c \<notin> set ids" "ids1 = ids @ [c]"
      using step Some by auto
    ultimately show ?thesis
      using only IH(3-5) Some parts by (intro exI [of _ names'] conjI exI [of _ "c # cids"]) auto
  qed
qed

section \<open>Lemmas: the task\<close>

lemma queue_and_unref_calls:
  "t_calls (snd (mms_task_queue_and_unref q t)) =
     t_calls t @ (case q of Some r \<Rightarrow> if t_delegate t then [Task_Queued r] else [] | None \<Rightarrow> [])"
  by (simp add: mms_task_queue_and_unref_def split: option.split)

lemma queue_and_unref_eq:
  "snd (mms_task_queue_and_unref q t) =
     t\<lparr>t_calls := t_calls t @ (case q of Some r \<Rightarrow> if t_delegate t then [Task_Queued r] else [] | None \<Rightarrow> [])\<rparr>"
  by (simp add: mms_task_queue_and_unref_def tell_def split: option.split)

section \<open>Properties\<close>

text \<open>C12. The parts of a decoded message are, in order, the attachments whose file could be written (all of
  them if the parts directory is writable). Each part has its own file in the parts directory, which holds
  the octets of the attachment, or what the content decoder makes of them, in which case the original
  octets are in a second file. No file of one part is overwritten by another part, whatever the sender calls them.
  Renaming may fail: then the second file does not exist although the part names it, or, when a part could neither be
  decoded nor renamed back, the octets are left in the second file and the part names one that is not there.\<close>

theorem parts_are_the_attachments:
  assumes "mms_task_decode_retrieve_conf fe root_dir keep now t pdu data fs = (msg, fs')"
  defines "dir \<equiv> build_filename (mms_message_dir root_dir (t_id t)) MMS_PARTS_DIR"
  shows "\<exists>written names. subseq written (m_attachments pdu)
    \<and> (fe_mkdir fe dir \<and> (\<forall>f. fe_can_write fe f) \<longrightarrow> written = m_attachments pdu)
    \<and> list_all2 (part_content_ok (build_filename dir ` names) fe data fs') written (mo_parts msg)
    \<and> distinct (map mp_file (mo_parts msg)) \<and> distinct (map mp_content_id (mo_parts msg))"
proof -
  obtain fs'' where "decode_attachments fe dir data 0 (m_attachments pdu) [] [] fs = (mo_parts msg, fs'')"
    and "fs'' = fs'"
    using assms(1) by (auto simp: mms_task_decode_retrieve_conf_def Let_def dir_def split: prod.splits)
  from decode_attachments_ok [OF this(1)] this(2) obtain names' cids where
    parts: "parts_written fe dir data (set names') fs' (m_attachments pdu) (mo_parts msg)"
    and cids: "map mp_content_id (mo_parts msg) = map Some cids" "distinct cids"
    by auto
  have "part_written fe dir data (set names') fs' a p \<Longrightarrow> part_content_ok (build_filename dir ` set names') fe data fs' a p" for a p
    by (simp add: part_written_def)
  moreover have "distinct (map mp_content_id (mo_parts msg))"
    using cids by (simp add: distinct_map)
  ultimately show ?thesis
    using parts unfolding parts_written_def by (blast intro: list_all2_mono)
qed

definition sample_fe :: "nat file_env" where
  "sample_fe = \<lparr>fe_mkdir = (\<lambda>_. True), fe_can_write = (\<lambda>_. True), fe_can_create = (\<lambda>_. True),
     fe_room = (\<lambda>_. None), fe_can_rename = (\<lambda>_ _. True), fe_encoding_from_string = length,
     fe_decode_init = (\<lambda>enc. enc), fe_decode_step = (\<lambda>n octets. (rev octets, n)), fe_decode_flush = (\<lambda>n. [])\<rparr>"

text \<open>Two attachments of the same name, one of which is encoded.\<close>

definition sample_retrieved :: mms_message where
  "sample_retrieved = zero_message\<lparr>
     m_type := message_type_code MMS_MESSAGE_TYPE_RETRIEVE_CONF,
     m_attachments := [zero_attachment\<lparr>at_content_location := Some ''../x'', at_offset := 1, at_length := 2\<rparr>,
       zero_attachment\<lparr>at_content_location := Some ''../x'', at_offset := 2, at_length := 2,
         at_transfer_encoding := Some ''base64''\<rparr>],
     m_rc := (m_rc zero_message)\<lparr>rc_msgid := Some ''m''\<rparr>\<rparr>"

definition sample_message :: "mms_message_object \<times> files" where
  "sample_message = mms_task_decode_retrieve_conf sample_fe ''/mms'' False 1000 sample_task sample_retrieved
     [1, 2, 3, 4] (\<lambda>_. None)"

lemma sample_message_eq:
  "mms_task_decode_retrieve_conf sample_fe ''/mms'' False 1000 sample_task sample_retrieved [1, 2, 3, 4] (\<lambda>_. None)
     = (fst sample_message, snd sample_message)"
  by (simp add: sample_message_def)

theorem parts_are_the_attachments_witness:
  "length (mo_parts (fst sample_message)) = 2 \<and> distinct (map mp_file (mo_parts (fst sample_message)))"
proof -
  have "fe_mkdir sample_fe dir \<and> (\<forall>f. fe_can_write sample_fe f)" for dir
    by (simp add: sample_fe_def)
  with parts_are_the_attachments [OF sample_message_eq] obtain written names dir where
    "written = m_attachments sample_retrieved"
    "list_all2 (part_content_ok (build_filename dir ` names) sample_fe [1, 2, 3, 4] (snd sample_message)) written
       (mo_parts (fst sample_message))"
    "distinct (map mp_file (mo_parts (fst sample_message)))" by blast
  then show ?thesis
    using list_all2_lengthD by (fastforce simp: sample_retrieved_def)
qed

text \<open>The directory of the parts, itself and its parent are no files and cannot be written as such: \<^verbatim>\<open>unlink\<close>, \<^verbatim>\<open>open\<close> and
  \<^verbatim>\<open>rename\<close> fail for a directory (\<^verbatim>\<open>EISDIR\<close>, \<^verbatim>\<open>EBUSY\<close>).\<close>

definition directories_are_no_files :: "'s file_env \<Rightarrow> files \<Rightarrow> string \<Rightarrow> bool" where
  "directories_are_no_files fe fs dir \<longleftrightarrow>
     (\<forall>f\<in>directory_names. fs (build_filename dir f) = None \<and> \<not> fe_can_write fe (build_filename dir f))"

lemma safe_name_slashes: "safe_name f \<Longrightarrow> CHR ''/'' \<notin> set f \<and> CHR 0x5C \<notin> set f"
  by (auto simp: safe_name_def)

lemma write_directory:
  "directories_are_no_files fe fs dir \<Longrightarrow> f \<in> directory_names \<Longrightarrow> mms_write_file fe dir f octets fs = (None, fs)"
  by (auto simp: directories_are_no_files_def mms_write_file_def Let_def fun_upd_idem)

lemma orig_name:
  assumes "mms_task_decode_add_file_name names (x @ ''.orig'') = (g, names')"
  shows "g \<notin> directory_names"
proof -
  obtain k where "g = replicate k CHR ''_'' @ concat (map sanitize_char (x @ ''.orig''))"
    using assms make_unique_suffix by (auto simp: mms_task_decode_add_file_name_def Let_def)
  then have "5 \<le> length g" by simp
  then show ?thesis by (auto simp: directory_names_def)
qed

text \<open>What one attachment changes.\<close>

definition changes_names :: "string \<Rightarrow> files \<Rightarrow> files \<Rightarrow> bool" where
  "changes_names dir fs fs' \<longleftrightarrow>
     (\<forall>p. fs' p \<noteq> fs p \<longrightarrow> (\<exists>f. safe_name f \<and> f \<notin> directory_names \<and> p = build_filename dir f))"

lemma changes_refl [simp]: "changes_names dir fs fs"
  by (simp add: changes_names_def)

lemma changes_trans: "changes_names dir a b \<Longrightarrow> changes_names dir b c \<Longrightarrow> changes_names dir a c"
  unfolding changes_names_def by metis

lemma changes_keep_directories:
  "changes_names dir fs fs' \<Longrightarrow> directories_are_no_files fe fs dir \<Longrightarrow> directories_are_no_files fe fs' dir"
  unfolding changes_names_def directories_are_no_files_def by (metis build_filename_inject)

lemma decode_part_changes:
  assumes "mms_task_decode_part fe enc dir part names fs = (p, names', fs')"
    and "mp_file part = build_filename dir f" and "f \<in> set names" and "safe_name f" and "f \<notin> directory_names"
  shows "changes_names dir fs fs'"
proof -
  obtain g names2 where add: "mms_task_decode_add_file_name names (basename (mp_file part) @ ''.orig'') = (g, names2)"
    by fastforce
  have "names' = names2"
    using assms(1) add by (auto simp: mms_task_decode_part_def Let_def split: prod.splits bool.splits)
  then have "names' = names @ [g]" using add_file_name [OF add] by simp
  moreover obtain g' where g': "names' = names @ [g']" "safe_name g'"
      "\<forall>q. q \<noteq> mp_file part \<and> q \<noteq> build_filename dir g' \<longrightarrow> fs' q = fs q"
    using decode_part_step [OF assms(1-3), of "[]"] by blast
  ultimately show ?thesis
    using orig_name [OF add] assms(2,4,5) by (auto simp: changes_names_def)
qed

lemma decode_attachment_changes:
  assumes "decode_attachment fe dir data i a names ids fs = (r, names', ids', fs')"
    and dirs: "directories_are_no_files fe fs dir"
  shows "changes_names dir fs fs'"
proof -
  define proposed where "proposed = (let name = (case at_content_location a of Some l \<Rightarrow> Some l | None \<Rightarrow> at_content_id a)
    in if nonempty name then the name else ''part_'' @ show_nat i)"
  obtain f names1 where add: "mms_task_decode_add_file_name names proposed = (f, names1)" by fastforce
  have f: "names1 = names @ [f]" "safe_name f" using add_file_name [OF add] by auto
  obtain w fs1 where wr: "mms_write_file fe dir f (attachment_octets data a) fs = (w, fs1)" by fastforce
  show ?thesis
  proof (cases "f \<in> directory_names")
    case True
    then have "w = None" "fs1 = fs" using write_directory [OF dirs] wr by auto
    then show ?thesis using assms(1) add wr by (simp add: decode_attachment_def proposed_def Let_def)
  next
    case False
    have 1: "changes_names dir fs fs1"
      using write_file_other [of _ dir f fe "attachment_octets data a" fs] wr f(2) False by (auto simp: changes_names_def)
    show ?thesis
    proof (cases w)
      case None
      then show ?thesis using assms(1) add wr 1 by (auto simp: decode_attachment_def proposed_def Let_def)
    next
      case (Some path)
      then have path: "path = build_filename dir f" using wr by (auto dest: write_file_Some)
      obtain c ids1 where cid: "mms_task_decode_make_content_id ids
          (case at_content_id a of Some i \<Rightarrow> i | None \<Rightarrow> ''<'' @ f @ ''>'') = (c, ids1)" by fastforce
      let ?part = "\<lparr>mp_content_type = at_content_type a, mp_content_id = Some c, mp_file = path, mp_orig = None\<rparr>"
      show ?thesis
      proof (cases "part_encoding fe a")
        case None
        then have "fs' = fs1"
          using assms(1) add wr Some cid
          by (auto simp: decode_attachment_def proposed_def Let_def part_encoding_def split: option.splits if_splits)
        with 1 show ?thesis by simp
      next
        case enc: (Some enc)
        obtain p names2 fs2 where dec: "mms_task_decode_part fe enc dir ?part names1 fs1 = (p, names2, fs2)"
          using prod_cases3 by blast
        have "fs' = fs2"
          using assms(1) add wr Some cid dec enc
          by (auto simp: decode_attachment_def proposed_def Let_def part_encoding_def split: option.splits if_splits)
        moreover have "changes_names dir fs1 fs2"
          using decode_part_changes [OF dec, of f] f False path by simp
        ultimately show ?thesis using changes_trans [OF 1] by simp
      qed
    qed
  qed
qed

lemma decode_attachments_changes:
  assumes "decode_attachments fe dir data i atts names ids fs = (parts, fs')" and "directories_are_no_files fe fs dir"
  shows "changes_names dir fs fs'"
  using assms
proof (induction fe dir data i atts names ids fs arbitrary: parts fs' rule: decode_attachments.induct)
  case (2 fe dir data i a as names ids fs)
  obtain r names1 ids1 fs1 where a: "decode_attachment fe dir data i a names ids fs = (r, names1, ids1, fs1)"
    using prod_cases4 by blast
  obtain ps where rest: "decode_attachments fe dir data (Suc i) as names1 ids1 fs1 = (ps, fs')"
    using 2(2) a by (auto split: prod.splits)
  have 1: "changes_names dir fs fs1" by (rule decode_attachment_changes [OF a 2(3)])
  from 2(1) [OF a [symmetric] refl refl rest changes_keep_directories [OF 1 2(3)]] 1
  show ?case by (blast intro: changes_trans)
qed simp

text \<open>C13. Whatever names the sender gives to the parts, a file that the decoding of a message creates, changes or removes
  is directly in the parts directory: it is not this directory or its parent, and its name has no slash or backslash.\<close>

theorem parts_stay_in_directory:
  assumes "mms_task_decode_retrieve_conf fe root_dir keep now t pdu data fs = (msg, fs')"
    and "directories_are_no_files fe fs (build_filename (mms_message_dir root_dir (t_id t)) MMS_PARTS_DIR)"
  shows "\<forall>p. fs' p \<noteq> fs p \<longrightarrow>
    (\<exists>f. f \<noteq> [] \<and> f \<noteq> ''.'' \<and> f \<noteq> ''..'' \<and> CHR ''/'' \<notin> set f \<and> CHR 0x5C \<notin> set f
       \<and> p = build_filename (mms_message_dir root_dir (t_id t)) MMS_PARTS_DIR @ ''/'' @ f)"
proof -
  define dir where "dir = build_filename (mms_message_dir root_dir (t_id t)) MMS_PARTS_DIR"
  obtain fs'' where "decode_attachments fe dir data 0 (m_attachments pdu) [] [] fs = (mo_parts msg, fs'')"
    and "fs'' = fs'"
    using assms(1) by (auto simp: mms_task_decode_retrieve_conf_def Let_def dir_def split: prod.splits)
  from decode_attachments_changes [OF this(1)] this(2) assms(2) have "changes_names dir fs fs'"
    by (simp add: dir_def)
  then show ?thesis
    unfolding dir_def [symmetric] changes_names_def
    by (metis (no_types, lifting) build_filename_def directory_names_def insertI1 insertI2 safe_name_slashes)
qed

definition sample_directories_fe :: "nat file_env" where
  "sample_directories_fe = sample_fe\<lparr>fe_can_write := (\<lambda>p. p \<notin> build_filename ''/mms/msg/12/parts'' ` directory_names)\<rparr>"

theorem parts_stay_in_directory_witness:
  "snd (mms_task_decode_retrieve_conf sample_directories_fe ''/mms'' False 1000 sample_task sample_retrieved [1, 2, 3, 4]
     (\<lambda>_. None)) ''/mms/msg/12/x'' = None"
proof (rule ccontr)
  let ?r = "mms_task_decode_retrieve_conf sample_directories_fe ''/mms'' False 1000 sample_task sample_retrieved [1, 2, 3, 4]
     (\<lambda>_. None)"
  assume changed: "snd ?r ''/mms/msg/12/x'' \<noteq> None"
  have dir: "build_filename (mms_message_dir ''/mms'' (t_id sample_task)) MMS_PARTS_DIR = ''/mms/msg/12/parts''"
    by (simp add: build_filename_def mms_message_dir_def MMS_MESSAGE_DIR_def MMS_PARTS_DIR_def)
  have d: "directories_are_no_files sample_directories_fe (\<lambda>_. None)
      (build_filename (mms_message_dir ''/mms'' (t_id sample_task)) MMS_PARTS_DIR)"
    unfolding dir by (simp add: directories_are_no_files_def sample_directories_fe_def)
  from parts_stay_in_directory [OF prod.collapse [symmetric] d] changed
  obtain f where "''/mms/msg/12/x'' = ''/mms/msg/12/parts'' @ ''/'' @ f" unfolding dir by blast
  then show False by simp
qed

text \<open>What can come out of a retrieved file.\<close>

datatype decode_outcome = Delivered | Refused | Unrecognised | Undefined

definition outcome_of :: "('it, 'mi) wsp_decoders \<Rightarrow> byte list \<Rightarrow> decode_outcome" where
  "outcome_of w octets =
     (if mms_message_decode w octets = Some Undef then Undefined
      else case decode_pdu w octets of
        None \<Rightarrow> Unrecognised
      | Some pdu \<Rightarrow>
          if m_type pdu \<noteq> message_type_code MMS_MESSAGE_TYPE_RETRIEVE_CONF then Unrecognised
          else if rc_msgid (m_rc pdu) \<noteq> None \<and> rc_retrieve_status (m_rc pdu) \<in> {0, 128} then Delivered
          else Refused)"

definition queued :: "'q option \<Rightarrow> 'q task_call list" where
  "queued q = (case q of Some r \<Rightarrow> [Task_Queued r] | None \<Rightarrow> [])"

text \<open>C14. Decoding a retrieved file has exactly one of three outcomes, unless the decoder reads an octet that is not there
  (which it does for an empty From value and for nothing else; nothing is said of what follows then).
  A message with an id and no error
  status is acknowledged and then published, under the id of the task. An error of the MMSC is reported as
  a download error. Anything else is answered as unrecognised and reported as a decoding error. In each
  case the task is done, and has told its delegate so.\<close>

theorem decode_outcomes:
  assumes "t_delegate t" and "t_id t = Some i" and "t_state t \<noteq> MMS_TASK_STATE_DONE"
    and "t' = mms_task_decode_run te fe keep fs now t"
  shows "outcome_of (te_decoders te) (dc_map t) = Undefined
    \<or> t_state t' = MMS_TASK_STATE_DONE
    \<and> (\<exists>outcome. told_since t t' = outcome @ [Task_State_Changed MMS_TASK_STATE_DONE]
        \<and> (case outcome_of (te_decoders te) (dc_map t) of
             Delivered \<Rightarrow> (\<exists>msg rq. mo_id msg = Some i \<and> rq_kind rq = Publish_Task msg
               \<and> outcome = queued (mms_task_ack_new te t (dc_transaction_id t)) @ [Task_Queued rq])
           | Refused \<Rightarrow> outcome = [Message_Receive_State_Changed (Some i) MMS_RECEIVE_STATE_DOWNLOAD_ERROR]
           | Unrecognised \<Rightarrow> outcome =
               queued (mms_task_notifyresp_new te t (dc_transaction_id t) MMS_MESSAGE_NOTIFY_STATUS_UNRECOGNISED)
               @ [Message_Receive_State_Changed (Some i) MMS_RECEIVE_STATE_DECODING_ERROR]
           | Undefined \<Rightarrow> False))"
proof (cases "outcome_of (te_decoders te) (dc_map t) = Undefined")
  case defined: False
  let ?u = "fst (mms_task_decode_process_pdu te fe keep now fs t)"
  have t': "t' = store_state MMS_TASK_STATE_DONE ?u"
    by (simp add: assms(4) mms_task_decode_run_def set_state_done)
  obtain msg fs' where msg: "\<And>pdu. decode_pdu (te_decoders te) (dc_map t) = Some pdu \<Longrightarrow>
      mms_task_decode_retrieve_conf fe (te_root_dir te) keep now t pdu (dc_map t) fs = (msg, fs')"
    by (cases "decode_pdu (te_decoders te) (dc_map t)";
        cases "mms_task_decode_retrieve_conf fe (te_root_dir te) keep now t
          (the (decode_pdu (te_decoders te) (dc_map t))) (dc_map t) fs") auto
  have ident: "mo_id msg = Some i" if "decode_pdu (te_decoders te) (dc_map t) = Some pdu" for pdu
    using msg [OF that] assms(2) by (auto simp: mms_task_decode_retrieve_conf_def Let_def split: prod.splits)
  obtain outcome where calls: "t_calls ?u = t_calls t @ outcome" and
    outcome: "case outcome_of (te_decoders te) (dc_map t) of
        Delivered \<Rightarrow> (\<exists>msg rq. mo_id msg = Some i \<and> rq_kind rq = Publish_Task msg
          \<and> outcome = queued (mms_task_ack_new te t (dc_transaction_id t)) @ [Task_Queued rq])
      | Refused \<Rightarrow> outcome = [Message_Receive_State_Changed (Some i) MMS_RECEIVE_STATE_DOWNLOAD_ERROR]
      | Unrecognised \<Rightarrow> outcome =
          queued (mms_task_notifyresp_new te t (dc_transaction_id t) MMS_MESSAGE_NOTIFY_STATUS_UNRECOGNISED)
          @ [Message_Receive_State_Changed (Some i) MMS_RECEIVE_STATE_DECODING_ERROR]
      | Undefined \<Rightarrow> False"
  proof (cases "outcome_of (te_decoders te) (dc_map t)")
    case Delivered
    then obtain pdu where "decode_pdu (te_decoders te) (dc_map t) = Some pdu"
      by (auto simp: outcome_of_def split: option.splits if_splits)
    with Delivered show thesis
      using msg ident assms(1)
      by (intro that [of "queued (mms_task_ack_new te t (dc_transaction_id t)) @ queued (mms_task_publish_new msg)"])
         (auto simp: mms_task_decode_process_pdu_def outcome_of_def queue_and_unref_eq queued_def
            mms_task_publish_new_def Let_def split: option.splits if_splits)
  next
    case Refused
    then show thesis
      using assms(2) by (intro that [of "[Message_Receive_State_Changed (Some i) MMS_RECEIVE_STATE_DOWNLOAD_ERROR]"])
         (auto simp: mms_task_decode_process_pdu_def outcome_of_def Let_def split: option.splits if_splits)
  next
    case Unrecognised
    then show thesis
      using assms(1,2) by (intro that [of "queued (mms_task_notifyresp_new te t (dc_transaction_id t)
              MMS_MESSAGE_NOTIFY_STATUS_UNRECOGNISED)
            @ [Message_Receive_State_Changed (Some i) MMS_RECEIVE_STATE_DECODING_ERROR]"])
         (auto simp: mms_task_decode_process_pdu_def outcome_of_def queue_and_unref_eq queued_def Let_def
            split: option.splits if_splits)
  qed (use defined in simp)
  moreover have "t_state ?u = t_state t" "t_delegate ?u = t_delegate t"
    by (auto simp: mms_task_decode_process_pdu_def queue_and_unref_eq Let_def split: option.split prod.split)
  ultimately show ?thesis
    using assms(1,3) unfolding t' by (auto simp: store_state_calls told_since_def)
qed simp

definition sample_decode_task :: "(mms_message_object mms_task_request) mms_task_decode" where
  "sample_decode_task = mms_task.extend
     ((fst (mms_task_alloc 0 15 1000 (Some ''Decode'') (Some ''12'') (Some ''244'')
        \<lparr>mms_task_order = 0, mms_task_count = 0\<rparr>))\<lparr>t_delegate := True\<rparr>)
     \<lparr>dc_map = [0x8C], dc_transaction_id = Some ''t'', dc_file = ''/mms/msg/12/m-retrieve.conf''\<rparr>"

lemma sample_decode_defined: "outcome_of (te_decoders sample_te) (dc_map sample_decode_task) \<noteq> Undefined"
  by code_simp

theorem decode_outcomes_witness:
  "last (told_since sample_decode_task
     (mms_task_decode_run sample_te sample_fe False (\<lambda>_. None) 1000 sample_decode_task))
   = Task_State_Changed MMS_TASK_STATE_DONE"
  using decode_outcomes [of sample_decode_task "''12''" _ sample_te sample_fe False "\<lambda>_. None" 1000, OF _ _ _ refl]
    sample_decode_defined
  by (auto simp: sample_decode_task_def mms_task.defs mms_task_alloc_def mms_task_init_def)

end
