(* ===== verification/Task_Local.thy ===== *)
theory Task_Local
  imports Task_Decode
begin

text \<open>
  The tasks that do not use the network: \<^verbatim>\<open>mms-lib/src/mms_task_notification.c\<close> (a WAP push has come in) and
  \<^verbatim>\<open>mms-lib/src/mms_task_publish.c\<close> (a decoded message is given to the message handler).

  \<^item> The message handler answers later, by a callback; \<open>handler_env\<close> says whether it accepts a call at
    all. \<open>n_notify\<close> and \<open>pb_call\<close> are the pointers to the call that is being made.
  \<^item> What a task does to its temporary files is the list \<open>n_files\<close>; the reference a task holds to itself
    during a call has no counterpart.
\<close>

record handler_env =
  he_message_notify :: "string option \<Rightarrow> string option \<Rightarrow> string option \<Rightarrow> int \<Rightarrow> byte list \<Rightarrow> string option \<Rightarrow> bool"
  he_message_received :: "mms_message_object \<Rightarrow> bool"
  he_keep_temp_files :: bool
  he_attic_enabled :: bool
  he_mkdtemp :: "string \<Rightarrow> string option"
  he_is_dir :: "string \<Rightarrow> bool"

section \<open>Publishing\<close>

record 'q mms_task_publish = "'q mms_task" +
  pb_msg :: mms_message_object
  pb_call :: bool

text \<open>\<open>pb_call\<close> is the pointer, which \<^verbatim>\<open>mms_task_publish_done\<close> leaves as it is. Cancelling a task that sleeps after a failed
  call passes a call that has been freed, and drops a reference twice (a finding); here is what it does otherwise.\<close>

definition mms_task_publish_cancel ::
    "int \<Rightarrow> ('q, 'a) mms_task_publish_scheme \<Rightarrow> ('q, 'a) mms_task_publish_scheme" where
  "mms_task_publish_cancel now t =
     mms_task_cancel_cb now (if pb_call t then tell Message_Received_Cancel t\<lparr>pb_call := False\<rparr> else t)"

definition mms_task_publish_done ::
    "int \<Rightarrow> bool \<Rightarrow> ('q, 'a) mms_task_publish_scheme \<Rightarrow> ('q, 'a) mms_task_publish_scheme" where
  "mms_task_publish_done now ok t =
     (if ok then mms_task_set_state (mms_task_publish_cancel now) now MMS_TASK_STATE_DONE t
      else snd (mms_task_retry (mms_task_publish_cancel now) now t))"

definition mms_task_publish_run ::
    "handler_env \<Rightarrow> int \<Rightarrow> ('q, 'a) mms_task_publish_scheme \<Rightarrow> ('q, 'a) mms_task_publish_scheme" where
  "mms_task_publish_run he now t =
     (let t = tell (Message_Received (mo_id (pb_msg t))) t;
          t = t\<lparr>pb_call := he_message_received he (pb_msg t)\<rparr>
      in if pb_call t then mms_task_set_state (mms_task_publish_cancel now) now MMS_TASK_STATE_PENDING t
         else snd (mms_task_retry (mms_task_publish_cancel now) now t))"

definition mms_task_publish_class ::
    "handler_env \<Rightarrow> ('c, ('q, 'a) mms_task_publish_scheme) mms_task_class" where
  "mms_task_publish_class he =
     \<lparr>max_lifetime = 0, fn_run = mms_task_publish_run he,
      fn_transmit = (\<lambda>now conn t. t), fn_network_unavailable = (\<lambda>now r t. t),
      fn_cancel = mms_task_publish_cancel\<rparr>"

text \<open>What happens to the task: calls of the dispatcher, the timer, and the answer of the handler.\<close>

inductive publish_event ::
    "handler_env \<Rightarrow> ('q, 'a) mms_task_publish_scheme \<Rightarrow> ('q, 'a) mms_task_publish_scheme \<Rightarrow> bool" for he where
  Task: "task_step (mms_task_publish_class he) (\<lambda>c :: mms_connection. c_state c = MMS_CONNECTION_STATE_OPEN) t t'
    \<Longrightarrow> publish_event he t t'"
| Done: "t_state t = MMS_TASK_STATE_PENDING \<Longrightarrow> publish_event he t (mms_task_publish_done now ok t)"

section \<open>Notification\<close>

record 'q mms_task_notification = "'q mms_task" +
  n_pdu :: mms_message
  n_push :: "byte list"
  n_notify :: bool
  n_files :: "file_op list"

definition MMS_NOTIFICATION_IND_FILE :: string where "MMS_NOTIFICATION_IND_FILE = ''m-notification.ind''"
definition MMS_DELIVERY_IND_FILE :: string where "MMS_DELIVERY_IND_FILE = ''m-delivery.ind''"
definition MMS_READ_ORIG_IND_FILE :: string where "MMS_READ_ORIG_IND_FILE = ''m-read-orig.ind''"
definition MMS_ATTIC_DIR :: string where "MMS_ATTIC_DIR = ''attic''"
definition MMS_UNRECOGNIZED_PUSH_FILE :: string where "MMS_UNRECOGNIZED_PUSH_FILE = ''push.pdu''"

definition file_ops :: "file_op list \<Rightarrow> ('q, 'a) mms_task_notification_scheme \<Rightarrow> ('q, 'a) mms_task_notification_scheme" where
  "file_ops ops t = t\<lparr>n_files := n_files t @ ops\<rparr>"

definition notification_make_id ::
    "('it, 'mi) transfer_env \<Rightarrow> handler_env \<Rightarrow> ('q, 'a) mms_task_notification_scheme \<Rightarrow> ('q, 'a) mms_task_notification_scheme" where
  "notification_make_id te he t = mms_task_make_id (te_root_dir te) (te_mkdir te) (he_mkdtemp he) t"

definition mms_task_notification_write_file ::
    "('it, 'mi) transfer_env \<Rightarrow> handler_env \<Rightarrow> string \<Rightarrow> ('q, 'a) mms_task_notification_scheme
       \<Rightarrow> ('q, 'a) mms_task_notification_scheme" where
  "mms_task_notification_write_file te he f t =
     (let t = notification_make_id te he t
      in file_ops [Write_File (build_filename (mms_message_dir (te_root_dir te) (t_id t)) f) (n_push t)] t)"

definition mms_task_notification_reject ::
    "('it, 'mi) transfer_env \<Rightarrow> handler_env \<Rightarrow> ('m mms_task_request, 'a) mms_task_notification_scheme
       \<Rightarrow> ('m mms_task_request, 'a) mms_task_notification_scheme" where
  "mms_task_notification_reject te he t =
     (let t = notification_make_id te he t
      in snd (mms_task_queue_and_unref
           (mms_task_notifyresp_new te t (m_transaction_id (n_pdu t)) MMS_MESSAGE_NOTIFY_STATUS_REJECTED) t))"

definition mms_task_notification_cancel ::
    "int \<Rightarrow> ('q, 'a) mms_task_notification_scheme \<Rightarrow> ('q, 'a) mms_task_notification_scheme" where
  "mms_task_notification_cancel now t =
     mms_task_cancel_cb now (if n_notify t then tell Message_Notify_Cancel t\<lparr>n_notify := False\<rparr> else t)"

text \<open>The new id replaces a made up one; the temporary directory goes along or is removed.\<close>

definition replace_id ::
    "('it, 'mi) transfer_env \<Rightarrow> handler_env \<Rightarrow> string \<Rightarrow> ('q, 'a) mms_task_notification_scheme
       \<Rightarrow> ('q, 'a) mms_task_notification_scheme" where
  "replace_id te he ident t =
     (if t_id t \<noteq> None
      then let olddir = mms_message_dir (te_root_dir te) (t_id t);
               t = t\<lparr>t_id := Some ident\<rparr>
           in if he_keep_temp_files he
              then file_ops [Rename_File olddir (mms_message_dir (te_root_dir te) (t_id t))] t
              else file_ops [Remove_File (build_filename olddir MMS_NOTIFICATION_IND_FILE), Remove_File olddir] t
      else t\<lparr>t_id := Some ident\<rparr>)"

definition mms_task_notification_done ::
    "('it, 'mi) transfer_env \<Rightarrow> handler_env \<Rightarrow> int \<Rightarrow> string option
       \<Rightarrow> ('m mms_task_request, 'a) mms_task_notification_scheme
       \<Rightarrow> ('m mms_task_request, 'a) mms_task_notification_scheme" where
  "mms_task_notification_done te he now ident t =
     (let t = t\<lparr>n_notify := False\<rparr> in
      case ident of
        Some i \<Rightarrow>
          let t = (if i \<noteq> []
                   then let t = replace_id te he i t;
                            (ok, t) = mms_task_queue_and_unref
                              (mms_task_retrieve_new now (t_id t) (t_imsi t) (n_pdu t) MMS_CONNECTION_TYPE_AUTO) t
                        in if ok then t
                           else tell (Message_Receive_State_Changed (Some i) MMS_RECEIVE_STATE_DOWNLOAD_ERROR) t
                   else t)
          in mms_task_set_state (mms_task_notification_cancel now) now MMS_TASK_STATE_DONE t
      | None \<Rightarrow>
          (case mms_task_retry (mms_task_notification_cancel now) now t of
             (ok, t) \<Rightarrow> if ok then t else mms_task_notification_reject te he t))"

text \<open>The deadline is not later than the expiry of the message; then the handler is asked.\<close>

definition ask_handler ::
    "handler_env \<Rightarrow> ('q, 'a) mms_task_notification_scheme \<Rightarrow> ('q, 'a) mms_task_notification_scheme" where
  "ask_handler he t =
     (let ni = m_ni (n_pdu t);
          expiry = sint (ni_expiry ni);
          t = (if t_deadline t > expiry then t\<lparr>t_deadline := expiry\<rparr> else t);
          from = mms_strip_address_type (ni_from ni);
          t = tell (Message_Notify (t_imsi t) from (ni_subject ni) expiry (ni_location ni)) t
      in t\<lparr>n_notify := he_message_notify he (t_imsi t) from (ni_subject ni) expiry (n_push t) (ni_location ni)\<rparr>)"

definition mms_task_notification_ind ::
    "('it, 'mi) transfer_env \<Rightarrow> handler_env \<Rightarrow> int \<Rightarrow> ('m mms_task_request, 'a) mms_task_notification_scheme
       \<Rightarrow> ('m mms_task_request, 'a) mms_task_notification_scheme" where
  "mms_task_notification_ind te he now t =
     (let t = ask_handler he t;
          t = (if n_notify t then mms_task_set_state (mms_task_notification_cancel now) now MMS_TASK_STATE_PENDING t
               else case mms_task_retry (mms_task_notification_cancel now) now t of
                      (ok, t) \<Rightarrow> if ok then t else mms_task_notification_reject te he t)
      in if he_keep_temp_files he
         then mms_task_notification_write_file te he MMS_NOTIFICATION_IND_FILE t else t)"

definition delivery_status :: "byte \<Rightarrow> mms_delivery_status" where
  "delivery_status s =
     (if s = delivery_status_code MMS_MESSAGE_DELIVERY_STATUS_EXPIRED then MMS_DELIVERY_STATUS_EXPIRED
      else if s = delivery_status_code MMS_MESSAGE_DELIVERY_STATUS_RETRIEVED then MMS_DELIVERY_STATUS_RETRIEVED
      else if s = delivery_status_code MMS_MESSAGE_DELIVERY_STATUS_REJECTED then MMS_DELIVERY_STATUS_REJECTED
      else if s = delivery_status_code MMS_MESSAGE_DELIVERY_STATUS_DEFERRED then MMS_DELIVERY_STATUS_DEFERRED
      else if s = delivery_status_code MMS_MESSAGE_DELIVERY_STATUS_UNRECOGNISED then MMS_DELIVERY_STATUS_UNRECOGNISED
      else if s = delivery_status_code MMS_MESSAGE_DELIVERY_STATUS_FORWARDED then MMS_DELIVERY_STATUS_FORWARDED
      else if s = delivery_status_code MMS_MESSAGE_DELIVERY_STATUS_UNREACHABLE then MMS_DELIVERY_STATUS_UNREACHABLE
      else MMS_DELIVERY_STATUS_UNKNOWN)"

definition mms_task_delivery_ind ::
    "('it, 'mi) transfer_env \<Rightarrow> handler_env \<Rightarrow> ('q, 'a) mms_task_notification_scheme
       \<Rightarrow> ('q, 'a) mms_task_notification_scheme" where
  "mms_task_delivery_ind te he t =
     (let di = m_di (n_pdu t);
          t = tell (Delivery_Report (t_imsi t) (di_msgid di) (mms_strip_address_type (di_to di))
                (delivery_status (di_dr_status di))) t
      in if he_keep_temp_files he
         then mms_task_notification_write_file te he MMS_DELIVERY_IND_FILE t else t)"

definition read_status :: "byte \<Rightarrow> mms_read_status" where
  "read_status s =
     (if s = read_status_code MMS_MESSAGE_READ_STATUS_READ then MMS_READ_STATUS_READ
      else if s = read_status_code MMS_MESSAGE_READ_STATUS_DELETED then MMS_READ_STATUS_DELETED
      else MMS_READ_STATUS_INVALID)"

definition mms_task_read_orig_ind ::
    "('it, 'mi) transfer_env \<Rightarrow> handler_env \<Rightarrow> ('q, 'a) mms_task_notification_scheme
       \<Rightarrow> ('q, 'a) mms_task_notification_scheme" where
  "mms_task_read_orig_ind te he t =
     (let ri = m_ri (n_pdu t);
          t = tell (Read_Report (t_imsi t) (ri_msgid ri) (mms_strip_address_type (ri_to ri))
                (read_status (ri_rr_status ri))) t
      in if he_keep_temp_files he
         then mms_task_notification_write_file te he MMS_READ_ORIG_IND_FILE t else t)"

text \<open>\<^verbatim>\<open>printf("%03d")\<close>, and the search for a free directory of the attic; when all hundred are in
  use the last one is taken.\<close>

definition show_3 :: "nat \<Rightarrow> string" where
  "show_3 n = (let s = show_nat n in replicate (3 - length s) CHR ''0'' @ s)"

definition attic_dir :: "string \<Rightarrow> nat \<Rightarrow> string" where
  "attic_dir root_dir i = root_dir @ ''/'' @ MMS_ATTIC_DIR @ ''/'' @ show_3 i"

definition mms_task_notification_unrecornized :: "string \<Rightarrow> handler_env \<Rightarrow> byte list \<Rightarrow> file_op list" where
  "mms_task_notification_unrecornized root_dir he push =
     (if he_attic_enabled he
      then let i = (case find (\<lambda>i. \<not> he_is_dir he (attic_dir root_dir i)) [0..<100] of Some i \<Rightarrow> i | None \<Rightarrow> 99)
           in [Write_File (build_filename (attic_dir root_dir i) MMS_UNRECOGNIZED_PUSH_FILE) push]
      else [])"

definition mms_task_notification_run ::
    "('it, 'mi) transfer_env \<Rightarrow> handler_env \<Rightarrow> int \<Rightarrow> ('m mms_task_request, 'a) mms_task_notification_scheme
       \<Rightarrow> ('m mms_task_request, 'a) mms_task_notification_scheme" where
  "mms_task_notification_run te he now t =
     (let ty = m_type (n_pdu t);
          t = (if ty = message_type_code MMS_MESSAGE_TYPE_NOTIFICATION_IND then mms_task_notification_ind te he now t
               else if ty = message_type_code MMS_MESSAGE_TYPE_DELIVERY_IND then mms_task_delivery_ind te he t
               else if ty = message_type_code MMS_MESSAGE_TYPE_READ_ORIG_IND then mms_task_read_orig_ind te he t
               else file_ops (mms_task_notification_unrecornized (te_root_dir te) he (n_push t)) t)
      in if t_state t = MMS_TASK_STATE_READY
         then mms_task_set_state (mms_task_notification_cancel now) now MMS_TASK_STATE_DONE t else t)"

definition mms_task_notification_class ::
    "('it, 'mi) transfer_env \<Rightarrow> handler_env
       \<Rightarrow> ('c, ('m mms_task_request, 'a) mms_task_notification_scheme) mms_task_class" where
  "mms_task_notification_class te he =
     \<lparr>max_lifetime = 0, fn_run = mms_task_notification_run te he,
      fn_transmit = (\<lambda>now conn t. t), fn_network_unavailable = (\<lambda>now r t. t),
      fn_cancel = mms_task_notification_cancel\<rparr>"

text \<open>A new notification task for a push; on the left, what happens to the files when it cannot be decoded. A push
  whose decoding reads out of range has no result.\<close>

definition mms_task_notification_new ::
    "('it, 'mi) transfer_env \<Rightarrow> handler_env \<Rightarrow> u32 \<Rightarrow> int \<Rightarrow> string option \<Rightarrow> byte list \<Rightarrow> task_counters
       \<Rightarrow> (file_op list + 'q mms_task_notification \<times> task_counters) outcome" where
  "mms_task_notification_new te he retry_secs now imsi bytes cs =
     (case mms_decode_bytes (te_decoders te) (Some bytes) of
        Some (Ret (Some pdu)) \<Rightarrow>
          (case mms_task_alloc 0 retry_secs now (Some ''Notification'') None imsi cs of
             (t, cs) \<Rightarrow> Ret (Inr (mms_task.extend t \<lparr>n_pdu = pdu, n_push = bytes, n_notify = False, n_files = []\<rparr>, cs)))
      | Some (Ret None) \<Rightarrow> Ret (Inl (mms_task_notification_unrecornized (te_root_dir te) he bytes))
      | _ \<Rightarrow> Undef)"

inductive notification_event ::
    "('it, 'mi) transfer_env \<Rightarrow> handler_env \<Rightarrow> ('m mms_task_request, 'a) mms_task_notification_scheme
       \<Rightarrow> ('m mms_task_request, 'a) mms_task_notification_scheme \<Rightarrow> bool" for te he where
  Task: "task_step (mms_task_notification_class te he)
      (\<lambda>c :: mms_connection. c_state c = MMS_CONNECTION_STATE_OPEN) t t' \<Longrightarrow> notification_event te he t t'"
| Done: "t_state t = MMS_TASK_STATE_PENDING
    \<Longrightarrow> notification_event te he t (mms_task_notification_done te he now ident t)"

section \<open>Lemmas\<close>

lemma publish_fields [simp]:
  "pb_call (tell c t) = pb_call t" "pb_call (store_state st t) = pb_call t"
  "pb_call (snd (mms_task_schedule_wakeup now secs t)) = pb_call t"
  "pb_msg (tell c t) = pb_msg t" "pb_msg (store_state st t) = pb_msg t"
  "pb_msg (snd (mms_task_schedule_wakeup now secs t)) = pb_msg t"
  by (simp_all add: tell_def store_state_def mms_task_schedule_wakeup_def Let_def)

lemma notification_fields [simp]:
  "n_notify (tell c t) = n_notify t" "n_notify (store_state st t) = n_notify t"
  "n_notify (snd (mms_task_schedule_wakeup now secs t)) = n_notify t"
  "n_pdu (tell c t) = n_pdu t" "n_pdu (store_state st t) = n_pdu t"
  "n_pdu (snd (mms_task_schedule_wakeup now secs t)) = n_pdu t"
  by (simp_all add: tell_def store_state_def mms_task_schedule_wakeup_def Let_def)

lemma cancel_cb_local [simp]:
  "pb_call (mms_task_cancel_cb now p) = pb_call p" "n_notify (mms_task_cancel_cb now n) = n_notify n"
  by (simp_all add: cancel_cb_eq)

text \<open>The states of a task that does not use the network.\<close>

definition local_state :: "('q, 'a) mms_task_scheme \<Rightarrow> bool" where
  "local_state t \<longleftrightarrow> timer_ok t \<and> t_state t \<in>
     {MMS_TASK_STATE_READY, MMS_TASK_STATE_PENDING, MMS_TASK_STATE_SLEEP, MMS_TASK_STATE_DONE}"

lemma local_not_connected:
  "local_state t \<Longrightarrow> \<not> needs_connection t" "local_state t \<Longrightarrow> t_state t \<noteq> MMS_TASK_STATE_TRANSMITTING"
  by (auto simp: local_state_def needs_connection_def)

lemma local_retry:
  "local_state (snd (mms_task_retry c now t))"
  "t_state (snd (mms_task_retry c now t)) = (if now < t_deadline t then MMS_TASK_STATE_SLEEP else MMS_TASK_STATE_DONE)"
  "same_task u (snd (mms_task_retry c now t)) \<longleftrightarrow> same_task u t"
  "extends u t \<Longrightarrow> extends u (snd (mms_task_retry c now t))"
  "fst (mms_task_retry c now t) \<longleftrightarrow> now < t_deadline t"
  by (auto simp: mms_task_retry_def sleep_eq local_state_def timer_ok_def)

lemma local_cancel: "local_state (mms_task_cancel_cb now t)"
  by (simp add: local_state_def timer_ok_def)

lemma local_wakeup:
  "t_wakeup_id t \<Longrightarrow> t_state (mms_task_wakeup_callback c now t) = MMS_TASK_STATE_READY"
  "local_state (mms_task_wakeup_callback c now t)"
  "same_task u (mms_task_wakeup_callback c now t) \<longleftrightarrow> same_task u t"
  "extends u t \<Longrightarrow> extends u (mms_task_wakeup_callback c now t)"
  by (auto simp: mms_task_wakeup_callback_def set_state_awake local_state_def timer_ok_def
      same_task_def extends_def store_state_calls)

section \<open>Publishing satisfies the contract\<close>

definition publish_ok :: "('q, 'a) mms_task_publish_scheme \<Rightarrow> bool" where
  "publish_ok t \<longleftrightarrow> local_state t \<and> (t_state t = MMS_TASK_STATE_PENDING \<longrightarrow> pb_call t)"

lemma publish_run_kept:
  assumes "publish_ok t" and "t_state t = MMS_TASK_STATE_READY"
  shows "kept publish_ok t (mms_task_publish_run he now t)"
    and "t_state (mms_task_publish_run he now t) \<noteq> MMS_TASK_STATE_READY"
proof -
  let ?t = "tell (Message_Received (mo_id (pb_msg t))) t\<lparr>pb_call := he_message_received he (pb_msg t)\<rparr>"
  have same: "same_task t ?t" "extends t ?t"
    by (simp_all add: same_task_def extends_def)
  have pend: "local_state (store_state MMS_TASK_STATE_PENDING ?t)"
    using assms by (simp add: publish_ok_def local_state_def timer_ok_def)
  show "kept publish_ok t (mms_task_publish_run he now t)"
    using same pend local_retry [where c = "mms_task_publish_cancel now" and t = ?t and now = now]
    by (auto simp: mms_task_publish_run_def Let_def set_state_awake kept_def publish_ok_def
        intro: extends_ops split: if_splits)
  show "t_state (mms_task_publish_run he now t) \<noteq> MMS_TASK_STATE_READY"
    by (simp add: mms_task_publish_run_def Let_def set_state_awake local_retry(2))
qed

lemma publish_done_kept:
  "publish_ok t \<Longrightarrow> t_state t = MMS_TASK_STATE_PENDING \<Longrightarrow> kept publish_ok t (mms_task_publish_done now ok t)"
  using local_retry [where c = "mms_task_publish_cancel now" and t = t and now = now]
  by (auto simp: mms_task_publish_done_def set_state_awake kept_def publish_ok_def
      local_state_def timer_ok_def intro: extends_ops split: if_splits)

lemma publish_cancel_kept:
  "kept publish_ok t (mms_task_publish_cancel now t)"
  "t_state (mms_task_publish_cancel now t) = MMS_TASK_STATE_DONE" "cancelled (mms_task_publish_cancel now t)"
proof -
  have "same_task t (mms_task_publish_cancel now t)" "extends t (mms_task_publish_cancel now t)"
    unfolding mms_task_publish_cancel_def
    by (auto simp: same_task_def extends_def cancel_cb_calls)
  then show "kept publish_ok t (mms_task_publish_cancel now t)"
    by (simp add: kept_def publish_ok_def mms_task_publish_cancel_def local_cancel)
qed (simp_all add: mms_task_publish_cancel_def)

lemma publish_wakeup_kept:
  "t_wakeup_id t \<Longrightarrow> kept publish_ok t (mms_task_wakeup_callback c now t)"
  by (simp add: kept_def publish_ok_def local_wakeup)

lemma publish_ok_local: "publish_ok t \<Longrightarrow> timer_ok t \<and> \<not> needs_connection t \<and> t_state t \<noteq> MMS_TASK_STATE_TRANSMITTING"
  using local_not_connected [of t] by (simp add: publish_ok_def local_state_def)

interpretation publish: mms_task_contract "mms_task_publish_class he" publish_ok
    "\<lambda>c :: mms_connection. c_state c = MMS_CONNECTION_STATE_OPEN" for he
  by unfold_locales
     (simp_all add: publish_ok_local mms_task_publish_class_def publish_run_kept publish_cancel_kept publish_wakeup_kept)

section \<open>Notification satisfies the contract\<close>

definition notification_ok :: "('q, 'a) mms_task_notification_scheme \<Rightarrow> bool" where
  "notification_ok t \<longleftrightarrow> local_state t \<and> (n_notify t \<longleftrightarrow> t_state t = MMS_TASK_STATE_PENDING)"


lemma make_id_fields [simp]:
  "t_priority (notification_make_id te he t) = t_priority t" "t_order (notification_make_id te he t) = t_order t"
  "t_name (notification_make_id te he t) = t_name t" "t_imsi (notification_make_id te he t) = t_imsi t"
  "t_delegate (notification_make_id te he t) = t_delegate t" "t_state (notification_make_id te he t) = t_state t"
  "t_deadline (notification_make_id te he t) = t_deadline t"
  "t_retry_secs (notification_make_id te he t) = t_retry_secs t"
  "t_wakeup_id (notification_make_id te he t) = t_wakeup_id t" "t_calls (notification_make_id te he t) = t_calls t"
  "n_notify (notification_make_id te he t) = n_notify t" "n_pdu (notification_make_id te he t) = n_pdu t"
  by (simp_all add: notification_make_id_def mms_task_make_id_def Let_def split: option.split)

text \<open>Operations that neither change the state nor the timer of the task.\<close>

definition reports_only ::
    "('q, 'a) mms_task_notification_scheme \<Rightarrow> ('q, 'a) mms_task_notification_scheme \<Rightarrow> bool" where
  "reports_only t t' \<longleftrightarrow> t_state t' = t_state t \<and> t_wakeup_id t' = t_wakeup_id t \<and> n_notify t' = n_notify t
     \<and> same_task t t' \<and> extends t t'"

lemma reports_only_trans: "reports_only t u \<Longrightarrow> reports_only u v \<Longrightarrow> reports_only t v"
  by (auto simp: reports_only_def intro: same_task_trans extends_trans)

lemma reports_only_intros:
  "reports_only t t" "reports_only t (tell c t)" "reports_only t (file_ops ops t)"
  "reports_only t (mms_task_notification_write_file te he f t)"
  "reports_only t (replace_id te he i t)"
  by (auto simp: reports_only_def same_task_def extends_def file_ops_def mms_task_notification_write_file_def
      replace_id_def Let_def)

lemma reports_only_queue: "reports_only t (snd (mms_task_queue_and_unref q t))"
  by (simp add: reports_only_def same_task_def extends_def queue_and_unref_eq)

lemma reports_only_reject: "reports_only t (mms_task_notification_reject te he t)"
  by (auto simp: reports_only_def same_task_def extends_def mms_task_notification_reject_def Let_def
      queue_and_unref_eq)

text \<open>One more operation that only reports.\<close>

lemmas reports_only_then = reports_only_intros(2-) [THEN [2] reports_only_trans]
  reports_only_queue [THEN [2] reports_only_trans]

lemma reports_only_kept:
  "kept notification_ok t u \<Longrightarrow> reports_only u v \<Longrightarrow> kept notification_ok t v"
  unfolding kept_def notification_ok_def local_state_def timer_ok_def reports_only_def
  by (auto intro: same_task_trans extends_trans)

lemma notification_keep_file:
  "kept notification_ok t u
   \<Longrightarrow> kept notification_ok t (if b then mms_task_notification_write_file te he f u else u)"
  by (cases b) (simp_all add: reports_only_kept [OF _ reports_only_intros(4)])

lemma notification_retry_kept:
  assumes "same_task t u" "extends t u" "\<not> n_notify u"
  shows "kept notification_ok t (snd (mms_task_retry c now u))"
proof -
  have "\<not> n_notify (snd (mms_task_retry c now u))"
    using assms(3) by (simp add: mms_task_retry_def sleep_eq)
  then show ?thesis
    using assms(1,2) by (auto simp: kept_def notification_ok_def local_retry)
qed

lemma notification_retry_or_reject:
  assumes "same_task t u" "extends t u" "\<not> n_notify u"
  shows "kept notification_ok t (case mms_task_retry c now u of
           (ok, t) \<Rightarrow> if ok then t else mms_task_notification_reject te he t)"
  using notification_retry_kept [OF assms, of c now]
  by (auto split: prod.split intro: reports_only_kept reports_only_reject)

lemma notification_state_kept:
  assumes "same_task t u" "extends t u" "\<not> t_wakeup_id u"
    and "st = MMS_TASK_STATE_DONE \<and> \<not> n_notify u \<or> st = MMS_TASK_STATE_PENDING \<and> n_notify u"
  shows "kept notification_ok t (mms_task_set_state c now st u)"
  using assms by (auto simp: set_state_awake kept_def notification_ok_def local_state_def timer_ok_def
      intro: extends_ops)

lemma notification_ok_timer: "notification_ok t \<Longrightarrow> t_state t \<noteq> MMS_TASK_STATE_SLEEP \<Longrightarrow> \<not> t_wakeup_id t"
  by (auto simp: notification_ok_def local_state_def timer_ok_def)

lemma ask_handler_fields:
  "same_task t (ask_handler he t)" "extends t (ask_handler he t)"
  "t_wakeup_id (ask_handler he t) = t_wakeup_id t" "t_state (ask_handler he t) = t_state t"
  "t_calls (ask_handler he t) = t_calls t @ [Message_Notify (t_imsi t)
     (mms_strip_address_type (ni_from (m_ni (n_pdu t)))) (ni_subject (m_ni (n_pdu t)))
     (sint (ni_expiry (m_ni (n_pdu t)))) (ni_location (m_ni (n_pdu t)))]"
  "t_deadline (ask_handler he t) = min (t_deadline t) (sint (ni_expiry (m_ni (n_pdu t))))"
  by (auto simp: ask_handler_def Let_def same_task_def extends_def)

lemma notification_ind_kept:
  assumes "notification_ok t" and "t_state t = MMS_TASK_STATE_READY"
  shows "kept notification_ok t (mms_task_notification_ind te he now t)"
proof -
  have "\<not> t_wakeup_id (ask_handler he t)"
    using notification_ok_timer [OF assms(1)] assms(2) by (simp add: ask_handler_fields)
  then show ?thesis
    unfolding mms_task_notification_ind_def Let_def
    by (intro notification_keep_file)
       (simp add: notification_state_kept notification_retry_or_reject ask_handler_fields)
qed

lemma notification_report_kept:
  assumes "notification_ok t" and "reports_only t u"
  shows "kept notification_ok t u"
  using assms(2) by (rule reports_only_kept [OF kept_refl [where good = notification_ok, OF assms(1)]])

lemma delivery_ind_reports: "reports_only t (mms_task_delivery_ind te he t)"
  unfolding mms_task_delivery_ind_def Let_def
  by (simp add: reports_only_intros(1) reports_only_then)

lemma read_orig_ind_reports: "reports_only t (mms_task_read_orig_ind te he t)"
  unfolding mms_task_read_orig_ind_def Let_def
  by (simp add: reports_only_intros(1) reports_only_then)

lemma notification_run_kept:
  assumes "notification_ok t" and "t_state t = MMS_TASK_STATE_READY"
  shows "kept notification_ok t (mms_task_notification_run te he now t)"
    and "t_state (mms_task_notification_run te he now t) \<noteq> MMS_TASK_STATE_READY"
proof -
  define u where "u = (if m_type (n_pdu t) = message_type_code MMS_MESSAGE_TYPE_NOTIFICATION_IND
      then mms_task_notification_ind te he now t
    else if m_type (n_pdu t) = message_type_code MMS_MESSAGE_TYPE_DELIVERY_IND then mms_task_delivery_ind te he t
    else if m_type (n_pdu t) = message_type_code MMS_MESSAGE_TYPE_READ_ORIG_IND then mms_task_read_orig_ind te he t
    else file_ops (mms_task_notification_unrecornized (te_root_dir te) he (n_push t)) t)"
  have run: "mms_task_notification_run te he now t = (if t_state u = MMS_TASK_STATE_READY
      then mms_task_set_state (mms_task_notification_cancel now) now MMS_TASK_STATE_DONE u else u)"
    by (simp add: mms_task_notification_run_def u_def Let_def)
  have u: "kept notification_ok t u"
    by (simp add: u_def notification_ind_kept [OF assms] notification_report_kept [OF assms(1)]
        delivery_ind_reports read_orig_ind_reports reports_only_intros)
  have "kept notification_ok u (mms_task_set_state (mms_task_notification_cancel now) now MMS_TASK_STATE_DONE u)"
    if "t_state u = MMS_TASK_STATE_READY"
    using u that notification_ok_timer [of u]
    by (intro notification_state_kept) (auto simp: kept_def notification_ok_def)
  then show "kept notification_ok t (mms_task_notification_run te he now t)"
    using u kept_trans [OF u] by (simp add: run)
  show "t_state (mms_task_notification_run te he now t) \<noteq> MMS_TASK_STATE_READY"
    by (simp add: run set_state_awake)
qed

lemma notification_done_kept:
  assumes "notification_ok t" and "t_state t = MMS_TASK_STATE_PENDING"
  shows "kept notification_ok t (mms_task_notification_done te he now ident t)"
proof -
  let ?t = "t\<lparr>n_notify := False\<rparr>"
  have t: "same_task t ?t" "extends t ?t" "\<not> n_notify ?t" "\<not> t_wakeup_id ?t"
    using notification_ok_timer [OF assms(1)] assms(2) by (simp_all add: same_task_def extends_def)
  show ?thesis
  proof (cases ident)
    case None
    then show ?thesis
      using notification_retry_or_reject [OF t(1-3)] by (simp add: mms_task_notification_done_def)
  next
    case (Some i)
    let ?r = "replace_id te he i ?t"
    let ?q = "mms_task_retrieve_new now (t_id ?r) (t_imsi ?r) (n_pdu ?r) MMS_CONNECTION_TYPE_AUTO"
    define u where "u = (if i \<noteq> [] then
        (if fst (mms_task_queue_and_unref ?q ?r) then snd (mms_task_queue_and_unref ?q ?r)
         else tell (Message_Receive_State_Changed (Some i) MMS_RECEIVE_STATE_DOWNLOAD_ERROR)
                (snd (mms_task_queue_and_unref ?q ?r))) else ?t)"
    have "reports_only ?t u"
      unfolding u_def by (simp add: reports_only_intros(1) reports_only_then)
    then have "same_task t u" "extends t u" "\<not> n_notify u" "\<not> t_wakeup_id u"
      using t by (auto simp: reports_only_def intro: same_task_trans extends_trans)
    then have "kept notification_ok t (mms_task_set_state (mms_task_notification_cancel now) now MMS_TASK_STATE_DONE u)"
      by (intro notification_state_kept) simp_all
    then show ?thesis
      using Some by (simp add: mms_task_notification_done_def u_def Let_def case_prod_beta cong: if_cong)
  qed
qed

lemma notification_cancel_kept:
  "kept notification_ok t (mms_task_notification_cancel now t)"
  "t_state (mms_task_notification_cancel now t) = MMS_TASK_STATE_DONE" "cancelled (mms_task_notification_cancel now t)"
proof -
  have "same_task t (mms_task_notification_cancel now t)" "extends t (mms_task_notification_cancel now t)"
    unfolding mms_task_notification_cancel_def
    by (auto simp: same_task_def extends_def cancel_cb_calls)
  then show "kept notification_ok t (mms_task_notification_cancel now t)"
    by (simp add: kept_def notification_ok_def mms_task_notification_cancel_def local_cancel)
qed (simp_all add: mms_task_notification_cancel_def)

lemma notification_wakeup_kept:
  assumes "notification_ok t" "t_wakeup_id t"
  shows "kept notification_ok t (mms_task_wakeup_callback c now t)"
proof -
  have "t_state t = MMS_TASK_STATE_SLEEP"
    using assms by (simp add: notification_ok_def local_state_def timer_ok_def)
  then have "\<not> n_notify (mms_task_wakeup_callback c now t)"
    using assms(1) by (simp add: notification_ok_def mms_task_wakeup_callback_def set_state_awake)
  then show ?thesis
    using assms(2) by (simp add: kept_def notification_ok_def local_wakeup)
qed

lemma notification_ok_local:
  "notification_ok t \<Longrightarrow> timer_ok t \<and> \<not> needs_connection t \<and> t_state t \<noteq> MMS_TASK_STATE_TRANSMITTING"
  using local_not_connected [of t] by (simp add: notification_ok_def local_state_def)

interpretation notification: mms_task_contract "mms_task_notification_class te he" notification_ok
    "\<lambda>c :: mms_connection. c_state c = MMS_CONNECTION_STATE_OPEN" for te he
  by unfold_locales
     (simp_all add: notification_ok_local mms_task_notification_class_def notification_run_kept
        notification_cancel_kept notification_wakeup_kept)

section \<open>Properties\<close>

lemma notification_new_ok:
  "mms_task_notification_new te he retry_secs now imsi bytes cs = Ret (Inr (t, cs'))
   \<Longrightarrow> notification_ok (t\<lparr>t_delegate := d\<rparr>) \<and> t_state t = MMS_TASK_STATE_READY"
  by (auto simp: mms_task_notification_new_def mms_task_alloc_def mms_task_init_def mms_task.defs
      notification_ok_def local_state_def timer_ok_def split: option.splits outcome.splits)

lemma notifyresp_new_cong:
  "t_id a = t_id b \<Longrightarrow> t_imsi a = t_imsi b
   \<Longrightarrow> mms_task_notifyresp_new te a tid ns = mms_task_notifyresp_new te b tid ns"
  by (simp add: mms_task_notifyresp_new_def split: option.split)

lemma replace_id_fields:
  "t_id (replace_id te he i t) = Some i" "t_imsi (replace_id te he i t) = t_imsi t"
  "n_pdu (replace_id te he i t) = n_pdu t" "t_calls (replace_id te he i t) = t_calls t"
  "t_delegate (replace_id te he i t) = t_delegate t" "t_state (replace_id te he i t) = t_state t"
  by (simp_all add: replace_id_def file_ops_def Let_def)

text \<open>What becomes of a notification when the message handler answers: with a database id the message
  is retrieved under that id, unless it has expired, which is reported as a download error; with an empty
  id it is left to the user; without an answer it is tried again as long as the deadline has not come, and
  then the MMSC is told that the notification is rejected.\<close>

theorem notification_answered:
  assumes "notification_ok t" and "t_state t = MMS_TASK_STATE_PENDING" and "t_delegate t"
    and "t' = mms_task_notification_done te he now ident t"
  shows "case ident of
      Some i \<Rightarrow> t_state t' = MMS_TASK_STATE_DONE
        \<and> (i = [] \<longrightarrow> told_since t t' = [Task_State_Changed MMS_TASK_STATE_DONE])
        \<and> (i \<noteq> [] \<longrightarrow> t_id t' = Some i \<and> told_since t t' =
              [case mms_task_retrieve_new now (Some i) (t_imsi t) (n_pdu t) MMS_CONNECTION_TYPE_AUTO of
                 Some rq \<Rightarrow> Task_Queued rq
               | None \<Rightarrow> Message_Receive_State_Changed (Some i) MMS_RECEIVE_STATE_DOWNLOAD_ERROR,
               Task_State_Changed MMS_TASK_STATE_DONE])
    | None \<Rightarrow>
        if now < t_deadline t
        then t_state t' = MMS_TASK_STATE_SLEEP \<and> told_since t t' = [Task_State_Changed MMS_TASK_STATE_SLEEP]
        else t_state t' = MMS_TASK_STATE_DONE \<and> t_imsi t' = t_imsi t \<and> told_since t t' =
               Task_State_Changed MMS_TASK_STATE_DONE # queued (mms_task_notifyresp_new te t'
                 (m_transaction_id (n_pdu t)) MMS_MESSAGE_NOTIFY_STATUS_REJECTED)"
proof (cases ident)
  case None
  let ?t = "t\<lparr>n_notify := False\<rparr>"
  let ?r = "snd (mms_task_retry (mms_task_notification_cancel now) now ?t)"
  have t': "t' = (if now < t_deadline t then ?r else mms_task_notification_reject te he ?r)"
    using assms(4) None local_retry(5) [where t = ?t and now = now and c = "mms_task_notification_cancel now"]
    by (simp add: mms_task_notification_done_def case_prod_beta)
  have calls: "t_calls ?r = t_calls t @
      [Task_State_Changed (if now < t_deadline t then MMS_TASK_STATE_SLEEP else MMS_TASK_STATE_DONE)]"
    using assms(2,3) by (simp add: mms_task_retry_def sleep_eq store_state_calls)
  have fields: "t_delegate ?r" "t_imsi ?r = t_imsi t" "n_pdu ?r = n_pdu t"
    using assms(3) by (simp_all add: mms_task_retry_def sleep_eq)
  let ?u = "mms_task_notification_reject te he ?r"
  have eq: "mms_task_notifyresp_new te ?u tid ns =
      (mms_task_notifyresp_new te (notification_make_id te he ?r) tid ns :: 'm mms_task_request option)" for tid ns
    by (rule notifyresp_new_cong) (simp_all add: mms_task_notification_reject_def Let_def queue_and_unref_eq)
  have "t_calls ?u = t_calls ?r @
      queued (mms_task_notifyresp_new te ?u (m_transaction_id (n_pdu t)) MMS_MESSAGE_NOTIFY_STATUS_REJECTED)"
    unfolding eq using fields by (simp add: mms_task_notification_reject_def Let_def queue_and_unref_calls queued_def
        split: option.split)
  moreover have "t_imsi ?u = t_imsi ?r"
    by (simp add: mms_task_notification_reject_def Let_def queue_and_unref_eq)
  moreover have "t_state (mms_task_notification_reject te he ?r) = t_state ?r"
    by (simp add: reports_only_reject [unfolded reports_only_def])
  ultimately show ?thesis
    using None calls fields
    by (simp add: t' told_since_def local_retry(2))
next
  case (Some i)
  then show ?thesis
    using assms(2-4)
    by (auto simp: mms_task_notification_done_def case_prod_beta Let_def set_state_awake store_state_calls
        told_since_def replace_id_fields mms_task_queue_and_unref_def split: option.split)
qed

definition sample_he :: handler_env where
  "sample_he = \<lparr>he_message_notify = (\<lambda>_ _ _ _ _ _. True), he_message_received = (\<lambda>_. True),
     he_keep_temp_files = False, he_attic_enabled = True, he_mkdtemp = (\<lambda>_. Some ''/mms/msg/a1b2c3''),
     he_is_dir = (\<lambda>_. False)\<rparr>"

definition sample_notification :: "unit mms_task_request mms_task_notification" where
  "sample_notification = mms_task.extend
     ((fst (mms_task_alloc 0 15 1000 (Some ''Notification'') None (Some ''244'')
        \<lparr>mms_task_order = 0, mms_task_count = 0\<rparr>))\<lparr>t_delegate := True, t_state := MMS_TASK_STATE_PENDING\<rparr>)
     \<lparr>n_pdu = zero_message\<lparr>m_ni := (m_ni zero_message)\<lparr>ni_expiry := 1500\<rparr>\<rparr>, n_push = [], n_notify = True, n_files = []\<rparr>"

theorem notification_answered_witness:
  "t_id (mms_task_notification_done sample_te sample_he 1010 (Some ''7'') sample_notification) = Some ''7''"
  using notification_answered [where t = sample_notification and te = sample_te and he = sample_he and now = 1010
      and ident = "Some ''7''", OF _ _ _ refl]
  by (simp add: sample_notification_def mms_task.defs mms_task_alloc_def mms_task_init_def
      notification_ok_def local_state_def timer_ok_def)

text \<open>When the message handler fails to take a message the task keeps the pointer to the finished call:
  it sleeps, and if it is cancelled before it wakes up it cancels a call that does not exist any more.\<close>

theorem publish_keeps_stale_call:
  assumes "t_state t = MMS_TASK_STATE_PENDING" and "pb_call t" and "now < t_deadline t"
    and "t' = mms_task_publish_done now False t"
  shows "t_state t' = MMS_TASK_STATE_SLEEP \<and> pb_call t'
    \<and> Message_Received_Cancel \<in> set (told_since t' (mms_task_publish_cancel now' t'))"
  using assms
  by (simp add: mms_task_publish_done_def mms_task_retry_def sleep_eq mms_task_publish_cancel_def
      told_since_def cancel_cb_calls)

definition sample_publish :: "unit mms_task_publish" where
  "sample_publish = mms_task.extend
     ((fst (mms_task_alloc 0 15 1000 (Some ''Publish'') (Some ''12'') None
        \<lparr>mms_task_order = 0, mms_task_count = 0\<rparr>))\<lparr>t_delegate := True\<rparr>)
     \<lparr>pb_msg = fst sample_message, pb_call = False\<rparr>"

lemma sample_publish_fields:
  "t_deadline sample_publish = 1600" "t_state sample_publish = MMS_TASK_STATE_READY"
  by (simp_all add: sample_publish_def mms_task.defs mms_task_alloc_def mms_task_init_def MMS_TASK_DEFAULT_LIFETIME_def)

theorem publish_keeps_stale_call_witness:
  "pb_call (mms_task_publish_done 1001 False (mms_task_publish_run sample_he 1000 sample_publish))"
  using publish_keeps_stale_call [of "mms_task_publish_run sample_he 1000 sample_publish" 1001, OF _ _ _ refl]
  by (simp add: mms_task_publish_run_def sample_he_def set_state_awake sample_publish_fields)

end
