(* ===== verification/Image_Resize.thy ===== *)
theory Image_Resize
  imports Mms_Prelude
begin

text \<open>
  The arithmetic of making an image smaller, \<^verbatim>\<open>mms-lib/src/mms_attachment_image.c\<close>: the choice of the
  resize step and the box filter that averages the lines a decoder delivers.

  \<^item> A line of an image is the list of its octets, three for a pixel. Sizes and counters are the 32-bit
    unsigned integers of the code; the \<^verbatim>\<open>int\<close> of the step is kept with its bits, and \<open>step + 1\<close> is
    what the code divides by.
  \<^item> A division by zero and a read past the end of a line are \<open>Undef\<close>.
\<close>

section \<open>The resize step\<close>

definition step_pixels :: "u32 \<Rightarrow> u32 \<Rightarrow> u32 \<Rightarrow> u32" where
  "step_pixels columns rows next_step = (columns div (next_step + 1)) * (rows div (next_step + 1))"

text \<open>The loop. It ends at the latest when the divisor comes round to zero.\<close>

lemma unat_pred_less: "(w :: 'a::len word) \<noteq> 0 \<Longrightarrow> unat (w - 1) < unat w"
  using unat_minus_one [of w] unat_gt_0 [of w] by simp

function resize_steps :: "u32 \<Rightarrow> u32 \<Rightarrow> u32 \<Rightarrow> u32 \<Rightarrow> u32" where
  "resize_steps max_pixels columns rows next_step =
     (let sz = step_pixels columns rows next_step in
        if sz > 0 \<and> sz > max_pixels then resize_steps max_pixels columns rows (next_step + 1)
        else next_step)"
  by pat_completeness auto
termination
proof (relation "measure (\<lambda>(m, c, r, n). unat (- (n + 1)))")
  fix max_pixels columns rows next_step sz :: u32
  assume "sz = step_pixels columns rows next_step" and "sz > 0 \<and> sz > max_pixels"
  then have "next_step + 1 \<noteq> 0"
    unfolding step_pixels_def by (metis div_by_0 mult_zero_left word_not_simps(1))
  then have "- (next_step + 1) \<noteq> 0"
    by (metis neg_equal_0_iff_equal)
  then have "unat (- (next_step + 1) - 1) < unat (- (next_step + 1))"
    by (rule unat_pred_less)
  moreover have "- (next_step + 1 + 1) = - (next_step + 1) - 1"
    by simp
  ultimately show "((max_pixels, columns, rows, next_step + 1), (max_pixels, columns, rows, next_step))
      \<in> measure (\<lambda>(m, c, r, n). unat (- (n + 1)))"
    by simp
qed simp

declare resize_steps.simps [simp del]

definition mms_attachment_image_next_resize_step :: "u32 \<Rightarrow> u32 \<Rightarrow> u32 \<Rightarrow> u32 \<Rightarrow> u32" where
  "mms_attachment_image_next_resize_step max_pixels resize_step columns rows =
     (let next_step = resize_step + 1 in
        if max_pixels > 0 then resize_steps max_pixels columns rows next_step else next_step)"

section \<open>The box filter\<close>

type_synonym rgb = "u32 \<times> u32 \<times> u32"

text \<open>The innermost loop adds \<open>nx\<close> pixels of the line to one cell of the buffer.\<close>

fun add_pixels :: "nat \<Rightarrow> rgb \<Rightarrow> byte list \<Rightarrow> (rgb \<times> byte list) outcome" where
  "add_pixels 0 p line = Ret (p, line)"
| "add_pixels (Suc k) (r, g, b) (x # y # z # line) =
     add_pixels k (r + ucast x, g + ucast y, b + ucast z) line"
| "add_pixels (Suc k) p _ = Undef"

fun add_line :: "nat \<Rightarrow> rgb list \<Rightarrow> byte list \<Rightarrow> rgb list outcome" where
  "add_line nx [] line = Ret []"
| "add_line nx (p # buf) line =
     bind_outcome (add_pixels nx p line)
       (\<lambda>(p, line). bind_outcome (add_line nx buf line) (\<lambda>buf. Ret (p # buf)))"

fun average :: "u32 \<Rightarrow> rgb list \<Rightarrow> byte list outcome" where
  "average denominator [] = Ret []"
| "average denominator ((r, g, b) # buf) =
     (if denominator = 0 then Undef
      else bind_outcome (average denominator buf)
             (\<lambda>out. Ret (ucast (r div denominator) # ucast (g div denominator) # ucast (b div denominator) # out)))"

text \<open>The loop over the lines of the image: \<open>lines\<close> are those that can be read before the decoder fails,
  \<open>room\<close> is the number of lines that can be written. The result is the number of lines processed
  and the lines written.\<close>

fun box_loop ::
    "u32 \<Rightarrow> u32 \<Rightarrow> nat \<Rightarrow> nat \<Rightarrow> nat \<Rightarrow> byte list list \<Rightarrow> nat \<Rightarrow> rgb list \<Rightarrow> byte list list
       \<Rightarrow> (nat \<times> byte list list) outcome" where
  "box_loop nx ny out_width in_height room [] y buf out = Ret (y, out)"
| "box_loop nx ny out_width in_height room (line # lines) y buf out =
     (if y < in_height
      then bind_outcome (add_line (unat nx) buf line)
        (\<lambda>buf. if y mod unat ny = unat ny - 1
               then bind_outcome (average (nx * ny) buf)
                 (\<lambda>avg. if length out < room
                         then box_loop nx ny out_width in_height room lines (Suc y)
                                (replicate out_width (0, 0, 0)) (out @ [avg])
                         else Ret (y, out))
               else box_loop nx ny out_width in_height room lines (Suc y) buf out)
      else Ret (y, out))"

definition box_filter ::
    "u32 \<times> u32 \<Rightarrow> u32 \<times> u32 \<Rightarrow> nat \<Rightarrow> byte list list \<Rightarrow> (nat \<times> byte list list) outcome" where
  "box_filter in_size out_size room lines =
     (if fst out_size = 0 \<or> snd out_size = 0 then Undef
      else box_loop (fst in_size div fst out_size) (snd in_size div snd out_size) (unat (fst out_size))
             (unat (snd in_size)) room lines 0 (replicate (unat (fst out_size)) (0, 0, 0)) [])"

text \<open>The lines are copied when the decoder itself delivers the image in the right size.\<close>

definition copy_lines :: "nat \<Rightarrow> nat \<Rightarrow> byte list list \<Rightarrow> nat \<times> byte list list" where
  "copy_lines in_height room lines =
     (let y = min in_height (min room (length lines)) in (y, take y lines))"

section \<open>Reference\<close>

text \<open>What a box filter is: the component of a pixel is the average over its box, rounded down.\<close>

definition box_sum :: "nat \<Rightarrow> nat \<Rightarrow> byte list list \<Rightarrow> nat \<Rightarrow> nat \<Rightarrow> nat \<Rightarrow> nat" where
  "box_sum nx ny lines j x c =
     (\<Sum>i<ny. \<Sum>k<nx. unat (lines ! (j * ny + i) ! (3 * (x * nx + k) + c)))"

definition box_line :: "nat \<Rightarrow> nat \<Rightarrow> nat \<Rightarrow> byte list list \<Rightarrow> nat \<Rightarrow> byte list" where
  "box_line nx ny out_width lines j =
     concat (map (\<lambda>x. map (\<lambda>c. of_nat (box_sum nx ny lines j x c div (nx * ny))) [0, 1, 2]) [0..<out_width])"

section \<open>Lemmas\<close>

definition triple :: "(nat \<Rightarrow> nat) \<Rightarrow> rgb" where
  "triple f = (of_nat (f 0), of_nat (f 1), of_nat (f 2))"

lemma ucast_of_nat_unat: "(ucast (b :: byte) :: u32) = of_nat (unat b)"
  by simp

lemma sum_triples:
  "(\<Sum>k<Suc n. f ((x # y # z # rest) ! (3 * k + c))) =
     f ((x # y # z # rest) ! c) + (\<Sum>k<n. f (rest ! (3 * k + c)))"
proof -
  have "(x # y # z # rest) ! (3 * Suc k + c) = rest ! (3 * k + c)" for k
  proof -
    have "3 * Suc k + c = Suc (Suc (Suc (3 * k + c)))" by simp
    then show ?thesis by (simp only: nth_Cons_Suc)
  qed
  then show ?thesis
    unfolding sum.lessThan_Suc_shift by simp
qed

lemma add_pixels_sum:
  "3 * n \<le> length line
   \<Longrightarrow> add_pixels n (triple f) line =
     Ret (triple (\<lambda>c. f c + (\<Sum>k<n. unat (line ! (3 * k + c)))), drop (3 * n) line)"
proof (induction n arbitrary: f line)
  case (Suc n)
  obtain x y z rest where line: "line = x # y # z # rest"
    using Suc.prems by (cases line; cases "tl line"; cases "tl (tl line)") auto
  let ?g = "\<lambda>c. f c + unat (line ! c)"
  have step: "add_pixels (Suc n) (triple f) line = add_pixels n (triple ?g) rest"
    by (simp add: line triple_def numeral_2_eq_2)
  have "3 * n \<le> length rest"
    using Suc.prems by (simp add: line)
  then have "add_pixels n (triple ?g) rest =
      Ret (triple (\<lambda>c. ?g c + (\<Sum>k<n. unat (rest ! (3 * k + c)))), drop (3 * n) rest)"
    by (rule Suc.IH)
  moreover have "?g c + (\<Sum>k<n. unat (rest ! (3 * k + c))) = f c + (\<Sum>k<Suc n. unat (line ! (3 * k + c)))" for c
    unfolding line sum_triples [where f = unat] by simp
  moreover have "3 * Suc n = Suc (Suc (Suc (3 * n)))"
    by simp
  then have "drop (3 * n) rest = drop (3 * Suc n) line"
    by (simp only: line drop_Suc_Cons)
  ultimately show ?case
    unfolding step by simp
qed simp

lemma add_line_sum:
  "3 * n * length fs \<le> length line
   \<Longrightarrow> add_line n (map triple fs) line =
     Ret (map (\<lambda>x. triple (\<lambda>c. (fs ! x) c + (\<Sum>k<n. unat (line ! (3 * (x * n + k) + c))))) [0..<length fs])"
proof (induction fs arbitrary: line)
  case (Cons f fs)
  let ?rest = "drop (3 * n) line"
  have "3 * n \<le> length line" and rest: "3 * n * length fs \<le> length ?rest"
    using Cons.prems by (simp_all add: algebra_simps)
  moreover have "?rest ! (3 * (x * n + k) + c) = line ! (3 * (Suc x * n + k) + c)" for x k c
    using \<open>3 * n \<le> length line\<close> by (simp add: algebra_simps)
  ultimately show ?case
    using Cons.IH [OF rest] by (simp add: add_pixels_sum map_upt_Suc del: upt_Suc)
qed simp


text \<open>The buffer after \<open>i\<close> lines of the strip \<open>j\<close>.\<close>

definition box_part :: "nat \<Rightarrow> nat \<Rightarrow> byte list list \<Rightarrow> nat \<Rightarrow> nat \<Rightarrow> nat \<Rightarrow> nat \<Rightarrow> nat" where
  "box_part nx ny lines j i x c = (\<Sum>i'<i. \<Sum>k<nx. unat (lines ! (j * ny + i') ! (3 * (x * nx + k) + c)))"

definition box_buffer :: "nat \<Rightarrow> nat \<Rightarrow> nat \<Rightarrow> byte list list \<Rightarrow> nat \<Rightarrow> nat \<Rightarrow> rgb list" where
  "box_buffer nx ny w lines j i = map (\<lambda>x. triple (box_part nx ny lines j i x)) [0..<w]"

lemma box_buffer_empty: "box_buffer nx ny w lines j 0 = replicate w (0, 0, 0)"
  by (simp add: box_buffer_def box_part_def triple_def map_replicate_const)

lemma box_buffer_next:
  assumes "3 * nx * w \<le> length (lines ! (j * ny + i))"
  shows "add_line nx (box_buffer nx ny w lines j i) (lines ! (j * ny + i)) = Ret (box_buffer nx ny w lines j (Suc i))"
proof -
  let ?line = "lines ! (j * ny + i)" and ?fs = "map (box_part nx ny lines j i) [0..<w]"
  have buffer: "box_buffer nx ny w lines j i = map triple ?fs"
    by (simp add: box_buffer_def)
  have "add_line nx (map triple ?fs) ?line =
      Ret (map (\<lambda>x. triple (\<lambda>c. (?fs ! x) c + (\<Sum>k<nx. unat (?line ! (3 * (x * nx + k) + c))))) [0..<length ?fs])"
    using assms by (intro add_line_sum) simp
  also have "map (\<lambda>x. triple (\<lambda>c. (?fs ! x) c + (\<Sum>k<nx. unat (?line ! (3 * (x * nx + k) + c))))) [0..<length ?fs]
      = box_buffer nx ny w lines j (Suc i)"
    unfolding box_buffer_def
    by (rule map_cong) (auto simp: box_part_def intro!: arg_cong [where f = triple])
  finally show ?thesis
    unfolding buffer .
qed

lemma box_part_bound: "box_part nx ny lines j i x c \<le> 255 * (nx * i)"
proof -
  have octet: "unat (b :: byte) \<le> 255" for b
  proof -
    have "unat b < 2 ^ LENGTH(8)" by (rule unsigned_less)
    then show ?thesis by simp
  qed
  have "(\<Sum>k<nx. unat (lines ! (j * ny + i') ! (3 * (x * nx + k) + c))) \<le> 255 * nx" for i'
    using sum_bounded_above [of "{..<nx}" "\<lambda>k. unat (lines ! (j * ny + i') ! (3 * (x * nx + k) + c))" 255] octet
    by (simp add: mult.commute)
  then have "box_part nx ny lines j i x c \<le> i * (255 * nx)"
    unfolding box_part_def using sum_bounded_above [of "{..<i}" _ "255 * nx"] by simp
  then show ?thesis by (simp add: algebra_simps)
qed

lemma average_octet:
  assumes "S \<le> 255 * N" and "255 * N < 2 ^ 32" and "d = (of_nat N :: u32)"
  shows "(ucast ((of_nat S :: u32) div d) :: byte) = of_nat (S div N)"
proof -
  have "unat (of_nat S :: u32) = S" "unat d = N"
    using assms by (simp_all add: unat_of_nat)
  then have "unat ((of_nat S :: u32) div d) = S div N"
    by (simp add: unat_div)
  then show ?thesis
    by (metis of_nat_unat)
qed

lemma average_buffer:
  assumes "0 < nx * ny" and "255 * (nx * ny) < 2 ^ 32" and "d = (of_nat (nx * ny) :: u32)"
  shows "average d (box_buffer nx ny w lines j ny) = Ret (box_line nx ny w lines j)"
proof -
  have "unat d = nx * ny"
    unfolding assms(3) unat_of_nat using assms(2) by simp
  then have "d \<noteq> 0"
    using assms(1) by auto
  have cell: "(ucast ((of_nat (box_part nx ny lines j ny x c) :: u32) div d) :: byte)
      = of_nat (box_sum nx ny lines j x c div (nx * ny))" for x c
    using average_octet [OF box_part_bound assms(2,3)]
    by (simp add: box_part_def box_sum_def)
  have "average d (map (\<lambda>x. triple (box_part nx ny lines j ny x)) xs) =
      Ret (concat (map (\<lambda>x. map (\<lambda>c. of_nat (box_sum nx ny lines j x c div (nx * ny))) [0, 1, 2]) xs))" for xs
    using \<open>d \<noteq> 0\<close> by (induction xs) (simp_all add: triple_def cell)
  then show ?thesis
    by (simp add: box_buffer_def box_line_def)
qed


text \<open>The loop, from any line on.\<close>

lemma box_loop_sums:
  fixes nx ny :: u32
  assumes lines: "length lines = h" "\<And>l. l \<in> set lines \<Longrightarrow> 3 * unat nx * w \<le> length l"
    and n: "0 < unat nx" "0 < unat ny" "255 * (unat nx * unat ny) < 2 ^ 32" and room: "h div unat ny \<le> room"
  shows "y \<le> h \<Longrightarrow> box_loop nx ny w h room (drop y lines) y
        (box_buffer (unat nx) (unat ny) w lines (y div unat ny) (y mod unat ny))
        (map (box_line (unat nx) (unat ny) w lines) [0..<y div unat ny])
      = Ret (h, map (box_line (unat nx) (unat ny) w lines) [0..<h div unat ny])"
proof (induction "h - y" arbitrary: y)
  case 0
  then show ?case using lines(1) by simp
next
  case (Suc m)
  let ?nx = "unat nx" and ?ny = "unat ny"
  let ?B = "box_buffer ?nx ?ny w lines" and ?O = "\<lambda>n. map (box_line ?nx ?ny w lines) [0..<n]"
  have y: "y < h" "m = h - Suc y" using Suc.hyps(2) by simp_all
  have IH: "box_loop nx ny w h room (drop (Suc y) lines) (Suc y) (?B (Suc y div ?ny) (Suc y mod ?ny)) (?O (Suc y div ?ny))
      = Ret (h, ?O (h div ?ny))"
    using Suc.hyps(1) [of "Suc y"] y by simp
  have drop: "drop y lines = lines ! y # drop (Suc y) lines"
    using y lines(1) by (simp add: Cons_nth_drop_Suc)
  have pos: "(y div ?ny) * ?ny + y mod ?ny = y"
    by simp
  have "lines ! y \<in> set lines"
    using y lines(1) by simp
  then have add: "add_line ?nx (?B (y div ?ny) (y mod ?ny)) (lines ! y) = Ret (?B (y div ?ny) (Suc (y mod ?ny)))"
    using box_buffer_next [of ?nx w lines "y div ?ny" ?ny "y mod ?ny"] lines(2) unfolding pos by blast
  have "of_nat (?nx * ?ny) = nx * ny"
    by simp
  then have avg: "average (nx * ny) (?B (y div ?ny) ?ny) = Ret (box_line ?nx ?ny w lines (y div ?ny))"
    using n by (intro average_buffer) simp_all
  show ?case
  proof (cases "y mod ?ny = ?ny - 1")
    case True
    then have "Suc y mod ?ny = 0" "Suc y div ?ny = Suc (y div ?ny)" "Suc (y mod ?ny) = ?ny"
      using n(2) by (simp_all add: mod_Suc div_Suc)
    moreover from this have "add_line ?nx (?B (y div ?ny) (y mod ?ny)) (lines ! y) = Ret (?B (y div ?ny) ?ny)"
      using add by simp
    moreover have "y div ?ny < room"
      using div_le_mono [of "Suc y" h ?ny] y(1) room calculation(2) by linarith
    ultimately show ?thesis
      using IH y(1) True avg by (simp add: drop box_buffer_empty del: bind_outcome_eq_Ret)
  next
    case False
    then have "Suc y mod ?ny = Suc (y mod ?ny)" "Suc y div ?ny = y div ?ny"
      using n(2) mod_less_divisor [of ?ny y] by (auto simp: mod_Suc div_Suc)
    then show ?thesis
      using IH y(1) False by (simp add: drop add)
  qed
qed

text \<open>Dividing by a quotient, and by the quotient of that.\<close>

lemma div_div_div:
  fixes h q :: nat
  assumes "0 < q" and "0 < h div q"
  shows "h div (h div (h div q)) = h div q"
proof -
  have "q * (h div q) \<le> h"
    by (rule times_div_less_eq_dividend)
  then have "q \<le> h div (h div q)"
    using assms(2) by (simp add: less_eq_div_iff_mult_less_eq)
  then have "h div (h div (h div q)) \<le> h div q"
    using assms(1) by (rule div_le_mono2 [rotated])
  moreover have "(h div q) * (h div (h div q)) \<le> h"
    by (rule times_div_less_eq_dividend)
  then have "h div q \<le> h div (h div (h div q))"
    using \<open>q \<le> h div (h div q)\<close> assms(1) by (subst less_eq_div_iff_mult_less_eq) auto
  ultimately show ?thesis by simp
qed


text \<open>What the loop of the resize step finds.\<close>

definition fits_pixels :: "u32 \<Rightarrow> u32 \<Rightarrow> u32 \<Rightarrow> nat \<Rightarrow> bool" where
  "fits_pixels max_pixels columns rows k \<longleftrightarrow>
     (unat columns div (k + 1)) * (unat rows div (k + 1)) \<le> unat max_pixels"

lemma unat_step: "unat (n :: u32) < 2 ^ 31 \<Longrightarrow> unat (n + 1) = unat n + 1"
  by (simp add: unat_word_ariths)

lemma unat_step_pixels:
  assumes "1 \<le> unat n" and "unat n < 2 ^ 31" and "unat (columns div 2) * unat (rows div 2) < 2 ^ 32"
  shows "unat (step_pixels columns rows n) = (unat columns div (unat n + 1)) * (unat rows div (unat n + 1))"
proof -
  have "(unat columns div (unat n + 1)) * (unat rows div (unat n + 1))
      \<le> (unat columns div 2) * (unat rows div 2)"
    using assms(1) by (intro mult_le_mono div_le_mono2) simp_all
  also have "\<dots> < 2 ^ 32"
    using assms(3) by (simp add: unat_div)
  finally show ?thesis
    unfolding step_pixels_def unat_word_ariths(2) unat_div unat_step [OF assms(2)] by simp
qed

lemma resize_steps_least:
  assumes "1 \<le> unat n" and "unat n < 2 ^ 31" and "unat columns < 2 ^ 31"
    and "unat (columns div 2) * unat (rows div 2) < 2 ^ 32" and "m = resize_steps max_pixels columns rows n"
  shows "unat n \<le> unat m \<and> unat m \<le> max (unat n) (unat columns) \<and> fits_pixels max_pixels columns rows (unat m)
    \<and> (\<forall>k. unat n \<le> k \<and> k < unat m \<longrightarrow> \<not> fits_pixels max_pixels columns rows k)"
  using assms
proof (induction max_pixels columns rows n arbitrary: m rule: resize_steps.induct)
  case (1 max_pixels columns rows n)
  have sz: "unat (step_pixels columns rows n) = (unat columns div (unat n + 1)) * (unat rows div (unat n + 1))"
    using unat_step_pixels 1(2,3,5) by blast
  show ?case
  proof (cases "step_pixels columns rows n > 0 \<and> step_pixels columns rows n > max_pixels")
    case True
    then have m: "m = resize_steps max_pixels columns rows (n + 1)"
      using 1(6) by (subst (asm) resize_steps.simps) simp
    have "\<not> unat columns < unat n + 1"
      using True sz by (auto simp: word_less_nat_alt)
    then have n: "unat (n + 1) = unat n + 1" "unat n + 1 < 2 ^ 31" "unat n + 1 \<le> unat columns"
      using 1(3,4) unat_step [of n] by simp_all
    have "\<not> fits_pixels max_pixels columns rows (unat n)"
      using True sz by (simp add: fits_pixels_def word_less_nat_alt)
    moreover have "unat (n + 1) \<le> unat m \<and> unat m \<le> max (unat (n + 1)) (unat columns)
        \<and> fits_pixels max_pixels columns rows (unat m)
        \<and> (\<forall>k. unat (n + 1) \<le> k \<and> k < unat m \<longrightarrow> \<not> fits_pixels max_pixels columns rows k)"
      by (rule 1(1) [OF refl True _ _ 1(4,5) m]) (use n in simp_all)
    ultimately show ?thesis
      unfolding n(1) using n(3) by (metis Suc_eq_plus1 Suc_leI Suc_leD le_neq_implies_less max.absorb2)
  next
    case False
    then have "m = n"
      using 1(6) by (subst (asm) resize_steps.simps) auto
    moreover have "fits_pixels max_pixels columns rows (unat n)"
      using False sz by (auto simp: fits_pixels_def word_less_nat_alt)
    ultimately show ?thesis by auto
  qed
qed

section \<open>Properties\<close>

text \<open>The next resize step is the first one after the current step with which the image has no more than
  the configured number of pixels; the loop that looks for it ends without exceeding the range of the
  counter. The image must be small enough for the product of half its sides to be a 32-bit number.\<close>

theorem next_resize_step_least:
  assumes "unat step < 2 ^ 31 - 1" and "unat columns < 2 ^ 31" and "0 < max_pixels"
    and "unat (columns div 2) * unat (rows div 2) < 2 ^ 32"
    and "n = mms_attachment_image_next_resize_step max_pixels step columns rows"
  shows "unat step < unat n \<and> unat n < 2 ^ 31
    \<and> (unat columns div (unat n + 1)) * (unat rows div (unat n + 1)) \<le> unat max_pixels
    \<and> (\<forall>k. unat step < k \<and> k < unat n \<longrightarrow>
          unat max_pixels < (unat columns div (k + 1)) * (unat rows div (k + 1)))"
proof -
  have step: "unat (step + 1) = unat step + 1"
    using assms(1) by (intro unat_step) simp
  have n: "n = resize_steps max_pixels columns rows (step + 1)"
    using assms(3,5) by (simp add: mms_attachment_image_next_resize_step_def Let_def)
  have "unat (step + 1) \<le> unat n \<and> unat n \<le> max (unat (step + 1)) (unat columns)
      \<and> fits_pixels max_pixels columns rows (unat n)
      \<and> (\<forall>k. unat (step + 1) \<le> k \<and> k < unat n \<longrightarrow> \<not> fits_pixels max_pixels columns rows k)"
    by (rule resize_steps_least [OF _ _ assms(2,4) n]) (use assms(1) step in simp_all)
  then show ?thesis
    using assms(1,2) by (auto simp: step fits_pixels_def not_le Suc_le_eq)
qed

theorem next_resize_step_least_witness:
  "unat (mms_attachment_image_next_resize_step 3000000 0 4000 3000) < 2 ^ 31"
  using next_resize_step_least [OF _ _ _ _ refl, where step = 0 and columns = 4000 and rows = 3000 and max_pixels = 3000000]
  by simp

text \<open>C16. Shrinking an image by a whole number with a decoder that delivers all its lines: exactly as many
  lines are written as the smaller image has, every component of every pixel is the average over its box,
  nothing is read past the end of a line, and no sum overflows as long as a box has fewer than 2^24 pixels.\<close>

theorem box_filter_averages:
  fixes w h k ow oh :: u32
  assumes size: "ow = w div k" "oh = h div k" "0 < ow" "0 < oh"
    and box: "nx = unat w div unat ow" "ny = unat h div unat oh" "255 * (nx * ny) < 2 ^ 32"
    and lines: "length lines = unat h" "\<forall>l\<in>set lines. length l = 3 * unat w" and room: "unat oh \<le> room"
  shows "box_filter (w, h) (ow, oh) room lines
    = Ret (unat h, map (box_line nx ny (unat ow) lines) [0..<unat oh])"
proof -
  have "0 < unat w div unat k" "0 < unat h div unat k"
    using size by (simp_all add: word_less_nat_alt unat_div)
  then have pos: "0 < unat k" "0 < unat ow" "0 < unat oh"
    using size by (cases "unat k = 0"; simp add: unat_div)+
  have quot: "unat (w div ow) = nx" "unat (h div oh) = ny"
    using box by (simp_all add: unat_div)
  have "unat oh = unat h div unat k"
    using size by (simp add: unat_div)
  then have strips: "unat h div ny = unat oh"
    using pos box(2) by (simp add: div_div_div)
  have "nx * unat ow \<le> unat w"
    unfolding box(1) by (rule div_times_less_eq_dividend)
  then have fit: "3 * nx * unat ow \<le> 3 * unat w"
    by simp
  have "0 < nx" "0 < ny"
    using pos size box by (auto simp: div_greater_zero_iff unat_div)
  then have "box_loop (w div ow) (h div oh) (unat ow) (unat h) room (drop 0 lines) 0
        (box_buffer nx ny (unat ow) lines (0 div ny) (0 mod ny))
        (map (box_line nx ny (unat ow) lines) [0..<0 div ny])
      = Ret (unat h, map (box_line nx ny (unat ow) lines) [0..<unat h div ny])"
    using box_loop_sums [OF lines(1), where nx = "w div ow" and ny = "h div oh" and w = "unat ow" and y = 0 and room = room]
      lines(2) fit box(3) room unfolding quot strips by simp
  then show ?thesis
    using size(3,4) by (simp add: box_filter_def box_buffer_empty strips word_gt_0)
qed

definition sample_lines :: "byte list list" where
  "sample_lines = [[10, 0, 0, 20, 0, 0, 1, 2, 3, 1, 2, 3], [30, 0, 0, 40, 0, 1, 1, 2, 3, 1, 2, 5]]"

lemma sample_box_line: "box_line 2 2 2 sample_lines 0 = [25, 0, 0, 1, 2, 3]"
proof -
  have "[0..<2] = [0, 1 :: nat]"
    by (simp add: numeral_2_eq_2)
  then show ?thesis
    unfolding box_line_def by (simp add: box_sum_def sample_lines_def lessThan_nat_numeral)
qed

theorem box_filter_averages_witness:
  "box_filter (4, 2) (2, 1) 1 sample_lines = Ret (2, [[25, 0, 0, 1, 2, 3]])"
proof -
  have "box_filter (4, 2) (2, 1) 1 sample_lines = Ret (unat (2 :: u32), map (box_line 2 2 (unat (2 :: u32)) sample_lines) [0..<unat (1 :: u32)])"
    by (rule box_filter_averages [where k = 2]) (simp_all add: sample_lines_def)
  then show ?thesis
    by (simp add: sample_box_line)
qed

text \<open>An image with fewer columns or lines than the divisor of the resize step makes the code divide by zero.\<close>

theorem narrow_image_divides_by_zero:
  assumes "w < k \<or> h < k"
  shows "box_filter (w, h) (w div k, h div k) room lines = Undef"
proof -
  have "unat (w div k) = 0 \<or> unat (h div k) = 0"
    using assms by (auto simp: unat_div word_less_nat_alt)
  then have "w div k = 0 \<or> h div k = 0"
    by (simp add: unat_eq_zero)
  then show ?thesis
    by (auto simp: box_filter_def)
qed

theorem narrow_image_divides_by_zero_witness:
  "box_filter (1, 5000) (1 div 2, 5000 div 2) 2500 [] = Undef"
  using narrow_image_divides_by_zero [of 1 2 5000 2500 "[]"] by simp

end
