(* ===== verification/Attachment.thy ===== *)
theory Attachment
  imports Image_Resize Content_Type Mms_Message
begin

text \<open>
  Attachments of an outgoing message: \<^verbatim>\<open>mms_attachment.c\<close>, \<^verbatim>\<open>mms_attachment_text.c\<close>,
  \<^verbatim>\<open>mms_attachment_image.c\<close> and \<^verbatim>\<open>mms_attachment_jpeg.c\<close> under \<^verbatim>\<open>mms-lib/src\<close>.

  \<^item> \<open>mms_attachment_object\<close> is \<^verbatim>\<open>struct _mms_attachment\<close> with the fields of its subclasses; \<open>ao_type\<close> is the
    class of the object. A mapped file is the content it had when it was mapped.
  \<^item> libmagic, the markup parser, the charset conversion, the JPEG library and ImageMagick are the
    functions of \<open>attachment_env\<close>. A JPEG decoder is what it delivers: the size in the header, the size
    it would produce when asked for a given one, and the lines it reads before an error.
  \<^item> A pair of the object and the files goes through every operation that writes a file.
\<close>

section \<open>State\<close>

datatype attachment_type =
    MMS_TYPE_ATTACHMENT | MMS_TYPE_ATTACHMENT_TEXT | MMS_TYPE_ATTACHMENT_IMAGE | MMS_TYPE_ATTACHMENT_JPEG

definition MMS_ATTACHMENT_SMIL :: u32 where "MMS_ATTACHMENT_SMIL = 0x01"
definition MMS_ATTACHMENT_RESIZABLE :: u32 where "MMS_ATTACHMENT_RESIZABLE = 0x02"

record mms_attachment_object =
  ao_type :: attachment_type
  ao_original_file :: string
  ao_file_name :: string
  ao_content_type :: "string option"
  ao_content_id :: string
  ao_content_location :: string
  ao_map :: "byte list option"
  ao_flags :: u32
  ao_utf8file :: "string option"
  ao_resize_step :: u32
  ao_resized :: "string option"

record mms_attachment_info =
  ai_data :: "byte list"
  ai_file_name :: string
  ai_content_type :: "string option"
  ai_content_id :: "string option"

record attachment_env =
  ae_magic_mime :: "byte list \<Rightarrow> string option"
  ae_magic_encoding :: "byte list \<Rightarrow> string option"
  ae_markup_roots :: "byte list \<Rightarrow> string list option"
  ae_convert :: "string \<Rightarrow> byte list \<Rightarrow> byte list option"
  ae_can_write :: "string \<Rightarrow> bool"
  ae_can_map :: "string \<Rightarrow> bool"
  ae_convert_to_utf8 :: bool
  ae_keep_temp_files :: bool
  ae_jpeg_size :: "byte list \<Rightarrow> (u32 \<times> u32) option"
  ae_jpeg_start :: "byte list \<Rightarrow> u32 \<times> u32 \<Rightarrow> (u32 \<times> u32) option"
  ae_jpeg_lines :: "byte list \<Rightarrow> u32 \<times> u32 \<Rightarrow> byte list list"
  ae_jpeg_room :: nat
  ae_jpeg_encode :: "u32 \<times> u32 \<Rightarrow> byte list list \<Rightarrow> byte list"
  ae_magick_size :: "byte list \<Rightarrow> (u32 \<times> u32) option"
  ae_magick_resize :: "byte list \<Rightarrow> u32 \<times> u32 \<Rightarrow> byte list option"

definition is_smil :: "mms_attachment_object \<Rightarrow> bool" where
  "is_smil at \<longleftrightarrow> ao_flags at AND MMS_ATTACHMENT_SMIL \<noteq> 0"

definition is_resizable :: "mms_attachment_object \<Rightarrow> bool" where
  "is_resizable at \<longleftrightarrow> ao_flags at AND MMS_ATTACHMENT_RESIZABLE \<noteq> 0"

section \<open>Content type\<close>

definition CONTENT_TYPE_PARAM_NAME :: string where "CONTENT_TYPE_PARAM_NAME = ''name''"
definition CONTENT_TYPE_PARAM_CHARSET :: string where "CONTENT_TYPE_PARAM_CHARSET = ''charset''"
definition MMS_DEFAULT_CHARSET :: string where "MMS_DEFAULT_CHARSET = ''utf-8''"
definition SMIL_CONTENT_TYPE :: string where "SMIL_CONTENT_TYPE = ''application/smil''"
definition SMIL_CONTENT_ID :: string where "SMIL_CONTENT_ID = ''smil''"
definition MMS_ATTACHMENT_DEFAULT_TYPE :: string where
  "MMS_ATTACHMENT_DEFAULT_TYPE = ''application/octet-stream''"

definition MEDIA_TYPE_TEXT_PREFIX :: string where "MEDIA_TYPE_TEXT_PREFIX = ''text/''"
definition MEDIA_TYPE_IMAGE_PREFIX :: string where "MEDIA_TYPE_IMAGE_PREFIX = ''image/''"
definition MEDIA_TYPE_VIDEO_PREFIX :: string where "MEDIA_TYPE_VIDEO_PREFIX = ''video/''"
definition MEDIA_TYPE_AUDIO_PREFIX :: string where "MEDIA_TYPE_AUDIO_PREFIX = ''audio/''"
definition MEDIA_TYPE_IMAGE_JPEG :: string where "MEDIA_TYPE_IMAGE_JPEG = MEDIA_TYPE_IMAGE_PREFIX @ ''jpeg''"

text \<open>\<^verbatim>\<open>mms_file_is_smil\<close>: the markup can be parsed and has the element \<^verbatim>\<open>smil\<close> at its top level.\<close>

definition mms_file_is_smil :: "attachment_env \<Rightarrow> byte list \<Rightarrow> bool" where
  "mms_file_is_smil ae octets =
     (case ae_markup_roots ae octets of None \<Rightarrow> False | Some elements \<Rightarrow> ''smil'' \<in> set elements)"

definition mms_attachment_guess_content_type :: "attachment_env \<Rightarrow> byte list \<Rightarrow> string" where
  "mms_attachment_guess_content_type ae octets =
     (let detected = ae_magic_mime ae octets;
          detected = (if (case detected of None \<Rightarrow> True | Some d \<Rightarrow> has_prefix d MEDIA_TYPE_TEXT_PREFIX)
                         \<and> mms_file_is_smil ae octets
                      then Some SMIL_CONTENT_TYPE else detected)
      in case detected of None \<Rightarrow> MMS_ATTACHMENT_DEFAULT_TYPE | Some d \<Rightarrow> d)"

definition mms_attachment_guess_text_encoding :: "attachment_env \<Rightarrow> byte list \<Rightarrow> string" where
  "mms_attachment_guess_text_encoding ae octets =
     (case ae_magic_encoding ae octets of Some d \<Rightarrow> d | None \<Rightarrow> MMS_DEFAULT_CHARSET)"

text \<open>The loop over the parameters of the given type: the name is replaced, and \<open>append_name\<close> and
  \<open>append_charset\<close> say what is missing in the end.\<close>

fun replace_params :: "string \<Rightarrow> bool \<Rightarrow> bool \<Rightarrow> string list \<Rightarrow> string list \<times> bool \<times> bool" where
  "replace_params nm append_name append_charset (p # v # ct) =
     (if ascii_caseeq p CONTENT_TYPE_PARAM_NAME
      then (case replace_params nm False append_charset ct of (ct, r) \<Rightarrow> (p # nm # ct, r))
      else case replace_params nm append_name
                  (append_charset \<and> \<not> ascii_caseeq p CONTENT_TYPE_PARAM_CHARSET) ct of
             (ct, r) \<Rightarrow> (p # v # ct, r))"
| "replace_params nm append_name append_charset ct = (ct, append_name, append_charset)"

text \<open>The media type and the array that is printed, for a type that the caller has given and that can be
  parsed, and for any other attachment.\<close>

definition given_type :: "attachment_env \<Rightarrow> mms_attachment_info \<Rightarrow> string \<Rightarrow> string list \<Rightarrow> string list" where
  "given_type ae info nm ct =
     (case replace_params nm True (has_prefix (hd ct) MEDIA_TYPE_TEXT_PREFIX) (tl ct) of
        (ps, append_name, append_charset) \<Rightarrow>
          hd ct # ps
          @ (if append_name then [CONTENT_TYPE_PARAM_NAME, nm] else [])
          @ (if append_charset
             then [CONTENT_TYPE_PARAM_CHARSET, mms_attachment_guess_text_encoding ae (ai_data info)] else []))"

definition guessed_type :: "attachment_env \<Rightarrow> mms_attachment_info \<Rightarrow> string \<Rightarrow> string list" where
  "guessed_type ae info nm =
     (let media_type = mms_attachment_guess_content_type ae (ai_data info) in
        media_type
        # (if has_prefix media_type MEDIA_TYPE_TEXT_PREFIX
           then [CONTENT_TYPE_PARAM_CHARSET, mms_attachment_guess_text_encoding ae (ai_data info)] else [])
        @ [CONTENT_TYPE_PARAM_NAME, nm])"

definition attachment_ct :: "attachment_env \<Rightarrow> mms_attachment_info \<Rightarrow> string list" where
  "attachment_ct ae info =
     (let nm = basename (ai_file_name info) in
      case (if nonempty (ai_content_type info)
            then mms_parse_http_content_type (the (ai_content_type info)) else None) of
        Some ct \<Rightarrow> given_type ae info nm ct
      | None \<Rightarrow> guessed_type ae info nm)"

section \<open>Text\<close>

definition MMS_CONVERT_DIR :: string where "MMS_CONVERT_DIR = ''convert''"

definition mms_prepare_filename :: "string \<Rightarrow> string \<Rightarrow> string" where
  "mms_prepare_filename f subdir = build_filename (build_filename (dirname f) subdir) (basename f)"

text \<open>The position of the charset parameter among the parameters.\<close>

fun charset_value :: "string list \<Rightarrow> nat \<Rightarrow> nat option" where
  "charset_value (p # v # ct) i =
     (if ascii_caseeq p CONTENT_TYPE_PARAM_CHARSET then Some i else charset_value ct (i + 2))"
| "charset_value _ i = None"

definition mms_attachment_text_convert_to_utf8 ::
    "attachment_env \<Rightarrow> mms_attachment_object \<Rightarrow> files \<Rightarrow> (mms_attachment_object \<times> files) outcome" where
  "mms_attachment_text_convert_to_utf8 ae at fs =
     (case Option.bind (ao_content_type at) mms_parse_http_content_type of
        None \<Rightarrow> Ret (at, fs)
      | Some ct \<Rightarrow>
          (case charset_value (tl ct) 1 of
             None \<Rightarrow> Ret (at, fs)
           | Some cs_pos \<Rightarrow>
               let charset = ct ! (cs_pos + 1) in
               if \<not> ascii_caseeq charset MMS_DEFAULT_CHARSET \<and> \<not> ascii_caseeq charset ''US=ASCII''
               then (case Option.bind (ao_map at) (ae_convert ae charset) of
                       None \<Rightarrow> Ret (at, fs)
                     | Some utf8 \<Rightarrow>
                         let out = mms_prepare_filename (ao_original_file at) MMS_CONVERT_DIR in
                         if ae_can_write ae out
                         then let fs = fs(out \<mapsto> utf8) in
                           if ae_can_map ae out
                           then bind_outcome (mms_unparse_http_content_type (ct[cs_pos + 1 := MMS_DEFAULT_CHARSET]))
                             (\<lambda>content_type. Ret (at\<lparr>ao_file_name := out, ao_utf8file := Some out,
                                ao_map := Some utf8, ao_content_type := content_type\<rparr>, fs))
                           else Ret (at, fs)
                         else Ret (at, fs))
               else Ret (at, fs)))"

section \<open>New attachments\<close>

text \<open>The virtual \<^verbatim>\<open>fn_init\<close>, which only text attachments have.\<close>

definition mms_attachment_init_class ::
    "attachment_env \<Rightarrow> mms_attachment_object \<Rightarrow> files \<Rightarrow> (mms_attachment_object \<times> files) outcome" where
  "mms_attachment_init_class ae at fs =
     (if ao_type at = MMS_TYPE_ATTACHMENT_TEXT \<and> ae_convert_to_utf8 ae
      then mms_attachment_text_convert_to_utf8 ae at fs else Ret (at, fs))"

definition media_attachment_type :: "string \<Rightarrow> attachment_type" where
  "media_attachment_type media_type =
     (if media_type = SMIL_CONTENT_TYPE then MMS_TYPE_ATTACHMENT
      else if media_type = MEDIA_TYPE_IMAGE_JPEG then MMS_TYPE_ATTACHMENT_JPEG
      else if has_prefix media_type MEDIA_TYPE_IMAGE_PREFIX then MMS_TYPE_ATTACHMENT_IMAGE
      else if has_prefix media_type MEDIA_TYPE_TEXT_PREFIX then MMS_TYPE_ATTACHMENT_TEXT
      else MMS_TYPE_ATTACHMENT)"

text \<open>The flags come from the instance initialisation of the classes and from the media type.\<close>

definition mms_attachment_new ::
    "attachment_env \<Rightarrow> mms_attachment_info \<Rightarrow> files \<Rightarrow> (mms_attachment_object \<times> files) outcome" where
  "mms_attachment_new ae info fs =
     (let nm = basename (ai_file_name info);
          ct = attachment_ct ae info;
          media_type = hd ct;
          ty = media_attachment_type media_type;
          flags = (if ty \<in> {MMS_TYPE_ATTACHMENT_IMAGE, MMS_TYPE_ATTACHMENT_JPEG} then MMS_ATTACHMENT_RESIZABLE else 0)
      in bind_outcome (mms_unparse_http_content_type ct)
        (\<lambda>content_type. mms_attachment_init_class ae
           \<lparr>ao_type = ty, ao_original_file = ai_file_name info, ao_file_name = ai_file_name info,
            ao_content_type = content_type,
            ao_content_id = (if nonempty (ai_content_id info) then the (ai_content_id info) else nm),
            ao_content_location = nm, ao_map = Some (ai_data info),
            ao_flags = flags OR (if media_type = SMIL_CONTENT_TYPE then MMS_ATTACHMENT_SMIL else 0),
            ao_utf8file = None, ao_resize_step = 0, ao_resized = None\<rparr> fs))"

definition mms_attachment_finalize :: "attachment_env \<Rightarrow> mms_attachment_object \<Rightarrow> file_op list" where
  "mms_attachment_finalize ae at =
     (if ae_keep_temp_files ae then []
      else (case ao_type at of
              MMS_TYPE_ATTACHMENT \<Rightarrow> []
            | MMS_TYPE_ATTACHMENT_TEXT \<Rightarrow> mms_remove_file_and_dir (ao_utf8file at)
            | _ \<Rightarrow> mms_remove_file_and_dir (ao_resized at))
        @ [Remove_File (ao_original_file at), Remove_Dir (dirname (ao_original_file at))])"

section \<open>SMIL\<close>

definition is_text :: "mms_attachment_object \<Rightarrow> bool" where
  "is_text at \<longleftrightarrow> (case ao_content_type at of None \<Rightarrow> False | Some ct \<Rightarrow> has_prefix ct MEDIA_TYPE_TEXT_PREFIX)"

definition smil_quote :: string where "smil_quote = [CHR 0x22]"
definition smil_nl :: string where "smil_nl = [CHR 0x0A]"

definition smil_attr :: "string \<Rightarrow> string \<Rightarrow> string" where
  "smil_attr a v = '' '' @ a @ ''='' @ smil_quote @ v @ smil_quote"

text \<open>The two regions, \<open>both\<close> when there are text and media.\<close>

definition text_region :: "bool \<Rightarrow> string" where
  "text_region both = ''   <region'' @ smil_attr ''id'' ''Text'' @ smil_attr ''top'' (if both then ''70%'' else ''0%'')
     @ smil_attr ''left'' ''0%'' @ smil_attr ''height'' (if both then ''30%'' else ''100%'')
     @ smil_attr ''width'' ''100%'' @ smil_attr ''fit'' ''scroll'' @ ''/>'' @ smil_nl"

definition media_region :: "bool \<Rightarrow> string" where
  "media_region both = ''   <region'' @ smil_attr ''id'' ''Media'' @ smil_attr ''top'' ''0%''
     @ smil_attr ''left'' ''0%'' @ smil_attr ''height'' (if both then ''70%'' else ''100%'')
     @ smil_attr ''width'' ''100%'' @ smil_attr ''fit'' ''meet'' @ ''/>'' @ smil_nl"

definition smil_element :: "mms_attachment_object \<Rightarrow> string" where
  "smil_element at =
     (let ct = (case ao_content_type at of None \<Rightarrow> [] | Some ct \<Rightarrow> ct);
          elem = (if has_prefix ct MEDIA_TYPE_TEXT_PREFIX then ''text''
                  else if has_prefix ct MEDIA_TYPE_IMAGE_PREFIX then ''img''
                  else if has_prefix ct MEDIA_TYPE_VIDEO_PREFIX then ''video''
                  else if has_prefix ct MEDIA_TYPE_AUDIO_PREFIX then ''audio''
                  else ''ref'')
      in ''   <'' @ elem @ smil_attr ''src'' (ao_content_location at)
         @ smil_attr ''region'' (if is_text at then ''Text'' else ''Media'') @ ''/>'' @ smil_nl)"

definition mms_attachment_write_smil :: "mms_attachment_object list \<Rightarrow> string" where
  "mms_attachment_write_smil ats =
     (let text = list_ex is_text ats; media = list_ex (\<lambda>at. \<not> is_text at) ats
      in ''<smil>'' @ smil_nl @ '' <head>'' @ smil_nl @ ''  <layout>'' @ smil_nl @ ''   <root-layout/>'' @ smil_nl
         @ (if media then media_region (text \<and> media) else [])
         @ (if text then text_region (text \<and> media) else [])
         @ ''  </layout>'' @ smil_nl @ '' </head>'' @ smil_nl @ '' <body>'' @ smil_nl
         @ ''  <par'' @ smil_attr ''dur'' ''5000ms'' @ ''>'' @ smil_nl
         @ concat (map smil_element ats)
         @ ''  </par>'' @ smil_nl @ '' </body>'' @ smil_nl @ ''</smil>'' @ smil_nl)"

definition mms_attachment_new_smil ::
    "attachment_env \<Rightarrow> string \<Rightarrow> mms_attachment_object list \<Rightarrow> files
       \<Rightarrow> (mms_attachment_object option \<times> files) outcome" where
  "mms_attachment_new_smil ae path ats fs =
     (if ae_can_write ae path
      then let octets = bytes_of (mms_attachment_write_smil ats); fs = fs(path \<mapsto> octets) in
        if ae_can_map ae path
        then bind_outcome
          (mms_attachment_new ae
             \<lparr>ai_data = octets, ai_file_name = path,
              ai_content_type = Some (SMIL_CONTENT_TYPE @ ''; '' @ CONTENT_TYPE_PARAM_CHARSET @ ''='' @ MMS_DEFAULT_CHARSET),
              ai_content_id = Some SMIL_CONTENT_ID\<rparr> fs)
          (\<lambda>(at, fs). Ret (Some at, fs))
        else Ret (None, fs)
      else Ret (None, fs))"

section \<open>Images\<close>

definition mms_attachment_image_prepare_filename ::
    "mms_attachment_object \<times> files \<Rightarrow> string \<times> mms_attachment_object \<times> files" where
  "mms_attachment_image_prepare_filename s =
     (case s of (at, fs) \<Rightarrow>
        (case ao_resized at of
           Some f \<Rightarrow> (f, at\<lparr>ao_file_name := ao_original_file at\<rparr>, fs(f := None))
         | None \<Rightarrow> let f = mms_prepare_filename (ao_original_file at) MMS_CONVERT_DIR
                   in (f, at\<lparr>ao_resized := Some f\<rparr>, fs)))"

definition next_step_of :: "u32 \<Rightarrow> mms_attachment_object \<Rightarrow> u32 \<times> u32 \<Rightarrow> u32" where
  "next_step_of max_pixels at sz =
     mms_attachment_image_next_resize_step max_pixels (ao_resize_step at) (fst sz) (snd sz)"

definition scaled :: "u32 \<times> u32 \<Rightarrow> u32 \<Rightarrow> u32 \<times> u32" where
  "scaled sz next_step = (fst sz div (next_step + 1), snd sz div (next_step + 1))"

text \<open>\<^verbatim>\<open>ReadImage\<close>, \<^verbatim>\<open>ResizeImage\<close> and \<^verbatim>\<open>WriteImage\<close>.\<close>

definition mms_attachment_image_resize_default ::
    "attachment_env \<Rightarrow> u32 \<Rightarrow> mms_attachment_object \<times> files \<Rightarrow> bool \<times> mms_attachment_object \<times> files" where
  "mms_attachment_image_resize_default ae max_pixels s =
     (case mms_attachment_image_prepare_filename s of
        (fname, at, fs) \<Rightarrow>
          (case fs (ao_original_file at) of
             None \<Rightarrow> (False, at, fs)
           | Some octets \<Rightarrow>
               (case ae_magick_size ae octets of
                  None \<Rightarrow> (False, at, fs)
                | Some sz \<Rightarrow>
                    if 1 < fst sz \<and> 1 < snd sz
                    then let next_step = next_step_of max_pixels at sz in
                      (case ae_magick_resize ae octets (scaled sz next_step) of
                         None \<Rightarrow> (False, at, fs)
                       | Some out \<Rightarrow>
                           let at = at\<lparr>ao_resize_step := next_step\<rparr> in
                           if ae_can_write ae fname then (True, at, fs(fname \<mapsto> out)) else (False, at, fs))
                    else (False, at, fs))))"

text \<open>\<^verbatim>\<open>fn_resize_prepare\<close> of JPEG: the output is opened, and the decoder asked to scale to \<open>in_size\<close>.\<close>

definition mms_attachment_jpeg_resize_prepare ::
    "attachment_env \<Rightarrow> byte list \<Rightarrow> u32 \<times> u32 \<Rightarrow> string \<Rightarrow> files \<Rightarrow> bool \<times> files" where
  "mms_attachment_jpeg_resize_prepare ae octets in_size fname fs =
     (if ae_can_write ae fname then (ae_jpeg_start ae octets in_size = Some in_size, fs(fname \<mapsto> []))
      else (False, fs))"

definition jpeg_open :: "attachment_env \<Rightarrow> mms_attachment_object \<Rightarrow> files \<Rightarrow> (byte list \<times> u32 \<times> u32) option" where
  "jpeg_open ae at fs =
     (if ao_type at = MMS_TYPE_ATTACHMENT_JPEG
      then (case fs (ao_original_file at) of
              None \<Rightarrow> None
            | Some octets \<Rightarrow> map_option (\<lambda>sz. (octets, sz)) (ae_jpeg_size ae octets))
      else None)"

text \<open>The loops over the lines, for a decoder that delivers lines of the sz \<open>in_size\<close>.\<close>

definition resize_lines ::
    "attachment_env \<Rightarrow> byte list \<Rightarrow> u32 \<times> u32 \<Rightarrow> u32 \<times> u32 \<Rightarrow> (nat \<times> byte list list) outcome" where
  "resize_lines ae octets in_size out_size =
     (let lines = ae_jpeg_lines ae octets in_size in
        if in_size = out_size then Ret (copy_lines (unat (snd in_size)) (ae_jpeg_room ae) lines)
        else box_filter in_size out_size (ae_jpeg_room ae) lines)"

definition mms_attachment_image_resize_type_specific ::
    "attachment_env \<Rightarrow> u32 \<Rightarrow> mms_attachment_object \<times> files
       \<Rightarrow> (bool \<times> mms_attachment_object \<times> files) outcome" where
  "mms_attachment_image_resize_type_specific ae max_pixels s =
     (case jpeg_open ae (fst s) (snd s) of
        None \<Rightarrow> Ret (False, s)
      | Some (octets, sz) \<Rightarrow>
          (case mms_attachment_image_prepare_filename s of
             (fname, at, fs) \<Rightarrow>
               let next_step = next_step_of max_pixels at sz;
                   out_size = scaled sz next_step;
                   run = (\<lambda>octets in_size fs.
                     bind_outcome (resize_lines ae octets in_size out_size)
                       (\<lambda>(y, out). let fs = fs(fname \<mapsto> ae_jpeg_encode ae out_size out) in
                          if y = unat (snd in_size) then Ret (True, at\<lparr>ao_resize_step := next_step\<rparr>, fs)
                          else Ret (False, at, fs)))
               in case mms_attachment_jpeg_resize_prepare ae octets out_size fname fs of
                    (True, fs) \<Rightarrow> run octets out_size fs
                  | (False, fs) \<Rightarrow>
                      (case jpeg_open ae at fs of
                         None \<Rightarrow> Ret (False, at, fs)
                       | Some (octets, _) \<Rightarrow>
                           (case mms_attachment_jpeg_resize_prepare ae octets sz fname fs of
                              (True, fs) \<Rightarrow> run octets sz fs
                            | (False, fs) \<Rightarrow> Ret (False, at, fs)))))"

definition mms_attachment_image_resize ::
    "attachment_env \<Rightarrow> u32 \<Rightarrow> mms_attachment_object \<times> files
       \<Rightarrow> (bool \<times> mms_attachment_object \<times> files) outcome" where
  "mms_attachment_image_resize ae max_pixels s =
     (let at = fst s;
          at = (if ao_map at \<noteq> None \<and> ao_resized at \<noteq> None then at\<lparr>ao_map := None\<rparr> else at)
      in bind_outcome (mms_attachment_image_resize_type_specific ae max_pixels (at, snd s))
        (\<lambda>(ok, s).
          let (ok, at, fs) = (if ok then (ok, s) else mms_attachment_image_resize_default ae max_pixels s)
          in if ok
             then (case ao_resized at of
                     None \<Rightarrow> Undef
                   | Some f \<Rightarrow>
                       (case fs f of
                          Some octets \<Rightarrow>
                            if ae_can_map ae f
                            then Ret (True, at\<lparr>ao_file_name := f, ao_map := Some octets\<rparr>, fs)
                            else Ret (False, at, fs)
                        | None \<Rightarrow> Ret (False, at, fs)))
             else Ret (False, at, fs)))"

definition mms_attachment_image_reset ::
    "attachment_env \<Rightarrow> mms_attachment_object \<times> files \<Rightarrow> mms_attachment_object \<times> files" where
  "mms_attachment_image_reset ae s =
     (case s of (at, fs) \<Rightarrow>
        let at = at\<lparr>ao_file_name := ao_original_file at\<rparr> in
        if ao_resize_step at \<noteq> 0
        then (at\<lparr>ao_resize_step := 0,
                 ao_map := (if ae_can_map ae (ao_original_file at) then fs (ao_original_file at) else None)\<rparr>, fs)
        else (at, fs))"

section \<open>Virtual calls\<close>

definition is_image :: "mms_attachment_object \<Rightarrow> bool" where
  "is_image at \<longleftrightarrow> ao_type at = MMS_TYPE_ATTACHMENT_IMAGE \<or> ao_type at = MMS_TYPE_ATTACHMENT_JPEG"

definition mms_attachment_reset ::
    "attachment_env \<Rightarrow> mms_attachment_object \<times> files \<Rightarrow> mms_attachment_object \<times> files" where
  "mms_attachment_reset ae s = (if is_image (fst s) then mms_attachment_image_reset ae s else s)"

definition mms_attachment_resize ::
    "attachment_env \<Rightarrow> u32 \<Rightarrow> mms_attachment_object \<times> files
       \<Rightarrow> (bool \<times> mms_attachment_object \<times> files) outcome" where
  "mms_attachment_resize ae max_pixels s =
     (if is_image (fst s) then mms_attachment_image_resize ae max_pixels s else Ret (False, s))"

section \<open>Lemmas\<close>

text \<open>The values of a parameter.\<close>

fun values_of :: "string \<Rightarrow> string list \<Rightarrow> string list" where
  "values_of nm (p # v # ps) = (if ascii_caseeq p nm then [v] else []) @ values_of nm ps"
| "values_of nm _ = []"

lemma values_of_append: "params_ok ps \<Longrightarrow> values_of nm (ps @ qs) = values_of nm ps @ values_of nm qs"
  by (induction ps rule: params_ok.induct) auto

lemma name_not_charset:
  "\<not> ascii_caseeq CONTENT_TYPE_PARAM_NAME CONTENT_TYPE_PARAM_CHARSET"
  "\<not> ascii_caseeq CONTENT_TYPE_PARAM_CHARSET CONTENT_TYPE_PARAM_NAME"
  by code_simp+

lemma param_tokens: "token_string CONTENT_TYPE_PARAM_NAME" "token_string CONTENT_TYPE_PARAM_CHARSET"
  by code_simp+

lemma caseeq_not_both:
  "ascii_caseeq p CONTENT_TYPE_PARAM_NAME \<Longrightarrow> \<not> ascii_caseeq p CONTENT_TYPE_PARAM_CHARSET"
  using name_not_charset by (simp add: ascii_caseeq_def)

lemma replace_params:
  assumes "params_ok ct" and "replace_params nm an ac ct = (ps, an', ac')" and "cstring nm"
  shows "params_ok ps
    \<and> set (values_of CONTENT_TYPE_PARAM_NAME ps) \<subseteq> {nm}
    \<and> (an' \<longleftrightarrow> an \<and> values_of CONTENT_TYPE_PARAM_NAME ps = [])
    \<and> values_of CONTENT_TYPE_PARAM_CHARSET ps = values_of CONTENT_TYPE_PARAM_CHARSET ct
    \<and> (ac' \<longleftrightarrow> ac \<and> values_of CONTENT_TYPE_PARAM_CHARSET ct = [])"
  using assms
proof (induction nm an ac ct arbitrary: ps rule: replace_params.induct)
  case (1 nm an ac p v ct)
  show ?case
  proof (cases "ascii_caseeq p CONTENT_TYPE_PARAM_NAME")
    case True
    obtain ps' where "replace_params nm False ac ct = (ps', an', ac')" "ps = p # nm # ps'"
      using 1(4) True by (auto split: prod.splits)
    then show ?thesis
      using 1(1) [OF True, of ps'] 1(3,5) True caseeq_not_both [OF True] by auto
  next
    case False
    let ?ac = "ac \<and> \<not> ascii_caseeq p CONTENT_TYPE_PARAM_CHARSET"
    obtain ps' where "replace_params nm an ?ac ct = (ps', an', ac')" "ps = p # v # ps'"
      using 1(4) False by (auto split: prod.splits)
    then show ?thesis
      using 1(2) [OF False, of ps'] 1(3,5) False by auto
  qed
qed auto

definition magic_ok :: "attachment_env \<Rightarrow> bool" where
  "magic_ok ae \<longleftrightarrow> (\<forall>x m. ae_magic_mime ae x = Some m \<longrightarrow> type_string m)
     \<and> (\<forall>x e. ae_magic_encoding ae x = Some e \<longrightarrow> cstring e)"

lemma default_types:
  "type_string SMIL_CONTENT_TYPE" "type_string MMS_ATTACHMENT_DEFAULT_TYPE" "cstring MMS_DEFAULT_CHARSET"
  by code_simp+

lemma guessed_ok:
  "magic_ok ae \<Longrightarrow> type_string (mms_attachment_guess_content_type ae octets)"
  "magic_ok ae \<Longrightarrow> cstring (mms_attachment_guess_text_encoding ae octets)"
  by (auto simp: mms_attachment_guess_content_type_def mms_attachment_guess_text_encoding_def Let_def
      magic_ok_def default_types split: option.split)

lemma cstring_basename: "cstring f \<Longrightarrow> cstring (basename f)"
  by (auto simp: cstring_def basename_def dest: set_takeWhileD)

lemma given_type_ok:
  assumes "content_type_ok ct" and "magic_ok ae" and "cstring nm"
  shows "content_type_ok (given_type ae info nm ct) \<and> hd (given_type ae info nm ct) = hd ct
    \<and> set (values_of CONTENT_TYPE_PARAM_NAME (tl (given_type ae info nm ct))) = {nm}
    \<and> (has_prefix (hd ct) MEDIA_TYPE_TEXT_PREFIX
        \<longrightarrow> values_of CONTENT_TYPE_PARAM_CHARSET (tl (given_type ae info nm ct)) \<noteq> [])"
proof -
  obtain t ps0 where ct: "ct = t # ps0" "type_string t" "params_ok ps0"
    using assms(1) by (auto simp: content_type_ok_def split: list.splits)
  obtain ps an ac where r: "replace_params nm True (has_prefix t MEDIA_TYPE_TEXT_PREFIX) ps0 = (ps, an, ac)"
    by (metis prod_cases3)
  note ps = replace_params [OF ct(3) r assms(3)]
  let ?enc = "mms_attachment_guess_text_encoding ae (ai_data info)"
  let ?extra = "(if an then [CONTENT_TYPE_PARAM_NAME, nm] else []) @ (if ac then [CONTENT_TYPE_PARAM_CHARSET, ?enc] else [])"
  have g: "given_type ae info nm ct = t # ps @ ?extra"
    by (simp add: given_type_def ct(1) r)
  have "params_ok (ps @ ?extra)"
    using ps param_tokens assms(3) guessed_ok(2) [OF assms(2)] by (simp add: params_ok_append)
  moreover have "set (values_of CONTENT_TYPE_PARAM_NAME ps) = (if an then {} else {nm})"
    using ps by (auto dest: subset_singletonD)
  then have "set (values_of CONTENT_TYPE_PARAM_NAME (ps @ ?extra)) = {nm}"
    using ps name_not_charset by (cases an; cases ac) (simp_all add: values_of_append)
  moreover have "has_prefix t MEDIA_TYPE_TEXT_PREFIX \<longrightarrow> values_of CONTENT_TYPE_PARAM_CHARSET (ps @ ?extra) \<noteq> []"
    using ps name_not_charset by (cases an; cases ac) (auto simp: values_of_append)
  ultimately show ?thesis
    using ct(1,2) unfolding g by (simp add: content_type_ok_def)
qed

lemma guessed_type_ok:
  assumes "magic_ok ae" and "cstring nm"
  shows "content_type_ok (guessed_type ae info nm)
    \<and> set (values_of CONTENT_TYPE_PARAM_NAME (tl (guessed_type ae info nm))) = {nm}
    \<and> (has_prefix (hd (guessed_type ae info nm)) MEDIA_TYPE_TEXT_PREFIX
        \<longrightarrow> values_of CONTENT_TYPE_PARAM_CHARSET (tl (guessed_type ae info nm)) \<noteq> [])"
  using guessed_ok [OF assms(1)] assms(2) param_tokens name_not_charset
  by (simp add: guessed_type_def Let_def content_type_ok_def)

lemma attachment_ct_ok:
  assumes "magic_ok ae" and "cstring (ai_file_name info)"
  shows "content_type_ok (attachment_ct ae info)
    \<and> set (values_of CONTENT_TYPE_PARAM_NAME (tl (attachment_ct ae info))) = {basename (ai_file_name info)}
    \<and> (has_prefix (hd (attachment_ct ae info)) MEDIA_TYPE_TEXT_PREFIX
        \<longrightarrow> values_of CONTENT_TYPE_PARAM_CHARSET (tl (attachment_ct ae info)) \<noteq> [])"
proof -
  note nm = cstring_basename [OF assms(2)]
  show ?thesis
    using guessed_type_ok [OF assms(1) nm] given_type_ok [OF parse_content_type_ok assms(1) nm]
    by (auto simp: attachment_ct_def Let_def split: option.split)
qed

text \<open>A type that the caller gives keeps its media type.\<close>

lemma attachment_ct_given:
  "nonempty (ai_content_type info) \<Longrightarrow> mms_parse_http_content_type (the (ai_content_type info)) = Some ct
   \<Longrightarrow> hd (attachment_ct ae info) = hd ct"
  by (simp add: attachment_ct_def Let_def given_type_def split: prod.split)

lemma text_convert_fields:
  "mms_attachment_text_convert_to_utf8 ae at fs = Ret (at', fs') \<Longrightarrow>
     ao_type at' = ao_type at \<and> ao_original_file at' = ao_original_file at \<and> ao_content_id at' = ao_content_id at
     \<and> ao_content_location at' = ao_content_location at \<and> ao_flags at' = ao_flags at
     \<and> ao_resize_step at' = ao_resize_step at \<and> ao_resized at' = ao_resized at"
  by (auto simp: mms_attachment_text_convert_to_utf8_def Let_def split: option.splits if_splits)

lemma smil_flag: "((f :: u32) = 0 \<or> f = MMS_ATTACHMENT_RESIZABLE) \<Longrightarrow>
    (f OR (if b then MMS_ATTACHMENT_SMIL else 0)) AND MMS_ATTACHMENT_SMIL \<noteq> 0 \<longleftrightarrow> b"
  by (auto simp: MMS_ATTACHMENT_SMIL_def MMS_ATTACHMENT_RESIZABLE_def)

lemma init_class_fields:
  assumes "mms_attachment_init_class ae at fs = Ret (at', fs')"
  shows "ao_type at' = ao_type at \<and> ao_original_file at' = ao_original_file at \<and> ao_content_id at' = ao_content_id at
     \<and> ao_content_location at' = ao_content_location at \<and> ao_flags at' = ao_flags at
     \<and> ao_resize_step at' = ao_resize_step at \<and> ao_resized at' = ao_resized at"
    and "ao_type at \<noteq> MMS_TYPE_ATTACHMENT_TEXT \<or> \<not> ae_convert_to_utf8 ae \<Longrightarrow> at' = at \<and> fs' = fs"
  using assms text_convert_fields [of ae at fs at' fs']
  by (auto simp: mms_attachment_init_class_def split: if_splits)

lemma attachment_new_fields:
  assumes "mms_attachment_new ae info fs = Ret (at, fs')"
  shows "ao_type at = media_attachment_type (hd (attachment_ct ae info))"
    and "ao_original_file at = ai_file_name info" and "ao_content_location at = basename (ai_file_name info)"
    and "ao_content_id at = (if nonempty (ai_content_id info) then the (ai_content_id info) else basename (ai_file_name info))"
    and "is_smil at \<longleftrightarrow> hd (attachment_ct ae info) = SMIL_CONTENT_TYPE"
    and "ao_resize_step at = 0 \<and> ao_resized at = None"
    and "ao_type at \<noteq> MMS_TYPE_ATTACHMENT_TEXT \<or> \<not> ae_convert_to_utf8 ae \<Longrightarrow>
      ao_map at = Some (ai_data info) \<and> ao_file_name at = ai_file_name info \<and> fs' = fs
      \<and> mms_unparse_http_content_type (attachment_ct ae info) = Ret (ao_content_type at)"
proof -
  let ?m = "hd (attachment_ct ae info)"
  let ?f = "if media_attachment_type ?m \<in> {MMS_TYPE_ATTACHMENT_IMAGE, MMS_TYPE_ATTACHMENT_JPEG}
    then MMS_ATTACHMENT_RESIZABLE else 0"
  let ?flags = "?f OR (if ?m = SMIL_CONTENT_TYPE then MMS_ATTACHMENT_SMIL else 0)"
  let ?at = "\<lambda>ct. \<lparr>ao_type = media_attachment_type ?m, ao_original_file = ai_file_name info,
    ao_file_name = ai_file_name info, ao_content_type = ct,
    ao_content_id = (if nonempty (ai_content_id info) then the (ai_content_id info) else basename (ai_file_name info)),
    ao_content_location = basename (ai_file_name info), ao_map = Some (ai_data info),
    ao_flags = ?flags, ao_utf8file = None, ao_resize_step = 0, ao_resized = None\<rparr>"
  obtain ct where ct: "mms_unparse_http_content_type (attachment_ct ae info) = Ret ct"
    and init: "mms_attachment_init_class ae (?at ct) fs = Ret (at, fs')"
    using assms unfolding mms_attachment_new_def Let_def by (auto simp only: bind_outcome_eq_Ret)
  note fields = init_class_fields(1) [OF init, simplified]
  have "?flags AND MMS_ATTACHMENT_SMIL \<noteq> 0 \<longleftrightarrow> ?m = SMIL_CONTENT_TYPE"
    by (rule smil_flag) simp
  then show "is_smil at \<longleftrightarrow> ?m = SMIL_CONTENT_TYPE"
    using fields by (simp add: is_smil_def)
  show "ao_type at = media_attachment_type ?m" "ao_original_file at = ai_file_name info"
    "ao_content_location at = basename (ai_file_name info)"
    "ao_content_id at = (if nonempty (ai_content_id info) then the (ai_content_id info) else basename (ai_file_name info))"
    "ao_resize_step at = 0 \<and> ao_resized at = None"
    using fields by simp_all
  assume "ao_type at \<noteq> MMS_TYPE_ATTACHMENT_TEXT \<or> \<not> ae_convert_to_utf8 ae"
  then have "at = ?at ct \<and> fs' = fs"
    using init_class_fields(2) [OF init] fields by simp
  then show "ao_map at = Some (ai_data info) \<and> ao_file_name at = ai_file_name info \<and> fs' = fs
      \<and> mms_unparse_http_content_type (attachment_ct ae info) = Ret (ao_content_type at)"
    using ct by simp
qed

text \<open>Resizing and resetting change the file, the mapping and the step of an image, and nothing else.\<close>

definition same_part :: "mms_attachment_object \<Rightarrow> mms_attachment_object \<Rightarrow> bool" where
  "same_part a b \<longleftrightarrow> ao_type b = ao_type a \<and> ao_original_file b = ao_original_file a
     \<and> ao_content_type b = ao_content_type a \<and> ao_content_id b = ao_content_id a
     \<and> ao_content_location b = ao_content_location a \<and> ao_flags b = ao_flags a
     \<and> (\<not> is_image a \<longrightarrow> b = a)"

lemma same_part_refl [simp]: "same_part a a"
  by (simp add: same_part_def)

lemma same_part_trans: "same_part a b \<Longrightarrow> same_part b c \<Longrightarrow> same_part a c"
  by (auto simp: same_part_def is_image_def)

lemma same_part_updates:
  assumes "is_image a"
  shows "same_part a (a\<lparr>ao_file_name := f\<rparr>)" "same_part a (a\<lparr>ao_resized := r\<rparr>)"
    "same_part a (a\<lparr>ao_resize_step := n\<rparr>)" "same_part a (a\<lparr>ao_map := m\<rparr>)"
    "same_part a (a\<lparr>ao_file_name := f, ao_map := m\<rparr>)"
  using assms by (simp_all add: same_part_def)

lemma same_part_image: "same_part a b \<Longrightarrow> is_image b = is_image a"
  by (simp add: same_part_def is_image_def)

lemma prepare_same:
  "mms_attachment_image_prepare_filename (at, fs) = (f, at', fs') \<Longrightarrow> is_image at \<Longrightarrow> same_part at at'"
  by (auto simp: mms_attachment_image_prepare_filename_def same_part_updates Let_def split: option.splits)

lemma resize_default_same:
  assumes "mms_attachment_image_resize_default ae px (at, fs) = (ok, at', fs')" and "is_image at"
  shows "same_part at at'"
proof -
  obtain f a1 fs1 where p: "mms_attachment_image_prepare_filename (at, fs) = (f, a1, fs1)"
    by (metis prod_cases3)
  have s: "same_part at a1" "is_image a1"
    using prepare_same [OF p assms(2)] assms(2) same_part_image by blast+
  have "at' = a1 \<or> (\<exists>n. at' = a1\<lparr>ao_resize_step := n\<rparr>)"
    using assms(1) by (auto simp: mms_attachment_image_resize_default_def p Let_def split: option.splits if_splits)
  then show ?thesis
    using s same_part_trans same_part_updates(3) by blast
qed

lemma resize_specific_same:
  assumes "mms_attachment_image_resize_type_specific ae px (at, fs) = Ret (ok, at', fs')" and "is_image at"
  shows "same_part at at'"
proof -
  obtain f a1 fs1 where p: "mms_attachment_image_prepare_filename (at, fs) = (f, a1, fs1)"
    by (metis prod_cases3)
  have s: "same_part at a1" "is_image a1"
    using prepare_same [OF p assms(2)] assms(2) same_part_image by blast+
  have "at' = at \<or> at' = a1 \<or> (\<exists>n. at' = a1\<lparr>ao_resize_step := n\<rparr>)"
    using assms(1) unfolding mms_attachment_image_resize_type_specific_def p Let_def
    by (auto split: option.splits prod.splits bool.splits if_splits)
  then show ?thesis
    using s same_part_trans same_part_updates(3) same_part_refl by blast
qed

lemma resize_same:
  assumes "mms_attachment_resize ae px (at, fs) = Ret (ok, at', fs')"
  shows "same_part at at'"
proof (cases "is_image at")
  case True
  let ?a = "if ao_map at \<noteq> None \<and> ao_resized at \<noteq> None then at\<lparr>ao_map := None\<rparr> else at"
  have a: "same_part at ?a" "is_image ?a"
    using True same_part_updates(4) [OF True] by (auto simp: is_image_def)
  obtain ok1 a1 fs1 where r1: "mms_attachment_image_resize_type_specific ae px (?a, fs) = Ret (ok1, a1, fs1)"
    and rest: "(let (ok, at, fs) = (if ok1 then (ok1, a1, fs1) else mms_attachment_image_resize_default ae px (a1, fs1))
          in if ok
             then (case ao_resized at of
                     None \<Rightarrow> Undef
                   | Some f \<Rightarrow>
                       (case fs f of
                          Some octets \<Rightarrow>
                            if ae_can_map ae f
                            then Ret (True, at\<lparr>ao_file_name := f, ao_map := Some octets\<rparr>, fs)
                            else Ret (False, at, fs)
                        | None \<Rightarrow> Ret (False, at, fs)))
             else Ret (False, at, fs)) = Ret (ok, at', fs')"
    using assms True by (auto simp: mms_attachment_resize_def mms_attachment_image_resize_def Let_def)
  have a1: "same_part at a1" "is_image a1"
    using resize_specific_same [OF r1 a(2)] a same_part_trans same_part_image by blast+
  obtain ok2 a2 fs2 where r2: "(if ok1 then (ok1, a1, fs1) else mms_attachment_image_resize_default ae px (a1, fs1)) = (ok2, a2, fs2)"
    by (metis prod_cases3)
  have a2: "same_part at a2" "is_image a2"
    using r2 a1 resize_default_same [of ae px a1 fs1] same_part_trans same_part_image
    by (metis Pair_inject)+
  have "at' = a2 \<or> (\<exists>f m. at' = a2\<lparr>ao_file_name := f, ao_map := m\<rparr>)"
    using rest unfolding r2 by (auto simp: Let_def split: option.splits if_splits)
  then show ?thesis
    using a2 same_part_trans same_part_updates(5) by blast
qed (use assms in \<open>simp add: mms_attachment_resize_def\<close>)

lemma reset_same:
  "mms_attachment_reset ae (at, fs) = (at', fs') \<Longrightarrow> same_part at at' \<and> fs' = fs"
  by (auto simp: mms_attachment_reset_def mms_attachment_image_reset_def Let_def same_part_def is_image_def
      split: if_splits)

section \<open>Properties\<close>

text \<open>The content type of an attachment, whoever it comes from, is a media type with complete parameters:
  the name of the file and no other name, and a charset for every text. A type given by the caller is
  kept. Unless the text is converted, this is what the header holds, and when no value has a backslash
  the receiver reads the same type and parameters.\<close>

theorem attachment_type_complete:
  assumes "magic_ok ae" and "cstring (ai_file_name info)" and "ct = attachment_ct ae info"
  shows "content_type_ok ct
    \<and> set (values_of CONTENT_TYPE_PARAM_NAME (tl ct)) = {basename (ai_file_name info)}
    \<and> (has_prefix (hd ct) MEDIA_TYPE_TEXT_PREFIX \<longrightarrow> values_of CONTENT_TYPE_PARAM_CHARSET (tl ct) \<noteq> [])
    \<and> (nonempty (ai_content_type info) \<longrightarrow>
         (case mms_parse_http_content_type (the (ai_content_type info)) of
            None \<Rightarrow> True | Some given \<Rightarrow> hd ct = hd given))
    \<and> (\<forall>at fs'. mms_attachment_new ae info fs = Ret (at, fs')
         \<and> (ao_type at \<noteq> MMS_TYPE_ATTACHMENT_TEXT \<or> \<not> ae_convert_to_utf8 ae) \<and> no_backslash (tl ct)
         \<longrightarrow> Option.bind (ao_content_type at) mms_parse_http_content_type = Some ct)"
proof (intro conjI allI impI)
  note ok = attachment_ct_ok [OF assms(1,2)]
  show "content_type_ok ct" "set (values_of CONTENT_TYPE_PARAM_NAME (tl ct)) = {basename (ai_file_name info)}"
    using ok assms(3) by simp_all
  show "values_of CONTENT_TYPE_PARAM_CHARSET (tl ct) \<noteq> []" if "has_prefix (hd ct) MEDIA_TYPE_TEXT_PREFIX"
    using ok assms(3) that by simp
  show "case mms_parse_http_content_type (the (ai_content_type info)) of
      None \<Rightarrow> True | Some given \<Rightarrow> hd ct = hd given" if "nonempty (ai_content_type info)"
    using attachment_ct_given [OF that] assms(3) by (simp split: option.split)
  fix at fs'
  assume new: "mms_attachment_new ae info fs = Ret (at, fs')
      \<and> (ao_type at \<noteq> MMS_TYPE_ATTACHMENT_TEXT \<or> \<not> ae_convert_to_utf8 ae) \<and> no_backslash (tl ct)"
  then have printed: "mms_unparse_http_content_type ct = Ret (ao_content_type at)"
    using attachment_new_fields(7) [of ae info fs at fs'] assms(3) by simp
  have good: "content_type_ok ct"
    using ok assms(3) by simp
  then obtain t ps where ct: "ct = t # ps"
    by (auto simp: content_type_ok_def split: list.splits)
  obtain s where "mms_unparse_http_content_type ct = Ret (Some s)" "mms_parse_http_content_type s = Some ct"
    using parse_unparse [of t ps] good new unfolding ct by auto
  then show "Option.bind (ao_content_type at) mms_parse_http_content_type = Some ct"
    using printed by simp
qed

definition sample_ae :: attachment_env where
  "sample_ae = \<lparr>ae_magic_mime = (\<lambda>_. Some ''text/plain''), ae_magic_encoding = (\<lambda>_. Some ''us-ascii''),
     ae_markup_roots = (\<lambda>_. None), ae_convert = (\<lambda>_ octets. Some octets), ae_can_write = (\<lambda>_. True),
     ae_can_map = (\<lambda>_. True), ae_convert_to_utf8 = False, ae_keep_temp_files = False,
     ae_jpeg_size = (\<lambda>_. None), ae_jpeg_start = (\<lambda>_ _. None), ae_jpeg_lines = (\<lambda>_ _. []), ae_jpeg_room = 0,
     ae_jpeg_encode = (\<lambda>_ _. []), ae_magick_size = (\<lambda>_. None), ae_magick_resize = (\<lambda>_ _. None)\<rparr>"

definition sample_info :: mms_attachment_info where
  "sample_info = \<lparr>ai_data = [72, 105], ai_file_name = ''/tmp/a.txt'', ai_content_type = Some ''text/plain; name=b'',
     ai_content_id = None\<rparr>"

lemma sample_magic_ok: "magic_ok sample_ae"
  unfolding magic_ok_def sample_ae_def by simp code_simp

theorem attachment_type_complete_witness:
  "values_of CONTENT_TYPE_PARAM_CHARSET (tl (attachment_ct sample_ae sample_info)) \<noteq> []
   \<and> attachment_ct sample_ae sample_info = [''text/plain'', ''name'', ''a.txt'', ''charset'', ''us-ascii'']"
proof -
  have ct: "attachment_ct sample_ae sample_info = [''text/plain'', ''name'', ''a.txt'', ''charset'', ''us-ascii'']"
    unfolding sample_ae_def sample_info_def by code_simp
  have "has_prefix ''text/plain'' MEDIA_TYPE_TEXT_PREFIX" "cstring (ai_file_name sample_info)"
    by code_simp+
  then show ?thesis
    using attachment_type_complete [OF sample_magic_ok _ refl, where info = sample_info] ct by simp
qed

end
