(* ===== verification/Task_Encode.thy ===== *)
theory Task_Encode
  imports Attachment Task_Decode
begin

text \<open>
  The task that encodes an outgoing message, \<^verbatim>\<open>mms-lib/src/mms_task_encode.c\<close>.

  \<^item> The job runs on a thread of its own: \<open>mms_encode_job_run\<close> is what it computes from the parts and the
    files, and its result comes back to the task as an event. \<open>cancelled_at\<close> tells whether the job finds
    itself cancelled at each round of its loop.
  \<^item> \<open>e_active_job\<close> is the job the task waits for; jobs are numbered, so that a stale one is recognised.
  \<^item> A failing \<^verbatim>\<open>fstat\<close> of a file that has just been opened is not modelled.
\<close>

section \<open>Data\<close>

datatype mms_encode_state =
    MMS_ENCODE_STATE_NONE | MMS_ENCODE_STATE_RUNNING | MMS_ENCODE_STATE_TOO_BIG
  | MMS_ENCODE_STATE_ERROR | MMS_ENCODE_STATE_DONE

record 'q mms_task_encode = "'q mms_task" +
  e_to :: "string option"
  e_cc :: "string option"
  e_bcc :: "string option"
  e_subject :: "string option"
  e_send_flags :: u32
  e_parts :: "mms_attachment_object list"
  e_active_job :: "nat option"
  e_jobs :: nat

text \<open>The size and pixel limits of the settings of the SIM, if there are any.\<close>

record encode_settings =
  size_limit :: u32
  max_pixels :: u32

definition MMS_SETTINGS_DEFAULT_SIZE_LIMIT :: u32 where "MMS_SETTINGS_DEFAULT_SIZE_LIMIT = 300 * 1024"
definition MMS_SETTINGS_DEFAULT_MAX_PIXELS :: u32 where "MMS_SETTINGS_DEFAULT_MAX_PIXELS = 3000000"
definition MMS_SEND_FLAG_REQUEST_DELIVERY_REPORT :: u32 where "MMS_SEND_FLAG_REQUEST_DELIVERY_REPORT = 0x01"
definition MMS_SEND_FLAG_REQUEST_READ_REPORT :: u32 where "MMS_SEND_FLAG_REQUEST_READ_REPORT = 0x02"

definition limit_of :: "encode_settings option \<Rightarrow> u32" where
  "limit_of st = (case st of Some s \<Rightarrow> size_limit s | None \<Rightarrow> MMS_SETTINGS_DEFAULT_SIZE_LIMIT)"

definition pixels_of :: "encode_settings option \<Rightarrow> u32" where
  "pixels_of st = (case st of Some s \<Rightarrow> max_pixels s | None \<Rightarrow> MMS_SETTINGS_DEFAULT_MAX_PIXELS)"

section \<open>The encoding job\<close>

text \<open>The index of the largest resizable part, as the loop finds it, with the size so far.\<close>

fun largest_part :: "files \<Rightarrow> nat \<Rightarrow> u32 \<Rightarrow> nat option \<Rightarrow> mms_attachment_object list \<Rightarrow> nat option" where
  "largest_part fs i largest best [] = best"
| "largest_part fs i largest best (part # parts) =
     (case (if is_resizable part then fs (ao_file_name part) else None) of
        Some octets \<Rightarrow>
          if largest < of_nat (length octets)
          then largest_part fs (Suc i) (of_nat (length octets)) (Some i) parts
          else largest_part fs (Suc i) largest best parts
      | None \<Rightarrow> largest_part fs (Suc i) largest best parts)"

type_synonym job_state = "mms_attachment_object list \<times> files"

definition mms_encode_job_resize ::
    "attachment_env \<Rightarrow> u32 \<Rightarrow> job_state \<Rightarrow> (bool \<times> job_state) outcome" where
  "mms_encode_job_resize ae pixels s =
     (case s of (parts, fs) \<Rightarrow>
        (case largest_part fs 0 0 None parts of
           None \<Rightarrow> Ret (False, s)
         | Some i \<Rightarrow>
             bind_outcome (mms_attachment_resize ae pixels (parts ! i, fs))
               (\<lambda>(ok, at, fs). Ret (ok, parts[i := at], fs))))"

definition part_attachment :: "mms_attachment_object \<Rightarrow> mms_attachment" where
  "part_attachment at =
     (let octets = (case ao_map at of Some d \<Rightarrow> d | None \<Rightarrow> []) in
      \<lparr>at_data = octets, at_offset = 0, at_length = length octets, at_content_type = ao_content_type at,
       at_content_id = Some (ao_content_id at), at_content_location = Some (ao_content_location at),
       at_transfer_encoding = None\<rparr>)"

definition multipart_ct :: "mms_attachment_object \<Rightarrow> string list" where
  "multipart_ct smil = [''application/vnd.wap.multipart.related'', ''start'', ''<'' @ ao_content_id smil @ ''>'',
     ''type'', SMIL_CONTENT_TYPE]"

text \<open>The PDU. The first part is there because a task with no parts is never made.\<close>

definition send_req_pdu ::
    "('q, 'a) mms_task_encode_scheme \<Rightarrow> mms_attachment_object list \<Rightarrow> mms_message outcome" where
  "send_req_pdu t parts =
     (case parts of
        [] \<Rightarrow> Undef
      | smil # _ \<Rightarrow>
          bind_outcome (mms_unparse_http_content_type (multipart_ct smil))
            (\<lambda>ct. Ret (zero_message\<lparr>
               m_type := message_type_code MMS_MESSAGE_TYPE_SEND_REQ, m_version := MMS_VERSION,
               m_transaction_id := t_id t,
               m_sr := (m_sr zero_message)\<lparr>
                 sr_to := e_to t, sr_cc := e_cc t, sr_bcc := e_bcc t,
                 sr_subject := (if nonempty (e_subject t) then e_subject t else None),
                 sr_dr := e_send_flags t AND MMS_SEND_FLAG_REQUEST_DELIVERY_REPORT \<noteq> 0,
                 sr_rr := e_send_flags t AND MMS_SEND_FLAG_REQUEST_READ_REPORT \<noteq> 0,
                 sr_content_type := ct\<rparr>,
               m_attachments := map part_attachment parts\<rparr>)))"

text \<open>The octets of the file, \<open>None\<close> when it could not be created or the PDU not be encoded; the size is then 0.\<close>

definition mms_encode_job_encode ::
    "('it, 'mi) transfer_env \<Rightarrow> ('q, 'a) mms_task_encode_scheme \<Rightarrow> mms_attachment_object list
       \<Rightarrow> byte list option outcome" where
  "mms_encode_job_encode te t parts =
     bind_outcome (send_req_pdu t parts) (encode_file te (t_id t) MMS_SEND_REQ_FILE)"

definition pdu_size :: "byte list option \<Rightarrow> nat" where
  "pdu_size pdu = (case pdu of None \<Rightarrow> 0 | Some octets \<Rightarrow> length octets)"

definition too_big :: "u32 \<Rightarrow> byte list option \<Rightarrow> bool" where
  "too_big limit pdu \<longleftrightarrow> limit \<noteq> 0 \<and> unat limit < pdu_size pdu"

text \<open>Resizing and encoding again, as long as the message gets smaller.\<close>

function encode_loop ::
    "('it, 'mi) transfer_env \<Rightarrow> attachment_env \<Rightarrow> encode_settings option \<Rightarrow> (nat \<Rightarrow> bool)
       \<Rightarrow> ('q, 'a) mms_task_encode_scheme \<Rightarrow> nat \<Rightarrow> job_state \<Rightarrow> byte list option
       \<Rightarrow> (byte list option \<times> job_state) outcome" where
  "encode_loop te ae st cancelled_at t n s pdu =
     (if too_big (limit_of st) pdu \<and> \<not> cancelled_at n
      then bind_outcome (mms_encode_job_resize ae (pixels_of st) s)
        (\<lambda>(ok, s).
          if ok
          then bind_outcome (mms_encode_job_encode te t (fst s))
            (\<lambda>pdu'. if pdu_size pdu' \<noteq> 0 \<and> pdu_size pdu' < pdu_size pdu
                     then encode_loop te ae st cancelled_at t (Suc n) s pdu'
                     else Ret (pdu', s))
          else Ret (pdu, s))
      else Ret (pdu, s))"
  by pat_completeness auto
termination
  by (relation "measure (\<lambda>(te, ae, st, c, t, n, s, pdu). pdu_size pdu)") auto

declare encode_loop.simps [simp del]

fun job_start :: "attachment_env \<Rightarrow> mms_attachment_object list \<Rightarrow> files \<Rightarrow> job_state" where
  "job_start ae [] fs = ([], fs)"
| "job_start ae (at # parts) fs =
     (case mms_attachment_reset ae (at, fs) of
        (at, fs) \<Rightarrow> (case job_start ae parts fs of (parts, fs) \<Rightarrow> (at # parts, fs)))"

definition mms_encode_job_run ::
    "('it, 'mi) transfer_env \<Rightarrow> attachment_env \<Rightarrow> encode_settings option \<Rightarrow> (nat \<Rightarrow> bool)
       \<Rightarrow> ('q, 'a) mms_task_encode_scheme \<Rightarrow> files
       \<Rightarrow> (mms_encode_state \<times> byte list option \<times> job_state) outcome" where
  "mms_encode_job_run te ae st cancelled_at t fs =
     (let s = job_start ae (e_parts t) fs in
      bind_outcome (mms_encode_job_encode te t (fst s))
        (\<lambda>pdu. bind_outcome (encode_loop te ae st cancelled_at t 0 s pdu)
          (\<lambda>(pdu, s).
            if pdu_size pdu > 0 \<and> \<not> too_big (limit_of st) pdu
            then Ret (MMS_ENCODE_STATE_DONE, pdu, s)
            else Ret (if pdu_size pdu > 0 then MMS_ENCODE_STATE_TOO_BIG else MMS_ENCODE_STATE_ERROR, None, s))))"

section \<open>The task\<close>

definition mms_task_encode_cancel ::
    "int \<Rightarrow> ('q, 'a) mms_task_encode_scheme \<Rightarrow> ('q, 'a) mms_task_encode_scheme" where
  "mms_task_encode_cancel now t = mms_task_cancel_cb now t"

definition mms_task_encode_run ::
    "bool \<Rightarrow> int \<Rightarrow> ('q, 'a) mms_task_encode_scheme \<Rightarrow> ('q, 'a) mms_task_encode_scheme" where
  "mms_task_encode_run thread_ok now t =
     (if thread_ok
      then let t = tell (Message_Send_State_Changed (t_id t) MMS_SEND_STATE_ENCODING None) t;
               t = mms_task_set_state (mms_task_encode_cancel now) now MMS_TASK_STATE_WORKING t
           in t\<lparr>e_active_job := Some (e_jobs t), e_jobs := Suc (e_jobs t)\<rparr>
      else case mms_task_retry (mms_task_encode_cancel now) now t of
             (ok, t) \<Rightarrow> tell (Message_Send_State_Changed (t_id t)
                          (if ok then MMS_SEND_STATE_DEFERRED else MMS_SEND_STATE_SEND_ERROR) None) t)"

text \<open>A job has ended, with its state and the file it has written.\<close>

definition mms_task_encode_job_done ::
    "int \<Rightarrow> nat \<Rightarrow> mms_encode_state \<Rightarrow> byte list \<Rightarrow> ('m mms_task_request, 'a) mms_task_encode_scheme
       \<Rightarrow> ('m mms_task_request, 'a) mms_task_encode_scheme" where
  "mms_task_encode_job_done now job st octets t =
     (if e_active_job t = Some job
      then let t = t\<lparr>e_active_job := None\<rparr>;
               t = (if st = MMS_ENCODE_STATE_DONE
                    then snd (mms_task_queue_and_unref (Some (mms_task_send_new t octets)) t)
                    else tell (Message_Send_State_Changed (t_id t)
                           (if st = MMS_ENCODE_STATE_TOO_BIG then MMS_SEND_STATE_TOO_BIG
                            else MMS_SEND_STATE_SEND_ERROR) None) t)
           in mms_task_set_state (mms_task_encode_cancel now) now MMS_TASK_STATE_DONE t
      else t)"

definition mms_task_encode_class ::
    "bool \<Rightarrow> ('c, ('q, 'a) mms_task_encode_scheme) mms_task_class" where
  "mms_task_encode_class thread_ok =
     \<lparr>max_lifetime = 0, fn_run = mms_task_encode_run thread_ok,
      fn_transmit = (\<lambda>now conn t. t), fn_network_unavailable = (\<lambda>now r t. t),
      fn_cancel = mms_task_encode_cancel\<rparr>"

inductive encode_event ::
    "('m mms_task_request, 'a) mms_task_encode_scheme \<Rightarrow> ('m mms_task_request, 'a) mms_task_encode_scheme \<Rightarrow> bool" where
  Task: "task_step (mms_task_encode_class thread_ok)
      (\<lambda>c :: mms_connection. c_state c = MMS_CONNECTION_STATE_OPEN) t t' \<Longrightarrow> encode_event t t'"
| Job_Done: "encode_event t (mms_task_encode_job_done now job st octets t)"

section \<open>Creating the task\<close>

definition MMS_ENCODE_DIR :: string where "MMS_ENCODE_DIR = ''encode''"

definition known_extensions :: "(string \<times> string) list" where
  "known_extensions =
     [(''image/jpeg'', ''.jpg''), (''image/png'', ''.png''), (''image/bmp'', ''.bmp''), (''image/gif'', ''.gif''),
      (''text/x-vcard'', ''.vcf''), (''text/vcard'', ''.vcf''), (''text/plain'', ''.txt''), (''text/html'', ''.html'')]"

text \<open>\<^verbatim>\<open>strrchr(file, '.')\<close>: the extension with its dot.\<close>

definition file_extension :: "string \<Rightarrow> string option" where
  "file_extension f =
     (if CHR ''.'' \<in> set f then Some (CHR ''.'' # rev (takeWhile (\<lambda>c. c \<noteq> CHR ''.'') (rev f))) else None)"

text \<open>The loop that puts up to a hundred underscores in front of a name that is in use.\<close>

fun free_name :: "nat \<Rightarrow> files \<Rightarrow> string \<Rightarrow> string \<Rightarrow> string" where
  "free_name 0 fs dir f = f"
| "free_name (Suc n) fs dir f =
     (if fs (build_filename dir f) = None then f else free_name n fs dir (''_'' @ f))"

definition mms_task_encode_generate_path :: "files \<Rightarrow> string \<Rightarrow> string \<Rightarrow> string option \<Rightarrow> string" where
  "mms_task_encode_generate_path fs dir f content_type =
     (let known_ext = (case Option.bind content_type mms_parse_http_content_type of
                         None \<Rightarrow> None | Some parsed \<Rightarrow> map_of known_extensions (hd parsed));
          f = (case known_ext of
                 None \<Rightarrow> f
               | Some ext \<Rightarrow> (case file_extension f of
                               None \<Rightarrow> f @ ext
                             | Some e \<Rightarrow> if ascii_caseeq e ext then f else f @ ext))
      in build_filename dir (free_name 100 fs dir f))"

text \<open>\<^verbatim>\<open>mms_copy_attachment\<close> and the mapping of the copy; \<open>None\<close> is an error.\<close>

definition prepare_attachment ::
    "attachment_env \<Rightarrow> string \<Rightarrow> mms_attachment_info \<Rightarrow> files
       \<Rightarrow> (mms_attachment_object option \<times> files) outcome" where
  "prepare_attachment ae dir part fs =
     (let path = mms_task_encode_generate_path fs dir (basename (ai_file_name part)) (ai_content_type part) in
        if ae_can_write ae path
        then let fs = fs(path \<mapsto> ai_data part) in
          if ae_can_map ae path
          then bind_outcome (mms_attachment_new ae (part\<lparr>ai_file_name := path\<rparr>) fs)
                 (\<lambda>(at, fs). Ret (Some at, fs))
          else Ret (None, fs)
        else Ret (None, fs))"

text \<open>The loop over the parts: the attachments made, and whether all of them were.\<close>

fun prepare_loop ::
    "attachment_env \<Rightarrow> string \<Rightarrow> mms_attachment_info list \<Rightarrow> files
       \<Rightarrow> (mms_attachment_object list \<times> bool \<times> files) outcome" where
  "prepare_loop ae dir [] fs = Ret ([], True, fs)"
| "prepare_loop ae dir (part # parts) fs =
     bind_outcome (prepare_attachment ae dir part fs)
       (\<lambda>(at, fs). case at of
           None \<Rightarrow> Ret ([], False, fs)
         | Some a \<Rightarrow> bind_outcome (prepare_loop ae dir parts fs)
             (\<lambda>(ats, done, fs). Ret (a # ats, done, fs)))"

text \<open>The index of the first SMIL attachment, and moving it to the front.\<close>

fun smil_index :: "mms_attachment_object list \<Rightarrow> nat option" where
  "smil_index [] = None"
| "smil_index (a # ats) = (if is_smil a then Some 0 else map_option Suc (smil_index ats))"

definition to_front :: "nat \<Rightarrow> 'a list \<Rightarrow> 'a list" where
  "to_front i xs = xs ! i # take i xs @ drop (Suc i) xs"

text \<open>The result is the array, \<open>None\<close> for NULL, and whether an error was set.\<close>

definition mms_task_encode_prepare_attachments ::
    "attachment_env \<Rightarrow> string \<Rightarrow> mms_attachment_info list \<Rightarrow> files
       \<Rightarrow> (mms_attachment_object list option \<times> bool \<times> files) outcome" where
  "mms_task_encode_prepare_attachments ae dir parts fs =
     bind_outcome (prepare_loop ae dir parts fs)
       (\<lambda>(ats, done, fs).
         case smil_index ats of
           Some i \<Rightarrow> Ret (Some (if done then to_front i ats else ats), \<not> done, fs)
         | None \<Rightarrow>
             if done
             then bind_outcome (mms_attachment_new_smil ae (mms_task_encode_generate_path fs dir ''smil'' None) ats fs)
               (\<lambda>(smil, fs). case smil of
                   None \<Rightarrow> Ret (None, True, fs)
                 | Some a \<Rightarrow> Ret (Some (a # ats), False, fs))
             else Ret (None, True, fs))"

definition mms_task_encode_prepare_address_list :: "string option \<Rightarrow> string option" where
  "mms_task_encode_prepare_address_list s =
     (if nonempty s
      then if CHR '','' \<in> set (the s)
        then Some (join_with '','' (List.map_filter (\<lambda>a. mms_address_normalize (Some a)) (g_strsplit (the s) CHR '','')))
        else mms_address_normalize s
      else None)"

text \<open>\<open>None\<close> is the NULL that is returned with an error; the \<^typ>\<open>bool\<close> tells whether an error was set
  together with a task.\<close>

definition mms_task_encode_new ::
    "('it, 'mi) transfer_env \<Rightarrow> attachment_env \<Rightarrow> (string \<Rightarrow> string option) \<Rightarrow> u32 \<Rightarrow> int \<Rightarrow> string option
       \<Rightarrow> string option \<Rightarrow> string option \<Rightarrow> string option \<Rightarrow> string option \<Rightarrow> string option \<Rightarrow> u32
       \<Rightarrow> mms_attachment_info list \<Rightarrow> files \<Rightarrow> task_counters
       \<Rightarrow> (('q mms_task_encode \<times> bool) option \<times> files \<times> task_counters) outcome" where
  "mms_task_encode_new te ae mkdtemp retry_secs now ident imsi to cc bcc subject send_flags parts fs cs =
     (if nonempty to
      then (case mms_task_alloc 0 retry_secs now (Some ''Encode'') ident imsi cs of
              (t, cs) \<Rightarrow>
                let t = mms_task_make_id (te_root_dir te) (te_mkdir te) mkdtemp t;
                    dir = build_filename (mms_message_dir (te_root_dir te) (t_id t)) MMS_ENCODE_DIR
                in if te_mkdir te dir
                   then bind_outcome (mms_task_encode_prepare_attachments ae dir parts fs)
                     (\<lambda>(ats, error, fs). case ats of
                         None \<Rightarrow> Ret (None, fs, mms_task_finalize cs)
                       | Some ats \<Rightarrow> Ret (Some (mms_task.extend t
                           \<lparr>e_to = mms_task_encode_prepare_address_list to,
                            e_cc = mms_task_encode_prepare_address_list cc,
                            e_bcc = mms_task_encode_prepare_address_list bcc, e_subject = subject,
                            e_send_flags = send_flags, e_parts = ats, e_active_job = None, e_jobs = 0\<rparr>, error), fs, cs))
                   else Ret (None, fs, mms_task_finalize cs))
      else Ret (None, fs, cs))"

section \<open>Lemmas: the job\<close>

definition same_parts :: "mms_attachment_object list \<Rightarrow> mms_attachment_object list \<Rightarrow> bool" where
  "same_parts = list_all2 same_part"

lemma same_parts_refl [simp]: "same_parts ps ps"
  by (simp add: same_parts_def list_all2_refl)

lemma same_parts_trans: "same_parts a b \<Longrightarrow> same_parts b c \<Longrightarrow> same_parts a c"
  unfolding same_parts_def by (rule list_all2_trans [of same_part same_part same_part]) (auto intro: same_part_trans)

lemma job_start_same: "same_parts parts (fst (job_start ae parts fs))"
proof (induction parts arbitrary: fs)
  case (Cons at parts)
  obtain at' where "mms_attachment_reset ae (at, fs) = (at', fs)" "same_part at at'"
    using reset_same [of ae at fs] by (metis surj_pair)
  then show ?case
    using Cons [of fs] by (auto simp: same_parts_def split: prod.split)
qed (simp add: same_parts_def)

lemma largest_part_index:
  "largest_part fs i l best parts = Some j \<Longrightarrow> best = Some j \<or> i \<le> j \<and> j < i + length parts"
  by (induction fs i l best parts rule: largest_part.induct) (auto split: option.splits if_splits)

lemma job_resize_same:
  assumes "mms_encode_job_resize ae px (parts, fs) = Ret (ok, parts', fs')"
  shows "same_parts parts parts'"
proof (cases "largest_part fs 0 0 None parts")
  case (Some i)
  then have i: "i < length parts"
    using largest_part_index by fastforce
  obtain at where "mms_attachment_resize ae px (parts ! i, fs) = Ret (ok, at, fs')" and p: "parts' = parts[i := at]"
    using assms Some by (auto simp: mms_encode_job_resize_def)
  then have "same_part (parts ! i) at"
    using resize_same by blast
  then have "list_all2 same_part (parts[i := parts ! i]) parts'"
    unfolding p by (intro list_all2_update_cong) (simp_all add: list_all2_refl)
  then show ?thesis
    by (simp add: same_parts_def)
qed (use assms in \<open>simp add: mms_encode_job_resize_def\<close>)

lemma encode_loop_result:
  assumes "encode_loop te ae st c t n s pdu = Ret (pdu', s')" and "mms_encode_job_encode te t (fst s) = Ret pdu"
  shows "same_parts (fst s) (fst s')
    \<and> (mms_encode_job_encode te t (fst s') = Ret pdu' \<or> too_big (limit_of st) pdu')"
  using assms
proof (induction te ae st c t n s pdu rule: encode_loop.induct)
  case (1 te ae st c t n s pdu)
  show ?case
  proof (cases "too_big (limit_of st) pdu \<and> \<not> c n")
    case True
    obtain ok s1 where r: "mms_encode_job_resize ae (pixels_of st) s = Ret (ok, s1)"
      and loop: "(if ok
          then bind_outcome (mms_encode_job_encode te t (fst s1))
            (\<lambda>pdu'. if pdu_size pdu' \<noteq> 0 \<and> pdu_size pdu' < pdu_size pdu
                     then encode_loop te ae st c t (Suc n) s1 pdu' else Ret (pdu', s1))
          else Ret (pdu, s1)) = Ret (pdu', s')"
      using 1(2) True by (subst (asm) encode_loop.simps) auto
    have same: "same_parts (fst s) (fst s1)"
      using job_resize_same [of ae _ "fst s" "snd s" ok "fst s1" "snd s1"] r by simp
    show ?thesis
    proof (cases ok)
      case ok: True
      obtain pdu1 where e: "mms_encode_job_encode te t (fst s1) = Ret pdu1"
        and rest: "(if pdu_size pdu1 \<noteq> 0 \<and> pdu_size pdu1 < pdu_size pdu
                     then encode_loop te ae st c t (Suc n) s1 pdu1 else Ret (pdu1, s1)) = Ret (pdu', s')"
        using loop ok by auto
      show ?thesis
      proof (cases "pdu_size pdu1 \<noteq> 0 \<and> pdu_size pdu1 < pdu_size pdu")
        case smaller: True
        have "same_parts (fst s1) (fst s')
            \<and> (mms_encode_job_encode te t (fst s') = Ret pdu' \<or> too_big (limit_of st) pdu')"
          by (rule 1(1) [OF True ok smaller]) (use rest smaller e in simp_all)
        then show ?thesis
          using same same_parts_trans by blast
      qed (use rest e same in auto)
    qed (use loop True same in auto)
  qed (use 1(2,3) in \<open>subst (asm) encode_loop.simps, auto\<close>)
qed

section \<open>Lemmas: preparing\<close>

lemma smil_index_Some:
  "smil_index ats = Some i \<Longrightarrow> i < length ats \<and> is_smil (ats ! i) \<and> (\<forall>j<i. \<not> is_smil (ats ! j))"
  by (induction ats arbitrary: i) (auto split: if_splits simp: nth_Cons split: nat.splits)

lemma smil_index_None: "smil_index ats = None \<longleftrightarrow> (\<forall>a\<in>set ats. \<not> is_smil a)"
  by (induction ats) auto

text \<open>An attachment made of a part.\<close>

definition made_of :: "attachment_env \<Rightarrow> mms_attachment_info \<Rightarrow> mms_attachment_object \<Rightarrow> bool" where
  "made_of ae part at \<longleftrightarrow>
     ao_content_id at = (if nonempty (ai_content_id part) then the (ai_content_id part) else ao_content_location at)
     \<and> ao_content_location at = basename (ao_original_file at)
     \<and> (ao_type at \<noteq> MMS_TYPE_ATTACHMENT_TEXT \<or> \<not> ae_convert_to_utf8 ae \<longrightarrow> ao_map at = Some (ai_data part))"

lemma prepare_attachment_made:
  assumes "prepare_attachment ae dir part fs = Ret (Some at, fs')"
  shows "made_of ae part at"
proof -
  obtain path fs1 where "mms_attachment_new ae (part\<lparr>ai_file_name := path\<rparr>) fs1 = Ret (at, fs')"
    using assms by (auto simp: prepare_attachment_def Let_def split: if_splits)
  from attachment_new_fields [OF this] show ?thesis
    by (simp add: made_of_def)
qed

lemma prepare_loop_made:
  "prepare_loop ae dir parts fs = Ret (ats, done, fs')
   \<Longrightarrow> list_all2 (made_of ae) (take (length ats) parts) ats \<and> (done \<longleftrightarrow> length ats = length parts)"
proof (induction parts arbitrary: fs ats)
  case (Cons part parts)
  obtain at fs1 where p: "prepare_attachment ae dir part fs = Ret (at, fs1)"
    and rest: "(case at of None \<Rightarrow> Ret ([], False, fs1)
         | Some a \<Rightarrow> bind_outcome (prepare_loop ae dir parts fs1)
             (\<lambda>(ats, done, fs). Ret (a # ats, done, fs))) = Ret (ats, done, fs')"
    using Cons.prems by auto
  show ?case
  proof (cases at)
    case (Some a)
    then obtain ats1 where "prepare_loop ae dir parts fs1 = Ret (ats1, done, fs')" "ats = a # ats1"
      using rest by auto
    then show ?thesis
      using Cons.IH prepare_attachment_made [OF p [unfolded Some]] by auto
  qed (use rest in auto)
qed simp

lemma smil_header_parses:
  "mms_parse_http_content_type (SMIL_CONTENT_TYPE @ ''; '' @ CONTENT_TYPE_PARAM_CHARSET @ ''='' @ MMS_DEFAULT_CHARSET)
     = Some [SMIL_CONTENT_TYPE, CONTENT_TYPE_PARAM_CHARSET, MMS_DEFAULT_CHARSET]"
  by code_simp

lemma new_smil_is_smil:
  assumes "mms_attachment_new_smil ae path ats fs = Ret (Some at, fs')"
  shows "is_smil at \<and> ao_content_id at = SMIL_CONTENT_ID \<and> ao_map at = Some (bytes_of (mms_attachment_write_smil ats))"
proof -
  let ?ct = "SMIL_CONTENT_TYPE @ ''; '' @ CONTENT_TYPE_PARAM_CHARSET @ ''='' @ MMS_DEFAULT_CHARSET"
  let ?info = "\<lparr>ai_data = bytes_of (mms_attachment_write_smil ats), ai_file_name = path,
    ai_content_type = Some ?ct, ai_content_id = Some SMIL_CONTENT_ID\<rparr>"
  obtain fs1 where new: "mms_attachment_new ae ?info fs1 = Ret (at, fs')"
    using assms by (auto simp: mms_attachment_new_smil_def Let_def split: if_splits)
  have ct: "hd (attachment_ct ae ?info) = SMIL_CONTENT_TYPE"
    using attachment_ct_given [of ?info] smil_header_parses by (simp add: nonempty_def SMIL_CONTENT_TYPE_def)
  have "media_attachment_type SMIL_CONTENT_TYPE = MMS_TYPE_ATTACHMENT"
    by (simp add: media_attachment_type_def)
  then show ?thesis
    using attachment_new_fields [OF new] ct by (simp add: nonempty_def SMIL_CONTENT_ID_def)
qed

section \<open>The task keeps the contract\<close>

definition encode_ok :: "('q, 'a) mms_task_encode_scheme \<Rightarrow> bool" where
  "encode_ok t \<longleftrightarrow> timer_ok t \<and> t_state t \<in>
     {MMS_TASK_STATE_READY, MMS_TASK_STATE_WORKING, MMS_TASK_STATE_SLEEP, MMS_TASK_STATE_DONE}
     \<and> (t_state t = MMS_TASK_STATE_WORKING \<longrightarrow> e_active_job t \<noteq> None)
     \<and> (e_active_job t \<noteq> None \<longrightarrow> t_state t = MMS_TASK_STATE_WORKING \<or> t_state t = MMS_TASK_STATE_DONE)"

lemma encode_fields [simp]:
  "e_active_job (tell c t) = e_active_job t" "e_active_job (store_state st t) = e_active_job t"
  "e_active_job (snd (mms_task_schedule_wakeup now secs t)) = e_active_job t"
  "e_active_job (mms_task_cancel_cb now t) = e_active_job t"
  "e_jobs (tell c t) = e_jobs t" "e_jobs (store_state st t) = e_jobs t"
  by (simp_all add: tell_def store_state_def mms_task_schedule_wakeup_def cancel_cb_eq Let_def)

lemma encode_run_kept:
  assumes "encode_ok t" and "t_state t = MMS_TASK_STATE_READY"
  shows "kept encode_ok t (mms_task_encode_run thread_ok now t)"
    and "t_state (mms_task_encode_run thread_ok now t) \<noteq> MMS_TASK_STATE_READY"
proof -
  have t: "\<not> t_wakeup_id t" "e_active_job t = None"
    using assms by (auto simp: encode_ok_def timer_ok_def)
  show "kept encode_ok t (mms_task_encode_run thread_ok now t)"
  proof (cases thread_ok)
    case True
    then show ?thesis
      using t by (auto simp: mms_task_encode_run_def Let_def set_state_awake kept_def encode_ok_def timer_ok_def
          same_task_def extends_def store_state_calls)
  next
    case False
    then show ?thesis
      using t by (auto simp: mms_task_encode_run_def mms_task_retry_def sleep_eq kept_def encode_ok_def timer_ok_def
          intro: extends_ops)
  qed
  show "t_state (mms_task_encode_run thread_ok now t) \<noteq> MMS_TASK_STATE_READY"
    by (simp add: mms_task_encode_run_def Let_def set_state_awake mms_task_retry_def sleep_eq)
qed

lemma encode_cancel_kept:
  "encode_ok t \<Longrightarrow> kept encode_ok t (mms_task_encode_cancel now t)"
  "t_state (mms_task_encode_cancel now t) = MMS_TASK_STATE_DONE" "cancelled (mms_task_encode_cancel now t)"
  by (auto simp: mms_task_encode_cancel_def kept_def encode_ok_def timer_ok_def)

lemma encode_wakeup_kept:
  "encode_ok t \<Longrightarrow> t_wakeup_id t \<Longrightarrow> kept encode_ok t (mms_task_wakeup_callback c now t)"
  by (auto simp: mms_task_wakeup_callback_def set_state_awake kept_def encode_ok_def timer_ok_def
      same_task_def extends_def store_state_calls)

lemma encode_job_done_kept:
  assumes "encode_ok t"
  shows "kept encode_ok t (mms_task_encode_job_done now job st octets t)"
proof (cases "e_active_job t = Some job")
  case True
  define u where "u = (if st = MMS_ENCODE_STATE_DONE
      then snd (mms_task_queue_and_unref (Some (mms_task_send_new (t\<lparr>e_active_job := None\<rparr>) octets)) (t\<lparr>e_active_job := None\<rparr>))
      else tell (Message_Send_State_Changed (t_id t)
             (if st = MMS_ENCODE_STATE_TOO_BIG then MMS_SEND_STATE_TOO_BIG else MMS_SEND_STATE_SEND_ERROR) None)
             (t\<lparr>e_active_job := None\<rparr>))"
  have run: "mms_task_encode_job_done now job st octets t = store_state MMS_TASK_STATE_DONE u"
    using True by (simp add: mms_task_encode_job_done_def u_def Let_def set_state_done)
  have "\<not> t_wakeup_id t"
    using assms True by (auto simp: encode_ok_def timer_ok_def)
  moreover have "t_wakeup_id u = t_wakeup_id t" "e_active_job u = None" "same_task t u" "extends t u"
    by (auto simp: u_def same_task_def extends_def queue_and_unref_eq)
  ultimately show ?thesis
    unfolding run by (auto simp: kept_def encode_ok_def timer_ok_def intro: extends_ops)
qed (use assms in \<open>simp add: mms_task_encode_job_done_def kept_refl\<close>)

lemma encode_ok_local:
  "encode_ok t \<Longrightarrow> timer_ok t \<and> \<not> needs_connection t \<and> t_state t \<noteq> MMS_TASK_STATE_TRANSMITTING"
  by (auto simp: encode_ok_def needs_connection_def)

interpretation encode: mms_task_contract "mms_task_encode_class thread_ok" encode_ok
    "\<lambda>c :: mms_connection. c_state c = MMS_CONNECTION_STATE_OPEN" for thread_ok
  by unfold_locales
     (simp_all add: encode_ok_local mms_task_encode_class_def encode_run_kept encode_cancel_kept encode_wakeup_kept)

lemma encode_event_kept: "encode_event t t' \<Longrightarrow> encode_ok t \<Longrightarrow> kept encode_ok t t'"
  by (erule encode_event.cases) (auto intro: encode.step_kept encode_job_done_kept)

section \<open>Properties\<close>

text \<open>C15. The encoding job always comes to an end. It ends well only with a message that is not empty and not
  larger than the limit (a limit of zero is none), which is the encoding of the parts as they are then:
  the same parts in the same order, with the same types, ids and names, and no other than images changed.
  Otherwise no file is left, and the message was too big or could not be encoded.\<close>

theorem encode_job_result:
  assumes "mms_encode_job_run te ae st cancelled_at t fs = Ret (state, pdu, parts, fs')"
  shows "same_parts (e_parts t) parts
    \<and> (state = MMS_ENCODE_STATE_DONE \<longrightarrow>
         (\<exists>octets. pdu = Some octets \<and> octets \<noteq> [] \<and> (limit_of st = 0 \<or> length octets \<le> unat (limit_of st))
            \<and> mms_encode_job_encode te t parts = Ret (Some octets)))
    \<and> (state \<noteq> MMS_ENCODE_STATE_DONE \<longrightarrow>
         pdu = None \<and> state \<in> {MMS_ENCODE_STATE_TOO_BIG, MMS_ENCODE_STATE_ERROR})"
proof -
  let ?s = "job_start ae (e_parts t) fs"
  obtain pdu0 pdu1 s1 where e: "mms_encode_job_encode te t (fst ?s) = Ret pdu0"
    and loop: "encode_loop te ae st cancelled_at t 0 ?s pdu0 = Ret (pdu1, s1)"
    and rest: "(if pdu_size pdu1 > 0 \<and> \<not> too_big (limit_of st) pdu1 then Ret (MMS_ENCODE_STATE_DONE, pdu1, s1)
      else Ret (if pdu_size pdu1 > 0 then MMS_ENCODE_STATE_TOO_BIG else MMS_ENCODE_STATE_ERROR, None, s1))
      = Ret (state, pdu, parts, fs')"
    using assms by (auto simp: mms_encode_job_run_def Let_def)
  note result = encode_loop_result [OF loop e]
  have "same_parts (e_parts t) (fst s1)"
    using result job_start_same same_parts_trans by blast
  moreover have "fst s1 = parts"
    using rest by (auto split: if_splits)
  ultimately show ?thesis
    using rest result by (auto simp: pdu_size_def too_big_def split: if_splits option.splits)
qed

definition sample_encode_task :: "unit mms_task_request mms_task_encode" where
  "sample_encode_task = mms_task.extend
     ((fst (mms_task_alloc 0 15 1000 (Some ''Encode'') (Some ''12'') (Some ''244'')
        \<lparr>mms_task_order = 0, mms_task_count = 0\<rparr>))\<lparr>t_delegate := True, t_state := MMS_TASK_STATE_WORKING\<rparr>)
     \<lparr>e_to = Some ''+358/TYPE=PLMN'', e_cc = None, e_bcc = None, e_subject = None, e_send_flags = 0,
      e_parts = [\<lparr>ao_type = MMS_TYPE_ATTACHMENT, ao_original_file = ''/m/smil'', ao_file_name = ''/m/smil'',
        ao_content_type = Some ''application/smil'', ao_content_id = ''smil'', ao_content_location = ''smil'',
        ao_map = Some [60], ao_flags = MMS_ATTACHMENT_SMIL, ao_utf8file = None, ao_resize_step = 0,
        ao_resized = None\<rparr>], e_active_job = Some 0, e_jobs = 1\<rparr>"

lemma sample_encoded:
  "(case mms_encode_job_encode sample_te sample_encode_task (e_parts sample_encode_task) of
      Undef \<Rightarrow> False | Ret pdu \<Rightarrow> 0 < pdu_size pdu \<and> pdu_size pdu < 1000)"
  by code_simp

theorem encode_job_result_witness:
  "\<exists>octets parts fs. mms_encode_job_run sample_te sample_ae None (\<lambda>_. False) sample_encode_task Map.empty
       = Ret (MMS_ENCODE_STATE_DONE, Some octets, parts, fs)
     \<and> octets \<noteq> [] \<and> length octets \<le> 307200"
proof -
  let ?parts = "e_parts sample_encode_task"
  obtain pdu where e: "mms_encode_job_encode sample_te sample_encode_task ?parts = Ret pdu"
    and size: "0 < pdu_size pdu" "pdu_size pdu < 1000"
    using sample_encoded by (auto split: outcome.splits)
  have "job_start sample_ae ?parts Map.empty = (?parts, Map.empty)"
    by (simp add: sample_encode_task_def mms_task.defs mms_attachment_reset_def is_image_def)
  moreover have "\<not> too_big (limit_of None) pdu"
    using size by (simp add: too_big_def limit_of_def MMS_SETTINGS_DEFAULT_SIZE_LIMIT_def)
  then have "encode_loop sample_te sample_ae None (\<lambda>_. False) sample_encode_task 0 (?parts, Map.empty) pdu
      = Ret (pdu, ?parts, Map.empty)"
    by (subst encode_loop.simps) simp
  ultimately have run: "mms_encode_job_run sample_te sample_ae None (\<lambda>_. False) sample_encode_task Map.empty
      = Ret (MMS_ENCODE_STATE_DONE, pdu, ?parts, Map.empty)"
    using e size \<open>\<not> too_big (limit_of None) pdu\<close> by (simp add: mms_encode_job_run_def)
  from encode_job_result [OF run] obtain octets where "pdu = Some octets" "octets \<noteq> []"
      "limit_of None = 0 \<or> length octets \<le> unat (limit_of None)"
    by auto
  with run show ?thesis
    by (auto simp: limit_of_def MMS_SETTINGS_DEFAULT_SIZE_LIMIT_def)
qed

text \<open>When all attachments can be prepared, the first one of the message is SMIL: the first SMIL attachment
  given, moved to the front, or one made for the others; the rest are the attachments given, in order.\<close>

theorem attachments_prepared:
  assumes "mms_task_encode_prepare_attachments ae dir parts fs = Ret (Some ats, False, fs')"
  shows "ats \<noteq> [] \<and> is_smil (hd ats)
    \<and> (\<exists>made. list_all2 (made_of ae) parts made
        \<and> (if list_ex is_smil made
           then \<exists>i<length made. ats = to_front i made \<and> is_smil (made ! i) \<and> (\<forall>j<i. \<not> is_smil (made ! j))
           else tl ats = made \<and> ao_map (hd ats) = Some (bytes_of (mms_attachment_write_smil made))))"
proof -
  obtain made all_made fs1 where loop: "prepare_loop ae dir parts fs = Ret (made, all_made, fs1)"
    and rest: "(case smil_index made of
           Some i \<Rightarrow> Ret (Some (if all_made then to_front i made else made), \<not> all_made, fs1)
         | None \<Rightarrow>
             if all_made
             then bind_outcome (mms_attachment_new_smil ae (mms_task_encode_generate_path fs1 dir ''smil'' None) made fs1)
               (\<lambda>(smil, fs). case smil of None \<Rightarrow> Ret (None, True, fs) | Some a \<Rightarrow> Ret (Some (a # made), False, fs))
             else Ret (None, True, fs1)) = Ret (Some ats, False, fs')"
    using assms by (auto simp: mms_task_encode_prepare_attachments_def)
  have "all_made"
    using rest by (auto split: option.splits if_splits)
  then have all: "list_all2 (made_of ae) parts made"
    using prepare_loop_made [OF loop] by simp
  show ?thesis
  proof (cases "smil_index made")
    case (Some i)
    then have "ats = to_front i made"
      using rest \<open>all_made\<close> by simp
    moreover have "list_ex is_smil made"
      using smil_index_None [of made] Some by (auto simp: list_ex_iff)
    ultimately show ?thesis
      using smil_index_Some [OF Some] all by (auto simp: to_front_def)
  next
    case None
    then obtain a fs2 where "mms_attachment_new_smil ae (mms_task_encode_generate_path fs1 dir ''smil'' None) made fs1 = Ret (Some a, fs2)"
      and "ats = a # made"
      using rest \<open>all_made\<close> by (auto split: option.splits)
    then show ?thesis
      using new_smil_is_smil all None smil_index_None [of made] by (auto simp: list_ex_iff)
  qed
qed

text \<open>A SMIL file and a text; the second can be written or not.\<close>

definition sample_parts :: "mms_attachment_info list" where
  "sample_parts =
     [\<lparr>ai_data = [84], ai_file_name = ''/tmp/a.txt'', ai_content_type = Some ''text/plain'', ai_content_id = None\<rparr>,
      \<lparr>ai_data = [60], ai_file_name = ''/tmp/b'', ai_content_type = Some ''application/smil'', ai_content_id = None\<rparr>]"

lemma sample_prepared:
  "(case mms_task_encode_prepare_attachments sample_ae ''/m'' sample_parts Map.empty of
      Undef \<Rightarrow> False
    | Ret (ats, error, fs) \<Rightarrow> \<not> error \<and> map_option (map ao_content_location) ats = Some [''b'', ''a.txt''])"
  by code_simp

theorem attachments_prepared_witness:
  "\<exists>ats fs. mms_task_encode_prepare_attachments sample_ae ''/m'' sample_parts Map.empty = Ret (Some ats, False, fs)
     \<and> is_smil (hd ats) \<and> map ao_content_location ats = [''b'', ''a.txt'']"
proof -
  obtain ats fs where p: "mms_task_encode_prepare_attachments sample_ae ''/m'' sample_parts Map.empty
      = Ret (Some ats, False, fs)" and names: "map ao_content_location ats = [''b'', ''a.txt'']"
    using sample_prepared by (auto split: outcome.splits prod.splits)
  from attachments_prepared [OF p] have "is_smil (hd ats)"
    by simp
  with p names show ?thesis
    by (intro exI conjI)
qed

text \<open>If an attachment cannot be copied after a SMIL attachment was, the message is nevertheless made of the
  attachments before it, and an error is set as well.\<close>

theorem missing_attachment_unnoticed:
  assumes "prepare_loop ae dir parts fs = Ret (ats, False, fs')" and "a \<in> set ats" and "is_smil a"
  shows "mms_task_encode_prepare_attachments ae dir parts fs = Ret (Some ats, True, fs')
    \<and> length ats < length parts"
proof -
  obtain i where "smil_index ats = Some i"
    using assms(2,3) smil_index_None [of ats] by auto
  moreover have "length ats \<noteq> length parts" "length ats = length (take (length ats) parts)"
    using prepare_loop_made [OF assms(1)] by (auto dest: list_all2_lengthD)
  ultimately show ?thesis
    using assms(1) by (simp add: mms_task_encode_prepare_attachments_def)
qed

definition failing_ae :: attachment_env where
  "failing_ae = sample_ae\<lparr>ae_can_write := (\<lambda>f. f = ''/m/b'')\<rparr>"

lemma sample_partial:
  "(case prepare_loop failing_ae ''/m'' (rev sample_parts) Map.empty of
      Undef \<Rightarrow> False
    | Ret (ats, complete, fs) \<Rightarrow> \<not> complete \<and> list_ex is_smil ats)"
  by code_simp

theorem missing_attachment_unnoticed_witness:
  "\<exists>ats fs. mms_task_encode_prepare_attachments failing_ae ''/m'' (rev sample_parts) Map.empty
      = Ret (Some ats, True, fs) \<and> length ats < 2"
proof -
  obtain ats fs where "prepare_loop failing_ae ''/m'' (rev sample_parts) Map.empty = Ret (ats, False, fs)"
    and "list_ex is_smil ats"
    using sample_partial by (auto split: outcome.splits prod.splits)
  then obtain a where "a \<in> set ats" "is_smil a"
    and p: "prepare_loop failing_ae ''/m'' (rev sample_parts) Map.empty = Ret (ats, False, fs)"
    by (auto simp: list_ex_iff)
  from missing_attachment_unnoticed [OF p this(1,2)] show ?thesis
    by (simp add: sample_parts_def)
qed

text \<open>Cancelling an encode task does not stop it from sending: as long as it is in the queue, the end of
  the job still queues the task that sends the message.\<close>

theorem cancelled_encode_sends:
  assumes "e_active_job t = Some job" and "t_delegate t"
    and "t' = mms_task_encode_job_done now' job MMS_ENCODE_STATE_DONE octets (mms_task_encode_cancel now t)"
  shows "t_state (mms_task_encode_cancel now t) = MMS_TASK_STATE_DONE
    \<and> tasks_queued (told_since (mms_task_encode_cancel now t) t') = [mms_task_send_new t octets]"
  using assms
  by (simp add: mms_task_encode_job_done_def mms_task_encode_cancel_def set_state_done told_since_def
      mms_task_queue_and_unref_def store_state_calls mms_task_send_new_def)

theorem cancelled_encode_sends_witness:
  "tasks_queued (told_since (mms_task_encode_cancel 1001 sample_encode_task)
     (mms_task_encode_job_done 1002 0 MMS_ENCODE_STATE_DONE [140] (mms_task_encode_cancel 1001 sample_encode_task)))
     = [mms_task_send_new sample_encode_task [140]]"
  using cancelled_encode_sends [of sample_encode_task 0, OF _ _ refl, where now = 1001 and now' = 1002 and octets = "[140]"]
  by (simp add: sample_encode_task_def mms_task.defs)

text \<open>The recipients survive the preparation of an address list: split again and without their types, they
  are the addresses of the given list in order, without the blank ones.\<close>

theorem recipients_survive:
  "mms_split_address_list (mms_task_encode_prepare_address_list (Some s)) =
     map (\<lambda>a. the (mms_strip_address_type (Some a))) (filter (\<lambda>a. strstrip a \<noteq> []) (g_strsplit s CHR '',''))"
proof -
  let ?norm = "\<lambda>a. mms_address_normalize (Some a)" and ?strip = "\<lambda>a. the (mms_strip_address_type (Some a))"
  define parts where "parts = List.map_filter ?norm (g_strsplit s CHR '','')"
  have no_comma: "CHR '','' \<notin> set p" if p: "p \<in> set parts" for p
  proof -
    obtain a where a: "a \<in> set (g_strsplit s CHR '','')" "?norm a = Some p"
      using p by (auto simp: parts_def List.map_filter_def)
    then have "CHR '','' \<notin> set a"
      by (auto simp: g_strsplit_def dest: split_at_char_no_delim split: if_splits)
    then show ?thesis
      using normalize_no_char [OF a(2)] by simp
  qed
  have nonempty_parts: "p \<noteq> []" if "p \<in> set parts" for p
    using that by (auto simp: parts_def List.map_filter_def mms_address_normalize_def Let_def split: if_splits)
  have stripped: "map ?strip parts = map ?strip (filter (\<lambda>a. strstrip a \<noteq> []) xs)"
    if "parts = List.map_filter ?norm xs" for xs
    using that
  proof (induction xs arbitrary: parts)
    case (Cons a xs)
    then show ?case
      using normalize_None [of a] strip_normalize [of a]
      by (cases "?norm a") (auto simp: map_filter_simps)
  qed (simp add: map_filter_simps)
  show ?thesis
  proof (cases "CHR '','' \<in> set s")
    case True
    then have prep: "mms_task_encode_prepare_address_list (Some s) = Some (join_with '','' parts)"
      by (auto simp: mms_task_encode_prepare_address_list_def nonempty_def parts_def)
    show ?thesis
    proof (cases "parts = []")
      case True
      then show ?thesis
        using stripped [OF parts_def] prep by (simp add: mms_split_address_list_def nonempty_def)
    next
      case False
      then have "join_with '','' parts \<noteq> []"
        using nonempty_parts by (cases parts; cases "tl parts") auto
      moreover have "split_at_char CHR '','' (join_with '','' parts) = parts"
        using False no_comma by (intro split_at_char_join) auto
      ultimately show ?thesis
        using stripped [OF parts_def] prep by (simp add: mms_split_address_list_def nonempty_def g_strsplit_def)
    qed
  next
    case False
    then have split: "g_strsplit s CHR '','' = (if s = [] then [] else [s])"
      by (simp add: g_strsplit_def split_at_char_single)
    show ?thesis
    proof (cases "?norm s")
      case None
      then show ?thesis
        using False normalize_None [of s] split
        by (simp add: mms_task_encode_prepare_address_list_def mms_split_address_list_def nonempty_def)
    next
      case (Some b)
      then have "b \<noteq> []" "CHR '','' \<notin> set b" "s \<noteq> []" "strstrip s \<noteq> []"
        using False normalize_no_char [OF Some] normalize_None [of s]
        by (auto simp: mms_address_normalize_def Let_def strstrip_def strip_left_def strip_right_def split: if_splits)
      then show ?thesis
        using False Some split strip_normalize [OF Some]
        by (simp add: mms_task_encode_prepare_address_list_def mms_split_address_list_def nonempty_def
            g_strsplit_def split_at_char_single)
    qed
  qed
qed

end
