(* ===== verification/Task_Queueing.thy ===== *)
theory Task_Queueing
  imports Task_Local Task_Encode
begin

text \<open>
  What the dispatcher relies on beyond the contract of a task class: how much work a task adds to the queue
  when the dispatcher calls one of its virtual functions. Cancelling, losing the network and transmitting
  add nothing; of the tasks that can be run, decode adds the most (a reply to the MMSC and a publish task).

  A request weighs at least what its task can make the dispatcher do before it waits for something.
\<close>

section \<open>The decode task keeps the contract\<close>

definition decode_ok :: "('q, 'a) mms_task_decode_scheme \<Rightarrow> bool" where
  "decode_ok t \<longleftrightarrow> timer_ok t \<and> (t_state t = MMS_TASK_STATE_READY \<or> t_state t = MMS_TASK_STATE_DONE)"

text \<open>All that processing the PDU does to the task is to report.\<close>

definition only_tells :: "('q, 'a) mms_task_scheme \<Rightarrow> ('q, 'a) mms_task_scheme \<Rightarrow> bool" where
  "only_tells t u \<longleftrightarrow> (\<exists>cs. u = t\<lparr>t_calls := t_calls t @ cs\<rparr>)"

lemma only_tells_refl: "only_tells t t"
  by (auto simp: only_tells_def intro: exI [of _ "[]"])

lemma only_tells_tell: "only_tells t u \<Longrightarrow> only_tells t (tell c u)"
  by (auto simp: only_tells_def tell_def)

lemma only_tells_queue: "only_tells t u \<Longrightarrow> only_tells t (snd (mms_task_queue_and_unref q u))"
  by (auto simp: mms_task_queue_and_unref_def only_tells_tell split: option.split)

lemmas only_tells_intros = only_tells_refl only_tells_tell only_tells_queue

lemma process_pdu_tells: "only_tells t (fst (mms_task_decode_process_pdu te fe keep now fs t))"
  by (simp add: mms_task_decode_process_pdu_def Let_def only_tells_intros split: option.split prod.split)

lemma decode_run_kept:
  assumes "decode_ok t"
  shows "kept decode_ok t (mms_task_decode_run te fe keep fs now t)"
    and "t_state (mms_task_decode_run te fe keep fs now t) = MMS_TASK_STATE_DONE"
proof -
  obtain cs where u: "fst (mms_task_decode_process_pdu te fe keep now fs t) = t\<lparr>t_calls := t_calls t @ cs\<rparr>"
    using process_pdu_tells [of t te fe keep now fs] by (auto simp: only_tells_def)
  have "\<not> t_wakeup_id t"
    using assms by (auto simp: decode_ok_def timer_ok_def)
  then show "kept decode_ok t (mms_task_decode_run te fe keep fs now t)"
    unfolding mms_task_decode_run_def set_state_done u
    by (auto simp: kept_def decode_ok_def timer_ok_def same_task_def extends_def store_state_calls)
  show "t_state (mms_task_decode_run te fe keep fs now t) = MMS_TASK_STATE_DONE"
    unfolding mms_task_decode_run_def set_state_done by simp
qed

lemma decode_ok_local:
  "decode_ok t \<Longrightarrow> timer_ok t \<and> \<not> needs_connection t \<and> t_state t \<noteq> MMS_TASK_STATE_TRANSMITTING
     \<and> \<not> t_wakeup_id t"
  by (auto simp: decode_ok_def needs_connection_def timer_ok_def)

lemma decode_cancel_kept: "decode_ok t \<Longrightarrow> kept decode_ok t (mms_task_cancel_cb now t)"
  by (auto simp: kept_def decode_ok_def timer_ok_def)

interpretation decode: mms_task_contract "mms_task_decode_class te fe keep fs" decode_ok
    "\<lambda>c :: mms_connection. c_state c = MMS_CONNECTION_STATE_OPEN" for te fe keep fs
  by unfold_locales
     (simp_all add: decode_ok_local mms_task_decode_class_def decode_run_kept decode_cancel_kept)

section \<open>Weights\<close>

definition request_weight :: "'m mms_task_request \<Rightarrow> nat" where
  "request_weight rq =
     (case rq_kind rq of Http_Task _ _ _ _ _ \<Rightarrow> 3 | Decode_Task _ _ \<Rightarrow> 7 | Publish_Task _ \<Rightarrow> 2)"

definition queued_weight :: "('m mms_task_request, 'a) mms_task_scheme \<Rightarrow> nat" where
  "queued_weight t = sum_list (map request_weight (tasks_queued (t_calls t)))"

lemma request_weight_pos [simp]: "request_weight rq \<noteq> 0"
  by (simp add: request_weight_def split: task_kind.split)

lemma queued_weight_told:
  "extends t u \<Longrightarrow>
   queued_weight u = queued_weight t + sum_list (map request_weight (tasks_queued (told_since t u)))"
  by (auto simp: extends_def queued_weight_def told_since_def)

lemma queues_nothing:
  assumes "extends t u" and "queued_weight u = queued_weight t"
  shows "tasks_queued (told_since t u) = []"
proof -
  have "sum_list (map request_weight (tasks_queued (told_since t u))) = 0"
    using queued_weight_told [OF assms(1)] assms(2) by simp
  moreover have "sum_list (map request_weight rs) = 0 \<Longrightarrow> rs = []" for rs :: "'a mms_task_request list"
    by (cases rs) auto
  ultimately show ?thesis by blast
qed

lemma queued_weight_ops [simp]:
  "queued_weight (store_state st t) = queued_weight t"
  "queued_weight (snd (mms_task_schedule_wakeup now secs t)) = queued_weight t"
  "queued_weight (mms_task_cancel_cb now t) = queued_weight t"
  "queued_weight (tell c t) = queued_weight t + (case c of Task_Queued q \<Rightarrow> request_weight q | _ \<Rightarrow> 0)"
  by (auto simp: queued_weight_def store_state_calls cancel_cb_calls split: task_call.split)

lemma queued_weight_set_state [simp]:
  "(\<And>u. queued_weight (c u) = queued_weight u)
   \<Longrightarrow> queued_weight (mms_task_set_state c now st t) = queued_weight t"
  by (cases "st = MMS_TASK_STATE_SLEEP")
     (auto simp: set_state_sleep_eq set_state_awake)

lemma queued_weight_retry [simp]: "queued_weight (snd (mms_task_retry c now t)) = queued_weight t"
  by (simp add: mms_task_retry_def sleep_eq)

lemma queued_weight_queue:
  "(\<And>r. q = Some r \<Longrightarrow> request_weight r \<le> n)
   \<Longrightarrow> queued_weight (snd (mms_task_queue_and_unref q t)) \<le> queued_weight t + n"
  by (simp add: mms_task_queue_and_unref_def split: option.split)

section \<open>The local tasks\<close>

lemma queued_weight_updates [simp]:
  "queued_weight (t1\<lparr>n_notify := b\<rparr>) = queued_weight t1" "queued_weight (t1\<lparr>n_files := fs\<rparr>) = queued_weight t1"
  "queued_weight (t2\<lparr>pb_call := b\<rparr>) = queued_weight t2"
  "queued_weight (t3\<lparr>e_active_job := j\<rparr>) = queued_weight t3"
  "queued_weight (t3\<lparr>e_active_job := j, e_jobs := n\<rparr>) = queued_weight t3"
  "queued_weight (t\<lparr>t_deadline := i\<rparr>) = queued_weight t"
  by (simp_all add: queued_weight_def)

lemma confirmation_weight:
  "queued_weight (snd (mms_task_queue_and_unref (mms_task_ack_new te p tid) t)) \<le> queued_weight t + 3"
  "queued_weight (snd (mms_task_queue_and_unref (mms_task_notifyresp_new te p tid ns) t)) \<le> queued_weight t + 3"
  "queued_weight (snd (mms_task_queue_and_unref (mms_task_publish_new m) t')) \<le> queued_weight t' + 2"
  by (rule queued_weight_queue;
      force simp: mms_task_ack_new_def mms_task_notifyresp_new_def mms_task_publish_new_def request_weight_def
        split: option.splits)+

lemma decode_queues: "queued_weight (mms_task_decode_run te fe keep fs now t) \<le> queued_weight t + 5"
proof -
  let ?ack = "snd (mms_task_queue_and_unref (mms_task_ack_new te t (dc_transaction_id t)) t)"
  have "queued_weight (snd (mms_task_queue_and_unref (mms_task_publish_new m) ?ack)) \<le> queued_weight t + 5" for m
    using confirmation_weight(1) [of te t "dc_transaction_id t" t] confirmation_weight(3) [of m ?ack] by simp
  moreover have "queued_weight (snd (mms_task_queue_and_unref
      (mms_task_notifyresp_new te t (dc_transaction_id t) ns) t)) \<le> queued_weight t + 5" for ns
    using confirmation_weight(2) [of te t "dc_transaction_id t" ns t] by simp
  ultimately have "queued_weight (fst (mms_task_decode_process_pdu te fe keep now fs t)) \<le> queued_weight t + 5"
    by (simp add: mms_task_decode_process_pdu_def Let_def split: option.split prod.split)
  then show ?thesis
    by (simp add: mms_task_decode_run_def)
qed

lemma publish_queues [simp]:
  "queued_weight (mms_task_publish_cancel now t) = queued_weight t"
  "queued_weight (mms_task_publish_run he now t) = queued_weight t"
proof -
  show cancel: "queued_weight (mms_task_publish_cancel now t) = queued_weight t" for t
    by (simp add: mms_task_publish_cancel_def)
  show "queued_weight (mms_task_publish_run he now t) = queued_weight t"
    by (simp add: mms_task_publish_run_def Let_def cancel)
qed

lemma encode_queues [simp]:
  "queued_weight (mms_task_encode_cancel now t) = queued_weight t"
  "queued_weight (mms_task_encode_run thread_ok now t) = queued_weight t"
proof -
  show cancel: "queued_weight (mms_task_encode_cancel now t) = queued_weight t" for t
    by (simp add: mms_task_encode_cancel_def)
  show "queued_weight (mms_task_encode_run thread_ok now t) = queued_weight t"
    by (simp add: mms_task_encode_run_def Let_def cancel mms_task_retry_def sleep_eq)
qed

lemma make_id_weight [simp]: "queued_weight (notification_make_id te he t) = queued_weight t"
  by (simp add: queued_weight_def)

lemma notification_queues [simp]:
  "queued_weight (mms_task_notification_cancel now t) = queued_weight t"
  by (simp add: mms_task_notification_cancel_def)

lemma reject_weight: "queued_weight (mms_task_notification_reject te he t) \<le> queued_weight t + 3"
  using confirmation_weight(2) [of te "notification_make_id te he t" _ _ "notification_make_id te he t"]
  by (simp add: mms_task_notification_reject_def Let_def)

lemma write_file_weight [simp]:
  "queued_weight (mms_task_notification_write_file te he f t) = queued_weight t"
  by (simp add: mms_task_notification_write_file_def file_ops_def Let_def)

lemma notification_ind_weight: "queued_weight (mms_task_notification_ind te he now t) \<le> queued_weight t + 3"
proof -
  have ask: "queued_weight (ask_handler he t) = queued_weight t"
    by (simp add: ask_handler_def Let_def)
  obtain ok u where retry: "mms_task_retry (mms_task_notification_cancel now) now (ask_handler he t) = (ok, u)"
    by fastforce
  then have "queued_weight u = queued_weight t"
    using queued_weight_retry [of "mms_task_notification_cancel now" now "ask_handler he t"] ask by simp
  then show ?thesis
    using reject_weight [of te he u] ask
    by (simp add: mms_task_notification_ind_def Let_def retry)
qed

lemma notification_run_weight: "queued_weight (mms_task_notification_run te he now t) \<le> queued_weight t + 3"
  using notification_ind_weight [of te he now t]
  by (simp add: mms_task_notification_run_def mms_task_delivery_ind_def mms_task_read_orig_ind_def file_ops_def Let_def)

section \<open>HTTP tasks\<close>

lemma queued_weight_http [simp]:
  "queued_weight (t\<lparr>h_tx := x\<rparr>) = queued_weight t" "queued_weight (t\<lparr>h_transaction_state := s\<rparr>) = queued_weight t"
  "queued_weight (t\<lparr>h_tx := x, h_sessions := n\<rparr>) = queued_weight t"
  "queued_weight (t\<lparr>h_receive_path := p, h_received := bs\<rparr>) = queued_weight t"
  by (simp_all add: queued_weight_def)

lemma finish_weight [simp]: "queued_weight (mms_task_http_finish_transfer t) = queued_weight t"
  by (simp add: queued_weight_def)

lemma notify_weight [simp]: "queued_weight (notify_transfer st t) = queued_weight t"
  by (simp add: notify_transfer_def mms_task_http_send_progress_def Let_def split: option.split)

lemma send_done_weight [simp]: "queued_weight (mms_task_send_done te env path ss t) = queued_weight t"
  by (simp add: mms_task_send_done_def Let_def split: prod.split option.split)

lemma retrieve_done_weight [simp]:
  "\<not> status_is_successful env ss \<Longrightarrow> queued_weight (mms_task_retrieve_done te env tid path ss t) = queued_weight t"
  by (simp add: mms_task_retrieve_done_def)

lemma http_set_state_weight:
  "st \<noteq> MMS_HTTP_DONE \<or> \<not> status_is_successful env ss
   \<Longrightarrow> queued_weight (mms_task_http_set_state (class_of te env k) st ss t) = queued_weight t"
  by (cases k; cases st)
     (simp_all add: mms_task_http_set_state_def Let_def apply_opt_def plain_class_def mms_task_read_done_def)

lemma soup_status:
  "soup_laws env \<Longrightarrow> \<not> status_is_successful env (status_cancelled env)"
  "soup_laws env \<Longrightarrow> \<not> status_is_successful env (status_io_error env)"
  by (auto simp: soup_laws_def)

lemma http_cancel_weight [simp]:
  "soup_laws env \<Longrightarrow> queued_weight (mms_task_http_cancel (class_of te env k) env now t) = queued_weight t"
  by (simp add: mms_task_http_cancel_def http_set_state_weight soup_status)

lemma http_run_weight [simp]:
  "soup_laws env \<Longrightarrow> queued_weight (mms_task_http_run (class_of te env k) env now t) = queued_weight t"
  by (simp add: mms_task_http_run_def)

lemma http_unavailable_weight [simp]:
  "soup_laws env \<Longrightarrow>
   queued_weight (mms_task_http_network_unavailable (class_of te env k) env now r t) = queued_weight t"
  by (simp add: mms_task_http_network_unavailable_def)

lemma http_start_weight:
  assumes "mms_task_http_start (class_of te env k) env c t = (ok, u)"
  shows "queued_weight u = queued_weight t"
proof -
  obtain send_fd receive_fd v where files:
      "open_files env (mms_task_http_finish_transfer t) = (send_fd, receive_fd, v)"
    by (cases "open_files env (mms_task_http_finish_transfer t)") auto
  then have "queued_weight v = queued_weight t"
    by (auto simp: open_files_def Let_def split: option.splits)
  then show ?thesis
    using assms by (auto simp: mms_task_http_start_def files http_set_state_weight Let_def
        split: if_splits option.splits)
qed

lemma http_done_weight:
  "\<not> status_is_successful env ss \<Longrightarrow> hc_done (class_of te env k) = Some f
   \<Longrightarrow> queued_weight (f path ss t) = queued_weight t"
  by (cases k) (auto simp: plain_class_def mms_task_read_done_def)

lemma http_transmit_weight [simp]:
  assumes "soup_laws env"
  shows "queued_weight (mms_task_http_transmit (class_of te env k) env now c t) = queued_weight t"
proof -
  obtain ok u where start: "mms_task_http_start (class_of te env k) env c t = (ok, u)"
    by fastforce
  then show ?thesis
    using http_start_weight [OF start] http_done_weight [OF soup_status(2) [OF assms], of te k _ None u]
    by (cases ok) (auto simp: mms_task_http_transmit_def start assms split: option.split)
qed

text \<open>A task that loses the network says so.\<close>

lemma states_told_http_set_state:
  "states_told (t_calls (mms_task_http_set_state (class_of te env k) st ss t)) = states_told (t_calls t)"
  by (rule kind.http_set_state [of te env k st ss t]) simp

lemma states_told_cancel:
  "t_delegate t \<Longrightarrow> t_state t \<noteq> MMS_TASK_STATE_DONE
   \<Longrightarrow> states_told (t_calls (mms_task_http_cancel (class_of te env k) env now t))
     = states_told (t_calls t) @ [MMS_TASK_STATE_DONE]"
  by (simp add: mms_task_http_cancel_def cancel_cb_calls states_told_http_set_state kind.http_set_state_fields)

lemma http_unavailable_told:
  assumes "t_delegate t" and "needs_connection t \<or> t_state t = MMS_TASK_STATE_TRANSMITTING"
    and "extends t (mms_task_http_network_unavailable (class_of te env k) env now r t)"
  shows "states_told (told_since t (mms_task_http_network_unavailable (class_of te env k) env now r t)) \<noteq> []"
proof -
  have "t_state t \<noteq> MMS_TASK_STATE_DONE" "t_state t \<noteq> MMS_TASK_STATE_SLEEP"
    using assms(2) by (auto simp: needs_connection_def)
  then have "states_told (t_calls (mms_task_http_network_unavailable (class_of te env k) env now r t))
      \<noteq> states_told (t_calls t)"
    using assms(1)
    by (simp add: mms_task_http_network_unavailable_def states_told_cancel set_state_sleep_eq store_state_calls)
  then show ?thesis
    using assms(3) by (auto simp: extends_def told_since_def)
qed

end
