(* ===== verification/Engine.thy ===== *)
theory Engine
  imports Dispatcher_Steps Task_Queueing
begin

text \<open>
  The dispatcher with the tasks of the library in its queue.
\<close>

section \<open>Objects\<close>

datatype 'u task_object =
    Http_Object http_kind "('u, unit) mms_task_http_ext"
  | Decode_Object "unit mms_task_decode_ext"
  | Publish_Object "unit mms_task_publish_ext"
  | Notification_Object "unit mms_task_notification_ext"
  | Encode_Object "unit mms_task_encode_ext"

type_synonym request = "mms_message_object mms_task_request"
type_synonym 'u engine_task = "(request, 'u task_object) mms_task_scheme"

definition down :: "('q, 'b) mms_task_scheme \<Rightarrow> 'x \<Rightarrow> ('q, 'x) mms_task_scheme" where
  "down t x = mms_task.extend (mms_task.truncate t) x"

definition up :: "('x \<Rightarrow> 'b) \<Rightarrow> ('q, 'x) mms_task_scheme \<Rightarrow> ('q, 'b) mms_task_scheme" where
  "up C t = mms_task.extend (mms_task.truncate t) (C (mms_task.more t))"

lemma up_fields [simp]:
  "t_priority (up C t) = t_priority t" "t_order (up C t) = t_order t" "t_name (up C t) = t_name t"
  "t_id (up C t) = t_id t" "t_imsi (up C t) = t_imsi t" "t_delegate (up C t) = t_delegate t"
  "t_state (up C t) = t_state t" "t_deadline (up C t) = t_deadline t" "t_flags (up C t) = t_flags t"
  "t_retry_secs (up C t) = t_retry_secs t" "t_wakeup_id (up C t) = t_wakeup_id t"
  "t_wakeup_time (up C t) = t_wakeup_time t" "t_calls (up C t) = t_calls t"
  "mms_task.more (up C t) = C (mms_task.more t)"
  by (simp_all add: up_def mms_task.defs)

lemma down_fields [simp]:
  "t_priority (down t x) = t_priority t" "t_order (down t x) = t_order t" "t_name (down t x) = t_name t"
  "t_id (down t x) = t_id t" "t_imsi (down t x) = t_imsi t" "t_delegate (down t x) = t_delegate t"
  "t_state (down t x) = t_state t" "t_deadline (down t x) = t_deadline t" "t_flags (down t x) = t_flags t"
  "t_retry_secs (down t x) = t_retry_secs t" "t_wakeup_id (down t x) = t_wakeup_id t"
  "t_wakeup_time (down t x) = t_wakeup_time t" "t_calls (down t x) = t_calls t"
  "mms_task.more (down t x) = x"
  by (simp_all add: down_def mms_task.defs)

lemma down_up [simp]: "down (up C t) (mms_task.more t) = t"
  by (cases t) (simp add: up_def down_def mms_task.defs)

lemma up_down: "mms_task.more t = C x \<Longrightarrow> up C (down t x) = t"
  by (cases t) (simp add: up_def down_def mms_task.defs)


lemma told_up [simp]: "told_since (up C t) (up D u) = told_since t u"
  by (simp add: told_since_def)

lemma needs_up [simp]: "needs_connection (up C t) = needs_connection t"
  by (simp add: needs_connection_def)

lemma up_delegate [simp]: "up C t\<lparr>t_delegate := b\<rparr> = up C (t\<lparr>t_delegate := b\<rparr>)"
  by (cases t) (simp add: up_def mms_task.defs)

lemma object_cases [case_names Http Decode Publish Notification Encode]:
  obtains (Http) k u where "(t :: 'u engine_task) = up (Http_Object k) u"
  | (Decode) u where "t = up Decode_Object u"
  | (Publish) u where "t = up Publish_Object u"
  | (Notification) u where "t = up Notification_Object u"
  | (Encode) u where "t = up Encode_Object u"
proof (cases "mms_task.more t")
  case (Http_Object k x)
  then show thesis by (rule Http [OF up_down [symmetric]])
next
  case (Decode_Object x)
  then show thesis by (rule Decode [OF up_down [symmetric]])
next
  case (Publish_Object x)
  then show thesis by (rule Publish [OF up_down [symmetric]])
next
  case (Notification_Object x)
  then show thesis by (rule Notification [OF up_down [symmetric]])
next
  case (Encode_Object x)
  then show thesis by (rule Encode [OF up_down [symmetric]])
qed

text \<open>A virtual function of the five kinds.\<close>

fun virtual ::
    "(http_kind \<Rightarrow> (request, 'u) mms_task_http \<Rightarrow> (request, 'u) mms_task_http)
       \<Rightarrow> (request mms_task_decode \<Rightarrow> request mms_task_decode)
       \<Rightarrow> (request mms_task_publish \<Rightarrow> request mms_task_publish)
       \<Rightarrow> (request mms_task_notification \<Rightarrow> request mms_task_notification)
       \<Rightarrow> (request mms_task_encode \<Rightarrow> request mms_task_encode) \<Rightarrow> 'u engine_task \<Rightarrow> 'u engine_task" where
  "virtual h d p n e t =
     (case mms_task.more t of
        Http_Object k x \<Rightarrow> up (Http_Object k) (h k (down t x))
      | Decode_Object x \<Rightarrow> up Decode_Object (d (down t x))
      | Publish_Object x \<Rightarrow> up Publish_Object (p (down t x))
      | Notification_Object x \<Rightarrow> up Notification_Object (n (down t x))
      | Encode_Object x \<Rightarrow> up Encode_Object (e (down t x)))"

lemma virtual_up [simp]:
  "virtual h d p n e (up (Http_Object k) u1) = up (Http_Object k) (h k u1)"
  "virtual h d p n e (up Decode_Object u2) = up Decode_Object (d u2)"
  "virtual h d p n e (up Publish_Object u3) = up Publish_Object (p u3)"
  "virtual h d p n e (up Notification_Object u4) = up Notification_Object (n u4)"
  "virtual h d p n e (up Encode_Object u5) = up Encode_Object (e u5)"
  by simp_all

declare virtual.simps [simp del]

section \<open>The environment of the engine\<close>

record ('it, 'mi, 'u, 's) engine_env =
  en_transfer :: "('it, 'mi) transfer_env"
  en_http :: "'u http_env"
  en_file :: "'s file_env"
  en_handler :: handler_env
  en_attachment :: attachment_env
  en_mkdtemp :: "string \<Rightarrow> string option"
  en_files :: "int \<Rightarrow> files"
  en_thread_ok :: "int \<Rightarrow> bool"
  en_retry_secs :: u32
  en_default_imsi :: "string option"
  en_open_connection :: "string option \<Rightarrow> mms_connection_type \<Rightarrow> mms_connection option"
  en_sort :: "('u engine_task \<Rightarrow> 'u engine_task \<Rightarrow> int) \<Rightarrow> 'u engine_task list \<Rightarrow> 'u engine_task list"

definition keep_temp_files :: "('it, 'mi, 'u, 's) engine_env \<Rightarrow> bool" where
  "keep_temp_files en = he_keep_temp_files (en_handler en)"

definition http_class :: "('it, 'mi, 'u, 's) engine_env \<Rightarrow> http_kind
    \<Rightarrow> (mms_connection, (request, 'u) mms_task_http) mms_task_class" where
  "http_class en k = mms_task_http_class (class_of (en_transfer en) (en_http en) k) (en_http en)"

definition decode_class :: "('it, 'mi, 'u, 's) engine_env \<Rightarrow> int
    \<Rightarrow> (mms_connection, request mms_task_decode) mms_task_class" where
  "decode_class en now =
     mms_task_decode_class (en_transfer en) (en_file en) (keep_temp_files en) (en_files en now)"

definition publish_class :: "('it, 'mi, 'u, 's) engine_env
    \<Rightarrow> (mms_connection, request mms_task_publish) mms_task_class" where
  "publish_class en = mms_task_publish_class (en_handler en)"

definition notification_class :: "('it, 'mi, 'u, 's) engine_env
    \<Rightarrow> (mms_connection, request mms_task_notification) mms_task_class" where
  "notification_class en = mms_task_notification_class (en_transfer en) (en_handler en)"

definition encode_class :: "('it, 'mi, 'u, 's) engine_env \<Rightarrow> int
    \<Rightarrow> (mms_connection, request mms_task_encode) mms_task_class" where
  "encode_class en now = mms_task_encode_class (en_thread_ok en now)"

lemmas class_defs = http_class_def decode_class_def publish_class_def notification_class_def encode_class_def

text \<open>The virtual functions as the dispatcher calls them.\<close>

definition engine_class ::
    "('it, 'mi, 'u, 's) engine_env \<Rightarrow> (mms_connection, 'u engine_task) mms_task_class" where
  "engine_class en =
     \<lparr>max_lifetime = 0,
      fn_run = (\<lambda>now. virtual (\<lambda>k. fn_run (http_class en k) now) (fn_run (decode_class en now) now)
        (fn_run (publish_class en) now) (fn_run (notification_class en) now) (fn_run (encode_class en now) now)),
      fn_transmit = (\<lambda>now c. virtual (\<lambda>k. fn_transmit (http_class en k) now c)
        (fn_transmit (decode_class en now) now c) (fn_transmit (publish_class en) now c)
        (fn_transmit (notification_class en) now c) (fn_transmit (encode_class en now) now c)),
      fn_network_unavailable = (\<lambda>now r. virtual (\<lambda>k. fn_network_unavailable (http_class en k) now r)
        (fn_network_unavailable (decode_class en now) now r) (fn_network_unavailable (publish_class en) now r)
        (fn_network_unavailable (notification_class en) now r) (fn_network_unavailable (encode_class en now) now r)),
      fn_cancel = (\<lambda>now. virtual (\<lambda>k. fn_cancel (http_class en k) now) (fn_cancel (decode_class en now) now)
        (fn_cancel (publish_class en) now) (fn_cancel (notification_class en) now) (fn_cancel (encode_class en now) now))\<rparr>"

text \<open>The object of a task that another task has queued.\<close>

definition local_task ::
    "('it, 'mi, 'u, 's) engine_env \<Rightarrow> int \<Rightarrow> request \<Rightarrow> 'u task_object \<Rightarrow> task_counters
       \<Rightarrow> 'u engine_task \<times> task_counters" where
  "local_task en now rq x cs =
     (case mms_task_alloc 0 (en_retry_secs en) now (Some (rq_name rq)) (rq_id rq) (rq_imsi rq) cs of
        (t, cs) \<Rightarrow> (mms_task.extend (t\<lparr>t_priority := rq_priority rq\<rparr>) x, cs))"

definition task_of ::
    "('it, 'mi, 'u, 's) engine_env \<Rightarrow> int \<Rightarrow> request \<Rightarrow> task_counters \<Rightarrow> 'u engine_task \<times> task_counters" where
  "task_of en now rq cs =
     (case rq_kind rq of
        Http_Task k _ _ _ _ \<Rightarrow>
          (case the (http_task_of (en_retry_secs en) (te_root_dir (en_transfer en)) now rq cs) of
             (t, cs) \<Rightarrow> (up (Http_Object k) t, cs))
      | Decode_Task transaction_id f \<Rightarrow>
          local_task en now rq
            (Decode_Object \<lparr>dc_map = rq_octets rq, dc_transaction_id = transaction_id, dc_file = f\<rparr>) cs
      | Publish_Task msg \<Rightarrow> local_task en now rq (Publish_Object \<lparr>pb_msg = msg, pb_call = False\<rparr>) cs)"

text \<open>The thread of a job has a reference to the task until it is over (\<^verbatim>\<open>mms_encode_job_new\<close>).\<close>

definition held_by_job :: "'u engine_task \<Rightarrow> bool" where
  "held_by_job t =
     (case mms_task.more t of Encode_Object x \<Rightarrow> e_active_job (down t x) \<noteq> None | _ \<Rightarrow> False)"

definition engine_dispatcher ::
    "('it, 'mi, 'u, 's) engine_env \<Rightarrow> (request, 'u task_object) dispatcher_env" where
  "engine_dispatcher en =
     \<lparr>e_class = engine_class en, e_new = task_of en, e_open_connection = en_open_connection en,
      e_held = held_by_job, e_sort = en_sort en\<rparr>"

section \<open>The calls of the user\<close>

text \<open>The functions of \<^verbatim>\<open>mms_dispatcher.c\<close> that create a task. Beside the result they give the files
  written; when the decoder reads out of range there is no result.\<close>

definition queue_new ::
    "('it, 'mi, 'u, 's) engine_env \<Rightarrow> int \<Rightarrow> request option \<Rightarrow> (request, 'u task_object) mms_dispatcher
       \<Rightarrow> bool \<times> (request, 'u task_object) mms_dispatcher" where
  "queue_new en now rq d =
     (case rq of
        None \<Rightarrow> mms_dispatcher_queue_and_unref_task None d
      | Some r \<Rightarrow>
          (case task_of en now r (d_counters d) of
             (t, cs) \<Rightarrow> mms_dispatcher_queue_and_unref_task (Some t) (d\<lparr>d_counters := cs\<rparr>)))"

definition mms_dispatcher_handle_push ::
    "('it, 'mi, 'u, 's) engine_env \<Rightarrow> int \<Rightarrow> string option \<Rightarrow> byte list \<Rightarrow> (request, 'u task_object) mms_dispatcher
       \<Rightarrow> ((bool \<times> (request, 'u task_object) mms_dispatcher) \<times> file_op list) outcome" where
  "mms_dispatcher_handle_push en now imsi push d =
     bind_outcome
       (mms_task_notification_new (en_transfer en) (en_handler en) (en_retry_secs en) now imsi push (d_counters d))
       (\<lambda>r. Ret (case r of
          Inl ops \<Rightarrow> (mms_dispatcher_queue_and_unref_task None d, ops)
        | Inr (t, cs) \<Rightarrow>
            (mms_dispatcher_queue_and_unref_task (Some (up Notification_Object t)) (d\<lparr>d_counters := cs\<rparr>), [])))"

definition mms_dispatcher_receive_message ::
    "('it, 'mi, 'u, 's) engine_env \<Rightarrow> int \<Rightarrow> string option \<Rightarrow> string option \<Rightarrow> bool \<Rightarrow> byte list
       \<Rightarrow> (request, 'u task_object) mms_dispatcher
       \<Rightarrow> ((bool \<times> (request, 'u task_object) mms_dispatcher) \<times> file_op list) outcome" where
  "mms_dispatcher_receive_message en now ident imsi automatic bytes d =
     (case mms_decode_bytes (te_decoders (en_transfer en)) (Some bytes) of
        Some (Ret (Some pdu)) \<Rightarrow> Ret (
          if m_type pdu = message_type_code MMS_MESSAGE_TYPE_NOTIFICATION_IND
          then (queue_new en now (mms_task_retrieve_new now ident imsi pdu
                  (if automatic then MMS_CONNECTION_TYPE_AUTO else MMS_CONNECTION_TYPE_USER)) d,
                if keep_temp_files en
                then [Write_File (build_filename (mms_message_dir (te_root_dir (en_transfer en)) ident)
                        MMS_NOTIFICATION_IND_FILE) bytes]
                else [])
          else ((False, d), []))
      | Some (Ret None) \<Rightarrow> Ret ((False, d), [])
      | _ \<Rightarrow> Undef)"

definition mms_dispatcher_send_read_report ::
    "('it, 'mi, 'u, 's) engine_env \<Rightarrow> int \<Rightarrow> string option \<Rightarrow> string option \<Rightarrow> string option \<Rightarrow> string option
       \<Rightarrow> mms_read_status \<Rightarrow> (request, 'u task_object) mms_dispatcher
       \<Rightarrow> bool \<times> (request, 'u task_object) mms_dispatcher" where
  "mms_dispatcher_send_read_report en now ident imsi message_id to status d =
     queue_new en now (mms_task_read_new (en_transfer en) now ident imsi message_id to status) d"

text \<open>The result is the SIM that is used.\<close>

definition mms_dispatcher_send_message ::
    "('it, 'mi, 'u, 's) engine_env \<Rightarrow> int \<Rightarrow> string option \<Rightarrow> string option \<Rightarrow> string option \<Rightarrow> string option
       \<Rightarrow> string option \<Rightarrow> string option \<Rightarrow> u32 \<Rightarrow> mms_attachment_info list \<Rightarrow> files
       \<Rightarrow> (request, 'u task_object) mms_dispatcher
       \<Rightarrow> (string option \<times> (request, 'u task_object) mms_dispatcher \<times> files) outcome" where
  "mms_dispatcher_send_message en now ident imsi to cc bcc subject flags parts fs d =
     (case if nonempty imsi then imsi else en_default_imsi en of
        None \<Rightarrow> Ret (None, d, fs)
      | Some i \<Rightarrow>
          bind_outcome (mms_task_encode_new (en_transfer en) (en_attachment en) (en_mkdtemp en) (en_retry_secs en)
              now ident (Some i) to cc bcc subject flags parts fs (d_counters d))
            (\<lambda>(r, fs, cs).
              case mms_dispatcher_queue_and_unref_task (map_option (\<lambda>(t, error). up Encode_Object t) r)
                     (d\<lparr>d_counters := cs\<rparr>) of
                (ok, d) \<Rightarrow> Ret (if ok then Some i else None, d, fs)))"

text \<open>The tasks that these functions create.\<close>

inductive user_task ::
    "('it, 'mi, 'u, 's) engine_env \<Rightarrow> task_counters \<Rightarrow> 'u engine_task option \<Rightarrow> task_counters \<Rightarrow> bool"
  for en where
  Push: "mms_task_notification_new (en_transfer en) (en_handler en) (en_retry_secs en) now imsi push cs = Ret (Inr (t, cs'))
    \<Longrightarrow> user_task en cs (Some (up Notification_Object t)) cs'"
| Request: "task_of en now rq cs = (t, cs') \<Longrightarrow> user_task en cs (Some t) cs'"
| Send: "mms_task_encode_new (en_transfer en) (en_attachment en) (en_mkdtemp en) (en_retry_secs en) now ident imsi
      to cc bcc subject flags parts fs cs = Ret (Some (t, error), fs', cs')
    \<Longrightarrow> user_task en cs (Some (up Encode_Object t)) cs'"
| Send_Refused: "mms_task_encode_new (en_transfer en) (en_attachment en) (en_mkdtemp en) (en_retry_secs en) now ident imsi
      to cc bcc subject flags parts fs cs = Ret (None :: (request mms_task_encode \<times> bool) option, fs', cs')
    \<Longrightarrow> user_task en cs None cs'"
| No_Task: "user_task en cs None cs"

section \<open>Everything that happens to a task\<close>

definition engine_event :: "('it, 'mi, 'u, 's) engine_env \<Rightarrow> 'u engine_task \<Rightarrow> 'u engine_task \<Rightarrow> bool" where
  "engine_event en t t' =
     (case mms_task.more t of
        Http_Object k x \<Rightarrow> \<exists>u. t' = up (Http_Object k) u
          \<and> http_event (class_of (en_transfer en) (en_http en) k) (en_http en) (down t x) u
      | Decode_Object x \<Rightarrow> \<exists>u now. t' = up Decode_Object u
          \<and> task_step (decode_class en now) (\<lambda>c. c_state c = MMS_CONNECTION_STATE_OPEN) (down t x) u
      | Publish_Object x \<Rightarrow> \<exists>u. t' = up Publish_Object u \<and> publish_event (en_handler en) (down t x) u
      | Notification_Object x \<Rightarrow> \<exists>u. t' = up Notification_Object u
          \<and> notification_event (en_transfer en) (en_handler en) (down t x) u
      | Encode_Object x \<Rightarrow> \<exists>u. t' = up Encode_Object u \<and> encode_event (down t x) u)"

definition engine_ok :: "'u engine_task \<Rightarrow> bool" where
  "engine_ok t =
     (case mms_task.more t of
        Http_Object k x \<Rightarrow> http_ok (down t x)
      | Decode_Object x \<Rightarrow> decode_ok (down t x)
      | Publish_Object x \<Rightarrow> publish_ok (down t x)
      | Notification_Object x \<Rightarrow> notification_ok (down t x)
      | Encode_Object x \<Rightarrow> encode_ok (down t x))"

lemma engine_ok_up [simp]:
  "engine_ok (up (Http_Object k) u1) = http_ok u1" "engine_ok (up Decode_Object u2) = decode_ok u2"
  "engine_ok (up Publish_Object u3) = publish_ok u3" "engine_ok (up Notification_Object u4) = notification_ok u4"
  "engine_ok (up Encode_Object u5) = encode_ok u5"
  by (simp_all add: engine_ok_def)

lemma kept_up [simp]:
  "kept engine_ok (up (Http_Object k) t1) (up (Http_Object k) u1) = kept http_ok t1 u1"
  "kept engine_ok (up Decode_Object t2) (up Decode_Object u2) = kept decode_ok t2 u2"
  "kept engine_ok (up Publish_Object t3) (up Publish_Object u3) = kept publish_ok t3 u3"
  "kept engine_ok (up Notification_Object t4) (up Notification_Object u4) = kept notification_ok t4 u4"
  "kept engine_ok (up Encode_Object t5) (up Encode_Object u5) = kept encode_ok t5 u5"
  by (simp_all add: kept_def same_task_def extends_def)

lemma update_up [simp]: "up C t\<lparr>t_wakeup_id := b\<rparr> = up C (t\<lparr>t_wakeup_id := b\<rparr>)"
  by (cases t) (simp add: up_def mms_task.defs)

lemma store_state_up [simp]: "store_state st (up C t) = up C (store_state st t)"
  by (cases t) (simp add: store_state_def tell_def up_def mms_task.defs Let_def)

text \<open>Going to \<^verbatim>\<open>READY\<close> makes no virtual call.\<close>

lemma wakeup_up [simp]:
  "mms_task_wakeup_callback c now (up C t) = up C (mms_task_wakeup_callback c' now t)"
  by (simp add: mms_task_wakeup_callback_def set_state_awake)

lemma engine_class_up [simp]:
  "fn_run (engine_class en) now (up (Http_Object k) u1) = up (Http_Object k) (fn_run (http_class en k) now u1)"
  "fn_run (engine_class en) now (up Decode_Object u2) = up Decode_Object (fn_run (decode_class en now) now u2)"
  "fn_run (engine_class en) now (up Publish_Object u3) = up Publish_Object (fn_run (publish_class en) now u3)"
  "fn_run (engine_class en) now (up Notification_Object u4) =
     up Notification_Object (fn_run (notification_class en) now u4)"
  "fn_run (engine_class en) now (up Encode_Object u5) = up Encode_Object (fn_run (encode_class en now) now u5)"
  "fn_transmit (engine_class en) now c (up (Http_Object k) u1) = up (Http_Object k) (fn_transmit (http_class en k) now c u1)"
  "fn_network_unavailable (engine_class en) now r (up (Http_Object k) u1) =
     up (Http_Object k) (fn_network_unavailable (http_class en k) now r u1)"
  "fn_cancel (engine_class en) now (up (Http_Object k) u1) = up (Http_Object k) (fn_cancel (http_class en k) now u1)"
  "fn_cancel (engine_class en) now (up Decode_Object u2) = up Decode_Object (fn_cancel (decode_class en now) now u2)"
  "fn_cancel (engine_class en) now (up Publish_Object u3) = up Publish_Object (fn_cancel (publish_class en) now u3)"
  "fn_cancel (engine_class en) now (up Notification_Object u4) =
     up Notification_Object (fn_cancel (notification_class en) now u4)"
  "fn_cancel (engine_class en) now (up Encode_Object u5) = up Encode_Object (fn_cancel (encode_class en now) now u5)"
  by (simp_all add: engine_class_def)

text \<open>Only an HTTP task ever needs a connection or transmits.\<close>

lemma only_http_transmits:
  assumes "engine_ok t" and "needs_connection t \<or> t_state t = MMS_TASK_STATE_TRANSMITTING"
  obtains k u where "t = up (Http_Object k) u" "http_ok u"
    "needs_connection u \<or> t_state u = MMS_TASK_STATE_TRANSMITTING"
  using assms
  by (cases t rule: object_cases)
     (auto dest: decode_ok_local publish_ok_local notification_ok_local encode_ok_local)

text \<open>The engine as a whole satisfies the contract of a task class.\<close>

lemma engine_run_law:
  assumes "engine_ok t" and "t_state t = MMS_TASK_STATE_READY"
  shows "kept engine_ok t (fn_run (engine_class en) now t)
    \<and> t_state (fn_run (engine_class en) now t) \<noteq> MMS_TASK_STATE_READY"
  using assms
  by (cases t rule: object_cases)
     (simp_all add: class_defs kind.task.run_law decode.run_law publish.run_law notification.run_law encode.run_law)

lemma engine_cancel_law:
  assumes "engine_ok t"
  shows "kept engine_ok t (fn_cancel (engine_class en) now t)
    \<and> t_state (fn_cancel (engine_class en) now t) = MMS_TASK_STATE_DONE \<and> cancelled (fn_cancel (engine_class en) now t)"
  using assms
  by (cases t rule: object_cases)
     (simp_all add: class_defs cancelled_def kind.task.cancel_law [unfolded cancelled_def]
        decode.cancel_law [unfolded cancelled_def] publish.cancel_law [unfolded cancelled_def]
        notification.cancel_law [unfolded cancelled_def] encode.cancel_law [unfolded cancelled_def])

lemma engine_wakeup_law:
  assumes "engine_ok t" and "t_wakeup_id t"
  shows "kept engine_ok t (mms_task_wakeup_callback (fn_cancel (engine_class en) now) now t)"
  using assms
proof (cases t rule: object_cases)
  case (Http k u)
  then show ?thesis
    using assms kind.task.wakeup_law [of u "en_transfer en" "en_http en" k now]
    by (simp add: wakeup_up [where c' = "fn_cancel (http_class en k) now"] http_class_def)
next
  case (Decode u)
  then show ?thesis using assms decode_ok_local [of u] by simp
next
  case (Publish u)
  then show ?thesis
    using assms publish.wakeup_law [of u "en_handler en" now]
    by (simp add: wakeup_up [where c' = "fn_cancel (publish_class en) now"] publish_class_def)
next
  case (Notification u)
  then show ?thesis
    using assms notification.wakeup_law [of u "en_transfer en" "en_handler en" now]
    by (simp add: wakeup_up [where c' = "fn_cancel (notification_class en) now"] notification_class_def)
next
  case (Encode u)
  then show ?thesis
    using assms encode.wakeup_law [of u "en_thread_ok en now" now]
    by (simp add: wakeup_up [where c' = "fn_cancel (encode_class en now) now"] encode_class_def)
qed

lemma engine_transmit_law:
  assumes "engine_ok t" and "needs_connection t" and "c_state c = MMS_CONNECTION_STATE_OPEN"
  shows "kept engine_ok t (fn_transmit (engine_class en) now c t)
    \<and> \<not> needs_connection (fn_transmit (engine_class en) now c t)
    \<and> t_state (fn_transmit (engine_class en) now c t) \<noteq> MMS_TASK_STATE_READY"
proof -
  obtain k u where "t = up (Http_Object k) u" "http_ok u"
    using only_http_transmits assms by blast
  then show ?thesis
    using assms kind.task.transmit_law [of u c "en_transfer en" "en_http en" k now] by (simp add: http_class_def)
qed

lemma engine_unavailable_law:
  assumes "engine_ok t" and "needs_connection t \<or> t_state t = MMS_TASK_STATE_TRANSMITTING"
  shows "kept engine_ok t (fn_network_unavailable (engine_class en) now r t)
    \<and> (t_state (fn_network_unavailable (engine_class en) now r t) = MMS_TASK_STATE_SLEEP
       \<or> t_state (fn_network_unavailable (engine_class en) now r t) = MMS_TASK_STATE_DONE)"
proof -
  obtain k u where "t = up (Http_Object k) u" "http_ok u"
    using only_http_transmits assms by blast
  then show ?thesis
    using assms kind.task.unavailable_law [of u "en_transfer en" "en_http en" k now r] by (simp add: http_class_def)
qed

text \<open>What happens to a task keeps its invariant.\<close>

lemma engine_event_kept:
  assumes "engine_ok t" and "engine_event en t t'"
  shows "kept engine_ok t t'"
  using assms
proof (cases t rule: object_cases)
  case (Decode u)
  then show ?thesis
    using assms by (auto simp: engine_event_def decode_class_def intro: decode.step_kept)
next
  case (Publish u)
  then show ?thesis
    using assms by (auto simp: engine_event_def publish_event.simps intro: publish.step_kept publish_done_kept)
next
  case (Notification u)
  then show ?thesis
    using assms by (auto simp: engine_event_def notification_event.simps
        intro: notification.step_kept notification_done_kept)
qed (auto simp: engine_event_def intro: kind.http_event_kept encode_event_kept)

text \<open>New tasks.\<close>

lemma task_of_ok:
  assumes "task_of en now rq cs = (t, cs')"
  shows "engine_ok (t\<lparr>t_delegate := b\<rparr>)" and "mms_task_init cs = (t_order t, cs')"
    and "t_state t = MMS_TASK_STATE_READY"
proof -
  have "engine_ok (t\<lparr>t_delegate := b\<rparr>) \<and> mms_task_init cs = (t_order t, cs') \<and> t_state t = MMS_TASK_STATE_READY"
    using assms
    by (auto simp: task_of_def local_task_def http_task_of_def mms_task_http_alloc_def mms_task_alloc_def
        mms_task_init_def mms_task.defs http_ok_def told_ok_def decode_ok_def publish_ok_def local_state_def timer_ok_def
        engine_ok_def up_def down_def split: task_kind.splits option.splits)
  then show "engine_ok (t\<lparr>t_delegate := b\<rparr>)" and "mms_task_init cs = (t_order t, cs')"
    and "t_state t = MMS_TASK_STATE_READY"
    by simp_all
qed

lemma notification_new_fields:
  assumes "mms_task_notification_new te he retry_secs now imsi bytes cs = Ret (Inr (t, cs'))"
  shows "notification_ok (t\<lparr>t_delegate := b\<rparr>)" and "mms_task_init cs = (t_order t, cs')"
  using assms notification_new_ok [OF assms]
  by (auto simp: mms_task_notification_new_def mms_task_alloc_def mms_task_init_def mms_task.defs
      split: option.splits outcome.splits)

lemma make_id_keeps:
  "t_order (mms_task_make_id root mk mkt t) = t_order t" "t_state (mms_task_make_id root mk mkt t) = t_state t"
  "t_wakeup_id (mms_task_make_id root mk mkt t) = t_wakeup_id t"
  by (simp_all add: mms_task_make_id_def Let_def split: option.split)

lemma encode_new_fields:
  fixes r :: "('q mms_task_encode \<times> bool) option"
  assumes "mms_task_encode_new te ae mkt retry_secs now ident imsi to cc bcc subject flags parts fs cs
    = Ret (r, fs', cs')"
  shows "case r of
      None \<Rightarrow> cs' = cs \<or> cs' = mms_task_finalize (snd (mms_task_init cs))
    | Some (t, error) \<Rightarrow> encode_ok (t\<lparr>t_delegate := b\<rparr>) \<and> mms_task_init cs = (t_order t, cs')"
proof (cases "nonempty to")
  case False
  then show ?thesis using assms by (simp add: mms_task_encode_new_def)
next
  case True
  obtain t :: "'q mms_task" and cs1 where alloc: "mms_task_alloc 0 retry_secs now (Some ''Encode'') ident imsi cs = (t, cs1)"
    by fastforce
  then have t: "mms_task_init cs = (t_order t, cs1)" "t_state t = MMS_TASK_STATE_READY" "\<not> t_wakeup_id t"
    by (auto simp: mms_task_alloc_def mms_task_init_def)
  define u where "u = mms_task_make_id (te_root_dir te) (te_mkdir te) mkt t"
  have u: "t_order u = t_order t" "t_state u = MMS_TASK_STATE_READY" "\<not> t_wakeup_id u"
    using t by (simp_all add: u_def make_id_keeps)
  define dir where "dir = build_filename (mms_message_dir (te_root_dir te) (t_id u)) MMS_ENCODE_DIR"
  define fin where "fin = (\<lambda>(ats :: mms_attachment_object list option, error :: bool, fs :: files). case ats of
      None \<Rightarrow> Ret (None :: ('q mms_task_encode \<times> bool) option, fs, mms_task_finalize cs1)
    | Some ats \<Rightarrow> Ret (Some (mms_task.extend u
        \<lparr>e_to = mms_task_encode_prepare_address_list to, e_cc = mms_task_encode_prepare_address_list cc,
         e_bcc = mms_task_encode_prepare_address_list bcc, e_subject = subject, e_send_flags = flags,
         e_parts = ats, e_active_job = None, e_jobs = 0\<rparr>, error), fs, cs1))"
  have new: "(if te_mkdir te dir then bind_outcome (mms_task_encode_prepare_attachments ae dir parts fs) fin
      else Ret (None, fs, mms_task_finalize cs1)) = Ret (r, fs', cs')"
    using assms True unfolding mms_task_encode_new_def alloc dir_def fin_def u_def Let_def
    by (simp only: prod.case if_True)
  have fin: "case r of None \<Rightarrow> cs' = mms_task_finalize cs1
      | Some (v, error) \<Rightarrow> encode_ok (v\<lparr>t_delegate := b\<rparr>) \<and> t_order v = t_order t \<and> cs' = cs1"
    if "fin x = Ret (r, fs', cs')" for x
    using that u by (cases x; cases "fst x") (auto simp: fin_def mms_task.defs encode_ok_def timer_ok_def)
  consider "cs' = mms_task_finalize cs1" "r = None" | x where "fin x = Ret (r, fs', cs')"
    using new by (cases "te_mkdir te dir"; cases "mms_task_encode_prepare_attachments ae dir parts fs")
      auto
  then show ?thesis
  proof cases
    case 1
    then show ?thesis using t(1) by simp
  next
    case (2 x)
    then show ?thesis using fin [OF 2] t(1) by (auto split: option.splits prod.splits)
  qed
qed

lemma user_task_ok:
  "user_task en cs (Some t) cs' \<Longrightarrow> engine_ok (t\<lparr>t_delegate := True\<rparr>) \<and> mms_task_init cs = (t_order t, cs')"
  "user_task en cs None cs' \<Longrightarrow> cs' = cs \<or> cs' = mms_task_finalize (snd (mms_task_init cs))"
  by (auto elim!: user_task.cases dest: notification_new_fields task_of_ok
      encode_new_fields [where r = "Some _" and b = True] encode_new_fields [where r = None])

section \<open>The weights of the tasks\<close>

definition task_weight :: "'u engine_task \<Rightarrow> nat" where
  "task_weight t =
     (if t_state t = MMS_TASK_STATE_READY
      then (case mms_task.more t of Decode_Object x \<Rightarrow> 7 | Notification_Object x \<Rightarrow> 5 | Http_Object k x \<Rightarrow> 3 | _ \<Rightarrow> 2)
      else if needs_connection t then 2 else if t_state t = MMS_TASK_STATE_DONE then 1 else 0)"

lemma new_task_weight: "task_of en now rq cs = (t, cs') \<Longrightarrow> task_weight (t\<lparr>t_delegate := b\<rparr>) = request_weight rq"
  by (auto simp: task_of_def local_task_def http_task_of_def mms_task_http_alloc_def mms_task_alloc_def
      mms_task_init_def mms_task.defs task_weight_def request_weight_def up_def split: task_kind.splits option.splits)

lemma done_task_weight: "t_state t = MMS_TASK_STATE_DONE \<Longrightarrow> 0 < task_weight t"
  by (simp add: task_weight_def)

text \<open>A virtual call that leaves the ready state does at most what the weight says.\<close>

lemma weight_decreases:
  assumes "kept engine_ok t u" and "queued_weight u \<le> queued_weight t + n"
    and "t_state u \<noteq> MMS_TASK_STATE_READY" and "n + task_weight u < task_weight t"
  shows "task_weight u + sum_list (map request_weight (tasks_queued (told_since t u))) < task_weight t"
  using assms queued_weight_told [of t u] by (auto simp: kept_def)

lemma queued_weight_up [simp]: "queued_weight (up C t) = queued_weight t"
  by (simp add: queued_weight_def)

lemma engine_run_weight:
  assumes "soup_laws (en_http en)" and "engine_ok t" and "t_state t = MMS_TASK_STATE_READY"
  shows "task_weight (fn_run (engine_class en) now t)
    + sum_list (map request_weight (tasks_queued (told_since t (fn_run (engine_class en) now t)))) < task_weight t"
proof -
  let ?n = "case mms_task.more t of Decode_Object x \<Rightarrow> 5 | Notification_Object x \<Rightarrow> 3 | _ \<Rightarrow> (0 :: nat)"
  let ?u = "fn_run (engine_class en) now t"
  have law: "kept engine_ok t ?u" "t_state ?u \<noteq> MMS_TASK_STATE_READY"
    using engine_run_law [OF assms(2,3), of en now] by simp_all
  show ?thesis
  proof (rule weight_decreases [where n = ?n])
    show "queued_weight ?u \<le> queued_weight t + ?n"
      using assms(1) decode_queues notification_run_weight
      by (cases t rule: object_cases)
         (simp_all add: class_defs mms_task_http_class_def mms_task_decode_class_def mms_task_publish_class_def
            mms_task_notification_class_def mms_task_encode_class_def)
    have "\<exists>k x. mms_task.more t = Http_Object k x" if needs: "needs_connection ?u"
    proof -
      have "engine_ok ?u" using law(1) by (simp add: kept_def)
      then obtain k v where "?u = up (Http_Object k) v"
        by (rule only_http_transmits [OF _ disjI1 [OF needs]])
      then have "mms_task.more ?u = Http_Object k (mms_task.more v)" by simp
      then show ?thesis by (cases t rule: object_cases) simp_all
    qed
    then have "task_weight ?u \<le> (case mms_task.more t of Http_Object k x \<Rightarrow> 2 | _ \<Rightarrow> 1)"
      using law(2) by (cases "mms_task.more t"; cases "needs_connection ?u") (simp_all add: task_weight_def)
    moreover have "task_weight t = (case mms_task.more t of Decode_Object x \<Rightarrow> 7 | Notification_Object x \<Rightarrow> 5
        | Http_Object k x \<Rightarrow> 3 | _ \<Rightarrow> 2)"
      using assms(3) by (simp add: task_weight_def)
    ultimately show "?n + task_weight ?u < task_weight t"
      by (cases "mms_task.more t") simp_all
  qed (use law in simp_all)
qed

lemma engine_transmit_weight:
  assumes "soup_laws (en_http en)" and "engine_ok t" and "needs_connection t"
    and "c_state c = MMS_CONNECTION_STATE_OPEN"
  shows "task_weight (fn_transmit (engine_class en) now c t)
    + sum_list (map request_weight (tasks_queued (told_since t (fn_transmit (engine_class en) now c t)))) < task_weight t"
proof -
  obtain k u where t: "t = up (Http_Object k) u"
    using only_http_transmits [of t] assms by blast
  note law = engine_transmit_law [OF assms(2-4), of en now]
  show ?thesis
  proof (rule weight_decreases [where n = 0])
    show "queued_weight (fn_transmit (engine_class en) now c t) \<le> queued_weight t + 0"
      using assms(1) t by (simp add: http_class_def mms_task_http_class_def)
    show "0 + task_weight (fn_transmit (engine_class en) now c t) < task_weight t"
      using law assms(3) by (auto simp: task_weight_def needs_connection_def)
  qed (use law in simp_all)
qed

lemma engine_cancel_quiet:
  assumes "soup_laws (en_http en)" and "engine_ok t"
  shows "tasks_queued (told_since t (fn_cancel (engine_class en) now t)) = []"
proof (rule queues_nothing)
  show "extends t (fn_cancel (engine_class en) now t)"
    using engine_cancel_law [OF assms(2), of en now] by (simp add: kept_def)
  show "queued_weight (fn_cancel (engine_class en) now t) = queued_weight t"
    using assms(1)
    by (cases t rule: object_cases)
       (simp_all add: class_defs mms_task_http_class_def mms_task_decode_class_def mms_task_publish_class_def
          mms_task_notification_class_def mms_task_encode_class_def)
qed

lemma engine_unavailable_quiet:
  assumes "soup_laws (en_http en)" and "engine_ok t"
    and "needs_connection t \<or> t_state t = MMS_TASK_STATE_TRANSMITTING"
  shows "tasks_queued (told_since t (fn_network_unavailable (engine_class en) now r t)) = []"
    and "t_delegate t \<Longrightarrow> states_told (told_since t (fn_network_unavailable (engine_class en) now r t)) \<noteq> []"
proof -
  obtain k u where t: "t = up (Http_Object k) u"
    using only_http_transmits [of t] assms by blast
  have ext: "extends t (fn_network_unavailable (engine_class en) now r t)"
    using engine_unavailable_law [OF assms(2,3), of en now r] by (simp add: kept_def)
  then show "tasks_queued (told_since t (fn_network_unavailable (engine_class en) now r t)) = []"
    using assms(1) t by (intro queues_nothing) (simp_all add: http_class_def mms_task_http_class_def)
  show "states_told (told_since t (fn_network_unavailable (engine_class en) now r t)) \<noteq> []" if "t_delegate t"
    using that ext assms(3) t
    by (simp add: http_class_def mms_task_http_class_def extends_def http_unavailable_told [unfolded extends_def])
qed

section \<open>The engine keeps the contract of the dispatcher\<close>

locale engine =
  fixes en :: "('it, 'mi, 'u, 's) engine_env"
  assumes soup: "soup_laws (en_http en)" and sort: "queue_sort_ok (en_sort en)"

sublocale engine \<subseteq> dispatcher_weights "engine_dispatcher en" engine_ok "engine_event en" "user_task en"
    task_weight request_weight
proof unfold_locales
  fix t :: "'u engine_task" and now :: int and r :: bool and c :: mms_connection
  assume t: "engine_ok t"
  show "timer_ok t"
    using t by (cases t rule: object_cases)
      (auto simp: timer_ok_def http_ok_def dest!: decode_ok_local publish_ok_local notification_ok_local encode_ok_local)
  show "tasks_queued (told_since t (fn_cancel (e_class (engine_dispatcher en)) now t)) = []"
    using engine_cancel_quiet [OF soup t] by (simp add: engine_dispatcher_def)
qed (simp_all add: engine_dispatcher_def engine_run_law engine_transmit_law engine_unavailable_law engine_cancel_law
    engine_wakeup_law engine_unavailable_quiet engine_event_kept sort soup engine_run_weight engine_transmit_weight
    task_of_ok user_task_ok new_task_weight done_task_weight)

end
