(* ===== verification/Task_Lifecycle.thy ===== *)
theory Task_Lifecycle
  imports Engine
begin

text \<open>
  The life of a task, as \<^verbatim>\<open>mms-lib/src/mms_task.h\<close> lists its states, and the dispatcher as a board of tasks.

  \<^item> \<open>life\<close> is the relation between the states a task may go through. Every virtual call, timer and callback
    of the five kinds makes at most one such move (\<open>task_life\<close>, an extension of the contract of a task class).
  \<^item> The abstract dispatcher is \<open>board_step\<close>: a multiset of task numbers with their states, to which fresh
    tasks are added in the state \<^verbatim>\<open>READY\<close>, in which one task at a time moves along \<open>life\<close>, and from which
    tasks are taken that are \<^verbatim>\<open>DONE\<close>. Each step of the dispatcher is a sequence of such steps.
\<close>

section \<open>The states a task goes through\<close>

fun life :: "mms_task_state \<Rightarrow> mms_task_state \<Rightarrow> bool" where
  "life MMS_TASK_STATE_READY st \<longleftrightarrow> st \<noteq> MMS_TASK_STATE_READY \<and> st \<noteq> MMS_TASK_STATE_TRANSMITTING"
| "life MMS_TASK_STATE_NEED_CONNECTION st \<longleftrightarrow>
     st = MMS_TASK_STATE_TRANSMITTING \<or> st = MMS_TASK_STATE_SLEEP \<or> st = MMS_TASK_STATE_DONE"
| "life MMS_TASK_STATE_NEED_USER_CONNECTION st \<longleftrightarrow>
     st = MMS_TASK_STATE_TRANSMITTING \<or> st = MMS_TASK_STATE_SLEEP \<or> st = MMS_TASK_STATE_DONE"
| "life MMS_TASK_STATE_TRANSMITTING st \<longleftrightarrow> st = MMS_TASK_STATE_SLEEP \<or> st = MMS_TASK_STATE_DONE"
| "life MMS_TASK_STATE_WORKING st \<longleftrightarrow> st = MMS_TASK_STATE_DONE"
| "life MMS_TASK_STATE_PENDING st \<longleftrightarrow> st = MMS_TASK_STATE_SLEEP \<or> st = MMS_TASK_STATE_DONE"
| "life MMS_TASK_STATE_SLEEP st \<longleftrightarrow> st = MMS_TASK_STATE_READY \<or> st = MMS_TASK_STATE_DONE"
| "life MMS_TASK_STATE_DONE st \<longleftrightarrow> False"

definition moves :: "('q, 'a) mms_task_scheme \<Rightarrow> ('q, 'a) mms_task_scheme \<Rightarrow> bool" where
  "moves t t' \<longleftrightarrow> t_state t' = t_state t \<or> life (t_state t) (t_state t')"

lemma moves_same [intro]: "t_state t' = t_state t \<Longrightarrow> moves t t'"
  by (simp add: moves_def)

lemma moves_done [intro]: "t_state t' = MMS_TASK_STATE_DONE \<Longrightarrow> moves t t'"
  by (cases "t_state t") (simp_all add: moves_def)

lemma moves_sleep:
  "t_state t' = MMS_TASK_STATE_SLEEP \<or> t_state t' = MMS_TASK_STATE_DONE
   \<Longrightarrow> needs_connection t \<or> t_state t = MMS_TASK_STATE_TRANSMITTING \<or> t_state t = MMS_TASK_STATE_PENDING
   \<Longrightarrow> moves t t'"
  by (auto simp: moves_def needs_connection_def)

locale task_life = mms_task_contract klass good conn_open
  for klass :: "('c, ('q, 'a) mms_task_scheme) mms_task_class" and good and conn_open +
  assumes run_life: "good t \<Longrightarrow> t_state t = MMS_TASK_STATE_READY
      \<Longrightarrow> t_state (fn_run klass now t) \<noteq> MMS_TASK_STATE_TRANSMITTING"
    and transmit_life: "good t \<Longrightarrow> needs_connection t \<Longrightarrow> conn_open c
      \<Longrightarrow> t_state (fn_transmit klass now c t) = MMS_TASK_STATE_TRANSMITTING
          \<or> t_state (fn_transmit klass now c t) = MMS_TASK_STATE_DONE"
begin

lemma run_moves:
  "good t \<Longrightarrow> t_state t = MMS_TASK_STATE_READY \<Longrightarrow> moves t (mms_task_run klass now t)"
  using run_life run_law by (simp add: moves_def mms_task_run_def)

lemma transmit_moves:
  "good t \<Longrightarrow> needs_connection t \<Longrightarrow> conn_open c \<Longrightarrow> moves t (mms_task_transmit klass now c t)"
  using transmit_life [of t c now] by (auto simp: moves_def mms_task_transmit_def needs_connection_def)

lemma unavailable_moves:
  "good t \<Longrightarrow> needs_connection t \<or> t_state t = MMS_TASK_STATE_TRANSMITTING \<or> t_state t = MMS_TASK_STATE_DONE
   \<Longrightarrow> moves t (mms_task_network_unavailable klass now r t)"
  using unavailable_law [of t now r] moves_sleep [of "fn_network_unavailable klass now r t" t]
  by (auto simp: mms_task_network_unavailable_def)

lemma cancel_moves: "good t \<Longrightarrow> moves t (mms_task_cancel klass now t)"
  using cancel_law [of t now] by (auto simp: mms_task_cancel_def)

lemma step_moves: "task_step klass conn_open t t' \<Longrightarrow> good t \<Longrightarrow> moves t t'"
proof (induction rule: task_step.induct)
  case (Wakeup t now)
  have "t_state t = MMS_TASK_STATE_SLEEP"
    using inv_timer [OF Wakeup.prems] Wakeup.hyps by (simp add: timer_ok_def)
  then show ?case by (simp add: moves_def mms_task_wakeup_callback_def set_state_awake)
qed (auto intro: run_moves transmit_moves unavailable_moves cancel_moves)

end

interpretation http_life: task_life "mms_task_http_class (class_of te env k) env" http_ok
    "\<lambda>c :: mms_connection. c_state c = MMS_CONNECTION_STATE_OPEN" for te env k
proof unfold_locales
  fix t :: "('a mms_task_request, 'b, 'c) mms_task_http_scheme" and now c
  assume "http_ok t"
  show "t_state t = MMS_TASK_STATE_READY \<Longrightarrow>
      t_state (fn_run (mms_task_http_class (class_of te env k) env) now t) \<noteq> MMS_TASK_STATE_TRANSMITTING"
    using kind.http_run_ok [OF \<open>http_ok t\<close>, of te env k now]
    by (auto simp: mms_task_http_class_def needs_connection_def)
  show "needs_connection t \<Longrightarrow>
      t_state (fn_transmit (mms_task_http_class (class_of te env k) env) now c t) = MMS_TASK_STATE_TRANSMITTING
      \<or> t_state (fn_transmit (mms_task_http_class (class_of te env k) env) now c t) = MMS_TASK_STATE_DONE"
    using kind.http_transmit_ok(2) [OF \<open>http_ok t\<close>, of te env k now c] by (simp add: mms_task_http_class_def)
qed

text \<open>A task whose invariant says that it does not use the network.\<close>

context mms_task_contract
begin

lemma local_life:
  assumes "\<And>t. good t \<Longrightarrow> \<not> needs_connection t \<and> t_state t \<noteq> MMS_TASK_STATE_TRANSMITTING"
  shows "task_life klass good conn_open"
proof unfold_locales
  fix t now
  assume "good t" "t_state t = MMS_TASK_STATE_READY"
  then show "t_state (fn_run klass now t) \<noteq> MMS_TASK_STATE_TRANSMITTING"
    using run_law [of t now] assms [of "fn_run klass now t"] by (simp add: kept_def)
qed (use assms in simp)

end

interpretation decode_life: task_life "mms_task_decode_class te fe keep fs" decode_ok
    "\<lambda>c :: mms_connection. c_state c = MMS_CONNECTION_STATE_OPEN" for te fe keep fs
  by (rule decode.local_life) (simp add: decode_ok_local)

interpretation publish_life: task_life "mms_task_publish_class he" publish_ok
    "\<lambda>c :: mms_connection. c_state c = MMS_CONNECTION_STATE_OPEN" for he
  by (rule publish.local_life) (simp add: publish_ok_local)

interpretation notification_life: task_life "mms_task_notification_class te he" notification_ok
    "\<lambda>c :: mms_connection. c_state c = MMS_CONNECTION_STATE_OPEN" for te he
  by (rule notification.local_life) (simp add: notification_ok_local)

interpretation encode_life: task_life "mms_task_encode_class thread_ok" encode_ok
    "\<lambda>c :: mms_connection. c_state c = MMS_CONNECTION_STATE_OPEN" for thread_ok
  by (rule encode.local_life) (simp add: encode_ok_local)

section \<open>The callbacks of each kind\<close>

lemma retry_state:
  "t_state (snd (mms_task_retry c now t)) = MMS_TASK_STATE_SLEEP
   \<or> t_state (snd (mms_task_retry c now t)) = MMS_TASK_STATE_DONE"
  by (simp add: mms_task_retry_def sleep_eq)

lemma finished_moves:
  assumes "\<And>tx. h_tx t = Some tx \<Longrightarrow> tx_session tx = session \<Longrightarrow> t_state t = MMS_TASK_STATE_TRANSMITTING"
  shows "moves t (mms_task_http_finished (class_of te env k) env now session status t)"
proof (cases "\<exists>tx. h_tx t = Some tx \<and> tx_session tx = session")
  case False
  then show ?thesis
    by (auto simp: mms_task_http_finished_def split: option.splits)
next
  case True
  then obtain tx where tx: "h_tx t = Some tx" "tx_session tx = session" by blast
  show ?thesis
    by (rule moves_sleep)
       (use assms [OF tx] in \<open>auto simp: mms_task_http_finished_def tx mms_task_retry_def sleep_eq set_state_awake
          kind.http_set_state_fields Let_def\<close>)
qed

lemma progress_moves:
  "moves t (mms_task_http_write_next_chunk err t)" "moves t (mms_task_http_got_headers n t)"
  by (rule moves_same; simp add: mms_task_http_write_next_chunk_def mms_task_http_got_headers_def
      mms_task_http_send_progress_def mms_task_http_receive_progress_def Let_def split: option.split)+

lemma got_chunk_moves:
  assumes "t_state t = MMS_TASK_STATE_TRANSMITTING"
  shows "moves t (mms_task_http_got_chunk (class_of te env k) env now buf written t)"
proof (cases "h_tx t")
  case None
  then show ?thesis by (auto simp: mms_task_http_got_chunk_def)
next
  case (Some tx)
  have sleep: "t_state (mms_task_set_state (mms_task_http_cancel (class_of te env k) env now) now MMS_TASK_STATE_SLEEP u)
      \<in> {MMS_TASK_STATE_SLEEP, MMS_TASK_STATE_DONE}" for u
    by (simp add: set_state_sleep_eq)
  show ?thesis
    using assms sleep moves_sleep
    by (cases "written = Some (length buf)")
       (auto simp: mms_task_http_got_chunk_def mms_task_http_receive_progress_def Some Let_def split: option.split)
qed

lemma http_event_moves:
  "http_event (class_of te env k) env t t' \<Longrightarrow> http_ok t \<Longrightarrow> moves t t'"
  by (erule http_event.cases)
     (auto intro: http_life.step_moves finished_moves progress_moves got_chunk_moves)

lemma publish_event_moves: "publish_event he t t' \<Longrightarrow> publish_ok t \<Longrightarrow> moves t t'"
  by (erule publish_event.cases)
     (auto intro: publish_life.step_moves moves_sleep [OF retry_state] simp: mms_task_publish_done_def set_state_awake)

lemma reject_state [simp]: "t_state (mms_task_notification_reject te he t) = t_state t"
  using reports_only_reject [of t te he] by (simp add: reports_only_def)

lemma notification_done_state:
  "t_state (mms_task_notification_done te he now ident t) = MMS_TASK_STATE_SLEEP
   \<or> t_state (mms_task_notification_done te he now ident t) = MMS_TASK_STATE_DONE"
proof (cases ident)
  case None
  obtain ok u where retry: "mms_task_retry (mms_task_notification_cancel now) now (t\<lparr>n_notify := False\<rparr>) = (ok, u)"
    by fastforce
  then show ?thesis
    using retry_state [of "mms_task_notification_cancel now" now "t\<lparr>n_notify := False\<rparr>"] None
    by (simp add: mms_task_notification_done_def)
next
  case (Some i)
  then show ?thesis by (simp add: mms_task_notification_done_def Let_def set_state_awake)
qed

lemma notification_event_moves: "notification_event te he t t' \<Longrightarrow> notification_ok t \<Longrightarrow> moves t t'"
  by (erule notification_event.cases)
     (auto intro: notification_life.step_moves moves_sleep [OF notification_done_state])

lemma encode_event_moves: "encode_event t t' \<Longrightarrow> encode_ok t \<Longrightarrow> moves t t'"
  by (erule encode_event.cases)
     (auto intro: encode_life.step_moves simp: mms_task_encode_job_done_def set_state_done Let_def)

lemma moves_up [simp]: "moves (up C t) (up D u) = moves t u"
  by (simp add: moves_def)

lemma engine_event_moves:
  assumes "engine_ok t" and "engine_event en t t'"
  shows "moves t t'"
  using assms
  by (cases t rule: object_cases)
     (auto simp: engine_event_def decode_class_def intro: http_event_moves decode_life.step_moves
        publish_event_moves notification_event_moves encode_event_moves)

section \<open>The board\<close>

type_synonym board = "(int \<times> mms_task_state) multiset"

inductive board_step :: "board \<Rightarrow> board \<Rightarrow> bool" where
  Create: "n \<notin># image_mset fst B \<Longrightarrow> board_step B (add_mset (n, MMS_TASK_STATE_READY) B)"
| Move: "life st st' \<Longrightarrow> board_step (add_mset (n, st) B) (add_mset (n, st') B)"
| Release: "board_step (add_mset (n, MMS_TASK_STATE_DONE) B) B"

definition entry :: "('q, 'a) mms_task_scheme \<Rightarrow> int \<times> mms_task_state" where
  "entry t = (t_order t, t_state t)"

text \<open>The tasks in the queue and those that have been taken from it.\<close>

definition board_of :: "('q, 'a) mms_task_scheme multiset \<Rightarrow> ('q, 'a) mms_dispatcher \<Rightarrow> board" where
  "board_of ts d = image_mset entry (ts + mset (d_tasks d))"

definition comes_to :: "board \<Rightarrow> ('q, 'a) mms_task_scheme multiset \<Rightarrow> ('q, 'a) mms_dispatcher \<Rightarrow> bool" where
  "comes_to B ts d \<longleftrightarrow> board_step\<^sup>*\<^sup>* B (board_of ts d)"

lemma comes_to_same:
  "comes_to B ts d \<Longrightarrow> ts' + mset (d_tasks d') = ts + mset (d_tasks d) \<Longrightarrow> comes_to B ts' d'"
  by (simp add: comes_to_def board_of_def flip: image_mset_union)

lemma comes_to_tasks: "d_tasks d' = d_tasks d \<Longrightarrow> comes_to B ts d' = comes_to B ts d"
  by (simp add: comes_to_def board_of_def)

lemma comes_to_simps [simp]:
  "comes_to B ts (mms_dispatcher_next_run_schedule d) = comes_to B ts d"
  "comes_to B ts (mms_dispatcher_check_if_done d) = comes_to B ts d"
  "comes_to B ts (mms_dispatcher_drop_connection d) = comes_to B ts d"
  "comes_to B ts (mms_dispatcher_close_connection d) = comes_to B ts d"
  "comes_to B ts (mms_dispatcher_network_idle_check d) = comes_to B ts d"
  "comes_to B ts (mms_dispatcher_network_idle_cancel d) = comes_to B ts d"
  "comes_to B ts (d\<lparr>d_next_run_id := r\<rparr>) = comes_to B ts d"
  "comes_to B ts (d\<lparr>d_connection := c\<rparr>) = comes_to B ts d"
  "comes_to B ts (d\<lparr>d_network_idle_id := r\<rparr>) = comes_to B ts d"
  "comes_to B ts (d\<lparr>d_started := r\<rparr>) = comes_to B ts d"
  "comes_to B ts (d\<lparr>d_handler_busy := n\<rparr>) = comes_to B ts d"
  "comes_to B ts (d\<lparr>d_connman_busy := n\<rparr>) = comes_to B ts d"
  "comes_to B ts (d\<lparr>d_counters := cs\<rparr>) = comes_to B ts d"
  "comes_to B ts (unref_held n cs d) = comes_to B ts d"
  "comes_to B ts (d\<lparr>d_counters := cs, d_held := h\<rparr>) = comes_to B ts d"
  by (rule comes_to_tasks; simp add: close_connection_eq split: option.split)+

lemma comes_to_step: "comes_to B ts d \<Longrightarrow> board_step\<^sup>*\<^sup>* (board_of ts d) (board_of ts' d') \<Longrightarrow> comes_to B ts' d'"
  unfolding comes_to_def by simp

lemma entry_moves:
  "moves t t' \<Longrightarrow> t_order t' = t_order t \<Longrightarrow> board_step\<^sup>*\<^sup>* (add_mset (entry t) B) (add_mset (entry t') B)"
  by (auto simp: moves_def entry_def intro: Move)

lemma comes_to_replace:
  "comes_to B (add_mset t ts) d \<Longrightarrow> moves t t' \<Longrightarrow> t_order t' = t_order t \<Longrightarrow> comes_to B (add_mset t' ts) d"
  by (erule comes_to_step) (simp add: board_of_def entry_moves)

lemma comes_to_release:
  "comes_to B (add_mset t ts) d \<Longrightarrow> t_state t = MMS_TASK_STATE_DONE \<Longrightarrow> d_tasks d' = d_tasks d \<Longrightarrow> comes_to B ts d'"
  by (erule comes_to_step) (auto simp: board_of_def entry_def intro: Release)

lemma entries_move:
  assumes "\<And>t. t \<in> set ts \<Longrightarrow> moves t (f t) \<and> t_order (f t) = t_order t"
  shows "board_step\<^sup>*\<^sup>* (B + mset (map entry ts)) (B + mset (map (\<lambda>t. entry (f t)) ts))"
  using assms
proof (induction ts arbitrary: B)
  case (Cons t ts)
  have "board_step\<^sup>*\<^sup>* (add_mset (entry t) (B + mset (map entry ts))) (add_mset (entry (f t)) (B + mset (map entry ts)))"
    using Cons.prems by (intro entry_moves) simp_all
  also have "board_step\<^sup>*\<^sup>* \<dots> (add_mset (entry (f t)) B + mset (map (\<lambda>t. entry (f t)) ts))"
    using Cons.IH [of "add_mset (entry (f t)) B"] Cons.prems by simp
  finally show ?case by simp
qed simp

text \<open>A new number is not on the board.\<close>

lemma fresh_order:
  assumes "all_good good ts d" and "mms_task_init (d_counters d) = (n, cs')"
  shows "n \<notin># image_mset fst (board_of ts d)"
proof -
  obtain live where live: "tasks_alive (d_counters d) live"
      "mset live = image_mset t_order (ts + mset (d_tasks d)) + mset (d_held d)"
    using assms(1) by (auto simp: all_good_def accounted_def orders_alive_def)
  have "n \<notin> set live"
    using orders_follow_creation [OF live(1)] assms(2) by (auto simp: mms_task_init_def)
  moreover have "image_mset fst (board_of ts d) \<subseteq># mset live"
    by (simp add: live(2) board_of_def entry_def image_mset.compositionality comp_def)
  ultimately show ?thesis by (metis mset_subset_eqD set_mset_mset)
qed

lemma comes_to_queue_task:
  assumes "comes_to B ts d" and "all_good good ts d" and "mms_task_init (d_counters d) = (t_order t, cs')"
    and "t_state t = MMS_TASK_STATE_READY"
  shows "comes_to B ts (mms_dispatcher_queue_task t (d\<lparr>d_counters := cs'\<rparr>))"
proof (rule comes_to_step [OF assms(1)])
  have "board_of ts (mms_dispatcher_queue_task t (d\<lparr>d_counters := cs'\<rparr>)) =
      add_mset (t_order t, MMS_TASK_STATE_READY) (board_of ts d)"
    by (simp add: board_of_def mms_dispatcher_queue_task_def entry_def assms(4))
  then show "board_step\<^sup>*\<^sup>* (board_of ts d) (board_of ts (mms_dispatcher_queue_task t (d\<lparr>d_counters := cs'\<rparr>)))"
    using Create [OF fresh_order [OF assms(2,3)]] by auto
qed

locale dispatcher_life = dispatcher_contract e good own new
    + task_life "e_class e" good "\<lambda>c. c_state c = MMS_CONNECTION_STATE_OPEN"
  for e :: "('q, 'a) dispatcher_env" and good and own and new +
  assumes own_moves: "good t \<Longrightarrow> own t t' \<Longrightarrow> moves t t'"
    and new_ready: "e_new e now q cs = (t, cs') \<Longrightarrow> t_state t = MMS_TASK_STATE_READY"
    and user_ready: "new cs (Some t) cs' \<Longrightarrow> t_state t = MMS_TASK_STATE_READY"
begin

lemma life_queue_request:
  "comes_to B ts d \<Longrightarrow> all_good good ts d \<Longrightarrow> comes_to B ts (queue_request e now q d)"
  using new_law [of now q "d_counters d"] new_ready [of now q "d_counters d"]
  by (auto simp: queue_request_def intro: comes_to_queue_task split: prod.split)

lemma life_listen:
  assumes "comes_to B ts d" and "all_good good ts d"
  shows "comes_to B ts (mms_dispatcher_listen e now cs d)"
proof -
  have "comes_to B ts (mms_dispatcher_listen e now cs d) \<and> all_good good ts (mms_dispatcher_listen e now cs d)"
    by (rule listen_induct [where P = "\<lambda>d. comes_to B ts d \<and> all_good good ts d"])
       (simp_all add: assms life_queue_request good_queue_request)
  then show ?thesis ..
qed

lemma unavailable_replace:
  assumes "comes_to B (add_mset t ts) d" and "good t"
    and "needs_connection t \<or> t_state t = MMS_TASK_STATE_TRANSMITTING"
  shows "comes_to B (add_mset (mms_task_network_unavailable (e_class e) now r t) ts) d"
  using assms unavailable_kept [of t now r] unavailable_moves [of t now r]
  by (auto simp: kept_def same_task_def intro: comes_to_replace)

lemma life_pick:
  assumes "mms_dispatcher_pick_next_task e now d = (r, d')" and "all_good good {#} d" and "comes_to B {#} d"
  shows "comes_to B (case r of None \<Rightarrow> {#} | Some t \<Rightarrow> {#t#}) d'"
proof -
  note sorted = sorted_tasks_mset [OF sort_law, of d]
  from assms(1) show ?thesis
  proof (cases rule: pick_cases)
    case (unavailable t rest dc t')
    have "good t"
      using assms(2) sorted_tasks_set [OF sort_law, of d] unavailable(2) by (auto simp: all_good_def)
    moreover have "comes_to B {#t#} (dc\<lparr>d_tasks := rest\<rparr>)"
      using assms(3) sorted unavailable(2) by (auto elim: comes_to_same)
    ultimately have "comes_to B {#t'#} (dc\<lparr>d_tasks := rest\<rparr>)"
      using unavailable(3) unfolding unavailable(6) by (intro unavailable_replace) auto
    then have "comes_to B {#} (update_head t' dc)"
      using unavailable(4) by (auto simp: update_head_def elim: comes_to_same)
    moreover have "all_good good {#} (update_head t' dc)"
    proof -
      have "all_good good {#} (d\<lparr>d_tasks := sorted_tasks e d\<rparr>)"
        using assms(2) sorted by (auto elim!: all_good_take [rotated 4])
      then have dc: "all_good good {#t#} (dc\<lparr>d_tasks := rest\<rparr>)"
        using unavailable(2,4) by (auto intro!: all_good_take_head)
      then have "all_good good {#t'#} (dc\<lparr>d_tasks := rest\<rparr>)"
        using all_good_known [OF dc] unavailable(3,6) by (auto intro: all_good_replace unavailable_kept)
      then show ?thesis
        using unavailable(4) by (auto simp: update_head_def elim!: all_good_put)
    qed
    ultimately show ?thesis using unavailable(1,7) by (simp add: life_listen)
  qed (use assms(3) sorted in \<open>auto elim: comes_to_same\<close>)
qed

lemma life_run_task:
  assumes "all_good good {#t#} d" and "comes_to B {#t#} d"
    and "is_runnable t \<or> (needs_connection t \<and> has_connection t d)"
  shows "comes_to B {#} (mms_dispatcher_run_task e now t d)"
proof (rule run_task_cases [OF assms(3), of e now])
  fix t' d1
  let ?dl = "mms_dispatcher_listen e now (told_since t t') d1"
  assume run: "mms_dispatcher_run_task e now t d =
      (let dl = ?dl in
       (if t_state t' = MMS_TASK_STATE_DONE
       then release_task e t' dl
       else dl\<lparr>d_tasks := d_tasks dl @ [t']\<rparr>)\<lparr>d_active_task := None\<rparr>)"
    and d1: "d_tasks d1 = d_tasks d" "\<And>g ts. all_good g ts d1 = all_good g ts d"
    and t': "(t_state t = MMS_TASK_STATE_READY \<and> t' = mms_task_run (e_class e) now t)
      \<or> (\<exists>c. needs_connection t \<and> c_state c = MMS_CONNECTION_STATE_OPEN \<and> t' = mms_task_transmit (e_class e) now c t)
      \<or> (t_state t = MMS_TASK_STATE_DONE \<and> t' = t)"
  have "good t" using all_good_known [OF assms(1)] by simp
  then have "kept good t t'" and "moves t t'"
    using t' run_law transmit_law run_moves transmit_moves by (auto simp: task_op_defs kept_refl)
  moreover have "comes_to B {#t#} d1"
    using assms(2) by (rule comes_to_same) (simp add: d1)
  ultimately have "all_good good {#t'#} d1" and "comes_to B {#t'#} d1"
    using assms(1) d1(2) by (auto simp: kept_def same_task_def intro: all_good_replace elim: comes_to_replace)
  then have "comes_to B {#t'#} ?dl"
    by (rule life_listen [rotated])
  then show ?thesis
    unfolding run Let_def by (auto elim: comes_to_release comes_to_same)
qed

lemma life_loop:
  assumes "mms_dispatcher_loop e now d = Some d'" and "all_good good {#} d" and "comes_to B {#} d"
  shows "comes_to B {#} d'"
  using assms(1)
proof (rule loop_invariant [where P = "\<lambda>d. all_good good {#} d \<and> comes_to B {#} d" and Q = "comes_to B {#}"])
  fix d t dp
  assume d: "all_good good {#} d \<and> comes_to B {#} d" and pick: "mms_dispatcher_pick_next_task e now d = (Some t, dp)"
  show "all_good good {#} (mms_dispatcher_run_task e now t dp) \<and> comes_to B {#} (mms_dispatcher_run_task e now t dp)"
    using good_pick [OF pick] life_pick [OF pick] pick_some [OF pick] d
    by (auto intro: good_run_task life_run_task)
next
  fix d dp
  assume "all_good good {#} d \<and> comes_to B {#} d" "mms_dispatcher_pick_next_task e now d = (None, dp)"
  then show "comes_to B {#} dp"
    using life_pick [of now d None dp] by simp
qed (use assms in simp)

lemma life_run:
  "mms_dispatcher_run e now d = Some d' \<Longrightarrow> all_good good {#} d \<Longrightarrow> comes_to B {#} d \<Longrightarrow> comes_to B {#} d'"
  by (erule run_result) (auto dest: life_loop)

lemma life_each_task:
  assumes "all_good good {#} d" and "comes_to B {#} d"
    and "\<And>t. good t \<Longrightarrow> P t \<Longrightarrow> kept good t (f t) \<and> moves t (f t)"
  shows "comes_to B {#} (each_task e now P f d)"
proof -
  let ?g = "\<lambda>t. if P t then f t else t"
  have g: "kept good t (?g t) \<and> moves t (?g t)" if "t \<in> set (d_tasks d)" for t
    using that assms(1,3) by (auto simp: all_good_def kept_refl)
  have "board_step\<^sup>*\<^sup>* (board_of {#} d) (board_of {#} (d\<lparr>d_tasks := map ?g (d_tasks d)\<rparr>))"
    using entries_move [of "d_tasks d" ?g "{#}"] g
    by (simp add: board_of_def kept_def same_task_def comp_def flip: mset_map)
  then have "comes_to B {#} (d\<lparr>d_tasks := map ?g (d_tasks d)\<rparr>)"
    by (rule comes_to_step [OF assms(2)])
  moreover have "all_good good {#} (d\<lparr>d_tasks := map ?g (d_tasks d)\<rparr>)"
    by (rule all_good_map [OF assms(1)]) (rule g [THEN conjunct1])
  ultimately show ?thesis
    by (simp add: each_task_def Let_def life_listen)
qed

text \<open>Every step of the dispatcher is a sequence of steps of the board.\<close>

lemma step_simulated:
  assumes "dispatcher_step e own new d d'" and "d_active_task d = None" and "all_good good {#} d"
  shows "board_step\<^sup>*\<^sup>* (board_of {#} d) (board_of {#} d')"
proof -
  let ?B = "board_of {#} d"
  have start: "comes_to ?B {#} d" by (simp add: comes_to_def)
  have "comes_to ?B {#} d'"
    using assms(1)
  proof (cases rule: dispatcher_step.cases)
    case (Next_Run now)
    then show ?thesis
      using start assms(2,3) by (auto simp: mms_dispatcher_next_run_def intro: life_run)
  next
    case (Connection c0 c now)
    then show ?thesis
      using start assms(2,3) by (auto simp: state_changed_eq uses_connection_def
          intro!: life_each_task intro: unavailable_kept unavailable_moves)
  next
    case (Task_Callback i t' now)
    let ?d = "d\<lparr>d_tasks := (d_tasks d)[i := t']\<rparr>"
    have good: "good (d_tasks d ! i)"
      using assms(3) Task_Callback(2) by (simp add: all_good_def)
    let ?M = "image_mset entry (mset (d_tasks d) - {#d_tasks d ! i#})"
    have "board_of {#} ?d = add_mset (entry t') ?M" and "?B = add_mset (entry (d_tasks d ! i)) ?M"
      using Task_Callback(2) by (simp_all add: board_of_def mset_update flip: image_mset_add_mset)
    moreover have "board_step\<^sup>*\<^sup>* (add_mset (entry (d_tasks d ! i)) ?M) (add_mset (entry t') ?M)"
      using entry_moves [OF own_moves [OF good Task_Callback(3)]] own_law [OF good Task_Callback(3)]
      by (simp add: kept_def same_task_def)
    ultimately have "board_step\<^sup>*\<^sup>* ?B (board_of {#} ?d)" by simp
    then have "comes_to ?B {#} ?d" by (simp add: comes_to_def)
    moreover have "all_good good {#} ?d"
      by (rule good_update [OF assms(3) Task_Callback(2) own_law [OF good Task_Callback(3)]])
    ultimately show ?thesis
      using Task_Callback(1) by (simp add: task_event_def life_listen)
  next
    case (Queue task cs)
    then show ?thesis
      using start assms(3) user_law user_ready
      by (auto simp: mms_dispatcher_queue_and_unref_task_def intro!: comes_to_queue_task split: option.splits)
  next
    case (Cancel now ident)
    then show ?thesis
      using start assms(2,3) cancel_law cancel_moves by (auto simp: cancel_inactive Let_def mms_task_cancel_def
          intro!: life_each_task)
  qed (use start in \<open>auto simp: mms_dispatcher_network_idle_run_def mms_dispatcher_start_def
        mms_dispatcher_handler_done_def mms_dispatcher_connman_done_def\<close>)
  then show ?thesis by (simp add: comes_to_def)
qed

end

section \<open>The engine\<close>

lemma engine_run_life:
  assumes "engine_ok t" and "t_state t = MMS_TASK_STATE_READY"
  shows "t_state (fn_run (engine_class en) now t) \<noteq> MMS_TASK_STATE_TRANSMITTING"
  using assms
  by (cases t rule: object_cases)
     (simp_all add: class_defs http_life.run_life decode_life.run_life publish_life.run_life
        notification_life.run_life encode_life.run_life)

lemma engine_transmit_life:
  assumes "engine_ok t" and "needs_connection t" and "c_state c = MMS_CONNECTION_STATE_OPEN"
  shows "t_state (fn_transmit (engine_class en) now c t) = MMS_TASK_STATE_TRANSMITTING
    \<or> t_state (fn_transmit (engine_class en) now c t) = MMS_TASK_STATE_DONE"
proof -
  obtain k u where "t = up (Http_Object k) u" "http_ok u"
    using only_http_transmits assms by blast
  then show ?thesis
    using assms http_life.transmit_life [of u c "en_transfer en" "en_http en" k now] by (simp add: http_class_def)
qed

lemma encode_new_ready:
  "mms_task_encode_new te ae mkt retry_secs now ident imsi to cc bcc subject flags parts fs cs = Ret (Some (t, error), fs', cs')
   \<Longrightarrow> t_state t = MMS_TASK_STATE_READY"
  by (auto simp: mms_task_encode_new_def mms_task_alloc_def mms_task_init_def make_id_keeps mms_task.defs Let_def
      split: if_splits option.splits)

lemma user_task_ready: "user_task en cs (Some t) cs' \<Longrightarrow> t_state t = MMS_TASK_STATE_READY"
  by (auto elim!: user_task.cases dest: notification_new_ok [THEN conjunct2] task_of_ok encode_new_ready)

sublocale engine \<subseteq> dispatcher_life "engine_dispatcher en" engine_ok "engine_event en" "user_task en"
  by unfold_locales
     (auto simp: engine_dispatcher_def engine_run_life engine_transmit_life intro: engine_event_moves
        dest: task_of_ok user_task_ready)

lemma engine_ok_delegate: "engine_ok t \<Longrightarrow> engine_ok (t\<lparr>t_delegate := b\<rparr>)"
  by (cases t rule: object_cases)
     (simp_all add: http_ok_def told_ok_def timer_ok_def decode_ok_def publish_ok_def local_state_def
        notification_ok_def encode_ok_def)

text \<open>What the contracts give for the engine.\<close>

context engine
begin

lemmas engine_steps_good = steps_good
lemmas engine_step_simulated = step_simulated
lemmas engine_run_total = run_total
lemmas engine_run_drained = run_drained
lemmas engine_cancel_exactly = cancel_exactly
lemmas engine_connection_lost = connection_lost
lemmas engine_good_finalize = good_finalize [OF _ engine_ok_delegate]

end

section \<open>A sample engine\<close>

definition sample_engine :: "(sample_header list, unit, string, nat) engine_env" where
  "sample_engine =
     \<lparr>en_transfer = sample_te, en_http = sample_env, en_file = sample_fe, en_handler = sample_he,
      en_attachment = sample_ae, en_mkdtemp = (\<lambda>_. Some ''/mms/msg/a1b2c3''), en_files = (\<lambda>_ _. None),
      en_thread_ok = (\<lambda>_. True), en_retry_secs = 15, en_default_imsi = Some ''244'',
      en_open_connection = (\<lambda>imsi ct. Some (sample_connection\<lparr>c_state := MMS_CONNECTION_STATE_OPENING\<rparr>)),
      en_sort = sort_tasks\<rparr>"

interpretation sample: engine sample_engine
  by unfold_locales (simp_all add: sample_engine_def sample_soup_laws sort_tasks_ok)

text \<open>A task that sends a message has been queued and the dispatcher started; then a run asks for the
  connection.\<close>

definition sample_send :: request where
  "sample_send = mms_task_send_new sample_task [0x8C]"

definition sample_queued :: "(request, string task_object) mms_dispatcher" where
  "sample_queued = snd (queue_new sample_engine 1000 (Some sample_send) (mms_dispatcher_new True))"

definition sample_started :: "(request, string task_object) mms_dispatcher" where
  "sample_started = snd (mms_dispatcher_start True sample_queued)"

definition sample_connecting :: "(request, string task_object) mms_dispatcher" where
  "sample_connecting = the (mms_dispatcher_next_run (engine_dispatcher sample_engine) 1000 sample_started)"

text \<open>Here a message is published while the message handler is busy with something else.\<close>

definition sample_publish_request :: request where
  "sample_publish_request = the (mms_task_publish_new (mms_message_new\<lparr>mo_id := Some ''7''\<rparr>))"

definition sample_publishing :: "(request, string task_object) mms_dispatcher" where
  "sample_publishing =
     the (mms_dispatcher_next_run (engine_dispatcher sample_engine) 1000
       ((snd (mms_dispatcher_start True (snd (queue_new sample_engine 1000 (Some sample_publish_request)
          (mms_dispatcher_new True)))))\<lparr>d_handler_busy := 1\<rparr>))"

definition published :: "string engine_task \<Rightarrow> string engine_task" where
  "published = virtual (\<lambda>_ t. t) (\<lambda>t. t) (mms_task_publish_done 1010 True) (\<lambda>t. t) (\<lambda>t. t)"

definition sample_published :: "(request, string task_object) mms_dispatcher" where
  "sample_published = task_event (engine_dispatcher sample_engine) 1010 0
     (published (hd (d_tasks sample_publishing))) sample_publishing"

definition sample_idle :: "(request, string task_object) mms_dispatcher" where
  "sample_idle =
     mms_dispatcher_handler_done
       ((the (mms_dispatcher_next_run (engine_dispatcher sample_engine) 1010 sample_published))\<lparr>d_handler_busy := 0\<rparr>)"

end
