(* ===== verification/Connman.thy ===== *)
theory Connman
  imports Connection
begin

text \<open>
  The connection manager as the library sees it, \<^verbatim>\<open>mms-lib/src/mms_connman.c\<close> and \<^verbatim>\<open>mms_connman.h\<close>, the base
  class of the connections of \<^verbatim>\<open>mms_connection.c\<close>, and the contract every implementation of a connection
  has to satisfy: its state changes only in the two ways that \<^verbatim>\<open>mms_connection.h\<close> allows, and each change is
  signalled once. The implementations are in the theories \<^verbatim>\<open>Connection_Nemo\<close> and \<^verbatim>\<open>Connection_Ofono\<close>.
\<close>

section \<open>The order of the states\<close>

text \<open>The code compares the states as numbers of the enumeration.\<close>

definition state_number :: "mms_connection_state \<Rightarrow> nat" where
  "state_number st =
     (case st of
        MMS_CONNECTION_STATE_INVALID \<Rightarrow> 0
      | MMS_CONNECTION_STATE_OPENING \<Rightarrow> 1
      | MMS_CONNECTION_STATE_FAILED \<Rightarrow> 2
      | MMS_CONNECTION_STATE_OPEN \<Rightarrow> 3
      | MMS_CONNECTION_STATE_CLOSED \<Rightarrow> 4)"

lemma state_number_inject [simp]: "state_number a = state_number b \<longleftrightarrow> a = b"
  by (cases a; cases b) (simp_all add: state_number_def)

instantiation mms_connection_state :: linorder
begin

definition less_eq_mms_connection_state :: "mms_connection_state \<Rightarrow> mms_connection_state \<Rightarrow> bool" where
  "less_eq_mms_connection_state a b \<longleftrightarrow> state_number a \<le> state_number b"

definition less_mms_connection_state :: "mms_connection_state \<Rightarrow> mms_connection_state \<Rightarrow> bool" where
  "less_mms_connection_state a b \<longleftrightarrow> state_number a < state_number b"

instance
  by standard (auto simp: less_eq_mms_connection_state_def less_mms_connection_state_def)

end

lemmas state_order = less_eq_mms_connection_state_def less_mms_connection_state_def state_number_def

definition terminal_state :: "mms_connection_state \<Rightarrow> bool" where
  "terminal_state st \<longleftrightarrow> st = MMS_CONNECTION_STATE_FAILED \<or> st = MMS_CONNECTION_STATE_CLOSED"

text \<open>\<^verbatim>\<open>mms_connection_close\<close> calls the method of the class of the connection, if there is a connection.\<close>

definition mms_connection_close :: "('c \<Rightarrow> 'c) \<Rightarrow> 'c option \<Rightarrow> 'c option" where
  "mms_connection_close fn_close conn = map_option fn_close conn"

section \<open>The connection manager\<close>

text \<open>The busy count, and how often the signal \<^verbatim>\<open>connman-done\<close> has been emitted.\<close>

record mms_connman =
  cm_busy :: int
  cm_done :: nat

record ('cm, 'conn) connman_class =
  fn_default_imsi :: "('cm \<Rightarrow> string option \<times> 'cm) option"
  fn_open_connection :: "('cm \<Rightarrow> string option \<Rightarrow> mms_connection_type \<Rightarrow> 'conn option \<times> 'cm) option"

definition mms_connman_default_imsi ::
    "('cm, 'conn) connman_class \<Rightarrow> 'cm option \<Rightarrow> string option \<times> 'cm option" where
  "mms_connman_default_imsi cls cm =
     (case cm of
        None \<Rightarrow> (None, None)
      | Some self \<Rightarrow>
          (case fn_default_imsi cls of
             None \<Rightarrow> (None, Some self)
           | Some fn \<Rightarrow> map_prod (\<lambda>r. r) Some (fn self)))"

definition mms_connman_open_connection ::
    "('cm, 'conn) connman_class \<Rightarrow> 'cm option \<Rightarrow> string option \<Rightarrow> mms_connection_type
      \<Rightarrow> 'conn option \<times> 'cm option" where
  "mms_connman_open_connection cls cm imsi type =
     (case cm of
        None \<Rightarrow> (None, None)
      | Some self \<Rightarrow>
          (case fn_open_connection cls of
             None \<Rightarrow> (None, Some self)
           | Some fn \<Rightarrow> map_prod (\<lambda>r. r) Some (fn self imsi type)))"

definition mms_connman_busy_update :: "int \<Rightarrow> 'a mms_connman_scheme \<Rightarrow> 'a mms_connman_scheme" where
  "mms_connman_busy_update change cm =
     (if change = 0 then cm
      else let busy = cm_busy cm + change in
        cm\<lparr>cm_busy := busy, cm_done := cm_done cm + (if busy < 1 then 1 else 0)\<rparr>)"

abbreviation mms_connman_busy_inc :: "'a mms_connman_scheme \<Rightarrow> 'a mms_connman_scheme" where
  "mms_connman_busy_inc \<equiv> mms_connman_busy_update 1"

abbreviation mms_connman_busy_dec :: "'a mms_connman_scheme \<Rightarrow> 'a mms_connman_scheme" where
  "mms_connman_busy_dec \<equiv> mms_connman_busy_update (- 1)"

lemma busy_update_busy [simp]: "cm_busy (mms_connman_busy_update n cm) = cm_busy cm + n"
  by (simp add: mms_connman_busy_update_def Let_def)

lemma busy_update_done [simp]:
  "cm_done (mms_connman_busy_update n cm) = cm_done cm + (if n \<noteq> 0 \<and> cm_busy cm + n < 1 then 1 else 0)"
  by (simp add: mms_connman_busy_update_def Let_def)

section \<open>The contract of a connection\<close>

text \<open>
  \<open>start\<close> are the objects a constructor returns, \<open>event\<close> what happens to an object, be it a callback or a call of
  its client, and \<open>signals\<close> the states that have been signalled. The provider chooses an invariant.
\<close>

locale connection_contract =
  fixes conn :: "'s \<Rightarrow> 'm mms_connection_scheme"
    and signals :: "'s \<Rightarrow> mms_connection_state list"
    and start :: "'s \<Rightarrow> bool"
    and event :: "'s \<Rightarrow> 's \<Rightarrow> bool"
    and good :: "'s \<Rightarrow> bool"
  assumes start_good: "start s \<Longrightarrow> good s"
    and start_active: "start s \<Longrightarrow> c_state (conn s) = MMS_CONNECTION_STATE_OPENING \<or> c_state (conn s) = MMS_CONNECTION_STATE_OPEN"
    and start_silent: "start s \<Longrightarrow> signals s = []"
    and event_good: "good s \<Longrightarrow> event s s' \<Longrightarrow> good s'"
    and event_state: "good s \<Longrightarrow> event s s' \<Longrightarrow>
      c_state (conn s') = c_state (conn s) \<and> signals s' = signals s
      \<or> connection_step (c_state (conn s)) (c_state (conn s')) \<and> signals s' = signals s @ [c_state (conn s')]"
    and event_same: "good s \<Longrightarrow> event s s' \<Longrightarrow> c_imsi (conn s') = c_imsi (conn s) \<and> c_type (conn s') = c_type (conn s)"
begin

lemma events_good: "event\<^sup>*\<^sup>* s s' \<Longrightarrow> good s \<Longrightarrow> good s'"
  by (induction rule: rtranclp_induct) (auto intro: event_good)

lemma events_same:
  "event\<^sup>*\<^sup>* s s' \<Longrightarrow> good s \<Longrightarrow> c_imsi (conn s') = c_imsi (conn s) \<and> c_type (conn s') = c_type (conn s)"
proof (induction rule: rtranclp_induct)
  case (step t u)
  then show ?case using event_same [OF events_good] by metis
qed simp

text \<open>What has been signalled, from the first state to the last one, is one of the two sequences of the header.\<close>

lemma events_signals:
  assumes "event\<^sup>*\<^sup>* s s'" and "start s"
  shows "c_state (conn s) # signals s' \<in>
      {[MMS_CONNECTION_STATE_OPENING],
       [MMS_CONNECTION_STATE_OPENING, MMS_CONNECTION_STATE_FAILED],
       [MMS_CONNECTION_STATE_OPENING, MMS_CONNECTION_STATE_OPEN],
       [MMS_CONNECTION_STATE_OPENING, MMS_CONNECTION_STATE_OPEN, MMS_CONNECTION_STATE_CLOSED],
       [MMS_CONNECTION_STATE_OPEN],
       [MMS_CONNECTION_STATE_OPEN, MMS_CONNECTION_STATE_CLOSED]}
    \<and> c_state (conn s') = List.last (c_state (conn s) # signals s')"
  using assms(1)
proof (induction rule: rtranclp_induct)
  case base
  then show ?case using start_active start_silent assms(2) by auto
next
  case (step t u)
  have "good t" using events_good [OF step.hyps(1)] start_good assms(2) by blast
  from event_state [OF this step.hyps(2)] step.IH show ?case
    by (elim disjE conjE) (auto elim!: connection_step.cases)
qed

lemma events_terminal:
  assumes "event\<^sup>*\<^sup>* s s'" and "good s" and "terminal_state (c_state (conn s))"
  shows "c_state (conn s') = c_state (conn s) \<and> signals s' = signals s"
  using assms(1)
proof (induction rule: rtranclp_induct)
  case (step t u)
  from event_state [OF events_good [OF step.hyps(1) assms(2)] step.hyps(2)] step.IH assms(3) show ?case
    by (auto simp: terminal_state_def elim: connection_step.cases)
qed simp

end

end
