(* ===== verification/Gofono.thy ===== *)
theory Gofono
  imports Connman
begin

text \<open>
  The objects of libgofono, through which both implementations of connections see oFono: records of the
  properties that the code reads. They live outside the program; how they change is up to the inputs of the
  models.
\<close>

section \<open>The objects of libgofono\<close>

record ofono_connctx =
  ctx_valid :: bool
  ctx_active :: bool
  ctx_ifname :: "string option"
  ctx_mms_proxy :: "string option"
  ctx_mms_center :: "string option"

record ofono_simmgr =
  sim_valid :: bool
  sim_present :: bool
  sim_imsi :: "string option"

record ofono_connmgr =
  co_valid :: bool
  co_attached :: bool
  co_mms_context :: "ofono_connctx option"

record ofono_extmm =
  mm_valid :: bool
  mm_mms_imsi :: "string option"

text \<open>The functions of libgofono accept a null pointer, which is not valid.\<close>

definition ofono_connctx_valid :: "ofono_connctx option \<Rightarrow> bool" where
  "ofono_connctx_valid ctx \<longleftrightarrow> (case ctx of None \<Rightarrow> False | Some c \<Rightarrow> ctx_valid c)"

definition ofono_connmgr_valid :: "ofono_connmgr option \<Rightarrow> bool" where
  "ofono_connmgr_valid connmgr \<longleftrightarrow> (case connmgr of None \<Rightarrow> False | Some c \<Rightarrow> co_valid c)"

datatype context_request = Activate | Deactivate

text \<open>A property is taken over when the string is there and is not empty.\<close>

definition nonempty_property :: "string option \<Rightarrow> string option \<Rightarrow> string option" where
  "nonempty_property new old = (case new of None \<Rightarrow> old | Some s \<Rightarrow> if s = [] then old else Some s)"

section \<open>Handlers\<close>

text \<open>A notification calls the handler that is connected, if there is one.\<close>

definition if_connected :: "bool \<Rightarrow> ('c \<Rightarrow> 'c) \<Rightarrow> 'c \<Rightarrow> 'c" where
  "if_connected connected handler self = (if connected then handler self else self)"


end
