(* ===== verification/Connection_Nemo.thy ===== *)
theory Connection_Nemo
  imports Gofono
begin

text \<open>
  The connection of a phone with several SIM cards, \<^verbatim>\<open>mms-connman-nemo/src/mms_connection_nemo.c\<close>. It reserves
  the MMS slot of the modem for its SIM (a D-Bus call), waits for the connection manager of the modem and for
  its MMS context, activates the context, and gives the slot back at the end. While a D-Bus call is pending, it
  holds a reference to the connection and counts in the busy count of the connection manager.
\<close>

section \<open>The connection\<close>

text \<open>Two of the handler identifiers are used for two functions each, one after the other.\<close>

datatype mm_valid_handler = Mm_Valid_Changed | Cancel_If_Mm_Invalid

datatype connmgr_valid_handler = Connmgr_Valid_Changed | Cancel_If_Connmgr_Invalid

datatype context_valid_handler = Context_Valid_Changed | Cancel_If_Context_Invalid

datatype nemo_call = Set_Mms_Imsi "string option" | Reset_Mms_Imsi

text \<open>
  \<open>n_pending\<close> are the D-Bus calls without an answer, \<open>n_resets\<close> is how often the slot has been given back,
  \<open>n_context_handlers\<close> stands for the four handlers that are added and removed together,
  \<open>n_asserted\<close> whether all assertions have held so far.
\<close>

record mms_connection_nemo = mms_connection +
  n_cm :: mms_connman
  n_mm :: ofono_extmm
  n_context :: "ofono_connctx option"
  n_connmgr :: "ofono_connmgr option"
  n_mm_valid_handler :: "mm_valid_handler option"
  n_mms_imsi_handler :: bool
  n_context_valid_handler :: "context_valid_handler option"
  n_context_active_handler :: bool
  n_context_handlers :: bool
  n_connmgr_valid_handler :: "connmgr_valid_handler option"
  n_attached_handler :: bool
  n_imsi :: "string option"
  n_path :: "string option"
  n_pending :: "nemo_call list"
  n_resets :: nat
  n_requests :: "context_request list"
  n_signals :: "mms_connection_state list"
  n_asserted :: bool

definition nemo_assert :: "bool \<Rightarrow> mms_connection_nemo \<Rightarrow> mms_connection_nemo" where
  "nemo_assert ok self = self\<lparr>n_asserted := (n_asserted self \<and> ok)\<rparr>"

definition mms_connection_nemo_disconnect :: "mms_connection_nemo \<Rightarrow> mms_connection_nemo" where
  "mms_connection_nemo_disconnect self =
     self\<lparr>n_mm_valid_handler := None, n_mms_imsi_handler := False,
          n_connmgr_valid_handler := None, n_attached_handler := False,
          n_context_valid_handler := None, n_context_active_handler := False, n_context_handlers := False\<rparr>"

text \<open>\<^verbatim>\<open>ofonoext_mm_set_mms_imsi_full\<close>, with the reference and the busy count that its callers take before.\<close>

definition nemo_call_start :: "nemo_call \<Rightarrow> mms_connection_nemo \<Rightarrow> mms_connection_nemo" where
  "nemo_call_start call self =
     self\<lparr>n_cm := mms_connman_busy_inc (n_cm self), n_pending := n_pending self @ [call],
          n_resets := n_resets self + (if call = Reset_Mms_Imsi then 1 else 0)\<rparr>"

text \<open>The end of the callback of a call: the busy count and the reference are given back.\<close>

definition nemo_call_end :: "nemo_call \<Rightarrow> mms_connection_nemo \<Rightarrow> mms_connection_nemo" where
  "nemo_call_end call self =
     self\<lparr>n_cm := mms_connman_busy_dec (n_cm self), n_pending := remove1 call (n_pending self)\<rparr>"

definition mms_connection_nemo_reset_mms_imsi_done :: "mms_connection_nemo \<Rightarrow> mms_connection_nemo" where
  "mms_connection_nemo_reset_mms_imsi_done self = nemo_call_end Reset_Mms_Imsi self"

definition mms_connection_nemo_set_state ::
    "mms_connection_nemo \<Rightarrow> mms_connection_state \<Rightarrow> bool \<times> mms_connection_nemo" where
  "mms_connection_nemo_set_state self st =
     (if c_state self \<noteq> st then
        if c_state self = MMS_CONNECTION_STATE_FAILED \<or> c_state self = MMS_CONNECTION_STATE_CLOSED
        then (False, self)
        else if c_state self > st then (False, self)
        else
          let self =
            (if st = MMS_CONNECTION_STATE_FAILED \<or> st = MMS_CONNECTION_STATE_CLOSED then
               mms_connection_nemo_disconnect
                 (if n_path self \<noteq> None then nemo_call_start Reset_Mms_Imsi self else self)
             else self)
          in (True, self\<lparr>c_state := st, n_signals := n_signals self @ [st]\<rparr>)
      else (True, self))"

definition mms_connection_nemo_cancel :: "mms_connection_nemo \<Rightarrow> mms_connection_nemo" where
  "mms_connection_nemo_cancel self =
     (let (failed, self') = mms_connection_nemo_set_state self MMS_CONNECTION_STATE_FAILED in
      if c_state self \<le> MMS_CONNECTION_STATE_OPENING then
        if failed then self' else snd (mms_connection_nemo_set_state self' MMS_CONNECTION_STATE_CLOSED)
      else snd (mms_connection_nemo_set_state self MMS_CONNECTION_STATE_CLOSED))"

definition mms_connection_nemo_cancel_if_invalid :: "bool \<Rightarrow> mms_connection_nemo \<Rightarrow> mms_connection_nemo" where
  "mms_connection_nemo_cancel_if_invalid obj_valid self =
     (if \<not> obj_valid then mms_connection_nemo_cancel self else self)"

definition mms_connection_nemo_active_changed :: "mms_connection_nemo \<Rightarrow> mms_connection_nemo" where
  "mms_connection_nemo_active_changed self =
     (case n_context self of
        None \<Rightarrow> self
      | Some ctx \<Rightarrow>
          if ctx_active ctx then snd (mms_connection_nemo_set_state self MMS_CONNECTION_STATE_OPEN)
          else snd (mms_connection_nemo_set_state (self\<lparr>n_context_active_handler := False\<rparr>)
                      MMS_CONNECTION_STATE_CLOSED))"

definition mms_connection_nemo_interface_changed :: "mms_connection_nemo \<Rightarrow> mms_connection_nemo" where
  "mms_connection_nemo_interface_changed self =
     (case n_context self of None \<Rightarrow> self | Some ctx \<Rightarrow> self\<lparr>c_netif := ctx_ifname ctx\<rparr>)"

definition mms_connection_nemo_mms_proxy_changed :: "mms_connection_nemo \<Rightarrow> mms_connection_nemo" where
  "mms_connection_nemo_mms_proxy_changed self =
     (case n_context self of None \<Rightarrow> self | Some ctx \<Rightarrow> self\<lparr>c_mmsproxy := ctx_mms_proxy ctx\<rparr>)"

definition mms_connection_nemo_mms_center_changed :: "mms_connection_nemo \<Rightarrow> mms_connection_nemo" where
  "mms_connection_nemo_mms_center_changed self =
     (case n_context self of None \<Rightarrow> self | Some ctx \<Rightarrow> self\<lparr>c_mmsc := ctx_mms_center ctx\<rparr>)"

definition mms_connection_nemo_activate_failed :: "mms_connection_nemo \<Rightarrow> mms_connection_nemo" where
  "mms_connection_nemo_activate_failed self = mms_connection_nemo_cancel self"

definition mms_connection_nemo_check_context :: "mms_connection_nemo \<Rightarrow> mms_connection_nemo" where
  "mms_connection_nemo_check_context self =
     (if c_state self = MMS_CONNECTION_STATE_OPENING then
        if ofono_connctx_valid (n_context self) \<and> ctx_active (the (n_context self)) then
          snd (mms_connection_nemo_set_state self MMS_CONNECTION_STATE_OPEN)
        else if ofono_connmgr_valid (n_connmgr self) \<and> co_attached (the (n_connmgr self)) then
          self\<lparr>n_requests := n_requests self @ [Activate]\<rparr>
        else self
      else self)"

definition mms_connection_nemo_connmgr_attached_changed :: "mms_connection_nemo \<Rightarrow> mms_connection_nemo" where
  "mms_connection_nemo_connmgr_attached_changed self = mms_connection_nemo_check_context self"

text \<open>Called with a valid context only.\<close>

definition mms_connection_nemo_setup_context :: "mms_connection_nemo \<Rightarrow> mms_connection_nemo" where
  "mms_connection_nemo_setup_context self =
     (case n_context self of
        None \<Rightarrow> self
      | Some ctx \<Rightarrow>
          mms_connection_nemo_check_context
            (self\<lparr>n_context_valid_handler := Some Cancel_If_Context_Invalid,
                  c_mmsproxy := nonempty_property (ctx_mms_proxy ctx) (c_mmsproxy self),
                  c_mmsc := nonempty_property (ctx_mms_center ctx) (c_mmsc self),
                  c_netif := nonempty_property (ctx_ifname ctx) (c_netif self),
                  n_context_active_handler := True,
                  n_context_handlers := True,
                  n_attached_handler := True\<rparr>))"

definition mms_connection_nemo_context_valid_changed :: "mms_connection_nemo \<Rightarrow> mms_connection_nemo" where
  "mms_connection_nemo_context_valid_changed self =
     (let self = nemo_assert (c_state self = MMS_CONNECTION_STATE_OPENING) self in
      if ofono_connctx_valid (n_context self) then mms_connection_nemo_setup_context self else self)"

definition mms_connection_nemo_init_context :: "mms_connection_nemo \<Rightarrow> mms_connection_nemo" where
  "mms_connection_nemo_init_context self =
     (let self = nemo_assert (ofono_connmgr_valid (n_connmgr self)) self;
          self = nemo_assert (n_context self = None) self;
          self = self\<lparr>n_connmgr_valid_handler := Some Cancel_If_Connmgr_Invalid,
                      n_context := co_mms_context (the (n_connmgr self))\<rparr>
      in case n_context self of
           Some ctx \<Rightarrow>
             if ctx_valid ctx then mms_connection_nemo_setup_context self
             else self\<lparr>n_context_valid_handler := Some Context_Valid_Changed\<rparr>
         | None \<Rightarrow> mms_connection_nemo_cancel self)"

definition mms_connection_nemo_connmgr_valid_changed :: "mms_connection_nemo \<Rightarrow> mms_connection_nemo" where
  "mms_connection_nemo_connmgr_valid_changed self =
     (let self = nemo_assert (c_state self = MMS_CONNECTION_STATE_OPENING) self in
      if ofono_connmgr_valid (n_connmgr self) then mms_connection_nemo_init_context self else self)"

definition mms_connection_nemo_mms_imsi_changed :: "mms_connection_nemo \<Rightarrow> mms_connection_nemo" where
  "mms_connection_nemo_mms_imsi_changed self =
     (if mm_valid (n_mm self) \<and> mm_mms_imsi (n_mm self) \<noteq> n_imsi self
      then mms_connection_nemo_cancel self else self)"

text \<open>The answer to the reservation: nothing on an error, or the path of the modem with the connection manager that
  \<^verbatim>\<open>ofono_connmgr_new\<close> finds there.\<close>

definition mms_connection_nemo_set_mms_imsi_done ::
    "(string \<times> ofono_connmgr) option \<Rightarrow> mms_connection_nemo \<Rightarrow> mms_connection_nemo" where
  "mms_connection_nemo_set_mms_imsi_done result self =
     nemo_call_end (Set_Mms_Imsi (n_imsi self))
       (case result of
          None \<Rightarrow> mms_connection_nemo_cancel self
        | Some (path, connmgr) \<Rightarrow>
            let self = nemo_assert (n_path self = None) self;
                self = nemo_assert (n_connmgr self = None) self;
                self = self\<lparr>n_path := Some path\<rparr>
            in if c_state self = MMS_CONNECTION_STATE_OPENING then
                 let self = self\<lparr>n_connmgr := Some connmgr, n_mms_imsi_handler := True\<rparr>
                 in if co_valid connmgr then mms_connection_nemo_init_context self
                    else self\<lparr>n_connmgr_valid_handler := Some Connmgr_Valid_Changed\<rparr>
               else nemo_call_start Reset_Mms_Imsi self)"

definition mms_connection_nemo_cancel_if_mm_invalid :: "mms_connection_nemo \<Rightarrow> mms_connection_nemo" where
  "mms_connection_nemo_cancel_if_mm_invalid self =
     (if \<not> mm_valid (n_mm self) then mms_connection_nemo_cancel self else self)"

definition mms_connection_nemo_request_sim :: "mms_connection_nemo \<Rightarrow> mms_connection_nemo" where
  "mms_connection_nemo_request_sim self =
     nemo_call_start (Set_Mms_Imsi (n_imsi self))
       ((nemo_assert (mm_valid (n_mm self)) self)\<lparr>n_mm_valid_handler := Some Cancel_If_Mm_Invalid\<rparr>)"

definition mms_connection_nemo_mm_valid_changed :: "mms_connection_nemo \<Rightarrow> mms_connection_nemo" where
  "mms_connection_nemo_mm_valid_changed self =
     (if mm_valid (n_mm self) then mms_connection_nemo_request_sim self else self)"

definition mms_connection_nemo_new ::
    "mms_connman \<Rightarrow> ofono_extmm \<Rightarrow> string option \<Rightarrow> mms_connection_type \<Rightarrow> mms_connection_nemo" where
  "mms_connection_nemo_new cm mm imsi type =
     (let self =
        \<lparr>c_imsi = (case imsi of None \<Rightarrow> [] | Some s \<Rightarrow> s), c_mmsc = None, c_mmsproxy = None, c_netif = None,
         c_type = type, c_state = MMS_CONNECTION_STATE_OPENING,
         n_cm = cm, n_mm = mm, n_context = None, n_connmgr = None,
         n_mm_valid_handler = None, n_mms_imsi_handler = False,
         n_context_valid_handler = None, n_context_active_handler = False, n_context_handlers = False,
         n_connmgr_valid_handler = None, n_attached_handler = False,
         n_imsi = imsi, n_path = None, n_pending = [], n_resets = 0, n_requests = [], n_signals = [],
         n_asserted = True\<rparr>
      in if mm_valid mm then mms_connection_nemo_request_sim self
         else self\<lparr>n_mm_valid_handler := Some Mm_Valid_Changed\<rparr>)"

definition mms_connection_nemo_close :: "mms_connection_nemo \<Rightarrow> mms_connection_nemo" where
  "mms_connection_nemo_close self =
     (if ofono_connctx_valid (n_context self) \<and> ctx_active (the (n_context self))
      then self\<lparr>n_requests := n_requests self @ [Deactivate]\<rparr>
      else mms_connection_nemo_cancel self)"

definition mms_connection_nemo_dispose :: "mms_connection_nemo \<Rightarrow> mms_connection_nemo" where
  "mms_connection_nemo_dispose self =
     (let active = mms_connection_is_active (Some (mms_connection.truncate self));
          self = mms_connection_nemo_disconnect (nemo_assert (\<not> active) self);
          self = (case n_context self of
                    None \<Rightarrow> self
                  | Some ctx \<Rightarrow>
                      (if active \<and> ctx_active ctx
                       then self\<lparr>n_requests := n_requests self @ [Deactivate]\<rparr> else self)
                      \<lparr>n_context := None\<rparr>)
      in self\<lparr>c_netif := None\<rparr>)"


section \<open>Notifications\<close>

datatype nemo_input =
    Mm_Valid bool
  | Mm_Imsi "string option"
  | Slot_Reserved "(string \<times> ofono_connmgr) option"
  | Slot_Released
  | Connmgr_Valid bool "ofono_connctx option"
  | Connmgr_Attached bool
  | Context_Valid bool
  | Context_Active bool
  | Context_Interface "string option"
  | Context_Proxy "string option"
  | Context_Center "string option"
  | Context_Activate_Failed
  | Close_Nemo

definition update_context :: "(ofono_connctx \<Rightarrow> ofono_connctx) \<Rightarrow> mms_connection_nemo \<Rightarrow> mms_connection_nemo" where
  "update_context f self = self\<lparr>n_context := map_option f (n_context self)\<rparr>"

definition update_connmgr :: "(ofono_connmgr \<Rightarrow> ofono_connmgr) \<Rightarrow> mms_connection_nemo \<Rightarrow> mms_connection_nemo" where
  "update_connmgr f self = self\<lparr>n_connmgr := map_option f (n_connmgr self)\<rparr>"

definition call_mm_valid :: "mms_connection_nemo \<Rightarrow> mms_connection_nemo" where
  "call_mm_valid self =
     (case n_mm_valid_handler self of
        None \<Rightarrow> self
      | Some Mm_Valid_Changed \<Rightarrow> mms_connection_nemo_mm_valid_changed self
      | Some Cancel_If_Mm_Invalid \<Rightarrow> mms_connection_nemo_cancel_if_mm_invalid self)"

definition call_connmgr_valid :: "mms_connection_nemo \<Rightarrow> mms_connection_nemo" where
  "call_connmgr_valid self =
     (case n_connmgr_valid_handler self of
        None \<Rightarrow> self
      | Some Connmgr_Valid_Changed \<Rightarrow> mms_connection_nemo_connmgr_valid_changed self
      | Some Cancel_If_Connmgr_Invalid \<Rightarrow>
          mms_connection_nemo_cancel_if_invalid (ofono_connmgr_valid (n_connmgr self)) self)"

definition call_context_valid :: "mms_connection_nemo \<Rightarrow> mms_connection_nemo" where
  "call_context_valid self =
     (case n_context_valid_handler self of
        None \<Rightarrow> self
      | Some Context_Valid_Changed \<Rightarrow> mms_connection_nemo_context_valid_changed self
      | Some Cancel_If_Context_Invalid \<Rightarrow>
          mms_connection_nemo_cancel_if_invalid (ofono_connctx_valid (n_context self)) self)"

fun nemo_notify :: "nemo_input \<Rightarrow> mms_connection_nemo \<Rightarrow> mms_connection_nemo" where
  "nemo_notify (Mm_Valid b) self = call_mm_valid (self\<lparr>n_mm := (n_mm self)\<lparr>mm_valid := b\<rparr>\<rparr>)"
| "nemo_notify (Mm_Imsi s) self =
     (let self = self\<lparr>n_mm := (n_mm self)\<lparr>mm_mms_imsi := s\<rparr>\<rparr>
      in if_connected (n_mms_imsi_handler self) mms_connection_nemo_mms_imsi_changed self)"
| "nemo_notify (Slot_Reserved result) self = mms_connection_nemo_set_mms_imsi_done result self"
| "nemo_notify Slot_Released self = mms_connection_nemo_reset_mms_imsi_done self"
| "nemo_notify (Connmgr_Valid b ctx) self =
     call_connmgr_valid (update_connmgr (\<lambda>m. m\<lparr>co_valid := b, co_mms_context := ctx\<rparr>) self)"
| "nemo_notify (Connmgr_Attached b) self =
     (let self = update_connmgr (\<lambda>m. m\<lparr>co_attached := b\<rparr>) self
      in if_connected (n_attached_handler self) mms_connection_nemo_connmgr_attached_changed self)"
| "nemo_notify (Context_Valid b) self = call_context_valid (update_context (\<lambda>c. c\<lparr>ctx_valid := b\<rparr>) self)"
| "nemo_notify (Context_Active b) self =
     (let self = update_context (\<lambda>c. c\<lparr>ctx_active := b\<rparr>) self
      in if_connected (n_context_active_handler self) mms_connection_nemo_active_changed self)"
| "nemo_notify (Context_Interface s) self =
     (let self = update_context (\<lambda>c. c\<lparr>ctx_ifname := s\<rparr>) self
      in if_connected (n_context_handlers self) mms_connection_nemo_interface_changed self)"
| "nemo_notify (Context_Proxy s) self =
     (let self = update_context (\<lambda>c. c\<lparr>ctx_mms_proxy := s\<rparr>) self
      in if_connected (n_context_handlers self) mms_connection_nemo_mms_proxy_changed self)"
| "nemo_notify (Context_Center s) self =
     (let self = update_context (\<lambda>c. c\<lparr>ctx_mms_center := s\<rparr>) self
      in if_connected (n_context_handlers self) mms_connection_nemo_mms_center_changed self)"
| "nemo_notify Context_Activate_Failed self =
     if_connected (n_context_handlers self) mms_connection_nemo_activate_failed self"
| "nemo_notify Close_Nemo self = mms_connection_nemo_close self"

text \<open>The answers come to calls that are pending, and libgofono notifies of changes only.\<close>

fun nemo_possible :: "nemo_input \<Rightarrow> mms_connection_nemo \<Rightarrow> bool" where
  "nemo_possible (Mm_Valid b) self \<longleftrightarrow> b \<noteq> mm_valid (n_mm self)"
| "nemo_possible (Slot_Reserved _) self \<longleftrightarrow> Set_Mms_Imsi (n_imsi self) \<in> set (n_pending self)"
| "nemo_possible Slot_Released self \<longleftrightarrow> Reset_Mms_Imsi \<in> set (n_pending self)"
| "nemo_possible (Context_Active b) self \<longleftrightarrow> (case n_context self of None \<Rightarrow> True | Some ctx \<Rightarrow> b \<noteq> ctx_active ctx)"
| "nemo_possible _ self \<longleftrightarrow> True"

inductive nemo_event :: "mms_connection_nemo \<Rightarrow> mms_connection_nemo \<Rightarrow> bool" where
  Notify: "nemo_possible i self \<Longrightarrow> nemo_event self (nemo_notify i self)"

section \<open>The invariant\<close>

text \<open>The stages of opening a connection, and what it listens to in each of them.\<close>

datatype nemo_stage =
    Wait_Modem_Manager
  | Wait_Slot
  | Wait_Connection_Manager
  | Wait_Context
  | Ready
  | Ended

fun in_stage :: "nemo_stage \<Rightarrow> mms_connection_nemo \<Rightarrow> bool" where
  "in_stage Wait_Modem_Manager self \<longleftrightarrow>
     c_state self = MMS_CONNECTION_STATE_OPENING
     \<and> \<not> mm_valid (n_mm self) \<and> n_mm_valid_handler self = Some Mm_Valid_Changed
     \<and> n_pending self = [] \<and> n_resets self = 0 \<and> n_path self = None \<and> n_connmgr self = None \<and> n_context self = None
     \<and> \<not> n_mms_imsi_handler self \<and> n_connmgr_valid_handler self = None \<and> n_context_valid_handler self = None
     \<and> \<not> n_attached_handler self \<and> \<not> n_context_active_handler self \<and> \<not> n_context_handlers self"
| "in_stage Wait_Slot self \<longleftrightarrow>
     c_state self = MMS_CONNECTION_STATE_OPENING
     \<and> n_mm_valid_handler self = Some Cancel_If_Mm_Invalid
     \<and> n_pending self = [Set_Mms_Imsi (n_imsi self)] \<and> n_resets self = 0
     \<and> n_path self = None \<and> n_connmgr self = None \<and> n_context self = None
     \<and> \<not> n_mms_imsi_handler self \<and> n_connmgr_valid_handler self = None \<and> n_context_valid_handler self = None
     \<and> \<not> n_attached_handler self \<and> \<not> n_context_active_handler self \<and> \<not> n_context_handlers self"
| "in_stage Wait_Connection_Manager self \<longleftrightarrow>
     c_state self = MMS_CONNECTION_STATE_OPENING
     \<and> n_mm_valid_handler self = Some Cancel_If_Mm_Invalid
     \<and> n_pending self = [] \<and> n_resets self = 0 \<and> n_path self \<noteq> None \<and> n_connmgr self \<noteq> None \<and> n_context self = None
     \<and> n_mms_imsi_handler self \<and> n_connmgr_valid_handler self = Some Connmgr_Valid_Changed
     \<and> n_context_valid_handler self = None
     \<and> \<not> n_attached_handler self \<and> \<not> n_context_active_handler self \<and> \<not> n_context_handlers self"
| "in_stage Wait_Context self \<longleftrightarrow>
     c_state self = MMS_CONNECTION_STATE_OPENING
     \<and> n_mm_valid_handler self = Some Cancel_If_Mm_Invalid
     \<and> n_pending self = [] \<and> n_resets self = 0 \<and> n_path self \<noteq> None \<and> n_connmgr self \<noteq> None \<and> n_context self \<noteq> None
     \<and> n_mms_imsi_handler self \<and> n_connmgr_valid_handler self = Some Cancel_If_Connmgr_Invalid
     \<and> n_context_valid_handler self = Some Context_Valid_Changed
     \<and> \<not> n_attached_handler self \<and> \<not> n_context_active_handler self \<and> \<not> n_context_handlers self"
| "in_stage Ready self \<longleftrightarrow>
     (c_state self = MMS_CONNECTION_STATE_OPENING \<or> c_state self = MMS_CONNECTION_STATE_OPEN)
     \<and> n_mm_valid_handler self = Some Cancel_If_Mm_Invalid
     \<and> n_pending self = [] \<and> n_resets self = 0 \<and> n_path self \<noteq> None \<and> n_connmgr self \<noteq> None
     \<and> (\<exists>ctx. n_context self = Some ctx \<and> (ctx_active ctx \<longleftrightarrow> c_state self = MMS_CONNECTION_STATE_OPEN))
     \<and> n_mms_imsi_handler self \<and> n_connmgr_valid_handler self = Some Cancel_If_Connmgr_Invalid
     \<and> n_context_valid_handler self = Some Cancel_If_Context_Invalid
     \<and> n_attached_handler self \<and> n_context_active_handler self \<and> n_context_handlers self"
| "in_stage Ended self \<longleftrightarrow>
     terminal_state (c_state self)
     \<and> (n_path self = None \<and> n_connmgr self = None \<and> n_resets self = 0
          \<and> (n_pending self = [] \<or> n_pending self = [Set_Mms_Imsi (n_imsi self)])
        \<or> n_path self \<noteq> None \<and> n_resets self = 1
          \<and> (n_pending self = [] \<or> n_pending self = [Reset_Mms_Imsi]))
     \<and> n_mm_valid_handler self = None
     \<and> \<not> n_mms_imsi_handler self \<and> n_connmgr_valid_handler self = None \<and> n_context_valid_handler self = None
     \<and> \<not> n_attached_handler self \<and> \<not> n_context_active_handler self \<and> \<not> n_context_handlers self"


text \<open>What a step may do to the state, the signals and the busy count.\<close>

definition nemo_moved :: "mms_connection_nemo \<Rightarrow> mms_connection_nemo \<Rightarrow> bool" where
  "nemo_moved self self' \<longleftrightarrow>
     (c_state self' = c_state self \<and> n_signals self' = n_signals self
      \<or> connection_step (c_state self) (c_state self') \<and> n_signals self' = n_signals self @ [c_state self'])
     \<and> c_imsi self' = c_imsi self \<and> c_type self' = c_type self \<and> n_imsi self' = n_imsi self
     \<and> cm_busy (n_cm self') - int (length (n_pending self'))
         = cm_busy (n_cm self) - int (length (n_pending self))
     \<and> (int (length (n_pending self)) \<le> cm_busy (n_cm self)
        \<longrightarrow> cm_done (n_cm self') =
              cm_done (n_cm self) + (if 0 < cm_busy (n_cm self) \<and> cm_busy (n_cm self') = 0 then 1 else 0))"

definition nemo_good :: "mms_connection_nemo \<Rightarrow> bool" where
  "nemo_good self \<longleftrightarrow> n_asserted self \<and> (\<exists>stage. in_stage stage self)"

definition nemo_end :: "mms_connection_state \<Rightarrow> mms_connection_nemo \<Rightarrow> mms_connection_nemo" where
  "nemo_end st self =
     (mms_connection_nemo_disconnect (if n_path self \<noteq> None then nemo_call_start Reset_Mms_Imsi self else self))
       \<lparr>c_state := st, n_signals := n_signals self @ [st]\<rparr>"

lemma busy_not_idle: "\<not> (0 < busy \<and> busy = 0)" for busy :: int
  by simp

lemma nemo_set_state_simps:
  "c_state self = MMS_CONNECTION_STATE_OPENING
    \<Longrightarrow> mms_connection_nemo_set_state self MMS_CONNECTION_STATE_FAILED = (True, nemo_end MMS_CONNECTION_STATE_FAILED self)"
  "c_state self = MMS_CONNECTION_STATE_OPEN
    \<Longrightarrow> mms_connection_nemo_set_state self MMS_CONNECTION_STATE_CLOSED = (True, nemo_end MMS_CONNECTION_STATE_CLOSED self)"
  "c_state self = MMS_CONNECTION_STATE_OPENING
    \<Longrightarrow> mms_connection_nemo_set_state self MMS_CONNECTION_STATE_OPEN
      = (True, self\<lparr>c_state := MMS_CONNECTION_STATE_OPEN, n_signals := n_signals self @ [MMS_CONNECTION_STATE_OPEN]\<rparr>)"
  by (simp_all add: mms_connection_nemo_set_state_def nemo_end_def state_order nemo_call_start_def
      mms_connection_nemo_disconnect_def)

lemma nemo_cancel_simps:
  "c_state self = MMS_CONNECTION_STATE_OPENING \<Longrightarrow> mms_connection_nemo_cancel self = nemo_end MMS_CONNECTION_STATE_FAILED self"
  "c_state self = MMS_CONNECTION_STATE_OPEN \<Longrightarrow> mms_connection_nemo_cancel self = nemo_end MMS_CONNECTION_STATE_CLOSED self"
  "terminal_state (c_state self) \<Longrightarrow> mms_connection_nemo_cancel self = self"
  by (simp_all add: mms_connection_nemo_cancel_def nemo_set_state_simps state_order)
     (auto simp: terminal_state_def mms_connection_nemo_set_state_def)

lemma nemo_end_fields [simp]:
  "c_state (nemo_end st self) = st" "n_signals (nemo_end st self) = n_signals self @ [st]"
  "c_imsi (nemo_end st self) = c_imsi self" "c_type (nemo_end st self) = c_type self"
  "n_imsi (nemo_end st self) = n_imsi self" "n_path (nemo_end st self) = n_path self"
  "n_connmgr (nemo_end st self) = n_connmgr self" "n_context (nemo_end st self) = n_context self"
  "n_asserted (nemo_end st self) = n_asserted self"
  "n_mm_valid_handler (nemo_end st self) = None" "\<not> n_mms_imsi_handler (nemo_end st self)"
  "n_connmgr_valid_handler (nemo_end st self) = None" "n_context_valid_handler (nemo_end st self) = None"
  "\<not> n_attached_handler (nemo_end st self)" "\<not> n_context_active_handler (nemo_end st self)"
  "\<not> n_context_handlers (nemo_end st self)"
  "n_pending (nemo_end st self) = n_pending self @ (if n_path self = None then [] else [Reset_Mms_Imsi])"
  "n_resets (nemo_end st self) = n_resets self + (if n_path self = None then 0 else 1)"
  "cm_busy (n_cm (nemo_end st self)) = cm_busy (n_cm self) + (if n_path self = None then 0 else 1)"
  "cm_done (n_cm (nemo_end st self)) =
     cm_done (n_cm self) + (if n_path self \<noteq> None \<and> cm_busy (n_cm self) < 0 then 1 else 0)"
  by (simp_all add: nemo_end_def nemo_call_start_def mms_connection_nemo_disconnect_def)

lemmas nemo_simple_defs = Let_def busy_not_idle
  if_connected_def call_mm_valid_def call_connmgr_valid_def call_context_valid_def
  update_context_def update_connmgr_def
  mms_connection_nemo_mm_valid_changed_def mms_connection_nemo_request_sim_def nemo_call_start_def nemo_call_end_def
  mms_connection_nemo_reset_mms_imsi_done_def mms_connection_nemo_cancel_if_mm_invalid_def mms_connection_nemo_cancel_if_invalid_def
  mms_connection_nemo_mms_imsi_changed_def mms_connection_nemo_connmgr_attached_changed_def
  mms_connection_nemo_check_context_def mms_connection_nemo_activate_failed_def
  mms_connection_nemo_active_changed_def mms_connection_nemo_interface_changed_def
  mms_connection_nemo_mms_proxy_changed_def mms_connection_nemo_mms_center_changed_def
  mms_connection_nemo_close_def nemo_assert_def ofono_connctx_valid_def ofono_connmgr_valid_def
  nemo_set_state_simps nemo_cancel_simps

text \<open>One lemma for each stage: where it can lead to.\<close>

lemma wait_modem_manager_step:
  assumes "in_stage Wait_Modem_Manager self" and "nemo_possible i self" and "n_asserted self"
  shows "n_asserted (nemo_notify i self) \<and> nemo_moved self (nemo_notify i self)
    \<and> (in_stage Wait_Modem_Manager (nemo_notify i self) \<or> in_stage Wait_Slot (nemo_notify i self)
       \<or> in_stage Ended (nemo_notify i self))"
  using assms
  by (cases i) (simp_all add: nemo_simple_defs nemo_moved_def terminal_state_def connection_step.simps)

text \<open>What is left of the functions for the context when they are called as the code calls them.\<close>

lemma setup_context_eq:
  assumes "c_state self = MMS_CONNECTION_STATE_OPENING" and "n_context self = Some ctx" and "ctx_valid ctx"
  shows "mms_connection_nemo_setup_context self =
    self\<lparr>n_context_valid_handler := Some Cancel_If_Context_Invalid,
         c_mmsproxy := nonempty_property (ctx_mms_proxy ctx) (c_mmsproxy self),
         c_mmsc := nonempty_property (ctx_mms_center ctx) (c_mmsc self),
         c_netif := nonempty_property (ctx_ifname ctx) (c_netif self),
         n_context_active_handler := True, n_context_handlers := True, n_attached_handler := True,
         n_requests := n_requests self
           @ (if \<not> ctx_active ctx \<and> ofono_connmgr_valid (n_connmgr self) \<and> co_attached (the (n_connmgr self))
              then [Activate] else []),
         c_state := (if ctx_active ctx then MMS_CONNECTION_STATE_OPEN else MMS_CONNECTION_STATE_OPENING),
         n_signals := n_signals self @ (if ctx_active ctx then [MMS_CONNECTION_STATE_OPEN] else [])\<rparr>"
  using assms
  by (simp add: mms_connection_nemo_setup_context_def mms_connection_nemo_check_context_def
      ofono_connctx_valid_def nemo_set_state_simps)

lemma init_context_eq:
  assumes "c_state self = MMS_CONNECTION_STATE_OPENING" and "n_connmgr self = Some connmgr" and "co_valid connmgr"
    and "n_context self = None" and "n_asserted self"
  shows "mms_connection_nemo_init_context self =
    (case co_mms_context connmgr of
       None \<Rightarrow> nemo_end MMS_CONNECTION_STATE_FAILED
         (self\<lparr>n_asserted := True, n_connmgr_valid_handler := Some Cancel_If_Connmgr_Invalid, n_context := None\<rparr>)
     | Some ctx \<Rightarrow>
         if ctx_valid ctx then
           mms_connection_nemo_setup_context
             (self\<lparr>n_asserted := True, n_connmgr_valid_handler := Some Cancel_If_Connmgr_Invalid,
                   n_context := Some ctx\<rparr>)
         else self\<lparr>n_asserted := True, n_connmgr_valid_handler := Some Cancel_If_Connmgr_Invalid,
                   n_context := Some ctx, n_context_valid_handler := Some Context_Valid_Changed\<rparr>)"
  using assms
  by (simp add: mms_connection_nemo_init_context_def nemo_assert_def ofono_connmgr_valid_def nemo_cancel_simps
      split: option.split)

lemma any_stage:
  "(\<exists>stage. in_stage stage self) \<longleftrightarrow>
     in_stage Wait_Modem_Manager self \<or> in_stage Wait_Slot self \<or> in_stage Wait_Connection_Manager self
     \<or> in_stage Wait_Context self \<or> in_stage Ready self \<or> in_stage Ended self"
  by (metis nemo_stage.exhaust)


lemma wait_slot_reserved:
  assumes "in_stage Wait_Slot self" and "n_asserted self" and "self' = nemo_notify (Slot_Reserved (Some (path, connmgr))) self"
  shows "n_asserted self' \<and> nemo_moved self self'
    \<and> (in_stage Wait_Connection_Manager self' \<or> in_stage Wait_Context self' \<or> in_stage Ready self' \<or> in_stage Ended self')"
proof -
  let ?s = "self\<lparr>n_asserted := True, n_path := Some path, n_connmgr := Some connmgr, n_mms_imsi_handler := True\<rparr>"
  have *: "self' = nemo_call_end (Set_Mms_Imsi (n_imsi self))
      (if co_valid connmgr then mms_connection_nemo_init_context ?s
       else ?s\<lparr>n_connmgr_valid_handler := Some Connmgr_Valid_Changed\<rparr>)"
    using assms by (simp add: mms_connection_nemo_set_mms_imsi_done_def nemo_assert_def Let_def)
  show ?thesis
    unfolding * using assms(1,2)
    by (cases "co_valid connmgr"; cases "co_mms_context connmgr")
       (simp_all add: init_context_eq setup_context_eq nemo_call_end_def nemo_moved_def connection_step.simps
        terminal_state_def)
qed

lemma wait_slot_other:
  assumes "in_stage Wait_Slot self" and "n_asserted self" and "nemo_possible i self" and "self' = nemo_notify i self"
    and "\<And>r. i \<noteq> Slot_Reserved (Some r)"
  shows "n_asserted self' \<and> nemo_moved self self' \<and> (in_stage Wait_Slot self' \<or> in_stage Ended self')"
proof (cases "\<exists>r. i = Slot_Reserved r")
  case True
  then have i: "i = Slot_Reserved None" using assms(5) by (metis not_None_eq)
  show ?thesis
    using assms(1,2) unfolding assms(4) i
    by (simp add: mms_connection_nemo_set_mms_imsi_done_def nemo_call_end_def nemo_cancel_simps nemo_moved_def
        connection_step.simps terminal_state_def)
next
  case False
  then show ?thesis
    using assms(1-3) unfolding assms(4)
    by (cases i) (simp_all add: nemo_simple_defs nemo_moved_def terminal_state_def connection_step.simps)
qed


lemma wait_connection_manager_step:
  assumes "in_stage Wait_Connection_Manager self" and "n_asserted self" and "nemo_possible i self"
    and "self' = nemo_notify i self"
  shows "n_asserted self' \<and> nemo_moved self self'
    \<and> (in_stage Wait_Connection_Manager self' \<or> in_stage Wait_Context self' \<or> in_stage Ready self' \<or> in_stage Ended self')"
proof (cases "\<exists>ctx. i = Connmgr_Valid True ctx")
  case True
  then obtain ctx where i: "i = Connmgr_Valid True ctx" by blast
  have *: "self' = mms_connection_nemo_init_context
      (self\<lparr>n_connmgr := map_option (\<lambda>m. m\<lparr>co_valid := True, co_mms_context := ctx\<rparr>) (n_connmgr self), n_asserted := True\<rparr>)"
    using assms by (auto simp: i call_connmgr_valid_def update_connmgr_def nemo_assert_def
        mms_connection_nemo_connmgr_valid_changed_def ofono_connmgr_valid_def Let_def)
  from assms(1) obtain connmgr path where "n_connmgr self = Some connmgr" "n_path self = Some path" by auto
  then show ?thesis
    unfolding * using assms(1,2)
    by (cases ctx) (simp_all add: init_context_eq setup_context_eq nemo_moved_def connection_step.simps
        terminal_state_def)
next
  case False
  obtain connmgr path where "n_connmgr self = Some connmgr" "n_path self = Some path" using assms(1) by auto
  then show ?thesis
    using assms(1-3) False unfolding assms(4)
    by (cases i) (simp_all add: nemo_simple_defs mms_connection_nemo_connmgr_valid_changed_def nemo_moved_def terminal_state_def
        connection_step.simps)
qed

lemma wait_context_step:
  assumes "in_stage Wait_Context self" and "n_asserted self" and "nemo_possible i self"
    and "self' = nemo_notify i self"
  shows "n_asserted self' \<and> nemo_moved self self'
    \<and> (in_stage Wait_Context self' \<or> in_stage Ready self' \<or> in_stage Ended self')"
proof (cases "\<exists>b. i = Context_Valid b")
  case True
  then obtain b where i: "i = Context_Valid b" by blast
  from assms(1) obtain ctx where ctx: "n_context self = Some ctx" by auto
  have *: "self' =
      (let s = self\<lparr>n_context := Some (ctx\<lparr>ctx_valid := b\<rparr>), n_asserted := True\<rparr>
       in if b then mms_connection_nemo_setup_context s else s)"
    using assms ctx by (simp add: i call_context_valid_def update_context_def nemo_assert_def
        mms_connection_nemo_context_valid_changed_def ofono_connctx_valid_def Let_def)
  show ?thesis
    unfolding * using assms(1,2) ctx
    by (cases b) (simp_all add: setup_context_eq nemo_moved_def connection_step.simps Let_def)
next
  case False
  obtain ctx connmgr path where "n_context self = Some ctx" "n_connmgr self = Some connmgr" "n_path self = Some path"
    using assms(1) by auto
  then show ?thesis
    using assms(1-3) False unfolding assms(4)
    by (cases i) (simp_all add: nemo_simple_defs nemo_moved_def terminal_state_def connection_step.simps)
qed

lemma ready_step:
  assumes "in_stage Ready self" and "n_asserted self" and "nemo_possible i self"
    and "self' = nemo_notify i self"
  shows "n_asserted self' \<and> nemo_moved self self' \<and> (in_stage Ready self' \<or> in_stage Ended self')"
proof -
  obtain ctx connmgr path where "n_context self = Some ctx" "n_connmgr self = Some connmgr" "n_path self = Some path"
    using assms(1) by auto
  moreover have "c_state self = MMS_CONNECTION_STATE_OPENING \<or> c_state self = MMS_CONNECTION_STATE_OPEN"
    using assms(1) by simp
  ultimately show ?thesis
    using assms(1-3) unfolding assms(4)
    by (elim disjE; cases i)
       (simp_all add: nemo_simple_defs nemo_moved_def terminal_state_def connection_step.simps)
qed

lemma ended_step:
  assumes "in_stage Ended self" and "n_asserted self" and "nemo_possible i self"
    and "self' = nemo_notify i self"
  shows "n_asserted self' \<and> nemo_moved self self' \<and> in_stage Ended self'"
proof (cases "\<exists>r. i = Slot_Reserved r")
  case True
  then obtain r where i: "i = Slot_Reserved r" by blast
  have "n_pending self = [Set_Mms_Imsi (n_imsi self)] \<and> n_path self = None \<and> n_connmgr self = None \<and> n_resets self = 0"
    using assms(1,3) by (auto simp: i)
  moreover have "c_state self \<noteq> MMS_CONNECTION_STATE_OPENING"
    using assms(1) by (auto simp: terminal_state_def)
  ultimately show ?thesis
    using assms(1,2) unfolding assms(4) i
    by (cases r) (auto simp: mms_connection_nemo_set_mms_imsi_done_def nemo_call_end_def nemo_call_start_def
        nemo_assert_def nemo_cancel_simps nemo_moved_def)
next
  case False
  then show ?thesis
    using assms(1-3) unfolding assms(4)
    by (cases i) (auto simp: nemo_simple_defs nemo_moved_def)
qed


lemma nemo_notify_step:
  assumes "nemo_good self" and "nemo_possible i self"
  shows "nemo_good (nemo_notify i self) \<and> nemo_moved self (nemo_notify i self)"
proof -
  from assms(1) obtain stage where ok: "n_asserted self" "in_stage stage self"
    by (auto simp: nemo_good_def)
  show ?thesis
  proof (cases stage)
    case Wait_Modem_Manager
    then show ?thesis
      using wait_modem_manager_step ok assms(2) unfolding nemo_good_def by blast
  next
    case Wait_Slot
    show ?thesis
    proof (cases "\<exists>r. i = Slot_Reserved (Some r)")
      case True
      then show ?thesis
        using wait_slot_reserved [OF _ ok(1) refl] Wait_Slot ok(2) unfolding nemo_good_def by (metis surj_pair)
    next
      case False
      then show ?thesis
        using wait_slot_other [OF _ ok(1) assms(2) refl] Wait_Slot ok(2) unfolding nemo_good_def by metis
    qed
  next
    case Wait_Connection_Manager
    then show ?thesis
      using wait_connection_manager_step [OF _ ok(1) assms(2) refl] ok(2) unfolding nemo_good_def by blast
  next
    case Wait_Context
    then show ?thesis
      using wait_context_step [OF _ ok(1) assms(2) refl] ok(2) unfolding nemo_good_def by blast
  next
    case Ready
    then show ?thesis
      using ready_step [OF _ ok(1) assms(2) refl] ok(2) unfolding nemo_good_def by blast
  next
    case Ended
    then show ?thesis
      using ended_step [OF _ ok(1) assms(2) refl] ok(2) unfolding nemo_good_def by blast
  qed
qed

section \<open>The contract\<close>

definition nemo_start :: "mms_connection_nemo \<Rightarrow> bool" where
  "nemo_start self \<longleftrightarrow> (\<exists>cm mm imsi type. self = mms_connection_nemo_new cm mm imsi type)"

lemma nemo_new_good:
  "nemo_good (mms_connection_nemo_new cm mm imsi type)"
  "c_state (mms_connection_nemo_new cm mm imsi type) = MMS_CONNECTION_STATE_OPENING"
  "n_signals (mms_connection_nemo_new cm mm imsi type) = []"
  "cm_busy (n_cm (mms_connection_nemo_new cm mm imsi type)) =
     cm_busy cm + int (length (n_pending (mms_connection_nemo_new cm mm imsi type)))"
proof -
  have "in_stage (if mm_valid mm then Wait_Slot else Wait_Modem_Manager) (mms_connection_nemo_new cm mm imsi type)"
    by (simp add: mms_connection_nemo_new_def mms_connection_nemo_request_sim_def nemo_call_start_def
        nemo_assert_def Let_def)
  moreover have "n_asserted (mms_connection_nemo_new cm mm imsi type)"
    by (simp add: mms_connection_nemo_new_def mms_connection_nemo_request_sim_def nemo_call_start_def
        nemo_assert_def Let_def)
  ultimately show "nemo_good (mms_connection_nemo_new cm mm imsi type)"
    unfolding nemo_good_def by blast
qed (simp_all add: mms_connection_nemo_new_def mms_connection_nemo_request_sim_def nemo_call_start_def
    nemo_assert_def Let_def)

interpretation nemo: connection_contract "\<lambda>self. self" n_signals nemo_start nemo_event nemo_good
proof unfold_locales
  fix s s' :: mms_connection_nemo
  assume good: "nemo_good s" and "nemo_event s s'"
  then obtain i where i: "nemo_possible i s" "s' = nemo_notify i s" by (auto elim: nemo_event.cases)
  note step = nemo_notify_step [OF good i(1), folded i(2)]
  show "nemo_good s'"
    using step by simp
  show "c_state s' = c_state s \<and> n_signals s' = n_signals s
      \<or> connection_step (c_state s) (c_state s') \<and> n_signals s' = n_signals s @ [c_state s']"
    using step by (simp add: nemo_moved_def)
  show "c_imsi s' = c_imsi s \<and> c_type s' = c_type s"
    using step by (simp add: nemo_moved_def)
qed (auto simp: nemo_start_def nemo_new_good)

lemma nemo_reached_good: "nemo_start s \<Longrightarrow> nemo_event\<^sup>*\<^sup>* s s' \<Longrightarrow> nemo_good s'"
  using nemo.events_good nemo.start_good by blast

lemma nemo_busy_kept:
  assumes "nemo_event\<^sup>*\<^sup>* s s'" and "nemo_good s"
  shows "cm_busy (n_cm s') - int (length (n_pending s')) = cm_busy (n_cm s) - int (length (n_pending s))"
  using assms(1)
proof (induction rule: rtranclp_induct)
  case (step t u)
  then obtain i where "nemo_possible i t" "u = nemo_notify i t" by (auto elim: nemo_event.cases)
  with nemo_notify_step nemo.events_good [OF step.hyps(1) assms(2)] step.IH show ?case
    by (simp add: nemo_moved_def)
qed simp

lemma nemo_imsi_kept:
  assumes "nemo_event\<^sup>*\<^sup>* s s'" and "nemo_good s"
  shows "n_imsi s' = n_imsi s"
  using assms(1)
proof (induction rule: rtranclp_induct)
  case (step t u)
  then obtain i where "nemo_possible i t" "u = nemo_notify i t" by (auto elim: nemo_event.cases)
  with nemo_notify_step nemo.events_good [OF step.hyps(1) assms(2)] step.IH show ?case
    by (simp add: nemo_moved_def)
qed simp

text \<open>The slot of the modem: it is given back exactly once if it was reserved, when the connection has ended, and
  not before; a connection is open only while it has the slot.\<close>

lemma nemo_slot:
  assumes "nemo_good self"
  shows "n_resets self = (if n_path self \<noteq> None \<and> terminal_state (c_state self) then 1 else 0)"
    and "c_state self = MMS_CONNECTION_STATE_OPEN \<Longrightarrow> n_path self \<noteq> None
      \<and> (\<exists>ctx. n_context self = Some ctx \<and> ctx_active ctx)"
proof -
  from assms obtain stage where "in_stage stage self" by (auto simp: nemo_good_def)
  then show "n_resets self = (if n_path self \<noteq> None \<and> terminal_state (c_state self) then 1 else 0)"
    and "c_state self = MMS_CONNECTION_STATE_OPEN \<Longrightarrow> n_path self \<noteq> None
      \<and> (\<exists>ctx. n_context self = Some ctx \<and> ctx_active ctx)"
    by (cases stage; auto simp: terminal_state_def)+
qed

end
