(* ===== verification/Busy_Object.thy ===== *)
theory Busy_Object
  imports Mms_Prelude
begin

text \<open>
  What the dispatcher relies on when it asks \<^verbatim>\<open>mms_connman_busy\<close> and \<^verbatim>\<open>mms_handler_busy\<close>: both objects have a
  busy count, one for each call that is pending, and emit a signal when the count comes down to zero.
  The connection managers and the message handler are its providers.
\<close>

locale busy_object =
  fixes busy :: "'s \<Rightarrow> int"
    and told :: "'s \<Rightarrow> nat"
    and pending :: "'s \<Rightarrow> nat"
    and good :: "'s \<Rightarrow> bool"
    and step :: "'s \<Rightarrow> 's \<Rightarrow> bool"
  assumes good_balance: "good s \<Longrightarrow> busy s = int (pending s)"
    and step_good: "good s \<Longrightarrow> step s s' \<Longrightarrow> good s'"
    and step_told: "good s \<Longrightarrow> step s s' \<Longrightarrow> told s' = told s + (if 0 < busy s \<and> busy s' = 0 then 1 else 0)"
begin

lemma steps_good: "step\<^sup>*\<^sup>* s s' \<Longrightarrow> good s \<Longrightarrow> good s'"
  by (induction rule: rtranclp_induct) (auto intro: step_good)

lemma busy_iff: "good s \<Longrightarrow> 0 < busy s \<longleftrightarrow> 0 < pending s"
  by (simp add: good_balance)

lemma told_grows: "step\<^sup>*\<^sup>* s s' \<Longrightarrow> good s \<Longrightarrow> told s \<le> told s'"
proof (induction rule: rtranclp_induct)
  case (step t u)
  then show ?case using step_told [OF steps_good] by fastforce
qed simp

text \<open>Whenever all calls that were pending have been answered, this has been told in between.\<close>

lemma idle_is_told:
  assumes "step\<^sup>*\<^sup>* s s'" and "good s" and "0 < pending s" and "pending s' = 0"
  shows "told s < told s'"
  using assms(1,4)
proof (induction rule: rtranclp_induct)
  case base
  then show ?case using assms(3) by simp
next
  case (step t u)
  have t: "good t" by (rule steps_good [OF step.hyps(1) assms(2)])
  show ?case
  proof (cases "pending t = 0")
    case True
    then show ?thesis using step.IH step_told [OF t step.hyps(2)] by simp
  next
    case False
    then have "told u = told t + 1"
      using step_told [OF t step.hyps(2)] good_balance [OF t] good_balance [OF step_good [OF t step.hyps(2)]] step.prems
      by simp
    then show ?thesis using told_grows [OF step.hyps(1) assms(2)] by simp
  qed
qed

end

end
