(* ===== verification/Connman_Nemo.thy ===== *)
theory Connman_Nemo
  imports Connection_Nemo Busy_Object
begin

text \<open>
  The connection manager of a phone with several SIM cards, \<^verbatim>\<open>mms-connman-nemo/src/mms_connman_nemo.c\<close>. It
  remembers one connection, without a reference to it, as long as this one is active.
\<close>

section \<open>The object\<close>

text \<open>
  \<open>cmn_conns\<close> are all connections ever made, a connection is its position; \<open>cmn_conn\<close> is the one the manager
  remembers, \<open>cmn_conn_change_id\<close> whether it listens to its changes. The connections share the busy count of
  the manager, the object they are given at their creation.
\<close>

record mms_connman_nemo = mms_connman +
  cmn_conns :: "mms_connection_nemo list"
  cmn_conn :: "nat option"
  cmn_conn_change_id :: bool
  cmn_mm :: ofono_extmm
  cmn_voice_modem :: "string option"
  cmn_default_sim :: "(string \<times> ofono_simmgr) option"

text \<open>\<open>sim_at\<close> is what \<^verbatim>\<open>ofono_simmgr_new\<close> finds at a path.\<close>

definition mms_connman_nemo_check_default_sim ::
    "(string \<Rightarrow> ofono_simmgr) \<Rightarrow> mms_connman_nemo \<Rightarrow> mms_connman_nemo" where
  "mms_connman_nemo_check_default_sim sim_at self =
     (let path = (if mm_valid (cmn_mm self) then cmn_voice_modem self else None) in
      if path \<noteq> map_option fst (cmn_default_sim self)
      then self\<lparr>cmn_default_sim := map_option (\<lambda>p. (p, sim_at p)) path\<rparr>
      else self)"

text \<open>Waiting runs the main loop, until the object is valid or for thirty seconds: \<open>wait\<close> is what happens.\<close>

definition mms_connman_nemo_mm_valid ::
    "(mms_connman_nemo \<Rightarrow> mms_connman_nemo) \<Rightarrow> mms_connman_nemo \<Rightarrow> bool \<times> mms_connman_nemo" where
  "mms_connman_nemo_mm_valid wait self =
     (if mm_valid (cmn_mm self) then (True, self)
      else let self = wait self in (mm_valid (cmn_mm self), self))"

definition mms_connman_nemo_default_imsi ::
    "(mms_connman_nemo \<Rightarrow> mms_connman_nemo) \<Rightarrow> (mms_connman_nemo \<Rightarrow> bool \<times> mms_connman_nemo)
      \<Rightarrow> mms_connman_nemo \<Rightarrow> string option \<times> mms_connman_nemo" where
  "mms_connman_nemo_default_imsi wait wait_sim self =
     (let (valid, self) = mms_connman_nemo_mm_valid wait self in
      if valid \<and> cmn_default_sim self \<noteq> None then
        let (valid, self) = wait_sim self in
        if valid then
          (case cmn_default_sim self of
             Some (_, sim) \<Rightarrow> (sim_imsi sim, self)
           | None \<Rightarrow> (None, self))
        else (None, self)
      else (None, self))"

definition mms_connman_nemo_connection_weak_ref_notify :: "mms_connman_nemo \<Rightarrow> mms_connman_nemo" where
  "mms_connman_nemo_connection_weak_ref_notify self = self\<lparr>cmn_conn_change_id := False, cmn_conn := None\<rparr>"

definition mms_connman_nemo_drop_connection :: "mms_connman_nemo \<Rightarrow> mms_connman_nemo" where
  "mms_connman_nemo_drop_connection self =
     (if cmn_conn self \<noteq> None then self\<lparr>cmn_conn_change_id := False, cmn_conn := None\<rparr> else self)"

definition connection_active :: "mms_connection_nemo \<Rightarrow> bool" where
  "connection_active c \<longleftrightarrow> mms_connection_is_active (Some (mms_connection.truncate c))"

definition mms_connman_nemo_connection_state_changed :: "mms_connman_nemo \<Rightarrow> mms_connman_nemo" where
  "mms_connman_nemo_connection_state_changed self =
     (case cmn_conn self of
        None \<Rightarrow> self
      | Some a \<Rightarrow>
          if \<not> connection_active (cmn_conns self ! a) then mms_connman_nemo_drop_connection self else self)"

definition mms_connman_nemo_open_connection ::
    "mms_connman_nemo \<Rightarrow> string option \<Rightarrow> mms_connection_type \<Rightarrow> nat \<times> mms_connman_nemo" where
  "mms_connman_nemo_open_connection self imsi type =
     (case (case cmn_conn self of
              Some a \<Rightarrow> if n_imsi (cmn_conns self ! a) = imsi then Some a else None
            | None \<Rightarrow> None) of
        Some a \<Rightarrow> (a, self)
      | None \<Rightarrow>
          let self = mms_connman_nemo_drop_connection self;
              c = mms_connection_nemo_new (mms_connman.truncate self) (cmn_mm self) imsi type;
              a = length (cmn_conns self)
          in (a, self\<lparr>cm_busy := cm_busy (n_cm c), cm_done := cm_done (n_cm c),
                      cmn_conns := cmn_conns self @ [c], cmn_conn := Some a, cmn_conn_change_id := True\<rparr>))"

definition mms_connman_nemo_dispose :: "mms_connman_nemo \<Rightarrow> mms_connman_nemo" where
  "mms_connman_nemo_dispose self = mms_connman_nemo_drop_connection (self\<lparr>cmn_default_sim := None\<rparr>)"

text \<open>A new manager looks for the default SIM at once.\<close>

definition mms_connman_nemo_new ::
    "(string \<Rightarrow> ofono_simmgr) \<Rightarrow> ofono_extmm \<Rightarrow> string option \<Rightarrow> mms_connman_nemo" where
  "mms_connman_nemo_new sim_at mm voice_modem =
     mms_connman_nemo_check_default_sim sim_at
       \<lparr>cm_busy = 0, cm_done = 0, cmn_conns = [], cmn_conn = None, cmn_conn_change_id = False,
        cmn_mm = mm, cmn_voice_modem = voice_modem, cmn_default_sim = None\<rparr>"

definition nemo_connman_class ::
    "(mms_connman_nemo \<Rightarrow> mms_connman_nemo) \<Rightarrow> (mms_connman_nemo \<Rightarrow> bool \<times> mms_connman_nemo)
      \<Rightarrow> (mms_connman_nemo, nat) connman_class" where
  "nemo_connman_class wait wait_sim =
     \<lparr>fn_default_imsi = Some (mms_connman_nemo_default_imsi wait wait_sim),
      fn_open_connection = Some (\<lambda>self imsi type. map_prod Some (\<lambda>s. s) (mms_connman_nemo_open_connection self imsi type))\<rparr>"

section \<open>Steps\<close>

text \<open>
  Something happens to a connection: it works on the busy count of the manager, and when it has signalled a
  change of its state and the manager listens to it, the manager looks at it.
\<close>

definition connection_notified :: "nat \<Rightarrow> nemo_input \<Rightarrow> mms_connman_nemo \<Rightarrow> mms_connman_nemo" where
  "connection_notified a i self =
     (let c = (cmn_conns self ! a)\<lparr>n_cm := mms_connman.truncate self\<rparr>;
          c' = nemo_notify i c;
          self = self\<lparr>cm_busy := cm_busy (n_cm c'), cm_done := cm_done (n_cm c'),
                      cmn_conns := (cmn_conns self)[a := c']\<rparr>
      in if n_signals c' \<noteq> n_signals c \<and> cmn_conn self = Some a \<and> cmn_conn_change_id self
         then mms_connman_nemo_connection_state_changed self else self)"

inductive connman_nemo_step :: "(string \<Rightarrow> ofono_simmgr) \<Rightarrow> mms_connman_nemo \<Rightarrow> mms_connman_nemo \<Rightarrow> bool"
  for sim_at where
  Connection: "a < length (cmn_conns self) \<Longrightarrow> nemo_possible i (cmn_conns self ! a)
    \<Longrightarrow> connman_nemo_step sim_at self (connection_notified a i self)"
| Connection_Gone: "cmn_conn self = Some a
    \<Longrightarrow> connman_nemo_step sim_at self (mms_connman_nemo_connection_weak_ref_notify self)"
| Open: "connman_nemo_step sim_at self (snd (mms_connman_nemo_open_connection self imsi type))"
| Modem_Manager: "connman_nemo_step sim_at self
    (mms_connman_nemo_check_default_sim sim_at (self\<lparr>cmn_mm := mm, cmn_voice_modem := path\<rparr>))"
| Sim: "cmn_default_sim self = Some (path, sim) \<Longrightarrow> connman_nemo_step sim_at self (self\<lparr>cmn_default_sim := Some (path, sim')\<rparr>)"
| Dispose: "connman_nemo_step sim_at self (mms_connman_nemo_dispose self)"

section \<open>The invariant\<close>

definition pending_calls :: "mms_connection_nemo list \<Rightarrow> int" where
  "pending_calls cs = int (sum_list (map (\<lambda>c. length (n_pending c)) cs))"

text \<open>Each connection satisfies its own invariant, the busy count is the number of calls that are pending, and
  the connection the manager remembers is active.\<close>

definition connman_nemo_good :: "mms_connman_nemo \<Rightarrow> bool" where
  "connman_nemo_good self \<longleftrightarrow>
     list_all nemo_good (cmn_conns self)
     \<and> cm_busy self = pending_calls (cmn_conns self)
     \<and> (cmn_conn_change_id self \<longleftrightarrow> cmn_conn self \<noteq> None)
     \<and> (case cmn_conn self of
          None \<Rightarrow> True
        | Some a \<Rightarrow> a < length (cmn_conns self) \<and> connection_active (cmn_conns self ! a))"

lemma in_stage_cm: "in_stage stage (self\<lparr>n_cm := cm\<rparr>) \<longleftrightarrow> in_stage stage self"
  by (cases stage) simp_all

lemma nemo_good_cm [simp]: "nemo_good (self\<lparr>n_cm := cm\<rparr>) \<longleftrightarrow> nemo_good self"
  by (simp add: nemo_good_def in_stage_cm)

lemma nemo_possible_cm [simp]: "nemo_possible i (self\<lparr>n_cm := cm\<rparr>) \<longleftrightarrow> nemo_possible i self"
  by (cases i) simp_all

lemma connection_active_iff:
  "connection_active c \<longleftrightarrow> c_state c = MMS_CONNECTION_STATE_OPEN \<or> c_state c = MMS_CONNECTION_STATE_OPENING"
  by (simp add: connection_active_def mms_connection.truncate_def)

lemma pending_calls_append: "pending_calls (cs @ [c]) = pending_calls cs + int (length (n_pending c))"
  by (simp add: pending_calls_def)

lemma pending_calls_update:
  "a < length cs \<Longrightarrow>
   pending_calls (cs[a := c]) = pending_calls cs - int (length (n_pending (cs ! a))) + int (length (n_pending c))"
  unfolding pending_calls_def
  by (induction cs arbitrary: a) (auto split: nat.split simp: nth_Cons')

lemma pending_calls_nonneg: "a < length cs \<Longrightarrow> int (length (n_pending (cs ! a))) \<le> pending_calls cs"
  unfolding pending_calls_def by (metis elem_le_sum_list length_map nth_map of_nat_le_iff)

lemma connection_notified_good:
  assumes good: "connman_nemo_good self" and a: "a < length (cmn_conns self)" and i: "nemo_possible i (cmn_conns self ! a)"
    and self': "self' = connection_notified a i self"
  shows "connman_nemo_good self'
    \<and> cm_done self' = cm_done self + (if 0 < cm_busy self \<and> cm_busy self' = 0 then 1 else 0)"
proof -
  let ?c = "(cmn_conns self ! a)\<lparr>n_cm := mms_connman.truncate self\<rparr>"
  let ?c' = "nemo_notify i ?c"
  have c: "nemo_good ?c" using good a by (simp add: connman_nemo_good_def list_all_length)
  have step: "nemo_good ?c'" "nemo_moved ?c ?c'"
    using nemo_notify_step [OF c, of i] i by simp_all
  have busy: "cm_busy (n_cm ?c) = cm_busy self" "cm_done (n_cm ?c) = cm_done self"
    by (simp_all add: mms_connman.truncate_def)
  have le: "int (length (n_pending ?c)) \<le> cm_busy self"
    using pending_calls_nonneg [OF a] good by (simp add: connman_nemo_good_def)
  have same: "connection_active ?c' \<longleftrightarrow> connection_active (cmn_conns self ! a)" if "n_signals ?c' = n_signals ?c"
    using step(2) that unfolding nemo_moved_def by (auto simp: connection_active_iff)
  have conns: "list_all nemo_good ((cmn_conns self)[a := ?c'])"
    using good step(1) by (auto simp: connman_nemo_good_def list_all_iff dest: set_update_subset_insert [THEN subsetD])
  have count: "cm_busy (n_cm ?c') = pending_calls ((cmn_conns self)[a := ?c'])"
    using step(2) busy good by (simp add: nemo_moved_def pending_calls_update [OF a] connman_nemo_good_def)
  have told: "cm_done (n_cm ?c') = cm_done self + (if 0 < cm_busy self \<and> cm_busy (n_cm ?c') = 0 then 1 else 0)"
    using step(2) busy le by (simp add: nemo_moved_def)
  let ?s = "self\<lparr>cm_busy := cm_busy (n_cm ?c'), cm_done := cm_done (n_cm ?c'), cmn_conns := (cmn_conns self)[a := ?c']\<rparr>"
  have self'_eq: "self' = (if n_signals ?c' \<noteq> n_signals ?c \<and> cmn_conn self = Some a \<and> cmn_conn_change_id self
      then mms_connman_nemo_connection_state_changed ?s else ?s)"
    by (simp add: self' connection_notified_def Let_def)
  show ?thesis
  proof (cases "cmn_conn self = Some a")
    case True
    then show ?thesis
      using good a conns count told same
      by (auto simp: self'_eq connman_nemo_good_def mms_connman_nemo_connection_state_changed_def
          mms_connman_nemo_drop_connection_def)
  next
    case False
    then show ?thesis
      using good conns count told
      by (auto simp: self'_eq connman_nemo_good_def nth_list_update split: option.splits)
  qed
qed


lemma open_connection_good:
  assumes good: "connman_nemo_good self"
    and opened: "(a, self') = mms_connman_nemo_open_connection self imsi type"
  shows "connman_nemo_good self' \<and> cmn_conn self' = Some a \<and> n_imsi (cmn_conns self' ! a) = imsi
    \<and> connection_active (cmn_conns self' ! a)
    \<and> (\<exists>new. cmn_conns self' = cmn_conns self @ new)"
proof (cases "\<exists>b. cmn_conn self = Some b \<and> n_imsi (cmn_conns self ! b) = imsi")
  case True
  then show ?thesis
    using good opened by (auto simp: mms_connman_nemo_open_connection_def connman_nemo_good_def)
next
  case False
  let ?c = "mms_connection_nemo_new (mms_connman.truncate self) (cmn_mm self) imsi type"
  have truncate: "mms_connman.truncate (mms_connman_nemo_drop_connection self) = mms_connman.truncate self"
    "cmn_mm (mms_connman_nemo_drop_connection self) = cmn_mm self"
    "cmn_conns (mms_connman_nemo_drop_connection self) = cmn_conns self"
    by (simp_all add: mms_connman_nemo_drop_connection_def mms_connman.truncate_def)
  have eq: "a = length (cmn_conns self)" "self' = (mms_connman_nemo_drop_connection self)
      \<lparr>cm_busy := cm_busy (n_cm ?c), cm_done := cm_done (n_cm ?c),
       cmn_conns := cmn_conns self @ [?c], cmn_conn := Some a, cmn_conn_change_id := True\<rparr>"
    using False opened by (auto simp: mms_connman_nemo_open_connection_def Let_def truncate split: option.splits)
  have "cm_busy (n_cm ?c) = cm_busy self + int (length (n_pending ?c))"
    using nemo_new_good(4) by (simp add: mms_connman.truncate_def)
  moreover have "n_imsi ?c = imsi"
    by (simp add: mms_connection_nemo_new_def mms_connection_nemo_request_sim_def nemo_call_start_def
        nemo_assert_def Let_def)
  ultimately show ?thesis
    using good nemo_new_good(1,2) by (simp add: eq connman_nemo_good_def pending_calls_append connection_active_iff)
qed

lemma connman_nemo_step_good:
  assumes "connman_nemo_step sim_at self self'" and "connman_nemo_good self"
  shows "connman_nemo_good self'"
  using assms
proof (cases rule: connman_nemo_step.cases)
  case (Connection a i)
  then show ?thesis using connection_notified_good [OF assms(2) _ _ refl] by blast
next
  case (Open imsi type)
  then show ?thesis using open_connection_good [OF assms(2)] by (metis surjective_pairing)
qed (use assms(2) in \<open>auto simp: connman_nemo_good_def mms_connman_nemo_connection_weak_ref_notify_def
    mms_connman_nemo_check_default_sim_def mms_connman_nemo_dispose_def mms_connman_nemo_drop_connection_def Let_def\<close>)

text \<open>The manager keeps the promise of a busy object.\<close>

lemma nemo_new_done:
  "0 \<le> cm_busy cm \<Longrightarrow> cm_done (n_cm (mms_connection_nemo_new cm mm imsi type)) = cm_done cm"
  by (simp add: mms_connection_nemo_new_def mms_connection_nemo_request_sim_def nemo_call_start_def nemo_assert_def
      Let_def)

lemma open_connection_done:
  assumes "connman_nemo_good self" and "self' = snd (mms_connman_nemo_open_connection self imsi type)"
  shows "cm_done self' = cm_done self \<and> cm_busy self \<le> cm_busy self'"
proof -
  have "0 \<le> cm_busy self" using assms(1) by (simp add: connman_nemo_good_def pending_calls_def)
  moreover have "cm_busy (mms_connman.truncate self) = cm_busy self" "cm_done (mms_connman.truncate self) = cm_done self"
    "mms_connman.truncate (mms_connman_nemo_drop_connection self) = mms_connman.truncate self"
    by (simp_all add: mms_connman.truncate_def mms_connman_nemo_drop_connection_def)
  ultimately show ?thesis
    using nemo_new_done nemo_new_good(4)
    by (simp add: assms(2) mms_connman_nemo_open_connection_def Let_def split: option.split)
qed

lemma connman_nemo_step_told:
  assumes "connman_nemo_good self" and "connman_nemo_step sim_at self self'"
  shows "cm_done self' = cm_done self + (if 0 < cm_busy self \<and> cm_busy self' = 0 then 1 else 0)"
  using assms(2)
proof (cases rule: connman_nemo_step.cases)
  case (Connection a i)
  then show ?thesis using connection_notified_good [OF assms(1) _ _ refl] by blast
next
  case (Open imsi type)
  then show ?thesis using open_connection_done [OF assms(1) Open] by simp
qed (simp_all add: mms_connman_nemo_connection_weak_ref_notify_def mms_connman_nemo_check_default_sim_def
    mms_connman_nemo_dispose_def mms_connman_nemo_drop_connection_def Let_def)

interpretation connman_nemo: busy_object cm_busy cm_done "\<lambda>self. nat (pending_calls (cmn_conns self))"
  connman_nemo_good "connman_nemo_step sim_at"
proof unfold_locales
  fix self self'
  show "cm_busy self = int (nat (pending_calls (cmn_conns self)))" if "connman_nemo_good self"
    using that by (simp add: connman_nemo_good_def pending_calls_def)
  show "connman_nemo_good self'" if "connman_nemo_good self" and "connman_nemo_step sim_at self self'"
    using that(2,1) by (rule connman_nemo_step_good)
qed (rule connman_nemo_step_told)

inductive connman_nemo_reaches :: "(string \<Rightarrow> ofono_simmgr) \<Rightarrow> mms_connman_nemo \<Rightarrow> bool" for sim_at where
  New: "connman_nemo_reaches sim_at (mms_connman_nemo_new sim_at mm voice_modem)"
| Step: "connman_nemo_reaches sim_at self \<Longrightarrow> connman_nemo_step sim_at self self' \<Longrightarrow> connman_nemo_reaches sim_at self'"

lemma connman_nemo_reaches_good: "connman_nemo_reaches sim_at self \<Longrightarrow> connman_nemo_good self"
proof (induction rule: connman_nemo_reaches.induct)
  case (New mm voice_modem)
  then show ?case
    by (simp add: mms_connman_nemo_new_def mms_connman_nemo_check_default_sim_def connman_nemo_good_def
        pending_calls_def Let_def)
next
  case (Step self self')
  then show ?case by (rule_tac connman_nemo_step_good)
qed

section \<open>Properties\<close>

text \<open>A connection that gets the slot, activates its context, and is open.\<close>

definition sample_manager :: mms_connman_nemo where
  "sample_manager = mms_connman_nemo_new (\<lambda>p. \<lparr>sim_valid = True, sim_present = True, sim_imsi = Some ''001''\<rparr>)
     \<lparr>mm_valid = True, mm_mms_imsi = None\<rparr> (Some ''/ril_0'')"

definition sample_nemo :: "nemo_input list \<Rightarrow> mms_connection_nemo" where
  "sample_nemo inputs = fold nemo_notify inputs
     (mms_connection_nemo_new \<lparr>cm_busy = 0, cm_done = 0\<rparr> \<lparr>mm_valid = True, mm_mms_imsi = None\<rparr> (Some ''001'')
        MMS_CONNECTION_TYPE_AUTO)"

definition sample_reservation :: nemo_input where
  "sample_reservation = Slot_Reserved (Some (''/ril_0'', \<lparr>co_valid = True, co_attached = True,
     co_mms_context = Some \<lparr>ctx_valid = True, ctx_active = False, ctx_ifname = None, ctx_mms_proxy = None,
                            ctx_mms_center = Some ''http://mmsc''\<rparr>\<rparr>))"

lemma sample_nemo_snoc:
  "nemo_possible i (sample_nemo inputs) \<Longrightarrow> nemo_event\<^sup>*\<^sup>* (sample_nemo []) (sample_nemo inputs)
   \<Longrightarrow> nemo_event\<^sup>*\<^sup>* (sample_nemo []) (sample_nemo (inputs @ [i]))"
  by (simp add: sample_nemo_def) (metis nemo_event.Notify rtranclp.rtrancl_into_rtrancl)

lemma sample_nemo_opened:
  "nemo_event\<^sup>*\<^sup>* (sample_nemo []) (sample_nemo [sample_reservation, Context_Active True])"
proof -
  have "nemo_event\<^sup>*\<^sup>* (sample_nemo []) (sample_nemo ([] @ [sample_reservation]))"
    by (rule sample_nemo_snoc) (code_simp, simp)
  then have "nemo_event\<^sup>*\<^sup>* (sample_nemo []) (sample_nemo ([] @ [sample_reservation] @ [Context_Active True]))"
    unfolding append_assoc [symmetric] by (rule sample_nemo_snoc [rotated]) code_simp
  then show ?thesis by simp
qed

lemma sample_nemo_open:
  "c_state (sample_nemo [sample_reservation, Context_Active True]) = MMS_CONNECTION_STATE_OPEN"
  by code_simp

lemma sample_manager_reached:
  "connman_nemo_reaches (\<lambda>p. \<lparr>sim_valid = True, sim_present = True, sim_imsi = Some ''001''\<rparr>) sample_manager"
  unfolding sample_manager_def by (rule connman_nemo_reaches.New)

text \<open>C24. A connection to a modem with several SIM cards goes through one of the two sequences of states that the
  interface promises and signals each change once, whatever the modem reports and whenever it is closed. It keeps
  its SIM and its type, its assertions hold, it is open only while it has the MMS slot of the modem and an active
  context, and it gives the slot back exactly once, when it fails or is closed.\<close>

theorem nemo_connection_life:
  assumes "nemo_event\<^sup>*\<^sup>* (mms_connection_nemo_new cm mm imsi type) self"
  shows "(n_signals self, c_state self) \<in>
      {([], MMS_CONNECTION_STATE_OPENING),
       ([MMS_CONNECTION_STATE_FAILED], MMS_CONNECTION_STATE_FAILED),
       ([MMS_CONNECTION_STATE_OPEN], MMS_CONNECTION_STATE_OPEN),
       ([MMS_CONNECTION_STATE_OPEN, MMS_CONNECTION_STATE_CLOSED], MMS_CONNECTION_STATE_CLOSED)}
    \<and> n_asserted self \<and> n_imsi self = imsi \<and> c_type self = type
    \<and> n_resets self = (if n_path self \<noteq> None \<and> terminal_state (c_state self) then 1 else 0)
    \<and> (c_state self = MMS_CONNECTION_STATE_OPEN \<longrightarrow> n_path self \<noteq> None
        \<and> (\<exists>ctx. n_context self = Some ctx \<and> ctx_active ctx))"
proof -
  let ?new = "mms_connection_nemo_new cm mm imsi type"
  have start: "nemo_start ?new" by (auto simp: nemo_start_def)
  have good: "nemo_good self" by (rule nemo_reached_good [OF start assms])
  have "n_imsi ?new = imsi" "c_type ?new = type"
    by (simp_all add: mms_connection_nemo_new_def mms_connection_nemo_request_sim_def nemo_call_start_def
        nemo_assert_def Let_def)
  then have "n_imsi self = imsi" "c_type self = type"
    using nemo_imsi_kept [OF assms nemo_new_good(1)] nemo.events_same [OF assms nemo_new_good(1)] by simp_all
  moreover have "n_asserted self" using good by (simp add: nemo_good_def)
  ultimately show ?thesis
    using nemo.events_signals [OF assms start] nemo_slot [OF good] nemo_new_good(2) [of cm mm imsi type] by auto
qed

theorem nemo_connection_life_witness:
  "n_path (sample_nemo [sample_reservation, Context_Active True]) \<noteq> None
   \<and> n_signals (sample_nemo [sample_reservation, Context_Active True]) = [MMS_CONNECTION_STATE_OPEN]"
  using nemo_connection_life [OF sample_nemo_opened [unfolded sample_nemo_def [of "[]"] fold_Nil id_apply]]
    sample_nemo_open by simp

text \<open>The connection manager hands out the connection it remembers, if this is one to the requested SIM, or a
  new one; the one it hands out is to the requested SIM and is being opened or is open, and no other connection
  is touched.\<close>

theorem nemo_open_connection:
  assumes "connman_nemo_reaches sim_at self" and "(a, self') = mms_connman_nemo_open_connection self imsi type"
  shows "a < length (cmn_conns self') \<and> n_imsi (cmn_conns self' ! a) = imsi
    \<and> c_state (cmn_conns self' ! a) \<in> {MMS_CONNECTION_STATE_OPENING, MMS_CONNECTION_STATE_OPEN}
    \<and> cmn_conn self' = Some a
    \<and> (if \<exists>b. cmn_conn self = Some b \<and> n_imsi (cmn_conns self ! b) = imsi
       then cmn_conn self = Some a \<and> self' = self
       else \<exists>c. cmn_conns self' = cmn_conns self @ [c] \<and> a = length (cmn_conns self))"
proof -
  have "connman_nemo_good self" by (rule connman_nemo_reaches_good [OF assms(1)])
  from open_connection_good [OF this assms(2)] show ?thesis
    using assms(2)
    by (auto simp: connman_nemo_good_def connection_active_iff mms_connman_nemo_open_connection_def Let_def
        mms_connman_nemo_drop_connection_def split: option.splits if_splits)
qed

theorem nemo_open_connection_witness:
  "cmn_conn (snd (mms_connman_nemo_open_connection sample_manager (Some ''001'') MMS_CONNECTION_TYPE_AUTO)) = Some 0"
proof -
  have "mms_connman_nemo_open_connection sample_manager (Some ''001'') MMS_CONNECTION_TYPE_AUTO
      = (0, snd (mms_connman_nemo_open_connection sample_manager (Some ''001'') MMS_CONNECTION_TYPE_AUTO))"
    by (simp add: mms_connman_nemo_open_connection_def sample_manager_def mms_connman_nemo_new_def
        mms_connman_nemo_check_default_sim_def mms_connman_nemo_drop_connection_def Let_def)
  from nemo_open_connection [OF sample_manager_reached this [symmetric]] show ?thesis by simp
qed

text \<open>The connection manager is busy exactly while a D-Bus call of one of its connections is pending, and it
  signals that it is done exactly when the last of them has been answered: the engine does not exit with the
  slot of a modem reserved.\<close>

theorem nemo_busy_while_pending:
  assumes "connman_nemo_reaches sim_at self" and "a < length (cmn_conns self)"
    and "nemo_possible i (cmn_conns self ! a)" and "self' = connection_notified a i self"
  shows "cm_busy self = int (sum_list (map (\<lambda>c. length (n_pending c)) (cmn_conns self)))
    \<and> cm_busy self' = int (sum_list (map (\<lambda>c. length (n_pending c)) (cmn_conns self')))
    \<and> cm_done self' = cm_done self + (if 0 < cm_busy self \<and> cm_busy self' = 0 then 1 else 0)"
proof -
  have good: "connman_nemo_good self" by (rule connman_nemo_reaches_good [OF assms(1)])
  show ?thesis
    using connection_notified_good [OF good assms(2-4)] good by (simp add: connman_nemo_good_def pending_calls_def)
qed


theorem nemo_busy_while_pending_witness:
  "let self = snd (mms_connman_nemo_open_connection sample_manager (Some ''001'') MMS_CONNECTION_TYPE_AUTO);
       self' = connection_notified 0 (Slot_Reserved None) self
   in cm_busy self = 1 \<and> cm_busy self' = 0 \<and> cm_done self' = 1"
proof -
  let ?self = "snd (mms_connman_nemo_open_connection sample_manager (Some ''001'') MMS_CONNECTION_TYPE_AUTO)"
  have "connman_nemo_reaches (\<lambda>p. \<lparr>sim_valid = True, sim_present = True, sim_imsi = Some ''001''\<rparr>) ?self"
    by (rule connman_nemo_reaches.Step [OF sample_manager_reached]) (rule connman_nemo_step.Open)
  moreover have "0 < length (cmn_conns ?self)" and "nemo_possible (Slot_Reserved None) (cmn_conns ?self ! 0)"
    and "cm_busy ?self = 1" and "cm_busy (connection_notified 0 (Slot_Reserved None) ?self) = 0" and "cm_done ?self = 0"
    by code_simp+
  ultimately show ?thesis
    using nemo_busy_while_pending [OF _ _ _ refl, of _ ?self 0 "Slot_Reserved None"] by (simp add: Let_def)
qed

end
