(* ===== verification/Connection_Ofono.thy ===== *)
theory Connection_Ofono
  imports Gofono
begin

text \<open>
  The connection of plain oFono, \<^verbatim>\<open>mms-connman-ofono/src/mms_connection_ofono.c\<close>. A
  notification of libgofono is an input: it first changes the property of the object and then calls the
  handler, if the connection has one.
\<close>

section \<open>The connection\<close>

text \<open>
  The handlers of the context and of the SIM are added together and removed together. \<open>o_imsi\<close> is the pointer of
  the object, \<open>c_imsi\<close> what its users read (the empty string for a null pointer).
\<close>

record mms_connection_ofono = mms_connection +
  o_sim :: ofono_simmgr
  o_context :: ofono_connctx
  o_context_handler_id :: bool
  o_sim_handler_id :: bool
  o_imsi :: "string option"
  o_requests :: "context_request list"
  o_signals :: "mms_connection_state list"

definition mms_connection_ofono_disconnect :: "mms_connection_ofono \<Rightarrow> mms_connection_ofono" where
  "mms_connection_ofono_disconnect self = self\<lparr>o_context_handler_id := False, o_sim_handler_id := False\<rparr>"

definition mms_connection_ofono_set_state ::
    "mms_connection_ofono \<Rightarrow> mms_connection_state \<Rightarrow> bool \<times> mms_connection_ofono" where
  "mms_connection_ofono_set_state self st =
     (if c_state self \<noteq> st then
        if c_state self = MMS_CONNECTION_STATE_FAILED \<or> c_state self = MMS_CONNECTION_STATE_CLOSED
        then (False, self)
        else if c_state self > st then (False, self)
        else
          let self = (if st = MMS_CONNECTION_STATE_FAILED \<or> st = MMS_CONNECTION_STATE_CLOSED
                      then mms_connection_ofono_disconnect self else self)
          in (True, self\<lparr>c_state := st, o_signals := o_signals self @ [st]\<rparr>)
      else (True, self))"

definition mms_connection_ofono_cancel :: "mms_connection_ofono \<Rightarrow> mms_connection_ofono" where
  "mms_connection_ofono_cancel self =
     (if c_state self \<le> MMS_CONNECTION_STATE_OPENING
      then snd (mms_connection_ofono_set_state self MMS_CONNECTION_STATE_FAILED)
      else snd (mms_connection_ofono_set_state self MMS_CONNECTION_STATE_CLOSED))"

definition mms_connection_ofono_active_changed :: "mms_connection_ofono \<Rightarrow> mms_connection_ofono" where
  "mms_connection_ofono_active_changed self =
     (if ctx_active (o_context self)
      then snd (mms_connection_ofono_set_state self MMS_CONNECTION_STATE_OPEN)
      else snd (mms_connection_ofono_set_state self MMS_CONNECTION_STATE_CLOSED))"

definition mms_connection_ofono_interface_changed :: "mms_connection_ofono \<Rightarrow> mms_connection_ofono" where
  "mms_connection_ofono_interface_changed self = self\<lparr>c_netif := ctx_ifname (o_context self)\<rparr>"

definition mms_connection_ofono_mms_proxy_changed :: "mms_connection_ofono \<Rightarrow> mms_connection_ofono" where
  "mms_connection_ofono_mms_proxy_changed self = self\<lparr>c_mmsproxy := ctx_mms_proxy (o_context self)\<rparr>"

definition mms_connection_ofono_mms_center_changed :: "mms_connection_ofono \<Rightarrow> mms_connection_ofono" where
  "mms_connection_ofono_mms_center_changed self = self\<lparr>c_mmsc := ctx_mms_center (o_context self)\<rparr>"

definition mms_connection_ofono_imsi_changed :: "mms_connection_ofono \<Rightarrow> mms_connection_ofono" where
  "mms_connection_ofono_imsi_changed self =
     (if sim_imsi (o_sim self) \<noteq> o_imsi self then mms_connection_ofono_cancel self else self)"

definition mms_connection_ofono_present_changed :: "mms_connection_ofono \<Rightarrow> mms_connection_ofono" where
  "mms_connection_ofono_present_changed self =
     (if \<not> sim_present (o_sim self) then mms_connection_ofono_cancel self else self)"

definition mms_connection_ofono_activate_failed :: "mms_connection_ofono \<Rightarrow> mms_connection_ofono" where
  "mms_connection_ofono_activate_failed self = mms_connection_ofono_cancel self"

definition mms_connection_ofono_new ::
    "ofono_simmgr \<Rightarrow> ofono_connctx \<Rightarrow> mms_connection_type \<Rightarrow> mms_connection_ofono" where
  "mms_connection_ofono_new sim ctx type =
     \<lparr>c_imsi = (case sim_imsi sim of None \<Rightarrow> [] | Some s \<Rightarrow> s),
      c_mmsc = nonempty_property (ctx_mms_center ctx) None,
      c_mmsproxy = nonempty_property (ctx_mms_proxy ctx) None,
      c_netif = nonempty_property (ctx_ifname ctx) None,
      c_type = type,
      c_state = (if ctx_active ctx then MMS_CONNECTION_STATE_OPEN else MMS_CONNECTION_STATE_OPENING),
      o_sim = sim, o_context = ctx, o_context_handler_id = True, o_sim_handler_id = True,
      o_imsi = sim_imsi sim, o_requests = [], o_signals = []\<rparr>"

definition mms_connection_ofono_close :: "mms_connection_ofono \<Rightarrow> mms_connection_ofono" where
  "mms_connection_ofono_close self = self\<lparr>o_requests := o_requests self @ [Deactivate]\<rparr>"

definition mms_connection_ofono_dispose :: "mms_connection_ofono \<Rightarrow> mms_connection_ofono" where
  "mms_connection_ofono_dispose self =
     (let self = mms_connection_ofono_disconnect self;
          self = (if mms_connection_is_active (Some (mms_connection.truncate self)) \<and> ctx_active (o_context self)
                  then self\<lparr>o_requests := o_requests self @ [Deactivate]\<rparr> else self)
      in self\<lparr>c_netif := None\<rparr>)"

section \<open>Notifications\<close>

text \<open>The handlers with the change of the property before each of them.\<close>

datatype ofono_input =
    Active_Changed bool
  | Interface_Changed "string option"
  | Proxy_Changed "string option"
  | Center_Changed "string option"
  | Activate_Failed
  | Imsi_Changed "string option"
  | Present_Changed bool
  | Close_Connection

fun ofono_notify :: "ofono_input \<Rightarrow> mms_connection_ofono \<Rightarrow> mms_connection_ofono" where
  "ofono_notify (Active_Changed b) self =
     if_connected (o_context_handler_id self) mms_connection_ofono_active_changed
       (self\<lparr>o_context := (o_context self)\<lparr>ctx_active := b\<rparr>\<rparr>)"
| "ofono_notify (Interface_Changed s) self =
     if_connected (o_context_handler_id self) mms_connection_ofono_interface_changed
       (self\<lparr>o_context := (o_context self)\<lparr>ctx_ifname := s\<rparr>\<rparr>)"
| "ofono_notify (Proxy_Changed s) self =
     if_connected (o_context_handler_id self) mms_connection_ofono_mms_proxy_changed
       (self\<lparr>o_context := (o_context self)\<lparr>ctx_mms_proxy := s\<rparr>\<rparr>)"
| "ofono_notify (Center_Changed s) self =
     if_connected (o_context_handler_id self) mms_connection_ofono_mms_center_changed
       (self\<lparr>o_context := (o_context self)\<lparr>ctx_mms_center := s\<rparr>\<rparr>)"
| "ofono_notify Activate_Failed self =
     if_connected (o_context_handler_id self) mms_connection_ofono_activate_failed self"
| "ofono_notify (Imsi_Changed s) self =
     if_connected (o_sim_handler_id self) mms_connection_ofono_imsi_changed
       (self\<lparr>o_sim := (o_sim self)\<lparr>sim_imsi := s\<rparr>\<rparr>)"
| "ofono_notify (Present_Changed b) self =
     if_connected (o_sim_handler_id self) mms_connection_ofono_present_changed
       (self\<lparr>o_sim := (o_sim self)\<lparr>sim_present := b\<rparr>\<rparr>)"
| "ofono_notify Close_Connection self = mms_connection_ofono_close self"

text \<open>libgofono notifies of changes only.\<close>

fun ofono_possible :: "ofono_input \<Rightarrow> mms_connection_ofono \<Rightarrow> bool" where
  "ofono_possible (Active_Changed b) self \<longleftrightarrow> b \<noteq> ctx_active (o_context self)"
| "ofono_possible _ self \<longleftrightarrow> True"

inductive ofono_event :: "mms_connection_ofono \<Rightarrow> mms_connection_ofono \<Rightarrow> bool" where
  Notify: "ofono_possible i self \<Longrightarrow> ofono_event self (ofono_notify i self)"

section \<open>The contract\<close>

definition ofono_start :: "mms_connection_ofono \<Rightarrow> bool" where
  "ofono_start self \<longleftrightarrow> (\<exists>sim ctx type. self = mms_connection_ofono_new sim ctx type)"

text \<open>A connection that is active listens to all objects, one that is not to none; while it is being opened the
  context is not active, and it is open exactly while the context is.\<close>

definition ofono_good :: "mms_connection_ofono \<Rightarrow> bool" where
  "ofono_good self \<longleftrightarrow>
     c_state self \<noteq> MMS_CONNECTION_STATE_INVALID
     \<and> (o_context_handler_id self \<longleftrightarrow> \<not> terminal_state (c_state self))
     \<and> (o_sim_handler_id self \<longleftrightarrow> \<not> terminal_state (c_state self))
     \<and> (c_state self = MMS_CONNECTION_STATE_OPENING \<longrightarrow> \<not> ctx_active (o_context self))
     \<and> (c_state self = MMS_CONNECTION_STATE_OPEN \<longrightarrow> ctx_active (o_context self))"

lemmas ofono_handler_defs =
  mms_connection_ofono_active_changed_def mms_connection_ofono_interface_changed_def
  mms_connection_ofono_mms_proxy_changed_def mms_connection_ofono_mms_center_changed_def
  mms_connection_ofono_imsi_changed_def mms_connection_ofono_present_changed_def
  mms_connection_ofono_activate_failed_def mms_connection_ofono_close_def
  mms_connection_ofono_cancel_def mms_connection_ofono_set_state_def mms_connection_ofono_disconnect_def

lemma ofono_notify_keeps:
  assumes "ofono_good self" and "ofono_possible i self"
  shows "ofono_good (ofono_notify i self)"
  using assms by (cases i; cases "c_state self")
    (auto simp: ofono_good_def terminal_state_def if_connected_def ofono_handler_defs state_order Let_def)

lemma ofono_notify_state:
  assumes "ofono_good self" and "ofono_possible i self"
  shows "c_state (ofono_notify i self) = c_state self \<and> o_signals (ofono_notify i self) = o_signals self
    \<or> connection_step (c_state self) (c_state (ofono_notify i self))
      \<and> o_signals (ofono_notify i self) = o_signals self @ [c_state (ofono_notify i self)]"
  using assms by (cases i; cases "c_state self")
    (auto simp: ofono_good_def terminal_state_def if_connected_def ofono_handler_defs state_order Let_def
      connection_step.simps)

lemma ofono_notify_same:
  "c_imsi (ofono_notify i self) = c_imsi self \<and> c_type (ofono_notify i self) = c_type self"
  by (cases i) (simp_all add: if_connected_def ofono_handler_defs Let_def)

lemma ofono_new_good:
  "ofono_good (mms_connection_ofono_new sim ctx type)"
  "o_signals (mms_connection_ofono_new sim ctx type) = []"
  "c_state (mms_connection_ofono_new sim ctx type) =
     (if ctx_active ctx then MMS_CONNECTION_STATE_OPEN else MMS_CONNECTION_STATE_OPENING)"
  by (simp_all add: mms_connection_ofono_new_def ofono_good_def terminal_state_def)

interpretation ofono: connection_contract "\<lambda>self. self" o_signals ofono_start ofono_event ofono_good
proof unfold_locales
  fix s s' :: mms_connection_ofono
  assume good: "ofono_good s" and event: "ofono_event s s'"
  show "ofono_good s'"
    using event good by (elim ofono_event.cases) (simp add: ofono_notify_keeps)
  show "c_state s' = c_state s \<and> o_signals s' = o_signals s
      \<or> connection_step (c_state s) (c_state s') \<and> o_signals s' = o_signals s @ [c_state s']"
    using event ofono_notify_state [OF good] by (elim ofono_event.cases) simp
  show "c_imsi s' = c_imsi s \<and> c_type s' = c_type s"
    using event by (elim ofono_event.cases) (simp add: ofono_notify_same)
qed (auto simp: ofono_start_def ofono_new_good)

text \<open>A connection is open only while its context is active, and it is closed or failed as soon as the card is
  gone.\<close>

lemma ofono_reached_good: "ofono_start s \<Longrightarrow> ofono_event\<^sup>*\<^sup>* s s' \<Longrightarrow> ofono_good s'"
  using ofono.events_good ofono.start_good by blast

lemma ofono_card_removed:
  assumes "ofono_good self" and "mms_connection_is_active (Some (mms_connection.truncate self))"
  shows "terminal_state (c_state (ofono_notify (Present_Changed False) self))"
  using assms by (cases "c_state self")
    (auto simp: ofono_good_def terminal_state_def if_connected_def ofono_handler_defs state_order Let_def
      mms_connection.truncate_def)


section \<open>Properties\<close>

text \<open>C25. A connection of plain oFono goes through one of the two sequences of states that the interface promises,
  or starts in the middle of the second one, and signals each change once. It keeps its SIM and its type, is
  open only while its context is active, and does not listen to anything any more when it has ended. (The context may
  stay active after that: when the card is gone the connection ends first.)\<close>

theorem ofono_connection_life:
  assumes "ofono_event\<^sup>*\<^sup>* (mms_connection_ofono_new sim ctx type) self"
  shows "((if ctx_active ctx then MMS_CONNECTION_STATE_OPEN else MMS_CONNECTION_STATE_OPENING) # o_signals self) \<in>
      {[MMS_CONNECTION_STATE_OPENING],
       [MMS_CONNECTION_STATE_OPENING, MMS_CONNECTION_STATE_FAILED],
       [MMS_CONNECTION_STATE_OPENING, MMS_CONNECTION_STATE_OPEN],
       [MMS_CONNECTION_STATE_OPENING, MMS_CONNECTION_STATE_OPEN, MMS_CONNECTION_STATE_CLOSED],
       [MMS_CONNECTION_STATE_OPEN],
       [MMS_CONNECTION_STATE_OPEN, MMS_CONNECTION_STATE_CLOSED]}
    \<and> (o_signals self \<noteq> [] \<longrightarrow> c_state self = List.last (o_signals self))
    \<and> c_type self = type \<and> c_imsi self = (case sim_imsi sim of None \<Rightarrow> [] | Some s \<Rightarrow> s)
    \<and> (c_state self = MMS_CONNECTION_STATE_OPEN \<longrightarrow> ctx_active (o_context self))
    \<and> (terminal_state (c_state self) \<longrightarrow> \<not> o_context_handler_id self \<and> \<not> o_sim_handler_id self)"
proof -
  let ?new = "mms_connection_ofono_new sim ctx type"
  have start: "ofono_start ?new" by (auto simp: ofono_start_def)
  have "ofono_good self" by (rule ofono_reached_good [OF start assms])
  moreover have "c_type ?new = type" "c_imsi ?new = (case sim_imsi sim of None \<Rightarrow> [] | Some s \<Rightarrow> s)"
    by (simp_all add: mms_connection_ofono_new_def)
  ultimately show ?thesis
    using ofono.events_signals [OF assms start] ofono.events_same [OF assms ofono_new_good(1)]
      ofono_new_good(3) [of sim ctx type]
    by (simp add: ofono_good_def split: if_splits)
qed

theorem ofono_connection_life_witness:
  "c_state (ofono_notify Activate_Failed (mms_connection_ofono_new
     \<lparr>sim_valid = True, sim_present = True, sim_imsi = Some ''001''\<rparr>
     \<lparr>ctx_valid = True, ctx_active = False, ctx_ifname = None, ctx_mms_proxy = None, ctx_mms_center = None\<rparr>
     MMS_CONNECTION_TYPE_USER)) = MMS_CONNECTION_STATE_FAILED"
proof -
  let ?sim = "\<lparr>sim_valid = True, sim_present = True, sim_imsi = Some ''001''\<rparr>"
  let ?ctx = "\<lparr>ctx_valid = True, ctx_active = False, ctx_ifname = None, ctx_mms_proxy = None, ctx_mms_center = None\<rparr>"
  let ?new = "mms_connection_ofono_new ?sim ?ctx MMS_CONNECTION_TYPE_USER"
  have "ofono_event\<^sup>*\<^sup>* ?new (ofono_notify Activate_Failed ?new)"
    by (intro r_into_rtranclp ofono_event.Notify) simp
  moreover have "o_signals (ofono_notify Activate_Failed ?new) = [MMS_CONNECTION_STATE_FAILED]"
    by code_simp
  ultimately show ?thesis
    using ofono_connection_life [of ?sim ?ctx MMS_CONNECTION_TYPE_USER] by simp
qed

end
