(* ===== verification/Connman_Ofono.thy ===== *)
theory Connman_Ofono
  imports Connection_Ofono "HOL-Library.Multiset"
begin

text \<open>
  The connection manager of plain oFono, \<^verbatim>\<open>mms-connman-ofono/src/mms_connman_ofono.c\<close>. It has a table of modems,
  each with at most one connection, to which it holds no reference, and chooses a default modem.
\<close>

section \<open>The object\<close>

text \<open>
  \<open>om_addr\<close> is the address of the structure of a modem. The list of modems is the hash table in the order in which
  the iterator visits it. \<open>cmo_conns\<close> are all connections ever made, each with the number of references to it;
  a connection is its position there.
\<close>

record mms_ofono_modem =
  om_addr :: nat
  om_connmgr :: ofono_connmgr
  om_simmgr :: ofono_simmgr
  om_conn :: "nat option"
  om_simmgr_handler_id :: bool

record mms_connman_ofono = mms_connman +
  cmo_modems :: "(string \<times> mms_ofono_modem) list"
  cmo_default_modem :: "nat option"
  cmo_next_addr :: nat
  cmo_conns :: "(mms_connection_ofono \<times> int) list"

definition modem_at :: "nat \<Rightarrow> mms_connman_ofono \<Rightarrow> mms_ofono_modem option" where
  "modem_at addr self = find (\<lambda>m. om_addr m = addr) (map snd (cmo_modems self))"

definition sim_ready :: "mms_ofono_modem \<Rightarrow> bool" where
  "sim_ready m \<longleftrightarrow> sim_valid (om_simmgr m) \<and> sim_present (om_simmgr m)"

text \<open>\<open>wait\<close> is what the main loop does while the function waits for the objects to become valid.\<close>

definition mms_connman_ofono_modem_for_imsi ::
    "(mms_connman_ofono \<Rightarrow> mms_connman_ofono) \<Rightarrow> string option \<Rightarrow> mms_connman_ofono
      \<Rightarrow> mms_ofono_modem option \<times> mms_connman_ofono" where
  "mms_connman_ofono_modem_for_imsi wait imsi self =
     (let self = wait self in
      ((case imsi of
          Some s \<Rightarrow> find (\<lambda>m. sim_ready m \<and> sim_imsi (om_simmgr m) = Some s) (map snd (cmo_modems self))
        | None \<Rightarrow>
            (case cmo_default_modem self of
               None \<Rightarrow> None
             | Some addr \<Rightarrow>
                 (case modem_at addr self of
                    None \<Rightarrow> None
                  | Some m \<Rightarrow> if sim_ready m then Some m else None))), self))"

definition mms_connman_ofono_default_imsi ::
    "(mms_connman_ofono \<Rightarrow> mms_connman_ofono) \<Rightarrow> mms_connman_ofono \<Rightarrow> string option \<times> mms_connman_ofono" where
  "mms_connman_ofono_default_imsi wait self =
     (let self = wait self in
      ((case cmo_default_modem self of
          None \<Rightarrow> None
        | Some addr \<Rightarrow>
            (case modem_at addr self of
               None \<Rightarrow> None
             | Some m \<Rightarrow> nonempty_property (sim_imsi (om_simmgr m)) None)), self))"

fun forget_connection :: "nat \<Rightarrow> (string \<times> mms_ofono_modem) list \<Rightarrow> (string \<times> mms_ofono_modem) list" where
  "forget_connection c [] = []"
| "forget_connection c ((path, m) # ms) =
     (if om_conn m = Some c then (path, m\<lparr>om_conn := None\<rparr>) # ms else (path, m) # forget_connection c ms)"

definition mms_connman_ofono_connection_gone :: "nat \<Rightarrow> mms_connman_ofono \<Rightarrow> mms_connman_ofono" where
  "mms_connman_ofono_connection_gone c self = self\<lparr>cmo_modems := forget_connection c (cmo_modems self)\<rparr>"

definition update_modem :: "nat \<Rightarrow> (mms_ofono_modem \<Rightarrow> mms_ofono_modem) \<Rightarrow> mms_connman_ofono \<Rightarrow> mms_connman_ofono" where
  "update_modem addr f self =
     self\<lparr>cmo_modems := map (\<lambda>(path, m). (path, if om_addr m = addr then f m else m)) (cmo_modems self)\<rparr>"

definition update_conn ::
    "nat \<Rightarrow> (mms_connection_ofono \<Rightarrow> mms_connection_ofono) \<Rightarrow> int \<Rightarrow> mms_connman_ofono \<Rightarrow> mms_connman_ofono" where
  "update_conn c f refs self =
     self\<lparr>cmo_conns := (cmo_conns self)[c := map_prod f (\<lambda>n. n + refs) (cmo_conns self ! c)]\<rparr>"

definition request_activation :: "mms_connection_ofono \<Rightarrow> mms_connection_ofono" where
  "request_activation c = c\<lparr>o_requests := o_requests c @ [Activate]\<rparr>"

definition mms_connman_ofono_open_connection ::
    "(mms_connman_ofono \<Rightarrow> mms_connman_ofono) \<Rightarrow> mms_connman_ofono \<Rightarrow> string option \<Rightarrow> mms_connection_type
      \<Rightarrow> nat option \<times> mms_connman_ofono" where
  "mms_connman_ofono_open_connection wait self imsi type =
     (let (modem, self) = mms_connman_ofono_modem_for_imsi wait imsi self in
      case modem of
        None \<Rightarrow> (None, self)
      | Some m \<Rightarrow>
          (case co_mms_context (om_connmgr m) of
             None \<Rightarrow> (None, self)
           | Some ctx \<Rightarrow>
               let (c, self) =
                 (case om_conn m of
                    Some c \<Rightarrow> (c, update_conn c (\<lambda>c. c) 1 self)
                  | None \<Rightarrow>
                      let c = length (cmo_conns self)
                      in (c, update_modem (om_addr m) (\<lambda>m. m\<lparr>om_conn := Some c\<rparr>)
                               (self\<lparr>cmo_conns := cmo_conns self
                                       @ [(mms_connection_ofono_new (om_simmgr m) ctx type, 1)]\<rparr>)))
               in (Some c, if \<not> ctx_active ctx then update_conn c request_activation 0 self else self)))"

fun select_modem :: "mms_ofono_modem option \<Rightarrow> mms_ofono_modem list \<Rightarrow> mms_ofono_modem option" where
  "select_modem context [] = context"
| "select_modem context (m # ms) =
     (if context = None \<or> \<not> sim_ready (the context)
      then if sim_ready m then Some m else select_modem (Some m) ms
      else select_modem context ms)"

definition mms_connman_ofono_select_default_modem :: "mms_connman_ofono \<Rightarrow> mms_connman_ofono" where
  "mms_connman_ofono_select_default_modem self =
     (let context = map_option om_addr (select_modem None (map snd (cmo_modems self)))
      in if cmo_default_modem self \<noteq> context then self\<lparr>cmo_default_modem := context\<rparr> else self)"

definition mms_ofono_simmgr_changed :: "mms_connman_ofono \<Rightarrow> mms_connman_ofono" where
  "mms_ofono_simmgr_changed self = mms_connman_ofono_select_default_modem self"

text \<open>Removing an entry of the table: its connection is closed, and a reference to it is dropped.\<close>

definition mms_ofono_modem_cleanup :: "mms_ofono_modem \<Rightarrow> mms_connman_ofono \<Rightarrow> mms_connman_ofono" where
  "mms_ofono_modem_cleanup m self =
     (case om_conn m of
        None \<Rightarrow> self
      | Some c \<Rightarrow> update_conn c mms_connection_ofono_close (- 1) self)"

definition remove_modem :: "string \<Rightarrow> mms_connman_ofono \<Rightarrow> mms_connman_ofono" where
  "remove_modem path self =
     (case map_of (cmo_modems self) path of
        None \<Rightarrow> self
      | Some m \<Rightarrow> mms_ofono_modem_cleanup m (self\<lparr>cmo_modems := filter (\<lambda>(p, _). p \<noteq> path) (cmo_modems self)\<rparr>))"

definition mms_connman_ofono_add_modem ::
    "string \<Rightarrow> ofono_connmgr \<Rightarrow> ofono_simmgr \<Rightarrow> mms_connman_ofono \<Rightarrow> mms_connman_ofono" where
  "mms_connman_ofono_add_modem path connmgr simmgr self =
     (let m = \<lparr>om_addr = cmo_next_addr self, om_connmgr = connmgr, om_simmgr = simmgr, om_conn = None,
               om_simmgr_handler_id = True\<rparr>;
          self = remove_modem path self
      in self\<lparr>cmo_modems := (path, m) # cmo_modems self, cmo_next_addr := cmo_next_addr self + 1\<rparr>)"

text \<open>The callbacks of the manager do nothing while it is not valid.\<close>

definition mms_connman_ofono_modem_added ::
    "bool \<Rightarrow> string \<Rightarrow> ofono_connmgr \<Rightarrow> ofono_simmgr \<Rightarrow> mms_connman_ofono \<Rightarrow> mms_connman_ofono" where
  "mms_connman_ofono_modem_added manager_valid path connmgr simmgr self =
     (if manager_valid then
        mms_connman_ofono_select_default_modem (mms_connman_ofono_add_modem path connmgr simmgr self)
      else self)"

definition mms_connman_ofono_modem_removed :: "bool \<Rightarrow> string \<Rightarrow> mms_connman_ofono \<Rightarrow> mms_connman_ofono" where
  "mms_connman_ofono_modem_removed manager_valid path self =
     (if manager_valid then mms_connman_ofono_select_default_modem (remove_modem path self) else self)"

definition mms_connman_ofono_init_modems ::
    "(string \<times> ofono_connmgr \<times> ofono_simmgr) list \<Rightarrow> mms_connman_ofono \<Rightarrow> mms_connman_ofono" where
  "mms_connman_ofono_init_modems modems self =
     mms_connman_ofono_select_default_modem
       (fold (\<lambda>(path, connmgr, simmgr). mms_connman_ofono_add_modem path connmgr simmgr) modems self)"

definition remove_all_modems :: "mms_connman_ofono \<Rightarrow> mms_connman_ofono" where
  "remove_all_modems self =
     fold mms_ofono_modem_cleanup (map snd (cmo_modems self)) (self\<lparr>cmo_modems := []\<rparr>)"

definition mms_connman_ofono_valid_changed ::
    "bool \<Rightarrow> (string \<times> ofono_connmgr \<times> ofono_simmgr) list \<Rightarrow> mms_connman_ofono \<Rightarrow> mms_connman_ofono" where
  "mms_connman_ofono_valid_changed manager_valid modems self =
     (if manager_valid then mms_connman_ofono_init_modems modems self
      else remove_all_modems (self\<lparr>cmo_default_modem := None\<rparr>))"

definition mms_connman_ofono_new ::
    "bool \<Rightarrow> (string \<times> ofono_connmgr \<times> ofono_simmgr) list \<Rightarrow> mms_connman_ofono" where
  "mms_connman_ofono_new manager_valid modems =
     (let self = \<lparr>cm_busy = 0, cm_done = 0, cmo_modems = [], cmo_default_modem = None, cmo_next_addr = 0,
                  cmo_conns = []\<rparr>
      in if manager_valid then mms_connman_ofono_init_modems modems self else self)"

definition mms_connman_ofono_dispose :: "mms_connman_ofono \<Rightarrow> mms_connman_ofono" where
  "mms_connman_ofono_dispose self = remove_all_modems (self\<lparr>cmo_default_modem := None\<rparr>)"

definition ofono_connman_class ::
    "(mms_connman_ofono \<Rightarrow> mms_connman_ofono) \<Rightarrow> (mms_connman_ofono, nat) connman_class" where
  "ofono_connman_class wait =
     \<lparr>fn_default_imsi = Some (mms_connman_ofono_default_imsi wait),
      fn_open_connection = Some (mms_connman_ofono_open_connection wait)\<rparr>"


section \<open>Reachable managers\<close>

text \<open>
  The callbacks of libgofono, the functions of the interface, and what happens to the connections. A function
  that waits runs the main loop: any reachable manager may be what it finds then. The table may be visited in
  another order after every step.
\<close>

inductive connman_ofono_reaches :: "mms_connman_ofono \<Rightarrow> bool" where
  New: "connman_ofono_reaches (mms_connman_ofono_new valid modems)"
| Valid_Changed: "connman_ofono_reaches self
    \<Longrightarrow> connman_ofono_reaches (mms_connman_ofono_valid_changed valid modems self)"
| Modem_Added: "connman_ofono_reaches self
    \<Longrightarrow> connman_ofono_reaches (mms_connman_ofono_modem_added valid path connmgr simmgr self)"
| Modem_Removed: "connman_ofono_reaches self
    \<Longrightarrow> connman_ofono_reaches (mms_connman_ofono_modem_removed valid path self)"
| Sim_Changed: "connman_ofono_reaches self
    \<Longrightarrow> connman_ofono_reaches (mms_ofono_simmgr_changed (update_modem addr (\<lambda>m. m\<lparr>om_simmgr := sim\<rparr>) self))"
| Connmgr_Changed: "connman_ofono_reaches self
    \<Longrightarrow> connman_ofono_reaches (update_modem addr (\<lambda>m. m\<lparr>om_connmgr := connmgr\<rparr>) self)"
| Connection: "connman_ofono_reaches self \<Longrightarrow> c < length (cmo_conns self)
    \<Longrightarrow> ofono_possible i (fst (cmo_conns self ! c))
    \<Longrightarrow> connman_ofono_reaches (update_conn c (ofono_notify i) 0 self)"
| Unref: "connman_ofono_reaches self \<Longrightarrow> c < length (cmo_conns self)
    \<Longrightarrow> connman_ofono_reaches (update_conn c (\<lambda>c. c) (- 1) self)"
| Connection_Gone: "connman_ofono_reaches self
    \<Longrightarrow> connman_ofono_reaches (mms_connman_ofono_connection_gone c self)"
| Open: "connman_ofono_reaches self \<Longrightarrow> connman_ofono_reaches waited
    \<Longrightarrow> connman_ofono_reaches (snd (mms_connman_ofono_open_connection (\<lambda>_. waited) self imsi type))"
| Rehash: "connman_ofono_reaches self \<Longrightarrow> mset modems = mset (cmo_modems self)
    \<Longrightarrow> connman_ofono_reaches (self\<lparr>cmo_modems := modems\<rparr>)"
| Dispose: "connman_ofono_reaches self \<Longrightarrow> connman_ofono_reaches (mms_connman_ofono_dispose self)"

text \<open>What holds of every one of them: the addresses of the modems differ, and the connections of the table exist
  and satisfy their invariant.\<close>

definition table_good :: "mms_connman_ofono \<Rightarrow> bool" where
  "table_good self \<longleftrightarrow>
     distinct (map fst (cmo_modems self))
     \<and> distinct (map (om_addr \<circ> snd) (cmo_modems self))
     \<and> (\<forall>(_, m) \<in> set (cmo_modems self). om_addr m < cmo_next_addr self
          \<and> (\<forall>c. om_conn m = Some c \<longrightarrow> c < length (cmo_conns self)))
     \<and> list_all (ofono_good \<circ> fst) (cmo_conns self)"

text \<open>The default modem is one of the table, and one with a card in it if there is such a modem.\<close>

definition default_good :: "mms_connman_ofono \<Rightarrow> bool" where
  "default_good self \<longleftrightarrow>
     (case cmo_default_modem self of
        None \<Rightarrow> cmo_modems self = []
      | Some addr \<Rightarrow> (\<exists>m \<in> snd ` set (cmo_modems self). om_addr m = addr
          \<and> (sim_ready m \<or> (\<forall>m \<in> snd ` set (cmo_modems self). \<not> sim_ready m))))"

lemma find_addr:
  "distinct (map om_addr ms) \<Longrightarrow> m \<in> set ms \<Longrightarrow> find (\<lambda>x. om_addr x = om_addr m) ms = Some m"
  by (induction ms) auto

lemma select_modem_Some:
  "\<not> sim_ready c \<Longrightarrow> \<exists>m. select_modem (Some c) ms = Some m \<and> m \<in> set (c # ms)
     \<and> (sim_ready m \<or> list_all (\<lambda>m. \<not> sim_ready m) ms)"
  by (induction ms arbitrary: c) auto

lemma select_modem_None:
  "case select_modem None ms of
     None \<Rightarrow> ms = []
   | Some m \<Rightarrow> m \<in> set ms \<and> (sim_ready m \<or> list_all (\<lambda>m. \<not> sim_ready m) ms)"
proof (cases ms)
  case (Cons m ms')
  then show ?thesis using select_modem_Some [of m ms'] by auto
qed simp

lemma select_default_good: "default_good (mms_connman_ofono_select_default_modem self)"
proof -
  let ?ms = "map snd (cmo_modems self)"
  have "case select_modem None ?ms of None \<Rightarrow> cmo_modems self = []
      | Some m \<Rightarrow> m \<in> snd ` set (cmo_modems self) \<and> (sim_ready m \<or> (\<forall>m \<in> snd ` set (cmo_modems self). \<not> sim_ready m))"
    using select_modem_None [of ?ms] by (auto simp: list_all_iff split: option.splits)
  then show ?thesis
    by (auto simp: default_good_def mms_connman_ofono_select_default_modem_def Let_def split: option.splits)
qed

lemma table_good_set:
  "table_good self \<longleftrightarrow>
     distinct (map fst (cmo_modems self)) \<and> distinct (map (\<lambda>x. om_addr (snd x)) (cmo_modems self))
     \<and> (\<forall>x \<in> set (cmo_modems self). om_addr (snd x) < cmo_next_addr self
          \<and> (\<forall>c. om_conn (snd x) = Some c \<longrightarrow> c < length (cmo_conns self)))
     \<and> (\<forall>c \<in> set (cmo_conns self). ofono_good (fst c))"
  by (auto simp: table_good_def comp_def list_all_iff case_prod_beta)

text \<open>Each operation on the table keeps it good.\<close>

lemma update_conn_good:
  assumes "table_good self" and "c < length (cmo_conns self)" and "ofono_good (f (fst (cmo_conns self ! c)))"
  shows "table_good (update_conn c f n self)"
  using assms set_update_subset_insert
  by (fastforce simp: table_good_set update_conn_def)

lemma cleanup_good:
  assumes "table_good self" and "\<forall>c. om_conn m = Some c \<longrightarrow> c < length (cmo_conns self)"
  shows "table_good (mms_ofono_modem_cleanup m self)"
proof (cases "om_conn m")
  case (Some c)
  have "ofono_good (fst (cmo_conns self ! c))"
    using assms Some by (simp add: table_good_set)
  then have "ofono_good (mms_connection_ofono_close (fst (cmo_conns self ! c)))"
    by (simp add: ofono_good_def mms_connection_ofono_close_def)
  then show ?thesis
    using assms Some update_conn_good by (simp add: mms_ofono_modem_cleanup_def)
qed (use assms in \<open>simp add: mms_ofono_modem_cleanup_def\<close>)

lemma cleanup_fields [simp]:
  "cmo_modems (mms_ofono_modem_cleanup m self) = cmo_modems self"
  "cmo_default_modem (mms_ofono_modem_cleanup m self) = cmo_default_modem self"
  "cmo_next_addr (mms_ofono_modem_cleanup m self) = cmo_next_addr self"
  "length (cmo_conns (mms_ofono_modem_cleanup m self)) = length (cmo_conns self)"
  by (simp_all add: mms_ofono_modem_cleanup_def update_conn_def split: option.split)

lemma remove_modem_good:
  assumes "table_good self"
  shows "table_good (remove_modem path self)"
    and "path \<notin> fst ` set (cmo_modems (remove_modem path self))"
    and "cmo_next_addr (remove_modem path self) = cmo_next_addr self"
proof -
  let ?s = "self\<lparr>cmo_modems := filter (\<lambda>(p, _). p \<noteq> path) (cmo_modems self)\<rparr>"
  have s: "table_good ?s"
    using assms by (auto simp: table_good_set intro: distinct_map_filter)
  have "\<forall>c. om_conn m = Some c \<longrightarrow> c < length (cmo_conns ?s)" if "map_of (cmo_modems self) path = Some m" for m
    using assms map_of_SomeD [OF that] by (fastforce simp: table_good_set)
  with s show "table_good (remove_modem path self)"
    using assms by (simp add: remove_modem_def cleanup_good split: option.split)
  show "path \<notin> fst ` set (cmo_modems (remove_modem path self))"
    by (auto simp: remove_modem_def map_of_eq_None_iff split: option.split)
  show "cmo_next_addr (remove_modem path self) = cmo_next_addr self"
    by (simp add: remove_modem_def split: option.split)
qed

lemma add_modem_good: "table_good self \<Longrightarrow> table_good (mms_connman_ofono_add_modem path connmgr simmgr self)"
  using remove_modem_good [of self path]
  by (force simp: mms_connman_ofono_add_modem_def table_good_set Let_def)

lemma select_default_table [simp]: "table_good (mms_connman_ofono_select_default_modem self) \<longleftrightarrow> table_good self"
  by (simp add: mms_connman_ofono_select_default_modem_def table_good_def Let_def)

lemma init_modems_good: "table_good self \<Longrightarrow> table_good (mms_connman_ofono_init_modems modems self)"
  unfolding mms_connman_ofono_init_modems_def select_default_table
  by (induction modems arbitrary: self) (auto intro: add_modem_good)

lemma cleanup_all_good:
  "table_good self \<Longrightarrow> \<forall>m \<in> set ms. \<forall>c. om_conn m = Some c \<longrightarrow> c < length (cmo_conns self)
   \<Longrightarrow> table_good (fold mms_ofono_modem_cleanup ms self)"
proof (induction ms arbitrary: self)
  case (Cons m ms)
  have "table_good (mms_ofono_modem_cleanup m self)"
    by (rule cleanup_good) (use Cons.prems in simp_all)
  then show ?case using Cons.prems by (simp add: Cons.IH)
qed simp

lemma remove_all_good: "table_good self \<Longrightarrow> table_good (remove_all_modems self)"
  unfolding remove_all_modems_def by (rule cleanup_all_good) (auto simp: table_good_set)

lemma remove_all_empty:
  "cmo_modems (remove_all_modems self) = [] \<and> cmo_default_modem (remove_all_modems self) = cmo_default_modem self"
proof -
  have "cmo_modems (fold mms_ofono_modem_cleanup ms s) = cmo_modems s
      \<and> cmo_default_modem (fold mms_ofono_modem_cleanup ms s) = cmo_default_modem s" for ms s
    by (induction ms arbitrary: s) simp_all
  then show ?thesis by (simp add: remove_all_modems_def)
qed

lemma update_modem_good:
  assumes "table_good self" and "\<And>m. om_addr (f m) = om_addr m"
    and "\<And>m c. om_conn (f m) = Some c \<Longrightarrow> om_conn m = Some c \<or> c < length (cmo_conns self)"
  shows "table_good (update_modem addr f self)"
proof -
  let ?g = "\<lambda>(path, m). (path, if om_addr m = addr then f m else m)"
  have g: "fst (?g x) = fst x" "om_addr (snd (?g x)) = om_addr (snd x)" for x
    by (simp_all add: assms(2) split: prod.split)
  have conn: "om_conn (snd x) = Some c \<or> c < length (cmo_conns self)" if "om_conn (snd (?g x)) = Some c" for x c
    using that assms(3) [of "snd x" c] by (cases x) (simp split: if_splits)
  have fields: "cmo_modems (update_modem addr f self) = map ?g (cmo_modems self)"
    "cmo_conns (update_modem addr f self) = cmo_conns self" "cmo_next_addr (update_modem addr f self) = cmo_next_addr self"
    by (simp_all add: update_modem_def)
  have maps: "map fst (map ?g ms) = map fst ms" "map (\<lambda>x. om_addr (snd x)) (map ?g ms) = map (\<lambda>x. om_addr (snd x)) ms" for ms
    by (simp_all add: g(1,2) del: split_paired_All)
  have modem: "om_addr (snd (?g x)) < cmo_next_addr self"
    "om_conn (snd (?g x)) = Some c \<Longrightarrow> c < length (cmo_conns self)" if "x \<in> set (cmo_modems self)" for x c
    using assms(1) that g(2) [of x] conn [of x c] unfolding table_good_set by auto
  have "\<forall>x \<in> set (map ?g (cmo_modems self)). om_addr (snd x) < cmo_next_addr self
      \<and> (\<forall>c. om_conn (snd x) = Some c \<longrightarrow> c < length (cmo_conns self))"
    using modem by (simp only: set_map ball_simps) blast
  then show ?thesis
    using assms(1) unfolding table_good_set fields maps by blast
qed


text \<open>Steps that leave the identity of the modems and their cards alone.\<close>

definition same_modems :: "mms_connman_ofono \<Rightarrow> mms_connman_ofono \<Rightarrow> bool" where
  "same_modems self self' \<longleftrightarrow> cmo_default_modem self' = cmo_default_modem self
     \<and> map (\<lambda>x. (fst x, om_addr (snd x), om_simmgr (snd x))) (cmo_modems self')
       = map (\<lambda>x. (fst x, om_addr (snd x), om_simmgr (snd x))) (cmo_modems self)"

lemma same_modems_default:
  assumes "same_modems self self'"
  shows "default_good self' \<longleftrightarrow> default_good self"
proof -
  have ready: "sim_ready (snd x) = (\<lambda>(_, _, s). sim_valid s \<and> sim_present s) (fst x, om_addr (snd x), om_simmgr (snd x))" for x
    by (simp add: sim_ready_def)
  have iff: "default_good s \<longleftrightarrow>
      (case cmo_default_modem s of
         None \<Rightarrow> map (\<lambda>x. (fst x, om_addr (snd x), om_simmgr (snd x))) (cmo_modems s) = []
       | Some addr \<Rightarrow> (\<exists>y \<in> set (map (\<lambda>x. (fst x, om_addr (snd x), om_simmgr (snd x))) (cmo_modems s)). fst (snd y) = addr
           \<and> ((\<lambda>(_, _, s). sim_valid s \<and> sim_present s) y
              \<or> (\<forall>y \<in> set (map (\<lambda>x. (fst x, om_addr (snd x), om_simmgr (snd x))) (cmo_modems s)).
                   \<not> (\<lambda>(_, _, s). sim_valid s \<and> sim_present s) y))))" for s
    by (auto simp: default_good_def sim_ready_def split: option.split)
  show ?thesis
    unfolding iff using assms by (simp only: same_modems_def)
qed

lemma forget_connection_maps:
  "map fst (forget_connection c ms) = map fst ms"
  "map (\<lambda>x. om_addr (snd x)) (forget_connection c ms) = map (\<lambda>x. om_addr (snd x)) ms"
  "map (\<lambda>x. (fst x, om_addr (snd x), om_simmgr (snd x))) (forget_connection c ms)
     = map (\<lambda>x. (fst x, om_addr (snd x), om_simmgr (snd x))) ms"
  by (induction c ms rule: forget_connection.induct) simp_all

lemma forget_connection_set:
  "x \<in> set (forget_connection c ms) \<Longrightarrow> \<exists>y \<in> set ms. om_addr (snd x) = om_addr (snd y)
     \<and> (\<forall>d. om_conn (snd x) = Some d \<longrightarrow> om_conn (snd y) = Some d)"
  by (induction c ms rule: forget_connection.induct) (fastforce split: if_splits)+

lemma connection_gone_good:
  "table_good self \<Longrightarrow> table_good (mms_connman_ofono_connection_gone c self)"
  using forget_connection_set [of _ c "cmo_modems self"]
  by (fastforce simp: table_good_set mms_connman_ofono_connection_gone_def forget_connection_maps)


lemma update_conn_table: "cmo_modems (update_conn c f n self) = cmo_modems self"
  "cmo_default_modem (update_conn c f n self) = cmo_default_modem self"
  "length (cmo_conns (update_conn c f n self)) = length (cmo_conns self)"
  by (simp_all add: update_conn_def)

lemma update_conn_nth: "c < length (cmo_conns self) \<Longrightarrow> fst (cmo_conns (update_conn c f n self) ! c) = f (fst (cmo_conns self ! c))"
  by (simp add: update_conn_def)

lemma table_good_conn: "table_good self \<Longrightarrow> c < length (cmo_conns self) \<Longrightarrow> ofono_good (fst (cmo_conns self ! c))"
  by (simp add: table_good_set)

lemma same_modems_update_conn: "same_modems self (update_conn c f n self)"
  by (simp add: same_modems_def update_conn_table)

lemma same_modems_update_modem:
  assumes "\<And>m. om_addr (f m) = om_addr m \<and> om_simmgr (f m) = om_simmgr m"
  shows "same_modems self (update_modem addr f self)"
  using assms by (auto simp: same_modems_def update_modem_def)

lemma same_modems_trans: "same_modems a b \<Longrightarrow> same_modems b c \<Longrightarrow> same_modems a c"
  by (simp add: same_modems_def)

lemma modem_for_imsi_found:
  assumes "mms_connman_ofono_modem_for_imsi wait imsi self = (Some m, self')"
  shows "self' = wait self \<and> m \<in> snd ` set (cmo_modems self') \<and> sim_ready m
    \<and> (\<forall>s. imsi = Some s \<longrightarrow> sim_imsi (om_simmgr m) = Some s)
    \<and> (imsi = None \<longrightarrow> cmo_default_modem self' = Some (om_addr m))"
  using assms
  by (auto simp: mms_connman_ofono_modem_for_imsi_def modem_at_def Let_def find_Some_iff image_iff
      split: option.splits if_splits)

lemma open_connection_cases:
  fixes self imsi type wait
  defines "r \<equiv> mms_connman_ofono_open_connection wait self imsi type"
  shows "(fst r = None \<and> snd r = wait self)
    \<or> (\<exists>m c. mms_connman_ofono_modem_for_imsi wait imsi self = (Some m, wait self) \<and> om_conn m = Some c \<and> fst r = Some c
         \<and> (\<exists>acts. snd r = (if acts then update_conn c request_activation 0 (update_conn c (\<lambda>c. c) 1 (wait self))
                           else update_conn c (\<lambda>c. c) 1 (wait self))))
    \<or> (\<exists>m ctx. mms_connman_ofono_modem_for_imsi wait imsi self = (Some m, wait self)
         \<and> fst r = Some (length (cmo_conns (wait self)))
         \<and> (let c = length (cmo_conns (wait self));
                opened = update_modem (om_addr m) (\<lambda>m. m\<lparr>om_conn := Some c\<rparr>)
                  ((wait self)\<lparr>cmo_conns := cmo_conns (wait self) @ [(mms_connection_ofono_new (om_simmgr m) ctx type, 1)]\<rparr>)
            in snd r = (if ctx_active ctx then opened else update_conn c request_activation 0 opened)))"
proof (cases "mms_connman_ofono_modem_for_imsi wait imsi self")
  case (Pair found self')
  then have self': "self' = wait self" by (simp add: mms_connman_ofono_modem_for_imsi_def Let_def)
  show ?thesis
    unfolding r_def mms_connman_ofono_open_connection_def Pair self'
    by (auto simp: Let_def split: option.splits)
qed

lemma open_connection_keeps:
  assumes "table_good waited" and "self' = snd (mms_connman_ofono_open_connection (\<lambda>_. waited) self imsi type)"
  shows "table_good self' \<and> same_modems waited self'"
proof -
  have request: "ofono_good (request_activation c) \<longleftrightarrow> ofono_good c" for c
    by (simp add: request_activation_def ofono_good_def)
  consider "self' = waited"
    | m c acts where "mms_connman_ofono_modem_for_imsi (\<lambda>_. waited) imsi self = (Some m, waited)" "om_conn m = Some c"
        "self' = (if acts then update_conn c request_activation 0 (update_conn c (\<lambda>c. c) 1 waited)
                  else update_conn c (\<lambda>c. c) 1 waited)"
    | m :: mms_ofono_modem and ctx c opened where "c = length (cmo_conns waited)"
        "opened = update_modem (om_addr m) (\<lambda>m. m\<lparr>om_conn := Some c\<rparr>)
          (waited\<lparr>cmo_conns := cmo_conns waited @ [(mms_connection_ofono_new (om_simmgr m) ctx type, 1)]\<rparr>)"
        "self' = (if ctx_active ctx then opened else update_conn c request_activation 0 opened)"
    using open_connection_cases [of "\<lambda>_. waited" self imsi type, folded assms(2)] unfolding Let_def
    by (elim disjE exE conjE) (erule that(1), erule (2) that(2), erule that(3) [OF refl refl])
  then show ?thesis
  proof cases
    case 1
    then show ?thesis using assms(1) by (simp add: same_modems_def)
  next
    case (2 m c acts)
    have "m \<in> snd ` set (cmo_modems waited)" using modem_for_imsi_found [OF 2(1)] by simp
    then have c: "c < length (cmo_conns waited)" using assms(1) 2(2) by (auto simp: table_good_set)
    then have good: "table_good (update_conn c (\<lambda>c. c) 1 waited)"
      by (intro update_conn_good) (use assms(1) table_good_conn in auto)
    then have "table_good (update_conn c request_activation 0 (update_conn c (\<lambda>c. c) 1 waited))"
      by (rule update_conn_good) (use c table_good_conn [OF assms(1) c] in \<open>simp_all add: update_conn_table update_conn_nth request\<close>)
    with good show ?thesis
      unfolding 2(3) using same_modems_update_conn same_modems_trans [OF same_modems_update_conn same_modems_update_conn]
      by simp
  next
    case (3 m ctx c opened)
    let ?s = "waited\<lparr>cmo_conns := cmo_conns waited @ [(mms_connection_ofono_new (om_simmgr m) ctx type, 1)]\<rparr>"
    have s: "table_good ?s"
      using assms(1) ofono_new_good(1) by (fastforce simp: table_good_set)
    have good: "table_good opened"
      unfolding 3(2) by (rule update_modem_good [OF s]) (use 3(1) in auto)
    have c: "c < length (cmo_conns opened)"
      using 3(1) by (simp add: 3(2) update_modem_def)
    have same: "same_modems waited opened"
      unfolding 3(2) by (rule same_modems_trans [OF _ same_modems_update_modem]) (simp_all add: same_modems_def)
    have "table_good (update_conn c request_activation 0 opened)"
      by (rule update_conn_good [OF good c]) (use good c in \<open>auto simp: table_good_set request\<close>)
    then show ?thesis
      unfolding 3(3) using good same same_modems_trans [OF same same_modems_update_conn] by simp
  qed
qed


lemma reaches_manager_good: "connman_ofono_reaches self \<Longrightarrow> table_good self \<and> default_good self"
proof (induction rule: connman_ofono_reaches.induct)
  case (New valid modems)
  let ?new = "\<lparr>cm_busy = 0, cm_done = 0, cmo_modems = [], cmo_default_modem = None, cmo_next_addr = 0,
    cmo_conns = []\<rparr> :: mms_connman_ofono"
  have "table_good ?new" and "default_good ?new" by (simp_all add: table_good_def default_good_def)
  moreover have "default_good (mms_connman_ofono_init_modems modems ?new)"
    unfolding mms_connman_ofono_init_modems_def by (rule select_default_good)
  ultimately show ?case
    using init_modems_good [of ?new modems] by (simp add: mms_connman_ofono_new_def Let_def)
next
  case (Valid_Changed self valid modems)
  have "table_good (self\<lparr>cmo_default_modem := None\<rparr>)" using Valid_Changed by (simp add: table_good_def)
  then have "table_good (remove_all_modems (self\<lparr>cmo_default_modem := None\<rparr>))" by (rule remove_all_good)
  moreover have "default_good (remove_all_modems (self\<lparr>cmo_default_modem := None\<rparr>))"
    by (simp add: default_good_def remove_all_empty)
  moreover have "default_good (mms_connman_ofono_init_modems modems self)"
    unfolding mms_connman_ofono_init_modems_def by (rule select_default_good)
  ultimately show ?case
    using Valid_Changed init_modems_good [of self modems] by (simp add: mms_connman_ofono_valid_changed_def)
next
  case (Modem_Added self valid path connmgr simmgr)
  then show ?case
    by (simp add: mms_connman_ofono_modem_added_def add_modem_good select_default_good)
next
  case (Modem_Removed self valid path)
  then show ?case
    by (simp add: mms_connman_ofono_modem_removed_def remove_modem_good select_default_good)
next
  case (Sim_Changed self addr sim)
  then have "table_good (update_modem addr (\<lambda>m. m\<lparr>om_simmgr := sim\<rparr>) self)"
    by (intro update_modem_good) auto
  then show ?case
    by (simp add: mms_ofono_simmgr_changed_def select_default_good)
next
  case (Connmgr_Changed self addr connmgr)
  then have "table_good (update_modem addr (\<lambda>m. m\<lparr>om_connmgr := connmgr\<rparr>) self)"
    by (intro update_modem_good) auto
  moreover have "same_modems self (update_modem addr (\<lambda>m. m\<lparr>om_connmgr := connmgr\<rparr>) self)"
    by (rule same_modems_update_modem) simp
  ultimately show ?case
    using Connmgr_Changed.IH same_modems_default by blast
next
  case (Connection self c i)
  then have "ofono_good (ofono_notify i (fst (cmo_conns self ! c)))"
    by (intro ofono_notify_keeps) (auto simp: table_good_set)
  then show ?case
    using Connection same_modems_default [OF same_modems_update_conn] by (simp add: update_conn_good)
next
  case (Unref self c)
  then show ?case
    using same_modems_default [OF same_modems_update_conn] by (simp add: update_conn_good table_good_conn)
next
  case (Connection_Gone self c)
  have "same_modems self (mms_connman_ofono_connection_gone c self)"
    by (simp add: same_modems_def mms_connman_ofono_connection_gone_def forget_connection_maps)
  then show ?case
    using Connection_Gone connection_gone_good same_modems_default by blast
next
  case (Open self waited imsi type)
  then show ?case
    using open_connection_keeps [OF _ refl] same_modems_default by blast
next
  case (Rehash self modems)
  then have "set modems = set (cmo_modems self)" "length modems = length (cmo_modems self)"
    by (metis set_mset_mset, metis size_mset)
  moreover have "distinct (map fst modems) \<longleftrightarrow> distinct (map fst (cmo_modems self))"
    and "distinct (map (\<lambda>x. om_addr (snd x)) modems) \<longleftrightarrow> distinct (map (\<lambda>x. om_addr (snd x)) (cmo_modems self))"
    using Rehash(2) by (metis mset_eq_imp_distinct_iff mset_map)+
  ultimately show ?case
    using Rehash.IH by (auto simp: table_good_set default_good_def split: option.splits)
next
  case (Dispose self)
  have "table_good (self\<lparr>cmo_default_modem := None\<rparr>)" using Dispose by (simp add: table_good_def)
  then show ?case
    by (auto simp: mms_connman_ofono_dispose_def default_good_def remove_all_empty intro: remove_all_good)
qed


section \<open>Properties\<close>

text \<open>A manager with one modem and a connection to its card that is being opened.\<close>

definition sample_modem :: "string \<times> ofono_connmgr \<times> ofono_simmgr" where
  "sample_modem = (''/ril_0'',
     \<lparr>co_valid = True, co_attached = True,
      co_mms_context = Some \<lparr>ctx_valid = True, ctx_active = False, ctx_ifname = None, ctx_mms_proxy = None,
                             ctx_mms_center = None\<rparr>\<rparr>,
     \<lparr>sim_valid = True, sim_present = True, sim_imsi = Some ''001''\<rparr>)"

definition sample_ofono :: mms_connman_ofono where
  "sample_ofono = mms_connman_ofono_new True [sample_modem]"

definition sample_ofono_open :: mms_connman_ofono where
  "sample_ofono_open =
     snd (mms_connman_ofono_open_connection (\<lambda>_. sample_ofono) sample_ofono (Some ''001'') MMS_CONNECTION_TYPE_AUTO)"

lemma sample_ofono_reached: "connman_ofono_reaches sample_ofono"
  unfolding sample_ofono_def by (rule connman_ofono_reaches.New)

lemma sample_ofono_open_reached: "connman_ofono_reaches sample_ofono_open"
  unfolding sample_ofono_open_def by (rule connman_ofono_reaches.Open [OF sample_ofono_reached sample_ofono_reached])

text \<open>C26. The default modem is always one of the table, never one that has been removed and freed, and it has a card
  in it as long as any modem has; without modems there is no default modem. Every connection handed out is in
  one of the states of its life, listens to its objects exactly while it is active, and is open exactly while
  its context is active.\<close>

theorem ofono_default_modem:
  assumes "connman_ofono_reaches self"
  shows "(case cmo_default_modem self of
        None \<Rightarrow> cmo_modems self = []
      | Some addr \<Rightarrow> (\<exists>m. modem_at addr self = Some m
          \<and> (sim_ready m \<or> (\<forall>x \<in> set (cmo_modems self). \<not> sim_ready (snd x)))))
    \<and> list_all (ofono_good \<circ> fst) (cmo_conns self)"
proof -
  have good: "table_good self" "default_good self" using reaches_manager_good [OF assms] by simp_all
  have "modem_at (om_addr m) self = Some m" if "m \<in> snd ` set (cmo_modems self)" for m
    unfolding modem_at_def by (rule find_addr) (use good(1) that in \<open>simp_all add: table_good_def\<close>)
  moreover have "list_all (ofono_good \<circ> fst) (cmo_conns self)" using good(1) by (simp add: table_good_def)
  ultimately show ?thesis
    using good(2) by (cases "cmo_default_modem self") (auto simp: default_good_def)
qed

theorem ofono_default_modem_witness:
  "\<exists>m. modem_at 0 sample_ofono = Some m \<and> cmo_default_modem sample_ofono = Some 0"
proof -
  have "cmo_default_modem sample_ofono = Some 0" by code_simp
  then show ?thesis using ofono_default_modem [OF sample_ofono_reached] by auto
qed

text \<open>A connection that the manager hands out is one to the requested SIM (or, without a request, to the
  default modem's), whose card is present and which has an MMS context; an existing connection is handed out in
  whatever state it is.\<close>

theorem ofono_open_connection:
  assumes "connman_ofono_reaches waited"
    and "mms_connman_ofono_open_connection (\<lambda>_. waited) self imsi type = (Some c, self')"
  shows "c < length (cmo_conns self')
    \<and> (\<exists>m \<in> snd ` set (cmo_modems waited). sim_ready m \<and> co_mms_context (om_connmgr m) \<noteq> None
        \<and> (case imsi of
             Some s \<Rightarrow> sim_imsi (om_simmgr m) = Some s
           | None \<Rightarrow> cmo_default_modem waited = Some (om_addr m))
        \<and> (case om_conn m of
             Some c' \<Rightarrow> c = c' \<and> c_state (fst (cmo_conns self' ! c)) = c_state (fst (cmo_conns waited ! c))
           | None \<Rightarrow> c = length (cmo_conns waited) \<and> o_imsi (fst (cmo_conns self' ! c)) = sim_imsi (om_simmgr m)
               \<and> c_state (fst (cmo_conns self' ! c)) \<in> {MMS_CONNECTION_STATE_OPENING, MMS_CONNECTION_STATE_OPEN}))"
proof -
  have good: "table_good waited" using reaches_manager_good [OF assms(1)] by simp
  obtain m ctx where m: "mms_connman_ofono_modem_for_imsi (\<lambda>_. waited) imsi self = (Some m, waited)"
      "co_mms_context (om_connmgr m) = Some ctx"
    using assms(2) by (auto simp: mms_connman_ofono_open_connection_def mms_connman_ofono_modem_for_imsi_def
        Let_def split: option.splits prod.splits)
  note found = modem_for_imsi_found [OF m(1)]
  show ?thesis
  proof (cases "om_conn m")
    case (Some c')
    then have "c' < length (cmo_conns waited)" using good found by (auto simp: table_good_set)
    then show ?thesis
      using assms(2) found m Some
      by (auto simp: mms_connman_ofono_open_connection_def Let_def update_conn_def request_activation_def
          split: if_splits option.splits)
  next
    case None
    then show ?thesis
      using assms(2) found m
      by (auto simp: mms_connman_ofono_open_connection_def Let_def update_conn_def update_modem_def nth_append
          request_activation_def mms_connection_ofono_new_def split: if_splits option.splits)
  qed
qed

theorem ofono_open_connection_witness:
  "o_imsi (fst (cmo_conns sample_ofono_open ! 0)) = Some ''001''"
proof -
  have "mms_connman_ofono_open_connection (\<lambda>_. sample_ofono) sample_ofono (Some ''001'') MMS_CONNECTION_TYPE_AUTO
      = (Some 0, sample_ofono_open)" and "cmo_conns sample_ofono = []"
    unfolding sample_ofono_open_def by code_simp+
  from ofono_open_connection [OF sample_ofono_reached this(1)] this(2) show ?thesis
    using reaches_manager_good [OF sample_ofono_reached] by (auto simp: table_good_set split: option.splits)
qed

definition sample_ofono_failed :: mms_connman_ofono where
  "sample_ofono_failed = update_conn 0 (ofono_notify Activate_Failed) 0 sample_ofono_open"

text \<open>A connection that has failed is handed out again as long as somebody has a reference to it.\<close>

theorem ofono_hands_out_failed:
  "connman_ofono_reaches sample_ofono_failed
   \<and> (let (found, self') = mms_connman_ofono_open_connection (\<lambda>_. sample_ofono_failed) sample_ofono_failed
             (Some ''001'') MMS_CONNECTION_TYPE_AUTO
      in found = Some 0 \<and> c_state (fst (cmo_conns self' ! 0)) = MMS_CONNECTION_STATE_FAILED
         \<and> length (cmo_conns self') = 1)"
proof
  have "0 < length (cmo_conns sample_ofono_open)"
    and "ofono_possible Activate_Failed (fst (cmo_conns sample_ofono_open ! 0))"
    by code_simp+
  then show "connman_ofono_reaches sample_ofono_failed"
    unfolding sample_ofono_failed_def by (rule connman_ofono_reaches.Connection [OF sample_ofono_open_reached])
  show "let (found, self') = mms_connman_ofono_open_connection (\<lambda>_. sample_ofono_failed) sample_ofono_failed
             (Some ''001'') MMS_CONNECTION_TYPE_AUTO
      in found = Some 0 \<and> c_state (fst (cmo_conns self' ! 0)) = MMS_CONNECTION_STATE_FAILED
         \<and> length (cmo_conns self') = 1"
    by code_simp
qed

text \<open>C27. When a modem is removed, its connection is asked to close, and a reference to it is dropped although the
  manager has none: one that belongs to a client is gone.\<close>

theorem ofono_modem_removed_drops_reference:
  assumes "connman_ofono_reaches self" and "map_of (cmo_modems self) path = Some m" and "om_conn m = Some c"
    and "self' = mms_connman_ofono_modem_removed True path self"
  shows "snd (cmo_conns self' ! c) = snd (cmo_conns self ! c) - 1
    \<and> o_requests (fst (cmo_conns self' ! c)) = o_requests (fst (cmo_conns self ! c)) @ [Deactivate]
    \<and> c_state (fst (cmo_conns self' ! c)) = c_state (fst (cmo_conns self ! c))
    \<and> path \<notin> fst ` set (cmo_modems self')"
proof -
  have good: "table_good self" using reaches_manager_good [OF assms(1)] by simp
  have "c < length (cmo_conns self)"
    using good map_of_SomeD [OF assms(2)] assms(3) by (fastforce simp: table_good_set)
  then show ?thesis
    using assms(2,3) remove_modem_good(2) [OF good, of path]
    by (simp add: assms(4) mms_connman_ofono_modem_removed_def mms_connman_ofono_select_default_modem_def
        remove_modem_def mms_ofono_modem_cleanup_def update_conn_def mms_connection_ofono_close_def Let_def)
qed


theorem ofono_modem_removed_drops_reference_witness:
  "snd (cmo_conns (mms_connman_ofono_modem_removed True ''/ril_0'' sample_ofono_open) ! 0) = 0"
proof -
  obtain m where m: "map_of (cmo_modems sample_ofono_open) ''/ril_0'' = Some m" "om_conn m = Some 0"
  proof -
    have "map_option om_conn (map_of (cmo_modems sample_ofono_open) ''/ril_0'') = Some (Some 0)" by code_simp
    then show ?thesis using that by auto
  qed
  have "snd (cmo_conns sample_ofono_open ! 0) = 1" by code_simp
  then show ?thesis
    using ofono_modem_removed_drops_reference [OF sample_ofono_open_reached m refl] by simp
qed

end
