(* ===== verification/Message_Handler.thy ===== *)
theory Message_Handler
  imports Busy_Object Mms_Message
begin

text \<open>
  The message handler, the user's program as the library sees it: the base class of
  \<^verbatim>\<open>mms-lib/src/mms_handler.c\<close>, which calls the methods of an implementation that there are, and the one over
  D-Bus, \<^verbatim>\<open>mms-handler-dbus/src/mms_handler_dbus.c\<close>.
\<close>

section \<open>The base class\<close>

text \<open>The busy count, and how often the signal \<^verbatim>\<open>mms-handler-done\<close> has been emitted.\<close>

record mms_handler =
  h_busy :: int
  h_done :: nat

definition mms_handler_busy_update :: "int \<Rightarrow> 'a mms_handler_scheme \<Rightarrow> 'a mms_handler_scheme" where
  "mms_handler_busy_update change h =
     (if change = 0 then h
      else let busy = h_busy h + change in
        h\<lparr>h_busy := busy, h_done := h_done h + (if busy < 1 then 1 else 0)\<rparr>)"

text \<open>The methods of a class; each may be missing. A callback is a function and the parameter it is called with.\<close>

record ('h, 'cb, 'p) mms_handler_class =
  fn_message_notify :: "('h \<Rightarrow> string option \<Rightarrow> string \<Rightarrow> string \<Rightarrow> int \<Rightarrow> byte list \<Rightarrow> string option
    \<Rightarrow> 'cb option \<Rightarrow> 'p \<Rightarrow> nat option \<times> 'h) option"
  fn_message_notify_cancel :: "('h \<Rightarrow> nat \<Rightarrow> 'h) option"
  fn_message_received :: "('h \<Rightarrow> mms_message_object \<Rightarrow> 'cb option \<Rightarrow> 'p \<Rightarrow> nat option \<times> 'h) option"
  fn_message_received_cancel :: "('h \<Rightarrow> nat \<Rightarrow> 'h) option"
  fn_message_receive_state_changed :: "('h \<Rightarrow> string option \<Rightarrow> mms_receive_state \<Rightarrow> bool \<times> 'h) option"
  fn_message_send_state_changed :: "('h \<Rightarrow> string option \<Rightarrow> mms_send_state \<Rightarrow> string option \<Rightarrow> bool \<times> 'h) option"
  fn_message_sent :: "('h \<Rightarrow> string option \<Rightarrow> string option \<Rightarrow> bool \<times> 'h) option"
  fn_delivery_report :: "('h \<Rightarrow> string option \<Rightarrow> string option \<Rightarrow> string option \<Rightarrow> mms_delivery_status \<Rightarrow> bool \<times> 'h) option"
  fn_read_report :: "('h \<Rightarrow> string option \<Rightarrow> string option \<Rightarrow> string option \<Rightarrow> mms_read_status \<Rightarrow> bool \<times> 'h) option"
  fn_read_report_send_status :: "('h \<Rightarrow> string option \<Rightarrow> mms_read_report_status \<Rightarrow> bool \<times> 'h) option"

text \<open>A call of a method: nothing happens without a handler or without the method.\<close>

definition handler_call :: "'h option \<Rightarrow> 'm option \<Rightarrow> 'r \<Rightarrow> ('m \<Rightarrow> 'h \<Rightarrow> 'r \<times> 'h) \<Rightarrow> 'r \<times> 'h option" where
  "handler_call h fn nothing call =
     (case h of
        None \<Rightarrow> (nothing, None)
      | Some h' \<Rightarrow>
          (case fn of
             None \<Rightarrow> (nothing, h)
           | Some f \<Rightarrow> map_prod (\<lambda>r. r) Some (call f h')))"

definition or_empty :: "string option \<Rightarrow> string" where
  "or_empty s = (case s of None \<Rightarrow> [] | Some t \<Rightarrow> t)"

definition mms_handler_message_notify ::
    "('h, 'cb, 'p) mms_handler_class \<Rightarrow> 'h option \<Rightarrow> string option \<Rightarrow> string option \<Rightarrow> string option \<Rightarrow> int
      \<Rightarrow> byte list \<Rightarrow> string option \<Rightarrow> 'cb option \<Rightarrow> 'p \<Rightarrow> nat option \<times> 'h option" where
  "mms_handler_message_notify klass h imsi from_addr subject expiry push location cb param =
     handler_call h (fn_message_notify klass) None
       (\<lambda>f h. f h imsi (or_empty from_addr) (or_empty subject) expiry push location cb param)"

definition mms_handler_message_notify_cancel ::
    "('h, 'cb, 'p) mms_handler_class \<Rightarrow> 'h option \<Rightarrow> nat option \<Rightarrow> 'h option" where
  "mms_handler_message_notify_cancel klass h call =
     (case call of
        None \<Rightarrow> h
      | Some c \<Rightarrow> snd (handler_call h (fn_message_notify_cancel klass) () (\<lambda>f h. ((), f h c))))"

definition mms_handler_message_received ::
    "('h, 'cb, 'p) mms_handler_class \<Rightarrow> 'h option \<Rightarrow> mms_message_object \<Rightarrow> 'cb option \<Rightarrow> 'p
      \<Rightarrow> nat option \<times> 'h option" where
  "mms_handler_message_received klass h msg cb param =
     handler_call h (fn_message_received klass) None (\<lambda>f h. f h msg cb param)"

definition mms_handler_message_received_cancel ::
    "('h, 'cb, 'p) mms_handler_class \<Rightarrow> 'h option \<Rightarrow> nat option \<Rightarrow> 'h option" where
  "mms_handler_message_received_cancel klass h call =
     (case call of
        None \<Rightarrow> h
      | Some c \<Rightarrow> snd (handler_call h (fn_message_received_cancel klass) () (\<lambda>f h. ((), f h c))))"

definition mms_handler_message_receive_state_changed ::
    "('h, 'cb, 'p) mms_handler_class \<Rightarrow> 'h option \<Rightarrow> string option \<Rightarrow> mms_receive_state \<Rightarrow> bool \<times> 'h option" where
  "mms_handler_message_receive_state_changed klass h ident st =
     handler_call h (fn_message_receive_state_changed klass) False (\<lambda>f h. f h ident st)"

definition mms_handler_message_send_state_changed ::
    "('h, 'cb, 'p) mms_handler_class \<Rightarrow> 'h option \<Rightarrow> string option \<Rightarrow> mms_send_state \<Rightarrow> string option
      \<Rightarrow> bool \<times> 'h option" where
  "mms_handler_message_send_state_changed klass h ident st details =
     handler_call h (fn_message_send_state_changed klass) False (\<lambda>f h. f h ident st details)"

definition mms_handler_message_sent ::
    "('h, 'cb, 'p) mms_handler_class \<Rightarrow> 'h option \<Rightarrow> string option \<Rightarrow> string option \<Rightarrow> bool \<times> 'h option" where
  "mms_handler_message_sent klass h ident msgid =
     handler_call h (fn_message_sent klass) False (\<lambda>f h. f h ident msgid)"

definition mms_handler_delivery_report ::
    "('h, 'cb, 'p) mms_handler_class \<Rightarrow> 'h option \<Rightarrow> string option \<Rightarrow> string option \<Rightarrow> string option
      \<Rightarrow> mms_delivery_status \<Rightarrow> bool \<times> 'h option" where
  "mms_handler_delivery_report klass h imsi msgid recipient ds =
     handler_call h (fn_delivery_report klass) False (\<lambda>f h. f h imsi msgid recipient ds)"

definition mms_handler_read_report ::
    "('h, 'cb, 'p) mms_handler_class \<Rightarrow> 'h option \<Rightarrow> string option \<Rightarrow> string option \<Rightarrow> string option
      \<Rightarrow> mms_read_status \<Rightarrow> bool \<times> 'h option" where
  "mms_handler_read_report klass h imsi msgid recipient rs =
     handler_call h (fn_read_report klass) False (\<lambda>f h. f h imsi msgid recipient rs)"

definition mms_handler_read_report_send_status ::
    "('h, 'cb, 'p) mms_handler_class \<Rightarrow> 'h option \<Rightarrow> string option \<Rightarrow> mms_read_report_status \<Rightarrow> bool \<times> 'h option" where
  "mms_handler_read_report_send_status klass h ident status =
     handler_call h (fn_read_report_send_status klass) False (\<lambda>f h. f h ident status)"

end
