(* ===== verification/Handler_Dbus.thy ===== *)
theory Handler_Dbus
  imports Message_Handler "HOL-Library.Multiset"
begin

text \<open>
  The message handler over D-Bus, \<^verbatim>\<open>mms-handler-dbus/src/mms_handler_dbus.c\<close>. Two of its calls have an answer
  and can be cancelled; all of them count in the busy count and hold a reference to the handler until D-Bus has
  answered.
\<close>

section \<open>The object\<close>

text \<open>What is sent over D-Bus; the first two with the call whose cancellable is passed, if any.\<close>

datatype dbus_request =
    Message_Notification "string option" string string int "byte list" "string option" "nat option"
  | Message_Received "string" "string option" string "string list" "string list" string mms_message_object "nat option"
  | Message_Receive_State_Changed string mms_receive_state
  | Message_Send_State_Changed string mms_send_state string
  | Message_Sent string string
  | Delivery_Report "string option" string string mms_delivery_status
  | Read_Report "string option" string string mms_read_status
  | Read_Report_Send_Status string mms_read_report_status

text \<open>A pending call: the callback (none after it has been cancelled), whether its cancellable has been cancelled,
  and the message it holds a reference to.\<close>

record 'cb handler_pending =
  hp_cb :: "'cb option"
  hp_cancelled :: bool
  hp_msg :: "mms_message_object option"

datatype ('cb, 'p) handler_callback =
    Notify_Complete nat 'cb "string option" 'p
  | Received_Complete nat 'cb mms_message_object bool 'p

fun callback_call :: "('cb, 'p) handler_callback \<Rightarrow> nat" where
  "callback_call (Notify_Complete c _ _ _) = c"
| "callback_call (Received_Complete c _ _ _ _) = c"

text \<open>
  \<open>hd_notify_pending\<close> and \<open>hd_received_pending\<close> are the hash tables, from a call to the parameter of its
  callback; \<open>hd_generic\<close> is the number of other calls without an answer. \<open>hd_freed\<close> says that the last reference
  is gone, \<open>hd_used_after_free\<close> that the object has been used after that.
\<close>

record ('cb, 'p) mms_handler_dbus = mms_handler +
  hd_proxy :: bool
  hd_notify_pending :: "(nat \<times> 'cb handler_pending \<times> 'p) list"
  hd_received_pending :: "(nat \<times> 'cb handler_pending \<times> 'p) list"
  hd_generic :: nat
  hd_next_call :: nat
  hd_refs :: int
  hd_freed :: bool
  hd_used_after_free :: bool
  hd_requests :: "dbus_request list"
  hd_callbacks :: "('cb, 'p) handler_callback list"

definition mms_handler_dbus_new :: "('cb, 'p) mms_handler_dbus" where
  "mms_handler_dbus_new =
     \<lparr>h_busy = 0, h_done = 0, hd_proxy = False, hd_notify_pending = [], hd_received_pending = [], hd_generic = 0,
      hd_next_call = 0, hd_refs = 1, hd_freed = False, hd_used_after_free = False, hd_requests = [],
      hd_callbacks = []\<rparr>"

definition mms_handler_dbus_dispose :: "('cb, 'p) mms_handler_dbus \<Rightarrow> ('cb, 'p) mms_handler_dbus" where
  "mms_handler_dbus_dispose h = h\<lparr>hd_proxy := False\<rparr>"

definition mms_handler_ref :: "('cb, 'p) mms_handler_dbus \<Rightarrow> ('cb, 'p) mms_handler_dbus" where
  "mms_handler_ref h = h\<lparr>hd_refs := hd_refs h + 1\<rparr>"

definition mms_handler_unref :: "('cb, 'p) mms_handler_dbus \<Rightarrow> ('cb, 'p) mms_handler_dbus" where
  "mms_handler_unref h =
     (let h = h\<lparr>hd_refs := hd_refs h - 1\<rparr>
      in if hd_refs h = 0 then (mms_handler_dbus_dispose h)\<lparr>hd_freed := True\<rparr> else h)"

definition handler_busy_change :: "int \<Rightarrow> ('cb, 'p) mms_handler_dbus \<Rightarrow> ('cb, 'p) mms_handler_dbus" where
  "handler_busy_change n h =
     (mms_handler_busy_update n h)\<lparr>hd_used_after_free := (hd_used_after_free h \<or> hd_freed h)\<rparr>"

text \<open>\<open>bus\<close> says whether the proxy can be created.\<close>

definition mms_handler_dbus_connect :: "bool \<Rightarrow> ('cb, 'p) mms_handler_dbus \<Rightarrow> bool \<times> ('cb, 'p) mms_handler_dbus" where
  "mms_handler_dbus_connect bus h =
     (let h = (if \<not> hd_proxy h then h\<lparr>hd_proxy := bus\<rparr> else h) in (hd_proxy h, h))"

section \<open>Notification of a new message\<close>

definition mms_handler_notify_call_create ::
    "'cb option \<Rightarrow> 'p \<Rightarrow> ('cb, 'p) mms_handler_dbus \<Rightarrow> nat \<times> ('cb, 'p) mms_handler_dbus" where
  "mms_handler_notify_call_create cb param h =
     (let call = hd_next_call h; h = mms_handler_ref h
      in (call, h\<lparr>hd_next_call := call + 1,
                  hd_notify_pending :=
                    (call, \<lparr>hp_cb = cb, hp_cancelled = False, hp_msg = None\<rparr>, param) # hd_notify_pending h\<rparr>))"

text \<open>Removing a call from the table deletes it, which drops its reference to the handler.\<close>

definition mms_handler_notify_call_delete :: "nat \<Rightarrow> ('cb, 'p) mms_handler_dbus \<Rightarrow> ('cb, 'p) mms_handler_dbus" where
  "mms_handler_notify_call_delete call h =
     mms_handler_unref (h\<lparr>hd_notify_pending := filter (\<lambda>x. fst x \<noteq> call) (hd_notify_pending h)\<rparr>)"

text \<open>\<open>react\<close> is what the callback does to the handler.\<close>

definition mms_handler_dbus_message_notify_done ::
    "(('cb, 'p) mms_handler_dbus \<Rightarrow> ('cb, 'p) mms_handler_dbus) \<Rightarrow> string option \<Rightarrow> nat
      \<Rightarrow> ('cb, 'p) mms_handler_dbus \<Rightarrow> ('cb, 'p) mms_handler_dbus" where
  "mms_handler_dbus_message_notify_done react ident call h =
     (case map_of (hd_notify_pending h) call of
        None \<Rightarrow> h
      | Some (c, param) \<Rightarrow>
          let h = (case hp_cb c of
                     None \<Rightarrow> h
                   | Some cb \<Rightarrow> react (h\<lparr>hd_callbacks := hd_callbacks h @ [Notify_Complete call cb ident param]\<rparr>))
          in handler_busy_change (- 1) (mms_handler_notify_call_delete call h))"

definition mms_handler_dbus_message_notify ::
    "bool \<Rightarrow> ('cb, 'p) mms_handler_dbus \<Rightarrow> string option \<Rightarrow> string \<Rightarrow> string \<Rightarrow> int \<Rightarrow> byte list \<Rightarrow> string option
      \<Rightarrow> 'cb option \<Rightarrow> 'p \<Rightarrow> nat option \<times> ('cb, 'p) mms_handler_dbus" where
  "mms_handler_dbus_message_notify bus h imsi from_addr subject expiry push location cb param =
     (let (proxy, h) = mms_handler_dbus_connect bus h in
      if proxy then
        let h = handler_busy_change 1 h;
            (call, h) = mms_handler_notify_call_create cb param h
        in (Some call, h\<lparr>hd_requests := hd_requests h
              @ [Message_Notification imsi from_addr subject expiry push location (Some call)]\<rparr>)
      else (None, h))"

definition cancel_pending ::
    "nat \<Rightarrow> (nat \<times> 'cb handler_pending \<times> 'p) list \<Rightarrow> (nat \<times> 'cb handler_pending \<times> 'p) list" where
  "cancel_pending call calls =
     map (\<lambda>(c, x, p). (c, if c = call then x\<lparr>hp_cb := None, hp_cancelled := True\<rparr> else x, p)) calls"

definition mms_handler_dbus_message_notify_cancel ::
    "('cb, 'p) mms_handler_dbus \<Rightarrow> nat \<Rightarrow> ('cb, 'p) mms_handler_dbus" where
  "mms_handler_dbus_message_notify_cancel h call =
     h\<lparr>hd_notify_pending := cancel_pending call (hd_notify_pending h)\<rparr>"

section \<open>A received message\<close>

definition mms_handler_message_received_call_create ::
    "mms_message_object \<Rightarrow> 'cb option \<Rightarrow> 'p \<Rightarrow> ('cb, 'p) mms_handler_dbus \<Rightarrow> nat \<times> ('cb, 'p) mms_handler_dbus" where
  "mms_handler_message_received_call_create msg cb param h =
     (let call = hd_next_call h; h = mms_handler_ref h
      in (call, h\<lparr>hd_next_call := call + 1,
                  hd_received_pending :=
                    (call, \<lparr>hp_cb = cb, hp_cancelled = False, hp_msg = Some msg\<rparr>, param) # hd_received_pending h\<rparr>))"

definition mms_handler_message_received_call_delete ::
    "nat \<Rightarrow> ('cb, 'p) mms_handler_dbus \<Rightarrow> ('cb, 'p) mms_handler_dbus" where
  "mms_handler_message_received_call_delete call h =
     mms_handler_unref (h\<lparr>hd_received_pending := filter (\<lambda>x. fst x \<noteq> call) (hd_received_pending h)\<rparr>)"

definition mms_handler_dbus_message_received_done ::
    "(('cb, 'p) mms_handler_dbus \<Rightarrow> ('cb, 'p) mms_handler_dbus) \<Rightarrow> bool \<Rightarrow> nat
      \<Rightarrow> ('cb, 'p) mms_handler_dbus \<Rightarrow> ('cb, 'p) mms_handler_dbus" where
  "mms_handler_dbus_message_received_done react ok call h =
     (case map_of (hd_received_pending h) call of
        None \<Rightarrow> h
      | Some (c, param) \<Rightarrow>
          let h = (case (hp_cb c, hp_msg c) of
                     (Some cb, Some msg) \<Rightarrow>
                       react (h\<lparr>hd_callbacks := hd_callbacks h @ [Received_Complete call cb msg ok param]\<rparr>)
                   | _ \<Rightarrow> h)
          in handler_busy_change (- 1) (mms_handler_message_received_call_delete call h))"

text \<open>The D-Bus call is made without the cancellable of the call.\<close>

definition mms_handler_dbus_message_received ::
    "bool \<Rightarrow> ('cb, 'p) mms_handler_dbus \<Rightarrow> mms_message_object \<Rightarrow> 'cb option \<Rightarrow> 'p
      \<Rightarrow> nat option \<times> ('cb, 'p) mms_handler_dbus" where
  "mms_handler_dbus_message_received bus h msg cb param =
     (let (proxy, h) = mms_handler_dbus_connect bus h in
      if or_empty (mo_id msg) \<noteq> [] \<and> proxy then
        let h = handler_busy_change 1 h;
            (call, h) = mms_handler_message_received_call_create msg cb param h
        in (Some call, h\<lparr>hd_requests := hd_requests h
              @ [Message_Received (or_empty (mo_id msg)) (mo_message_id msg) (or_empty (mo_from msg)) (mo_to msg)
                   (mo_cc msg) (or_empty (mo_subject msg)) msg None]\<rparr>)
      else (None, h))"

definition mms_handler_dbus_message_received_cancel ::
    "('cb, 'p) mms_handler_dbus \<Rightarrow> nat \<Rightarrow> ('cb, 'p) mms_handler_dbus" where
  "mms_handler_dbus_message_received_cancel h call =
     h\<lparr>hd_received_pending := cancel_pending call (hd_received_pending h)\<rparr>"

section \<open>Calls without an answer\<close>

definition generic_call :: "dbus_request \<Rightarrow> ('cb, 'p) mms_handler_dbus \<Rightarrow> ('cb, 'p) mms_handler_dbus" where
  "generic_call request h =
     (let h = handler_busy_change 1 (mms_handler_ref h)
      in h\<lparr>hd_generic := hd_generic h + 1, hd_requests := hd_requests h @ [request]\<rparr>)"

definition mms_handler_dbus_call_done :: "('cb, 'p) mms_handler_dbus \<Rightarrow> ('cb, 'p) mms_handler_dbus" where
  "mms_handler_dbus_call_done h = mms_handler_unref (handler_busy_change (- 1) (h\<lparr>hd_generic := hd_generic h - 1\<rparr>))"

text \<open>The guards of the methods: the strings that must be there and not empty.\<close>

definition guarded_call ::
    "bool \<Rightarrow> bool \<Rightarrow> dbus_request \<Rightarrow> ('cb, 'p) mms_handler_dbus \<Rightarrow> bool \<times> ('cb, 'p) mms_handler_dbus" where
  "guarded_call bus guard request h =
     (let (proxy, h) = mms_handler_dbus_connect bus h in
      if guard \<and> proxy then (True, generic_call request h) else (False, h))"

definition mms_handler_dbus_message_receive_state_changed ::
    "bool \<Rightarrow> ('cb, 'p) mms_handler_dbus \<Rightarrow> string option \<Rightarrow> mms_receive_state \<Rightarrow> bool \<times> ('cb, 'p) mms_handler_dbus" where
  "mms_handler_dbus_message_receive_state_changed bus h ident st =
     guarded_call bus (or_empty ident \<noteq> []) (Message_Receive_State_Changed (or_empty ident) st) h"

definition mms_handler_dbus_message_send_state_changed ::
    "bool \<Rightarrow> ('cb, 'p) mms_handler_dbus \<Rightarrow> string option \<Rightarrow> mms_send_state \<Rightarrow> string option
      \<Rightarrow> bool \<times> ('cb, 'p) mms_handler_dbus" where
  "mms_handler_dbus_message_send_state_changed bus h ident st details =
     guarded_call bus (or_empty ident \<noteq> []) (Message_Send_State_Changed (or_empty ident) st (or_empty details)) h"

definition mms_handler_dbus_message_sent ::
    "bool \<Rightarrow> ('cb, 'p) mms_handler_dbus \<Rightarrow> string option \<Rightarrow> string option \<Rightarrow> bool \<times> ('cb, 'p) mms_handler_dbus" where
  "mms_handler_dbus_message_sent bus h ident msgid =
     guarded_call bus (or_empty ident \<noteq> [] \<and> or_empty msgid \<noteq> []) (Message_Sent (or_empty ident) (or_empty msgid)) h"

definition mms_handler_dbus_delivery_report ::
    "bool \<Rightarrow> ('cb, 'p) mms_handler_dbus \<Rightarrow> string option \<Rightarrow> string option \<Rightarrow> string option \<Rightarrow> mms_delivery_status
      \<Rightarrow> bool \<times> ('cb, 'p) mms_handler_dbus" where
  "mms_handler_dbus_delivery_report bus h imsi msgid recipient status =
     guarded_call bus (or_empty msgid \<noteq> [] \<and> or_empty recipient \<noteq> [])
       (Delivery_Report imsi (or_empty msgid) (or_empty recipient) status) h"

definition mms_handler_dbus_read_report ::
    "bool \<Rightarrow> ('cb, 'p) mms_handler_dbus \<Rightarrow> string option \<Rightarrow> string option \<Rightarrow> string option \<Rightarrow> mms_read_status
      \<Rightarrow> bool \<times> ('cb, 'p) mms_handler_dbus" where
  "mms_handler_dbus_read_report bus h imsi msgid recipient status =
     guarded_call bus (or_empty msgid \<noteq> [] \<and> or_empty recipient \<noteq> [])
       (Read_Report imsi (or_empty msgid) (or_empty recipient) status) h"

definition mms_handler_dbus_read_report_send_status ::
    "bool \<Rightarrow> ('cb, 'p) mms_handler_dbus \<Rightarrow> string option \<Rightarrow> mms_read_report_status
      \<Rightarrow> bool \<times> ('cb, 'p) mms_handler_dbus" where
  "mms_handler_dbus_read_report_send_status bus h ident status =
     guarded_call bus (or_empty ident \<noteq> []) (Read_Report_Send_Status (or_empty ident) status) h"

text \<open>The class.\<close>

definition mms_handler_dbus_class :: "bool \<Rightarrow> (('cb, 'p) mms_handler_dbus, 'cb, 'p) mms_handler_class" where
  "mms_handler_dbus_class bus =
     \<lparr>fn_message_notify = Some (mms_handler_dbus_message_notify bus),
      fn_message_notify_cancel = Some mms_handler_dbus_message_notify_cancel,
      fn_message_received = Some (mms_handler_dbus_message_received bus),
      fn_message_received_cancel = Some mms_handler_dbus_message_received_cancel,
      fn_message_receive_state_changed = Some (mms_handler_dbus_message_receive_state_changed bus),
      fn_message_send_state_changed = Some (mms_handler_dbus_message_send_state_changed bus),
      fn_message_sent = Some (mms_handler_dbus_message_sent bus),
      fn_delivery_report = Some (mms_handler_dbus_delivery_report bus),
      fn_read_report = Some (mms_handler_dbus_read_report bus),
      fn_read_report_send_status = Some (mms_handler_dbus_read_report_send_status bus)\<rparr>"


section \<open>Steps\<close>

text \<open>What clients do: they call the interface, cancel calls that are pending, and take and drop references, but
  keep one. A callback does the same.\<close>

definition hd_pending :: "('cb, 'p) mms_handler_dbus \<Rightarrow> nat" where
  "hd_pending h = length (hd_notify_pending h) + length (hd_received_pending h) + hd_generic h"

definition hd_owners :: "('cb, 'p) mms_handler_dbus \<Rightarrow> int" where
  "hd_owners h = hd_refs h - int (hd_pending h)"

inductive handler_client :: "('cb, 'p) mms_handler_dbus \<Rightarrow> ('cb, 'p) mms_handler_dbus \<Rightarrow> bool" where
  Notify: "handler_client h (snd (mms_handler_dbus_message_notify bus h imsi from_addr subject expiry push location cb param))"
| Received: "handler_client h (snd (mms_handler_dbus_message_received bus h msg cb param))"
| Notify_Cancel: "handler_client h (mms_handler_dbus_message_notify_cancel h call)"
| Received_Cancel: "handler_client h (mms_handler_dbus_message_received_cancel h call)"
| Other: "handler_client h (snd (guarded_call bus guard request h))"
| Ref: "handler_client h (mms_handler_ref h)"
| Unref: "1 < hd_owners h \<Longrightarrow> handler_client h (mms_handler_unref h)"

inductive handler_step :: "('cb, 'p) mms_handler_dbus \<Rightarrow> ('cb, 'p) mms_handler_dbus \<Rightarrow> bool" where
  Client: "handler_client h h' \<Longrightarrow> handler_step h h'"
| Notify_Done: "call \<in> fst ` set (hd_notify_pending h) \<Longrightarrow> (\<And>h. handler_client\<^sup>*\<^sup>* h (react h))
    \<Longrightarrow> handler_step h (mms_handler_dbus_message_notify_done react ident call h)"
| Received_Done: "call \<in> fst ` set (hd_received_pending h) \<Longrightarrow> (\<And>h. handler_client\<^sup>*\<^sup>* h (react h))
    \<Longrightarrow> handler_step h (mms_handler_dbus_message_received_done react ok call h)"
| Call_Done: "0 < hd_generic h \<Longrightarrow> handler_step h (mms_handler_dbus_call_done h)"

section \<open>The invariant\<close>

definition pending_ids :: "('cb, 'p) mms_handler_dbus \<Rightarrow> nat list" where
  "pending_ids h = map fst (hd_notify_pending h) @ map fst (hd_received_pending h)"

definition told_ids :: "('cb, 'p) mms_handler_dbus \<Rightarrow> nat list" where
  "told_ids h = map callback_call (hd_callbacks h)"

text \<open>\<open>now\<close> are the calls whose callback is running.\<close>

definition handler_good :: "nat set \<Rightarrow> ('cb, 'p) mms_handler_dbus \<Rightarrow> bool" where
  "handler_good now h \<longleftrightarrow>
     h_busy h = int (hd_pending h) \<and> 1 \<le> hd_owners h \<and> \<not> hd_freed h \<and> \<not> hd_used_after_free h
     \<and> distinct (pending_ids h) \<and> distinct (told_ids h)
     \<and> (\<forall>c \<in> set (pending_ids h) \<union> set (told_ids h). c < hd_next_call h)
     \<and> set (pending_ids h) \<inter> set (told_ids h) \<subseteq> now"

lemma cancel_pending_simps [simp]:
  "length (cancel_pending call calls) = length calls"
  "map fst (cancel_pending call calls) = map fst calls"
  "fst ` set (cancel_pending call calls) = fst ` set calls"
  by (induction calls) (auto simp: cancel_pending_def)

lemmas handler_op_defs =
  mms_handler_dbus_connect_def handler_busy_change_def mms_handler_busy_update_def
  mms_handler_notify_call_create_def mms_handler_message_received_call_create_def mms_handler_ref_def
  mms_handler_dbus_message_notify_def mms_handler_dbus_message_received_def
  mms_handler_dbus_message_notify_cancel_def mms_handler_dbus_message_received_cancel_def
  guarded_call_def generic_call_def

lemma handler_good_more:
  assumes good: "handler_good now h"
    and "h_busy h' = h_busy h + 1" and "hd_refs h' = hd_refs h + 1" and "hd_pending h' = hd_pending h + 1"
    and "\<not> hd_freed h'" and "\<not> hd_used_after_free h'" and "told_ids h' = told_ids h"
    and "pending_ids h' = pending_ids h \<and> hd_next_call h' = hd_next_call h
      \<or> mset (pending_ids h') = add_mset (hd_next_call h) (mset (pending_ids h)) \<and> hd_next_call h' = hd_next_call h + 1"
  shows "handler_good now h'"
proof -
  have old: "\<forall>c \<in> set (pending_ids h) \<union> set (told_ids h). c < hd_next_call h" "distinct (pending_ids h)"
    "set (pending_ids h) \<inter> set (told_ids h) \<subseteq> now" "distinct (told_ids h)"
    using good by (simp_all add: handler_good_def)
  from assms(8) have "distinct (pending_ids h') \<and> (\<forall>c \<in> set (pending_ids h') \<union> set (told_ids h'). c < hd_next_call h')
      \<and> set (pending_ids h') \<inter> set (told_ids h') \<subseteq> now"
  proof (elim disjE conjE)
    assume new: "mset (pending_ids h') = add_mset (hd_next_call h) (mset (pending_ids h))"
      "hd_next_call h' = hd_next_call h + 1"
    then have "set (pending_ids h') = insert (hd_next_call h) (set (pending_ids h))"
      by (metis set_mset_add_mset_insert set_mset_mset)
    moreover have "distinct (pending_ids h')"
      using new(1) old(1,2) by (metis UnI1 distinct.simps(2) less_irrefl mset.simps(2) mset_eq_imp_distinct_iff)
    ultimately show ?thesis
      using old new(2) assms(7) by (fastforce simp: less_Suc_eq)
  qed (use old assms(7) in simp)
  then show ?thesis
    using good assms by (simp add: handler_good_def hd_owners_def)
qed

lemma handler_good_same:
  assumes "handler_good now h" and "h_busy h' = h_busy h" and "1 \<le> hd_owners h'" and "hd_pending h' = hd_pending h"
    and "hd_freed h' = hd_freed h" and "hd_used_after_free h' = hd_used_after_free h"
    and "told_ids h' = told_ids h" and "pending_ids h' = pending_ids h" and "hd_next_call h' = hd_next_call h"
  shows "handler_good now h'"
  using assms by (simp add: handler_good_def)

lemma guarded_call_eq:
  "snd (guarded_call bus guard request h) =
     (if guard \<and> (hd_proxy h \<or> bus) then generic_call request (h\<lparr>hd_proxy := True\<rparr>)
      else h\<lparr>hd_proxy := hd_proxy h \<or> bus\<rparr>)"
  by (cases bus; cases h) (simp_all add: guarded_call_def mms_handler_dbus_connect_def)

lemma message_notify_eq:
  "snd (mms_handler_dbus_message_notify bus h imsi from_addr subject expiry push location cb param) =
     (if hd_proxy h \<or> bus then
        (mms_handler_ref (handler_busy_change 1 (h\<lparr>hd_proxy := True\<rparr>)))
          \<lparr>hd_next_call := hd_next_call h + 1,
           hd_notify_pending := (hd_next_call h, \<lparr>hp_cb = cb, hp_cancelled = False, hp_msg = None\<rparr>, param) # hd_notify_pending h,
           hd_requests := hd_requests h @ [Message_Notification imsi from_addr subject expiry push location (Some (hd_next_call h))]\<rparr>
      else h\<lparr>hd_proxy := hd_proxy h \<or> bus\<rparr>)"
  by (cases bus; cases "hd_proxy h")
     (simp_all add: mms_handler_dbus_message_notify_def mms_handler_dbus_connect_def
       mms_handler_notify_call_create_def handler_busy_change_def mms_handler_busy_update_def mms_handler_ref_def Let_def)

lemma message_received_eq:
  "snd (mms_handler_dbus_message_received bus h msg cb param) =
     (if or_empty (mo_id msg) \<noteq> [] \<and> (hd_proxy h \<or> bus) then
        (mms_handler_ref (handler_busy_change 1 (h\<lparr>hd_proxy := True\<rparr>)))
          \<lparr>hd_next_call := hd_next_call h + 1,
           hd_received_pending := (hd_next_call h, \<lparr>hp_cb = cb, hp_cancelled = False, hp_msg = Some msg\<rparr>, param) # hd_received_pending h,
           hd_requests := hd_requests h @ [Message_Received (or_empty (mo_id msg)) (mo_message_id msg)
             (or_empty (mo_from msg)) (mo_to msg) (mo_cc msg) (or_empty (mo_subject msg)) msg None]\<rparr>
      else h\<lparr>hd_proxy := hd_proxy h \<or> bus\<rparr>)"
  by (cases bus; cases "hd_proxy h")
     (simp_all add: mms_handler_dbus_message_received_def mms_handler_dbus_connect_def
       mms_handler_message_received_call_create_def handler_busy_change_def mms_handler_busy_update_def
       mms_handler_ref_def Let_def)


lemma handler_busy_change_fields [simp]:
  "h_busy (handler_busy_change n h) = h_busy h + n"
  "h_done (handler_busy_change n h) = h_done h + (if n \<noteq> 0 \<and> h_busy h + n < 1 then 1 else 0)"
  "hd_pending (handler_busy_change n h) = hd_pending h" "hd_refs (handler_busy_change n h) = hd_refs h"
  "hd_notify_pending (handler_busy_change n h) = hd_notify_pending h"
  "hd_received_pending (handler_busy_change n h) = hd_received_pending h" "hd_generic (handler_busy_change n h) = hd_generic h"
  "hd_next_call (handler_busy_change n h) = hd_next_call h" "hd_callbacks (handler_busy_change n h) = hd_callbacks h"
  "hd_freed (handler_busy_change n h) = hd_freed h"
  "hd_used_after_free (handler_busy_change n h) \<longleftrightarrow> hd_used_after_free h \<or> hd_freed h"
  by (simp_all add: handler_busy_change_def mms_handler_busy_update_def hd_pending_def Let_def)

lemma handler_client_good:
  assumes "handler_client h h'" and "handler_good now h"
  shows "handler_good now h' \<and> h_done h' = h_done h \<and> told_ids h' = told_ids h"
  using assms(1)
proof (cases rule: handler_client.cases)
  have busy: "0 \<le> h_busy h" "\<not> hd_freed h" "\<not> hd_used_after_free h" "1 \<le> hd_owners h"
    using assms(2) by (simp_all add: handler_good_def)
  note [simp] = mms_handler_ref_def hd_pending_def told_ids_def pending_ids_def hd_owners_def
  {
    case (Notify bus imsi from_addr subject expiry push location cb param)
    then show ?thesis
      unfolding message_notify_eq using busy
      by (auto intro: handler_good_more [OF assms(2)] handler_good_same [OF assms(2)])
  next
    case (Received bus msg cb param)
    then show ?thesis
      unfolding message_received_eq using busy
      by (auto intro: handler_good_more [OF assms(2)] handler_good_same [OF assms(2)])
  next
    case (Notify_Cancel call)
    then show ?thesis
      using busy by (auto simp: mms_handler_dbus_message_notify_cancel_def intro!: handler_good_same [OF assms(2)])
  next
    case (Received_Cancel call)
    then show ?thesis
      using busy by (auto simp: mms_handler_dbus_message_received_cancel_def intro!: handler_good_same [OF assms(2)])
  next
    case (Other bus guard request)
    then show ?thesis
      unfolding guarded_call_eq using busy
      by (auto simp: generic_call_def Let_def intro: handler_good_more [OF assms(2)] handler_good_same [OF assms(2)])
  next
    case Ref
    then show ?thesis
      using busy by (auto intro!: handler_good_same [OF assms(2)])
  next
    case Unref
    then show ?thesis
      using busy by (auto simp: mms_handler_unref_def Let_def intro!: handler_good_same [OF assms(2)])
  }
qed

lemma handler_clients_good:
  assumes "handler_client\<^sup>*\<^sup>* h h'" and "handler_good now h"
  shows "handler_good now h' \<and> h_done h' = h_done h \<and> told_ids h' = told_ids h"
  using assms(1)
proof (induction rule: rtranclp_induct)
  case (step t u)
  then show ?case using handler_client_good by metis
qed (use assms(2) in simp)


text \<open>The end of a call: its entry goes, with its reference and its share of the busy count.\<close>

lemma filter_call:
  assumes "distinct (map fst calls)" and "call \<in> fst ` set calls"
  shows "length (filter (\<lambda>x. fst x \<noteq> call) calls) = length calls - 1"
    and "map fst (filter (\<lambda>x. fst x \<noteq> call) calls) = remove1 call (map fst calls)"
proof -
  have "map fst (filter (\<lambda>x. fst x \<noteq> call) calls) = filter (\<lambda>c. c \<noteq> call) (map fst calls)"
    by (simp add: filter_map comp_def)
  also have "\<dots> = remove1 call (map fst calls)"
    by (simp add: distinct_remove1_removeAll [OF assms(1)] removeAll_filter_not_eq) (rule filter_cong, auto)
  finally show eq: "map fst (filter (\<lambda>x. fst x \<noteq> call) calls) = remove1 call (map fst calls)" .
  show "length (filter (\<lambda>x. fst x \<noteq> call) calls) = length calls - 1"
    using arg_cong [OF eq, of length] assms(2) by (simp add: length_remove1)
qed

lemma handler_frames:
  "pending_ids (handler_busy_change n h) = pending_ids h" "told_ids (handler_busy_change n h) = told_ids h"
  "pending_ids (h\<lparr>hd_refs := r\<rparr>) = pending_ids h" "told_ids (h\<lparr>hd_refs := r\<rparr>) = told_ids h"
  "hd_pending (h\<lparr>hd_refs := r\<rparr>) = hd_pending h"
  by (simp_all add: pending_ids_def told_ids_def hd_pending_def)

lemma call_deleted:
  fixes h h0 h' :: "('cb, 'p) mms_handler_dbus"
  assumes good: "handler_good {call} h" and "1 \<le> hd_pending h"
    and h': "h' = handler_busy_change (- 1) (mms_handler_unref h0)"
    and "hd_pending h0 = hd_pending h - 1" and "hd_refs h0 = hd_refs h" and "h_busy h0 = h_busy h" and "h_done h0 = h_done h"
    and "hd_freed h0 = hd_freed h" and "hd_used_after_free h0 = hd_used_after_free h" and "told_ids h0 = told_ids h"
    and "hd_next_call h0 = hd_next_call h"
    and "pending_ids h0 = pending_ids h \<and> call \<notin> set (pending_ids h) \<or> pending_ids h0 = remove1 call (pending_ids h)"
  shows "handler_good {} h' \<and> told_ids h' = told_ids h
    \<and> h_done h' = h_done h + (if h_busy h' = 0 then 1 else 0)"
proof -
  have n: "hd_refs h = hd_owners h + int (hd_pending h)" "1 \<le> hd_owners h"
    using good by (simp_all add: hd_owners_def handler_good_def)
  then have unref: "mms_handler_unref h0 = h0\<lparr>hd_refs := hd_refs h - 1\<rparr>"
    using assms(2,5) by (simp add: mms_handler_unref_def Let_def)
  have ids: "distinct (pending_ids h0)" "set (pending_ids h0) \<subseteq> set (pending_ids h) - {call}"
    using assms(12) good by (auto simp: handler_good_def)
  have fields: "h_busy h' = h_busy h - 1" "hd_pending h' = hd_pending h - 1" "hd_refs h' = hd_refs h - 1"
    "told_ids h' = told_ids h" "pending_ids h' = pending_ids h0" "hd_freed h' = hd_freed h"
    "hd_used_after_free h' = (hd_used_after_free h \<or> hd_freed h)" "hd_next_call h' = hd_next_call h"
    "h_done h' = h_done h + (if h_busy h - 1 < 1 then 1 else 0)"
    using assms(4-11) by (simp_all add: h' unref handler_frames)
  have owners: "hd_owners h' = hd_owners h"
    using assms(2) by (simp add: hd_owners_def fields(2,3) of_nat_diff)
  have old: "h_busy h = int (hd_pending h)" "\<not> hd_freed h" "\<not> hd_used_after_free h" "distinct (told_ids h)"
    "\<forall>c \<in> set (pending_ids h) \<union> set (told_ids h). c < hd_next_call h"
    "set (pending_ids h) \<inter> set (told_ids h) \<subseteq> {call}"
    using good by (simp_all add: handler_good_def)
  have "\<forall>c \<in> set (pending_ids h') \<union> set (told_ids h'). c < hd_next_call h'"
    and "set (pending_ids h') \<inter> set (told_ids h') \<subseteq> {}"
    using old(5,6) ids(2) unfolding fields by blast+
  then show ?thesis
    using old(1-4) ids(1) owners n(2) assms(2) unfolding handler_good_def by (auto simp: fields)
qed


text \<open>The callback of a call that has not been cancelled is told, and what it does keeps the invariant.\<close>

lemma callback_good:
  assumes good: "handler_good {} h" and call: "callback_call cb = call" "call \<in> set (pending_ids h)"
    and react: "\<And>h. handler_client\<^sup>*\<^sup>* h (react h)"
    and h1: "h1 = react (h\<lparr>hd_callbacks := hd_callbacks h @ [cb]\<rparr>)"
  shows "handler_good {call} h1 \<and> h_done h1 = h_done h \<and> told_ids h1 = told_ids h @ [call]"
proof -
  let ?h0 = "h\<lparr>hd_callbacks := hd_callbacks h @ [cb]\<rparr>"
  have "told_ids ?h0 = told_ids h @ [call]" "pending_ids ?h0 = pending_ids h" "hd_pending ?h0 = hd_pending h"
    "hd_owners ?h0 = hd_owners h"
    by (simp_all add: told_ids_def pending_ids_def hd_pending_def hd_owners_def call)
  then have "handler_good {call} ?h0"
    using good call(2) by (auto simp: handler_good_def)
  then show ?thesis
    using handler_clients_good [OF react] \<open>told_ids ?h0 = told_ids h @ [call]\<close> h1 by fastforce
qed

lemma handler_good_weaken: "handler_good {} h \<Longrightarrow> handler_good now h"
  by (auto simp: handler_good_def)

text \<open>What the reaction does to a call that is pending: it may be cancelled, but it stays.\<close>

lemma client_keeps_pending:
  assumes "handler_client\<^sup>*\<^sup>* h h'"
  shows "fst ` set (hd_notify_pending h) \<subseteq> fst ` set (hd_notify_pending h')
    \<and> fst ` set (hd_received_pending h) \<subseteq> fst ` set (hd_received_pending h')"
  using assms
proof (induction rule: rtranclp_induct)
  case (step t u)
  have "fst ` set (hd_notify_pending t) \<subseteq> fst ` set (hd_notify_pending u)
    \<and> fst ` set (hd_received_pending t) \<subseteq> fst ` set (hd_received_pending u)"
    using step.hyps(2)
  proof (cases rule: handler_client.cases)
    case (Notify_Cancel call)
    then show ?thesis by (simp add: mms_handler_dbus_message_notify_cancel_def)
  next
    case (Received_Cancel call)
    then show ?thesis by (simp add: mms_handler_dbus_message_received_cancel_def)
  next
    case (Notify bus imsi from_addr subject expiry push location cb param)
    show ?thesis unfolding Notify message_notify_eq by (simp add: mms_handler_ref_def subset_insertI)
  next
    case (Received bus msg cb param)
    show ?thesis unfolding Received message_received_eq by (simp add: mms_handler_ref_def subset_insertI)
  next
    case (Other bus guard request)
    show ?thesis unfolding Other guarded_call_eq by (simp add: generic_call_def mms_handler_ref_def Let_def)
  qed (simp_all add: mms_handler_ref_def mms_handler_unref_def mms_handler_dbus_dispose_def Let_def)
  note one = this
  show ?case
    by (rule conjI, rule subset_trans [OF conjunct1 [OF step.IH] conjunct1 [OF one]],
        rule subset_trans [OF conjunct2 [OF step.IH] conjunct2 [OF one]])
qed simp


lemma pending_ids_notify: "call \<in> fst ` set (hd_notify_pending h) \<Longrightarrow> call \<in> set (pending_ids h)"
  and pending_ids_received: "call \<in> fst ` set (hd_received_pending h) \<Longrightarrow> call \<in> set (pending_ids h)"
  by (auto simp: pending_ids_def)

lemma good_busy: "handler_good now h \<Longrightarrow> call \<in> set (pending_ids h) \<Longrightarrow> 0 < h_busy h"
proof -
  assume "handler_good now h" and "call \<in> set (pending_ids h)"
  then have "h_busy h = int (hd_pending h)" and "0 < length (pending_ids h)"
    by (simp add: handler_good_def, cases "pending_ids h", simp_all)
  moreover have "length (pending_ids h) \<le> hd_pending h" by (simp add: pending_ids_def hd_pending_def)
  ultimately show ?thesis by linarith
qed

text \<open>What an answer to a call does: its callback is called unless it has been cancelled, and the call is over.\<close>

definition call_ended :: "nat \<Rightarrow> nat list \<Rightarrow> ('cb, 'p) mms_handler_dbus \<Rightarrow> ('cb, 'p) mms_handler_dbus \<Rightarrow> bool" where
  "call_ended call told h h' \<longleftrightarrow> handler_good {} h' \<and> told_ids h' = told_ids h @ told
     \<and> h_done h' = h_done h + (if 0 < h_busy h \<and> h_busy h' = 0 then 1 else 0)"

lemma notify_done_ends:
  assumes good: "handler_good {} h" and call: "call \<in> fst ` set (hd_notify_pending h)"
    and react: "\<And>h. handler_client\<^sup>*\<^sup>* h (react h)"
  shows "\<exists>c param. map_of (hd_notify_pending h) call = Some (c, param)
    \<and> call_ended call (if hp_cb c = None then [] else [call]) h
        (mms_handler_dbus_message_notify_done react ident call h)"
proof -
  obtain c param where c: "map_of (hd_notify_pending h) call = Some (c, param)"
    using call by (metis map_of_eq_None_iff not_None_eq surj_pair)
  define h1 where "h1 = (case hp_cb c of None \<Rightarrow> h
    | Some cb \<Rightarrow> react (h\<lparr>hd_callbacks := hd_callbacks h @ [Notify_Complete call cb ident param]\<rparr>))"
  have h1: "handler_good {call} h1 \<and> h_done h1 = h_done h
      \<and> told_ids h1 = told_ids h @ (if hp_cb c = None then [] else [call])"
  proof (cases "hp_cb c")
    case None
    then show ?thesis using handler_good_weaken [OF good] by (simp add: h1_def)
  next
    case (Some cb)
    then show ?thesis
      using callback_good [OF good _ pending_ids_notify [OF call] react refl, of "Notify_Complete call cb ident param"]
      by (simp add: h1_def)
  qed
  have still: "call \<in> fst ` set (hd_notify_pending h1)"
  proof (cases "hp_cb c")
    case (Some cb)
    let ?told = "h\<lparr>hd_callbacks := hd_callbacks h @ [Notify_Complete call cb ident param]\<rparr>"
    have "call \<in> fst ` set (hd_notify_pending ?told)" using call by simp
    then have "call \<in> fst ` set (hd_notify_pending (react ?told))"
      using client_keeps_pending [OF react [of ?told]] by (rule_tac subsetD) (rule conjunct1)
    then show ?thesis by (simp add: h1_def Some)
  qed (use call in \<open>simp add: h1_def\<close>)
  have ids: "distinct (map fst (hd_notify_pending h1))" "call \<notin> fst ` set (hd_received_pending h1)"
    using h1 still by (auto simp: handler_good_def pending_ids_def)
  let ?h0 = "h1\<lparr>hd_notify_pending := filter (\<lambda>x. fst x \<noteq> call) (hd_notify_pending h1)\<rparr>"
  have len: "0 < length (hd_notify_pending h1)" using still by (cases "hd_notify_pending h1") auto
  have "handler_good {} (handler_busy_change (- 1) (mms_handler_unref ?h0))
      \<and> told_ids (handler_busy_change (- 1) (mms_handler_unref ?h0)) = told_ids h1
      \<and> h_done (handler_busy_change (- 1) (mms_handler_unref ?h0)) =
          h_done h1 + (if h_busy (handler_busy_change (- 1) (mms_handler_unref ?h0)) = 0 then 1 else 0)"
  proof (rule call_deleted [OF conjunct1 [OF h1] _ refl])
    show "1 \<le> hd_pending h1" "hd_pending ?h0 = hd_pending h1 - 1"
      using len filter_call(1) [OF ids(1) still] unfolding hd_pending_def by (simp_all, linarith+)
    show "pending_ids ?h0 = pending_ids h1 \<and> call \<notin> set (pending_ids h1) \<or> pending_ids ?h0 = remove1 call (pending_ids h1)"
      using filter_call(2) [OF ids(1) still] still by (simp add: pending_ids_def remove1_append)
  qed (simp_all add: told_ids_def)
  moreover have "mms_handler_dbus_message_notify_done react ident call h = handler_busy_change (- 1) (mms_handler_unref ?h0)"
    by (simp add: mms_handler_dbus_message_notify_done_def c mms_handler_notify_call_delete_def h1_def Let_def)
  moreover have "0 < h_busy h"
    using good pending_ids_notify [OF call] by (rule good_busy)
  ultimately show ?thesis
    using c h1 by (simp add: call_ended_def)
qed


lemma received_done_ends:
  assumes good: "handler_good {} h" and call: "call \<in> fst ` set (hd_received_pending h)"
    and react: "\<And>h. handler_client\<^sup>*\<^sup>* h (react h)"
  shows "\<exists>c param. map_of (hd_received_pending h) call = Some (c, param)
    \<and> call_ended call (if hp_cb c = None \<or> hp_msg c = None then [] else [call]) h
        (mms_handler_dbus_message_received_done react ok call h)"
proof -
  obtain c param where c: "map_of (hd_received_pending h) call = Some (c, param)"
    using call by (metis map_of_eq_None_iff not_None_eq surj_pair)
  define h1 where "h1 = (case (hp_cb c, hp_msg c) of
      (Some cb, Some msg) \<Rightarrow> react (h\<lparr>hd_callbacks := hd_callbacks h @ [Received_Complete call cb msg ok param]\<rparr>)
    | _ \<Rightarrow> h)"
  have h1: "handler_good {call} h1 \<and> h_done h1 = h_done h
      \<and> told_ids h1 = told_ids h @ (if hp_cb c = None \<or> hp_msg c = None then [] else [call])"
  proof (cases "hp_cb c = None \<or> hp_msg c = None")
    case True
    then show ?thesis using handler_good_weaken [OF good] by (auto simp: h1_def split: option.split)
  next
    case False
    then obtain cb msg where "hp_cb c = Some cb" "hp_msg c = Some msg" by auto
    then show ?thesis
      using callback_good [OF good _ pending_ids_received [OF call] react refl, of "Received_Complete call cb msg ok param"]
      by (simp add: h1_def)
  qed
  have still: "call \<in> fst ` set (hd_received_pending h1)"
  proof (cases "hp_cb c = None \<or> hp_msg c = None")
    case False
    then obtain cb msg where Some: "hp_cb c = Some cb" "hp_msg c = Some msg" by auto
    let ?told = "h\<lparr>hd_callbacks := hd_callbacks h @ [Received_Complete call cb msg ok param]\<rparr>"
    have "call \<in> fst ` set (hd_received_pending ?told)" using call by simp
    then have "call \<in> fst ` set (hd_received_pending (react ?told))"
      using client_keeps_pending [OF react [of ?told]] by (rule_tac subsetD) (rule conjunct2)
    then show ?thesis by (simp add: h1_def Some)
  qed (use call in \<open>auto simp: h1_def split: option.split\<close>)
  have ids: "distinct (map fst (hd_received_pending h1))" "call \<notin> fst ` set (hd_notify_pending h1)"
    using h1 still by (auto simp: handler_good_def pending_ids_def)
  let ?h0 = "h1\<lparr>hd_received_pending := filter (\<lambda>x. fst x \<noteq> call) (hd_received_pending h1)\<rparr>"
  have len: "0 < length (hd_received_pending h1)" using still by (cases "hd_received_pending h1") auto
  have "handler_good {} (handler_busy_change (- 1) (mms_handler_unref ?h0))
      \<and> told_ids (handler_busy_change (- 1) (mms_handler_unref ?h0)) = told_ids h1
      \<and> h_done (handler_busy_change (- 1) (mms_handler_unref ?h0)) =
          h_done h1 + (if h_busy (handler_busy_change (- 1) (mms_handler_unref ?h0)) = 0 then 1 else 0)"
  proof (rule call_deleted [OF conjunct1 [OF h1] _ refl])
    show "1 \<le> hd_pending h1" "hd_pending ?h0 = hd_pending h1 - 1"
      using len filter_call(1) [OF ids(1) still] unfolding hd_pending_def by (simp_all, linarith+)
    show "pending_ids ?h0 = pending_ids h1 \<and> call \<notin> set (pending_ids h1) \<or> pending_ids ?h0 = remove1 call (pending_ids h1)"
      using filter_call(2) [OF ids(1) still] ids(2) by (simp add: pending_ids_def remove1_append)
  qed (simp_all add: told_ids_def)
  moreover have "mms_handler_dbus_message_received_done react ok call h = handler_busy_change (- 1) (mms_handler_unref ?h0)"
    by (simp add: mms_handler_dbus_message_received_done_def c mms_handler_message_received_call_delete_def h1_def Let_def)
  moreover have "0 < h_busy h"
    using good pending_ids_received [OF call] by (rule good_busy)
  ultimately show ?thesis
    using c h1 by (simp add: call_ended_def)
qed


lemma client_pending:
  assumes "handler_client h h'"
  shows "hd_pending h \<le> hd_pending h'"
  using assms
proof (cases rule: handler_client.cases)
  case (Notify bus imsi from_addr subject expiry push location cb param)
  show ?thesis unfolding Notify message_notify_eq by (simp add: mms_handler_ref_def hd_pending_def)
next
  case (Received bus msg cb param)
  show ?thesis unfolding Received message_received_eq by (simp add: mms_handler_ref_def hd_pending_def)
next
  case (Other bus guard request)
  show ?thesis unfolding Other guarded_call_eq by (simp add: generic_call_def mms_handler_ref_def hd_pending_def Let_def)
qed (simp_all add: mms_handler_ref_def mms_handler_unref_def mms_handler_dbus_dispose_def hd_pending_def Let_def
    mms_handler_dbus_message_notify_cancel_def mms_handler_dbus_message_received_cancel_def)

lemma call_done_ends:
  assumes good: "handler_good {} h" and "0 < hd_generic h"
  shows "handler_good {} (mms_handler_dbus_call_done h) \<and> told_ids (mms_handler_dbus_call_done h) = told_ids h
    \<and> h_done (mms_handler_dbus_call_done h) = h_done h
        + (if 0 < h_busy h \<and> h_busy (mms_handler_dbus_call_done h) = 0 then 1 else 0)"
proof -
  let ?h1 = "handler_busy_change (- 1) (h\<lparr>hd_generic := hd_generic h - 1\<rparr>)"
  have "1 \<le> hd_refs h - 1" and busy: "0 < h_busy h"
    using assms by (auto simp: handler_good_def hd_owners_def hd_pending_def)
  then have done_eq: "mms_handler_dbus_call_done h = ?h1\<lparr>hd_refs := hd_refs h - 1\<rparr>"
    by (simp add: mms_handler_dbus_call_done_def mms_handler_unref_def Let_def)
  have "hd_pending (h\<lparr>hd_generic := hd_generic h - 1\<rparr>) = hd_pending h - 1" "1 \<le> hd_pending h"
    using assms(2) by (simp_all add: hd_pending_def)
  moreover have "pending_ids (h\<lparr>hd_generic := hd_generic h - 1\<rparr>) = pending_ids h"
    "told_ids (h\<lparr>hd_generic := hd_generic h - 1\<rparr>) = told_ids h"
    by (simp_all add: pending_ids_def told_ids_def)
  ultimately show ?thesis
    using good busy unfolding done_eq
    by (auto simp: handler_good_def handler_frames hd_owners_def of_nat_diff)
qed

lemma handler_step_good:
  assumes "handler_step h h'" and "handler_good {} h"
  shows "handler_good {} h' \<and> h_done h' = h_done h + (if 0 < h_busy h \<and> h_busy h' = 0 then 1 else 0)"
  using assms(1)
proof (cases rule: handler_step.cases)
  case Client
  have "handler_good {} h'" "h_done h' = h_done h" using handler_client_good [OF Client assms(2)] by simp_all
  moreover have "h_busy h \<le> h_busy h'"
    using client_pending [OF Client] assms(2) \<open>handler_good {} h'\<close> by (simp add: handler_good_def)
  ultimately show ?thesis by auto
next
  case (Notify_Done call react ident)
  then show ?thesis using notify_done_ends [OF assms(2), of call react ident] by (auto simp: call_ended_def)
next
  case (Received_Done call react ok)
  then show ?thesis using received_done_ends [OF assms(2), of call react ok] by (auto simp: call_ended_def)
next
  case Call_Done
  then show ?thesis using call_done_ends [OF assms(2)] by simp
qed

interpretation handler_dbus: busy_object h_busy h_done hd_pending "handler_good {}" handler_step
proof unfold_locales
  fix h h' :: "('cb, 'p) mms_handler_dbus"
  show "handler_good {} h \<Longrightarrow> h_busy h = int (hd_pending h)" by (simp add: handler_good_def)
  show "handler_good {} h \<Longrightarrow> handler_step h h' \<Longrightarrow> handler_good {} h'" using handler_step_good by blast
  show "handler_good {} h \<Longrightarrow> handler_step h h' \<Longrightarrow>
      h_done h' = h_done h + (if 0 < h_busy h \<and> h_busy h' = 0 then 1 else 0)" using handler_step_good by blast
qed

lemma handler_new_good: "handler_good {} mms_handler_dbus_new"
  by (simp add: handler_good_def mms_handler_dbus_new_def hd_owners_def hd_pending_def pending_ids_def told_ids_def)

text \<open>A call that has been cancelled and whose callback has not been called yet: it never will be.\<close>

definition silenced :: "nat \<Rightarrow> ('cb, 'p) mms_handler_dbus \<Rightarrow> bool" where
  "silenced call h \<longleftrightarrow> call < hd_next_call h \<and> call \<notin> set (told_ids h)
     \<and> (\<forall>(c, x, _) \<in> set (hd_notify_pending h) \<union> set (hd_received_pending h). c = call \<longrightarrow> hp_cb x = None)"

lemma client_silenced:
  assumes "handler_client h h'" and quiet: "silenced call h"
  shows "silenced call h'"
  using assms(1)
proof (cases rule: handler_client.cases)
  case (Notify bus imsi from_addr subject expiry push location cb param)
  show ?thesis using quiet unfolding Notify message_notify_eq
    by (auto simp: silenced_def told_ids_def mms_handler_ref_def)
next
  case (Received bus msg cb param)
  show ?thesis using quiet unfolding Received message_received_eq
    by (auto simp: silenced_def told_ids_def mms_handler_ref_def)
next
  case (Other bus guard request)
  show ?thesis using quiet unfolding Other guarded_call_eq
    by (auto simp: silenced_def told_ids_def mms_handler_ref_def generic_call_def Let_def)
qed (use quiet in \<open>auto simp: silenced_def told_ids_def mms_handler_ref_def mms_handler_unref_def mms_handler_dbus_dispose_def Let_def
    mms_handler_dbus_message_notify_cancel_def mms_handler_dbus_message_received_cancel_def cancel_pending_def
    split: if_splits\<close>)


lemma clients_silenced: "handler_client\<^sup>*\<^sup>* h h' \<Longrightarrow> silenced call h \<Longrightarrow> silenced call h'"
  by (induction rule: rtranclp_induct) (auto intro: client_silenced)

lemma silenced_frames:
  "silenced call (handler_busy_change n h) \<longleftrightarrow> silenced call h"
  "silenced call (mms_handler_unref h) \<longleftrightarrow> silenced call h"
  "silenced call h \<Longrightarrow> silenced call (h\<lparr>hd_notify_pending := filter P (hd_notify_pending h)\<rparr>)"
  "silenced call h \<Longrightarrow> silenced call (h\<lparr>hd_received_pending := filter P (hd_received_pending h)\<rparr>)"
  "silenced call (h\<lparr>hd_generic := g\<rparr>) \<longleftrightarrow> silenced call h"
  by (auto simp: silenced_def told_ids_def mms_handler_unref_def mms_handler_dbus_dispose_def Let_def)

lemma silenced_told:
  "silenced call (h\<lparr>hd_callbacks := hd_callbacks h @ [cb]\<rparr>) \<longleftrightarrow> silenced call h \<and> callback_call cb \<noteq> call"
  by (auto simp: silenced_def told_ids_def)

lemma step_silenced:
  assumes "handler_step h h'" and quiet: "silenced call h"
  shows "silenced call h'"
  using assms(1)
proof (cases rule: handler_step.cases)
  case Client
  then show ?thesis using quiet by (rule client_silenced)
next
  case (Notify_Done c react ident)
  show ?thesis
  proof (cases "map_of (hd_notify_pending h) c")
    case None
    then show ?thesis using quiet by (simp add: Notify_Done(1) mms_handler_dbus_message_notify_done_def)
  next
    case (Some entry)
    obtain x param where x: "entry = (x, param)" by (cases entry)
    have "hp_cb x = None" if "c = call"
      using map_of_SomeD [OF Some] quiet that by (auto simp: silenced_def x)
    then have "silenced call (case hp_cb x of None \<Rightarrow> h
        | Some cb \<Rightarrow> react (h\<lparr>hd_callbacks := hd_callbacks h @ [Notify_Complete c cb ident param]\<rparr>))"
      using quiet by (auto simp: silenced_told intro!: clients_silenced [OF Notify_Done(3)] split: option.split)
    then show ?thesis
      by (simp add: Notify_Done(1) mms_handler_dbus_message_notify_done_def Some x Let_def silenced_frames
          mms_handler_notify_call_delete_def)
  qed
next
  case (Received_Done c react ok)
  show ?thesis
  proof (cases "map_of (hd_received_pending h) c")
    case None
    then show ?thesis using quiet by (simp add: Received_Done(1) mms_handler_dbus_message_received_done_def)
  next
    case (Some entry)
    obtain x param where x: "entry = (x, param)" by (cases entry)
    have "hp_cb x = None" if "c = call"
      using map_of_SomeD [OF Some] quiet that by (auto simp: silenced_def x)
    then have "silenced call (case (hp_cb x, hp_msg x) of
        (Some cb, Some msg) \<Rightarrow> react (h\<lparr>hd_callbacks := hd_callbacks h @ [Received_Complete c cb msg ok param]\<rparr>)
      | _ \<Rightarrow> h)"
      using quiet by (auto simp: silenced_told intro!: clients_silenced [OF Received_Done(3)] split: option.split)
    then show ?thesis
      by (simp add: Received_Done(1) mms_handler_dbus_message_received_done_def Some x Let_def silenced_frames
          mms_handler_message_received_call_delete_def)
  qed
next
  case Call_Done
  then show ?thesis using quiet by (simp add: mms_handler_dbus_call_done_def silenced_frames)
qed

lemma steps_silenced: "handler_step\<^sup>*\<^sup>* h h' \<Longrightarrow> silenced call h \<Longrightarrow> silenced call h'"
  by (induction rule: rtranclp_induct) (auto intro: step_silenced)

section \<open>Properties\<close>

text \<open>A handler with one notification that is pending.\<close>

definition sample_handler :: "(unit, unit) mms_handler_dbus" where
  "sample_handler = snd (mms_handler_dbus_message_notify True mms_handler_dbus_new (Some ''001'') [] [] 0 [] None
     (Some ()) ())"

definition sample_handler_done :: "(unit, unit) mms_handler_dbus" where
  "sample_handler_done = mms_handler_dbus_message_notify_done (\<lambda>h. h) (Some ''1'') 0 sample_handler"

lemma sample_handler_reached: "handler_step\<^sup>*\<^sup>* mms_handler_dbus_new sample_handler"
  unfolding sample_handler_def by (intro r_into_rtranclp handler_step.Client handler_client.Notify)

lemma sample_handler_done_reached: "handler_step\<^sup>*\<^sup>* sample_handler sample_handler_done"
  unfolding sample_handler_done_def by (rule r_into_rtranclp, rule handler_step.Notify_Done) (code_simp, simp)

text \<open>C28. The handler is busy exactly while calls are pending, holds a reference for each of them, and is not used
  after it has been freed as long as somebody else has a reference; whenever all calls that were pending have
  been answered, the signal that it is done has been emitted. No call gets two callbacks, and a call that is
  pending has not had its callback yet.\<close>

theorem handler_busy_while_pending:
  assumes "handler_step\<^sup>*\<^sup>* mms_handler_dbus_new h" and "handler_step\<^sup>*\<^sup>* h h'"
  shows "h_busy h = int (hd_pending h) \<and> hd_refs h > int (hd_pending h) \<and> \<not> hd_freed h \<and> \<not> hd_used_after_free h
    \<and> distinct (told_ids h) \<and> set (told_ids h) \<inter> set (pending_ids h) = {}
    \<and> (0 < hd_pending h \<and> hd_pending h' = 0 \<longrightarrow> h_done h < h_done h')"
proof -
  have good: "handler_good {} h" by (rule handler_dbus.steps_good [OF assms(1) handler_new_good])
  have "h_done h < h_done h'" if "0 < hd_pending h" "hd_pending h' = 0"
    by (rule handler_dbus.idle_is_told [OF assms(2) good that])
  then show ?thesis
    using good by (auto simp: handler_good_def hd_owners_def)
qed

theorem handler_busy_while_pending_witness:
  "h_busy sample_handler = 1 \<and> h_done sample_handler < h_done sample_handler_done"
proof -
  have "hd_pending sample_handler = 1" and "hd_pending sample_handler_done = 0" by code_simp+
  then show ?thesis
    using handler_busy_while_pending [OF sample_handler_reached sample_handler_done_reached] by simp
qed

text \<open>C29. A cancelled call never gets its callback, whatever D-Bus answers and whatever else happens.\<close>

theorem cancelled_call_is_silent:
  assumes "handler_step\<^sup>*\<^sup>* mms_handler_dbus_new h" and "call \<in> set (pending_ids h)"
    and "handler_step\<^sup>*\<^sup>* (mms_handler_dbus_message_received_cancel (mms_handler_dbus_message_notify_cancel h call) call) h'"
  shows "call \<notin> callback_call ` set (hd_callbacks h')"
proof -
  have "handler_good {} h" by (rule handler_dbus.steps_good [OF assms(1) handler_new_good])
  then have "call < hd_next_call h" "call \<notin> set (told_ids h)"
    using assms(2) by (auto simp: handler_good_def)
  then have "silenced call (mms_handler_dbus_message_received_cancel (mms_handler_dbus_message_notify_cancel h call) call)"
    by (auto simp: silenced_def told_ids_def mms_handler_dbus_message_notify_cancel_def
        mms_handler_dbus_message_received_cancel_def cancel_pending_def)
  from steps_silenced [OF assms(3) this] show ?thesis by (simp add: silenced_def told_ids_def)
qed


theorem cancelled_call_is_silent_witness:
  "0 \<notin> callback_call ` set (hd_callbacks (mms_handler_dbus_message_notify_done (\<lambda>h. h) (Some ''1'') 0
     (mms_handler_dbus_message_received_cancel (mms_handler_dbus_message_notify_cancel sample_handler 0) 0)))"
proof (rule cancelled_call_is_silent [OF sample_handler_reached])
  show "0 \<in> set (pending_ids sample_handler)" by code_simp
  show "handler_step\<^sup>*\<^sup>* (mms_handler_dbus_message_received_cancel (mms_handler_dbus_message_notify_cancel sample_handler 0) 0)
      (mms_handler_dbus_message_notify_done (\<lambda>h. h) (Some ''1'') 0
        (mms_handler_dbus_message_received_cancel (mms_handler_dbus_message_notify_cancel sample_handler 0) 0))"
    by (rule r_into_rtranclp, rule handler_step.Notify_Done) (code_simp, simp)
qed

text \<open>When the last reference of the clients is dropped while a call is pending, the answer to the call frees the
  handler and then still updates its busy count.\<close>

theorem handler_used_after_free:
  "hd_used_after_free (mms_handler_dbus_message_notify_done (\<lambda>h. h) None 0
     (mms_handler_unref (mms_handler_dbus_message_notify_cancel sample_handler 0)))"
  by code_simp

text \<open>A notification can be cancelled at the D-Bus side too; the D-Bus call of a received message is made without
  the cancellable of its call, so that cancelling it has no effect there. Nothing is sent without an id.\<close>

theorem received_call_not_cancellable:
  "let n = mms_handler_dbus_message_notify bus h imsi from_addr subject expiry push location cb param;
       r = mms_handler_dbus_message_received bus h msg cb param
   in (case fst n of
        None \<Rightarrow> \<not> hd_proxy h \<and> \<not> bus \<and> hd_requests (snd n) = hd_requests h
      | Some call \<Rightarrow> hd_requests (snd n) = hd_requests h
          @ [Message_Notification imsi from_addr subject expiry push location (Some call)])
    \<and> (case fst r of
        None \<Rightarrow> (\<not> hd_proxy h \<and> \<not> bus \<or> mo_id msg = None \<or> mo_id msg = Some []) \<and> hd_requests (snd r) = hd_requests h
      | Some call \<Rightarrow> hd_requests (snd r) = hd_requests h
          @ [Message_Received (the (mo_id msg)) (mo_message_id msg) (or_empty (mo_from msg)) (mo_to msg) (mo_cc msg)
               (or_empty (mo_subject msg)) msg None])"
  by (cases bus; cases "hd_proxy h"; cases "mo_id msg")
     (auto simp: mms_handler_dbus_message_notify_def mms_handler_dbus_message_received_def or_empty_def
       mms_handler_dbus_connect_def mms_handler_notify_call_create_def mms_handler_message_received_call_create_def
       handler_busy_change_def mms_handler_busy_update_def mms_handler_ref_def Let_def)

end
