(* ===== verification/Transfer_Dbus.thy ===== *)
theory Transfer_Dbus
  imports Mms_Prelude "HOL-Library.AList"
begin

text \<open>
  One transfer as an object on D-Bus, \<^verbatim>\<open>mms-transfer-list-dbus/src/mms_transfer_dbus.c\<close>: the numbers of bytes sent
  and received, and the clients that have asked for signals about them. A client asks for updates as often as it
  likes; each time it gets a cookie, and the updates last until it gives the cookie back or leaves the bus.

  The hash tables are association lists without an order of their own. Whether the sender of a call may make it is
  decided by the access policy of libdbusaccess, a parameter: \<open>peer\<close> is what \<^verbatim>\<open>da_peer_get\<close> returns for the sender,
  \<open>check\<close> is \<^verbatim>\<open>da_policy_check\<close>.
\<close>

section \<open>The object\<close>

abbreviation SEND_UPDATES_ENABLED :: u32 where "SEND_UPDATES_ENABLED \<equiv> 0x01"
abbreviation RECEIVE_UPDATES_ENABLED :: u32 where "RECEIVE_UPDATES_ENABLED \<equiv> 0x02"
abbreviation FLAG_FINISHED :: u32 where "FLAG_FINISHED \<equiv> 0x10"

datatype mms_transfer_action =
    ACTION_GET_ALL | ACTION_ENABLE_UPDATES | ACTION_DISABLE_UPDATES | ACTION_GET_INTERFACE_VERSION
  | ACTION_GET_SEND_PROGRESS | ACTION_GET_RECEIVE_PROGRESS

datatype transfer_signal =
    Send_Progress_Changed u32 u32 | Receive_Progress_Changed u32 u32 | Finished_Signal

record mms_transfer_dbus_client =
  tc_requests :: "(u32 \<times> u32) list"
  tc_flags :: u32

text \<open>\<open>td_exported\<close> says whether the object can be reached over D-Bus, \<open>td_watched\<close> the names of the bus that are
  watched, \<open>td_signals\<close> the signals sent and to whom.\<close>

record mms_transfer_dbus =
  td_id :: "string"
  td_type :: "string"
  td_path :: "string"
  td_exported :: bool
  td_clients :: "(string \<times> mms_transfer_dbus_client) list option"
  td_watched :: "string list"
  td_last_update_cookie :: u32
  td_flags :: u32
  td_bytes_sent :: u32
  td_bytes_to_send :: u32
  td_bytes_received :: u32
  td_bytes_to_receive :: u32
  td_signals :: "(string \<times> transfer_signal) list"

definition MMS_TRANSFER_DBUS_INTERFACE_VERSION :: u32 where
  "MMS_TRANSFER_DBUS_INTERFACE_VERSION = 1"

definition transfer_path :: "string \<Rightarrow> string \<Rightarrow> string" where
  "transfer_path rec_id type = ''/msg/'' @ rec_id @ ''/'' @ type"

text \<open>\<open>exported\<close> says whether the object can be exported at its path.\<close>

definition mms_transfer_dbus_new :: "bool \<Rightarrow> string \<Rightarrow> string \<Rightarrow> mms_transfer_dbus" where
  "mms_transfer_dbus_new exported rec_id type =
     \<lparr>td_id = rec_id, td_type = type, td_path = transfer_path rec_id type, td_exported = exported, td_clients = None,
      td_watched = [], td_last_update_cookie = 0, td_flags = 0, td_bytes_sent = 0, td_bytes_to_send = 0,
      td_bytes_received = 0, td_bytes_to_receive = 0, td_signals = []\<rparr>"

definition transfer_clients :: "mms_transfer_dbus \<Rightarrow> (string \<times> mms_transfer_dbus_client) list" where
  "transfer_clients self = (case td_clients self of None \<Rightarrow> [] | Some cs \<Rightarrow> cs)"

section \<open>Signals\<close>

definition mms_transfer_dbus_emit_signal :: "u32 \<Rightarrow> transfer_signal \<Rightarrow> mms_transfer_dbus \<Rightarrow> mms_transfer_dbus" where
  "mms_transfer_dbus_emit_signal flags signal self =
     self\<lparr>td_signals := td_signals self @
       map (\<lambda>(dest, client). (dest, signal)) (filter (\<lambda>(dest, client). tc_flags client AND flags \<noteq> 0) (transfer_clients self))\<rparr>"

definition mms_transfer_dbus_send_progress :: "u32 \<Rightarrow> u32 \<Rightarrow> mms_transfer_dbus \<Rightarrow> mms_transfer_dbus" where
  "mms_transfer_dbus_send_progress sent whole self =
     (if td_bytes_sent self \<noteq> sent \<or> td_bytes_to_send self \<noteq> whole
      then let self = self\<lparr>td_bytes_sent := sent, td_bytes_to_send := whole\<rparr>
           in if td_flags self AND SEND_UPDATES_ENABLED \<noteq> 0
              then mms_transfer_dbus_emit_signal SEND_UPDATES_ENABLED (Send_Progress_Changed sent whole) self
              else self
      else self)"

definition mms_transfer_dbus_receive_progress :: "u32 \<Rightarrow> u32 \<Rightarrow> mms_transfer_dbus \<Rightarrow> mms_transfer_dbus" where
  "mms_transfer_dbus_receive_progress received whole self =
     (if td_bytes_received self \<noteq> received \<or> td_bytes_to_receive self \<noteq> whole
      then let self = self\<lparr>td_bytes_received := received, td_bytes_to_receive := whole\<rparr>
           in if td_flags self AND RECEIVE_UPDATES_ENABLED \<noteq> 0
              then mms_transfer_dbus_emit_signal RECEIVE_UPDATES_ENABLED (Receive_Progress_Changed received whole) self
              else self
      else self)"

definition mms_transfer_dbus_finished :: "mms_transfer_dbus \<Rightarrow> mms_transfer_dbus" where
  "mms_transfer_dbus_finished self =
     (if td_flags self AND FLAG_FINISHED \<noteq> 0
      then mms_transfer_dbus_emit_signal FLAG_FINISHED Finished_Signal self else self)"

section \<open>Clients\<close>

text \<open>The loops that combine the flags of all entries of a table.\<close>

definition combined_flags :: "u32 list \<Rightarrow> u32" where
  "combined_flags fs = fold (\<lambda>f flags. flags OR f) fs 0"

text \<open>The destroy function of an entry of the table of clients stops watching the name.\<close>

definition mms_transfer_dbus_client_destroy :: "string \<Rightarrow> mms_transfer_dbus \<Rightarrow> mms_transfer_dbus" where
  "mms_transfer_dbus_client_destroy name self = self\<lparr>td_watched := remove1 name (td_watched self)\<rparr>"

definition mms_transfer_dbus_update_flags :: "mms_transfer_dbus \<Rightarrow> mms_transfer_dbus" where
  "mms_transfer_dbus_update_flags self =
     (let flags = combined_flags (map (tc_flags \<circ> snd) (transfer_clients self))
      in if td_flags self \<noteq> flags then self\<lparr>td_flags := flags\<rparr> else self)"

definition mms_transfer_dbus_client_vanished :: "string \<Rightarrow> mms_transfer_dbus \<Rightarrow> mms_transfer_dbus" where
  "mms_transfer_dbus_client_vanished name self =
     (let self = (case td_clients self of
            None \<Rightarrow> self
          | Some clients \<Rightarrow>
              (case map_of clients name of
                 None \<Rightarrow> self
               | Some _ \<Rightarrow> mms_transfer_dbus_client_destroy name
                   (self\<lparr>td_clients := Some (AList.delete name clients)\<rparr>)))
      in mms_transfer_dbus_update_flags self)"

text \<open>The end of the object: all clients are destroyed.\<close>

definition mms_transfer_dbus_finalize :: "mms_transfer_dbus \<Rightarrow> mms_transfer_dbus" where
  "mms_transfer_dbus_finalize self =
     (fold mms_transfer_dbus_client_destroy (map fst (transfer_clients self)) self)
       \<lparr>td_clients := None, td_exported := False\<rparr>"

definition mms_transfer_dbus_access_allowed ::
    "'p option \<Rightarrow> ('p \<Rightarrow> mms_transfer_action \<Rightarrow> bool) \<Rightarrow> mms_transfer_action \<Rightarrow> bool" where
  "mms_transfer_dbus_access_allowed peer check action = (case peer of None \<Rightarrow> False | Some p \<Rightarrow> check p action)"

section \<open>Calls\<close>

datatype transfer_reply =
    Not_Allowed | Reply_All u32 u32 u32 u32 u32 | Reply_Cookie u32 | Reply_Done | Reply_Version u32
  | Reply_Progress u32 u32

definition mms_transfer_dbus_handle_get_all ::
    "('p \<Rightarrow> mms_transfer_action \<Rightarrow> bool) \<Rightarrow> 'p option \<Rightarrow> mms_transfer_dbus \<Rightarrow> transfer_reply" where
  "mms_transfer_dbus_handle_get_all check peer self =
     (if mms_transfer_dbus_access_allowed peer check ACTION_GET_ALL
      then Reply_All MMS_TRANSFER_DBUS_INTERFACE_VERSION (td_bytes_sent self) (td_bytes_to_send self)
             (td_bytes_received self) (td_bytes_to_receive self)
      else Not_Allowed)"

definition mms_transfer_dbus_handle_enable_updates ::
    "('p \<Rightarrow> mms_transfer_action \<Rightarrow> bool) \<Rightarrow> string \<Rightarrow> 'p option \<Rightarrow> u32 \<Rightarrow> mms_transfer_dbus
       \<Rightarrow> transfer_reply \<times> mms_transfer_dbus" where
  "mms_transfer_dbus_handle_enable_updates check sender peer flags self =
     (if \<not> mms_transfer_dbus_access_allowed peer check ACTION_ENABLE_UPDATES then (Not_Allowed, self)
      else if flags \<noteq> 0 then
        let flags = flags OR FLAG_FINISHED;
            cookie = td_last_update_cookie self + 1;
            self = self\<lparr>td_last_update_cookie := cookie\<rparr>;
            clients = transfer_clients self;
            (client, self) = (case map_of clients sender of
                Some client \<Rightarrow> (client, self)
              | None \<Rightarrow> (\<lparr>tc_requests = [], tc_flags = 0\<rparr>, self\<lparr>td_watched := td_watched self @ [sender]\<rparr>));
            client = client\<lparr>tc_flags := tc_flags client OR flags,
                            tc_requests := AList.update cookie flags (tc_requests client)\<rparr>;
            self = self\<lparr>td_clients := Some (AList.update sender client clients)\<rparr>;
            self = (if td_flags self AND flags \<noteq> flags then self\<lparr>td_flags := td_flags self OR flags\<rparr> else self)
        in (Reply_Cookie cookie, self)
      else (Reply_Cookie 0, self))"

definition mms_transfer_dbus_handle_disable_updates ::
    "('p \<Rightarrow> mms_transfer_action \<Rightarrow> bool) \<Rightarrow> string \<Rightarrow> 'p option \<Rightarrow> u32 \<Rightarrow> mms_transfer_dbus
       \<Rightarrow> transfer_reply \<times> mms_transfer_dbus" where
  "mms_transfer_dbus_handle_disable_updates check sender peer cookie self =
     (if mms_transfer_dbus_access_allowed peer check ACTION_DISABLE_UPDATES then
        (case map_of (transfer_clients self) sender of
           None \<Rightarrow> (Reply_Done, self)
         | Some client \<Rightarrow>
             let requests = AList.delete cookie (tc_requests client);
                 client = client\<lparr>tc_requests := requests, tc_flags := combined_flags (map snd requests)\<rparr>;
                 self = self\<lparr>td_clients := Some (AList.update sender client (transfer_clients self))\<rparr>
             in (Reply_Done, mms_transfer_dbus_update_flags self))
      else (Not_Allowed, self))"

definition mms_transfer_dbus_handle_get_interface_version ::
    "('p \<Rightarrow> mms_transfer_action \<Rightarrow> bool) \<Rightarrow> 'p option \<Rightarrow> transfer_reply" where
  "mms_transfer_dbus_handle_get_interface_version check peer =
     (if mms_transfer_dbus_access_allowed peer check ACTION_GET_INTERFACE_VERSION
      then Reply_Version MMS_TRANSFER_DBUS_INTERFACE_VERSION else Not_Allowed)"

definition mms_transfer_dbus_handle_get_send_progress ::
    "('p \<Rightarrow> mms_transfer_action \<Rightarrow> bool) \<Rightarrow> 'p option \<Rightarrow> mms_transfer_dbus \<Rightarrow> transfer_reply" where
  "mms_transfer_dbus_handle_get_send_progress check peer self =
     (if mms_transfer_dbus_access_allowed peer check ACTION_GET_SEND_PROGRESS
      then Reply_Progress (td_bytes_sent self) (td_bytes_to_send self) else Not_Allowed)"

definition mms_transfer_dbus_handle_get_receive_progress ::
    "('p \<Rightarrow> mms_transfer_action \<Rightarrow> bool) \<Rightarrow> 'p option \<Rightarrow> mms_transfer_dbus \<Rightarrow> transfer_reply" where
  "mms_transfer_dbus_handle_get_receive_progress check peer self =
     (if mms_transfer_dbus_access_allowed peer check ACTION_GET_RECEIVE_PROGRESS
      then Reply_Progress (td_bytes_received self) (td_bytes_to_receive self) else Not_Allowed)"

section \<open>The life of a transfer\<close>

datatype 'p transfer_call =
    Send_Progress u32 u32 | Receive_Progress u32 u32 | Tell_Finished
  | Get_All "'p option" | Enable_Updates string "'p option" u32 | Disable_Updates string "'p option" u32
  | Get_Interface_Version "'p option" | Get_Send_Progress "'p option" | Get_Receive_Progress "'p option"
  | Client_Vanished string

fun transfer_step ::
    "('p \<Rightarrow> mms_transfer_action \<Rightarrow> bool) \<Rightarrow> 'p transfer_call \<Rightarrow> mms_transfer_dbus
       \<Rightarrow> transfer_reply option \<times> mms_transfer_dbus" where
  "transfer_step check (Send_Progress sent whole) self = (None, mms_transfer_dbus_send_progress sent whole self)"
| "transfer_step check (Receive_Progress got whole) self = (None, mms_transfer_dbus_receive_progress got whole self)"
| "transfer_step check Tell_Finished self = (None, mms_transfer_dbus_finished self)"
| "transfer_step check (Get_All peer) self = (Some (mms_transfer_dbus_handle_get_all check peer self), self)"
| "transfer_step check (Enable_Updates sender peer flags) self =
     map_prod Some (\<lambda>t. t) (mms_transfer_dbus_handle_enable_updates check sender peer flags self)"
| "transfer_step check (Disable_Updates sender peer cookie) self =
     map_prod Some (\<lambda>t. t) (mms_transfer_dbus_handle_disable_updates check sender peer cookie self)"
| "transfer_step check (Get_Interface_Version peer) self =
     (Some (mms_transfer_dbus_handle_get_interface_version check peer), self)"
| "transfer_step check (Get_Send_Progress peer) self =
     (Some (mms_transfer_dbus_handle_get_send_progress check peer self), self)"
| "transfer_step check (Get_Receive_Progress peer) self =
     (Some (mms_transfer_dbus_handle_get_receive_progress check peer self), self)"
| "transfer_step check (Client_Vanished name) self =
     (None, if name \<in> set (td_watched self) then mms_transfer_dbus_client_vanished name self else self)"

definition transfer_run ::
    "('p \<Rightarrow> mms_transfer_action \<Rightarrow> bool) \<Rightarrow> 'p transfer_call list \<Rightarrow> mms_transfer_dbus \<Rightarrow> mms_transfer_dbus" where
  "transfer_run check calls self = fold (\<lambda>call t. snd (transfer_step check call t)) calls self"

section \<open>What a transfer promises\<close>

text \<open>
  The abstract view of a transfer is the set of its subscriptions, each with the client that holds it, its cookie and
  its flags, and the numbers of bytes.
\<close>

type_synonym subscription = "string \<times> u32 \<times> u32"

record transfer_board =
  tb_subscriptions :: "subscription set"
  tb_last_cookie :: u32
  tb_sent :: "u32 \<times> u32"
  tb_received :: "u32 \<times> u32"

definition client_subscriptions :: "(string \<times> mms_transfer_dbus_client) list \<Rightarrow> subscription set" where
  "client_subscriptions cs = (\<Union>(name, client) \<in> set cs. Pair name ` set (tc_requests client))"

definition subs_of :: "mms_transfer_dbus \<Rightarrow> transfer_board" where
  "subs_of t =
     \<lparr>tb_subscriptions = client_subscriptions (transfer_clients t),
      tb_last_cookie = td_last_update_cookie t,
      tb_sent = (td_bytes_sent t, td_bytes_to_send t),
      tb_received = (td_bytes_received t, td_bytes_to_receive t)\<rparr>"

definition subscribers :: "u32 \<Rightarrow> transfer_board \<Rightarrow> string set" where
  "subscribers flag b = fst ` Set.filter (\<lambda>(name, cookie, flags). flags AND flag \<noteq> 0) (tb_subscriptions b)"

fun subs_step :: "('p \<Rightarrow> mms_transfer_action \<Rightarrow> bool) \<Rightarrow> 'p transfer_call \<Rightarrow> transfer_board \<Rightarrow> transfer_board" where
  "subs_step check (Send_Progress sent whole) b = b\<lparr>tb_sent := (sent, whole)\<rparr>"
| "subs_step check (Receive_Progress got whole) b = b\<lparr>tb_received := (got, whole)\<rparr>"
| "subs_step check (Enable_Updates sender peer flags) b =
     (if mms_transfer_dbus_access_allowed peer check ACTION_ENABLE_UPDATES \<and> flags \<noteq> 0
      then b\<lparr>tb_subscriptions := insert (sender, tb_last_cookie b + 1, flags OR FLAG_FINISHED) (tb_subscriptions b),
             tb_last_cookie := tb_last_cookie b + 1\<rparr>
      else b)"
| "subs_step check (Disable_Updates sender peer cookie) b =
     (if mms_transfer_dbus_access_allowed peer check ACTION_DISABLE_UPDATES
      then b\<lparr>tb_subscriptions := Set.filter (\<lambda>(name, c, _). \<not> (name = sender \<and> c = cookie)) (tb_subscriptions b)\<rparr>
      else b)"
| "subs_step check (Client_Vanished name) b =
     b\<lparr>tb_subscriptions := Set.filter (\<lambda>(n, _). n \<noteq> name) (tb_subscriptions b)\<rparr>"
| "subs_step check _ b = b"

fun subs_told :: "'p transfer_call \<Rightarrow> transfer_board \<Rightarrow> (string \<times> transfer_signal) set" where
  "subs_told (Send_Progress sent whole) b =
     (if (sent, whole) \<noteq> tb_sent b
      then (\<lambda>n. (n, Send_Progress_Changed sent whole)) ` subscribers SEND_UPDATES_ENABLED b else {})"
| "subs_told (Receive_Progress got whole) b =
     (if (got, whole) \<noteq> tb_received b
      then (\<lambda>n. (n, Receive_Progress_Changed got whole)) ` subscribers RECEIVE_UPDATES_ENABLED b else {})"
| "subs_told Tell_Finished b = (\<lambda>n. (n, Finished_Signal)) ` fst ` tb_subscriptions b"
| "subs_told _ b = {}"

fun subs_reply :: "('p \<Rightarrow> mms_transfer_action \<Rightarrow> bool) \<Rightarrow> 'p transfer_call \<Rightarrow> transfer_board \<Rightarrow> transfer_reply option" where
  "subs_reply check (Get_All peer) b =
     Some (if mms_transfer_dbus_access_allowed peer check ACTION_GET_ALL
           then Reply_All 1 (fst (tb_sent b)) (snd (tb_sent b)) (fst (tb_received b)) (snd (tb_received b)) else Not_Allowed)"
| "subs_reply check (Enable_Updates sender peer flags) b =
     Some (if mms_transfer_dbus_access_allowed peer check ACTION_ENABLE_UPDATES
           then Reply_Cookie (if flags = 0 then 0 else tb_last_cookie b + 1) else Not_Allowed)"
| "subs_reply check (Disable_Updates sender peer cookie) b =
     Some (if mms_transfer_dbus_access_allowed peer check ACTION_DISABLE_UPDATES then Reply_Done else Not_Allowed)"
| "subs_reply check (Get_Interface_Version peer) b =
     Some (if mms_transfer_dbus_access_allowed peer check ACTION_GET_INTERFACE_VERSION then Reply_Version 1 else Not_Allowed)"
| "subs_reply check (Get_Send_Progress peer) b =
     Some (if mms_transfer_dbus_access_allowed peer check ACTION_GET_SEND_PROGRESS
           then Reply_Progress (fst (tb_sent b)) (snd (tb_sent b)) else Not_Allowed)"
| "subs_reply check (Get_Receive_Progress peer) b =
     Some (if mms_transfer_dbus_access_allowed peer check ACTION_GET_RECEIVE_PROGRESS
           then Reply_Progress (fst (tb_received b)) (snd (tb_received b)) else Not_Allowed)"
| "subs_reply check _ b = None"

section \<open>Tables\<close>

lemma bit_fold_or: "bit (fold (\<lambda>f flags. flags OR f) fs (x :: u32)) i \<longleftrightarrow> bit x i \<or> (\<exists>f \<in> set fs. bit f i)"
  by (induction fs arbitrary: x) (simp_all add: bit_or_iff disj_assoc)

lemma bit_combined_flags: "bit (combined_flags fs) i \<longleftrightarrow> (\<exists>f \<in> set fs. bit f i)"
  by (simp add: combined_flags_def bit_fold_or)

lemma combined_flags_append [simp]: "combined_flags (fs @ gs) = combined_flags fs OR combined_flags gs"
  by (rule bit_eqI) (auto simp: bit_combined_flags bit_or_iff)

lemma combined_flags_Nil [simp]: "combined_flags [] = 0"
  by (simp add: combined_flags_def)

lemma combined_flags_cong: "set fs = set gs \<Longrightarrow> combined_flags fs = combined_flags gs"
  by (rule bit_eqI) (simp add: bit_combined_flags)

lemma combined_flags_any: "combined_flags fs AND m \<noteq> 0 \<longleftrightarrow> (\<exists>f \<in> set fs. f AND m \<noteq> 0)"
  by (auto simp: bit_eq_iff bit_and_iff bit_combined_flags)

lemma or_flags_eq: "(if w AND f \<noteq> f then w OR f else w) = w OR (f :: u32)"
  by (auto simp: bit_eq_iff bit_and_iff bit_or_iff)

lemma set_alist_update:
  "distinct (map fst al) \<Longrightarrow> set (AList.update k v al) = insert (k, v) {(k', v') \<in> set al. k' \<noteq> k}"
  by (induction al) (auto intro: rev_image_eqI)

lemma set_alist_delete: "set (AList.delete k al) = {(k', v') \<in> set al. k' \<noteq> k}"
  by (auto simp: AList.delete_eq)

section \<open>The invariant\<close>

text \<open>The flags of a client, and of the transfer, are those of the requests of the client, and of all clients.
  \<open>ks\<close> are the cookies that have been given out.\<close>

definition transfer_client_ok :: "u32 set \<Rightarrow> mms_transfer_dbus_client \<Rightarrow> bool" where
  "transfer_client_ok ks c \<longleftrightarrow>
     distinct (map fst (tc_requests c)) \<and> fst ` set (tc_requests c) \<subseteq> ks
   \<and> tc_flags c = combined_flags (map snd (tc_requests c))
   \<and> (\<forall>f \<in> snd ` set (tc_requests c). f AND FLAG_FINISHED \<noteq> 0)"

definition transfer_ok :: "u32 set \<Rightarrow> mms_transfer_dbus \<Rightarrow> bool" where
  "transfer_ok ks t \<longleftrightarrow>
     distinct (map fst (transfer_clients t))
   \<and> distinct (td_watched t) \<and> set (td_watched t) = fst ` set (transfer_clients t)
   \<and> (\<forall>c \<in> snd ` set (transfer_clients t). transfer_client_ok ks c)
   \<and> td_flags t = combined_flags (map (tc_flags \<circ> snd) (transfer_clients t))"

lemma transfer_ok_cong:
  "transfer_clients t' = transfer_clients t \<Longrightarrow> td_watched t' = td_watched t \<Longrightarrow> td_flags t' = td_flags t
    \<Longrightarrow> transfer_ok ks t' = transfer_ok ks t"
  by (simp add: transfer_ok_def)

lemma new_transfer_ok [simp]: "transfer_ok ks (mms_transfer_dbus_new e i ty)"
  by (simp add: transfer_ok_def mms_transfer_dbus_new_def transfer_clients_def)

lemma transfer_ok_client:
  "transfer_ok ks t \<Longrightarrow> map_of (transfer_clients t) n = Some c \<Longrightarrow> transfer_client_ok ks c"
  by (force simp: transfer_ok_def dest: map_of_SomeD)

lemma client_ok_mono: "transfer_client_ok ks c \<Longrightarrow> ks \<subseteq> ks' \<Longrightarrow> transfer_client_ok ks' c"
  by (auto simp: transfer_client_ok_def)

lemma transfer_ok_mono: "transfer_ok ks t \<Longrightarrow> ks \<subseteq> ks' \<Longrightarrow> transfer_ok ks' t"
  unfolding transfer_ok_def using client_ok_mono by blast

text \<open>Replacing the entry of one client.\<close>

lemma update_client_ok:
  assumes ok: "transfer_ok ks t" and c: "transfer_client_ok ks' c" "ks \<subseteq> ks'"
    and cs: "transfer_clients t' = AList.update n c (transfer_clients t)"
    and w: "distinct (td_watched t')" "set (td_watched t') = insert n (set (td_watched t))"
    and f: "td_flags t' = combined_flags (map (tc_flags \<circ> snd) (transfer_clients t'))"
  shows "transfer_ok ks' t'"
  using assms client_ok_mono[OF _ c(2)]
  by (auto simp: transfer_ok_def distinct_update dom_update set_alist_update)

lemma in_client_subscriptions [simp]:
  "(n, k, f) \<in> client_subscriptions cs \<longleftrightarrow> (\<exists>c. (n, c) \<in> set cs \<and> (k, f) \<in> set (tc_requests c))"
  by (force simp: client_subscriptions_def)

lemma client_subscriptions_update:
  "distinct (map fst cs) \<Longrightarrow>
     client_subscriptions (AList.update n c cs) =
       Pair n ` set (tc_requests c) \<union> Set.filter (\<lambda>(m, _). m \<noteq> n) (client_subscriptions cs)"
  by (fastforce simp: client_subscriptions_def set_alist_update)

lemma client_subscriptions_delete:
  "client_subscriptions (AList.delete n cs) = Set.filter (\<lambda>(m, _). m \<noteq> n) (client_subscriptions cs)"
  by (fastforce simp: client_subscriptions_def set_alist_delete)

lemma client_subscriptions_absent:
  "n \<notin> fst ` set cs \<Longrightarrow> Set.filter (\<lambda>(m, _). m \<noteq> n) (client_subscriptions cs) = client_subscriptions cs"
  by (force simp: client_subscriptions_def)

lemma client_subscriptions_split:
  assumes "distinct (map fst cs)" "map_of cs n = Some c"
  shows "client_subscriptions cs =
       Pair n ` set (tc_requests c) \<union> Set.filter (\<lambda>(m, _). m \<noteq> n) (client_subscriptions cs)"
proof -
  have "(n, c') \<in> set cs \<longleftrightarrow> c' = c" for c'
    unfolding map_of_eq_Some_iff[OF assms(1), symmetric] using assms(2) by auto
  then have "x \<in> client_subscriptions cs \<longleftrightarrow>
      x \<in> Pair n ` set (tc_requests c) \<union> Set.filter (\<lambda>(m, _). m \<noteq> n) (client_subscriptions cs)" for x
    by (cases x) auto
  then show ?thesis by blast
qed

section \<open>Who is told\<close>

lemma in_subscribers:
  "n \<in> subscribers m (subs_of t) \<longleftrightarrow>
     (\<exists>c k f. (n, c) \<in> set (transfer_clients t) \<and> (k, f) \<in> set (tc_requests c) \<and> f AND m \<noteq> 0)"
  by (force simp: subscribers_def subs_of_def image_iff)

lemma subscribers_are_clients:
  assumes "transfer_ok ks t"
  shows "n \<in> subscribers m (subs_of t) \<longleftrightarrow>
           (\<exists>c. (n, c) \<in> set (transfer_clients t) \<and> tc_flags c AND m \<noteq> 0)"
proof -
  have "tc_flags c AND m \<noteq> 0 \<longleftrightarrow> (\<exists>k f. (k, f) \<in> set (tc_requests c) \<and> f AND m \<noteq> 0)"
    if "(n, c) \<in> set (transfer_clients t)" for c
  proof -
    have "tc_flags c = combined_flags (map snd (tc_requests c))"
      using assms that by (auto simp: transfer_ok_def transfer_client_ok_def)
    then show ?thesis by (simp add: combined_flags_any Bex_def)
  qed
  then show ?thesis unfolding in_subscribers by blast
qed

lemma flags_are_subscribers:
  assumes "transfer_ok ks t"
  shows "td_flags t AND m \<noteq> 0 \<longleftrightarrow> subscribers m (subs_of t) \<noteq> {}"
proof -
  have "td_flags t AND m \<noteq> 0 \<longleftrightarrow> (\<exists>x \<in> set (transfer_clients t). tc_flags (snd x) AND m \<noteq> 0)"
    using assms by (simp add: transfer_ok_def combined_flags_any)
  also have "\<dots> \<longleftrightarrow> (\<exists>n. n \<in> subscribers m (subs_of t))"
    unfolding subscribers_are_clients[OF assms] by force
  finally show ?thesis by blast
qed

lemma subscribers_finished:
  assumes "transfer_ok ks t"
  shows "subscribers FLAG_FINISHED (subs_of t) = fst ` tb_subscriptions (subs_of t)"
proof -
  have "f AND FLAG_FINISHED \<noteq> 0" if "(n, c) \<in> set (transfer_clients t)" "(k, f) \<in> set (tc_requests c)" for n c k f
  proof -
    have "transfer_client_ok ks c" using assms that(1) by (force simp: transfer_ok_def)
    then show ?thesis using that(2) by (force simp: transfer_client_ok_def)
  qed
  moreover have "n \<in> fst ` tb_subscriptions (subs_of t) \<longleftrightarrow>
      (\<exists>c k f. (n, c) \<in> set (transfer_clients t) \<and> (k, f) \<in> set (tc_requests c))" for n
    by (simp add: subs_of_def image_iff Bex_def) blast
  ultimately have "n \<in> subscribers FLAG_FINISHED (subs_of t) \<longleftrightarrow> n \<in> fst ` tb_subscriptions (subs_of t)" for n
    unfolding in_subscribers by blast
  then show ?thesis by blast
qed

lemma emitted:
  assumes "transfer_ok ks t"
  shows "\<exists>told. td_signals (mms_transfer_dbus_emit_signal m sig t) = td_signals t @ told \<and> distinct told
           \<and> set told = (\<lambda>n. (n, sig)) ` subscribers m (subs_of t)"
proof -
  let ?l = "filter (\<lambda>(dest, c). tc_flags c AND m \<noteq> 0) (transfer_clients t)"
  let ?told = "map (\<lambda>(dest, c). (dest, sig)) ?l"
  have "distinct (map fst ?l)"
    using assms by (simp add: transfer_ok_def distinct_map_filter)
  then have "distinct ?told"
    by (auto simp: distinct_map inj_on_def split: prod.splits)
  moreover have "x \<in> set ?told \<longleftrightarrow> x \<in> (\<lambda>n. (n, sig)) ` subscribers m (subs_of t)" for x
    by (cases x) (force simp: image_iff subscribers_are_clients[OF assms])
  then have "set ?told = (\<lambda>n. (n, sig)) ` subscribers m (subs_of t)" by (rule set_eqI)
  ultimately show ?thesis
    unfolding mms_transfer_dbus_emit_signal_def by (intro exI[of _ ?told]) simp
qed

section \<open>Every call keeps the invariant and follows the abstract view\<close>

lemma emit_fields [simp]:
  "transfer_clients (mms_transfer_dbus_emit_signal m sig t) = transfer_clients t"
  "td_watched (mms_transfer_dbus_emit_signal m sig t) = td_watched t"
  "td_flags (mms_transfer_dbus_emit_signal m sig t) = td_flags t"
  "subs_of (mms_transfer_dbus_emit_signal m sig t) = subs_of t"
  by (simp_all add: mms_transfer_dbus_emit_signal_def transfer_clients_def subs_of_def)

lemma update_bytes [simp]:
  "transfer_clients (t\<lparr>td_bytes_sent := a, td_bytes_to_send := b\<rparr>) = transfer_clients t"
  "transfer_clients (t\<lparr>td_bytes_received := a, td_bytes_to_receive := b\<rparr>) = transfer_clients t"
  by (simp_all add: transfer_clients_def)

definition follows_subs ::
    "u32 set \<Rightarrow> ('p \<Rightarrow> mms_transfer_action \<Rightarrow> bool) \<Rightarrow> 'p transfer_call \<Rightarrow> mms_transfer_dbus \<Rightarrow> mms_transfer_dbus \<Rightarrow> bool" where
  "follows_subs ks check call t t' \<longleftrightarrow>
     transfer_ok ks t' \<and> subs_of t' = subs_step check call (subs_of t)
   \<and> (\<exists>told. td_signals t' = td_signals t @ told \<and> distinct told \<and> set told = subs_told call (subs_of t))"

lemma gated_signal:
  assumes "transfer_ok ks t"
  shows "\<exists>told. td_signals (if td_flags t AND m \<noteq> 0 then mms_transfer_dbus_emit_signal m sig t else t) = td_signals t @ told
           \<and> distinct told \<and> set told = (\<lambda>n. (n, sig)) ` subscribers m (subs_of t)"
proof (cases "td_flags t AND m \<noteq> 0")
  case True
  then show ?thesis using emitted[OF assms] by simp
next
  case False
  then have "subscribers m (subs_of t) = {}" using flags_are_subscribers[OF assms] by blast
  with False show ?thesis by simp
qed

lemma subscribers_update [simp]:
  "subscribers m (b\<lparr>tb_sent := x\<rparr>) = subscribers m b" "subscribers m (b\<lparr>tb_received := x\<rparr>) = subscribers m b"
  by (simp_all add: subscribers_def)

lemma progress_board [simp]:
  "subs_of (t\<lparr>td_bytes_sent := a, td_bytes_to_send := b\<rparr>) = (subs_of t)\<lparr>tb_sent := (a, b)\<rparr>"
  "subs_of (t\<lparr>td_bytes_received := a, td_bytes_to_receive := b\<rparr>) = (subs_of t)\<lparr>tb_received := (a, b)\<rparr>"
  by (simp_all add: subs_of_def)

lemma send_progress_follows:
  assumes ok: "transfer_ok ks t"
  shows "follows_subs ks check (Send_Progress sent whole) t (mms_transfer_dbus_send_progress sent whole t)"
proof (cases "(sent, whole) = tb_sent (subs_of t)")
  case True
  then show ?thesis
    using ok by (simp add: follows_subs_def mms_transfer_dbus_send_progress_def subs_of_def)
next
  case False
  let ?t = "t\<lparr>td_bytes_sent := sent, td_bytes_to_send := whole\<rparr>"
  have t': "transfer_ok ks ?t" using ok by (simp add: transfer_ok_def)
  have "mms_transfer_dbus_send_progress sent whole t =
      (if td_flags ?t AND SEND_UPDATES_ENABLED \<noteq> 0
       then mms_transfer_dbus_emit_signal SEND_UPDATES_ENABLED (Send_Progress_Changed sent whole) ?t else ?t)"
    using False by (auto simp: mms_transfer_dbus_send_progress_def subs_of_def Let_def)
  with gated_signal[OF t', of SEND_UPDATES_ENABLED "Send_Progress_Changed sent whole"] t' False show ?thesis
    by (auto simp: follows_subs_def transfer_ok_def)
qed

lemma receive_progress_follows:
  assumes ok: "transfer_ok ks t"
  shows "follows_subs ks check (Receive_Progress got whole) t (mms_transfer_dbus_receive_progress got whole t)"
proof (cases "(got, whole) = tb_received (subs_of t)")
  case True
  then show ?thesis
    using ok by (simp add: follows_subs_def mms_transfer_dbus_receive_progress_def subs_of_def)
next
  case False
  let ?t = "t\<lparr>td_bytes_received := got, td_bytes_to_receive := whole\<rparr>"
  have t': "transfer_ok ks ?t" using ok by (simp add: transfer_ok_def)
  have "mms_transfer_dbus_receive_progress got whole t =
      (if td_flags ?t AND RECEIVE_UPDATES_ENABLED \<noteq> 0
       then mms_transfer_dbus_emit_signal RECEIVE_UPDATES_ENABLED (Receive_Progress_Changed got whole) ?t else ?t)"
    using False by (auto simp: mms_transfer_dbus_receive_progress_def subs_of_def Let_def)
  with gated_signal[OF t', of RECEIVE_UPDATES_ENABLED "Receive_Progress_Changed got whole"] t' False show ?thesis
    by (auto simp: follows_subs_def transfer_ok_def)
qed

lemma finished_follows:
  assumes ok: "transfer_ok ks t"
  shows "follows_subs ks check Tell_Finished t (mms_transfer_dbus_finished t)"
  using gated_signal[OF ok, of FLAG_FINISHED Finished_Signal] ok
  by (auto simp: follows_subs_def transfer_ok_def mms_transfer_dbus_finished_def subscribers_finished[OF ok, symmetric])

lemma update_flags_eq:
  "mms_transfer_dbus_update_flags t =
     t\<lparr>td_flags := combined_flags (map (tc_flags \<circ> snd) (transfer_clients t))\<rparr>"
  by (simp add: mms_transfer_dbus_update_flags_def Let_def)

lemma update_flags_fields [simp]:
  "transfer_clients (mms_transfer_dbus_update_flags t) = transfer_clients t"
  "td_watched (mms_transfer_dbus_update_flags t) = td_watched t"
  "td_signals (mms_transfer_dbus_update_flags t) = td_signals t"
  "subs_of (mms_transfer_dbus_update_flags t) = subs_of t"
  by (simp_all add: update_flags_eq transfer_clients_def subs_of_def)

lemma silent_follows:
  "transfer_ok ks t' \<Longrightarrow> subs_of t' = subs_step check call (subs_of t) \<Longrightarrow> td_signals t' = td_signals t
    \<Longrightarrow> subs_told call (subs_of t) = {} \<Longrightarrow> follows_subs ks check call t t'"
  by (simp add: follows_subs_def)

text \<open>A new request of a client.\<close>

definition with_request :: "u32 \<Rightarrow> u32 \<Rightarrow> mms_transfer_dbus_client \<Rightarrow> mms_transfer_dbus_client" where
  "with_request cookie flags c =
     c\<lparr>tc_flags := tc_flags c OR flags, tc_requests := AList.update cookie flags (tc_requests c)\<rparr>"

definition no_requests :: mms_transfer_dbus_client where
  "no_requests = \<lparr>tc_requests = [], tc_flags = 0\<rparr>"

lemma enable_updates_eq:
  fixes check :: "'p \<Rightarrow> mms_transfer_action \<Rightarrow> bool"
  assumes "mms_transfer_dbus_access_allowed peer check ACTION_ENABLE_UPDATES" "flags \<noteq> 0"
  shows "mms_transfer_dbus_handle_enable_updates check sender peer flags t =
    (Reply_Cookie (td_last_update_cookie t + 1),
     t\<lparr>td_last_update_cookie := td_last_update_cookie t + 1,
       td_watched := td_watched t @ (if map_of (transfer_clients t) sender = None then [sender] else []),
       td_clients := Some (AList.update sender
         (with_request (td_last_update_cookie t + 1) (flags OR FLAG_FINISHED)
           (case map_of (transfer_clients t) sender of None \<Rightarrow> no_requests | Some c \<Rightarrow> c)) (transfer_clients t)),
       td_flags := td_flags t OR (flags OR FLAG_FINISHED)\<rparr>)"
proof -
  have "transfer_clients (t\<lparr>td_last_update_cookie := x\<rparr>) = transfer_clients t" for x
    by (simp add: transfer_clients_def)
  moreover have "td_flags t = td_flags t OR x" if "td_flags t AND x = x" for x
    using or_flags_eq[of "td_flags t" x] that by simp
  ultimately show ?thesis
    using assms
    by (auto simp: mms_transfer_dbus_handle_enable_updates_def with_request_def no_requests_def Let_def
        split: option.splits)
qed

lemma with_request_ok:
  assumes c: "transfer_client_ok ks c" and k: "cookie \<notin> ks"
  shows "transfer_client_ok (insert cookie ks) (with_request cookie (f OR FLAG_FINISHED) c)"
proof -
  let ?f = "f OR FLAG_FINISHED"
  have d: "distinct (map fst (tc_requests c))" and fresh: "cookie \<notin> fst ` set (tc_requests c)"
    using c k by (auto simp: transfer_client_ok_def)
  have "tc_flags c OR ?f = combined_flags (map snd (AList.update cookie ?f (tc_requests c)))"
  proof (rule bit_eqI)
    fix i
    have "{(k', v') \<in> set (tc_requests c). k' \<noteq> cookie} = set (tc_requests c)" using fresh by force
    then show "bit (tc_flags c OR ?f) i = bit (combined_flags (map snd (AList.update cookie ?f (tc_requests c)))) i"
      using c by (auto simp: transfer_client_ok_def bit_or_iff bit_combined_flags set_alist_update[OF d])
  qed
  moreover have "?f AND FLAG_FINISHED \<noteq> 0"
  proof -
    have "?f AND FLAG_FINISHED = FLAG_FINISHED" by (rule bit_eqI) (auto simp: bit_and_iff bit_or_iff)
    then show ?thesis by simp
  qed
  ultimately show ?thesis
    using c d by (auto simp: transfer_client_ok_def with_request_def distinct_update dom_update set_alist_update)
qed

lemma no_requests_ok [simp]: "transfer_client_ok ks no_requests"
  by (simp add: transfer_client_ok_def no_requests_def)

lemma combined_client_flags_update:
  assumes "distinct (map fst cs)" and "\<And>c. map_of cs n = Some c \<Longrightarrow> tc_flags c' = tc_flags c OR f"
    and "map_of cs n = None \<Longrightarrow> tc_flags c' = f"
  shows "combined_flags (map (tc_flags \<circ> snd) (AList.update n c' cs)) = combined_flags (map (tc_flags \<circ> snd) cs) OR f"
proof (cases "map_of cs n")
  case None
  then have "n \<notin> fst ` set cs" by (simp add: map_of_eq_None_iff)
  then have "{(m, c) \<in> set cs. m \<noteq> n} = set cs" by force
  with None show ?thesis
    by (intro bit_eqI) (auto simp: bit_combined_flags bit_or_iff set_alist_update[OF assms(1)] assms(3))
next
  case (Some c)
  then have c: "(n, d) \<in> set cs \<longleftrightarrow> d = c" for d
    unfolding map_of_eq_Some_iff[OF assms(1), symmetric] by auto
  have "set cs = insert (n, c) {(m, d) \<in> set cs. m \<noteq> n}" using c by auto
  then have "(\<exists>x \<in> set cs. P (snd x)) \<longleftrightarrow> P c \<or> (\<exists>x \<in> {(m, d) \<in> set cs. m \<noteq> n}. P (snd x))" for P
    by (rule ssubst) simp
  from this[of "\<lambda>c. bit (tc_flags c) i" for i] show ?thesis
    using Some by (intro bit_eqI) (auto simp: bit_combined_flags bit_or_iff set_alist_update[OF assms(1)] assms(2))
qed

lemma enable_updates_follows:
  fixes check :: "'p \<Rightarrow> mms_transfer_action \<Rightarrow> bool"
  assumes ok: "transfer_ok ks t" and fresh: "td_last_update_cookie t + 1 \<notin> ks"
  shows "follows_subs (insert (td_last_update_cookie t + 1) ks) check (Enable_Updates sender peer flags) t
           (snd (mms_transfer_dbus_handle_enable_updates check sender peer flags t))"
proof (cases "mms_transfer_dbus_access_allowed peer check ACTION_ENABLE_UPDATES \<and> flags \<noteq> 0")
  case False
  moreover from ok have "transfer_ok (insert (td_last_update_cookie t + 1) ks) t"
    by (rule transfer_ok_mono) blast
  ultimately show ?thesis
    by (intro silent_follows) (auto simp: mms_transfer_dbus_handle_enable_updates_def)
next
  case True
  let ?k = "td_last_update_cookie t + 1" and ?f = "flags OR FLAG_FINISHED"
  let ?old = "case map_of (transfer_clients t) sender of None \<Rightarrow> no_requests | Some c \<Rightarrow> c"
  let ?c = "with_request ?k ?f ?old"
  let ?t = "snd (mms_transfer_dbus_handle_enable_updates check sender peer flags t)"
  note eq = enable_updates_eq[OF conjunct1[OF True] conjunct2[OF True], of sender t]
  have d: "distinct (map fst (transfer_clients t))" using ok by (simp add: transfer_ok_def)
  have old: "transfer_client_ok ks ?old"
    using transfer_ok_client[OF ok] by (auto split: option.splits)
  have cs: "transfer_clients ?t = AList.update sender ?c (transfer_clients t)"
    by (simp add: eq transfer_clients_def)
  have "combined_flags (map (tc_flags \<circ> snd) (AList.update sender ?c (transfer_clients t))) = td_flags t OR ?f"
    using ok combined_client_flags_update[OF d, of sender ?c ?f]
    by (simp add: transfer_ok_def with_request_def no_requests_def)
  then have f: "td_flags ?t = combined_flags (map (tc_flags \<circ> snd) (transfer_clients ?t))"
    by (simp add: cs) (simp add: eq)
  have w: "td_watched ?t = td_watched t @ (if map_of (transfer_clients t) sender = None then [sender] else [])"
    by (simp add: eq)
  have "sender \<in> set (td_watched t) \<longleftrightarrow> map_of (transfer_clients t) sender \<noteq> None" "distinct (td_watched t)"
    using ok by (simp_all add: transfer_ok_def map_of_eq_None_iff)
  then have w': "distinct (td_watched ?t)" "set (td_watched ?t) = insert sender (set (td_watched t))"
    by (auto simp: w)
  have "transfer_ok (insert ?k ks) ?t"
    by (rule update_client_ok[OF ok with_request_ok[OF old fresh] subset_insertI cs w' f])
  moreover have "client_subscriptions (transfer_clients ?t) =
      insert (sender, ?k, ?f) (client_subscriptions (transfer_clients t))"
  proof -
    have "distinct (map fst (tc_requests ?old))" "?k \<notin> fst ` set (tc_requests ?old)"
      using old fresh by (auto simp: transfer_client_ok_def)
    then have "set (tc_requests ?c) = insert (?k, ?f) (set (tc_requests ?old))"
      by (auto simp: with_request_def set_alist_update intro: rev_image_eqI)
    moreover have "Pair sender ` set (tc_requests ?old) \<union> Set.filter (\<lambda>(m, _). m \<noteq> sender) (client_subscriptions (transfer_clients t))
        = client_subscriptions (transfer_clients t)"
    proof (cases "map_of (transfer_clients t) sender")
      case None
      then have "sender \<notin> fst ` set (transfer_clients t)" by (simp add: map_of_eq_None_iff)
      from client_subscriptions_absent[OF this] None show ?thesis by (simp add: no_requests_def)
    next
      case (Some c)
      from client_subscriptions_split[OF d Some] Some show ?thesis by simp
    qed
    ultimately show ?thesis by (simp add: cs client_subscriptions_update[OF d])
  qed
  moreover have "td_signals ?t = td_signals t" "td_last_update_cookie ?t = ?k" "td_bytes_sent ?t = td_bytes_sent t"
    "td_bytes_to_send ?t = td_bytes_to_send t" "td_bytes_received ?t = td_bytes_received t"
    "td_bytes_to_receive ?t = td_bytes_to_receive t"
    by (simp_all add: eq)
  ultimately show ?thesis
    using True by (intro silent_follows) (simp_all add: subs_of_def)
qed

lemma without_request_ok:
  "transfer_client_ok ks c \<Longrightarrow>
    transfer_client_ok ks (c\<lparr>tc_requests := AList.delete k (tc_requests c),
                             tc_flags := combined_flags (map snd (AList.delete k (tc_requests c)))\<rparr>)"
  by (auto simp: transfer_client_ok_def distinct_delete set_alist_delete)

lemma disable_updates_follows:
  fixes check :: "'p \<Rightarrow> mms_transfer_action \<Rightarrow> bool"
  assumes ok: "transfer_ok ks t"
  shows "follows_subs ks check (Disable_Updates sender peer cookie) t
           (snd (mms_transfer_dbus_handle_disable_updates check sender peer cookie t))"
proof (cases "mms_transfer_dbus_access_allowed peer check ACTION_DISABLE_UPDATES")
  case False
  then show ?thesis
    using ok by (intro silent_follows) (simp_all add: mms_transfer_dbus_handle_disable_updates_def)
next
  case True
  have d: "distinct (map fst (transfer_clients t))" using ok by (simp add: transfer_ok_def)
  let ?gone = "Set.filter (\<lambda>(name, c, _). \<not> (name = sender \<and> c = cookie))"
  show ?thesis
  proof (cases "map_of (transfer_clients t) sender")
    case None
    then have "sender \<notin> fst ` set (transfer_clients t)" by (simp add: map_of_eq_None_iff)
    then have "?gone (client_subscriptions (transfer_clients t)) = client_subscriptions (transfer_clients t)"
      by (auto simp: rev_image_eqI)
    with None True ok show ?thesis
      by (intro silent_follows) (simp_all add: mms_transfer_dbus_handle_disable_updates_def subs_of_def)
  next
    case (Some c)
    let ?c = "c\<lparr>tc_requests := AList.delete cookie (tc_requests c),
                tc_flags := combined_flags (map snd (AList.delete cookie (tc_requests c)))\<rparr>"
    let ?cs = "AList.update sender ?c (transfer_clients t)"
    let ?t = "snd (mms_transfer_dbus_handle_disable_updates check sender peer cookie t)"
    have eq: "?t = t\<lparr>td_clients := Some ?cs, td_flags := combined_flags (map (tc_flags \<circ> snd) ?cs)\<rparr>"
      using Some True
      by (simp add: mms_transfer_dbus_handle_disable_updates_def update_flags_eq transfer_clients_def Let_def)
    have cs: "transfer_clients ?t = ?cs" and f: "td_flags ?t = combined_flags (map (tc_flags \<circ> snd) (transfer_clients ?t))"
      by (simp_all add: eq transfer_clients_def)
    have "sender \<in> set (td_watched t)" "distinct (td_watched t)"
      using ok Some by (auto simp: transfer_ok_def dest!: map_of_SomeD intro: rev_image_eqI)
    then have w: "distinct (td_watched ?t)" "set (td_watched ?t) = insert sender (set (td_watched t))"
      by (auto simp: eq)
    have "transfer_ok ks ?t"
      by (rule update_client_ok[OF ok without_request_ok[OF transfer_ok_client[OF ok Some]] subset_refl cs w f])
    moreover have "client_subscriptions (transfer_clients ?t) = ?gone (client_subscriptions (transfer_clients t))"
    proof -
      let ?F = "Set.filter (\<lambda>(m, _). m \<noteq> sender) (client_subscriptions (transfer_clients t))"
      have "client_subscriptions (transfer_clients ?t) = Pair sender ` set (tc_requests ?c) \<union> ?F"
        by (simp only: cs client_subscriptions_update[OF d])
      also have "\<dots> = ?gone (Pair sender ` set (tc_requests c) \<union> ?F)"
        by (auto simp: set_alist_delete)
      finally show ?thesis by (simp only: client_subscriptions_split[OF d Some, symmetric])
    qed
    ultimately show ?thesis
      using True by (intro silent_follows) (simp_all add: subs_of_def eq)
  qed
qed

lemma client_vanished_eq:
  assumes ok: "transfer_ok ks t" and n: "n \<in> set (td_watched t)"
  shows "mms_transfer_dbus_client_vanished n t =
    t\<lparr>td_clients := Some (AList.delete n (transfer_clients t)), td_watched := remove1 n (td_watched t),
      td_flags := combined_flags (map (tc_flags \<circ> snd) (AList.delete n (transfer_clients t)))\<rparr>"
proof -
  obtain c where "map_of (transfer_clients t) n = Some c"
    using ok n by (cases "map_of (transfer_clients t) n") (auto simp: transfer_ok_def map_of_eq_None_iff)
  moreover from this obtain cs where "td_clients t = Some cs"
    by (cases "td_clients t") (auto simp: transfer_clients_def)
  ultimately show ?thesis
    by (simp add: mms_transfer_dbus_client_vanished_def mms_transfer_dbus_client_destroy_def update_flags_eq
        transfer_clients_def Let_def)
qed

lemma client_vanished_follows:
  fixes check :: "'p \<Rightarrow> mms_transfer_action \<Rightarrow> bool"
  assumes ok: "transfer_ok ks t"
  shows "follows_subs ks check (Client_Vanished n) t (snd (transfer_step check (Client_Vanished n) t))"
proof (cases "n \<in> set (td_watched t)")
  case False
  then have "n \<notin> fst ` set (transfer_clients t)" using ok by (simp add: transfer_ok_def)
  from client_subscriptions_absent[OF this] False ok show ?thesis
    by (intro silent_follows) (simp_all add: subs_of_def)
next
  case True
  note eq = client_vanished_eq[OF ok True]
  have cs: "transfer_clients (mms_transfer_dbus_client_vanished n t) = AList.delete n (transfer_clients t)"
    by (simp add: eq transfer_clients_def)
  have "set (td_watched t) - {n} = fst ` set (AList.delete n (transfer_clients t))"
    using ok by (force simp: transfer_ok_def set_alist_delete)
  then have "transfer_ok ks (mms_transfer_dbus_client_vanished n t)"
    using ok unfolding transfer_ok_def cs
    by (auto simp: eq distinct_delete set_alist_delete set_remove1_eq)
  then show ?thesis
    using True by (intro silent_follows) (simp_all add: subs_of_def eq client_subscriptions_delete transfer_clients_def)
qed

text \<open>The calls that are given a cookie.\<close>

fun grants :: "('p \<Rightarrow> mms_transfer_action \<Rightarrow> bool) \<Rightarrow> 'p transfer_call \<Rightarrow> bool" where
  "grants check (Enable_Updates _ peer flags) =
     (mms_transfer_dbus_access_allowed peer check ACTION_ENABLE_UPDATES \<and> flags \<noteq> 0)"
| "grants check _ = False"

definition cookies_up_to :: "nat \<Rightarrow> u32 set" where
  "cookies_up_to n = word_of_nat ` {1..n}"

lemma next_cookie_fresh: "n < 2 ^ 32 - 1 \<Longrightarrow> (word_of_nat n :: u32) + 1 \<notin> cookies_up_to n"
proof
  assume n: "n < 2 ^ 32 - 1" and "(word_of_nat n :: u32) + 1 \<in> cookies_up_to n"
  then obtain k where k: "k \<le> n" "word_of_nat (Suc n) = (word_of_nat k :: u32)"
    by (auto simp: cookies_up_to_def algebra_simps)
  then have "Suc n mod 2 ^ 32 = k mod 2 ^ 32"
    using unat_of_nat[of "Suc n", where ?'a = 32] unat_of_nat[of k, where ?'a = 32] by simp
  with k n show False by simp
qed

lemma silent_calls_follow:
  "transfer_ok ks t \<Longrightarrow> follows_subs ks check (Get_All peer) t t"
  "transfer_ok ks t \<Longrightarrow> follows_subs ks check (Get_Interface_Version peer) t t"
  "transfer_ok ks t \<Longrightarrow> follows_subs ks check (Get_Send_Progress peer) t t"
  "transfer_ok ks t \<Longrightarrow> follows_subs ks check (Get_Receive_Progress peer) t t"
  by (simp_all add: follows_subs_def)

lemmas other_calls_follow =
  send_progress_follows receive_progress_follows finished_follows disable_updates_follows
  client_vanished_follows[simplified] silent_calls_follow

lemma refused_enable:
  "\<not> grants check (Enable_Updates sender peer flags) \<Longrightarrow>
     snd (mms_transfer_dbus_handle_enable_updates check sender peer flags t) = t"
  by (auto simp: mms_transfer_dbus_handle_enable_updates_def)

lemma step_follows:
  assumes ok: "transfer_ok ks t" and fresh: "grants check call \<Longrightarrow> td_last_update_cookie t + 1 \<notin> ks"
  shows "follows_subs (if grants check call then insert (td_last_update_cookie t + 1) ks else ks) check call t
           (snd (transfer_step check call t))"
proof (cases call)
  case (Enable_Updates sender peer flags)
  show ?thesis
  proof (cases "grants check call")
    case True
    with enable_updates_follows[OF ok fresh[OF True], of check sender peer flags] Enable_Updates show ?thesis by simp
  next
    case False
    with ok Enable_Updates show ?thesis
      using refused_enable[of check sender peer flags t] by (intro silent_follows) auto
  qed
qed (use ok in \<open>simp_all add: other_calls_follow\<close>)

lemma run_ok:
  "\<exists>n. n \<le> length (filter (grants check) calls) \<and> transfer_ok (cookies_up_to n) t \<and> td_last_update_cookie t = word_of_nat n"
  if "length (filter (grants check) calls) < 2 ^ 32" "t = transfer_run check calls (mms_transfer_dbus_new e rec_id ty)"
  using that
proof (induction calls arbitrary: t rule: rev_induct)
  case Nil
  then show ?case by (simp add: transfer_run_def mms_transfer_dbus_new_def transfer_ok_def transfer_clients_def)
next
  case (snoc call calls)
  let ?t = "transfer_run check calls (mms_transfer_dbus_new e rec_id ty)"
  have bound: "length (filter (grants check) calls) < 2 ^ 32" using snoc.prems(1) by (auto split: if_splits)
  obtain n where n: "n \<le> length (filter (grants check) calls)" "transfer_ok (cookies_up_to n) ?t"
    and k: "td_last_update_cookie ?t = word_of_nat n"
    using snoc.IH[OF bound refl] by blast
  have t: "t = snd (transfer_step check call ?t)" using snoc.prems(2) by (simp add: transfer_run_def)
  have fresh: "grants check call \<Longrightarrow> td_last_update_cookie ?t + 1 \<notin> cookies_up_to n"
    unfolding k using snoc.prems(1) n(1) by (intro next_cookie_fresh) simp
  let ?n = "if grants check call then Suc n else n"
  have more: "(if grants check call then insert (td_last_update_cookie ?t + 1) (cookies_up_to n) else cookies_up_to n) = cookies_up_to ?n"
    by (simp add: k cookies_up_to_def atLeastAtMostSuc_conv algebra_simps)
  have "follows_subs (cookies_up_to ?n) check call ?t t"
    unfolding t more[symmetric] by (rule step_follows[OF n(2) fresh])
  then have ok: "transfer_ok (cookies_up_to ?n) t" and board: "subs_of t = subs_step check call (subs_of ?t)"
    by (simp_all add: follows_subs_def)
  have "td_last_update_cookie t = word_of_nat ?n"
    using arg_cong[OF board, of tb_last_cookie] by (cases call) (auto simp: subs_of_def k algebra_simps)
  moreover have "?n \<le> length (filter (grants check) (calls @ [call]))" using n(1) by simp
  ultimately show ?case using ok by blast
qed

lemma step_reply: "fst (transfer_step check call t) = subs_reply check call (subs_of t)"
proof (cases call)
  case (Enable_Updates sender peer flags)
  show ?thesis
  proof (cases "mms_transfer_dbus_access_allowed peer check ACTION_ENABLE_UPDATES \<and> flags \<noteq> 0")
    case True
    with Enable_Updates show ?thesis by (simp add: enable_updates_eq subs_of_def)
  next
    case False
    with Enable_Updates show ?thesis by (auto simp: mms_transfer_dbus_handle_enable_updates_def)
  qed
next
  case (Disable_Updates sender peer cookie)
  then show ?thesis
    by (simp add: mms_transfer_dbus_handle_disable_updates_def Let_def split: option.splits)
qed (simp_all add: subs_of_def mms_transfer_dbus_handle_get_all_def mms_transfer_dbus_handle_get_interface_version_def
    mms_transfer_dbus_handle_get_send_progress_def mms_transfer_dbus_handle_get_receive_progress_def
    MMS_TRANSFER_DBUS_INTERFACE_VERSION_def)

text \<open>A transfer keeps its names and place, and its end stops watching every client.\<close>

lemma transfer_step_names [simp]:
  "td_id (snd (transfer_step check call t)) = td_id t" "td_type (snd (transfer_step check call t)) = td_type t"
  "td_path (snd (transfer_step check call t)) = td_path t" "td_exported (snd (transfer_step check call t)) = td_exported t"
  by (cases call; simp add: mms_transfer_dbus_send_progress_def mms_transfer_dbus_receive_progress_def
      mms_transfer_dbus_finished_def mms_transfer_dbus_emit_signal_def mms_transfer_dbus_handle_enable_updates_def
      mms_transfer_dbus_handle_disable_updates_def mms_transfer_dbus_client_vanished_def update_flags_eq
      mms_transfer_dbus_client_destroy_def Let_def split: option.splits)+

lemma finalize_unwatches:
  assumes "transfer_ok ks t"
  shows "td_watched (mms_transfer_dbus_finalize t) = []"
proof -
  have "td_watched (fold mms_transfer_dbus_client_destroy ns u) = fold remove1 ns (td_watched u)" for ns u
    by (induction ns arbitrary: u) (simp_all add: mms_transfer_dbus_client_destroy_def)
  moreover have "fold remove1 ns ws = []" if "distinct ws" "set ws \<subseteq> set ns" for ns ws :: "string list"
    using that
  proof (induction ns arbitrary: ws)
    case (Cons n ns)
    then show ?case by (auto simp: set_remove1_eq intro!: Cons.IH)
  qed simp
  ultimately show ?thesis
    using assms by (simp add: mms_transfer_dbus_finalize_def transfer_ok_def)
qed

section \<open>Properties\<close>

text \<open>C30. The object refines its abstract view, a set of subscriptions: after any calls, as long as no more than
  \<^verbatim>\<open>2 ^ 32 - 2\<close> cookies have been given out, the next call has the answer and the effect the view prescribes, and
  its signals go, once each, to exactly the clients that hold a subscription to that kind of update: progress only
  when a number has changed, the end of the transfer to everybody with a subscription left.\<close>

theorem transfer_refines_board:
  assumes "length (filter (grants check) calls) < 2 ^ 32 - 1"
    and "t = transfer_run check calls (mms_transfer_dbus_new exported rec_id ty)"
  shows "fst (transfer_step check call t) = subs_reply check call (subs_of t)
       \<and> subs_of (snd (transfer_step check call t)) = subs_step check call (subs_of t)
       \<and> (\<exists>told. td_signals (snd (transfer_step check call t)) = td_signals t @ told \<and> distinct told
                \<and> set told = subs_told call (subs_of t))"
proof -
  obtain n where n: "n \<le> length (filter (grants check) calls)" "transfer_ok (cookies_up_to n) t"
    "td_last_update_cookie t = word_of_nat n"
    using run_ok[of check calls t exported rec_id ty] assms by auto
  then have "td_last_update_cookie t + 1 \<notin> cookies_up_to n"
    using next_cookie_fresh[of n] assms(1) by simp
  from step_follows[OF n(2) this, of check call] show ?thesis
    by (simp add: follows_subs_def step_reply)
qed

lemma transfer_refines_board_witness:
  "fst (transfer_step (\<lambda>p a. p) (Send_Progress 5 10)
     (transfer_run (\<lambda>p a. p) [Enable_Updates '':1.7'' (Some True) 3, Enable_Updates '':1.8'' (Some False) 3]
       (mms_transfer_dbus_new True ''1'' ''Send''))) = None"
  using transfer_refines_board[of "\<lambda>p a. p" "[Enable_Updates '':1.7'' (Some True) 3, Enable_Updates '':1.8'' (Some False) 3]" _ True "''1''" "''Send''" "Send_Progress 5 10", OF _ refl]
  by (simp add: mms_transfer_dbus_access_allowed_def)

end
