(* ===== verification/Transfer_List.thy ===== *)
theory Transfer_List
  imports Transfer_Dbus
begin

text \<open>
  The list of transfers: the base class \<^verbatim>\<open>mms-lib/src/mms_transfer_list.c\<close>, through which the tasks report, and the
  list on D-Bus, \<^verbatim>\<open>mms-transfer-list-dbus/src/mms_transfer_list_dbus.c\<close>. The hash function of GLib for strings is
  a parameter \<open>h\<close>. A hash table compares the hash of two keys before it asks whether they are equal.
\<close>

section \<open>The base class\<close>

record 's mms_transfer_list_class =
  fn_transfer_started :: "(string \<Rightarrow> string \<Rightarrow> 's \<Rightarrow> 's) option"
  fn_transfer_finished :: "(string \<Rightarrow> string option \<Rightarrow> 's \<Rightarrow> 's) option"
  fn_send_progress :: "(string \<Rightarrow> string option \<Rightarrow> u32 \<Rightarrow> u32 \<Rightarrow> 's \<Rightarrow> 's) option"
  fn_receive_progress :: "(string \<Rightarrow> string option \<Rightarrow> u32 \<Rightarrow> u32 \<Rightarrow> 's \<Rightarrow> 's) option"

definition mms_transfer_list_transfer_started ::
    "'s mms_transfer_list_class \<Rightarrow> 's option \<Rightarrow> string option \<Rightarrow> string option \<Rightarrow> 's option" where
  "mms_transfer_list_transfer_started klass self rec_id ty =
     (case (self, rec_id, ty) of
        (Some s, Some i, Some t) \<Rightarrow> Some (case fn_transfer_started klass of None \<Rightarrow> s | Some f \<Rightarrow> f i t s)
      | _ \<Rightarrow> self)"

definition mms_transfer_list_transfer_finished ::
    "'s mms_transfer_list_class \<Rightarrow> 's option \<Rightarrow> string option \<Rightarrow> string option \<Rightarrow> 's option" where
  "mms_transfer_list_transfer_finished klass self rec_id ty =
     (case (self, rec_id) of
        (Some s, Some i) \<Rightarrow> Some (case fn_transfer_finished klass of None \<Rightarrow> s | Some f \<Rightarrow> f i ty s)
      | _ \<Rightarrow> self)"

definition mms_transfer_list_transfer_send_progress ::
    "'s mms_transfer_list_class \<Rightarrow> 's option \<Rightarrow> string option \<Rightarrow> string option \<Rightarrow> u32 \<Rightarrow> u32 \<Rightarrow> 's option" where
  "mms_transfer_list_transfer_send_progress klass self rec_id ty sent whole =
     (case (self, rec_id) of
        (Some s, Some i) \<Rightarrow> Some (case fn_send_progress klass of None \<Rightarrow> s | Some f \<Rightarrow> f i ty sent whole s)
      | _ \<Rightarrow> self)"

definition mms_transfer_list_transfer_receive_progress ::
    "'s mms_transfer_list_class \<Rightarrow> 's option \<Rightarrow> string option \<Rightarrow> string option \<Rightarrow> u32 \<Rightarrow> u32 \<Rightarrow> 's option" where
  "mms_transfer_list_transfer_receive_progress klass self rec_id ty received whole =
     (case (self, rec_id) of
        (Some s, Some i) \<Rightarrow> Some (case fn_receive_progress klass of None \<Rightarrow> s | Some f \<Rightarrow> f i ty received whole s)
      | _ \<Rightarrow> self)"

section \<open>The table of transfers\<close>

type_synonym mms_transfer_key = "string \<times> string option"

definition mms_transfer_key_hash_cb :: "(string \<Rightarrow> u32) \<Rightarrow> mms_transfer_key \<Rightarrow> u32" where
  "mms_transfer_key_hash_cb h key = h (fst key)"

text \<open>Both keys are taken from the first argument.\<close>

definition mms_transfer_key_equal_cb :: "mms_transfer_key \<Rightarrow> mms_transfer_key \<Rightarrow> bool" where
  "mms_transfer_key_equal_cb a b =
     (let key1 = a; key2 = a in fst key1 = fst key2 \<and> snd key1 = snd key2)"

definition transfer_key :: "mms_transfer_dbus \<Rightarrow> mms_transfer_key" where
  "transfer_key t = (td_id t, Some (td_type t))"

definition key_matches :: "(string \<Rightarrow> u32) \<Rightarrow> mms_transfer_key \<Rightarrow> mms_transfer_dbus \<Rightarrow> bool" where
  "key_matches h key t \<longleftrightarrow>
     mms_transfer_key_hash_cb h (transfer_key t) = mms_transfer_key_hash_cb h key
   \<and> mms_transfer_key_equal_cb (transfer_key t) key"

lemma key_matches_iff [simp]: "key_matches h key t \<longleftrightarrow> h (td_id t) = h (fst key)"
  by (simp add: key_matches_def mms_transfer_key_hash_cb_def mms_transfer_key_equal_cb_def transfer_key_def)

section \<open>The list on D-Bus\<close>

text \<open>What a client of the list is sent.\<close>

datatype list_event =
    Transfer_Started string | Transfer_Finished string | Get_Reply "string list" | Get_Refused

text \<open>
  \<open>tl_watched\<close> are the names that are watched on the bus; nothing ever stops watching them. \<open>tl_gone\<close> are the
  transfers that have been removed, \<open>tl_skeleton\<close> says that the object of the list on D-Bus exists, and
  \<open>tl_freed_used\<close> that it has been used after its end.
\<close>

record mms_transfer_list_dbus =
  tl_bus :: bool
  tl_skeleton :: bool
  tl_transfers :: "mms_transfer_dbus list"
  tl_clients :: "string list option"
  tl_watched :: "string list"
  tl_log :: "(string \<times> list_event) list"
  tl_gone :: "mms_transfer_dbus list"
  tl_freed_used :: bool

definition mms_transfer_list_dbus_new :: mms_transfer_list_dbus where
  "mms_transfer_list_dbus_new =
     \<lparr>tl_bus = False, tl_skeleton = True, tl_transfers = [], tl_clients = None, tl_watched = [], tl_log = [],
      tl_gone = [], tl_freed_used = False\<rparr>"

definition mms_transfer_list_dbus_bus_cb :: "bool \<Rightarrow> mms_transfer_list_dbus \<Rightarrow> mms_transfer_list_dbus" where
  "mms_transfer_list_dbus_bus_cb bus self = self\<lparr>tl_bus := bus\<rparr>"

definition list_clients :: "mms_transfer_list_dbus \<Rightarrow> string list" where
  "list_clients self = (case tl_clients self of None \<Rightarrow> [] | Some cs \<Rightarrow> cs)"

text \<open>The path goes out as an object path, so the ids are ones that can be part of one; GLib refuses others.\<close>

definition mms_transfer_dbus_list_emit_signal :: "list_event \<Rightarrow> mms_transfer_list_dbus \<Rightarrow> mms_transfer_list_dbus" where
  "mms_transfer_dbus_list_emit_signal signal self =
     self\<lparr>tl_log := tl_log self @ map (\<lambda>dest. (dest, signal)) (list_clients self),
          tl_freed_used := (tl_freed_used self \<or> (list_clients self \<noteq> [] \<and> \<not> tl_skeleton self))\<rparr>"

definition mms_transfer_destroy_cb :: "mms_transfer_dbus \<Rightarrow> mms_transfer_list_dbus \<Rightarrow> mms_transfer_list_dbus" where
  "mms_transfer_destroy_cb transfer self =
     (let transfer = mms_transfer_dbus_finished transfer;
          self = mms_transfer_dbus_list_emit_signal (Transfer_Finished (td_path transfer)) self
      in self\<lparr>tl_gone := tl_gone self @ [mms_transfer_dbus_finalize transfer]\<rparr>)"

text \<open>Two objects cannot be exported at the same path.\<close>

definition can_export :: "string \<Rightarrow> mms_transfer_list_dbus \<Rightarrow> bool" where
  "can_export path self \<longleftrightarrow> tl_bus self \<and> path \<notin> set (map td_path (filter td_exported (tl_transfers self)))"

text \<open>\<^verbatim>\<open>g_hash_table_replace\<close> and \<^verbatim>\<open>g_hash_table_remove\<close> destroy the old entry once it is out of the table.\<close>

definition mms_transfer_list_dbus_transfer_started ::
    "(string \<Rightarrow> u32) \<Rightarrow> string \<Rightarrow> string \<Rightarrow> mms_transfer_list_dbus \<Rightarrow> mms_transfer_list_dbus" where
  "mms_transfer_list_dbus_transfer_started h rec_id ty self =
     (let transfer = mms_transfer_dbus_new (can_export (transfer_path rec_id ty) self) rec_id ty;
          self = (case find (key_matches h (transfer_key transfer)) (tl_transfers self) of
                    None \<Rightarrow> self\<lparr>tl_transfers := tl_transfers self @ [transfer]\<rparr>
                  | Some old \<Rightarrow> mms_transfer_destroy_cb old
                      (self\<lparr>tl_transfers := remove1 old (tl_transfers self) @ [transfer]\<rparr>))
      in mms_transfer_dbus_list_emit_signal (Transfer_Started (td_path transfer)) self)"

definition mms_transfer_list_dbus_transfer_finished ::
    "(string \<Rightarrow> u32) \<Rightarrow> string \<Rightarrow> string option \<Rightarrow> mms_transfer_list_dbus \<Rightarrow> mms_transfer_list_dbus" where
  "mms_transfer_list_dbus_transfer_finished h rec_id ty self =
     (case find (key_matches h (rec_id, ty)) (tl_transfers self) of
        None \<Rightarrow> self
      | Some old \<Rightarrow> mms_transfer_destroy_cb old (self\<lparr>tl_transfers := remove1 old (tl_transfers self)\<rparr>))"

definition mms_transfer_list_dbus_find ::
    "(string \<Rightarrow> u32) \<Rightarrow> string \<Rightarrow> string option \<Rightarrow> mms_transfer_list_dbus \<Rightarrow> mms_transfer_dbus option" where
  "mms_transfer_list_dbus_find h rec_id ty self = find (key_matches h (rec_id, ty)) (tl_transfers self)"

definition update_transfer :: "mms_transfer_dbus \<Rightarrow> mms_transfer_dbus \<Rightarrow> mms_transfer_list_dbus \<Rightarrow> mms_transfer_list_dbus" where
  "update_transfer old new self =
     self\<lparr>tl_transfers := map (\<lambda>t. if t = old then new else t) (tl_transfers self)\<rparr>"

definition mms_transfer_list_dbus_send_progress ::
    "(string \<Rightarrow> u32) \<Rightarrow> string \<Rightarrow> string option \<Rightarrow> u32 \<Rightarrow> u32 \<Rightarrow> mms_transfer_list_dbus \<Rightarrow> mms_transfer_list_dbus" where
  "mms_transfer_list_dbus_send_progress h rec_id ty sent whole self =
     (case mms_transfer_list_dbus_find h rec_id ty self of
        None \<Rightarrow> self
      | Some t \<Rightarrow> update_transfer t (mms_transfer_dbus_send_progress sent whole t) self)"

definition mms_transfer_list_dbus_receive_progress ::
    "(string \<Rightarrow> u32) \<Rightarrow> string \<Rightarrow> string option \<Rightarrow> u32 \<Rightarrow> u32 \<Rightarrow> mms_transfer_list_dbus \<Rightarrow> mms_transfer_list_dbus" where
  "mms_transfer_list_dbus_receive_progress h rec_id ty received whole self =
     (case mms_transfer_list_dbus_find h rec_id ty self of
        None \<Rightarrow> self
      | Some t \<Rightarrow> update_transfer t (mms_transfer_dbus_receive_progress received whole t) self)"

definition mms_transfer_list_dbus_client_vanished :: "string \<Rightarrow> mms_transfer_list_dbus \<Rightarrow> mms_transfer_list_dbus" where
  "mms_transfer_list_dbus_client_vanished name self =
     (case tl_clients self of
        None \<Rightarrow> self
      | Some clients \<Rightarrow>
          let clients = removeAll name clients
          in if clients = [] then self\<lparr>tl_clients := None\<rparr> else self\<lparr>tl_clients := Some clients\<rparr>)"

definition mms_transfer_list_dbus_handle_get ::
    "('p \<Rightarrow> bool) \<Rightarrow> string \<Rightarrow> 'p option \<Rightarrow> mms_transfer_list_dbus \<Rightarrow> mms_transfer_list_dbus" where
  "mms_transfer_list_dbus_handle_get check sender peer self =
     (if (case peer of None \<Rightarrow> False | Some p \<Rightarrow> check p) then
        let clients = list_clients self;
            self = (if sender \<notin> set clients
                    then self\<lparr>tl_clients := Some (clients @ [sender]), tl_watched := tl_watched self @ [sender]\<rparr>
                    else self)
        in self\<lparr>tl_log := tl_log self @ [(sender, Get_Reply (map td_path (tl_transfers self)))]\<rparr>
      else self\<lparr>tl_log := tl_log self @ [(sender, Get_Refused)]\<rparr>)"

text \<open>The end of the list: its object on D-Bus goes first, then the transfers, then the clients.\<close>

definition mms_transfer_list_dbus_finalize :: "mms_transfer_list_dbus \<Rightarrow> mms_transfer_list_dbus" where
  "mms_transfer_list_dbus_finalize self =
     (let transfers = tl_transfers self;
          self = self\<lparr>tl_skeleton := False\<rparr>;
          self = fold mms_transfer_destroy_cb transfers (self\<lparr>tl_transfers := []\<rparr>)
      in self\<lparr>tl_clients := None, tl_bus := False\<rparr>)"

definition mms_transfer_list_dbus_class :: "(string \<Rightarrow> u32) \<Rightarrow> mms_transfer_list_dbus mms_transfer_list_class" where
  "mms_transfer_list_dbus_class h =
     \<lparr>fn_transfer_started = Some (mms_transfer_list_dbus_transfer_started h),
      fn_transfer_finished = Some (mms_transfer_list_dbus_transfer_finished h),
      fn_send_progress = Some (mms_transfer_list_dbus_send_progress h),
      fn_receive_progress = Some (mms_transfer_list_dbus_receive_progress h)\<rparr>"

section \<open>The life of the list\<close>

datatype 'p list_call =
    Bus_Ready bool
  | Started "string option" "string option" | Ended "string option" "string option"
  | Sent "string option" "string option" u32 u32 | Received "string option" "string option" u32 u32
  | Get string "'p option" | Client_Gone string | On_Transfer string "'p transfer_call"

text \<open>The calls of a transfer that come over D-Bus.\<close>

fun is_method :: "'p transfer_call \<Rightarrow> bool" where
  "is_method (Send_Progress _ _) = False"
| "is_method (Receive_Progress _ _) = False"
| "is_method Tell_Finished = False"
| "is_method (Client_Vanished _) = False"
| "is_method _ = True"

text \<open>The tasks call the class of the list; a client of D-Bus reaches the transfer that is exported at a path. When a
  client leaves the bus, everybody who watches its name is told.\<close>

fun list_step ::
    "(string \<Rightarrow> u32) \<Rightarrow> ('p \<Rightarrow> bool) \<Rightarrow> ('p \<Rightarrow> mms_transfer_action \<Rightarrow> bool) \<Rightarrow> 'p list_call
       \<Rightarrow> mms_transfer_list_dbus \<Rightarrow> mms_transfer_list_dbus" where
  "list_step h check tx_check (Bus_Ready bus) l = mms_transfer_list_dbus_bus_cb bus l"
| "list_step h check tx_check (Started i ty) l =
     the (mms_transfer_list_transfer_started (mms_transfer_list_dbus_class h) (Some l) i ty)"
| "list_step h check tx_check (Ended i ty) l =
     the (mms_transfer_list_transfer_finished (mms_transfer_list_dbus_class h) (Some l) i ty)"
| "list_step h check tx_check (Sent i ty sent whole) l =
     the (mms_transfer_list_transfer_send_progress (mms_transfer_list_dbus_class h) (Some l) i ty sent whole)"
| "list_step h check tx_check (Received i ty received whole) l =
     the (mms_transfer_list_transfer_receive_progress (mms_transfer_list_dbus_class h) (Some l) i ty received whole)"
| "list_step h check tx_check (Get sender peer) l = mms_transfer_list_dbus_handle_get check sender peer l"
| "list_step h check tx_check (Client_Gone name) l =
     (let l = (if name \<in> set (tl_watched l) then mms_transfer_list_dbus_client_vanished name l else l)
      in l\<lparr>tl_transfers := map (\<lambda>t. snd (transfer_step tx_check (Client_Vanished name) t)) (tl_transfers l)\<rparr>)"
| "list_step h check tx_check (On_Transfer path call) l =
     (if is_method call
      then l\<lparr>tl_transfers := map (\<lambda>t. if td_path t = path \<and> td_exported t then snd (transfer_step tx_check call t) else t)
              (tl_transfers l)\<rparr>
      else l)"

definition list_run ::
    "(string \<Rightarrow> u32) \<Rightarrow> ('p \<Rightarrow> bool) \<Rightarrow> ('p \<Rightarrow> mms_transfer_action \<Rightarrow> bool) \<Rightarrow> 'p list_call list \<Rightarrow> mms_transfer_list_dbus" where
  "list_run h check tx_check calls = fold (list_step h check tx_check) calls mms_transfer_list_dbus_new"

text \<open>What a client knows from the answer to its \<^verbatim>\<open>Get\<close> and the signals after it.\<close>

fun view_step :: "list_event \<Rightarrow> string set option \<Rightarrow> string set option" where
  "view_step (Get_Reply paths) v = Some (set paths)"
| "view_step (Transfer_Started path) v = map_option (insert path) v"
| "view_step (Transfer_Finished path) v = map_option (\<lambda>ps. ps - {path}) v"
| "view_step Get_Refused v = v"

definition client_view :: "string \<Rightarrow> (string \<times> list_event) list \<Rightarrow> string set option" where
  "client_view name log = fold view_step (map snd (filter (\<lambda>(dest, e). dest = name) log)) None"

definition table_paths :: "mms_transfer_list_dbus \<Rightarrow> string set" where
  "table_paths l = set (map td_path (tl_transfers l))"

text \<open>A call whose message id has no slash; ids are those of the records of a database.\<close>

fun plain_id :: "'p list_call \<Rightarrow> bool" where
  "plain_id (Started (Some i) _) = (CHR ''/'' \<notin> set i)"
| "plain_id _ = True"

section \<open>The invariant\<close>

definition names_ok :: "(string \<Rightarrow> u32) \<Rightarrow> mms_transfer_dbus list \<Rightarrow> bool" where
  "names_ok h ts \<longleftrightarrow>
     distinct (map (h \<circ> td_id) ts)
   \<and> (\<forall>t \<in> set ts. CHR ''/'' \<notin> set (td_id t) \<and> td_path t = transfer_path (td_id t) (td_type t))"

definition views_ok :: "mms_transfer_list_dbus \<Rightarrow> bool" where
  "views_ok l \<longleftrightarrow> distinct (list_clients l) \<and> (\<forall>n \<in> set (list_clients l). client_view n (tl_log l) = Some (table_paths l))"

lemma transfer_path_eq:
  assumes "CHR ''/'' \<notin> set i" "CHR ''/'' \<notin> set j"
  shows "transfer_path i a = transfer_path j b \<longleftrightarrow> i = j \<and> a = b"
proof
  assume "transfer_path i a = transfer_path j b"
  then have eq: "i @ ''/'' @ a = j @ ''/'' @ b" by (simp add: transfer_path_def)
  have "takeWhile (\<lambda>c. c \<noteq> CHR ''/'') (i @ ''/'' @ a) = i" "takeWhile (\<lambda>c. c \<noteq> CHR ''/'') (j @ ''/'' @ b) = j"
    using assms by (auto simp: takeWhile_tail takeWhile_eq_all_conv)
  then show "i = j \<and> a = b" using eq by auto
qed simp

lemma distinct_hash_same:
  "distinct (map (h \<circ> td_id) ts) \<Longrightarrow> t \<in> set ts \<Longrightarrow> u \<in> set ts \<Longrightarrow> h (td_id t) = h (td_id u) \<Longrightarrow> t = u"
  by (auto simp: distinct_map inj_on_def)

lemma distinct_paths:
  assumes "names_ok h ts" shows "distinct (map td_path ts)"
proof -
  have "inj_on td_path (set ts)"
  proof (rule inj_onI)
    fix t u assume *: "t \<in> set ts" "u \<in> set ts" "td_path t = td_path u"
    then have "td_id t = td_id u" using assms transfer_path_eq unfolding names_ok_def by metis
    then show "t = u" using distinct_hash_same[of h ts t u] assms * by (auto simp: names_ok_def)
  qed
  moreover have "distinct ts" using assms by (auto simp: names_ok_def distinct_map)
  ultimately show ?thesis by (simp add: distinct_map)
qed

lemma names_ok_map:
  assumes "names_ok h ts" and "\<And>t. td_id (f t) = td_id t" "\<And>t. td_type (f t) = td_type t" "\<And>t. td_path (f t) = td_path t"
  shows "names_ok h (map f ts)" "map td_path (map f ts) = map td_path ts"
  using assms by (auto simp: names_ok_def comp_def)

lemma client_view_others:
  "(\<And>d e. (d, e) \<in> set evs \<Longrightarrow> d \<noteq> n) \<Longrightarrow> client_view n (log @ evs) = client_view n log"
proof -
  assume "\<And>d e. (d, e) \<in> set evs \<Longrightarrow> d \<noteq> n"
  then have "filter (\<lambda>(dest, e). dest = n) evs = []" by (auto simp: filter_empty_conv)
  then show ?thesis by (simp add: client_view_def)
qed

lemma client_view_signal:
  assumes "distinct cs" "n \<in> set cs"
  shows "client_view n (log @ map (\<lambda>dest. (dest, e)) cs) = view_step e (client_view n log)"
proof -
  have "filter (\<lambda>(dest, e). dest = n) (map (\<lambda>dest. (dest, e)) cs) = [(n, e)]"
    using assms by (induction cs) (auto simp: filter_empty_conv)
  then show ?thesis by (simp add: client_view_def)
qed

section \<open>Every call keeps what the clients know\<close>

definition list_ok :: "(string \<Rightarrow> u32) \<Rightarrow> mms_transfer_list_dbus \<Rightarrow> bool" where
  "list_ok h l \<longleftrightarrow> names_ok h (tl_transfers l) \<and> views_ok l"

text \<open>The table changes together with what is sent to every client.\<close>

lemma told_views_ok:
  assumes l: "views_ok l" and c: "tl_clients l' = tl_clients l"
    and log: "tl_log l' = tl_log l @ concat (map (\<lambda>e. map (\<lambda>dest. (dest, e)) (list_clients l)) evs)"
    and paths: "fold view_step evs (Some (table_paths l)) = Some (table_paths l')"
  shows "views_ok l'"
proof -
  have d: "distinct (list_clients l)" using l by (simp add: views_ok_def)
  have "client_view n (log @ concat (map (\<lambda>e. map (\<lambda>dest. (dest, e)) (list_clients l)) evs)) =
        fold view_step evs (client_view n log)" if "n \<in> set (list_clients l)" for n log
    by (induction evs arbitrary: log) (simp_all add: client_view_signal[OF d that] flip: append_assoc)
  moreover have "list_clients l' = list_clients l" using c by (simp add: list_clients_def)
  ultimately show ?thesis using l d log paths by (simp add: views_ok_def)
qed

lemma destroy_fields:
  "tl_transfers (mms_transfer_destroy_cb t l) = tl_transfers l"
  "tl_clients (mms_transfer_destroy_cb t l) = tl_clients l"
  "tl_watched (mms_transfer_destroy_cb t l) = tl_watched l"
  "tl_skeleton (mms_transfer_destroy_cb t l) = tl_skeleton l"
  "tl_bus (mms_transfer_destroy_cb t l) = tl_bus l"
  "tl_log (mms_transfer_destroy_cb t l) =
     tl_log l @ map (\<lambda>dest. (dest, Transfer_Finished (td_path t))) (list_clients l)"
  "tl_gone (mms_transfer_destroy_cb t l) = tl_gone l @ [mms_transfer_dbus_finalize (mms_transfer_dbus_finished t)]"
  "tl_freed_used (mms_transfer_destroy_cb t l) \<longleftrightarrow> tl_freed_used l \<or> (list_clients l \<noteq> [] \<and> \<not> tl_skeleton l)"
  using transfer_step_names(3)[of "\<lambda>p a. True" Tell_Finished t]
  by (simp_all add: mms_transfer_destroy_cb_def mms_transfer_dbus_list_emit_signal_def Let_def)

lemma emit_list_fields:
  "tl_transfers (mms_transfer_dbus_list_emit_signal e l) = tl_transfers l"
  "tl_clients (mms_transfer_dbus_list_emit_signal e l) = tl_clients l"
  "tl_log (mms_transfer_dbus_list_emit_signal e l) = tl_log l @ map (\<lambda>dest. (dest, e)) (list_clients l)"
  "tl_gone (mms_transfer_dbus_list_emit_signal e l) = tl_gone l"
  by (simp_all add: mms_transfer_dbus_list_emit_signal_def)

lemma list_clients_cong: "tl_clients l' = tl_clients l \<Longrightarrow> list_clients l' = list_clients l"
  by (simp add: list_clients_def)

lemma new_transfer_names [simp]:
  "td_id (mms_transfer_dbus_new e i ty) = i" "td_type (mms_transfer_dbus_new e i ty) = ty"
  "td_path (mms_transfer_dbus_new e i ty) = transfer_path i ty" "td_exported (mms_transfer_dbus_new e i ty) = e"
  by (simp_all add: mms_transfer_dbus_new_def)

text \<open>The table without the entry for a key, and with a new one.\<close>

lemma found_in_table:
  "find (key_matches h key) ts = Some old \<Longrightarrow> old \<in> set ts \<and> h (td_id old) = h (fst key)"
  by (auto simp: find_Some_iff)

lemma absent_in_table:
  "find (key_matches h key) ts = None \<Longrightarrow> t \<in> set ts \<Longrightarrow> h (td_id t) \<noteq> h (fst key)"
  by (auto simp: find_None_iff)

lemma found_itself:
  assumes ts: "names_ok h ts" and old: "old \<in> set ts"
  shows "find (key_matches h (td_id old, k)) ts = Some old"
proof (cases "find (key_matches h (td_id old, k)) ts")
  case None
  with absent_in_table[OF None old] show ?thesis by simp
next
  case (Some t)
  with found_in_table[OF Some] ts old distinct_hash_same[of h ts t old] show ?thesis
    by (simp add: names_ok_def)
qed

lemma names_ok_remove: "names_ok h ts \<Longrightarrow> names_ok h (remove1 t ts)"
  by (auto simp: names_ok_def distinct_map distinct_remove1 inj_on_def dest: notin_set_remove1)

lemma remove_paths:
  assumes "names_ok h ts" "t \<in> set ts"
  shows "set (map td_path (remove1 t ts)) = set (map td_path ts) - {td_path t}"
proof -
  have "distinct ts" and "inj_on td_path (set ts)"
    using distinct_paths[OF assms(1)] by (simp_all add: distinct_map)
  then show ?thesis using assms(2) by (auto simp: set_remove1_eq inj_on_def)
qed

lemma removed_hash:
  assumes "names_ok h ts" "old \<in> set ts" "t \<in> set (remove1 old ts)"
  shows "h (td_id t) \<noteq> h (td_id old)"
proof -
  have d: "distinct (map (h \<circ> td_id) ts)" and "distinct ts" using assms(1) by (auto simp: names_ok_def distinct_map)
  then have "t \<in> set ts" "t \<noteq> old" using assms(3) by (auto simp: set_remove1_eq)
  then show ?thesis using distinct_hash_same[OF d _ assms(2)] by blast
qed

lemma names_ok_append:
  assumes "names_ok h ts" "\<And>t. t \<in> set ts \<Longrightarrow> h (td_id t) \<noteq> h i" "CHR ''/'' \<notin> set i"
  shows "names_ok h (ts @ [mms_transfer_dbus_new e i ty])"
proof -
  have "h i \<notin> (h \<circ> td_id) ` set ts" using assms(2) by fastforce
  then show ?thesis using assms(1,3) by (auto simp: names_ok_def)
qed

lemma started_eq:
  "mms_transfer_list_dbus_transfer_started h i ty l =
     (let new = mms_transfer_dbus_new (can_export (transfer_path i ty) l) i ty
      in mms_transfer_dbus_list_emit_signal (Transfer_Started (transfer_path i ty))
          (case find (key_matches h (i, Some ty)) (tl_transfers l) of
             None \<Rightarrow> l\<lparr>tl_transfers := tl_transfers l @ [new]\<rparr>
           | Some old \<Rightarrow> mms_transfer_destroy_cb old (l\<lparr>tl_transfers := remove1 old (tl_transfers l) @ [new]\<rparr>)))"
  by (simp add: mms_transfer_list_dbus_transfer_started_def transfer_key_def Let_def)

lemma started_ok:
  assumes l: "list_ok h l" and i: "CHR ''/'' \<notin> set i"
  shows "list_ok h (mms_transfer_list_dbus_transfer_started h i ty l)" (is "list_ok h ?l")
proof (cases "find (key_matches h (i, Some ty)) (tl_transfers l)")
  case None
  let ?new = "mms_transfer_dbus_new (can_export (transfer_path i ty) l) i ty"
  have eq: "?l = mms_transfer_dbus_list_emit_signal (Transfer_Started (transfer_path i ty)) (l\<lparr>tl_transfers := tl_transfers l @ [?new]\<rparr>)"
    by (simp add: started_eq None)
  have names: "names_ok h (tl_transfers l @ [?new])"
    using l i absent_in_table[OF None] by (intro names_ok_append) (auto simp: list_ok_def)
  have "views_ok ?l"
    by (rule told_views_ok[of l _ "[Transfer_Started (transfer_path i ty)]"])
      (use l in \<open>simp_all add: list_ok_def eq emit_list_fields table_paths_def list_clients_def\<close>)
  with names show ?thesis by (simp add: list_ok_def eq emit_list_fields)
next
  case (Some old)
  let ?new = "mms_transfer_dbus_new (can_export (transfer_path i ty) l) i ty"
  let ?ts = "remove1 old (tl_transfers l)"
  have eq: "?l = mms_transfer_dbus_list_emit_signal (Transfer_Started (transfer_path i ty))
      (mms_transfer_destroy_cb old (l\<lparr>tl_transfers := ?ts @ [?new]\<rparr>))"
    by (simp add: started_eq Some)
  have ts: "names_ok h (tl_transfers l)" using l by (simp add: list_ok_def)
  have old: "old \<in> set (tl_transfers l)" "h (td_id old) = h i" using found_in_table[OF Some] by simp_all
  have names: "names_ok h (?ts @ [?new])"
    using i removed_hash[OF ts old(1)] old(2) by (intro names_ok_append names_ok_remove[OF ts]) auto
  have "views_ok ?l"
  proof (rule told_views_ok[of l _ "[Transfer_Finished (td_path old), Transfer_Started (transfer_path i ty)]"])
    show "views_ok l" using l by (simp add: list_ok_def)
    show "tl_clients ?l = tl_clients l" by (simp add: eq emit_list_fields destroy_fields)
    show "tl_log ?l = tl_log l @ concat (map (\<lambda>e. map (\<lambda>dest. (dest, e)) (list_clients l))
            [Transfer_Finished (td_path old), Transfer_Started (transfer_path i ty)])"
      by (simp add: eq emit_list_fields destroy_fields list_clients_def)
    show "fold view_step [Transfer_Finished (td_path old), Transfer_Started (transfer_path i ty)] (Some (table_paths l)) =
        Some (table_paths ?l)"
      using remove_paths[OF ts old(1)] by (simp add: eq emit_list_fields destroy_fields table_paths_def)
  qed
  with names show ?thesis by (simp add: list_ok_def eq emit_list_fields destroy_fields)
qed

lemma finished_ok:
  assumes l: "list_ok h l"
  shows "list_ok h (mms_transfer_list_dbus_transfer_finished h i ty l)" (is "list_ok h ?l")
proof (cases "find (key_matches h (i, ty)) (tl_transfers l)")
  case None
  then show ?thesis using l by (simp add: mms_transfer_list_dbus_transfer_finished_def)
next
  case (Some old)
  let ?ts = "remove1 old (tl_transfers l)"
  have eq: "?l = mms_transfer_destroy_cb old (l\<lparr>tl_transfers := ?ts\<rparr>)"
    by (simp add: mms_transfer_list_dbus_transfer_finished_def Some)
  have ts: "names_ok h (tl_transfers l)" using l by (simp add: list_ok_def)
  have old: "old \<in> set (tl_transfers l)" using found_in_table[OF Some] by simp
  have "views_ok ?l"
    by (rule told_views_ok[of l _ "[Transfer_Finished (td_path old)]"])
      (use l remove_paths[OF ts old] in \<open>simp_all add: list_ok_def eq destroy_fields table_paths_def list_clients_def\<close>)
  then show ?thesis using names_ok_remove[OF ts] by (simp add: list_ok_def eq destroy_fields)
qed

text \<open>Calls that change only what a transfer holds inside.\<close>

lemma inside_ok:
  assumes l: "list_ok h l" and f: "\<And>t. td_id (f t) = td_id t" "\<And>t. td_type (f t) = td_type t" "\<And>t. td_path (f t) = td_path t"
  shows "list_ok h (l\<lparr>tl_transfers := map f (tl_transfers l)\<rparr>)"
  using l names_ok_map[OF _ f, of h "tl_transfers l"]
  by (simp add: list_ok_def views_ok_def list_clients_def table_paths_def)

lemma progress_names [simp]:
  "td_id (mms_transfer_dbus_send_progress a b t) = td_id t" "td_type (mms_transfer_dbus_send_progress a b t) = td_type t"
  "td_path (mms_transfer_dbus_send_progress a b t) = td_path t"
  "td_id (mms_transfer_dbus_receive_progress a b t) = td_id t"
  "td_type (mms_transfer_dbus_receive_progress a b t) = td_type t"
  "td_path (mms_transfer_dbus_receive_progress a b t) = td_path t"
  using transfer_step_names[of "\<lambda>p a. True" "Send_Progress a b" t] transfer_step_names[of "\<lambda>p a. True" "Receive_Progress a b" t]
  by simp_all

lemma update_transfer_ok:
  assumes "list_ok h l" "td_id new = td_id old" "td_type new = td_type old" "td_path new = td_path old"
  shows "list_ok h (update_transfer old new l)"
  unfolding update_transfer_def using assms by (intro inside_ok) auto

lemma send_progress_ok: "list_ok h l \<Longrightarrow> list_ok h (mms_transfer_list_dbus_send_progress h i ty a b l)"
  by (auto simp: mms_transfer_list_dbus_send_progress_def intro!: update_transfer_ok split: option.splits)

lemma receive_progress_ok: "list_ok h l \<Longrightarrow> list_ok h (mms_transfer_list_dbus_receive_progress h i ty a b l)"
  by (auto simp: mms_transfer_list_dbus_receive_progress_def intro!: update_transfer_ok split: option.splits)

text \<open>A client comes and goes.\<close>

lemma get_ok:
  assumes l: "list_ok h l"
  shows "list_ok h (mms_transfer_list_dbus_handle_get check sender peer l)" (is "list_ok h ?l")
proof (cases "case peer of None \<Rightarrow> False | Some p \<Rightarrow> check p")
  case True
  let ?e = "(sender, Get_Reply (map td_path (tl_transfers l)))"
  have "tl_transfers ?l = tl_transfers l" "tl_log ?l = tl_log l @ [?e]"
    and c: "list_clients ?l = (if sender \<in> set (list_clients l) then list_clients l else list_clients l @ [sender])"
    using True by (simp_all add: mms_transfer_list_dbus_handle_get_def list_clients_def Let_def)
  moreover have "client_view n (tl_log l @ [?e]) = Some (table_paths l)" if "n \<in> insert sender (set (list_clients l))" for n
  proof (cases "n = sender")
    case True
    then show ?thesis by (simp add: client_view_def table_paths_def)
  next
    case False
    then show ?thesis using that l client_view_others[of "[?e]" n "tl_log l"] by (simp add: list_ok_def views_ok_def)
  qed
  ultimately show ?thesis
    using l by (auto simp: list_ok_def views_ok_def table_paths_def)
next
  case False
  have "client_view n (tl_log l @ [(sender, Get_Refused)]) = client_view n (tl_log l)" for n
    by (simp add: client_view_def)
  then show ?thesis
    using False l by (simp add: mms_transfer_list_dbus_handle_get_def list_ok_def views_ok_def list_clients_def table_paths_def)
qed

lemma vanished_ok:
  assumes l: "list_ok h l"
  shows "list_ok h (mms_transfer_list_dbus_client_vanished n l)" (is "list_ok h ?l")
proof -
  have "list_clients ?l = removeAll n (list_clients l)" "tl_transfers ?l = tl_transfers l" "tl_log ?l = tl_log l"
    by (simp_all add: mms_transfer_list_dbus_client_vanished_def list_clients_def Let_def split: option.splits)
  then show ?thesis using l by (auto simp: list_ok_def views_ok_def table_paths_def distinct_removeAll)
qed

declare list_step.simps(2-5) [simp del]

lemma class_calls [simp]:
  "list_step h check tx_check (Started i ty) l =
     (case (i, ty) of (Some i, Some ty) \<Rightarrow> mms_transfer_list_dbus_transfer_started h i ty l | _ \<Rightarrow> l)"
  "list_step h check tx_check (Ended i ty) l =
     (case i of Some i \<Rightarrow> mms_transfer_list_dbus_transfer_finished h i ty l | _ \<Rightarrow> l)"
  "list_step h check tx_check (Sent i ty a b) l =
     (case i of Some i \<Rightarrow> mms_transfer_list_dbus_send_progress h i ty a b l | _ \<Rightarrow> l)"
  "list_step h check tx_check (Received i ty a b) l =
     (case i of Some i \<Rightarrow> mms_transfer_list_dbus_receive_progress h i ty a b l | _ \<Rightarrow> l)"
  by (simp_all add: list_step.simps(2-5) mms_transfer_list_transfer_started_def mms_transfer_list_transfer_finished_def
      mms_transfer_list_transfer_send_progress_def mms_transfer_list_transfer_receive_progress_def
      mms_transfer_list_dbus_class_def split: option.splits)

lemma list_step_ok:
  assumes l: "list_ok h l" and plain: "plain_id call"
  shows "list_ok h (list_step h check tx_check call l)"
proof (cases call)
  case (Bus_Ready bus)
  with l show ?thesis
    by (simp add: mms_transfer_list_dbus_bus_cb_def list_ok_def views_ok_def list_clients_def table_paths_def)
next
  case (Started i ty)
  with l plain show ?thesis by (auto intro: started_ok split: option.splits)
next
  case (Ended i ty)
  with l show ?thesis by (auto intro: finished_ok split: option.splits)
next
  case (Sent i ty a b)
  with l show ?thesis by (auto intro: send_progress_ok split: option.splits)
next
  case (Received i ty a b)
  with l show ?thesis by (auto intro: receive_progress_ok split: option.splits)
next
  case (Get sender peer)
  with l show ?thesis by (simp add: get_ok)
next
  case (Client_Gone name)
  let ?l = "if name \<in> set (tl_watched l) then mms_transfer_list_dbus_client_vanished name l else l"
  have "list_ok h ?l" using l by (simp add: vanished_ok)
  from inside_ok[OF this, of "\<lambda>t. snd (transfer_step tx_check (Client_Vanished name) t)"] show ?thesis
    unfolding Client_Gone list_step.simps Let_def by (simp only: transfer_step_names)
next
  case (On_Transfer path c)
  have "list_ok h (l\<lparr>tl_transfers := map (\<lambda>t. if td_path t = path \<and> td_exported t then snd (transfer_step tx_check c t) else t)
              (tl_transfers l)\<rparr>)"
    by (rule inside_ok[OF l]) simp_all
  with On_Transfer l show ?thesis by simp
qed

lemma list_run_ok: "list_all plain_id calls \<Longrightarrow> list_ok h (list_run h check tx_check calls)"
proof (induction calls rule: rev_induct)
  case Nil
  then show ?case
    by (simp add: list_run_def mms_transfer_list_dbus_new_def list_ok_def names_ok_def views_ok_def list_clients_def)
next
  case (snoc call calls)
  then show ?case using list_step_ok[of h "list_run h check tx_check calls" call] by (simp add: list_run_def)
qed

section \<open>Properties\<close>

text \<open>C31. The view of every client that is registered with the list is the table: the paths in its last answer to \<^verbatim>\<open>Get\<close>,
  with what the signals since then have added and removed, are exactly the paths of the transfers in the table, and
  every path is that of one transfer only. It rests on message ids without a slash.\<close>

theorem client_view_is_table:
  assumes "list_all plain_id calls" and "l = list_run h check tx_check calls" and "n \<in> set (list_clients l)"
  shows "client_view n (tl_log l) = Some (set (map td_path (tl_transfers l))) \<and> distinct (map td_path (tl_transfers l))"
  using list_run_ok[OF assms(1), of h check tx_check] distinct_paths[of h "tl_transfers l"] assms(2,3)
  by (simp add: list_ok_def views_ok_def table_paths_def)

lemma client_view_is_table_witness:
  "client_view '':1.7'' (tl_log (list_run (\<lambda>s. of_nat (length s)) (\<lambda>p. p) (\<lambda>p a. p)
     [Bus_Ready True, Get '':1.7'' (Some True), Started (Some ''1'') (Some ''Send''), Started (Some ''22'') (Some ''Send''),
      Started (Some ''1'') (Some ''Ack'')])) = Some {''/msg/22/Send'', ''/msg/1/Ack''}"
proof -
  let ?calls = "[Bus_Ready True, Get '':1.7'' (Some True), Started (Some ''1'') (Some ''Send''),
     Started (Some ''22'') (Some ''Send''), Started (Some ''1'') (Some ''Ack'')]"
  let ?l = "list_run (\<lambda>s. of_nat (length s)) (\<lambda>p. p) (\<lambda>p a. p) ?calls"
  have "'':1.7'' \<in> set (list_clients ?l)" and "map td_path (tl_transfers ?l) = [''/msg/22/Send'', ''/msg/1/Ack'']"
    by code_simp+
  with client_view_is_table[of ?calls ?l "\<lambda>s. of_nat (length s)" "\<lambda>p. p" "\<lambda>p a. p" "'':1.7''"]
  show ?thesis by simp
qed

text \<open>C32. The kind of a transfer is not compared: whoever starts a transfer for a message ends any other transfer of
  that message, whatever its kind, and from then on what is reported about the other one is added to the new one.\<close>

theorem transfer_kind_ignored:
  assumes "list_all plain_id calls" and "l = list_run h check tx_check calls"
    and "old \<in> set (tl_transfers l)" and "CHR ''/'' \<notin> set (td_id old)"
  shows "let l' = list_step h check tx_check (Started (Some (td_id old)) (Some ty)) l;
             new = mms_transfer_dbus_new (can_export (transfer_path (td_id old) ty) l) (td_id old) ty
         in tl_gone l' = tl_gone l @ [mms_transfer_dbus_finalize (mms_transfer_dbus_finished old)]
          \<and> mms_transfer_list_dbus_find h (td_id old) (Some (td_type old)) l' = Some new
          \<and> length (tl_transfers l') = length (tl_transfers l)"
proof -
  have ts: "names_ok h (tl_transfers l)" using list_run_ok[OF assms(1), of h check tx_check] assms(2) by (simp add: list_ok_def)
  note found = found_itself[OF ts assms(3), of "Some ty"]
  let ?new = "mms_transfer_dbus_new (can_export (transfer_path (td_id old) ty) l) (td_id old) ty"
  have "find (key_matches h (td_id old, k)) (remove1 old (tl_transfers l) @ [?new]) = Some ?new" for k
  proof -
    have "find (key_matches h (td_id old, k)) (remove1 old (tl_transfers l)) = None"
      using removed_hash[OF ts assms(3)] by (force simp: find_None_iff)
    moreover have "find P (xs @ [y]) = Some y" if "find P xs = None" "P y" for P xs and y :: mms_transfer_dbus
      using that by (induction xs) (auto split: if_splits)
    ultimately show ?thesis by simp
  qed
  then show ?thesis
    using assms(3) found
    by (auto simp: Let_def started_eq emit_list_fields destroy_fields mms_transfer_list_dbus_find_def length_remove1
        intro!: Suc_pred length_pos_if_in_set)
qed

lemma transfer_kind_ignored_witness:
  "length (tl_gone (list_run (\<lambda>s. of_nat (length s)) (\<lambda>p. p) (\<lambda>p a. p)
     [Started (Some ''1'') (Some ''Send''), Started (Some ''1'') (Some ''Ack'')])) = 1"
proof -
  let ?calls = "[Started (Some ''1'') (Some ''Send'')] :: bool list_call list"
  let ?old = "mms_transfer_dbus_new False ''1'' ''Send''"
  let ?l = "list_run (\<lambda>s. of_nat (length s)) (\<lambda>p. p) (\<lambda>p a. p) ?calls"
  have l: "tl_transfers ?l = [?old]" "tl_gone ?l = []" by code_simp+
  have "list_run (\<lambda>s. of_nat (length s)) (\<lambda>p. p) (\<lambda>p a. p) [Started (Some ''1'') (Some ''Send''), Started (Some ''1'') (Some ''Ack'')]
     = list_step (\<lambda>s. of_nat (length s)) (\<lambda>p. p) (\<lambda>p a. p) (Started (Some ''1'') (Some ''Ack'')) ?l"
    by (simp add: list_run_def)
  with transfer_kind_ignored[of ?calls ?l "\<lambda>s. of_nat (length s)" "\<lambda>p. p" "\<lambda>p a. p" ?old "''Ack''"] l
  show ?thesis by (simp add: Let_def)
qed

text \<open>A transfer that is started again before it has ended cannot be reached over D-Bus: its object is exported
  while the old one still occupies the path.\<close>

theorem restarted_transfer_unreachable:
  assumes "list_all plain_id calls" and "l = list_run h check tx_check calls"
    and "old \<in> set (tl_transfers l)" and "td_exported old"
  shows "\<forall>t \<in> set (tl_transfers (list_step h check tx_check (Started (Some (td_id old)) (Some (td_type old))) l)).
           td_path t = td_path old \<longrightarrow> \<not> td_exported t"
proof -
  have ts: "names_ok h (tl_transfers l)" using list_run_ok[OF assms(1), of h check tx_check] assms(2) by (simp add: list_ok_def)
  have path: "transfer_path (td_id old) (td_type old) = td_path old" using ts assms(3) by (simp add: names_ok_def)
  have "\<not> can_export (td_path old) l" using assms(3,4) by (auto simp: can_export_def)
  moreover have "td_path t \<noteq> td_path old" if "t \<in> set (remove1 old (tl_transfers l))" for t
    using remove_paths[OF ts assms(3)] that by auto
  moreover have "find (key_matches h (td_id old, Some (td_type old))) (tl_transfers l) = Some old"
    by (rule found_itself[OF ts assms(3)])
  ultimately show ?thesis
    by (auto simp: started_eq Let_def emit_list_fields destroy_fields path)
qed

lemma restarted_transfer_unreachable_witness:
  "\<not> td_exported (hd (tl_transfers (list_run (\<lambda>s. of_nat (length s)) (\<lambda>p. p) (\<lambda>p a. p)
     [Bus_Ready True, Started (Some ''1'') (Some ''Send''), Started (Some ''1'') (Some ''Send'')])))"
proof -
  let ?calls = "[Bus_Ready True, Started (Some ''1'') (Some ''Send'')] :: bool list_call list"
  let ?old = "mms_transfer_dbus_new True ''1'' ''Send''"
  let ?l = "list_run (\<lambda>s. of_nat (length s)) (\<lambda>p. p) (\<lambda>p a. p) ?calls"
  let ?l' = "list_run (\<lambda>s. of_nat (length s)) (\<lambda>p. p) (\<lambda>p a. p) (?calls @ [Started (Some ''1'') (Some ''Send'')])"
  have l: "tl_transfers ?l = [?old]" and l': "map td_path (tl_transfers ?l') = [td_path ?old]" by code_simp+
  have "?l' = list_step (\<lambda>s. of_nat (length s)) (\<lambda>p. p) (\<lambda>p a. p) (Started (Some ''1'') (Some ''Send'')) ?l"
    by (simp add: list_run_def)
  with restarted_transfer_unreachable[of ?calls ?l "\<lambda>s. of_nat (length s)" "\<lambda>p. p" "\<lambda>p a. p" ?old] l l'
  show ?thesis by (cases "tl_transfers ?l'") auto
qed

lemma skeleton_kept:
  "tl_skeleton (list_step h check tx_check call l) = tl_skeleton l"
  "tl_skeleton l \<Longrightarrow> tl_freed_used (list_step h check tx_check call l) = tl_freed_used l"
  "set (list_clients l) \<subseteq> set (tl_watched l) \<Longrightarrow>
     set (list_clients (list_step h check tx_check call l)) \<subseteq> set (tl_watched (list_step h check tx_check call l))"
  by (cases call; auto simp: mms_transfer_list_dbus_bus_cb_def started_eq mms_transfer_list_dbus_transfer_finished_def
      mms_transfer_dbus_list_emit_signal_def destroy_fields mms_transfer_list_dbus_send_progress_def
      mms_transfer_list_dbus_receive_progress_def update_transfer_def mms_transfer_list_dbus_handle_get_def
      mms_transfer_list_dbus_client_vanished_def list_clients_def Let_def split: option.splits if_splits)+

lemma destroy_all_fields:
  "tl_watched (fold mms_transfer_destroy_cb ts l) = tl_watched l"
  "tl_freed_used (fold mms_transfer_destroy_cb ts l) \<longleftrightarrow>
     tl_freed_used l \<or> (ts \<noteq> [] \<and> list_clients l \<noteq> [] \<and> \<not> tl_skeleton l)"
  by (induction ts arbitrary: l) (auto simp: destroy_fields list_clients_def)

text \<open>The end of the list does not stop watching its clients, so the bus still calls back for an object that is
  gone; and if a transfer is left and somebody listens, the signals of its end are sent from the path of an object
  that has just been released.\<close>

theorem list_end_is_unclean:
  "let l = list_run h check tx_check calls; l' = mms_transfer_list_dbus_finalize l
   in set (list_clients l) \<subseteq> set (tl_watched l') \<and> (tl_freed_used l' \<longleftrightarrow> list_clients l \<noteq> [] \<and> tl_transfers l \<noteq> [])"
proof -
  let ?l = "list_run h check tx_check calls"
  have "tl_skeleton ?l \<and> \<not> tl_freed_used ?l \<and> set (list_clients ?l) \<subseteq> set (tl_watched ?l)"
  proof (induction calls rule: rev_induct)
    case Nil
    then show ?case by (simp add: list_run_def mms_transfer_list_dbus_new_def list_clients_def)
  next
    case (snoc call calls)
    then show ?case using skeleton_kept[where call = call and l = "list_run h check tx_check calls"] by (simp add: list_run_def)
  qed
  then show ?thesis
    by (auto simp: mms_transfer_list_dbus_finalize_def Let_def destroy_all_fields list_clients_def)
qed

end
