(* ===== verification/Settings.thy ===== *)
theory Settings
  imports Mms_Prelude
begin

text \<open>
  The settings, \<^verbatim>\<open>mms-lib/src/mms_settings.c\<close>: the static configuration and the values that belong to a SIM, their
  defaults and what a configuration file changes of them. The key file of GLib is a parameter: the value of a key, if
  it is there and can be converted. A \<^verbatim>\<open>..._copy\<close> structure keeps, beside the data, the strings it has allocated.
\<close>

section \<open>Data\<close>

record mms_config =
  cfg_root_dir :: "string option"
  cfg_retry_secs :: int
  cfg_network_idle_secs :: int
  cfg_idle_secs :: int
  cfg_convert_to_utf8 :: bool
  cfg_keep_temp_files :: bool
  cfg_attic_enabled :: bool

record mms_config_copy =
  cc_config :: mms_config
  cc_root_dir :: "string option"

record mms_settings_sim_data =
  sd_user_agent :: "string option"
  sd_uaprof :: "string option"
  sd_size_limit :: u32
  sd_max_pixels :: u32
  sd_allow_dr :: bool

record mms_settings_sim_data_copy =
  sc_data :: mms_settings_sim_data
  sc_user_agent :: "string option"
  sc_uaprof :: "string option"

definition mms_settings_sim_data_default :: mms_settings_sim_data where
  "mms_settings_sim_data_default =
     \<lparr>sd_user_agent = Some ''Mozilla/5.0 (Sailfish; Jolla)'', sd_uaprof = Some ''http://static.jolla.com/uaprof/Jolla.xml'',
      sd_size_limit = 300 * 1024, sd_max_pixels = 3000000, sd_allow_dr = True\<rparr>"

section \<open>Configuration files\<close>

text \<open>The getters of a key file, with the group and the key; None when the key is missing or has another form.\<close>

record key_file =
  kf_string :: "string \<Rightarrow> string \<Rightarrow> string option"
  kf_integer :: "string \<Rightarrow> string \<Rightarrow> int option"
  kf_boolean :: "string \<Rightarrow> string \<Rightarrow> bool option"

definition mms_settings_parse_int :: "key_file \<Rightarrow> string \<Rightarrow> string \<Rightarrow> int \<Rightarrow> int \<Rightarrow> bool \<times> int" where
  "mms_settings_parse_int kf grp key out min_value =
     (case kf_integer kf grp key of
        None \<Rightarrow> (False, out)
      | Some i \<Rightarrow> if i \<ge> min_value then (True, i) else (False, out))"

definition mms_settings_parse_uint :: "key_file \<Rightarrow> string \<Rightarrow> string \<Rightarrow> u32 \<Rightarrow> u32" where
  "mms_settings_parse_uint kf grp key out =
     (case mms_settings_parse_int kf grp key 0 1 of (True, i) \<Rightarrow> word_of_int i | (False, _) \<Rightarrow> out)"

definition mms_settings_parse_bool :: "key_file \<Rightarrow> string \<Rightarrow> string \<Rightarrow> bool \<Rightarrow> bool" where
  "mms_settings_parse_bool kf grp key out =
     (case kf_boolean kf grp key of None \<Rightarrow> out | Some b \<Rightarrow> b)"

definition mms_settings_parse_global_config :: "key_file \<Rightarrow> mms_config_copy \<Rightarrow> mms_config_copy" where
  "mms_settings_parse_global_config kf g =
     (let grp = ''Global'';
          g = (case kf_string kf grp ''RootDir'' of
                 None \<Rightarrow> g
               | Some s \<Rightarrow> g\<lparr>cc_root_dir := Some s, cc_config := (cc_config g)\<lparr>cfg_root_dir := Some s\<rparr>\<rparr>);
          c = cc_config g;
          c = c\<lparr>cfg_retry_secs := snd (mms_settings_parse_int kf grp ''RetryDelay'' (cfg_retry_secs c) 0)\<rparr>;
          c = c\<lparr>cfg_network_idle_secs :=
                   snd (mms_settings_parse_int kf grp ''NetworkIdleTimeout'' (cfg_network_idle_secs c) 0)\<rparr>;
          c = c\<lparr>cfg_idle_secs := snd (mms_settings_parse_int kf grp ''IdleTimeout'' (cfg_idle_secs c) 0)\<rparr>;
          c = c\<lparr>cfg_convert_to_utf8 := mms_settings_parse_bool kf grp ''ConvertToUTF8'' (cfg_convert_to_utf8 c)\<rparr>
      in g\<lparr>cc_config := c\<rparr>)"

definition mms_settings_parse_sim_config :: "key_file \<Rightarrow> mms_settings_sim_data_copy \<Rightarrow> mms_settings_sim_data_copy" where
  "mms_settings_parse_sim_config kf d =
     (let grp = ''Defaults'';
          d = (case kf_string kf grp ''UserAgent'' of
                 None \<Rightarrow> d
               | Some s \<Rightarrow> d\<lparr>sc_user_agent := Some s, sc_data := (sc_data d)\<lparr>sd_user_agent := Some s\<rparr>\<rparr>);
          d = (case kf_string kf grp ''UAProfile'' of
                 None \<Rightarrow> d
               | Some s \<Rightarrow> d\<lparr>sc_uaprof := Some s, sc_data := (sc_data d)\<lparr>sd_uaprof := Some s\<rparr>\<rparr>);
          c = sc_data d;
          c = c\<lparr>sd_size_limit := mms_settings_parse_uint kf grp ''SizeLimit'' (sd_size_limit c)\<rparr>;
          c = c\<lparr>sd_max_pixels := mms_settings_parse_uint kf grp ''MaxPixels'' (sd_max_pixels c)\<rparr>;
          c = c\<lparr>sd_allow_dr := (case kf_boolean kf grp ''SendDeliveryReport'' of None \<Rightarrow> sd_allow_dr c | Some b \<Rightarrow> b)\<rparr>
      in d\<lparr>sc_data := c\<rparr>)"

definition mms_settings_parse ::
    "key_file \<Rightarrow> mms_config_copy \<Rightarrow> mms_settings_sim_data_copy \<Rightarrow> mms_config_copy \<times> mms_settings_sim_data_copy" where
  "mms_settings_parse kf config data =
     (mms_settings_parse_global_config kf config, mms_settings_parse_sim_config kf data)"

text \<open>\<open>loaded\<close> is what loading the file has given.\<close>

definition mms_settings_load_defaults ::
    "key_file option \<Rightarrow> mms_config_copy \<Rightarrow> mms_settings_sim_data_copy
       \<Rightarrow> bool \<times> mms_config_copy \<times> mms_settings_sim_data_copy" where
  "mms_settings_load_defaults loaded config data =
     (case loaded of None \<Rightarrow> (False, config, data) | Some kf \<Rightarrow> (True, mms_settings_parse kf config data))"

section \<open>Copies\<close>

definition mms_settings_sim_data_copy ::
    "mms_settings_sim_data option \<Rightarrow> mms_settings_sim_data_copy" where
  "mms_settings_sim_data_copy src =
     (case src of
        Some d \<Rightarrow> \<lparr>sc_data = d, sc_user_agent = sd_user_agent d, sc_uaprof = sd_uaprof d\<rparr>
      | None \<Rightarrow> \<lparr>sc_data = mms_settings_sim_data_default, sc_user_agent = None, sc_uaprof = None\<rparr>)"

definition mms_settings_sim_data_copy_new :: "mms_settings_sim_data option \<Rightarrow> mms_settings_sim_data_copy option" where
  "mms_settings_sim_data_copy_new data =
     (case data of None \<Rightarrow> None | Some _ \<Rightarrow> Some (mms_settings_sim_data_copy data))"

section \<open>The object\<close>

record mms_settings =
  st_sim_defaults :: mms_settings_sim_data_copy
  st_flags :: u32

record 's mms_settings_class =
  fn_get_sim_data :: "'s \<Rightarrow> string option \<Rightarrow> mms_settings_sim_data outcome \<times> 's"

definition mms_settings_init :: mms_settings where
  "mms_settings_init =
     \<lparr>st_sim_defaults = \<lparr>sc_data = mms_settings_sim_data_default, sc_user_agent = None, sc_uaprof = None\<rparr>, st_flags = 0\<rparr>"

definition mms_settings_set_sim_defaults ::
    "'a mms_settings_scheme option \<Rightarrow> mms_settings_sim_data option \<Rightarrow> 'a mms_settings_scheme option" where
  "mms_settings_set_sim_defaults settings data =
     map_option (\<lambda>s. s\<lparr>st_sim_defaults := mms_settings_sim_data_copy data\<rparr>) settings"

definition mms_settings_get_sim_data ::
    "'s mms_settings_class \<Rightarrow> 's option \<Rightarrow> string option \<Rightarrow> mms_settings_sim_data outcome option \<times> 's option" where
  "mms_settings_get_sim_data klass settings imsi =
     (case settings of
        None \<Rightarrow> (None, None)
      | Some s \<Rightarrow> (let (d, s) = fn_get_sim_data klass s imsi in (Some d, Some s)))"

definition mms_settings_get_default_sim_data ::
    "mms_settings \<Rightarrow> string option \<Rightarrow> mms_settings_sim_data outcome \<times> mms_settings" where
  "mms_settings_get_default_sim_data s imsi = (Ret (sc_data (st_sim_defaults s)), s)"

section \<open>Properties of configuration files\<close>

text \<open>The data of a copy are its own strings, or the constant defaults.\<close>

definition copy_ok :: "mms_settings_sim_data_copy \<Rightarrow> bool" where
  "copy_ok c \<longleftrightarrow>
     (sc_user_agent c = sd_user_agent (sc_data c)
       \<or> (sc_user_agent c = None \<and> sd_user_agent (sc_data c) = sd_user_agent mms_settings_sim_data_default))
   \<and> (sc_uaprof c = sd_uaprof (sc_data c)
       \<or> (sc_uaprof c = None \<and> sd_uaprof (sc_data c) = sd_uaprof mms_settings_sim_data_default))"

definition config_ok :: "mms_config \<Rightarrow> bool" where
  "config_ok c \<longleftrightarrow> cfg_retry_secs c \<ge> 0 \<and> cfg_network_idle_secs c \<ge> 0 \<and> cfg_idle_secs c \<ge> 0"

definition sim_data_ok :: "mms_settings_sim_data \<Rightarrow> bool" where
  "sim_data_ok d \<longleftrightarrow> sd_user_agent d \<noteq> None \<and> sd_uaprof d \<noteq> None \<and> sd_size_limit d > 0 \<and> sd_max_pixels d > 0"

lemma copy_ok_copy [simp]: "copy_ok (mms_settings_sim_data_copy src)"
  by (simp add: copy_ok_def mms_settings_sim_data_copy_def split: option.splits)

lemma default_data_ok [simp]: "sim_data_ok mms_settings_sim_data_default"
  by (simp add: sim_data_ok_def mms_settings_sim_data_default_def)

lemma parse_int_cases:
  "mms_settings_parse_int kf g k out m = (True, i) \<Longrightarrow> kf_integer kf g k = Some i \<and> m \<le> i"
  "mms_settings_parse_int kf g k out m = (False, i) \<Longrightarrow> i = out"
  by (auto simp: mms_settings_parse_int_def split: option.splits if_splits)

lemma parse_int_bound: "m \<le> out \<Longrightarrow> m \<le> snd (mms_settings_parse_int kf g k out m)"
  by (auto simp: mms_settings_parse_int_def split: option.splits)

lemma parse_uint_positive:
  assumes "\<And>i. kf_integer kf g k = Some i \<Longrightarrow> i < 2 ^ 31" and "out > 0"
  shows "mms_settings_parse_uint kf g k out > 0"
proof (cases "mms_settings_parse_int kf g k 0 1")
  case (Pair ok i)
  show ?thesis
  proof (cases ok)
    case True
    with Pair parse_int_cases(1)[of kf g k 0 1 i] have i: "1 \<le> i" "i < 2 ^ 31" using assms(1) by auto
    then have "uint (word_of_int i :: u32) = i" by (simp add: uint_word_of_int take_bit_int_eq_self)
    with i have "(word_of_int i :: u32) \<noteq> 0" by auto
    with True Pair show ?thesis by (simp add: mms_settings_parse_uint_def word_gt_0)
  next
    case False
    with Pair assms(2) show ?thesis by (simp add: mms_settings_parse_uint_def)
  qed
qed

text \<open>C33. Whatever a configuration file holds, the settings stay well formed: no time out is negative, no limit is zero,
  the strings are there and belong to the copy or are the constant defaults. A key that is missing, malformed or out of
  range leaves its setting as it was. The hypothesis on integers is that the key file returns values of \<^verbatim>\<open>int\<close>.\<close>

theorem parsed_settings_ok:
  assumes "\<And>g k i. kf_integer kf g k = Some i \<Longrightarrow> i < 2 ^ 31"
    and "config_ok (cc_config config)" and "sim_data_ok (sc_data data)" and "copy_ok data"
  shows "config_ok (cc_config (fst (mms_settings_parse kf config data)))
       \<and> sim_data_ok (sc_data (snd (mms_settings_parse kf config data)))
       \<and> copy_ok (snd (mms_settings_parse kf config data))"
proof -
  have "config_ok (cc_config (mms_settings_parse_global_config kf config))"
    using assms(2) by (simp add: config_ok_def mms_settings_parse_global_config_def Let_def parse_int_bound split: option.splits)
  moreover have "sim_data_ok (sc_data (mms_settings_parse_sim_config kf data))"
    using assms(1,3) by (auto simp: sim_data_ok_def mms_settings_parse_sim_config_def Let_def parse_uint_positive split: option.splits)
  moreover have "copy_ok (mms_settings_parse_sim_config kf data)"
    using assms(4) by (auto simp: copy_ok_def mms_settings_parse_sim_config_def Let_def split: option.splits)
  ultimately show ?thesis by (simp add: mms_settings_parse_def)
qed

lemma parsed_settings_ok_witness:
  "sim_data_ok (sc_data (snd (mms_settings_parse
     \<lparr>kf_string = (\<lambda>g k. None), kf_integer = (\<lambda>g k. Some (- 5)), kf_boolean = (\<lambda>g k. None)\<rparr>
     \<lparr>cc_config = \<lparr>cfg_root_dir = None, cfg_retry_secs = 15, cfg_network_idle_secs = 10, cfg_idle_secs = 30,
        cfg_convert_to_utf8 = False, cfg_keep_temp_files = False, cfg_attic_enabled = False\<rparr>, cc_root_dir = None\<rparr>
     (mms_settings_sim_data_copy None))))"
  using parsed_settings_ok[of
     "\<lparr>kf_string = (\<lambda>g k. None), kf_integer = (\<lambda>g k. Some (- 5)), kf_boolean = (\<lambda>g k. None)\<rparr>"
     "\<lparr>cc_config = \<lparr>cfg_root_dir = None, cfg_retry_secs = 15, cfg_network_idle_secs = 10, cfg_idle_secs = 30,
        cfg_convert_to_utf8 = False, cfg_keep_temp_files = False, cfg_attic_enabled = False\<rparr>, cc_root_dir = None\<rparr>"
     "mms_settings_sim_data_copy None"]
  by (simp add: config_ok_def) (simp add: mms_settings_sim_data_copy_def)

end
