(* ===== verification/Settings_Dconf.thy ===== *)
theory Settings_Dconf
  imports Settings "HOL-Library.AList" Complex_Main
begin

text \<open>
  The settings kept in the database of dconf, \<^verbatim>\<open>mms-settings-dconf/src/mms_settings_dconf.c\<close>: the values of the SIM
  in use are read when it is first asked for, and followed as dconf reports changes. The database is a table from
  paths to values; what a write does to it (it may fail) and what a listing of a directory returns are parameters.
  A getter of GLib that is called for a value of another type is an error of the program, \<open>Undef\<close>.
\<close>

section \<open>Values\<close>

text \<open>\<^verbatim>\<open>GVariant\<close>; a double is its value, None for one that is not a number or infinite.\<close>

datatype gvariant =
    V_Boolean bool | V_Byte "8 word" | V_Int16 "16 word" | V_Uint16 "16 word" | V_Int32 "32 word" | V_Uint32 "32 word"
  | V_Int64 "64 word" | V_Uint64 "64 word" | V_Double "rat option" | V_String string | V_Other

definition UINT_MAX :: int where "UINT_MAX = 2 ^ 32 - 1"

fun mms_settings_dconf_get_uint32 :: "gvariant \<Rightarrow> u32 option" where
  "mms_settings_dconf_get_uint32 (V_Uint32 u) = Some u"
| "mms_settings_dconf_get_uint32 (V_Int32 i) = (if sint i \<ge> 0 then Some (ucast i) else None)"
| "mms_settings_dconf_get_uint32 (V_Int16 i) = (if sint i \<ge> 0 then Some (scast i) else None)"
| "mms_settings_dconf_get_uint32 (V_Int64 i) = (if sint i \<ge> 0 \<and> sint i \<le> UINT_MAX then Some (ucast i) else None)"
| "mms_settings_dconf_get_uint32 (V_Byte b) = Some (ucast b)"
| "mms_settings_dconf_get_uint32 (V_Uint16 u) = Some (ucast u)"
| "mms_settings_dconf_get_uint32 (V_Uint64 u) = (if uint u \<le> UINT_MAX then Some (ucast u) else None)"
| "mms_settings_dconf_get_uint32 (V_Double d) =
     (case d of None \<Rightarrow> None
      | Some r \<Rightarrow> if r \<ge> 0 \<and> r \<le> of_int UINT_MAX then Some (word_of_int \<lfloor>r\<rfloor>) else None)"
| "mms_settings_dconf_get_uint32 _ = None"

section \<open>Keys\<close>

text \<open>The functions that set a value.\<close>

definition mms_settings_dconf_update_user_agent ::
    "gvariant \<Rightarrow> mms_settings_sim_data_copy \<Rightarrow> mms_settings_sim_data_copy outcome" where
  "mms_settings_dconf_update_user_agent v dest =
     (case v of V_String s \<Rightarrow> Ret (dest\<lparr>sc_user_agent := Some s, sc_data := (sc_data dest)\<lparr>sd_user_agent := Some s\<rparr>\<rparr>)
      | _ \<Rightarrow> Undef)"

definition mms_settings_dconf_update_uaprof ::
    "gvariant \<Rightarrow> mms_settings_sim_data_copy \<Rightarrow> mms_settings_sim_data_copy outcome" where
  "mms_settings_dconf_update_uaprof v dest =
     (case v of V_String s \<Rightarrow> Ret (dest\<lparr>sc_uaprof := Some s, sc_data := (sc_data dest)\<lparr>sd_uaprof := Some s\<rparr>\<rparr>)
      | _ \<Rightarrow> Undef)"

definition mms_settings_dconf_update_size_limit ::
    "gvariant \<Rightarrow> mms_settings_sim_data_copy \<Rightarrow> mms_settings_sim_data_copy outcome" where
  "mms_settings_dconf_update_size_limit v dest =
     Ret (case mms_settings_dconf_get_uint32 v of
            Some n \<Rightarrow> dest\<lparr>sc_data := (sc_data dest)\<lparr>sd_size_limit := n\<rparr>\<rparr> | None \<Rightarrow> dest)"

definition mms_settings_dconf_update_max_pixels ::
    "gvariant \<Rightarrow> mms_settings_sim_data_copy \<Rightarrow> mms_settings_sim_data_copy outcome" where
  "mms_settings_dconf_update_max_pixels v dest =
     Ret (case mms_settings_dconf_get_uint32 v of
            Some n \<Rightarrow> dest\<lparr>sc_data := (sc_data dest)\<lparr>sd_max_pixels := n\<rparr>\<rparr> | None \<Rightarrow> dest)"

definition mms_settings_dconf_update_allow_dr ::
    "gvariant \<Rightarrow> mms_settings_sim_data_copy \<Rightarrow> mms_settings_sim_data_copy outcome" where
  "mms_settings_dconf_update_allow_dr v dest =
     (case v of V_Boolean b \<Rightarrow> Ret (dest\<lparr>sc_data := (sc_data dest)\<lparr>sd_allow_dr := b\<rparr>\<rparr>) | _ \<Rightarrow> Undef)"

text \<open>The table of keys: which value it sets, its name and the flag of the command line.\<close>

datatype mms_settings_dconf_key = User_Agent | Uaprof | Size_Limit | Max_Pixels | Allow_Dr

fun key_name :: "mms_settings_dconf_key \<Rightarrow> string" where
  "key_name User_Agent = ''user-agent''"
| "key_name Uaprof = ''user-agent-profile''"
| "key_name Size_Limit = ''max-message-size''"
| "key_name Max_Pixels = ''max-pixels''"
| "key_name Allow_Dr = ''allow-delivery-reports''"

fun override_flag :: "mms_settings_dconf_key \<Rightarrow> u32" where
  "override_flag User_Agent = 0x01"
| "override_flag Uaprof = 0x10"
| "override_flag Size_Limit = 0x02"
| "override_flag Max_Pixels = 0x04"
| "override_flag Allow_Dr = 0x08"

fun fn_update :: "mms_settings_dconf_key \<Rightarrow> gvariant \<Rightarrow> mms_settings_sim_data_copy \<Rightarrow> mms_settings_sim_data_copy outcome" where
  "fn_update User_Agent = mms_settings_dconf_update_user_agent"
| "fn_update Uaprof = mms_settings_dconf_update_uaprof"
| "fn_update Size_Limit = mms_settings_dconf_update_size_limit"
| "fn_update Max_Pixels = mms_settings_dconf_update_max_pixels"
| "fn_update Allow_Dr = mms_settings_dconf_update_allow_dr"

definition mms_settings_dconf_keys :: "mms_settings_dconf_key list" where
  "mms_settings_dconf_keys = [User_Agent, Uaprof, Size_Limit, Max_Pixels, Allow_Dr]"

definition mms_settings_dconf_key :: "string \<Rightarrow> mms_settings_dconf_key option" where
  "mms_settings_dconf_key name = find (\<lambda>key. key_name key = name) mms_settings_dconf_keys"

section \<open>The object\<close>

type_synonym dconf_store = "(string \<times> gvariant) list"

text \<open>\<open>dc_watched\<close> are the paths watched in dconf; \<open>dc_client\<close> says whether there is a connection to it.\<close>

record mms_settings_dconf = mms_settings +
  dc_imsi_data :: mms_settings_sim_data_copy
  dc_imsi :: "string option"
  dc_dir :: "string option"
  dc_client :: bool
  dc_watched :: "string list"
  dc_store :: dconf_store

definition mms_settings_dconf_path :: "string \<Rightarrow> string" where
  "mms_settings_dconf_path imsi = ''/imsi/'' @ imsi @ ''/mms/''"

definition mms_settings_dconf_path_old :: "string \<Rightarrow> string" where
  "mms_settings_dconf_path_old imsi = ''/'' @ imsi @ ''/''"

definition mms_settings_dconf_new :: "bool \<Rightarrow> dconf_store \<Rightarrow> mms_settings_sim_data option \<Rightarrow> mms_settings_dconf" where
  "mms_settings_dconf_new client store defaults =
     mms_settings.extend (mms_settings_init\<lparr>st_sim_defaults := mms_settings_sim_data_copy defaults\<rparr>)
       \<lparr>dc_imsi_data = \<lparr>sc_data = \<lparr>sd_user_agent = None, sd_uaprof = None, sd_size_limit = 0, sd_max_pixels = 0, sd_allow_dr = False\<rparr>,
                       sc_user_agent = None, sc_uaprof = None\<rparr>,
        dc_imsi = None, dc_dir = None, dc_client = client, dc_watched = [], dc_store = store\<rparr>"

definition mms_settings_dconf_key_changed :: "string \<Rightarrow> mms_settings_dconf \<Rightarrow> mms_settings_dconf outcome" where
  "mms_settings_dconf_key_changed name dconf =
     (case mms_settings_dconf_key name of
        None \<Rightarrow> Ret dconf
      | Some key \<Rightarrow>
          if override_flag key \<noteq> 0 \<and> st_flags dconf AND override_flag key = override_flag key then Ret dconf
          else (case map_of (dc_store dconf) (the (dc_dir dconf) @ name) of
                  None \<Rightarrow> Ret dconf
                | Some value \<Rightarrow>
                    bind_outcome (fn_update key value (dc_imsi_data dconf)) (\<lambda>d. Ret (dconf\<lparr>dc_imsi_data := d\<rparr>))))"

fun keys_changed :: "string list \<Rightarrow> mms_settings_dconf \<Rightarrow> mms_settings_dconf outcome" where
  "keys_changed [] dconf = Ret dconf"
| "keys_changed (name # names) dconf = bind_outcome (mms_settings_dconf_key_changed name dconf) (keys_changed names)"

definition mms_settings_dconf_changed :: "string \<Rightarrow> string list \<Rightarrow> mms_settings_dconf \<Rightarrow> mms_settings_dconf outcome" where
  "mms_settings_dconf_changed path changes dconf =
     (case dc_dir dconf of
        None \<Rightarrow> Ret dconf
      | Some dir \<Rightarrow>
          if changes \<noteq> [] \<and> hd changes \<noteq> [] then
            (if dir = path then keys_changed changes dconf else Ret dconf)
          else if length path > length dir \<and> has_prefix path dir
          then mms_settings_dconf_key_changed (drop (length dir) path) dconf
          else Ret dconf)"

definition mms_settings_dconf_unwatch :: "mms_settings_dconf \<Rightarrow> mms_settings_dconf" where
  "mms_settings_dconf_unwatch dconf =
     (let dconf = (case dc_dir dconf of
                     None \<Rightarrow> dconf
                   | Some dir \<Rightarrow> dconf\<lparr>dc_watched := fold (\<lambda>key. remove1 (dir @ key_name key)) mms_settings_dconf_keys (dc_watched dconf),
                                      dc_dir := None\<rparr>)
      in dconf\<lparr>dc_imsi := None\<rparr>)"

text \<open>Moving the settings from their old place to the new one; \<open>writable\<close> says whether a path can be written.\<close>

definition migrate_key :: "(string \<Rightarrow> bool) \<Rightarrow> string \<Rightarrow> string \<Rightarrow> string \<Rightarrow> dconf_store \<Rightarrow> dconf_store" where
  "migrate_key writable dir_old dir name store =
     (case mms_settings_dconf_key name of
        None \<Rightarrow> store
      | Some _ \<Rightarrow>
          (case map_of store (dir_old @ name) of
             None \<Rightarrow> store
           | Some value \<Rightarrow>
               if \<not> writable (dir @ name) then store
               else let store = AList.update (dir @ name) value store
                    in if writable (dir_old @ name) then AList.delete (dir_old @ name) store else store))"

text \<open>The loop that reads all settings of a directory.\<close>

fun read_keys :: "mms_settings_dconf_key list \<Rightarrow> string \<Rightarrow> dconf_store \<Rightarrow> mms_settings_sim_data_copy
    \<Rightarrow> mms_settings_sim_data_copy outcome" where
  "read_keys [] dir store d = Ret d"
| "read_keys (key # keys) dir store d =
     bind_outcome (case map_of store (dir @ key_name key) of None \<Rightarrow> Ret d | Some value \<Rightarrow> fn_update key value d)
       (read_keys keys dir store)"

text \<open>\<open>names\<close> is the listing of the old directory.\<close>

definition mms_settings_dconf_get_sim_data ::
    "(string \<Rightarrow> bool) \<Rightarrow> (string \<Rightarrow> dconf_store \<Rightarrow> string list) \<Rightarrow> string option \<Rightarrow> mms_settings_dconf
       \<Rightarrow> (mms_settings_sim_data \<times> mms_settings_dconf) outcome" where
  "mms_settings_dconf_get_sim_data writable listing imsi dconf =
     (if nonempty imsi \<and> dc_client dconf then
        (if dc_imsi dconf \<noteq> imsi then
           let dir = mms_settings_dconf_path (the imsi);
               dir_old = mms_settings_dconf_path_old (the imsi);
               dconf = mms_settings_dconf_unwatch dconf;
               data = mms_settings_sim_data_copy (Some (sc_data (st_sim_defaults dconf)));
               store = fold (migrate_key writable dir_old dir) (listing dir_old (dc_store dconf)) (dc_store dconf);
               dconf = dconf\<lparr>dc_store := store, dc_imsi := imsi, dc_dir := Some dir\<rparr>
           in bind_outcome (read_keys mms_settings_dconf_keys dir store data) (\<lambda>data.
                Ret (sc_data data,
                     dconf\<lparr>dc_imsi_data := data,
                           dc_watched := dc_watched dconf @ map (\<lambda>key. dir @ key_name key) mms_settings_dconf_keys\<rparr>))
         else Ret (sc_data (dc_imsi_data dconf), dconf))
      else Ret (sc_data (st_sim_defaults dconf), dconf))"

section \<open>Numbers\<close>

text \<open>The number a value stands for.\<close>

fun variant_number :: "gvariant \<Rightarrow> rat option" where
  "variant_number (V_Byte b) = Some (of_int (uint b))"
| "variant_number (V_Int16 i) = Some (of_int (sint i))"
| "variant_number (V_Uint16 u) = Some (of_int (uint u))"
| "variant_number (V_Int32 i) = Some (of_int (sint i))"
| "variant_number (V_Uint32 u) = Some (of_int (uint u))"
| "variant_number (V_Int64 i) = Some (of_int (sint i))"
| "variant_number (V_Uint64 u) = Some (of_int (uint u))"
| "variant_number (V_Double d) = d"
| "variant_number _ = None"

lemma uint_of_sint:
  fixes w :: "'a::len word"
  assumes "0 \<le> sint w" shows "uint w = sint w"
proof -
  have "sint w < 2 ^ (LENGTH('a) - 1)" by (rule sint_lt)
  also have "\<dots> \<le> (2 :: int) ^ LENGTH('a)" by (rule power_increasing) simp_all
  finally show ?thesis using assms by (simp add: uint_sint take_bit_int_eq_self)
qed

lemma word_of_rat:
  assumes "0 \<le> r" "r \<le> of_int UINT_MAX"
  shows "uint (word_of_int \<lfloor>r\<rfloor> :: u32) = \<lfloor>r\<rfloor>"
proof -
  have "0 \<le> \<lfloor>r\<rfloor>" "\<lfloor>r\<rfloor> \<le> UINT_MAX" using assms by (auto simp: floor_le_iff)
  then show ?thesis by (simp add: UINT_MAX_def uint_word_of_int take_bit_int_eq_self)
qed

lemma integer_in_range:
  "(\<exists>r. Some (of_int k) = Some r \<and> 0 \<le> r \<and> r \<le> of_int UINT_MAX \<and> i = \<lfloor>r :: rat\<rfloor>) \<longleftrightarrow> 0 \<le> k \<and> k \<le> UINT_MAX \<and> i = k"
  by auto

text \<open>The conversion accepts exactly the values that stand for a number between 0 and \<^verbatim>\<open>UINT_MAX\<close>, whatever type
  of integer or floating point number holds it, and gives that number, rounded down; every other value, a negative
  number or one that is too big, infinite or not a number, is rejected and leaves the setting as it was.\<close>

theorem number_conversion_exact:
  "mms_settings_dconf_get_uint32 v = Some n \<longleftrightarrow>
     (\<exists>r. variant_number v = Some r \<and> 0 \<le> r \<and> r \<le> of_int UINT_MAX \<and> uint n = \<lfloor>r\<rfloor>)"
proof -
  have conv: "Some m = Some n \<longleftrightarrow> uint n = k" if "uint m = k" for m :: u32 and k
    using that by (auto simp: word_uint_eq_iff)
  show ?thesis
  proof (cases v)
    case (V_Byte b)
    have "uint (ucast b :: u32) = uint b" "uint b \<le> UINT_MAX"
      using uint_lt2p[of b] by (simp_all add: unsigned_ucast_eq UINT_MAX_def take_bit_int_eq_self)
    then show ?thesis unfolding V_Byte variant_number.simps integer_in_range using conv by auto
  next
    case (V_Int16 i)
    have "uint (scast i :: u32) = sint i" "sint i \<le> UINT_MAX" if "0 \<le> sint i"
      using sint_lt[of i] that by (simp_all only: scast_eq uint_word_of_int UINT_MAX_def) (simp_all add: take_bit_int_eq_self)
    then show ?thesis unfolding V_Int16 variant_number.simps integer_in_range using conv by auto
  next
    case (V_Uint16 u)
    have "uint (ucast u :: u32) = uint u" "uint u \<le> UINT_MAX"
      using uint_lt2p[of u] by (simp_all add: unsigned_ucast_eq UINT_MAX_def take_bit_int_eq_self)
    then show ?thesis unfolding V_Uint16 variant_number.simps integer_in_range using conv by auto
  next
    case (V_Int32 i)
    have "uint (ucast i :: u32) = sint i" "sint i \<le> UINT_MAX" if "0 \<le> sint i"
      using sint_lt[of i] uint_of_sint[OF that] by (simp_all add: UINT_MAX_def)
    then show ?thesis unfolding V_Int32 variant_number.simps integer_in_range using conv by auto
  next
    case (V_Uint32 u)
    have "uint u \<le> UINT_MAX" using uint_lt2p[of u] by (simp add: UINT_MAX_def)
    then show ?thesis unfolding V_Uint32 variant_number.simps integer_in_range using conv[OF refl] by auto
  next
    case (V_Int64 i)
    have "uint (ucast i :: u32) = sint i" if "0 \<le> sint i" "sint i \<le> UINT_MAX"
      using that uint_of_sint[OF that(1)] by (simp add: unsigned_ucast_eq UINT_MAX_def take_bit_int_eq_self)
    then show ?thesis unfolding V_Int64 variant_number.simps integer_in_range using conv by auto
  next
    case (V_Uint64 u)
    have "uint (ucast u :: u32) = uint u" if "uint u \<le> UINT_MAX"
      using that by (simp add: unsigned_ucast_eq UINT_MAX_def take_bit_int_eq_self)
    then show ?thesis unfolding V_Uint64 variant_number.simps integer_in_range using conv by auto
  next
    case (V_Double d)
    show ?thesis
    proof (cases d)
      case (Some r)
      have "Some (word_of_int \<lfloor>r\<rfloor>) = Some n \<longleftrightarrow> uint n = \<lfloor>r\<rfloor>" if "0 \<le> r" "r \<le> of_int UINT_MAX"
        by (rule conv[OF word_of_rat[OF that]])
      then show ?thesis using V_Double Some by auto
    qed (use V_Double in simp)
  qed simp_all
qed

section \<open>Following the database\<close>

text \<open>A value of the right type for a key, and a database all of whose settings have one.\<close>

fun valid_value :: "mms_settings_dconf_key \<Rightarrow> gvariant \<Rightarrow> bool" where
  "valid_value User_Agent v = (case v of V_String _ \<Rightarrow> True | _ \<Rightarrow> False)"
| "valid_value Uaprof v = (case v of V_String _ \<Rightarrow> True | _ \<Rightarrow> False)"
| "valid_value Size_Limit v = (mms_settings_dconf_get_uint32 v \<noteq> None)"
| "valid_value Max_Pixels v = (mms_settings_dconf_get_uint32 v \<noteq> None)"
| "valid_value Allow_Dr v = (case v of V_Boolean _ \<Rightarrow> True | _ \<Rightarrow> False)"

definition names_key :: "mms_settings_dconf_key \<Rightarrow> string \<Rightarrow> bool" where
  "names_key key path \<longleftrightarrow> has_prefix (rev path) (rev (CHR ''/'' # key_name key))"

definition store_ok :: "dconf_store \<Rightarrow> bool" where
  "store_ok store \<longleftrightarrow>
     list_all (\<lambda>(path, v). list_all (\<lambda>key. names_key key path \<longrightarrow> valid_value key v) mms_settings_dconf_keys) store"

fun set_key :: "mms_settings_dconf_key \<Rightarrow> gvariant \<Rightarrow> mms_settings_sim_data_copy \<Rightarrow> mms_settings_sim_data_copy" where
  "set_key User_Agent (V_String s) d = d\<lparr>sc_user_agent := Some s, sc_data := (sc_data d)\<lparr>sd_user_agent := Some s\<rparr>\<rparr>"
| "set_key Uaprof (V_String s) d = d\<lparr>sc_uaprof := Some s, sc_data := (sc_data d)\<lparr>sd_uaprof := Some s\<rparr>\<rparr>"
| "set_key Size_Limit v d =
     d\<lparr>sc_data := (sc_data d)\<lparr>sd_size_limit := the (mms_settings_dconf_get_uint32 v)\<rparr>\<rparr>"
| "set_key Max_Pixels v d =
     d\<lparr>sc_data := (sc_data d)\<lparr>sd_max_pixels := the (mms_settings_dconf_get_uint32 v)\<rparr>\<rparr>"
| "set_key Allow_Dr (V_Boolean b) d = d\<lparr>sc_data := (sc_data d)\<lparr>sd_allow_dr := b\<rparr>\<rparr>"
| "set_key _ _ d = d"

lemmas fn_update_defs =
  mms_settings_dconf_update_user_agent_def mms_settings_dconf_update_uaprof_def mms_settings_dconf_update_size_limit_def
  mms_settings_dconf_update_max_pixels_def mms_settings_dconf_update_allow_dr_def

lemma valid_update: "valid_value key v \<Longrightarrow> fn_update key v d = Ret (set_key key v d)"
  by (cases key) (auto simp: fn_update_defs split: gvariant.splits)

lemma set_key_again [simp]: "valid_value key v \<Longrightarrow> set_key key v (set_key key w d) = set_key key v d"
  by (cases key; cases v; cases w) simp_all

text \<open>Each key sets a part of its own.\<close>

lemma set_key_forms:
  "\<exists>f. set_key User_Agent v = (\<lambda>d. case f of None \<Rightarrow> d
     | Some s \<Rightarrow> d\<lparr>sc_user_agent := s, sc_data := (sc_data d)\<lparr>sd_user_agent := s\<rparr>\<rparr>)"
  "\<exists>f. set_key Uaprof v = (\<lambda>d. case f of None \<Rightarrow> d | Some s \<Rightarrow> d\<lparr>sc_uaprof := s, sc_data := (sc_data d)\<lparr>sd_uaprof := s\<rparr>\<rparr>)"
  "\<exists>f. set_key Allow_Dr v = (\<lambda>d. case f of None \<Rightarrow> d | Some b \<Rightarrow> d\<lparr>sc_data := (sc_data d)\<lparr>sd_allow_dr := b\<rparr>\<rparr>)"
  by (cases v; force intro: ext exI [of _ None] exI [of _ "Some _"])+

lemma set_key_commute: "key \<noteq> key' \<Longrightarrow> set_key key v (set_key key' w d) = set_key key' w (set_key key v d)"
  using set_key_forms [of v] set_key_forms [of w] by (cases key; cases key') (auto split: option.split)

lemma keys_complete [simp]: "key \<in> set mms_settings_dconf_keys"
  by (cases key) (simp_all add: mms_settings_dconf_keys_def)

lemma distinct_keys [simp]: "distinct mms_settings_dconf_keys"
  by (simp add: mms_settings_dconf_keys_def)

lemma key_name_inject [simp]: "key_name key = key_name key' \<longleftrightarrow> key = key'"
  by (cases key; cases key') simp_all

lemma key_of_name: "mms_settings_dconf_key name = Some key \<longleftrightarrow> name = key_name key"
proof -
  have "mms_settings_dconf_key (key_name key) = Some key" by (cases key) (simp_all add: mms_settings_dconf_key_def mms_settings_dconf_keys_def)
  then show ?thesis by (auto simp: mms_settings_dconf_key_def find_Some_iff)
qed

lemma key_known [simp]: "mms_settings_dconf_key (key_name key) = Some key"
  by (simp add: key_of_name)

lemma names_key_path [simp]: "names_key key (d @ CHR ''/'' # key_name key') \<longleftrightarrow> key = key'"
  by (cases key; cases key'; simp add: names_key_def has_prefix_def)

lemma store_ok_value:
  assumes "store_ok store" "map_of store (d @ CHR ''/'' # key_name key) = Some v"
  shows "valid_value key v"
proof -
  have "(d @ CHR ''/'' # key_name key, v) \<in> set store" using assms(2) by (rule map_of_SomeD)
  with assms(1) have "\<forall>k \<in> set mms_settings_dconf_keys. names_key k (d @ CHR ''/'' # key_name key) \<longrightarrow> valid_value k v"
    by (auto simp: store_ok_def list_all_iff)
  then show ?thesis by (metis keys_complete names_key_path)
qed



text \<open>What the settings in a directory of the database are.\<close>

definition stored_key :: "string \<Rightarrow> dconf_store \<Rightarrow> mms_settings_dconf_key \<Rightarrow> mms_settings_sim_data_copy \<Rightarrow> mms_settings_sim_data_copy" where
  "stored_key dir store key d = (case map_of store (dir @ key_name key) of None \<Rightarrow> d | Some v \<Rightarrow> set_key key v d)"

definition stored :: "string \<Rightarrow> dconf_store \<Rightarrow> mms_settings_sim_data_copy \<Rightarrow> mms_settings_sim_data_copy" where
  "stored dir store d = fold (stored_key dir store) mms_settings_dconf_keys d"

text \<open>A directory is a path that ends with a slash.\<close>

definition is_dir :: "string \<Rightarrow> bool" where
  "is_dir dir \<longleftrightarrow> dir \<noteq> [] \<and> List.last dir = CHR ''/''"

lemma is_dir_path [simp]: "is_dir (mms_settings_dconf_path imsi)" "is_dir (mms_settings_dconf_path_old imsi)"
  by (simp_all add: is_dir_def mms_settings_dconf_path_def mms_settings_dconf_path_old_def)

lemma dir_value: "is_dir dir \<Longrightarrow> store_ok store \<Longrightarrow> map_of store (dir @ key_name key) = Some v \<Longrightarrow> valid_value key v"
  using store_ok_value[of store "butlast dir" key v] append_butlast_last_id[of dir]
  by (metis append.assoc append_Cons append_Nil is_dir_def)

lemma read_keys_stored:
  "is_dir dir \<Longrightarrow> store_ok store \<Longrightarrow> read_keys mms_settings_dconf_keys dir store d = Ret (stored dir store d)"
proof -
  assume *: "is_dir dir" "store_ok store"
  have "read_keys keys dir store d = Ret (fold (stored_key dir store) keys d)" for keys d
  proof (induction keys arbitrary: d)
    case (Cons key keys)
    then show ?case
      using dir_value[OF *, of key] valid_update[of key] by (auto simp: stored_key_def split: option.splits)
  qed simp
  then show ?thesis by (simp add: stored_def)
qed

lemma stored_keys_commute:
  "key \<notin> set keys \<Longrightarrow> fold (stored_key dir store) keys (set_key key v d) = set_key key v (fold (stored_key dir store) keys d)"
proof (induction keys arbitrary: d)
  case (Cons k keys)
  have "stored_key dir store k (set_key key v d) = set_key key v (stored_key dir store k d)"
    using Cons.prems by (auto simp: stored_key_def set_key_commute split: option.splits)
  with Cons show ?case by simp
qed simp

text \<open>Setting one value in the database sets it in the settings.\<close>

lemma stored_update:
  assumes dir: "is_dir dir" and valid: "valid_value key v"
    and new: "map_of store' (dir @ key_name key) = Some v"
    and others: "\<And>k. k \<noteq> key \<Longrightarrow> map_of store' (dir @ key_name k) = map_of store (dir @ key_name k)"
  shows "stored dir store' d = set_key key v (stored dir store d)"
proof -
  obtain as bs where keys: "mms_settings_dconf_keys = as @ key # bs"
    by (meson keys_complete split_list)
  then have fresh: "key \<notin> set as" "key \<notin> set bs" using distinct_keys by (metis distinct.simps(2) distinct_append disjoint_insert(1) list.set(2))+
  have same: "fold (stored_key dir store') ks d = fold (stored_key dir store) ks d" if "key \<notin> set ks" for ks d
    using that by (induction ks arbitrary: d) (auto simp: stored_key_def others)
  have "stored dir store' d = fold (stored_key dir store) bs (set_key key v (fold (stored_key dir store) as d))"
    unfolding stored_def keys using fresh by (simp add: same) (simp add: stored_key_def[of dir store' key] new)
  also have "\<dots> = set_key key v (fold (stored_key dir store) bs (fold (stored_key dir store) as d))"
    using fresh by (simp add: stored_keys_commute)
  also have "\<dots> = set_key key v (stored dir store d)"
    using fresh valid by (auto simp: stored_def keys stored_key_def[of dir store key] stored_keys_commute split: option.splits)
  finally show ?thesis .
qed

text \<open>What the data of a SIM say for one key.\<close>

datatype setting_value = Text_Setting "string option" | Number_Setting u32 | Switch_Setting bool

fun setting :: "mms_settings_dconf_key \<Rightarrow> mms_settings_sim_data \<Rightarrow> setting_value" where
  "setting User_Agent d = Text_Setting (sd_user_agent d)"
| "setting Uaprof d = Text_Setting (sd_uaprof d)"
| "setting Size_Limit d = Number_Setting (sd_size_limit d)"
| "setting Max_Pixels d = Number_Setting (sd_max_pixels d)"
| "setting Allow_Dr d = Switch_Setting (sd_allow_dr d)"

lemma setting_other [simp]: "k \<noteq> key \<Longrightarrow> setting key (sc_data (set_key k v d)) = setting key (sc_data d)"
  by (cases key; cases k; cases v) simp_all




section \<open>The life of the object\<close>

text \<open>A task asks for the settings of a SIM; dconf reports changes; something writes a value or resets it, and dconf
  reports that.\<close>

datatype dconf_event = Ask "string option" | Signal string "string list" | Written string "gvariant option"

definition store_write :: "string \<Rightarrow> gvariant option \<Rightarrow> dconf_store \<Rightarrow> dconf_store" where
  "store_write path v store =
     (case v of None \<Rightarrow> AList.delete path store | Some v \<Rightarrow> AList.update path v store)"

fun dconf_step ::
    "(string \<Rightarrow> bool) \<Rightarrow> (string \<Rightarrow> dconf_store \<Rightarrow> string list) \<Rightarrow> dconf_event \<Rightarrow> mms_settings_dconf \<Rightarrow> mms_settings_dconf outcome" where
  "dconf_step writable listing (Ask imsi) s =
     bind_outcome (mms_settings_dconf_get_sim_data writable listing imsi s) (\<lambda>(d, s). Ret s)"
| "dconf_step writable listing (Signal path changes) s = mms_settings_dconf_changed path changes s"
| "dconf_step writable listing (Written path v) s =
     mms_settings_dconf_changed path [[]] (s\<lparr>dc_store := store_write path v (dc_store s)\<rparr>)"

fun dconf_run ::
    "(string \<Rightarrow> bool) \<Rightarrow> (string \<Rightarrow> dconf_store \<Rightarrow> string list) \<Rightarrow> dconf_event list \<Rightarrow> mms_settings_dconf \<Rightarrow> mms_settings_dconf outcome" where
  "dconf_run writable listing [] s = Ret s"
| "dconf_run writable listing (e # es) s = bind_outcome (dconf_step writable listing e s) (dconf_run writable listing es)"






lemma names_key_dir: "is_dir dir \<Longrightarrow> names_key k (dir @ key_name key) \<longleftrightarrow> k = key"
  using names_key_path[of k "butlast dir" key] append_butlast_last_id[of dir]
  by (metis append.assoc append_Cons append_Nil is_dir_def)













lemma old_dir_not_new [simp]: "mms_settings_dconf_path_old imsi \<noteq> mms_settings_dconf_path imsi"
proof
  assume "mms_settings_dconf_path_old imsi = mms_settings_dconf_path imsi"
  from arg_cong[OF this, of size] show False
    by (simp add: mms_settings_dconf_path_old_def mms_settings_dconf_path_def)
qed

lemma old_is_not_new:
  "mms_settings_dconf_path_old imsi @ key_name key \<noteq> mms_settings_dconf_path imsi @ key_name key'"
proof
  assume eq: "mms_settings_dconf_path_old imsi @ key_name key = mms_settings_dconf_path imsi @ key_name key'"
  have "key = key'"
    using names_key_dir[OF is_dir_path(1), of key imsi key'] names_key_dir[OF is_dir_path(2), of key imsi key] eq by simp
  with eq show False by simp
qed



section \<open>Properties\<close>



text \<open>C35. What the command line fixes is not fixed: the settings of a SIM that are read when it is first asked for do
  not depend on the flags of the command line, so a value of the database replaces that of the command line.\<close>

theorem override_not_respected:
  assumes "dc_client s" and "nonempty imsi" and "dc_imsi s \<noteq> imsi" and "valid_value key v"
    and "map_of (dc_store s) (mms_settings_dconf_path (the imsi) @ key_name key) = Some v"
    and "store_ok (dc_store s)"
  shows "\<exists>d s'. mms_settings_dconf_get_sim_data writable (\<lambda>dir store. []) imsi (s\<lparr>st_flags := flags\<rparr>) = Ret (d, s')
       \<and> dc_imsi_data s' = set_key key v (dc_imsi_data s')"
proof -
  let ?dir = "mms_settings_dconf_path (the imsi)"
  have un: "dc_store (mms_settings_dconf_unwatch t) = dc_store t" for t
    by (simp add: mms_settings_dconf_unwatch_def Let_def split: option.splits)
  have "stored ?dir (dc_store s) d = set_key key v (stored ?dir (dc_store s) d)" for d
    by (rule stored_update[OF is_dir_path(1) assms(4,5)]) simp
  with assms un show ?thesis
    by (simp add: mms_settings_dconf_get_sim_data_def Let_def read_keys_stored)
qed

lemma override_not_respected_witness:
  "\<exists>d s'. mms_settings_dconf_get_sim_data (\<lambda>path. True) (\<lambda>dir store. []) (Some ''1'')
     ((mms_settings_dconf_new True [(''/imsi/1/mms/user-agent'', V_String ''A'')] None)\<lparr>st_flags := 0x01\<rparr>) = Ret (d, s')
   \<and> dc_imsi_data s' = set_key User_Agent (V_String ''A'') (dc_imsi_data s')"
  by (rule override_not_respected)
    (simp_all add: mms_settings_dconf_new_def mms_settings.extend_def nonempty_def mms_settings_dconf_path_def store_ok_def
      mms_settings_dconf_keys_def names_key_def has_prefix_def)

lemma migrate_key_map:
  "migrate_key (\<lambda>path. True) old dir (key_name key) store =
     (case map_of store (old @ key_name key) of
        None \<Rightarrow> store
      | Some v \<Rightarrow> AList.delete (old @ key_name key) (AList.update (dir @ key_name key) v store))"
  by (simp add: migrate_key_def Let_def split: option.splits)

lemma migrate_others:
  assumes "key_name key \<notin> set names" and "d = mms_settings_dconf_path_old imsi \<or> d = mms_settings_dconf_path imsi"
  shows "map_of (fold (migrate_key (\<lambda>path. True) (mms_settings_dconf_path_old imsi) (mms_settings_dconf_path imsi)) names store)
           (d @ key_name key) = map_of store (d @ key_name key)"
  using assms(1)
proof (induction names arbitrary: store)
  case (Cons name names)
  have "map_of (migrate_key (\<lambda>path. True) (mms_settings_dconf_path_old imsi) (mms_settings_dconf_path imsi) name store) (d @ key_name key)
      = map_of store (d @ key_name key)"
  proof (cases "mms_settings_dconf_key name")
    case (Some k)
    then have "name = key_name k" "k \<noteq> key" using Cons.prems by (auto simp: key_of_name)
    with assms(2) show ?thesis
      by (auto simp: migrate_key_map update_conv' delete_conv' old_is_not_new old_is_not_new[symmetric] split: option.splits)
  qed (simp add: migrate_key_def)
  with Cons show ?case by simp
qed simp

text \<open>Moving the settings to their new place: when everything can be written, every known setting that is listed in
  the old directory and has a value there is afterwards in the new directory, with that value, and no longer in the
  old one.\<close>

theorem settings_migrated:
  assumes "distinct names" and "key_name key \<in> set names"
    and "map_of store (mms_settings_dconf_path_old imsi @ key_name key) = Some v"
  shows "let store' = fold (migrate_key (\<lambda>path. True) (mms_settings_dconf_path_old imsi) (mms_settings_dconf_path imsi)) names store
         in map_of store' (mms_settings_dconf_path imsi @ key_name key) = Some v
          \<and> map_of store' (mms_settings_dconf_path_old imsi @ key_name key) = None"
proof -
  obtain as bs where names: "names = as @ key_name key # bs" "key_name key \<notin> set as" "key_name key \<notin> set bs"
    using assms(1,2) by (metis distinct.simps(2) distinct_append disjoint_insert(1) list.set(2) split_list)
  show ?thesis
    using assms(3) old_dir_not_new[of imsi, symmetric]
    by (simp add: names migrate_others Let_def migrate_key_map update_conv' delete_conv')
qed

lemma settings_migrated_witness:
  "map_of (fold (migrate_key (\<lambda>path. True) (mms_settings_dconf_path_old ''1'') (mms_settings_dconf_path ''1''))
     [''max-pixels'', ''other''] [(''/1/max-pixels'', V_Uint32 9), (''/1/other'', V_Other)])
     (mms_settings_dconf_path ''1'' @ ''max-pixels'') = Some (V_Uint32 9)"
  using settings_migrated[of "[''max-pixels'', ''other'']" Max_Pixels
    "[(''/1/max-pixels'', V_Uint32 9), (''/1/other'', V_Other)]" "''1''" "V_Uint32 9"]
  by (simp add: Let_def mms_settings_dconf_path_old_def)

text \<open>A value that is removed from the database is not noticed: the setting keeps its last value until the next start.\<close>

lemma reset_not_noticed:
  "dc_dir s = Some dir \<Longrightarrow> map_of (dc_store s) (dir @ name) = None \<Longrightarrow> mms_settings_dconf_key_changed name s = Ret s"
  by (simp add: mms_settings_dconf_key_changed_def split: option.splits)

text \<open>What is watched in dconf are the settings of the SIM in use, and nothing when the object is disposed of.\<close>

definition watched_ok :: "mms_settings_dconf \<Rightarrow> bool" where
  "watched_ok s \<longleftrightarrow> dc_watched s = (case dc_dir s of None \<Rightarrow> [] | Some dir \<Rightarrow> map (\<lambda>key. dir @ key_name key) mms_settings_dconf_keys)"

lemma unwatch_all: "watched_ok s \<Longrightarrow> dc_watched (mms_settings_dconf_unwatch s) = []"
  by (simp add: watched_ok_def mms_settings_dconf_unwatch_def Let_def mms_settings_dconf_keys_def split: option.splits)

lemma key_changed_watched:
  "mms_settings_dconf_key_changed name s = Ret s' \<Longrightarrow> dc_watched s' = dc_watched s \<and> dc_dir s' = dc_dir s"
  by (auto simp: mms_settings_dconf_key_changed_def split: option.splits if_splits)

lemma keys_changed_watched:
  "keys_changed names s = Ret s' \<Longrightarrow> dc_watched s' = dc_watched s \<and> dc_dir s' = dc_dir s"
  by (induction names arbitrary: s) (auto dest: key_changed_watched)

lemma changed_watched:
  "mms_settings_dconf_changed path changes s = Ret s' \<Longrightarrow> dc_watched s' = dc_watched s \<and> dc_dir s' = dc_dir s"
  by (auto simp: mms_settings_dconf_changed_def dest: key_changed_watched keys_changed_watched split: option.splits if_splits)

lemma step_watched:
  assumes "watched_ok s" "dconf_step writable listing e s = Ret s'"
  shows "watched_ok s'"
proof (cases e)
  case (Ask imsi)
  with assms show ?thesis
    using unwatch_all[OF assms(1)]
    by (auto simp: mms_settings_dconf_get_sim_data_def Let_def watched_ok_def split: if_splits)
next
  case (Signal path changes)
  with assms changed_watched[of path changes s s'] show ?thesis by (simp add: watched_ok_def)
next
  case (Written path v)
  with assms changed_watched[of path "[[]]" "s\<lparr>dc_store := store_write path v (dc_store s)\<rparr>" s'] show ?thesis
    by (simp add: watched_ok_def)
qed

lemma run_watched:
  "watched_ok s \<Longrightarrow> dconf_run writable listing es s = Ret s' \<Longrightarrow> watched_ok s'"
  by (induction es arbitrary: s) (auto dest: step_watched)

text \<open>Exactly the five settings of the SIM in use are watched in dconf, once each, and the end of the object stops
  watching them.\<close>

theorem watches_balanced:
  assumes "dconf_run writable listing events (mms_settings_dconf_new client store defaults) = Ret s"
  shows "dc_watched s = (case dc_dir s of None \<Rightarrow> [] | Some dir \<Rightarrow> map (\<lambda>key. dir @ key_name key) mms_settings_dconf_keys)
       \<and> dc_watched (mms_settings_dconf_unwatch s) = []"
proof -
  have "watched_ok (mms_settings_dconf_new client store defaults)"
    by (simp add: watched_ok_def mms_settings_dconf_new_def mms_settings.extend_def)
  from run_watched[OF this assms] show ?thesis using unwatch_all by (simp add: watched_ok_def)
qed

lemma watches_balanced_witness:
  "length (dc_watched (case dconf_run (\<lambda>path. True) (\<lambda>dir store. []) [Ask (Some ''1''), Ask (Some ''2'')]
     (mms_settings_dconf_new True [] None) of Ret s \<Rightarrow> s | Undef \<Rightarrow> mms_settings_dconf_new True [] None)) = 5"
proof -
  obtain s where s: "dconf_run (\<lambda>path. True) (\<lambda>dir store. []) [Ask (Some ''1''), Ask (Some ''2'')]
      (mms_settings_dconf_new True [] None) = Ret s" "dc_dir s \<noteq> None"
    by (cases "dconf_run (\<lambda>path. True) (\<lambda>dir store. []) [Ask (Some ''1''), Ask (Some ''2'')] (mms_settings_dconf_new True [] None)")
      (auto simp: mms_settings_dconf_get_sim_data_def nonempty_def mms_settings_dconf_new_def mms_settings.extend_def
        mms_settings_dconf_unwatch_def Let_def mms_settings_dconf_keys_def)
  with watches_balanced[OF s(1)] show ?thesis by (auto simp: mms_settings_dconf_keys_def)
qed

end
