(* ===== verification/Mms_Service.thy ===== *)
theory Mms_Service
  imports Task_Lifecycle Settings_Dconf
begin

text \<open>
  The service, \<^verbatim>\<open>mms-engine/mms_engine.c\<close>: the methods of the engine on D-Bus, each of which becomes a call of the
  dispatcher, and when the process ends: some time after the dispatcher has nothing left to do, or when it is asked to.

  A source of GLib's main loop is a flag (the idle timer) or a number (the callbacks that end the main loop). The
  contents of the files and descriptors that a client passes, and the decision of the access policy, are parameters.
  The delegate of the dispatcher is called at the point where the dispatcher tells \<^const>\<open>Dispatcher_Done\<close>; nothing that
  the dispatcher does after that in the same callback concerns it.
\<close>

section \<open>The object\<close>

datatype mms_engine_action =
    ENGINE_NONE | ENGINE_CANCEL | ENGINE_RECEIVE_MESSAGE | ENGINE_SEND_READ_REPORT | ENGINE_SEND_MESSAGE | ENGINE_SEND_MESSAGE_FD
  | ENGINE_PUSH | ENGINE_PUSH_NOTIFY | ENGINE_SET_LOG_LEVEL | ENGINE_SET_LOG_TYPE | ENGINE_GET_VERSION
  | ENGINE_MIGRATE_SETTINGS | ENGINE_EXIT

datatype service_reply = Reply_Denied | Reply_Error string | Reply_Failed | Reply_OK | Reply_Imsi string

record 'u mms_service =
  sv_dispatcher :: "(request, 'u task_object) mms_dispatcher"
  sv_settings :: mms_settings_dconf
  sv_loop :: bool
  sv_stopped :: bool
  sv_stop_requested :: bool
  sv_keep_running :: bool
  sv_disable_dbus_log :: bool
  sv_idle_timer :: bool
  sv_stop_pending :: nat
  sv_files :: files
  sv_file_ops :: "file_op list"

section \<open>The end of the process\<close>

definition mms_engine_stop_callback :: "'u mms_service \<Rightarrow> 'u mms_service" where
  "mms_engine_stop_callback s =
     (let s = s\<lparr>sv_stopped := True\<rparr>;
          s = (if sv_loop s then s\<lparr>sv_loop := False\<rparr> else s)
      in s\<lparr>sv_stop_pending := sv_stop_pending s - 1\<rparr>)"

definition mms_engine_stop_schedule :: "'u mms_service \<Rightarrow> 'u mms_service" where
  "mms_engine_stop_schedule s = s\<lparr>sv_stop_pending := sv_stop_pending s + 1\<rparr>"

definition mms_engine_idle_timer_expired :: "'u mms_service \<Rightarrow> 'u mms_service" where
  "mms_engine_idle_timer_expired s = mms_engine_stop_schedule (s\<lparr>sv_idle_timer := False\<rparr>)"

definition mms_engine_idle_timer_stop :: "'u mms_service \<Rightarrow> 'u mms_service" where
  "mms_engine_idle_timer_stop s = (if sv_idle_timer s then s\<lparr>sv_idle_timer := False\<rparr> else s)"

definition mms_engine_idle_timer_check :: "'u mms_service \<Rightarrow> 'u mms_service" where
  "mms_engine_idle_timer_check s =
     (let s = mms_engine_idle_timer_stop s
      in if \<not> mms_dispatcher_is_started (sv_dispatcher s) \<and> \<not> sv_keep_running s then s\<lparr>sv_idle_timer := True\<rparr> else s)"

definition mms_engine_delegate_dispatcher_done :: "'u mms_service \<Rightarrow> 'u mms_service" where
  "mms_engine_delegate_dispatcher_done s =
     (if sv_stop_requested s then mms_engine_stop_schedule s else mms_engine_idle_timer_check s)"

text \<open>What the dispatcher has done, with the calls of its delegate.\<close>

definition done_count :: "('q, 'a) mms_dispatcher \<Rightarrow> nat" where
  "done_count d = length (filter (\<lambda>c. c = Dispatcher_Done) (d_calls d))"

definition with_dispatcher :: "(request, 'u task_object) mms_dispatcher \<Rightarrow> 'u mms_service \<Rightarrow> 'u mms_service" where
  "with_dispatcher d s =
     (mms_engine_delegate_dispatcher_done ^^ (done_count d - done_count (sv_dispatcher s))) (s\<lparr>sv_dispatcher := d\<rparr>)"

definition mms_engine_stop :: "('it, 'mi, 'u, 's) engine_env \<Rightarrow> int \<Rightarrow> 'u mms_service \<Rightarrow> 'u mms_service" where
  "mms_engine_stop en now s =
     (if mms_dispatcher_is_active (sv_dispatcher s)
      then let s = s\<lparr>sv_stop_requested := True\<rparr>
           in with_dispatcher (mms_dispatcher_cancel (engine_dispatcher en) now None (sv_dispatcher s)) s
      else mms_engine_stop_schedule s)"

text \<open>\<^verbatim>\<open>mms_engine_run\<close> up to the main loop, and after it.\<close>

definition mms_engine_run_start :: "bool \<Rightarrow> 'u mms_service \<Rightarrow> 'u mms_service" where
  "mms_engine_run_start root_dir_ok s =
     (let s = s\<lparr>sv_loop := True, sv_stopped := False, sv_stop_requested := False\<rparr>;
          s = s\<lparr>sv_dispatcher := snd (mms_dispatcher_start root_dir_ok (sv_dispatcher s))\<rparr>
      in mms_engine_idle_timer_check s)"

definition mms_engine_run_end :: "'u mms_service \<Rightarrow> 'u mms_service" where
  "mms_engine_run_end s = (mms_engine_idle_timer_stop s)\<lparr>sv_loop := False\<rparr>"

section \<open>A new engine\<close>

abbreviation MMS_ENGINE_FLAG_KEEP_RUNNING :: u32 where "MMS_ENGINE_FLAG_KEEP_RUNNING \<equiv> 0x01"
abbreviation MMS_ENGINE_FLAG_DISABLE_DBUS_LOG :: u32 where "MMS_ENGINE_FLAG_DISABLE_DBUS_LOG \<equiv> 0x20"

definition flags_map :: "(u32 \<times> u32) list" where
  "flags_map = [(0x02, override_flag User_Agent), (0x10, override_flag Uaprof), (0x04, override_flag Size_Limit),
                (0x08, override_flag Max_Pixels)]"

definition mms_engine_new ::
    "bool \<Rightarrow> bool \<Rightarrow> dconf_store \<Rightarrow> mms_settings_sim_data option \<Rightarrow> files \<Rightarrow> u32 \<Rightarrow> 'u mms_service option" where
  "mms_engine_new connman_ok client store defaults fs flags =
     (if \<not> connman_ok then None
      else let settings = mms_settings_dconf_new client store defaults;
          settings = fold (\<lambda>(engine_flag, settings_flag) st.
             if flags AND engine_flag \<noteq> 0 then st\<lparr>st_flags := st_flags st OR settings_flag\<rparr> else st) flags_map settings
      in Some \<lparr>sv_dispatcher = mms_dispatcher_new True, sv_settings = settings, sv_loop = False, sv_stopped = False,
          sv_stop_requested = False, sv_keep_running = (flags AND MMS_ENGINE_FLAG_KEEP_RUNNING \<noteq> 0),
          sv_disable_dbus_log = (flags AND MMS_ENGINE_FLAG_DISABLE_DBUS_LOG \<noteq> 0), sv_idle_timer = False,
          sv_stop_pending = 0, sv_files = fs, sv_file_ops = []\<rparr>)"

section \<open>Methods\<close>

definition mms_engine_dbus_access_allowed :: "('p \<Rightarrow> mms_engine_action \<Rightarrow> bool) \<Rightarrow> 'p option \<Rightarrow> mms_engine_action \<Rightarrow> bool" where
  "mms_engine_dbus_access_allowed check peer action = (case peer of None \<Rightarrow> False | Some p \<Rightarrow> check p action)"

text \<open>The loops over the attachments, each with its name, type and id; beside what has been collected they give whether
  an error has been set. A file or descriptor is given with what mapping it gives.\<close>

definition attachment_info :: "byte list \<Rightarrow> string \<times> string \<times> string \<Rightarrow> mms_attachment_info" where
  "attachment_info data names =
     (case names of (fn, ct, cid) \<Rightarrow> \<lparr>ai_data = data, ai_file_name = fn, ai_content_type = Some ct, ai_content_id = Some cid\<rparr>)"

fun path_attachments ::
    "(string \<Rightarrow> byte list option) \<Rightarrow> (string \<times> string \<times> string) list \<Rightarrow> mms_attachment_info list \<times> bool" where
  "path_attachments map_path [] = ([], False)"
| "path_attachments map_path ((fn, ct, cid) # as) =
     (case map_path fn of
        None \<Rightarrow> ([], True)
      | Some data \<Rightarrow> (case path_attachments map_path as of (ais, error) \<Rightarrow> (attachment_info data (fn, ct, cid) # ais, error)))"

fun fd_attachments ::
    "byte list option list \<Rightarrow> (int \<times> string \<times> string \<times> string) list \<Rightarrow> mms_attachment_info list \<times> bool" where
  "fd_attachments fds [] = ([], False)"
| "fd_attachments fds ((fdi, fn, ct, cid) # as) =
     (if fdi \<ge> 0 \<and> fdi < int (length fds)
      then (case fds ! nat fdi of
              None \<Rightarrow> ([], True)
            | Some data \<Rightarrow> (case fd_attachments fds as of (ais, error) \<Rightarrow> (attachment_info data (fn, ct, cid) # ais, error)))
      else ([], False))"

text \<open>\<^verbatim>\<open>g_strdup_printf("%d", ...)\<close>.\<close>

definition show_int :: "int \<Rightarrow> string" where
  "show_int i = (if i < 0 then CHR ''-'' # show_nat (nat (- i)) else show_nat (nat i))"

definition address_list :: "string list \<Rightarrow> string option" where
  "address_list as = (if as = [] then None else Some (join_with '','' as))"

definition queue_message ::
    "('it, 'mi, 'u, 's) engine_env \<Rightarrow> int \<Rightarrow> bool \<Rightarrow> int \<Rightarrow> string option \<Rightarrow> string list \<Rightarrow> string list \<Rightarrow> string list
       \<Rightarrow> string option \<Rightarrow> u32 \<Rightarrow> mms_attachment_info list \<times> bool \<Rightarrow> 'u mms_service \<Rightarrow> (service_reply \<times> 'u mms_service) outcome" where
  "queue_message en now root_dir_ok database_id imsi_to to cc bcc subject flags attachments s =
     (case attachments of (ais, error) \<Rightarrow>
        if error then Ret (Reply_Failed, s)
        else bind_outcome
          (mms_dispatcher_send_message en now (if database_id > 0 then Some (show_nat (nat database_id)) else None)
             imsi_to (Some (join_with '','' to)) (address_list cc) (address_list bcc) subject flags ais (sv_files s) (sv_dispatcher s))
          (\<lambda>(imsi, d, fs).
             let s = s\<lparr>sv_dispatcher := d, sv_files := fs\<rparr>
             in case imsi of
                  None \<Rightarrow> Ret (Reply_Failed, s)
                | Some i \<Rightarrow> Ret (Reply_Imsi i, s\<lparr>sv_dispatcher := snd (mms_dispatcher_start root_dir_ok d)\<rparr>)))"

text \<open>Every method but \<^verbatim>\<open>exit\<close> ends with the check of the idle timer.\<close>

definition checked :: "(service_reply \<times> 'u mms_service) outcome \<Rightarrow> (service_reply \<times> 'u mms_service) outcome" where
  "checked r = bind_outcome r (\<lambda>(reply, s). Ret (reply, mms_engine_idle_timer_check s))"

definition mms_engine_handle_send_message ::
    "('p \<Rightarrow> mms_engine_action \<Rightarrow> bool) \<Rightarrow> 'p option \<Rightarrow> ('it, 'mi, 'u, 's) engine_env \<Rightarrow> int \<Rightarrow> bool
       \<Rightarrow> (string \<Rightarrow> byte list option) \<Rightarrow> int \<Rightarrow> string option \<Rightarrow> string list \<Rightarrow> string list \<Rightarrow> string list \<Rightarrow> string option \<Rightarrow> u32
       \<Rightarrow> (string \<times> string \<times> string) list \<Rightarrow> 'u mms_service \<Rightarrow> (service_reply \<times> 'u mms_service) outcome" where
  "mms_engine_handle_send_message check peer en now root_dir_ok map_path database_id imsi_to to cc bcc subject flags attachments s =
     checked
       (if \<not> mms_engine_dbus_access_allowed check peer ENGINE_SEND_MESSAGE then Ret (Reply_Denied, s)
        else if to \<noteq> []
        then queue_message en now root_dir_ok database_id imsi_to to cc bcc subject flags (path_attachments map_path attachments) s
        else Ret (Reply_Error ''Missing recipient'', s))"

definition mms_engine_handle_send_message_fd ::
    "('p \<Rightarrow> mms_engine_action \<Rightarrow> bool) \<Rightarrow> 'p option \<Rightarrow> ('it, 'mi, 'u, 's) engine_env \<Rightarrow> int \<Rightarrow> bool
       \<Rightarrow> byte list option list \<Rightarrow> int \<Rightarrow> string option \<Rightarrow> string list \<Rightarrow> string list \<Rightarrow> string list \<Rightarrow> string option \<Rightarrow> u32
       \<Rightarrow> (int \<times> string \<times> string \<times> string) list \<Rightarrow> 'u mms_service \<Rightarrow> (service_reply \<times> 'u mms_service) outcome" where
  "mms_engine_handle_send_message_fd check peer en now root_dir_ok fds database_id imsi_to to cc bcc subject flags attachments s =
     checked
       (if \<not> mms_engine_dbus_access_allowed check peer ENGINE_SEND_MESSAGE then Ret (Reply_Denied, s)
        else if to \<noteq> []
        then queue_message en now root_dir_ok database_id imsi_to to cc bcc subject flags (fd_attachments fds attachments) s
        else Ret (Reply_Error ''Missing recipient'', s))"

definition mms_engine_handle_receive_message ::
    "('p \<Rightarrow> mms_engine_action \<Rightarrow> bool) \<Rightarrow> 'p option \<Rightarrow> ('it, 'mi, 'u, 's) engine_env \<Rightarrow> int \<Rightarrow> bool
       \<Rightarrow> int \<Rightarrow> string option \<Rightarrow> bool \<Rightarrow> byte list \<Rightarrow> 'u mms_service \<Rightarrow> (service_reply \<times> 'u mms_service) outcome" where
  "mms_engine_handle_receive_message check peer en now root_dir_ok database_id imsi automatic bytes s =
     checked
       (if \<not> mms_engine_dbus_access_allowed check peer ENGINE_RECEIVE_MESSAGE then Ret (Reply_Denied, s)
        else if imsi \<noteq> None \<and> bytes \<noteq> []
        then bind_outcome
               (mms_dispatcher_receive_message en now (Some (show_int database_id)) imsi automatic bytes (sv_dispatcher s))
               (\<lambda>((ok, d), ops).
                  let s = s\<lparr>sv_dispatcher := d, sv_file_ops := sv_file_ops s @ ops\<rparr>
                  in Ret (if ok then (Reply_OK, s\<lparr>sv_dispatcher := snd (mms_dispatcher_start root_dir_ok d)\<rparr>)
                          else (Reply_Failed, s)))
        else Ret (Reply_Error ''Invalid parameters'', s))"

definition mms_engine_handle_send_read_report ::
    "('p \<Rightarrow> mms_engine_action \<Rightarrow> bool) \<Rightarrow> 'p option \<Rightarrow> ('it, 'mi, 'u, 's) engine_env \<Rightarrow> int \<Rightarrow> bool
       \<Rightarrow> int \<Rightarrow> string option \<Rightarrow> string option \<Rightarrow> string option \<Rightarrow> int \<Rightarrow> 'u mms_service \<Rightarrow> (service_reply \<times> 'u mms_service) outcome" where
  "mms_engine_handle_send_read_report check peer en now root_dir_ok database_id imsi message_id to status s =
     checked
       (if \<not> mms_engine_dbus_access_allowed check peer ENGINE_SEND_READ_REPORT then Ret (Reply_Denied, s)
        else (case mms_dispatcher_send_read_report en now (Some (show_int database_id)) imsi message_id to
                     (if status = 1 then MMS_READ_STATUS_DELETED else MMS_READ_STATUS_READ) (sv_dispatcher s) of
                (ok, d) \<Rightarrow>
                  Ret (if ok then (Reply_OK, s\<lparr>sv_dispatcher := snd (mms_dispatcher_start root_dir_ok d)\<rparr>)
                       else (Reply_Failed, s\<lparr>sv_dispatcher := d\<rparr>))))"

definition mms_engine_handle_cancel ::
    "('p \<Rightarrow> mms_engine_action \<Rightarrow> bool) \<Rightarrow> 'p option \<Rightarrow> ('it, 'mi, 'u, 's) engine_env \<Rightarrow> int
       \<Rightarrow> int \<Rightarrow> 'u mms_service \<Rightarrow> (service_reply \<times> 'u mms_service) outcome" where
  "mms_engine_handle_cancel check peer en now database_id s =
     checked
       (if \<not> mms_engine_dbus_access_allowed check peer ENGINE_CANCEL then Ret (Reply_Denied, s)
        else let ident = (if database_id > 0 then Some (show_nat (nat database_id)) else None)
             in Ret (Reply_OK, with_dispatcher (mms_dispatcher_cancel (engine_dispatcher en) now ident (sv_dispatcher s)) s))"

definition mms_engine_push_handler ::
    "('it, 'mi, 'u, 's) engine_env \<Rightarrow> int \<Rightarrow> bool \<Rightarrow> string option \<Rightarrow> string option \<Rightarrow> byte list
       \<Rightarrow> 'u mms_service \<Rightarrow> (service_reply \<times> 'u mms_service) outcome" where
  "mms_engine_push_handler en now root_dir_ok imsi type bytes s =
     (if (case type of None \<Rightarrow> True | Some ct \<Rightarrow> \<not> ascii_caseeq ct MMS_CONTENT_TYPE)
      then Ret (Reply_Error ''Unsupported content type'', s)
      else if \<not> nonempty imsi then Ret (Reply_Error ''IMSI is missing'', s)
      else if bytes = [] then Ret (Reply_Error ''No data provided'', s)
      else bind_outcome (mms_dispatcher_handle_push en now imsi bytes (sv_dispatcher s))
             (\<lambda>((ok, d), ops).
                let s = s\<lparr>sv_dispatcher := d, sv_file_ops := sv_file_ops s @ ops\<rparr>
                in Ret (if ok then (Reply_OK, s\<lparr>sv_dispatcher := snd (mms_dispatcher_start root_dir_ok d)\<rparr>)
                        else (Reply_Failed, s))))"

definition mms_engine_handle_push_notify ::
    "('p \<Rightarrow> mms_engine_action \<Rightarrow> bool) \<Rightarrow> 'p option \<Rightarrow> ('it, 'mi, 'u, 's) engine_env \<Rightarrow> int \<Rightarrow> bool
       \<Rightarrow> string option \<Rightarrow> string option \<Rightarrow> byte list \<Rightarrow> 'u mms_service \<Rightarrow> (service_reply \<times> 'u mms_service) outcome" where
  "mms_engine_handle_push_notify check peer en now root_dir_ok imsi type bytes s =
     checked
       (if mms_engine_dbus_access_allowed check peer ENGINE_PUSH_NOTIFY
        then mms_engine_push_handler en now root_dir_ok imsi type bytes s else Ret (Reply_Denied, s))"

definition mms_engine_handle_push ::
    "('p \<Rightarrow> mms_engine_action \<Rightarrow> bool) \<Rightarrow> 'p option \<Rightarrow> ('it, 'mi, 'u, 's) engine_env \<Rightarrow> int \<Rightarrow> bool
       \<Rightarrow> string option \<Rightarrow> string option \<Rightarrow> byte list \<Rightarrow> 'u mms_service \<Rightarrow> (service_reply \<times> 'u mms_service) outcome" where
  "mms_engine_handle_push check peer en now root_dir_ok imsi type bytes s =
     checked
       (if mms_engine_dbus_access_allowed check peer ENGINE_PUSH
        then mms_engine_push_handler en now root_dir_ok imsi type bytes s else Ret (Reply_Denied, s))"

text \<open>The methods that only set the log or give the version.\<close>

definition mms_engine_handle_other ::
    "('p \<Rightarrow> mms_engine_action \<Rightarrow> bool) \<Rightarrow> 'p option \<Rightarrow> mms_engine_action \<Rightarrow> 'u mms_service \<Rightarrow> (service_reply \<times> 'u mms_service) outcome" where
  "mms_engine_handle_other check peer action s =
     checked (Ret (if mms_engine_dbus_access_allowed check peer action then Reply_OK else Reply_Denied, s))"

definition mms_engine_handle_migrate_settings ::
    "('p \<Rightarrow> mms_engine_action \<Rightarrow> bool) \<Rightarrow> 'p option \<Rightarrow> ('it, 'mi, 'u, 's) engine_env
       \<Rightarrow> (string \<Rightarrow> bool) \<Rightarrow> (string \<Rightarrow> dconf_store \<Rightarrow> string list) \<Rightarrow> string option \<Rightarrow> 'u mms_service
       \<Rightarrow> (service_reply \<times> 'u mms_service) outcome" where
  "mms_engine_handle_migrate_settings check peer en writable listing imsi s =
     checked
       (if \<not> mms_engine_dbus_access_allowed check peer ENGINE_MIGRATE_SETTINGS then Ret (Reply_Denied, s)
        else let imsi = (if nonempty imsi then imsi else en_default_imsi en)
             in (case imsi of
                   None \<Rightarrow> Ret (Reply_OK, s)
                 | Some i \<Rightarrow> bind_outcome (mms_settings_dconf_get_sim_data writable listing (Some i) (sv_settings s))
                     (\<lambda>(data, st). Ret (Reply_OK, s\<lparr>sv_settings := st\<rparr>))))"

definition mms_engine_handle_exit ::
    "('p \<Rightarrow> mms_engine_action \<Rightarrow> bool) \<Rightarrow> 'p option \<Rightarrow> ('it, 'mi, 'u, 's) engine_env \<Rightarrow> int
       \<Rightarrow> 'u mms_service \<Rightarrow> (service_reply \<times> 'u mms_service) outcome" where
  "mms_engine_handle_exit check peer en now s =
     Ret (if mms_engine_dbus_access_allowed check peer ENGINE_EXIT then (Reply_OK, mms_engine_stop en now s) else (Reply_Denied, s))"

section \<open>The life of the process\<close>

text \<open>A call over D-Bus by a client.\<close>

datatype 'p service_call =
    Send_Message "string \<Rightarrow> byte list option" int "string option" "string list" "string list" "string list" "string option" u32
      "(string \<times> string \<times> string) list"
  | Send_Message_Fd "byte list option list" int "string option" "string list" "string list" "string list" "string option" u32
      "(int \<times> string \<times> string \<times> string) list"
  | Receive_Message int "string option" bool "byte list"
  | Send_Read_Report int "string option" "string option" "string option" int
  | Cancel_Message int
  | Push_Notify "string option" "string option" "byte list"
  | Push "string option" "string option" "byte list"
  | Other_Method mms_engine_action
  | Migrate_Settings "string \<Rightarrow> bool" "string \<Rightarrow> dconf_store \<Rightarrow> string list" "string option"
  | Exit_Engine

fun service_method ::
    "('p \<Rightarrow> mms_engine_action \<Rightarrow> bool) \<Rightarrow> ('it, 'mi, 'u, 's) engine_env \<Rightarrow> int \<Rightarrow> bool \<Rightarrow> 'p option \<Rightarrow> 'p service_call
       \<Rightarrow> 'u mms_service \<Rightarrow> (service_reply \<times> 'u mms_service) outcome" where
  "service_method check en now ok peer (Send_Message map_path n imsi to cc bcc subject flags as) s =
     mms_engine_handle_send_message check peer en now ok map_path n imsi to cc bcc subject flags as s"
| "service_method check en now ok peer (Send_Message_Fd fds n imsi to cc bcc subject flags as) s =
     mms_engine_handle_send_message_fd check peer en now ok fds n imsi to cc bcc subject flags as s"
| "service_method check en now ok peer (Receive_Message n imsi automatic bytes) s =
     mms_engine_handle_receive_message check peer en now ok n imsi automatic bytes s"
| "service_method check en now ok peer (Send_Read_Report n imsi message_id to status) s =
     mms_engine_handle_send_read_report check peer en now ok n imsi message_id to status s"
| "service_method check en now ok peer (Cancel_Message n) s = mms_engine_handle_cancel check peer en now n s"
| "service_method check en now ok peer (Push_Notify imsi type bytes) s =
     mms_engine_handle_push_notify check peer en now ok imsi type bytes s"
| "service_method check en now ok peer (Push imsi type bytes) s = mms_engine_handle_push check peer en now ok imsi type bytes s"
| "service_method check en now ok peer (Other_Method action) s = mms_engine_handle_other check peer action s"
| "service_method check en now ok peer (Migrate_Settings writable listing imsi) s =
     mms_engine_handle_migrate_settings check peer en writable listing imsi s"
| "service_method check en now ok peer Exit_Engine s = mms_engine_handle_exit check peer en now s"

text \<open>
  What happens while the main loop runs: a method is called, a callback of the dispatcher is made (any step of the
  dispatcher that does not start it), the process is told to end by a signal, or a source of the main loop fires.
\<close>

inductive service_callback :: "('it, 'mi, 'u, 's) engine_env \<Rightarrow> 'u mms_service \<Rightarrow> 'u mms_service \<Rightarrow> bool" for en where
  "sv_loop s \<Longrightarrow> dispatcher_step (engine_dispatcher en) (engine_event en) (user_task en) (sv_dispatcher s) d
    \<Longrightarrow> (d_started d \<Longrightarrow> d_started (sv_dispatcher s)) \<Longrightarrow> service_callback en s (with_dispatcher d s)"

inductive service_step ::
    "('p \<Rightarrow> mms_engine_action \<Rightarrow> bool) \<Rightarrow> ('it, 'mi, 'u, 's) engine_env \<Rightarrow> 'u mms_service \<Rightarrow> 'u mms_service \<Rightarrow> bool"
  for check en where
  Method: "sv_loop s \<Longrightarrow> service_method check en now ok peer call s = Ret (reply, s') \<Longrightarrow> service_step check en s s'"
| Callback: "service_callback en s s' \<Longrightarrow> service_step check en s s'"
| Stop_Signal: "sv_loop s \<Longrightarrow> service_step check en s (mms_engine_stop en now s)"
| Idle_Timer: "sv_loop s \<Longrightarrow> sv_idle_timer s \<Longrightarrow> service_step check en s (mms_engine_idle_timer_expired s)"
| Stop_Callback: "sv_loop s \<Longrightarrow> 0 < sv_stop_pending s \<Longrightarrow> service_step check en s (mms_engine_stop_callback s)"

inductive service_reaches ::
    "('p \<Rightarrow> mms_engine_action \<Rightarrow> bool) \<Rightarrow> ('it, 'mi, 'u, 's) engine_env \<Rightarrow> 'u mms_service \<Rightarrow> 'u mms_service \<Rightarrow> bool"
  for check en s0 where
  Begin: "service_reaches check en s0 (mms_engine_run_start ok s0)"
| Next: "service_reaches check en s0 s \<Longrightarrow> service_step check en s s' \<Longrightarrow> service_reaches check en s0 s'"

section \<open>The dispatcher tells when it stops\<close>

text \<open>Between \<open>d\<close> and \<open>d'\<close> the dispatcher has not been started; if it has stopped, it has told so, once.\<close>

definition tells_stop :: "('q, 'a) mms_dispatcher \<Rightarrow> ('q, 'a) mms_dispatcher \<Rightarrow> bool" where
  "tells_stop d d' \<longleftrightarrow> d_delegate d' = d_delegate d
   \<and> ((d_started d' = d_started d \<and> done_count d' = done_count d)
      \<or> (d_started d \<and> \<not> d_started d' \<and> done_count d' = Suc (done_count d)))"

lemma tells_refl [simp]: "tells_stop d d"
  by (simp add: tells_stop_def)

lemma tells_trans: "tells_stop a b \<Longrightarrow> tells_stop b c \<Longrightarrow> tells_stop a c"
  by (auto simp: tells_stop_def)

lemma tells_cong:
  "tells_stop a b \<Longrightarrow> d_started c = d_started b \<Longrightarrow> d_calls c = d_calls b \<Longrightarrow> d_delegate c = d_delegate b \<Longrightarrow> tells_stop a c"
  by (auto simp: tells_stop_def done_count_def)

lemma tells_check [intro!]: "tells_stop a d \<Longrightarrow> tells_stop a (mms_dispatcher_check_if_done d)"
  by (erule tells_trans) (auto simp: tells_stop_def done_count_def check_if_done_started check_if_done_calls)

lemma tells_tell [intro!]: "tells_stop a d \<Longrightarrow> c \<noteq> Dispatcher_Done \<Longrightarrow> tells_stop a (d_tell c d)"
  by (erule tells_trans) (auto simp: tells_stop_def done_count_def)

lemma tells_fields [simp]:
  "tells_stop a (d\<lparr>d_tasks := ts\<rparr>) = tells_stop a d" "tells_stop a (d\<lparr>d_active_task := t\<rparr>) = tells_stop a d"
  "tells_stop a (d\<lparr>d_connection := c\<rparr>) = tells_stop a d" "tells_stop a (d\<lparr>d_next_run_id := b\<rparr>) = tells_stop a d"
  "tells_stop a (d\<lparr>d_network_idle_id := b\<rparr>) = tells_stop a d" "tells_stop a (d\<lparr>d_counters := cs\<rparr>) = tells_stop a d"
  "tells_stop a (d\<lparr>d_handler_busy := n\<rparr>) = tells_stop a d" "tells_stop a (d\<lparr>d_connman_busy := n\<rparr>) = tells_stop a d"
  "tells_stop a (d\<lparr>d_connection := c, d_connection_changed_id := b\<rparr>) = tells_stop a d"
  "tells_stop a (mms_dispatcher_drop_connection d) = tells_stop a d"
  "tells_stop a (mms_dispatcher_next_run_schedule d) = tells_stop a d"
  "tells_stop a (mms_dispatcher_network_idle_check d) = tells_stop a d"
  "tells_stop a (mms_dispatcher_network_idle_cancel d) = tells_stop a d"
  "tells_stop a (release_task e tk d) = tells_stop a d" "tells_stop a (unref_held k cs d) = tells_stop a d"
  "tells_stop a (d\<lparr>d_counters := cs, d_held := h\<rparr>) = tells_stop a d"
  by (simp_all add: tells_stop_def done_count_def mms_dispatcher_network_idle_check_def mms_dispatcher_network_idle_cancel_def)

lemma tells_close [intro!]: "tells_stop a d \<Longrightarrow> tells_stop a (mms_dispatcher_close_connection d)"
  by (auto simp: close_connection_eq split: option.split)

lemma tells_queue_task [intro!]: "tells_stop a d \<Longrightarrow> tells_stop a (mms_dispatcher_queue_task t d)"
  by (auto simp: mms_dispatcher_queue_task_def)

lemma tells_queue_request [intro!]: "tells_stop a d \<Longrightarrow> tells_stop a (queue_request e now q d)"
  by (auto simp: queue_request_def split: prod.split)

lemma tells_listen [intro!]: "tells_stop a d \<Longrightarrow> tells_stop a (mms_dispatcher_listen e now cs d)"
  by (rule listen_induct [of "tells_stop a"]) auto

lemma tells_each_task [intro!]: "tells_stop a d \<Longrightarrow> tells_stop a (each_task e now P f d)"
  by (auto simp: each_task_def Let_def)

lemma tells_right_connection [intro!]: "tells_stop a d \<Longrightarrow> tells_stop a (right_connection e t d)"
  by (auto simp: right_connection_def mms_dispatcher_request_connection_def Let_def split: option.split)

lemma tells_pick: "mms_dispatcher_pick_next_task e now d = (r, d') \<Longrightarrow> tells_stop a d \<Longrightarrow> tells_stop a d'"
  by (cases rule: pick_cases, assumption) (auto simp: update_head_def)

lemma tells_run_task: "tells_stop a d \<Longrightarrow> tells_stop a (mms_dispatcher_run_task e now t d)"
  by (auto simp: mms_dispatcher_run_task_def Let_def split: option.split)

lemma tells_run: "mms_dispatcher_run e now d = Some d' \<Longrightarrow> tells_stop a d \<Longrightarrow> tells_stop a d'"
proof (erule run_result)
  fix dl
  assume d: "tells_stop a d" "mms_dispatcher_loop e now d = Some dl"
    and d': "d' = mms_dispatcher_check_if_done
       (if d_connection dl = None then dl
        else if list_ex uses_connection (d_tasks dl) then mms_dispatcher_network_idle_cancel dl
        else mms_dispatcher_network_idle_check dl)"
  have "tells_stop a dl"
    by (rule loop_invariant [OF d(2), where P = "tells_stop a"]) (auto intro: d(1) tells_pick tells_run_task)
  then show ?thesis using d' by auto
qed

lemma tells_cancel: "tells_stop a d \<Longrightarrow> tells_stop a (mms_dispatcher_cancel e now ident d)"
  by (auto simp: mms_dispatcher_cancel_def Let_def split: option.split)

lemma tells_or_starts:
  assumes "dispatcher_step e own new d d'"
  shows "tells_stop d d' \<or> (\<exists>ok. d' = snd (mms_dispatcher_start ok d))"
  using assms
proof (cases rule: dispatcher_step.cases)
  case (Next_Run now)
  then show ?thesis using tells_run[of e now _ d' d] by (auto simp: mms_dispatcher_next_run_def Let_def split: if_splits)
next
  case (Queue task cs)
  then show ?thesis by (auto simp: mms_dispatcher_queue_and_unref_task_def split: option.split)
qed (auto simp: mms_dispatcher_network_idle_run_def mms_dispatcher_connection_state_changed_def Let_def task_event_def
    mms_dispatcher_handler_done_def mms_dispatcher_connman_done_def intro: tells_cancel)

lemma tells_step:
  assumes "dispatcher_step e own new d d'" and "d_started d' \<Longrightarrow> d_started d"
  shows "tells_stop d d'"
  using tells_or_starts[OF assms(1)] assms(2)
  by (auto simp: mms_dispatcher_start_def tells_stop_def done_count_def split: if_splits)

lemma callback_cases:
  assumes "service_callback en s s'"
  obtains d where "s' = with_dispatcher d s" "tells_stop (sv_dispatcher s) d" "d_started d \<Longrightarrow> d_started (sv_dispatcher s)"
  using assms by (auto elim!: service_callback.cases dest: tells_step)

section \<open>The idle timer\<close>

definition service_ok :: "'u mms_service \<Rightarrow> bool" where
  "service_ok s \<longleftrightarrow>
     (sv_idle_timer s \<longrightarrow> \<not> sv_keep_running s \<and> \<not> d_started (sv_dispatcher s))
   \<and> (\<not> d_started (sv_dispatcher s) \<and> \<not> sv_keep_running s \<longrightarrow> sv_idle_timer s \<or> 0 < sv_stop_pending s \<or> sv_stopped s)
   \<and> (sv_loop s \<longrightarrow> \<not> sv_stopped s)"

text \<open>The fields that nothing but the end of the main loop changes.\<close>

definition running_alike :: "'u mms_service \<Rightarrow> 'u mms_service \<Rightarrow> bool" where
  "running_alike s s' \<longleftrightarrow>
     sv_loop s' = sv_loop s \<and> sv_stopped s' = sv_stopped s \<and> sv_keep_running s' = sv_keep_running s"

lemma alike_refl [simp]: "running_alike s s"
  by (simp add: running_alike_def)

lemma idle_check_fields [simp]:
  "sv_dispatcher (mms_engine_idle_timer_check s) = sv_dispatcher s"
  "sv_settings (mms_engine_idle_timer_check s) = sv_settings s"
  "sv_loop (mms_engine_idle_timer_check s) = sv_loop s"
  "sv_stopped (mms_engine_idle_timer_check s) = sv_stopped s"
  "sv_stop_requested (mms_engine_idle_timer_check s) = sv_stop_requested s"
  "sv_keep_running (mms_engine_idle_timer_check s) = sv_keep_running s"
  "sv_stop_pending (mms_engine_idle_timer_check s) = sv_stop_pending s"
  "sv_files (mms_engine_idle_timer_check s) = sv_files s"
  "sv_file_ops (mms_engine_idle_timer_check s) = sv_file_ops s"
  "sv_idle_timer (mms_engine_idle_timer_check s) \<longleftrightarrow> \<not> d_started (sv_dispatcher s) \<and> \<not> sv_keep_running s"
  by (simp_all add: mms_engine_idle_timer_check_def mms_engine_idle_timer_stop_def mms_dispatcher_is_started_def Let_def)

lemma with_dispatcher_cases:
  assumes "tells_stop (sv_dispatcher s) d"
  obtains "d_started d = d_started (sv_dispatcher s)" "with_dispatcher d s = s\<lparr>sv_dispatcher := d\<rparr>"
  | "d_started (sv_dispatcher s)" "\<not> d_started d"
    "with_dispatcher d s = mms_engine_delegate_dispatcher_done (s\<lparr>sv_dispatcher := d\<rparr>)"
  using assms by (auto simp: tells_stop_def with_dispatcher_def)

lemma with_dispatcher_ok:
  assumes "service_ok s" "tells_stop (sv_dispatcher s) d"
  shows "service_ok (with_dispatcher d s) \<and> running_alike s (with_dispatcher d s)"
  using assms(2)
proof (cases rule: with_dispatcher_cases)
  case 1
  then show ?thesis using assms(1) by (simp add: service_ok_def running_alike_def)
next
  case 2
  then show ?thesis using assms(1)
    by (auto simp: service_ok_def running_alike_def mms_engine_delegate_dispatcher_done_def mms_engine_stop_schedule_def)
qed

lemma stop_ok:
  assumes "service_ok s"
  shows "service_ok (mms_engine_stop en now s) \<and> running_alike s (mms_engine_stop en now s)"
proof (cases "mms_dispatcher_is_active (sv_dispatcher s)")
  case True
  let ?s = "s\<lparr>sv_stop_requested := True\<rparr>"
  have "service_ok ?s" using assms by (simp add: service_ok_def)
  from with_dispatcher_ok[OF this, of "mms_dispatcher_cancel (engine_dispatcher en) now None (sv_dispatcher s)"] True
  show ?thesis by (simp add: mms_engine_stop_def tells_cancel running_alike_def)
next
  case False
  then show ?thesis using assms by (simp add: mms_engine_stop_def mms_engine_stop_schedule_def service_ok_def running_alike_def)
qed

text \<open>The check of the timer makes everything right, whatever happened before.\<close>

lemma checked_ok:
  assumes "checked r = Ret (reply, s')" and "\<And>reply s1. r = Ret (reply, s1) \<Longrightarrow> running_alike s s1" and "service_ok s"
  shows "service_ok s' \<and> running_alike s s'"
  using assms by (auto simp: checked_def service_ok_def running_alike_def)

lemma alike_updates [simp]:
  "running_alike s (t\<lparr>sv_dispatcher := d\<rparr>) = running_alike s t" "running_alike s (t\<lparr>sv_files := fs\<rparr>) = running_alike s t"
  "running_alike s (t\<lparr>sv_file_ops := ops\<rparr>) = running_alike s t" "running_alike s (t\<lparr>sv_settings := st\<rparr>) = running_alike s t"
  by (simp_all add: running_alike_def)

lemma queue_message_alike:
  "queue_message en now ok n imsi to cc bcc subject flags as s = Ret (reply, s') \<Longrightarrow> running_alike s s'"
  by (auto simp: queue_message_def Let_def split: prod.splits option.splits if_splits)

lemma push_handler_alike: "mms_engine_push_handler en now ok imsi ct bytes s = Ret (reply, s') \<Longrightarrow> running_alike s s'"
  by (auto simp: mms_engine_push_handler_def Let_def split: prod.splits if_splits option.splits)

lemma method_ok:
  assumes "service_ok s" and "service_method check en now ok peer call s = Ret (reply, s')"
  shows "service_ok s' \<and> running_alike s s'"
proof (cases call)
  case (Send_Message map_path n imsi to cc bcc subject flags as)
  with assms(2) show ?thesis
    by (auto simp: mms_engine_handle_send_message_def dest: queue_message_alike intro!: checked_ok[OF _ _ assms(1)] split: if_splits)
next
  case (Send_Message_Fd fds n imsi to cc bcc subject flags as)
  with assms(2) show ?thesis
    by (auto simp: mms_engine_handle_send_message_fd_def dest: queue_message_alike intro!: checked_ok[OF _ _ assms(1)] split: if_splits)
next
  case Exit_Engine
  with assms stop_ok[OF assms(1), of en now] show ?thesis
    by (auto simp: mms_engine_handle_exit_def split: if_splits)
next
  case (Cancel_Message n)
  with assms(2) with_dispatcher_ok[OF assms(1) tells_cancel[OF tells_refl]] show ?thesis
    by (auto simp: mms_engine_handle_cancel_def Let_def intro!: checked_ok[OF _ _ assms(1)] split: if_splits)
qed (use assms(2) in \<open>auto simp: mms_engine_handle_receive_message_def mms_engine_handle_send_read_report_def
    mms_engine_handle_push_notify_def mms_engine_handle_push_def mms_engine_handle_other_def
    mms_engine_handle_migrate_settings_def Let_def
    dest: push_handler_alike intro!: checked_ok[OF _ _ assms(1)] split: if_splits prod.splits option.splits\<close>)

lemma run_start_ok:
  "service_ok (mms_engine_run_start ok s)" "sv_keep_running (mms_engine_run_start ok s) = sv_keep_running s"
  by (auto simp: mms_engine_run_start_def service_ok_def Let_def)

lemma step_ok: "service_step check en s s' \<Longrightarrow> service_ok s \<Longrightarrow> service_ok s' \<and> sv_keep_running s' = sv_keep_running s"
proof (induction rule: service_step.induct)
  case (Method s now ok peer call reply s')
  then show ?case using method_ok[of s check en now ok peer call reply s'] by (simp add: running_alike_def)
next
  case (Callback s s')
  then obtain d where "s' = with_dispatcher d s" "tells_stop (sv_dispatcher s) d" by (blast elim: callback_cases)
  then show ?case using with_dispatcher_ok[of s d] Callback by (simp add: running_alike_def)
next
  case (Stop_Signal s now)
  then show ?case using stop_ok[of s en now] by (simp add: running_alike_def)
next
  case (Idle_Timer s)
  then show ?case by (simp add: mms_engine_idle_timer_expired_def mms_engine_stop_schedule_def service_ok_def)
next
  case (Stop_Callback s)
  then show ?case by (auto simp: mms_engine_stop_callback_def service_ok_def Let_def)
qed

lemma reaches_ok: "service_reaches check en s0 s \<Longrightarrow> service_ok s \<and> sv_keep_running s = sv_keep_running s0"
  by (induction rule: service_reaches.induct) (auto simp: run_start_ok dest: step_ok)

section \<open>The end\<close>

text \<open>After a request to end, either the main loop is going to be ended, or the dispatcher is still at work and the
  request is remembered.\<close>

definition ending :: "'u mms_service \<Rightarrow> bool" where
  "ending s \<longleftrightarrow> 0 < sv_stop_pending s \<or> (d_started (sv_dispatcher s) \<and> sv_stop_requested s)"

lemma ending_check [simp]: "ending (mms_engine_idle_timer_check s) = ending s"
  by (simp add: ending_def)

lemma delegate_done_fields:
  "sv_dispatcher (mms_engine_delegate_dispatcher_done s) = sv_dispatcher s"
  "sv_stop_requested (mms_engine_delegate_dispatcher_done s) = sv_stop_requested s"
  "sv_stop_pending (mms_engine_delegate_dispatcher_done s) = sv_stop_pending s + (if sv_stop_requested s then 1 else 0)"
  by (simp_all add: mms_engine_delegate_dispatcher_done_def mms_engine_stop_schedule_def)

lemma ending_with_dispatcher:
  assumes "tells_stop (sv_dispatcher s) d" "ending s"
  shows "ending (with_dispatcher d s)"
  using assms(1)
  by (cases rule: with_dispatcher_cases) (use assms(2) in \<open>auto simp: ending_def delegate_done_fields\<close>)

lemma ending_stop:
  assumes "\<not> mms_dispatcher_is_active (sv_dispatcher s) \<or> d_started (sv_dispatcher s) \<or> 0 < sv_stop_pending s"
  shows "ending (mms_engine_stop en now s)"
proof (cases "mms_dispatcher_is_active (sv_dispatcher s)")
  case True
  then have "ending (s\<lparr>sv_stop_requested := True\<rparr>)" using assms by (auto simp: ending_def)
  with True show ?thesis by (simp add: mms_engine_stop_def ending_with_dispatcher tells_cancel)
next
  case False
  then show ?thesis by (simp add: mms_engine_stop_def mms_engine_stop_schedule_def ending_def)
qed

text \<open>A method never stops the dispatcher but by cancelling, and takes no request back.\<close>

definition no_less :: "'u mms_service \<Rightarrow> 'u mms_service \<Rightarrow> bool" where
  "no_less s s' \<longleftrightarrow> sv_stop_pending s' = sv_stop_pending s \<and> sv_stop_requested s' = sv_stop_requested s
     \<and> (d_started (sv_dispatcher s) \<longrightarrow> d_started (sv_dispatcher s'))"

lemma no_less_ending: "no_less s s' \<Longrightarrow> ending s \<Longrightarrow> ending s'"
  by (auto simp: no_less_def ending_def)

lemma start_started: "d_started d \<Longrightarrow> d_started (snd (mms_dispatcher_start ok d))"
  by (simp add: mms_dispatcher_start_def)

text \<open>An attempt to queue a task: at most one task more, and nothing else that matters here.\<close>

definition attempt :: "bool \<Rightarrow> ('q, 'a) mms_dispatcher \<Rightarrow> ('q, 'a) mms_dispatcher \<Rightarrow> bool" where
  "attempt b d d' \<longleftrightarrow>
     d_started d' = d_started d \<and> length (d_tasks d') = length (d_tasks d) + (if b then 1 else 0)"

lemma attempt_queue: "mms_dispatcher_queue_and_unref_task t (d\<lparr>d_counters := cs\<rparr>) = (b, d') \<Longrightarrow> attempt b d d'"
  by (auto simp: mms_dispatcher_queue_and_unref_task_def mms_dispatcher_queue_task_def attempt_def split: option.splits)

lemma attempt_none: "mms_dispatcher_queue_and_unref_task None d = (b, d') \<Longrightarrow> attempt b d d'"
  by (auto simp: mms_dispatcher_queue_and_unref_task_def attempt_def)

lemma attempt_queue_new: "queue_new en now rq d = (b, d') \<Longrightarrow> attempt b d d'"
  by (auto simp: queue_new_def dest: attempt_queue attempt_none split: prod.splits option.splits)

lemma attempt_read_report:
  "mms_dispatcher_send_read_report en now ident imsi message_id to status d = (b, d') \<Longrightarrow> attempt b d d'"
  by (auto simp: mms_dispatcher_send_read_report_def dest: attempt_queue_new)

lemma attempt_receive:
  "mms_dispatcher_receive_message en now ident imsi automatic bytes d = Ret ((b, d'), ops) \<Longrightarrow> attempt b d d'"
  by (auto simp: mms_dispatcher_receive_message_def attempt_def[of False]
      dest: attempt_queue_new split: option.splits outcome.splits if_splits)

lemma handle_push_cases:
  assumes "mms_dispatcher_handle_push en now imsi bytes d = Ret ((b, d'), ops)"
  obtains "mms_dispatcher_queue_and_unref_task None d = (b, d')"
  | t cs where
      "mms_task_notification_new (en_transfer en) (en_handler en) (en_retry_secs en) now imsi bytes (d_counters d) = Ret (Inr (t, cs))"
      "mms_dispatcher_queue_and_unref_task (Some (up Notification_Object t)) (d\<lparr>d_counters := cs\<rparr>) = (b, d')"
proof -
  from assms obtain x where
    "mms_task_notification_new (en_transfer en) (en_handler en) (en_retry_secs en) now imsi bytes (d_counters d) = Ret x"
    "(case x of Inl ops \<Rightarrow> (mms_dispatcher_queue_and_unref_task None d, ops)
      | Inr (t, cs) \<Rightarrow> (mms_dispatcher_queue_and_unref_task (Some (up Notification_Object t)) (d\<lparr>d_counters := cs\<rparr>), []))
      = ((b, d'), ops)"
    unfolding mms_dispatcher_handle_push_def bind_outcome_eq_Ret outcome.inject by blast
  with that show thesis by (cases x) auto
qed

lemma attempt_push:
  "mms_dispatcher_handle_push en now imsi bytes d = Ret ((b, d'), ops) \<Longrightarrow> attempt b d d'"
  by (erule handle_push_cases) (auto dest: attempt_queue attempt_none)

lemma attempt_send:
  assumes "mms_dispatcher_send_message en now ident imsi to cc bcc subject flags ais fs d = Ret (r, d', fs')"
  shows "attempt (r \<noteq> None) d d'"
proof (cases "if nonempty imsi then imsi else en_default_imsi en")
  case None
  then show ?thesis using assms by (simp add: mms_dispatcher_send_message_def attempt_def)
next
  case (Some i)
  show ?thesis
  proof (cases "mms_task_encode_new (en_transfer en) (en_attachment en) (en_mkdtemp en) (en_retry_secs en)
      now ident (Some i) to cc bcc subject flags ais fs (d_counters d) :: ((request mms_task_encode \<times> bool) option \<times> files \<times> task_counters) outcome")
    case Undef
    then show ?thesis using assms Some by (simp add: mms_dispatcher_send_message_def)
  next
    case (Ret x)
    then obtain t fs1 cs where "mms_task_encode_new (en_transfer en) (en_attachment en) (en_mkdtemp en) (en_retry_secs en)
      now ident (Some i) to cc bcc subject flags ais fs (d_counters d) = Ret (t :: (request mms_task_encode \<times> bool) option, fs1, cs)"
      by (cases x) auto
    then show ?thesis
      using assms Some by (auto simp: mms_dispatcher_send_message_def dest!: attempt_queue split: prod.splits)
  qed
qed

section \<open>What a method does to the queue\<close>

fun accepted :: "service_reply \<Rightarrow> bool" where
  "accepted Reply_OK = True"
| "accepted (Reply_Imsi _) = True"
| "accepted _ = False"

fun creates_task :: "'p service_call \<Rightarrow> bool" where
  "creates_task (Cancel_Message _) = False"
| "creates_task (Other_Method _) = False"
| "creates_task (Migrate_Settings _ _ _) = False"
| "creates_task Exit_Engine = False"
| "creates_task _ = True"

text \<open>The effect of a method that makes a task, before the check of the timer.\<close>

definition requested :: "bool \<Rightarrow> service_reply \<Rightarrow> 'u mms_service \<Rightarrow> 'u mms_service \<Rightarrow> bool" where
  "requested ok reply s s' \<longleftrightarrow>
     sv_stop_pending s' = sv_stop_pending s \<and> sv_stop_requested s' = sv_stop_requested s
   \<and> length (d_tasks (sv_dispatcher s')) = length (d_tasks (sv_dispatcher s)) + (if accepted reply then 1 else 0)
   \<and> (d_started (sv_dispatcher s') \<longleftrightarrow> d_started (sv_dispatcher s) \<or> (accepted reply \<and> ok))
   \<and> (accepted reply \<and> ok \<longrightarrow> d_next_run_id (sv_dispatcher s'))"

lemma requested_refused: "\<not> accepted reply \<Longrightarrow> requested ok reply s s"
  by (simp add: requested_def)

lemma start_after_queue:
  assumes "attempt True d d'"
  shows "d_started (snd (mms_dispatcher_start ok d')) \<longleftrightarrow> d_started d \<or> ok"
    and "length (d_tasks (snd (mms_dispatcher_start ok d'))) = Suc (length (d_tasks d))"
    and "ok \<Longrightarrow> d_next_run_id (snd (mms_dispatcher_start ok d'))"
  using assms by (auto simp: attempt_def mms_dispatcher_start_def)

lemma requested_queued:
  "attempt True (sv_dispatcher s) d \<Longrightarrow> accepted reply \<Longrightarrow>
    requested ok reply s (s\<lparr>sv_files := fs, sv_dispatcher := snd (mms_dispatcher_start ok d)\<rparr>)"
  "attempt True (sv_dispatcher s) d \<Longrightarrow> accepted reply \<Longrightarrow>
    requested ok reply s (s\<lparr>sv_file_ops := ops, sv_dispatcher := snd (mms_dispatcher_start ok d)\<rparr>)"
  "attempt True (sv_dispatcher s) d \<Longrightarrow> accepted reply \<Longrightarrow>
    requested ok reply s (s\<lparr>sv_dispatcher := snd (mms_dispatcher_start ok d)\<rparr>)"
  by (simp_all add: requested_def start_after_queue)

lemma requested_not_queued:
  "attempt False (sv_dispatcher s) d \<Longrightarrow> \<not> accepted reply \<Longrightarrow> requested ok reply s (s\<lparr>sv_dispatcher := d, sv_files := fs\<rparr>)"
  "attempt False (sv_dispatcher s) d \<Longrightarrow> \<not> accepted reply \<Longrightarrow> requested ok reply s (s\<lparr>sv_dispatcher := d, sv_file_ops := ops\<rparr>)"
  "attempt False (sv_dispatcher s) d \<Longrightarrow> \<not> accepted reply \<Longrightarrow> requested ok reply s (s\<lparr>sv_dispatcher := d\<rparr>)"
  by (simp_all add: requested_def attempt_def)

lemmas requested_intros = requested_refused requested_queued requested_not_queued

lemma requested_message:
  assumes "queue_message en now ok n imsi to cc bcc subject flags as s = Ret (reply, s')"
  shows "requested ok reply s s'"
proof -
  obtain ais error where as: "as = (ais, error)" by (cases as)
  let ?send = "mms_dispatcher_send_message en now (if n > 0 then Some (show_nat (nat n)) else None) imsi
        (Some (join_with '','' to)) (address_list cc) (address_list bcc) subject flags ais (sv_files s) (sv_dispatcher s)"
  show ?thesis
  proof (cases error)
    case True
    with assms as show ?thesis by (auto simp: queue_message_def requested_refused)
  next
    case False
    show ?thesis
    proof (cases ?send)
      case Undef
      with assms as False show ?thesis by (simp add: queue_message_def)
    next
      case (Ret x)
      obtain r d fs where x: "x = (r, d, fs)" by (cases x) auto
      from attempt_send[OF Ret[unfolded x]] assms as False Ret x show ?thesis
        by (cases r) (auto simp: queue_message_def Let_def requested_intros)
    qed
  qed
qed

lemma requested_push:
  "mms_engine_push_handler en now ok imsi ct bytes s = Ret (reply, s') \<Longrightarrow> requested ok reply s s'"
  by (auto simp: mms_engine_push_handler_def Let_def requested_intros
      dest!: attempt_push split: if_splits prod.splits option.splits)

lemma checked_eq:
  "checked r = Ret (reply, s') \<longleftrightarrow> (\<exists>s1. r = Ret (reply, s1) \<and> s' = mms_engine_idle_timer_check s1)"
  by (cases r) (auto simp: checked_def)

lemma checked_requested:
  assumes "checked r = Ret (reply, s')" and "\<And>s1. r = Ret (reply, s1) \<Longrightarrow> requested ok reply s s1"
  shows "\<exists>s1. requested ok reply s s1 \<and> s' = mms_engine_idle_timer_check s1"
  using assms by (auto simp: checked_eq)

lemma method_requested:
  assumes "service_method check en now ok peer call s = Ret (reply, s')" and "creates_task call"
  shows "\<exists>s1. requested ok reply s s1 \<and> s' = mms_engine_idle_timer_check s1"
proof (cases call)
  case (Send_Message map_path n imsi to cc bcc subject flags as)
  show ?thesis
    by (rule checked_requested, rule assms(1)[unfolded Send_Message service_method.simps mms_engine_handle_send_message_def])
      (auto intro: requested_message requested_refused split: if_splits)
next
  case (Send_Message_Fd fds n imsi to cc bcc subject flags as)
  show ?thesis
    by (rule checked_requested, rule assms(1)[unfolded Send_Message_Fd service_method.simps mms_engine_handle_send_message_fd_def])
      (auto intro: requested_message requested_refused split: if_splits)
next
  case (Receive_Message n imsi automatic bytes)
  show ?thesis
    by (rule checked_requested, rule assms(1)[unfolded Receive_Message service_method.simps mms_engine_handle_receive_message_def])
      (auto simp: Let_def requested_intros dest!: attempt_receive split: if_splits prod.splits)
next
  case (Send_Read_Report n imsi message_id to status)
  show ?thesis
    by (rule checked_requested, rule assms(1)[unfolded Send_Read_Report service_method.simps mms_engine_handle_send_read_report_def])
      (auto simp: requested_intros dest!: attempt_read_report split: if_splits prod.splits)
next
  case (Push_Notify imsi ct bytes)
  show ?thesis
    by (rule checked_requested, rule assms(1)[unfolded Push_Notify service_method.simps mms_engine_handle_push_notify_def])
      (auto intro: requested_push requested_refused split: if_splits)
next
  case (Push imsi ct bytes)
  show ?thesis
    by (rule checked_requested, rule assms(1)[unfolded Push service_method.simps mms_engine_handle_push_def])
      (auto intro: requested_push requested_refused split: if_splits)
qed (use assms(2) in auto)

section \<open>The service runs the dispatcher\<close>

text \<open>Whatever the service does to its dispatcher is a sequence of the dispatcher's steps.\<close>

abbreviation runs ::
    "('it, 'mi, 'u, 's) engine_env \<Rightarrow> (request, 'u task_object) mms_dispatcher \<Rightarrow> (request, 'u task_object) mms_dispatcher \<Rightarrow> bool" where
  "runs en \<equiv> (dispatcher_step (engine_dispatcher en) (engine_event en) (user_task en))\<^sup>*\<^sup>*"

lemma runs_step: "dispatcher_step (engine_dispatcher en) (engine_event en) (user_task en) d d' \<Longrightarrow> runs en d d'"
  by (rule r_into_rtranclp)

lemma runs_queue:
  "user_task en (d_counters d) t cs \<Longrightarrow> mms_dispatcher_queue_and_unref_task t (d\<lparr>d_counters := cs\<rparr>) = (b, d') \<Longrightarrow> runs en d d'"
  using dispatcher_step.Queue[where new = "user_task en" and d = d and task = t and cs = cs and e = "engine_dispatcher en"
      and own = "engine_event en"] by (auto intro: runs_step)

lemma runs_none: "mms_dispatcher_queue_and_unref_task None d = (b, d') \<Longrightarrow> runs en d d'"
  by (rule runs_queue[OF No_Task]) simp

lemma runs_queue_new: "queue_new en now rq d = (b, d') \<Longrightarrow> runs en d d'"
  by (auto simp: queue_new_def intro: runs_none runs_queue Request split: option.splits prod.splits)

lemma runs_start: "runs en d (snd (mms_dispatcher_start ok d))"
  by (rule runs_step, rule dispatcher_step.Start)

lemma runs_cancel: "runs en d (mms_dispatcher_cancel (engine_dispatcher en) now ident d)"
  by (rule runs_step, rule dispatcher_step.Cancel)

lemma runs_then_start: "runs en d d' \<Longrightarrow> runs en d (snd (mms_dispatcher_start ok d'))"
  by (rule rtranclp_trans, assumption, rule runs_start)

lemma runs_receive:
  "mms_dispatcher_receive_message en now ident imsi automatic bytes d = Ret ((b, d'), ops) \<Longrightarrow> runs en d d'"
  by (auto simp: mms_dispatcher_receive_message_def dest: runs_queue_new split: option.splits outcome.splits if_splits)

lemma runs_push: "mms_dispatcher_handle_push en now imsi bytes d = Ret ((b, d'), ops) \<Longrightarrow> runs en d d'"
  by (erule handle_push_cases) (auto intro: runs_none runs_queue user_task.Push)

lemma runs_report: "mms_dispatcher_send_read_report en now ident imsi message_id to status d = (b, d') \<Longrightarrow> runs en d d'"
  by (auto simp: mms_dispatcher_send_read_report_def dest: runs_queue_new)

lemma runs_send:
  assumes "mms_dispatcher_send_message en now ident imsi to cc bcc subject flags ais fs d = Ret (r, d', fs')"
  shows "runs en d d'"
proof (cases "if nonempty imsi then imsi else en_default_imsi en")
  case None
  then show ?thesis using assms by (simp add: mms_dispatcher_send_message_def)
next
  case (Some i)
  let ?new = "mms_task_encode_new (en_transfer en) (en_attachment en) (en_mkdtemp en) (en_retry_secs en)
      now ident (Some i) to cc bcc subject flags ais fs (d_counters d) :: ((request mms_task_encode \<times> bool) option \<times> files \<times> task_counters) outcome"
  show ?thesis
  proof (cases ?new)
    case Undef
    then show ?thesis using assms Some by (simp add: mms_dispatcher_send_message_def)
  next
    case (Ret x)
    obtain t fs1 cs where x: "x = (t, fs1, cs)" by (cases x) auto
    have "user_task en (d_counters d) (map_option (\<lambda>(t, error). up Encode_Object t) t) cs"
      using Ret x by (cases t) (auto intro: user_task.Send user_task.Send_Refused)
    moreover obtain b d2 where "mms_dispatcher_queue_and_unref_task (map_option (\<lambda>(t, error). up Encode_Object t) t)
        (d\<lparr>d_counters := cs\<rparr>) = (b, d2)" by fastforce
    ultimately show ?thesis
      using assms Some Ret x by (auto simp: mms_dispatcher_send_message_def dest: runs_queue)
  qed
qed

lemma runs_message:
  assumes "queue_message en now ok n imsi to cc bcc subject flags as s = Ret (reply, s')"
  shows "runs en (sv_dispatcher s) (sv_dispatcher s')"
proof -
  obtain ais error where as: "as = (ais, error)" by (cases as)
  let ?send = "mms_dispatcher_send_message en now (if n > 0 then Some (show_nat (nat n)) else None) imsi
        (Some (join_with '','' to)) (address_list cc) (address_list bcc) subject flags ais (sv_files s) (sv_dispatcher s)"
  show ?thesis
  proof (cases "error \<or> ?send = Undef")
    case True
    with assms as show ?thesis by (cases error) (auto simp: queue_message_def)
  next
    case False
    then obtain r d fs where send: "?send = Ret (r, d, fs)" by (cases ?send) auto
    from runs_send[OF send] assms as False send show ?thesis
      by (cases r) (auto simp: queue_message_def Let_def runs_then_start)
  qed
qed

lemma runs_push_handler:
  "mms_engine_push_handler en now ok imsi ct bytes s = Ret (reply, s') \<Longrightarrow> runs en (sv_dispatcher s) (sv_dispatcher s')"
  by (auto simp: mms_engine_push_handler_def Let_def
      dest!: runs_push intro: runs_then_start split: if_splits prod.splits option.splits)

lemma delegate_done_dispatcher: "sv_dispatcher ((mms_engine_delegate_dispatcher_done ^^ n) s) = sv_dispatcher s"
  by (induction n) (simp_all add: delegate_done_fields)

lemma with_dispatcher_dispatcher [simp]: "sv_dispatcher (with_dispatcher d s) = d"
  by (simp add: with_dispatcher_def delegate_done_dispatcher)

lemma runs_stop: "runs en (sv_dispatcher s) (sv_dispatcher (mms_engine_stop en now s))"
  by (simp add: mms_engine_stop_def mms_engine_stop_schedule_def runs_cancel)

lemma checked_runs:
  assumes "checked r = Ret (reply, s')" and "\<And>s1. r = Ret (reply, s1) \<Longrightarrow> runs en d (sv_dispatcher s1)"
  shows "runs en d (sv_dispatcher s')"
  using assms by (auto simp: checked_eq)

lemma method_runs:
  assumes "service_method check en now ok peer call s = Ret (reply, s')"
  shows "runs en (sv_dispatcher s) (sv_dispatcher s')"
proof (cases call)
  case (Send_Message map_path n imsi to cc bcc subject flags as)
  show ?thesis
    by (rule checked_runs, rule assms[unfolded Send_Message service_method.simps mms_engine_handle_send_message_def])
      (auto intro: runs_message split: if_splits)
next
  case (Send_Message_Fd fds n imsi to cc bcc subject flags as)
  show ?thesis
    by (rule checked_runs, rule assms[unfolded Send_Message_Fd service_method.simps mms_engine_handle_send_message_fd_def])
      (auto intro: runs_message split: if_splits)
next
  case (Receive_Message n imsi automatic bytes)
  show ?thesis
    by (rule checked_runs, rule assms[unfolded Receive_Message service_method.simps mms_engine_handle_receive_message_def])
      (auto simp: Let_def intro: runs_then_start dest!: runs_receive split: if_splits prod.splits)
next
  case (Send_Read_Report n imsi message_id to status)
  show ?thesis
    by (rule checked_runs, rule assms[unfolded Send_Read_Report service_method.simps mms_engine_handle_send_read_report_def])
      (auto intro: runs_then_start dest!: runs_report split: if_splits prod.splits)
next
  case (Push_Notify imsi ct bytes)
  show ?thesis
    by (rule checked_runs, rule assms[unfolded Push_Notify service_method.simps mms_engine_handle_push_notify_def])
      (auto intro: runs_push_handler split: if_splits)
next
  case (Push imsi ct bytes)
  show ?thesis
    by (rule checked_runs, rule assms[unfolded Push service_method.simps mms_engine_handle_push_def])
      (auto intro: runs_push_handler split: if_splits)
next
  case (Cancel_Message n)
  with assms show ?thesis by (auto simp: mms_engine_handle_cancel_def checked_eq Let_def runs_cancel split: if_splits)
next
  case (Other_Method action)
  with assms show ?thesis by (auto simp: mms_engine_handle_other_def checked_eq)
next
  case (Migrate_Settings writable listing imsi)
  with assms show ?thesis
    by (auto simp: mms_engine_handle_migrate_settings_def checked_eq Let_def split: if_splits option.splits outcome.splits)
next
  case Exit_Engine
  with assms runs_stop[of en s now] show ?thesis by (auto simp: mms_engine_handle_exit_def split: if_splits)
qed

lemma service_step_runs: "service_step check en s s' \<Longrightarrow> runs en (sv_dispatcher s) (sv_dispatcher s')"
proof (induction rule: service_step.induct)
  case (Method s now ok peer call reply s')
  then show ?case by (blast dest: method_runs)
next
  case (Callback s s')
  then show ?case by (auto elim!: service_callback.cases intro: runs_step)
next
  case (Stop_Signal s now)
  show ?case by (rule runs_stop)
qed (simp_all add: mms_engine_idle_timer_expired_def mms_engine_stop_schedule_def mms_engine_stop_callback_def Let_def)

lemma service_steps_run: "(service_step check en)\<^sup>*\<^sup>* s s' \<Longrightarrow> runs en (sv_dispatcher s) (sv_dispatcher s')"
  by (induction rule: rtranclp_induct) (auto dest: service_step_runs)

lemma service_reaches_runs: "service_reaches check en s0 s \<Longrightarrow> runs en (sv_dispatcher s0) (sv_dispatcher s)"
proof (induction rule: service_reaches.induct)
  case (Begin ok)
  show ?case using runs_start[of en "sv_dispatcher s0" ok] by (simp add: mms_engine_run_start_def Let_def)
next
  case (Next s s')
  then show ?case by (blast intro: rtranclp_trans service_step_runs)
qed

lemma runs_delegate: "runs en d d' \<Longrightarrow> d_delegate d' = d_delegate d"
proof (induction rule: rtranclp_induct)
  case (step y z)
  from tells_or_starts[OF step(2)] have "d_delegate z = d_delegate y"
    by (auto simp: tells_stop_def mms_dispatcher_start_def split: if_splits)
  with step show ?case by simp
qed simp

section \<open>Theorems\<close>

text \<open>A service for the examples: new, and with a message that waits in the queue of the dispatcher.\<close>

definition sample_service :: "string mms_service" where
  "sample_service = the (mms_engine_new True False [] None (\<lambda>_. None) 0)"

definition sample_resident :: "string mms_service" where
  "sample_resident = (the (mms_engine_new True False [] None (\<lambda>_. None) 1))\<lparr>sv_dispatcher := sample_queued\<rparr>"

lemma sample_service_fields:
  "sv_dispatcher sample_service = mms_dispatcher_new True" "\<not> sv_keep_running sample_service" "sv_stop_pending sample_service = 0"
  "sv_dispatcher sample_resident = sample_queued" "sv_keep_running sample_resident" "sv_stop_pending sample_resident = 0"
  by (simp_all add: sample_service_def sample_resident_def mms_engine_new_def Let_def)

lemma sample_queued_fields: "d_started sample_queued = False" "d_tasks sample_queued \<noteq> []"
proof -
  have "attempt True (mms_dispatcher_new True) sample_queued"
    using attempt_queue_new[of sample_engine 1000 "Some sample_send" "mms_dispatcher_new True" True sample_queued]
    by (simp add: sample_queued_def queue_new_def mms_dispatcher_queue_and_unref_task_def split: prod.split)
  then show "d_started sample_queued = False" "d_tasks sample_queued \<noteq> []"
    by (auto simp: attempt_def mms_dispatcher_new_def)
qed

text \<open>C36. While the main loop runs, the idle timer is set only when the dispatcher has stopped and the engine is not to be
  kept running; and whenever the dispatcher has stopped and the engine is not to be kept running, the timer is set or
  the end of the loop has been scheduled, so an idle engine always ends.\<close>

theorem idle_shutdown:
  assumes "service_reaches check en s0 s" and "sv_loop s"
  shows "(sv_idle_timer s \<longrightarrow> \<not> mms_dispatcher_is_started (sv_dispatcher s) \<and> \<not> sv_keep_running s0)
       \<and> (mms_dispatcher_is_started (sv_dispatcher s) \<or> sv_keep_running s0 \<or> sv_idle_timer s \<or> 0 < sv_stop_pending s)"
  using reaches_ok[OF assms(1)] assms(2) by (auto simp: service_ok_def mms_dispatcher_is_started_def)

theorem idle_shutdown_witness:
  "\<not> sv_keep_running sample_service
   \<and> (sv_idle_timer (mms_engine_run_start True sample_service) \<or> 0 < sv_stop_pending (mms_engine_run_start True sample_service))"
proof -
  let ?s = "mms_engine_run_start True sample_service"
  have r: "service_reaches (\<lambda>(p :: unit) a. True) sample_engine sample_service ?s" by (rule Begin)
  have l: "sv_loop ?s" by (simp add: mms_engine_run_start_def Let_def)
  have "\<not> mms_dispatcher_is_started (sv_dispatcher ?s)"
    by (simp add: mms_engine_run_start_def Let_def sample_service_fields mms_dispatcher_start_def mms_dispatcher_new_def
        mms_dispatcher_is_started_def)
  with idle_shutdown[OF r l] sample_service_fields(2) show ?thesis by simp
qed

lemma no_less_check [simp]: "no_less s (mms_engine_idle_timer_check t) = no_less s t"
  by (simp add: no_less_def)

lemma method_ending:
  assumes "service_method check en now ok peer call s = Ret (reply, s')" and "ending s"
  shows "ending s'"
proof (cases "creates_task call")
  case True
  with assms(1) obtain s1 where "requested ok reply s s1" "s' = mms_engine_idle_timer_check s1"
    by (blast dest: method_requested)
  with assms(2) show ?thesis by (auto simp: ending_def requested_def)
next
  case False
  then show ?thesis
  proof (cases call)
    case (Cancel_Message n)
    with assms show ?thesis
      by (auto simp: mms_engine_handle_cancel_def checked_eq Let_def tells_cancel intro: ending_with_dispatcher split: if_splits)
  next
    case Exit_Engine
    with assms ending_stop[of s en now] show ?thesis
      by (auto simp: mms_engine_handle_exit_def ending_def split: if_splits)
  next
    case (Migrate_Settings writable listing imsi)
    with assms show ?thesis
      by (auto simp: mms_engine_handle_migrate_settings_def checked_eq Let_def ending_def split: if_splits option.splits outcome.splits)
  next
    case (Other_Method action)
    with assms show ?thesis by (auto simp: mms_engine_handle_other_def checked_eq)
  qed auto
qed

lemma step_ending: "service_step check en s s' \<Longrightarrow> ending s \<Longrightarrow> sv_loop s' \<Longrightarrow> ending s'"
proof (induction rule: service_step.induct)
  case (Method s now ok peer call reply s')
  then show ?case using method_ending by blast
next
  case (Callback s s')
  then show ?case by (auto elim!: callback_cases intro: ending_with_dispatcher)
next
  case (Stop_Signal s now)
  then show ?case using ending_stop[of s en now] by (auto simp: ending_def)
next
  case (Idle_Timer s)
  then show ?case by (simp add: mms_engine_idle_timer_expired_def mms_engine_stop_schedule_def ending_def)
next
  case (Stop_Callback s)
  then show ?case by (simp add: mms_engine_stop_callback_def Let_def)
qed

lemma step_from_loop: "service_step check en s s' \<Longrightarrow> sv_loop s"
  by (induction rule: service_step.induct) (auto elim: service_callback.cases)

text \<open>A request to end is never lost: once the engine has been asked to end while its dispatcher was idle or started,
  in every later state in which the main loop still runs, either the end of the loop is scheduled, or the dispatcher is
  still started and will schedule it when it is done, whatever methods are called in between.\<close>

lemma exit_honoured:
  assumes "\<not> mms_dispatcher_is_active (sv_dispatcher s) \<or> mms_dispatcher_is_started (sv_dispatcher s)"
    and "(service_step check en)\<^sup>*\<^sup>* (mms_engine_stop en now s) s'" and "sv_loop s'"
  shows "0 < sv_stop_pending s' \<or> (mms_dispatcher_is_started (sv_dispatcher s') \<and> sv_stop_requested s')"
proof -
  have "ending (mms_engine_stop en now s)"
    using assms(1) by (auto simp: mms_dispatcher_is_started_def intro: ending_stop)
  with assms(2,3) have "ending s'"
    by (induction rule: rtranclp_induct) (auto dest: step_ending step_from_loop)
  then show ?thesis by (simp add: ending_def mms_dispatcher_is_started_def)
qed

text \<open>Callbacks only: while the dispatcher is not started, none of them schedules anything.\<close>

definition forgotten :: "'u mms_service \<Rightarrow> bool" where
  "forgotten s \<longleftrightarrow> \<not> d_started (sv_dispatcher s) \<and> sv_keep_running s \<and> sv_stop_pending s = 0 \<and> \<not> sv_idle_timer s"

lemma forgotten_dispatcher:
  assumes "forgotten s" "tells_stop (sv_dispatcher s) d"
  shows "forgotten (with_dispatcher d s)"
  using assms(2) by (cases rule: with_dispatcher_cases) (use assms(1) in \<open>auto simp: forgotten_def\<close>)

text \<open>C38. When the message directory cannot be created, a task stays in the queue and the dispatcher does not start. An
  engine that is to be kept running and is then asked to end forgets it: it only cancels the task and waits for the
  dispatcher to tell that it is done, and no callback of the dispatcher that follows schedules the end of the main
  loop or sets the timer.\<close>

theorem exit_forgotten:
  assumes "service_reaches check en s0 s" and "sv_keep_running s0" and "sv_stop_pending s = 0"
    and "mms_dispatcher_is_active (sv_dispatcher s)" and "\<not> mms_dispatcher_is_started (sv_dispatcher s)"
    and "(service_callback en)\<^sup>*\<^sup>* (mms_engine_stop en now s) s'"
  shows "sv_stop_pending s' = 0 \<and> \<not> sv_idle_timer s' \<and> sv_loop s' = sv_loop s"
proof -
  let ?s = "s\<lparr>sv_stop_requested := True\<rparr>"
  have "forgotten ?s"
    using reaches_ok[OF assms(1)] assms(2,3,5) by (auto simp: forgotten_def service_ok_def mms_dispatcher_is_started_def)
  moreover have "mms_engine_stop en now s = with_dispatcher (mms_dispatcher_cancel (engine_dispatcher en) now None (sv_dispatcher ?s)) ?s"
    using assms(4) by (simp add: mms_engine_stop_def)
  ultimately have "forgotten (mms_engine_stop en now s)" and l: "sv_loop (mms_engine_stop en now s) = sv_loop s"
    using forgotten_dispatcher[of ?s] tells_cancel[of "sv_dispatcher ?s"] stop_ok[of s en now] reaches_ok[OF assms(1)]
    by (simp_all add: running_alike_def)
  with assms(6) have "forgotten s' \<and> sv_loop s' = sv_loop s"
  proof (induction rule: rtranclp_induct)
    case (step y z)
    then obtain d where d: "z = with_dispatcher d y" "tells_stop (sv_dispatcher y) d" by (blast elim: callback_cases)
    from d(2) have "sv_loop z = sv_loop y"
      unfolding d(1) by (cases rule: with_dispatcher_cases)
        (auto simp: mms_engine_delegate_dispatcher_done_def mms_engine_stop_schedule_def)
    with step d forgotten_dispatcher[of y d] show ?case by simp
  qed simp
  then show ?thesis by (simp add: forgotten_def)
qed

theorem exit_forgotten_witness:
  "sv_stop_pending (mms_engine_stop sample_engine 1000 (mms_engine_run_start False sample_resident)) = 0"
proof -
  let ?s = "mms_engine_run_start False sample_resident"
  have r: "service_reaches (\<lambda>(p :: unit) a. True) sample_engine sample_resident ?s" by (rule Begin)
  have s: "sv_dispatcher ?s = sample_queued" "sv_stop_pending ?s = 0"
    by (simp_all add: mms_engine_run_start_def Let_def sample_service_fields mms_dispatcher_start_def)
  have a: "mms_dispatcher_is_active (sv_dispatcher ?s)" "\<not> mms_dispatcher_is_started (sv_dispatcher ?s)"
    by (simp_all add: s mms_dispatcher_is_active_def mms_dispatcher_is_started_def sample_queued_fields)
  show ?thesis
    using exit_forgotten[OF r sample_service_fields(5) s(2) a rtranclp.rtrancl_refl, of 1000] by simp
qed

text \<open>C39. A call that makes a task (sending or receiving a message, a read report, a push) puts exactly one task into the
  queue and starts the dispatcher if it is answered with success, and leaves the queue and a stopped dispatcher alone
  if it is answered with an error; a success that could not start the dispatcher still leaves the task there. In
  either case it takes no request to end back. Nothing is said here of a call whose data make the decoder read out of
  range; it has no reply. The queue is not searched for a task with the same id: \<^verbatim>\<open>receiveMessage\<close> for a message that
  is being retrieved, or waits to be retried, queues a second task, though the interface description
  (\<^verbatim>\<open>org.nemomobile.MmsEngine.xml\<close>) says that it does nothing then, or wakes the first one up.\<close>

theorem request_queues_one_task:
  assumes "service_method check en now ok peer call s = Ret (reply, s')" and "creates_task call"
  shows "length (d_tasks (sv_dispatcher s')) = length (d_tasks (sv_dispatcher s)) + (if accepted reply then 1 else 0)
       \<and> (mms_dispatcher_is_started (sv_dispatcher s') \<longleftrightarrow> mms_dispatcher_is_started (sv_dispatcher s) \<or> (accepted reply \<and> ok))
       \<and> (accepted reply \<and> ok \<longrightarrow> d_next_run_id (sv_dispatcher s'))
       \<and> sv_stop_pending s' = sv_stop_pending s \<and> sv_stop_requested s' = sv_stop_requested s"
  using method_requested[OF assms] by (auto simp: requested_def mms_dispatcher_is_started_def)

theorem request_queues_one_task_witness:
  "\<exists>reply s'. service_method (\<lambda>(p :: unit) a. True) sample_engine 1000 True (Some ())
       (Send_Read_Report 5 (Some ''244'') (Some ''m1'') (Some ''+1'') 0) sample_service = Ret (reply, s')
     \<and> length (d_tasks (sv_dispatcher s')) = (if accepted reply then 1 else 0)"
proof -
  let ?call = "Send_Read_Report 5 (Some ''244'') (Some ''m1'') (Some ''+1'') 0"
  obtain b d where "mms_dispatcher_send_read_report sample_engine 1000 (Some (show_int 5)) (Some ''244'') (Some ''m1'')
      (Some ''+1'') MMS_READ_STATUS_READ (sv_dispatcher sample_service) = (b, d)" by fastforce
  then obtain reply s' where r: "service_method (\<lambda>(p :: unit) a. True) sample_engine 1000 True (Some ()) ?call sample_service = Ret (reply, s')"
    by (cases b) (simp_all add: mms_engine_handle_send_read_report_def mms_engine_dbus_access_allowed_def checked_def)
  moreover have "d_tasks (sv_dispatcher sample_service) = []" by (simp add: sample_service_fields mms_dispatcher_new_def)
  ultimately show ?thesis using request_queues_one_task[OF r] by simp
qed

text \<open>The action that the policy is asked about.\<close>

fun call_action :: "'p service_call \<Rightarrow> mms_engine_action" where
  "call_action (Send_Message _ _ _ _ _ _ _ _ _) = ENGINE_SEND_MESSAGE"
| "call_action (Send_Message_Fd _ _ _ _ _ _ _ _ _) = ENGINE_SEND_MESSAGE"
| "call_action (Receive_Message _ _ _ _) = ENGINE_RECEIVE_MESSAGE"
| "call_action (Send_Read_Report _ _ _ _ _) = ENGINE_SEND_READ_REPORT"
| "call_action (Cancel_Message _) = ENGINE_CANCEL"
| "call_action (Push_Notify _ _ _) = ENGINE_PUSH_NOTIFY"
| "call_action (Push _ _ _) = ENGINE_PUSH"
| "call_action (Other_Method action) = action"
| "call_action (Migrate_Settings _ _ _) = ENGINE_MIGRATE_SETTINGS"
| "call_action Exit_Engine = ENGINE_EXIT"

text \<open>A call that the policy does not allow, or whose sender has gone, is answered with a refusal and changes
  nothing: not the dispatcher and its queue, the settings, the files or what is scheduled; at most the idle timer is
  set anew. The policy is asked about the action of the call, but for \<^verbatim>\<open>sendMessageFd\<close> about \<^verbatim>\<open>sendMessage\<close>.\<close>

theorem denied_changes_nothing:
  assumes "case peer of None \<Rightarrow> True | Some p \<Rightarrow> \<not> check p (call_action call)"
  shows "service_method check en now ok peer call s = Ret (Reply_Denied, s)
       \<or> service_method check en now ok peer call s = Ret (Reply_Denied, mms_engine_idle_timer_check s)"
proof -
  have "\<not> mms_engine_dbus_access_allowed check peer (call_action call)"
    using assms by (auto simp: mms_engine_dbus_access_allowed_def split: option.splits)
  then show ?thesis
    by (cases call) (simp_all add: mms_engine_handle_send_message_def mms_engine_handle_send_message_fd_def
        mms_engine_handle_receive_message_def mms_engine_handle_send_read_report_def mms_engine_handle_cancel_def
        mms_engine_handle_push_notify_def mms_engine_handle_push_def mms_engine_handle_other_def
        mms_engine_handle_migrate_settings_def mms_engine_handle_exit_def checked_eq)
qed

theorem denied_changes_nothing_witness:
  "service_method (\<lambda>p a. p = (0 :: nat)) sample_engine 1000 True (Some 1) (Cancel_Message 5) sample_service
     \<in> {Ret (Reply_Denied, sample_service), Ret (Reply_Denied, mms_engine_idle_timer_check sample_service)}"
  using denied_changes_nothing[where peer = "Some 1" and check = "\<lambda>p a. p = (0 :: nat)" and call = "Cancel_Message 5"
      and en = sample_engine and now = 1000 and ok = True and s = sample_service]
  by simp

text \<open>What follows a bad index is not looked at.\<close>

lemma fd_attachments_stop:
  "\<not> (0 \<le> fdi \<and> fdi < int (length fds)) \<Longrightarrow> fd_attachments fds (as @ (fdi, names) # rest) = fd_attachments fds as"
  by (induction fds as rule: fd_attachments.induct) (cases names; auto split: option.splits prod.splits)+

text \<open>C40. An attachment of \<^verbatim>\<open>sendMessageFd\<close> whose index is outside the list of descriptors does not make the call fail:
  it is answered exactly like a call without that attachment and all that follow it, so when the others are good the
  message goes out incomplete, with a reply of success.\<close>

theorem fd_index_truncates:
  assumes "\<not> (0 \<le> fdi \<and> fdi < int (length fds))"
  shows "mms_engine_handle_send_message_fd check peer en now ok fds n imsi to cc bcc subject flags (as @ (fdi, names) # rest) s
       = mms_engine_handle_send_message_fd check peer en now ok fds n imsi to cc bcc subject flags as s"
  unfolding mms_engine_handle_send_message_fd_def fd_attachments_stop[OF assms] ..

theorem fd_index_truncates_witness:
  "mms_engine_handle_send_message_fd (\<lambda>(p :: unit) a. True) (Some ()) sample_engine 1000 True [Some [0x41]] 5 None [''+1''] [] [] None 0
     [(0, ''a.txt'', ''text/plain'', ''a''), (1, ''b.txt'', ''text/plain'', ''b''), (0, ''c.txt'', ''text/plain'', ''c'')] sample_service
   = mms_engine_handle_send_message_fd (\<lambda>(p :: unit) a. True) (Some ()) sample_engine 1000 True [Some [0x41]] 5 None [''+1''] [] [] None 0
     [(0, ''a.txt'', ''text/plain'', ''a'')] sample_service"
  using fd_index_truncates[of 1 "[Some [0x41]]" _ _ _ _ _ _ _ _ _ _ _ _ "[(0, ''a.txt'', ''text/plain'', ''a'')]"] by simp

end
