(* ===== verification/Spec2Isabelle.thy ===== *)
theory Spec2Isabelle
  imports Task_Lifecycle Connman_Nemo Connman_Ofono Handler_Dbus Transfer_List Mms_Service
begin

text \<open>
  A verification library for the MMS engine: the library under \<^verbatim>\<open>mms-lib/src\<close>, which turns WAP pushes and
  requests of the user into MMS transactions, in terms of the PDUs of the MMS encapsulation protocol, and the
  libraries that connect it to the system (connections, message handler, list of transfers, settings), and the
  service on D-Bus that runs it.

  The program. A dispatcher (\<^verbatim>\<open>mms_dispatcher.c\<close>) keeps a queue of tasks and one network connection. A task
  (\<^verbatim>\<open>mms_task.c\<close> and the files \<^verbatim>\<open>mms_task_*.c\<close>) is a state machine: a WAP push becomes a notification task, this
  one a retrieve task that fetches the message over HTTP (\<^verbatim>\<open>mms_task_http.c\<close>), this one a decode task that
  writes the parts of the message to files, and this one an acknowledgement for the MMSC and a publish task
  that hands the message to the user's program. An outgoing message is prepared and encoded by an encode task
  (attachments are made smaller until the message fits) and transmitted by a send task. The PDUs are read and
  written by \<^verbatim>\<open>mms_codec.c\<close>. Tasks report to the message handler (\<^verbatim>\<open>mms_handler.c\<close>), to the transfer list and
  to the dispatcher; the dispatcher gets its connections from a connection manager (\<^verbatim>\<open>mms_connman.c\<close>).

  The theories, from the bottom up.

  \<^item> \<^verbatim>\<open>Mms_Prelude\<close>: outcomes of a C computation (\<^verbatim>\<open>Ret\<close>, and \<^verbatim>\<open>Undef\<close> for what the C standard leaves
    undefined), bytes, C strings, the functions of libc and GLib that all sources use, named collections.
  \<^item> \<^verbatim>\<open>Content_Type\<close>, \<^verbatim>\<open>File_Buffer\<close>, \<^verbatim>\<open>Pdu\<close>, \<^verbatim>\<open>Pdu_Encoder\<close>, \<^verbatim>\<open>Pdu_Decoder\<close>: \<^verbatim>\<open>mms_codec.c\<close> and \<^verbatim>\<open>mms_codec.h\<close>: the
    parser and printer of HTTP media types, the buffered output with its file descriptor, the data of a PDU,
    the encoder and the decoder. Octets are 8 bit words; dates and values have the width the code gives them, so
    that truncation and wrap-around are those of the code; the lengths that the encoder computes in \<^verbatim>\<open>unsigned int\<close>
    are natural numbers, and what is claimed of it is for messages of less than 1 GiB. The readers of WAP values
    (\<^verbatim>\<open>wsputil.c\<close> of another package) are arguments of the definitions.
  \<^item> \<^verbatim>\<open>Mms_Util\<close>, \<^verbatim>\<open>Mms_Message\<close>: \<^verbatim>\<open>mms_util.c\<close>, \<^verbatim>\<open>mms_message.c\<close>.
  \<^item> \<^verbatim>\<open>Task_Core\<close>: \<^verbatim>\<open>mms_task.c\<close>. A task is an extensible record of the fields of the base object; each kind
    extends it by its own. The virtual functions are a record of functions (\<^verbatim>\<open>task_class\<close>), and the calls
    through it keep the order of the code: the check of the state, the virtual function, the wake up.
  \<^item> \<^verbatim>\<open>Connection\<close>, \<^verbatim>\<open>Task_Http\<close>, \<^verbatim>\<open>Task_Transfers\<close>: a transfer over HTTP as a step relation with the callbacks
    of libsoup as its events, and the five kinds of task that are such transfers.
  \<^item> \<^verbatim>\<open>Task_Decode\<close>, \<^verbatim>\<open>Task_Local\<close>: decoding a message into files, the notification task and the publish task.
  \<^item> \<^verbatim>\<open>Attachment\<close>, \<^verbatim>\<open>Image_Resize\<close>, \<^verbatim>\<open>Task_Encode\<close>: the attachments of an outgoing message, the arithmetic of
    making a picture smaller, and the encode task with its job.
  \<^item> \<^verbatim>\<open>Dispatcher\<close>, \<^verbatim>\<open>Dispatcher_Queue\<close>, \<^verbatim>\<open>Dispatcher_Steps\<close>: the dispatcher for any class of task; the order of
    its queue; what holds after any sequence of its callbacks and calls (\<^verbatim>\<open>dispatcher_step\<close>). A task that
    has left the queue may live on until the thread of its job has ended; its number is in \<^verbatim>\<open>d_held\<close> so long, and it
    is counted. The contract a task class has to satisfy is a chain of locales (\<^verbatim>\<open>dispatcher_contract\<close>, \<^verbatim>\<open>dispatcher_weights\<close>).
  \<^item> \<^verbatim>\<open>Task_Queueing\<close>, \<^verbatim>\<open>Engine\<close>, \<^verbatim>\<open>Task_Lifecycle\<close>: all kinds of task in one dispatcher (\<^verbatim>\<open>task_object\<close> is the
    sum of their private data), the functions of the library's interface, the locale \<^verbatim>\<open>engine\<close> with the laws of
    the parts that are not under \<^verbatim>\<open>mms-lib\<close> and its interpretation on a sample, the states a task goes through
    (locale \<^verbatim>\<open>task_life\<close>, interpreted for each kind of task), and the refinement to a board of tasks.
  \<^item> \<^verbatim>\<open>Connman\<close>, \<^verbatim>\<open>Gofono\<close>, \<^verbatim>\<open>Connection_Nemo\<close>, \<^verbatim>\<open>Connection_Ofono\<close>, \<^verbatim>\<open>Connman_Nemo\<close>, \<^verbatim>\<open>Connman_Ofono\<close>: the
    connection managers and their connections (\<^verbatim>\<open>mms-connman-nemo\<close>, \<^verbatim>\<open>mms-connman-ofono\<close>) over the objects of
    libgofono, whose properties are read and whose notifications are events. \<^verbatim>\<open>connection_contract\<close> is what a
    client may rely on for any connection; both kinds interpret it.
  \<^item> \<^verbatim>\<open>Busy_Object\<close>, \<^verbatim>\<open>Message_Handler\<close>, \<^verbatim>\<open>Handler_Dbus\<close>: the message handler (\<^verbatim>\<open>mms_handler.c\<close>) and the one over
    D-Bus (\<^verbatim>\<open>mms-handler-dbus\<close>), with pending calls, cancellation and references. \<^verbatim>\<open>busy_object\<close> is the contract of
    an object that counts its pending calls; the nemo connection manager and the handler interpret it.
  \<^item> \<^verbatim>\<open>Transfer_Dbus\<close>, \<^verbatim>\<open>Transfer_List\<close>: the transfers published on D-Bus (\<^verbatim>\<open>mms_transfer_list.c\<close>,
    \<^verbatim>\<open>mms-transfer-list-dbus\<close>). A transfer refines a set of subscriptions; a client's view of the list is the table.
  \<^item> \<^verbatim>\<open>Settings\<close>, \<^verbatim>\<open>Settings_Dconf\<close>: the settings (\<^verbatim>\<open>mms_settings.c\<close>, \<^verbatim>\<open>mms-settings-dconf\<close>): configuration files, and
    the database of dconf with its changes, its types of values and the move of old settings.
  \<^item> \<^verbatim>\<open>Mms_Service\<close>: the service (\<^verbatim>\<open>mms-engine/mms_engine.c\<close>): the methods on D-Bus, each with the call of the
    dispatcher it becomes, and the end of the process (idle timer, request to end).

  What the groups of lemmas show. For the codec: what the encoder writes is within its buffer and is the
  grammar's octet sequence, the announced lengths are the written ones, the decoder always returns and accepts
  only PDUs with their mandatory headers first, and the round trips the code supports. For each kind of
  task: an invariant that every callback keeps, the assertions of the code follow from it, each outcome is
  reported once, the retries end. For the dispatcher: tasks are neither lost nor duplicated, a run comes to an
  end, the end of activity is told, a task transmits only over an open connection of its SIM. For the
  libraries around it: a connection's states, the count of pending calls, who is told about a transfer, and
  which settings are those of the database at any time, as invariants of all sequences of events.

  Bounds and fuel. No loop of the model has fuel that a caller chooses. The header loop of the decoder consumes
  at least one octet in each round; the loops over attachments, tasks and parameters are structural; the search
  for a resize step is bounded by the size of the picture. The loop of a run of the dispatcher is
  a partial function into \<^verbatim>\<open>option\<close>; \<^verbatim>\<open>run_terminates\<close> proves that it returns, by the weight of the queue
  (\<^verbatim>\<open>task_weight\<close>): what a task can still do, and queue, before it waits for something.

  Not modelled. The command line and the log of the service (\<^verbatim>\<open>main.c\<close>, \<^verbatim>\<open>mms_log.c\<close>), its export on the bus, the tools
  \<^verbatim>\<open>mms-dump\<close> and \<^verbatim>\<open>mms-send\<close>, the wrappers of error values and library initialisation. Reference counts, but for
  the oFono connections, the handler on D-Bus and the tasks that outlive their place in the queue (a reference the
  code drops too early is a finding where it was noticed), log output, GLib's main loop (a source is a flag and its
  callback a step, in any order), the contents of temporary directories beyond what is written to and removed from them, and the code of other packages
  (libsoup, GMime, libmagic, libjpeg, ImageMagick, wsputil), which are arguments of the definitions with their
  documented behaviour as named hypotheses.
\<close>

section \<open>The engine from its start\<close>

text \<open>The dispatcher with the tasks of the library, after any sequence of callbacks and calls.\<close>

inductive engine_reaches ::
    "('it, 'mi, 'u, 's) engine_env \<Rightarrow> bool \<Rightarrow> (request, 'u task_object) mms_dispatcher \<Rightarrow> bool"
  for en delegate where
  Start: "engine_reaches en delegate (mms_dispatcher_new delegate)"
| Step: "engine_reaches en delegate d
    \<Longrightarrow> dispatcher_step (engine_dispatcher en) (engine_event en) (user_task en) d d' \<Longrightarrow> engine_reaches en delegate d'"

lemma reaches_steps:
  "engine_reaches en delegate d \<Longrightarrow>
   (dispatcher_step (engine_dispatcher en) (engine_event en) (user_task en))\<^sup>*\<^sup>* (mms_dispatcher_new delegate) d"
  by (induction rule: engine_reaches.induct) auto

lemma reaches_settled: "engine_reaches en delegate d \<Longrightarrow> settled_between d"
  by (rule steps_settled [OF reaches_steps])

lemma reaches_good:
  assumes "soup_laws (en_http en)" and "queue_sort_ok (en_sort en)" and "engine_reaches en delegate d"
  shows "all_good engine_ok {#} d" and "d_active_task d = None"
  using engine.engine_steps_good [OF engine.intro [OF assms(1,2)] reaches_steps [OF assms(3)]]
  by (simp_all add: settled_between_def)

text \<open>The sample runs.\<close>

lemma reaches_queue_new: "engine_reaches en delegate d \<Longrightarrow> engine_reaches en delegate (snd (queue_new en now (Some rq) d))"
  by (erule Step) (auto simp: queue_new_def intro: dispatcher_step.Queue user_task.Request split: prod.split)

lemma reaches_next_run:
  "engine_reaches en delegate d \<Longrightarrow> d_next_run_id d
   \<Longrightarrow> mms_dispatcher_next_run (engine_dispatcher en) now d \<noteq> None
   \<Longrightarrow> engine_reaches en delegate (the (mms_dispatcher_next_run (engine_dispatcher en) now d))"
  by (erule Step) (auto intro: dispatcher_step.Next_Run)

lemma sample_started_reached: "engine_reaches sample_engine True sample_started"
  unfolding sample_started_def sample_queued_def
  by (rule Step [OF reaches_queue_new [OF Start]]) (rule dispatcher_step.Start)

lemma sample_connecting_reached: "engine_reaches sample_engine True sample_connecting"
  unfolding sample_connecting_def
  by (rule reaches_next_run [OF sample_started_reached]) code_simp+

lemma sample_publishing_reached: "engine_reaches sample_engine True sample_publishing"
  unfolding sample_publishing_def
  by (rule reaches_next_run, rule Step [OF Step [OF reaches_queue_new [OF Start] dispatcher_step.Start]
        dispatcher_step.Handler_Busy])
     (simp, code_simp+)

lemma sample_publishing_task:
  "case map mms_task.more (d_tasks sample_publishing) of [Publish_Object x] \<Rightarrow> True | _ \<Rightarrow> False"
  "map t_state (d_tasks sample_publishing) = [MMS_TASK_STATE_PENDING]"
  by code_simp+

lemma sample_published_reached: "engine_reaches sample_engine True sample_published"
proof -
  obtain t x where t: "d_tasks sample_publishing = [t]" "mms_task.more t = Publish_Object x"
      "t_state t = MMS_TASK_STATE_PENDING"
    using sample_publishing_task by (auto split: list.splits task_object.splits)
  have "publish_event (en_handler sample_engine) (down t x) (mms_task_publish_done 1010 True (down t x))"
    by (rule publish_event.Done) (simp add: t)
  then have "engine_event sample_engine (d_tasks sample_publishing ! 0) (published (hd (d_tasks sample_publishing)))"
    by (auto simp: t engine_event_def published_def virtual.simps)
  then show ?thesis
    unfolding sample_published_def
    by (intro Step [OF sample_publishing_reached] dispatcher_step.Task_Callback) (simp add: t)
qed

lemma sample_idle_reached: "engine_reaches sample_engine True sample_idle"
  unfolding sample_idle_def
  by (rule Step [OF reaches_next_run [OF sample_published_reached] dispatcher_step.Handler_Done]) code_simp+

text \<open>C17. Whatever the main loop and the users of the library do, in whatever order, no task is lost and none
  is duplicated: the tasks that have ever been put into the queue are those that are in it and those that
  were released, and only tasks that are done are released. The static counters count the tasks of the queue and
  those that exist without being in it: a released task that the thread of its encoding job still refers to, and
  one that \<^verbatim>\<open>mms_task_decode_new\<close> leaks. The order numbers of all of them are different from each other, and each
  task of the queue satisfies the invariant of its kind.\<close>

theorem every_task_accounted:
  assumes "soup_laws (en_http en)" and "queue_sort_ok (en_sort en)" and "engine_reaches en delegate d"
  shows "mset (orders_created (d_calls d)) =
        mset (map t_order (d_tasks d)) + mset (map fst (orders_released (d_calls d)))
    \<and> list_all (\<lambda>(n, st). st = MMS_TASK_STATE_DONE) (orders_released (d_calls d))
    \<and> mms_task_count (d_counters d) = int (length (d_tasks d) + length (d_held d))
    \<and> distinct (map t_order (d_tasks d) @ d_held d)
    \<and> list_all (\<lambda>t. t_order t < mms_task_order (d_counters d) \<and> t_delegate t \<and> engine_ok t) (d_tasks d)"
proof -
  have good: "all_good engine_ok {#} d"
    by (rule reaches_good [OF assms])
  then obtain live where live: "tasks_alive (d_counters d) live" "mset live = mset (map t_order (d_tasks d) @ d_held d)"
    by (auto simp: all_good_def accounted_def orders_alive_def)
  note orders = orders_follow_creation [OF live(1)]
  have "distinct live"
    using orders by (auto simp: sorted_wrt_iff_nth_less distinct_conv_nth neq_iff) 
  then have "distinct (map t_order (d_tasks d) @ d_held d)"
    using live(2) mset_eq_imp_distinct_iff by blast
  moreover have "length live = length (d_tasks d) + length (d_held d)"
    using arg_cong [OF live(2), of size] by simp
  moreover have "set live = t_order ` set (d_tasks d) \<union> set (d_held d)"
    using arg_cong [OF live(2), of set_mset] by simp
  ultimately show ?thesis
    using good orders by (auto simp: all_good_def accounted_def list_all_iff)
qed

theorem every_task_accounted_witness:
  "distinct (map t_order (d_tasks sample_connecting)) \<and> mms_task_count (d_counters sample_connecting) = 1"
proof -
  have "length (d_tasks sample_connecting) = 1" and "d_held sample_connecting = []" by code_simp+
  then show ?thesis
    using every_task_accounted [OF sample.soup sample.sort sample_connecting_reached] by simp
qed

text \<open>C18. The dispatcher implements a board of tasks: each of its steps, however many tasks it runs, is a
  sequence of elementary steps, in which a task with a fresh number is put on the board as \<^verbatim>\<open>READY\<close>, a task goes
  from its state to a state that may follow (never back from \<^verbatim>\<open>DONE\<close>, to \<^verbatim>\<open>TRANSMITTING\<close> only from one of the
  states that need a connection), or a task that is \<^verbatim>\<open>DONE\<close> is taken off.\<close>

theorem dispatcher_refines_board:
  assumes "soup_laws (en_http en)" and "queue_sort_ok (en_sort en)" and "engine_reaches en delegate d"
    and "dispatcher_step (engine_dispatcher en) (engine_event en) (user_task en) d d'"
  shows "board_step\<^sup>*\<^sup>* (image_mset (\<lambda>t. (t_order t, t_state t)) (mset (d_tasks d)))
           (image_mset (\<lambda>t. (t_order t, t_state t)) (mset (d_tasks d')))"
  using engine.engine_step_simulated [OF engine.intro [OF assms(1,2)] assms(4)] reaches_good [OF assms(1-3)]
  by (simp add: board_of_def entry_def [abs_def])

theorem dispatcher_refines_board_witness:
  "board_step\<^sup>*\<^sup>* {#(0, MMS_TASK_STATE_READY)#} {#(0, MMS_TASK_STATE_NEED_CONNECTION)#}"
proof -
  have step: "dispatcher_step (engine_dispatcher sample_engine) (engine_event sample_engine) (user_task sample_engine)
      sample_started sample_connecting"
    unfolding sample_connecting_def by (rule dispatcher_step.Next_Run [where now = 1000]) (code_simp, code_simp)
  have "map (\<lambda>t. (t_order t, t_state t)) (d_tasks sample_started) = [(0, MMS_TASK_STATE_READY)]"
    and "map (\<lambda>t. (t_order t, t_state t)) (d_tasks sample_connecting) = [(0, MMS_TASK_STATE_NEED_CONNECTION)]"
    by code_simp+
  then show ?thesis
    using dispatcher_refines_board [OF sample.soup sample.sort sample_started_reached step]
    by (metis image_mset_single mset_map mset.simps)
qed

text \<open>C19. A run of the dispatcher always comes to an end: a task does a bounded amount of work, and queues a
  bounded number of tasks, before it waits for something. When it ends without an open connection and without
  another run being scheduled, no task could be run, except behind a task of the higher priority that waits.\<close>

theorem run_terminates:
  assumes "soup_laws (en_http en)" and "queue_sort_ok (en_sort en)" and "engine_reaches en delegate d"
  shows "\<exists>d'. mms_dispatcher_run (engine_dispatcher en) now d = Some d' \<and> drained d'"
proof -
  note good = reaches_good [OF assms]
  obtain d' where run: "mms_dispatcher_run (engine_dispatcher en) now d = Some d'"
    using engine.engine_run_total [OF engine.intro [OF assms(1,2)] good(1), of now] by (elim exE)
  have "drained d'"
    by (rule engine.engine_run_drained [OF engine.intro [OF assms(1,2)] run good])
  with run show ?thesis by (intro exI conjI)
qed

theorem run_terminates_witness:
  "\<exists>d'. mms_dispatcher_run (engine_dispatcher sample_engine) 1000 sample_started = Some d' \<and> drained d'"
  by (rule run_terminates [OF sample.soup sample.sort sample_started_reached])

text \<open>A dispatcher without activity tells so in the scheduled run.\<close>

lemma end_of_activity:
  assumes "queue_sort_ok (en_sort en)" and "engine_reaches en delegate d"
    and "d_delegate d" and "d_started d" and "\<not> mms_dispatcher_is_active d"
  shows "d_next_run_id d \<and> (\<exists>d'. mms_dispatcher_next_run (engine_dispatcher en) now d = Some d'
    \<and> d_calls d' = d_calls d @ [Dispatcher_Done] \<and> \<not> d_started d' \<and> \<not> d_next_run_id d')"
proof -
  have idle: "d_tasks d = []" "d_active_task d = None" "\<not> mms_connection_is_active (d_connection d)"
    "d_handler_busy d \<le> 0" "d_connman_busy d \<le> 0"
    using assms(5) by (auto simp: mms_dispatcher_is_active_def)
  have "d_next_run_id d"
    using reaches_settled [OF assms(2)] assms(3-5) by (simp add: settled_between_def will_be_done_def)
  moreover have "sorted_tasks (engine_dispatcher en) (d\<lparr>d_next_run_id := False\<rparr>) = []"
    using sorted_tasks_mset [of "engine_dispatcher en" "d\<lparr>d_next_run_id := False\<rparr>"] assms(1) idle(1)
    by (simp add: engine_dispatcher_def)
  then have loop: "mms_dispatcher_loop (engine_dispatcher en) now (d\<lparr>d_next_run_id := False\<rparr>)
      = Some (d\<lparr>d_next_run_id := False, d_tasks := []\<rparr>)"
    by (subst mms_dispatcher_loop.simps) (simp add: pick_eq)
  ultimately show ?thesis
    using idle assms(3,4)
    by (simp add: mms_dispatcher_next_run_def mms_dispatcher_run_def loop mms_dispatcher_check_if_done_def
        mms_dispatcher_is_active_def mms_dispatcher_network_idle_check_def d_tell_def Let_def)
qed

text \<open>C20. The end of activity is told: whenever a dispatcher that has been started and has a delegate is not
  active any more, a run is scheduled, and this run tells the delegate that the dispatcher is done.\<close>

theorem end_of_activity_told:
  assumes "queue_sort_ok (en_sort en)" and "engine_reaches en delegate d"
    and "d_delegate d" and "d_started d" and "\<not> mms_dispatcher_is_active d"
  shows "d_next_run_id d \<and> (\<exists>d'. mms_dispatcher_next_run (engine_dispatcher en) now d = Some d'
    \<and> d_calls d' = d_calls d @ [Dispatcher_Done] \<and> \<not> d_started d' \<and> \<not> d_next_run_id d')"
  by (rule end_of_activity [OF assms])

theorem end_of_activity_told_witness:
  "\<exists>d'. mms_dispatcher_next_run (engine_dispatcher sample_engine) 1020 sample_idle = Some d'
     \<and> d_calls d' = d_calls sample_idle @ [Dispatcher_Done]"
proof -
  have "d_delegate sample_idle" and "d_started sample_idle" and "\<not> mms_dispatcher_is_active sample_idle"
    by code_simp+
  from end_of_activity_told [OF sample.sort sample_idle_reached this, of 1020] show ?thesis by blast
qed

text \<open>C21. A task transmits only over an open connection of its own SIM. The dispatcher listens to a connection
  exactly while it has one, and the timer for closing an idle connection runs only while there is one.\<close>

theorem transmits_over_own_connection:
  assumes "engine_reaches en delegate d"
  shows "(\<forall>imsi c. Task_Transmitted imsi c \<in> set (d_calls d)
      \<longrightarrow> imsi = Some (c_imsi c) \<and> c_state c = MMS_CONNECTION_STATE_OPEN)
    \<and> (d_connection_changed_id d \<longleftrightarrow> d_connection d \<noteq> None)
    \<and> (d_network_idle_id d \<longrightarrow> d_connection d \<noteq> None)"
  using reaches_settled [OF assms] by (simp add: settled_between_def wired_def sent_ok_def)

theorem transmits_over_own_connection_witness:
  "d_connection sample_connecting \<noteq> None \<and> d_connection_changed_id sample_connecting"
proof -
  have "d_connection_changed_id sample_connecting" by code_simp
  then show ?thesis
    using transmits_over_own_connection [OF sample_connecting_reached] by simp
qed

text \<open>C22. Cancelling by id puts exactly the tasks with this id, or all tasks for no id, into the state \<^verbatim>\<open>DONE\<close>
  and marks them as cancelled; it leaves the other tasks alone, queues nothing and takes no task away.\<close>

theorem cancel_hits_exactly:
  assumes "soup_laws (en_http en)" and "queue_sort_ok (en_sort en)" and "engine_reaches en delegate d"
    and "d' = mms_dispatcher_cancel (engine_dispatcher en) now ident d" and "i < length (d_tasks d)"
  shows "length (d_tasks d') = length (d_tasks d)
    \<and> t_order (d_tasks d' ! i) = t_order (d_tasks d ! i)
    \<and> (if ident = None \<or> ident = Some [] \<or> t_id (d_tasks d ! i) = ident
       then t_state (d_tasks d' ! i) = MMS_TASK_STATE_DONE \<and> cancelled (d_tasks d' ! i)
       else d_tasks d' ! i = d_tasks d ! i)"
proof -
  let ?cancel = "mms_task_cancel (e_class (engine_dispatcher en)) now"
  note good = reaches_good [OF assms(1-3)]
  note exact = engine.engine_cancel_exactly [OF engine.intro [OF assms(1,2)] good assms(4)]
  have t: "d_tasks d ! i \<in> set (d_tasks d)" "engine_ok (d_tasks d ! i)"
    using assms(5) good(1) by (auto simp: all_good_def)
  have "t_order (?cancel (d_tasks d ! i)) = t_order (d_tasks d ! i)"
    using engine_cancel_law [OF t(2), of en now]
    by (simp add: mms_task_cancel_def engine_dispatcher_def kept_def same_task_def)
  moreover have "mms_task_match_id (Some (d_tasks d ! i)) ident \<longleftrightarrow>
      ident = None \<or> ident = Some [] \<or> t_id (d_tasks d ! i) = ident"
    by (auto simp: mms_task_match_id_def nonempty_def split: option.splits)
  ultimately show ?thesis
    using exact t(1) assms(5) by simp
qed

theorem cancel_hits_exactly_witness:
  "t_state (d_tasks (mms_dispatcher_cancel (engine_dispatcher sample_engine) 1010 None sample_connecting) ! 0)
     = MMS_TASK_STATE_DONE"
proof -
  have "length (d_tasks sample_connecting) = 1" by code_simp
  then show ?thesis
    using cancel_hits_exactly [OF sample.soup sample.sort sample_connecting_reached refl, of 0 1010 None] by simp
qed

text \<open>C23. When the connection fails or is closed, the dispatcher forgets it and its timer, each task that used it
  or waited for it sleeps or is done, the other tasks are as before, and another run is scheduled.\<close>

theorem connection_loss:
  assumes "soup_laws (en_http en)" and "queue_sort_ok (en_sort en)" and "engine_reaches en delegate d"
    and "d_connection d \<noteq> None" and "c_state c = MMS_CONNECTION_STATE_FAILED \<or> c_state c = MMS_CONNECTION_STATE_CLOSED"
    and "d' = mms_dispatcher_connection_state_changed (engine_dispatcher en) now c d" and "i < length (d_tasks d)"
  shows "d_connection d' = None \<and> \<not> d_network_idle_id d' \<and> d_next_run_id d'
    \<and> length (d_tasks d') = length (d_tasks d)
    \<and> (if uses_connection (d_tasks d ! i) \<and> t_imsi (d_tasks d ! i) = Some (c_imsi c)
       then t_state (d_tasks d' ! i) = MMS_TASK_STATE_SLEEP \<or> t_state (d_tasks d' ! i) = MMS_TASK_STATE_DONE
       else d_tasks d' ! i = d_tasks d ! i)"
proof -
  let ?gone = "mms_task_network_unavailable (e_class (engine_dispatcher en)) now True"
  note good = reaches_good [OF assms(1-3)]
  note lost = engine.engine_connection_lost [OF engine.intro [OF assms(1,2)] good(1) reaches_settled [OF assms(3)]
      assms(4-6)]
  have "t_state (?gone (d_tasks d ! i)) = MMS_TASK_STATE_SLEEP \<or> t_state (?gone (d_tasks d ! i)) = MMS_TASK_STATE_DONE"
    if "uses_connection (d_tasks d ! i)"
    using that assms(7) good(1) engine_unavailable_law [of "d_tasks d ! i" en now True]
    by (auto simp: mms_task_network_unavailable_def uses_connection_def all_good_def engine_dispatcher_def)
  moreover have "d_tasks d' ! i = (if uses_connection (d_tasks d ! i) \<and> t_imsi (d_tasks d ! i) = Some (c_imsi c)
      then ?gone (d_tasks d ! i) else d_tasks d ! i)"
    using lost(4) assms(7) by simp
  moreover have "length (d_tasks d') = length (d_tasks d)"
    using lost(4) by simp
  ultimately show ?thesis using lost(1-3) by presburger
qed

theorem connection_loss_witness:
  "d_connection (mms_dispatcher_connection_state_changed (engine_dispatcher sample_engine) 1010
       (sample_connection\<lparr>c_state := MMS_CONNECTION_STATE_FAILED\<rparr>) sample_connecting) = None"
proof -
  have "d_connection sample_connecting \<noteq> None" and "0 < length (d_tasks sample_connecting)"
    by code_simp+
  from connection_loss [OF sample.soup sample.sort sample_connecting_reached this(1) _ refl this(2), THEN conjunct1]
  show ?thesis by simp
qed

text \<open>When the last reference to the dispatcher goes away, every task it still has is cancelled and released;
  then all tasks ever created have been released, and the static counters count what is left without being in the
  queue; if there is nothing, they are as they were before the first task.\<close>

theorem finalize_releases_all:
  assumes "soup_laws (en_http en)" and "queue_sort_ok (en_sort en)" and "engine_reaches en delegate d"
    and "d' = mms_dispatcher_finalize (engine_dispatcher en) now d"
  shows "d_tasks d' = [] \<and> d_connection d' = None
    \<and> mms_task_count (d_counters d') = int (length (d_held d'))
    \<and> (d_held d' = [] \<longrightarrow> d_counters d' = \<lparr>mms_task_order = 0, mms_task_count = 0\<rparr>)
    \<and> mset (orders_created (d_calls d')) = mset (map fst (orders_released (d_calls d')))
    \<and> list_all (\<lambda>(n, st). st = MMS_TASK_STATE_DONE) (orders_released (d_calls d'))"
proof -
  note final = engine.engine_good_finalize [OF engine.intro [OF assms(1,2)] reaches_good(1) [OF assms(1-3)], of now,
      folded assms(4)]
  then obtain live where live: "tasks_alive (d_counters d') live" "mset live = mset (d_held d')"
    by (auto simp: all_good_def accounted_def orders_alive_def)
  have "mms_task_count (d_counters d') = int (length (d_held d'))"
    using orders_follow_creation [OF live(1)] arg_cong [OF live(2), of size] by simp
  moreover have "d_counters d' = \<lparr>mms_task_order = 0, mms_task_count = 0\<rparr>" if "d_held d' = []"
    using that live nothing_alive by simp
  ultimately show ?thesis
    using final by (auto simp: all_good_def accounted_def list_all_iff)
qed

theorem finalize_releases_all_witness:
  "d_tasks (mms_dispatcher_finalize (engine_dispatcher sample_engine) 1020 sample_connecting) = []"
  using finalize_releases_all [OF sample.soup sample.sort sample_connecting_reached refl] by simp

section \<open>The service with its dispatcher\<close>

lemma runs_reach: "runs en (mms_dispatcher_new delegate) d \<Longrightarrow> engine_reaches en delegate d"
  by (induction rule: rtranclp_induct) (auto intro: engine_reaches.intros)

lemma service_engine:
  assumes "sv_dispatcher s0 = mms_dispatcher_new True" and "service_reaches check en s0 s"
    and "(service_step check en)\<^sup>*\<^sup>* (mms_engine_stop en now s) s'"
  shows "engine_reaches en True (sv_dispatcher s')" and "d_delegate (sv_dispatcher s')"
proof -
  have "runs en (mms_dispatcher_new True) (sv_dispatcher s')"
    using service_reaches_runs [OF assms(2)] service_steps_run [OF assms(3)] runs_stop [of en s now] assms(1)
    by (metis rtranclp_trans)
  from runs_reach [OF this] runs_delegate [OF this]
  show "engine_reaches en True (sv_dispatcher s')" and "d_delegate (sv_dispatcher s')"
    by (simp_all add: mms_dispatcher_new_def)
qed

text \<open>C37. A request to end is honoured, if it comes while the dispatcher is not active or is started: then, whatever methods are called and whatever callbacks come after that, as long as the main loop runs its end is
  scheduled or the dispatcher is still started; and as soon as the dispatcher is not active any more, the end is
  scheduled, or a run of the dispatcher is, and this run comes to an end and schedules it. (A request that comes while
  the dispatcher is active without being started is another matter: it is forgotten.)\<close>

theorem service_ends:
  assumes "queue_sort_ok (en_sort en)" and "sv_dispatcher s0 = mms_dispatcher_new True" and "service_reaches check en s0 s"
    and "\<not> mms_dispatcher_is_active (sv_dispatcher s) \<or> mms_dispatcher_is_started (sv_dispatcher s)"
    and "(service_step check en)\<^sup>*\<^sup>* (mms_engine_stop en now s) s'" and "sv_loop s'"
  shows "0 < sv_stop_pending s'
       \<or> (mms_dispatcher_is_started (sv_dispatcher s')
          \<and> (mms_dispatcher_is_active (sv_dispatcher s')
             \<or> d_next_run_id (sv_dispatcher s')
               \<and> (\<exists>d'. mms_dispatcher_next_run (engine_dispatcher en) later (sv_dispatcher s') = Some d'
                     \<and> 0 < sv_stop_pending (with_dispatcher d' s'))))"
proof -
  note ends = exit_honoured [OF assms(4,5,6)]
  show ?thesis
  proof (cases "0 < sv_stop_pending s' \<or> mms_dispatcher_is_active (sv_dispatcher s')")
    case True
    with ends show ?thesis by blast
  next
    case False
    with ends have s: "d_started (sv_dispatcher s')" "sv_stop_requested s'" by (simp_all add: mms_dispatcher_is_started_def)
    from False end_of_activity [OF assms(1) service_engine [OF assms(2,3,5)] s(1), of later]
    obtain d' where d': "d_next_run_id (sv_dispatcher s')"
        "mms_dispatcher_next_run (engine_dispatcher en) later (sv_dispatcher s') = Some d'"
        "d_calls d' = d_calls (sv_dispatcher s') @ [Dispatcher_Done]" "\<not> d_started d'" by blast
    have "0 < sv_stop_pending (with_dispatcher d' s')"
      by (simp add: with_dispatcher_def done_count_def d'(3) delegate_done_fields s(2))
    with d' s(1) show ?thesis by (auto simp: mms_dispatcher_is_started_def)
  qed
qed

theorem service_ends_witness:
  "0 < sv_stop_pending (mms_engine_stop sample_engine 1000 (mms_engine_run_start True sample_service))"
proof -
  let ?s = "mms_engine_run_start True sample_service"
  have r: "service_reaches (\<lambda>(p :: unit) a. True) sample_engine sample_service ?s" by (rule Begin)
  have s: "sv_dispatcher ?s = mms_dispatcher_new True" "sv_loop ?s"
    by (simp_all add: mms_engine_run_start_def Let_def sample_service_fields mms_dispatcher_start_def mms_dispatcher_new_def)
  have i: "\<not> mms_dispatcher_is_active (sv_dispatcher ?s)"
    by (simp add: s mms_dispatcher_is_active_def mms_dispatcher_new_def mms_connection_is_active_def)
  then have e: "sv_loop (mms_engine_stop sample_engine 1000 ?s)"
      "sv_dispatcher (mms_engine_stop sample_engine 1000 ?s) = mms_dispatcher_new True"
    by (simp_all add: mms_engine_stop_def mms_engine_stop_schedule_def s)
  show ?thesis
    using service_ends [OF sample.sort sample_service_fields(1) r disjI1 [OF i] rtranclp.rtrancl_refl e(1)] e(2)
    by (auto simp: mms_dispatcher_is_started_def mms_dispatcher_new_def)
qed

end
